(* ===== verification/Prelude.thy ===== *)
theory Prelude
  imports Main "HOL-Library.Char_ord" "HOL-Library.List_Lexorder" "HOL-Library.Multiset"
begin

text \<open>
  What every component of the model shares.

  Strings.  A Python \<open>str\<close> is represented by its UTF-8 encoding, a list of 8-bit characters.
  UTF-8 is injective, turns a prefix into a prefix and keeps the code point order, so \<open>==\<close>,
  \<open>startswith\<close>, \<open>+\<close> and \<open>sorted\<close> are the list operations; \<open>len(s)\<close> counts code points, which is
  \<open>py_len\<close>.  A Python \<open>bytes\<close> is the same type, and \<open>s.encode("utf-8")\<close> is the identity.

  Exceptions.  A raise is a value: a computation returns \<open>exn + 'a\<close> with \<open>Inl\<close> the exception
  (its class and message) and \<open>Inr\<close> the result, and \<open>and_then\<close> is the sequencing of statements.
  \<open>catches\<close> is the subclass relation an \<open>except\<close> clause tests.
\<close>

section \<open>Exceptions\<close>

datatype exc =
    BaseException | PyException | ValueError | TypeError | KeyError | RuntimeError | PermissionError
  | AttributeError | IndexError | EvidenceIntegrityError | PolicyError | GatekeeperRejected
  | RepairRejected | RebuildError | ParityError | FleetError | ProbeError | CoverageProtocolError
  | AttackProtocolError | SealBroken | AssertionError | ConfinementError | WebMCPServiceError
  | SandboxUnavailable | OSError | UserException string

type_synonym exn = "exc \<times> string"
type_synonym 'a res = "exn + 'a"

fun super_class :: "exc \<Rightarrow> exc" where
  "super_class BaseException = BaseException"
| "super_class PyException = BaseException"
| "super_class PolicyError = ValueError"
| "super_class ParityError = ValueError"
| "super_class FleetError = ValueError"
| "super_class AttackProtocolError = ValueError"
| "super_class EvidenceIntegrityError = RuntimeError"
| "super_class GatekeeperRejected = RuntimeError"
| "super_class RepairRejected = RuntimeError"
| "super_class RebuildError = RuntimeError"
| "super_class ProbeError = RuntimeError"
| "super_class CoverageProtocolError = RuntimeError"
| "super_class SealBroken = RuntimeError"
| "super_class ConfinementError = RuntimeError"
| "super_class WebMCPServiceError = RuntimeError"
| "super_class SandboxUnavailable = RuntimeError"
| "super_class PermissionError = OSError"
| "super_class c = PyException"

text \<open>\<open>except C\<close> catches an exception whose class is \<open>C\<close> or below it; no chain is longer than 3.\<close>

definition catches :: "exc \<Rightarrow> exn \<Rightarrow> bool" where
  "catches c e \<longleftrightarrow> c \<in> {fst e, super_class (fst e), super_class (super_class (fst e)),
                        super_class (super_class (super_class (fst e)))}"

text \<open>\<open>type(exc).__name__\<close>.\<close>

fun class_name :: "exc \<Rightarrow> string" where
  "class_name BaseException = ''BaseException''"
| "class_name PyException = ''Exception''"
| "class_name ValueError = ''ValueError''"
| "class_name TypeError = ''TypeError''"
| "class_name KeyError = ''KeyError''"
| "class_name RuntimeError = ''RuntimeError''"
| "class_name PermissionError = ''PermissionError''"
| "class_name AttributeError = ''AttributeError''"
| "class_name IndexError = ''IndexError''"
| "class_name EvidenceIntegrityError = ''EvidenceIntegrityError''"
| "class_name PolicyError = ''PolicyError''"
| "class_name GatekeeperRejected = ''GatekeeperRejected''"
| "class_name RepairRejected = ''RepairRejected''"
| "class_name RebuildError = ''RebuildError''"
| "class_name ParityError = ''ParityError''"
| "class_name FleetError = ''FleetError''"
| "class_name ProbeError = ''ProbeError''"
| "class_name CoverageProtocolError = ''CoverageProtocolError''"
| "class_name AttackProtocolError = ''AttackProtocolError''"
| "class_name SealBroken = ''SealBroken''"
| "class_name AssertionError = ''AssertionError''"
| "class_name ConfinementError = ''ConfinementError''"
| "class_name WebMCPServiceError = ''WebMCPServiceError''"
| "class_name SandboxUnavailable = ''SandboxUnavailable''"
| "class_name OSError = ''OSError''"
| "class_name (UserException n) = n"

definition raise :: "exc \<Rightarrow> string \<Rightarrow> 'a res" where
  "raise c m = Inl (c, m)"

definition and_then :: "'a res \<Rightarrow> ('a \<Rightarrow> 'b res) \<Rightarrow> 'b res" where
  "and_then m f = (case m of Inl e \<Rightarrow> Inl e | Inr x \<Rightarrow> f x)"

fun map_res :: "('a \<Rightarrow> 'b res) \<Rightarrow> 'a list \<Rightarrow> 'b list res" where
  "map_res f [] = Inr []"
| "map_res f (x # xs) = and_then (f x) (\<lambda>y. and_then (map_res f xs) (\<lambda>ys. Inr (y # ys)))"

definition ok :: "'a res \<Rightarrow> bool" where
  "ok m \<longleftrightarrow> (case m of Inl _ \<Rightarrow> False | Inr _ \<Rightarrow> True)"

lemma and_then_simps [simp]:
  "and_then (Inl e) f = Inl e" "and_then (Inr x) f = f x" "and_then (raise c m) f = raise c m"
  by (simp_all add: and_then_def raise_def)

lemma raise_simps [simp]:
  "raise c m \<noteq> Inr x" "Inr x \<noteq> raise c m" "raise c m = Inl e \<longleftrightarrow> e = (c, m)"
  "Inl e = raise c m \<longleftrightarrow> e = (c, m)" "raise c m = raise c' m' \<longleftrightarrow> c = c' \<and> m = m'"
  by (auto simp: raise_def)

lemma ok_simps [simp]: "ok (Inr x)" "\<not> ok (Inl e)" "\<not> ok (raise c m)"
  by (simp_all add: ok_def raise_def)

lemma and_then_Inr: "and_then m f = Inr y \<longleftrightarrow> (\<exists>x. m = Inr x \<and> f x = Inr y)"
  by (cases m) auto

lemma and_then_Inl: "and_then m f = Inl e \<longleftrightarrow> m = Inl e \<or> (\<exists>x. m = Inr x \<and> f x = Inl e)"
  by (cases m) auto

lemma ok_iff: "ok m \<longleftrightarrow> (\<exists>x. m = Inr x)"
  by (cases m) auto

lemma map_res_Inr: "map_res f xs = Inr ys \<longleftrightarrow> list_all2 (\<lambda>x y. f x = Inr y) xs ys"
proof (induction xs arbitrary: ys)
  case Nil
  then show ?case by auto
next
  case (Cons x xs)
  then show ?case by (auto simp: and_then_Inr list_all2_Cons1)
qed

named_theorems res_elims \<open>inversion of the error monad\<close>
lemmas [res_elims] = and_then_Inr and_then_Inl map_res_Inr

section \<open>Strings\<close>

type_synonym bytes = "char list"

text \<open>A UTF-8 continuation byte is \<open>10xxxxxx\<close>; the others start a code point.\<close>

definition utf8_cont :: "char \<Rightarrow> bool" where
  "utf8_cont c \<longleftrightarrow> (case c of Char _ _ _ _ _ _ b6 b7 \<Rightarrow> b7 \<and> \<not> b6)"

definition py_len :: "string \<Rightarrow> nat" where
  "py_len s = length (filter (\<lambda>c. \<not> utf8_cont c) s)"

text \<open>\<open>s[:n]\<close>: the first \<open>n\<close> code points.\<close>

fun py_take :: "nat \<Rightarrow> string \<Rightarrow> string" where
  "py_take n [] = []"
| "py_take n (c # cs) =
     (if utf8_cont c then c # py_take n cs
      else if n = 0 then [] else c # py_take (n - 1) cs)"

fun starts_with :: "string \<Rightarrow> string \<Rightarrow> bool" where
  "starts_with s [] = True"
| "starts_with [] (p # ps) = False"
| "starts_with (c # s) (p # ps) = (c = p \<and> starts_with s ps)"

definition ends_with :: "string \<Rightarrow> string \<Rightarrow> bool" where
  "ends_with s t = starts_with (rev s) (rev t)"

fun join_with :: "'a list \<Rightarrow> 'a list list \<Rightarrow> 'a list" where
  "join_with sep [] = []"
| "join_with sep [x] = x"
| "join_with sep (x # y # xs) = x @ sep @ join_with sep (y # xs)"

fun split_on :: "char \<Rightarrow> string \<Rightarrow> string list" where
  "split_on d [] = [[]]"
| "split_on d (c # cs) =
     (if c = d then [] # split_on d cs
      else (case split_on d cs of [] \<Rightarrow> [[c]] | w # ws \<Rightarrow> (c # w) # ws))"

text \<open>\<open>sub in s\<close>.\<close>

fun contains :: "string \<Rightarrow> string \<Rightarrow> bool" where
  "contains sub [] = (sub = [])"
| "contains sub (c # cs) = (starts_with (c # cs) sub \<or> contains sub cs)"

text \<open>White space of the ASCII range.\<close>

definition is_space :: "char \<Rightarrow> bool" where
  "is_space c \<longleftrightarrow> c \<in> {CHR '' '', CHR 0x09, CHR 0x0A, CHR 0x0B, CHR 0x0C, CHR 0x0D,
                        CHR 0x1C, CHR 0x1D, CHR 0x1E, CHR 0x1F}"

lemma starts_with_iff: "starts_with s p \<longleftrightarrow> (\<exists>r. s = p @ r)"
  by (induction s p rule: starts_with.induct) auto

lemma starts_with_append [simp]: "starts_with (p @ r) p"
  by (auto simp: starts_with_iff)

text \<open>The characters \<open>str.strip\<close> removes, all those Unicode calls white space, in UTF-8.\<close>

definition white_spaces :: "string list" where
  "white_spaces = map (\<lambda>c. [c]) [CHR '' '', CHR 0x09, CHR 0x0A, CHR 0x0B, CHR 0x0C, CHR 0x0D, CHR 0x1C, CHR 0x1D, CHR 0x1E, CHR 0x1F] @
    [[CHR 0xC2, CHR 0x85], [CHR 0xC2, CHR 0xA0], [CHR 0xE1, CHR 0x9A, CHR 0x80]] @
    map (\<lambda>c. [CHR 0xE2, CHR 0x80, c]) [CHR 0x80, CHR 0x81, CHR 0x82, CHR 0x83, CHR 0x84, CHR 0x85, CHR 0x86, CHR 0x87,
      CHR 0x88, CHR 0x89, CHR 0x8A, CHR 0xA8, CHR 0xA9, CHR 0xAF] @
    [[CHR 0xE2, CHR 0x81, CHR 0x9F], [CHR 0xE3, CHR 0x80, CHR 0x80]]"

text \<open>\<open>str.strip\<close>: characters are taken off the front as long as one of \<open>ws\<close> stands there, and then off the back.\<close>

function strip_front :: "string list \<Rightarrow> string \<Rightarrow> string" where
  "strip_front ws s =
    (case List.find (\<lambda>w. w \<noteq> [] \<and> starts_with s w) ws of
       None \<Rightarrow> s
     | Some w \<Rightarrow> strip_front ws (drop (length w) s))"
  by pat_completeness auto
termination
  by (relation "measure (\<lambda>(ws, s). length s)") (auto simp: find_Some_iff starts_with_iff)

declare strip_front.simps [simp del]

definition strip :: "string \<Rightarrow> string" where
  "strip s = rev (strip_front (map rev white_spaces) (rev (strip_front white_spaces s)))"

text \<open>\<open>str.upper\<close> and \<open>str.casefold\<close>, on the ASCII range.\<close>

definition ascii_upper :: "char \<Rightarrow> char" where
  "ascii_upper c = (if CHR ''a'' \<le> c \<and> c \<le> CHR ''z'' then char_of (of_char c - 32 :: nat) else c)"

definition ascii_lower :: "char \<Rightarrow> char" where
  "ascii_lower c = (if CHR ''A'' \<le> c \<and> c \<le> CHR ''Z'' then char_of (of_char c + 32 :: nat) else c)"

definition upper :: "string \<Rightarrow> string" where
  "upper s = map ascii_upper s"

text \<open>A stripped string begins and ends with no white space, and one that so begins and ends is kept.\<close>

lemma strip_front_step:
  "List.find (\<lambda>w. w \<noteq> [] \<and> starts_with s w) ws = None \<Longrightarrow> strip_front ws s = s"
  "List.find (\<lambda>w. w \<noteq> [] \<and> starts_with s w) ws = Some w \<Longrightarrow> strip_front ws s = strip_front ws (drop (length w) s)"
  by (simp_all add: strip_front.simps[of ws s])

lemma strip_front_none: "List.find (\<lambda>w. w \<noteq> [] \<and> starts_with (strip_front ws s) w) ws = None"
proof (induction ws s rule: strip_front.induct)
  case (1 ws s)
  show ?case
  proof (cases "List.find (\<lambda>w. w \<noteq> [] \<and> starts_with s w) ws")
    case None
    then show ?thesis using strip_front_step(1)[OF None] by simp
  next
    case (Some w)
    then show ?thesis using strip_front_step(2)[OF Some] 1[OF Some] by simp
  qed
qed

lemma strip_front_suffix: "\<exists>x. s = x @ strip_front ws s"
proof (induction ws s rule: strip_front.induct)
  case (1 ws s)
  show ?case
  proof (cases "List.find (\<lambda>w. w \<noteq> [] \<and> starts_with s w) ws")
    case None
    then show ?thesis using strip_front_step(1)[OF None] by simp
  next
    case (Some w)
    then obtain x where "drop (length w) s = x @ strip_front ws (drop (length w) s)" using 1 by blast
    then have "s = (take (length w) s @ x) @ strip_front ws s"
      unfolding strip_front_step(2)[OF Some] by (metis append.assoc append_take_drop_id)
    then show ?thesis by blast
  qed
qed

lemma strip_front_id: "(\<And>w. w \<in> set ws \<Longrightarrow> w \<noteq> [] \<Longrightarrow> \<not> starts_with s w) \<Longrightarrow> strip_front ws s = s"
proof -
  assume "\<And>w. w \<in> set ws \<Longrightarrow> w \<noteq> [] \<Longrightarrow> \<not> starts_with s w"
  then have "List.find (\<lambda>w. w \<noteq> [] \<and> starts_with s w) ws = None" by (auto simp: find_None_iff)
  then show ?thesis by (rule strip_front_step(1))
qed

lemma strip_idem [simp]: "strip (strip s) = strip s"
proof -
  let ?d = "strip_front white_spaces s" let ?r = "strip_front (map rev white_spaces) (rev ?d)"
  have n: "\<not> starts_with ?d w" if "w \<in> set white_spaces" "w \<noteq> []" for w
    using strip_front_none[of white_spaces s] that by (auto simp: find_None_iff)
  have n': "\<not> starts_with ?r w" if "w \<in> set (map rev white_spaces)" "w \<noteq> []" for w
    using strip_front_none[of "map rev white_spaces" "rev ?d"] that by (auto simp: find_None_iff)
  obtain x where "rev ?d = x @ ?r" using strip_front_suffix by blast
  then have d: "?d = rev ?r @ rev x" by (metis rev_append rev_rev_ident)
  have "\<not> starts_with (rev ?r) w" if "w \<in> set white_spaces" "w \<noteq> []" for w
  proof
    assume "starts_with (rev ?r) w"
    then have "starts_with ?d w" by (subst d) (auto simp: starts_with_iff)
    then show False using n that by blast
  qed
  then have "strip_front white_spaces (rev ?r) = rev ?r" by (intro strip_front_id) blast
  moreover have "strip_front (map rev white_spaces) ?r = ?r" using n' by (intro strip_front_id) blast
  ultimately show ?thesis by (simp add: strip_def)
qed

definition visible_ascii :: "char \<Rightarrow> bool" where
  "visible_ascii c \<longleftrightarrow> \<not> is_space c \<and> (of_char c :: nat) < 128"

lemma space_ends: "w \<in> set white_spaces \<Longrightarrow> w \<noteq> [] \<and> \<not> visible_ascii (hd w) \<and> \<not> visible_ascii (last w)"
proof -
  have "list_all (\<lambda>w. w \<noteq> [] \<and> \<not> visible_ascii (hd w) \<and> \<not> visible_ascii (last w)) white_spaces" by code_simp
  then show "w \<in> set white_spaces \<Longrightarrow> ?thesis" by (simp add: list_all_iff)
qed

lemma strip_kept: "s \<noteq> [] \<Longrightarrow> visible_ascii (hd s) \<Longrightarrow> visible_ascii (last s) \<Longrightarrow> strip s = s"
proof -
  assume s: "s \<noteq> []" "visible_ascii (hd s)" "visible_ascii (last s)"
  have "\<not> starts_with t w" if "w \<noteq> []" "\<not> visible_ascii (hd w)" "visible_ascii (hd t)" for t w :: string
    using that by (cases t; cases w) (auto simp: starts_with_iff)
  then have "strip_front white_spaces s = s" "strip_front (map rev white_spaces) (rev s) = rev s"
    using s space_ends by (auto intro!: strip_front_id simp: hd_rev)
  then show ?thesis by (simp add: strip_def)
qed

lemma strip_Nil [simp]: "strip [] = []"
  by code_simp

lemma strip_blank: "strip '' '' = []"
  by code_simp

lemma split_on_nonempty [simp]: "split_on d s \<noteq> []"
  by (induction s) (auto split: list.splits)

lemma join_split [simp]: "join_with [d] (split_on d s) = s"
proof (induction s)
  case Nil
  then show ?case by simp
next
  case (Cons c s)
  obtain w ws where w: "split_on d s = w # ws"
    by (meson list.exhaust split_on_nonempty)
  then show ?case using Cons.IH by (cases ws) auto
qed

lemma split_on_no_sep: "w \<in> set (split_on d s) \<Longrightarrow> d \<notin> set w"
proof (induction s arbitrary: w)
  case Nil
  then show ?case by simp
next
  case (Cons c s)
  then show ?case by (cases "split_on d s") (auto split: if_splits)
qed

lemma split_join_noslash:
  assumes "cs \<noteq> []" "\<forall>c \<in> set cs. CHR ''/'' \<notin> set c"
  shows "split_on CHR ''/'' (join_with ''/'' cs) = cs"
  using assms
proof (induction cs rule: induct_list012)
  case (2 c)
  have "CHR ''/'' \<notin> set c \<Longrightarrow> split_on CHR ''/'' c = [c]" for c
    by (induction c) auto
  then show ?case using 2 by simp
next
  case (3 c d cs)
  have "CHR ''/'' \<notin> set c \<Longrightarrow> split_on CHR ''/'' (c @ CHR ''/'' # r) = c # split_on CHR ''/'' r" for c r
    by (induction c) auto
  then show ?case using 3 by simp
qed simp

lemma py_take_length: "py_len (py_take n s) \<le> n"
  by (induction n s rule: py_take.induct) (auto simp: py_len_def)

section \<open>Decimal integers\<close>

definition is_digit :: "char \<Rightarrow> bool" where
  "is_digit c \<longleftrightarrow> CHR ''0'' \<le> c \<and> c \<le> CHR ''9''"

definition digit_char :: "nat \<Rightarrow> char" where
  "digit_char n = ''0123456789'' ! n"

fun nat_dec :: "nat \<Rightarrow> string" where
  "nat_dec n = (if n < 10 then [digit_char n] else nat_dec (n div 10) @ [digit_char (n mod 10)])"

declare nat_dec.simps [simp del]

definition int_dec :: "int \<Rightarrow> string" where
  "int_dec i = (if i < 0 then CHR ''-'' # nat_dec (nat (- i)) else nat_dec (nat i))"

lemma digit_char_inj: "m < 10 \<Longrightarrow> n < 10 \<Longrightarrow> digit_char m = digit_char n \<longleftrightarrow> m = n"
proof -
  have "\<forall>m\<in>{0..<10}. \<forall>n\<in>{0..<10}. digit_char m = digit_char n \<longleftrightarrow> m = n" by code_simp
  then show "m < 10 \<Longrightarrow> n < 10 \<Longrightarrow> ?thesis" by simp
qed

lemma digit_char_digit: "n < 10 \<Longrightarrow> is_digit (digit_char n)"
proof -
  have "\<forall>n\<in>{0..<10}. is_digit (digit_char n)" by code_simp
  then show "n < 10 \<Longrightarrow> ?thesis" by simp
qed

lemma nat_dec_nonempty [simp]: "nat_dec n \<noteq> []" "[] \<noteq> nat_dec n"
  by (subst nat_dec.simps, simp)+

lemma nat_dec_digits: "c \<in> set (nat_dec n) \<Longrightarrow> is_digit c"
proof (induction n rule: nat_dec.induct)
  case (1 n)
  then show ?case
    using digit_char_digit[of "n mod 10"] digit_char_digit[of n]
    by (subst (asm) (2) nat_dec.simps) (auto split: if_splits)
qed

lemma nat_dec_inj: "nat_dec m = nat_dec n \<Longrightarrow> m = n"
proof (induction m arbitrary: n rule: nat_dec.induct)
  case (1 m)
  show ?case
  proof (cases "m < 10 \<or> n < 10")
    case True
    then show ?thesis
      using "1.prems" digit_char_inj[of m n] by (auto simp: nat_dec.simps[of m] nat_dec.simps[of n] split: if_splits)
  next
    case False
    then have "nat_dec (m div 10) = nat_dec (n div 10)" "digit_char (m mod 10) = digit_char (n mod 10)"
      using "1.prems" by (auto simp: nat_dec.simps[of m] nat_dec.simps[of n])
    then have "m div 10 = n div 10" "m mod 10 = n mod 10"
      using "1.IH" False digit_char_inj[of "m mod 10" "n mod 10"] by auto
    then show ?thesis by (metis div_mult_mod_eq)
  qed
qed

lemma int_dec_inj: "int_dec i = int_dec j \<longleftrightarrow> i = j"
proof
  have dash: "nat_dec k \<noteq> CHR ''-'' # s" for k s
    using nat_dec_digits[of "CHR ''-''" k] by (auto simp: is_digit_def)
  assume "int_dec i = int_dec j"
  then show "i = j"
    using dash dash[symmetric] by (auto simp: int_dec_def split: if_splits dest!: nat_dec_inj)
qed simp

lemma int_dec_nonempty [simp]: "int_dec i \<noteq> []"
  by (simp add: int_dec_def)

lemma int_dec_chars: "c \<in> set (int_dec i) \<Longrightarrow> c = CHR ''-'' \<or> is_digit c"
  using nat_dec_digits by (auto simp: int_dec_def split: if_splits)

section \<open>Lists and dictionaries\<close>

text \<open>
  A Python \<open>dict\<close> keeps insertion order; where the order matters the model holds an association
  list with distinct keys.  \<open>dict_set\<close> is \<open>d[k] = v\<close>: an existing key keeps its place.
\<close>

fun dict_set :: "'k \<Rightarrow> 'v \<Rightarrow> ('k \<times> 'v) list \<Rightarrow> ('k \<times> 'v) list" where
  "dict_set k v [] = [(k, v)]"
| "dict_set k v ((k', v') # d) = (if k = k' then (k, v) # d else (k', v') # dict_set k v d)"

lemma map_of_dict_set [simp]: "map_of (dict_set k v d) = (map_of d)(k \<mapsto> v)"
  by (induction d) (auto simp: fun_eq_iff)

lemma keys_dict_set [simp]: "fst ` set (dict_set k v d) = insert k (fst ` set d)"
  by (induction k v d rule: dict_set.induct) (simp_all add: insert_commute)

lemma distinct_dict_set: "distinct (map fst d) \<Longrightarrow> distinct (map fst (dict_set k v d))"
proof (induction d)
  case (Cons p d)
  obtain k' v' where p: "p = (k', v')" by (cases p)
  have "k' \<notin> fst ` set (dict_set k v d)" if "k \<noteq> k'"
    using that Cons.prems p by simp
  then show ?case using Cons p by auto
qed simp

lemma sort_mset_eq: "mset xs = mset ys \<Longrightarrow> sort xs = sort (ys :: 'a :: linorder list)"
  by (metis mset_sort properties_for_sort sorted_sort)

lemma sort_eq_iff_mset: "sort xs = sort ys \<longleftrightarrow> mset xs = mset (ys :: 'a :: linorder list)"
  by (metis mset_sort sort_mset_eq)

end
