(* ===== verification/Sha256.thy ===== *)
theory Sha256
  imports Prelude "HOL-Library.Word"
begin

text \<open>
  The byte-level functions of the Python standard library that the program calls: SHA-256
  (\<open>hashlib.sha256\<close>, FIPS 180-4) on 32-bit words, hexadecimal digests, HMAC-SHA-256 (\<open>hmac.new\<close>,
  RFC 2104) and base64 (\<open>base64.b64encode\<close>, \<open>b64decode(validate=True)\<close>).  The hash is a concrete
  function: nothing about it is assumed.  A statement "equal digests mean equal inputs" is
  therefore proved in the form "or these two inputs are a SHA-256 collision".
\<close>

unbundle bit_operations_syntax

section \<open>SHA-256\<close>

type_synonym u32 = "32 word"

definition sha_k :: "u32 list" where
  "sha_k = [1116352408, 1899447441, 3049323471, 3921009573, 961987163, 1508970993, 2453635748, 2870763221,
     3624381080, 310598401, 607225278, 1426881987, 1925078388, 2162078206, 2614888103, 3248222580,
     3835390401, 4022224774, 264347078, 604807628, 770255983, 1249150122, 1555081692, 1996064986,
     2554220882, 2821834349, 2952996808, 3210313671, 3336571891, 3584528711, 113926993, 338241895,
     666307205, 773529912, 1294757372, 1396182291, 1695183700, 1986661051, 2177026350, 2456956037,
     2730485921, 2820302411, 3259730800, 3345764771, 3516065817, 3600352804, 4094571909, 275423344,
     430227734, 506948616, 659060556, 883997877, 958139571, 1322822218, 1537002063, 1747873779,
     1955562222, 2024104815, 2227730452, 2361852424, 2428436474, 2756734187, 3204031479, 3329325298]"

definition sha_iv :: "u32 list" where
  "sha_iv = [1779033703, 3144134277, 1013904242, 2773480762, 1359893119, 2600822924, 528734635, 1541459225]"

definition ror :: "nat \<Rightarrow> u32 \<Rightarrow> u32" where
  "ror n w = (drop_bit n w OR push_bit (32 - n) w)"

definition small0 :: "u32 \<Rightarrow> u32" where
  "small0 w = (ror 7 w XOR ror 18 w XOR drop_bit 3 w)"
definition small1 :: "u32 \<Rightarrow> u32" where
  "small1 w = (ror 17 w XOR ror 19 w XOR drop_bit 10 w)"
definition big0 :: "u32 \<Rightarrow> u32" where
  "big0 w = (ror 2 w XOR ror 13 w XOR ror 22 w)"
definition big1 :: "u32 \<Rightarrow> u32" where
  "big1 w = (ror 6 w XOR ror 11 w XOR ror 25 w)"

fun extend_schedule :: "nat \<Rightarrow> u32 list \<Rightarrow> u32 list" where
  "extend_schedule 0 r = r"
| "extend_schedule (Suc n) r =
     extend_schedule n ((small1 (r ! 1) + r ! 6 + small0 (r ! 14) + r ! 15) # r)"

fun sha_round :: "u32 list \<Rightarrow> u32 \<times> u32 \<Rightarrow> u32 list" where
  "sha_round [a, b, c, d, e, f, g, h] (k, w) =
     (let t1 = h + big1 e + ((e AND f) XOR (NOT e AND g)) + k + w;
          t2 = big0 a + ((a AND b) XOR (a AND c) XOR (b AND c))
      in [t1 + t2, a, b, c, d + t1, e, f, g])"
| "sha_round st kw = st"

definition word_of_bytes :: "bytes \<Rightarrow> u32" where
  "word_of_bytes bs = foldl (\<lambda>acc b. push_bit 8 acc OR of_char b) 0 bs"

fun chunks :: "nat \<Rightarrow> 'a list \<Rightarrow> 'a list list" where
  "chunks n xs = (if n = 0 \<or> xs = [] then [] else take n xs # chunks n (drop n xs))"
declare chunks.simps [simp del]

definition sha_block :: "u32 list \<Rightarrow> bytes \<Rightarrow> u32 list" where
  "sha_block st block =
     (let ws = rev (extend_schedule 48 (rev (map word_of_bytes (chunks 4 block))))
      in map2 (+) st (foldl sha_round st (zip sha_k ws)))"

definition word_bytes :: "u32 \<Rightarrow> bytes" where
  "word_bytes w = map (\<lambda>n. char_of (uint (drop_bit n w))) [24, 16, 8, 0]"

definition sha_pad :: "bytes \<Rightarrow> bytes" where
  "sha_pad m =
     (let bits = (of_nat (length m) * 8 :: 64 word)
      in m @ [CHR 0x80] @ replicate ((119 - length m mod 64) mod 64) (CHR 0x00) @
         word_bytes (ucast (drop_bit 32 bits)) @ word_bytes (ucast bits))"

definition sha256 :: "bytes \<Rightarrow> bytes" where
  "sha256 m = concat (map word_bytes (foldl sha_block sha_iv (chunks 64 (sha_pad m))))"

section \<open>Hexadecimal digests\<close>

definition hexdigit :: "nat \<Rightarrow> char" where
  "hexdigit n = ''0123456789abcdef'' ! n"

definition hex_byte :: "char \<Rightarrow> string" where
  "hex_byte c = (let n = of_char c :: nat in [hexdigit (n div 16), hexdigit (n mod 16)])"

definition hexdigest :: "bytes \<Rightarrow> string" where
  "hexdigest bs = concat (map hex_byte bs)"

definition sha256_hex :: "bytes \<Rightarrow> string" where
  "sha256_hex m = hexdigest (sha256 m)"

definition is_hex :: "char \<Rightarrow> bool" where
  "is_hex c \<longleftrightarrow> c \<in> set ''0123456789abcdef''"

definition sha_collision :: "bytes \<Rightarrow> bytes \<Rightarrow> bool" where
  "sha_collision x y \<longleftrightarrow> x \<noteq> y \<and> sha256_hex x = sha256_hex y"

lemma sha256_hex_inj: "sha256_hex x = sha256_hex y \<Longrightarrow> x = y \<or> sha_collision x y"
  by (auto simp: sha_collision_def)

text \<open>A collision between two of the given texts (a collision somewhere always exists).\<close>

definition collision_among :: "bytes set \<Rightarrow> bool" where
  "collision_among S \<longleftrightarrow> (\<exists>x\<in>S. \<exists>y\<in>S. sha_collision x y)"

lemma collision_amongI: "sha_collision x y \<Longrightarrow> x \<in> S \<Longrightarrow> y \<in> S \<Longrightarrow> collision_among S"
  by (auto simp: collision_among_def)

lemma length_sha_round: "length (sha_round st kw) = length st"
  by (cases "(st, kw)" rule: sha_round.cases) (simp_all add: Let_def)

lemma length_sha_rounds: "length (foldl sha_round st kws) = length st"
  by (induction kws arbitrary: st) (simp_all add: length_sha_round)

lemma length_sha_blocks: "length (foldl sha_block st bs) = length st"
  by (induction bs arbitrary: st) (simp_all add: sha_block_def length_sha_rounds Let_def)

lemma length_word_bytes [simp]: "length (word_bytes w) = 4"
  by (simp add: word_bytes_def)

lemma length_concat_const: "(\<And>x. x \<in> set xs \<Longrightarrow> length (f x) = n) \<Longrightarrow> length (concat (map f xs)) = n * length xs"
  by (induction xs) auto

lemma length_sha256 [simp]: "length (sha256 m) = 32"
  by (simp add: sha256_def length_concat_const[where n = 4] length_sha_blocks sha_iv_def)

lemma length_hexdigest [simp]: "length (hexdigest bs) = 2 * length bs"
  by (simp add: hexdigest_def length_concat_const[where n = 2] hex_byte_def Let_def)

lemma length_sha256_hex [simp]: "length (sha256_hex m) = 64"
  by (simp add: sha256_hex_def)

lemma hexdigit_hex: "n < 16 \<Longrightarrow> is_hex (hexdigit n)"
  unfolding is_hex_def hexdigit_def by (rule nth_mem) simp

lemma hexdigest_hex: "c \<in> set (hexdigest bs) \<Longrightarrow> is_hex c"
proof -
  assume "c \<in> set (hexdigest bs)"
  then obtain b where b: "c \<in> set (hex_byte b)" by (auto simp: hexdigest_def)
  have "(of_char b :: nat) div 16 < 16" "(of_char b :: nat) mod 16 < 16"
    using nat_of_char_less_256[of b] by (auto simp: less_mult_imp_div_less)
  then show ?thesis using b hexdigit_hex by (auto simp: hex_byte_def Let_def)
qed

lemma sha256_hex_chars: "c \<in> set (sha256_hex m) \<Longrightarrow> is_hex c"
  by (simp add: sha256_hex_def hexdigest_hex)

lemma hex_ascii: "is_hex c \<Longrightarrow> \<not> utf8_cont c"
  by (auto simp: is_hex_def utf8_cont_def)

lemma py_len_hex: "(\<And>c. c \<in> set s \<Longrightarrow> is_hex c) \<Longrightarrow> py_len s = length s"
  by (induction s) (auto simp: py_len_def dest: hex_ascii)

lemma py_len_sha256_hex [simp]: "py_len (sha256_hex m) = 64"
  by (simp add: py_len_hex sha256_hex_chars)

section \<open>HMAC-SHA-256\<close>

definition xor_pad :: "nat \<Rightarrow> bytes \<Rightarrow> bytes" where
  "xor_pad p key = map (\<lambda>c. char_of (of_char c XOR p :: nat)) key"

definition hmac_key :: "bytes \<Rightarrow> bytes" where
  "hmac_key key =
     (let k = (if length key > 64 then sha256 key else key)
      in k @ replicate (64 - length k) (CHR 0x00))"

definition hmac_sha256 :: "bytes \<Rightarrow> bytes \<Rightarrow> bytes" where
  "hmac_sha256 key m =
     sha256 (xor_pad 0x5c (hmac_key key) @ sha256 (xor_pad 0x36 (hmac_key key) @ m))"

lemma length_hmac [simp]: "length (hmac_sha256 k m) = 32"
  by (simp add: hmac_sha256_def)

section \<open>Base64\<close>

definition b64_alphabet :: string where
  "b64_alphabet = ''ABCDEFGHIJKLMNOPQRSTUVWXYZabcdefghijklmnopqrstuvwxyz0123456789+/''"

definition b64_char :: "nat \<Rightarrow> char" where
  "b64_char n = b64_alphabet ! n"

fun index_of :: "'a \<Rightarrow> 'a list \<Rightarrow> nat option" where
  "index_of x [] = None"
| "index_of x (y # ys) = (if x = y then Some 0 else map_option Suc (index_of x ys))"

definition b64_val :: "char \<Rightarrow> nat option" where
  "b64_val c = index_of c b64_alphabet"

fun b64encode :: "bytes \<Rightarrow> string" where
  "b64encode (a # b # c # rest) =
     (let n = 65536 * of_char a + 256 * of_char b + of_char c :: nat
      in b64_char (n div 262144) # b64_char (n div 4096 mod 64) #
         b64_char (n div 64 mod 64) # b64_char (n mod 64) # b64encode rest)"
| "b64encode [a, b] =
     (let n = 256 * of_char a + of_char b :: nat
      in [b64_char (n div 1024), b64_char (n div 16 mod 64), b64_char (n mod 16 * 4), CHR ''=''])"
| "b64encode [a] =
     (let n = of_char a :: nat
      in [b64_char (n div 4), b64_char (n mod 4 * 16), CHR ''='', CHR ''=''])"
| "b64encode [] = []"

text \<open>
  \<open>b64decode(s, validate=True)\<close>: \<open>None\<close> where it raises \<open>binascii.Error\<close> (a character outside the
  alphabet, wrong padding).  As in CPython the unused low bits of the last group are not checked.
\<close>

fun b64decode :: "string \<Rightarrow> bytes option" where
  "b64decode [] = Some []"
| "b64decode (p # q # r # s # rest) =
     (case (b64_val p, b64_val q) of
        (Some x, Some y) \<Rightarrow>
          (if r = CHR ''='' \<and> s = CHR ''='' \<and> rest = [] then
             Some [char_of ((64 * x + y) div 16)]
           else
             (case b64_val r of
                None \<Rightarrow> None
              | Some z \<Rightarrow>
                  (if s = CHR ''='' \<and> rest = [] then
                     (let n = (4096 * x + 64 * y + z) div 4 in Some [char_of (n div 256), char_of (n mod 256)])
                   else
                     (case (b64_val s, b64decode rest) of
                        (Some w, Some bs) \<Rightarrow>
                          (let n = 262144 * x + 4096 * y + 64 * z + w
                           in Some (char_of (n div 65536) # char_of (n div 256 mod 256) # char_of (n mod 256) # bs))
                      | _ \<Rightarrow> None))))
      | _ \<Rightarrow> None)"
| "b64decode _ = None"

lemma b64_val_char: "n < 64 \<Longrightarrow> b64_val (b64_char n) = Some n \<and> b64_char n \<noteq> CHR ''=''"
proof -
  have "\<forall>n\<in>{0..<64}. b64_val (b64_char n) = Some n \<and> b64_char n \<noteq> CHR ''=''"
    by code_simp
  then show "n < 64 \<Longrightarrow> ?thesis" by simp
qed

lemma base64_digits:
  "262144 * (n div 262144) + 4096 * (n div 4096 mod 64) + 64 * (n div 64 mod 64) + n mod 64 = (n :: nat)"
proof -
  have d: "n div 4096 = n div 64 div 64" "n div 262144 = n div 64 div 64 div 64"
    by (simp_all add: div_mult2_eq[symmetric])
  show ?thesis
    using mult_div_mod_eq[of 64 n] mult_div_mod_eq[of 64 "n div 64"] mult_div_mod_eq[of 64 "n div 64 div 64"]
    unfolding d by linarith
qed

lemma base256_digits:
  assumes "y < 256" "z < (256 :: nat)"
  shows "(65536 * x + 256 * y + z) div 65536 = x" "(65536 * x + 256 * y + z) div 256 mod 256 = y"
    "(65536 * x + 256 * y + z) mod 256 = z"
proof -
  have e: "65536 * x + 256 * y + z = 256 * (256 * x + y) + z" by simp
  have d: "(65536 * x + 256 * y + z) div 256 = 256 * x + y"
    unfolding e using assms by simp
  show "(65536 * x + 256 * y + z) div 256 mod 256 = y" unfolding d using assms by simp
  show "(65536 * x + 256 * y + z) mod 256 = z"
    using assms by (metis e mod_mult_self4 mod_less)
  have "(65536 * x + 256 * y + z) div 65536 = (65536 * x + 256 * y + z) div 256 div 256"
    by (simp add: div_mult2_eq[symmetric])
  then show "(65536 * x + 256 * y + z) div 65536 = x" unfolding d using assms by simp
qed

lemma char_of_eqI: "n mod 256 = of_char c \<Longrightarrow> char_of (n :: nat) = c"
proof -
  assume "n mod 256 = of_char c"
  then have "of_char (char_of n) = (of_char c :: nat)" by simp
  then show "char_of n = c" by (rule of_char_eqI)
qed

lemma b64_roundtrip [simp]: "b64decode (b64encode bs) = Some bs"
proof (induction bs rule: b64encode.induct)
  case (1 a b c rest)
  define x y z :: nat where "x = of_char a" and "y = of_char b" and "z = of_char c"
  define n where "n = 65536 * x + 256 * y + z"
  have lt: "x < 256" "y < 256" "z < 256"
    by (simp_all add: x_def y_def z_def)
  then have b: "n div 262144 < 64" "n div 4096 mod 64 < 64" "n div 64 mod 64 < 64" "n mod 64 < 64"
    by (auto simp: n_def)
  have "262144 * (n div 262144) + 4096 * (n div 4096 mod 64) + 64 * (n div 64 mod 64) + n mod 64 = n"
    by (rule base64_digits)
  moreover have "n div 65536 = x" "n div 256 mod 256 = y" "n mod 256 = z"
    using lt base256_digits[of y z x] by (simp_all add: n_def)
  ultimately have "char_of (n div 65536) = a" "char_of (n div 256) = b" "char_of n = c"
    "262144 * (n div 262144) + 4096 * (n div 4096 mod 64) + 64 * (n div 64 mod 64) + n mod 64 = n"
    using lt by (auto intro!: char_of_eqI simp: x_def y_def z_def)
  then show ?case
    using 1[OF refl] b64_val_char[OF b(1)] b64_val_char[OF b(2)] b64_val_char[OF b(3)] b64_val_char[OF b(4)]
    by (simp add: n_def[symmetric] x_def[symmetric] y_def[symmetric] z_def[symmetric] Let_def)
next
  case (2 a b)
  define x y :: nat where "x = of_char a" and "y = of_char b"
  define n where "n = 256 * x + y"
  have lt: "x < 256" "y < 256" by (simp_all add: x_def y_def)
  then have b: "n div 1024 < 64" "n div 16 mod 64 < 64" "n mod 16 * 4 < 64" by (auto simp: n_def)
  have "n div 1024 = n div 16 div 64" by (simp add: div_mult2_eq[symmetric])
  then have "4096 * (n div 1024) + 64 * (n div 16 mod 64) + n mod 16 * 4 = 4 * n"
    using mult_div_mod_eq[of 16 n] mult_div_mod_eq[of 64 "n div 16"] by linarith
  then have "(4096 * (n div 1024) + 64 * (n div 16 mod 64) + n mod 16 * 4) div 4 = n" by simp
  moreover have "n div 256 = x" "n mod 256 = y" using lt by (simp_all add: n_def)
  ultimately have "char_of (n div 256) = a" "char_of n = b"
    "(4096 * (n div 1024) + 64 * (n div 16 mod 64) + n mod 16 * 4) div 4 = n"
    using lt by (auto intro!: char_of_eqI simp: x_def y_def)
  then show ?case
    using b64_val_char[OF b(1)] b64_val_char[OF b(2)] b64_val_char[OF b(3)]
    by (simp add: n_def[symmetric] x_def[symmetric] y_def[symmetric] Let_def)
next
  case (3 a)
  define x :: nat where "x = of_char a"
  have "x < 256" by (simp add: x_def)
  then have b: "x div 4 < 64" "x mod 4 * 16 < 64" by auto
  have "64 * (x div 4) + x mod 4 * 16 = 16 * x" using mult_div_mod_eq[of 4 x] by linarith
  then have "(64 * (x div 4) + x mod 4 * 16) div 16 = x" by simp
  then show ?case
    using b64_val_char[OF b(1)] b64_val_char[OF b(2)]
    by (simp add: x_def[symmetric] Let_def) (simp add: x_def)
next
  case 4
  then show ?case by simp
qed

end
