(* ===== verification/Json.thy ===== *)
theory Json
  imports Sha256
begin

text \<open>
  JSON documents and their canonical form: \<open>json.dumps(x, sort_keys=True, separators=(",", ":"),
  ensure_ascii=False).encode("utf-8")\<close>, which the program calls in coverage/canonical.py,
  policy/model.py, operations/attestation.py, domain/evidence.py, remediation/model.py,
  rebuild/model.py, parity/model.py and agentseal (there as one-line helpers).
  \<open>canonical_json\<close> is that function, \<open>sha256_json\<close> its digest; \<open>norm\<close> sorts the keys of every
  object.  The main fact is that the canonical text determines the document up to key order.

  A float is held by its \<open>repr\<close> text (or as NaN or an infinity), which is what \<open>json.dumps\<close> prints.
\<close>

section \<open>Documents\<close>

datatype pyfloat = FNan | FInf | FNegInf | FRepr string

datatype json =
    JNull
  | JBool bool
  | JInt int
  | JFloat pyfloat
  | JStr string
  | JList "json list"
  | JObj "(string \<times> json) list"

text \<open>\<open>d.get(k)\<close> on a parsed object, and \<open>d[k]\<close>.\<close>

fun obj_get :: "json \<Rightarrow> string \<Rightarrow> json" where
  "obj_get (JObj kvs) k = (case map_of kvs k of None \<Rightarrow> JNull | Some v \<Rightarrow> v)"
| "obj_get _ k = JNull"

text \<open>Python truth value of a document.\<close>

fun truthy :: "json \<Rightarrow> bool" where
  "truthy JNull = False"
| "truthy (JBool b) = b"
| "truthy (JInt i) = (i \<noteq> 0)"
| "truthy (JFloat f) = (f \<noteq> FRepr ''0.0'' \<and> f \<noteq> FRepr ''-0.0'')"
| "truthy (JStr s) = (s \<noteq> [])"
| "truthy (JList xs) = (xs \<noteq> [])"
| "truthy (JObj kvs) = (kvs \<noteq> [])"

definition opt_str :: "string option \<Rightarrow> json" where
  "opt_str s = (case s of None \<Rightarrow> JNull | Some x \<Rightarrow> JStr x)"

definition opt_int :: "int option \<Rightarrow> json" where
  "opt_int s = (case s of None \<Rightarrow> JNull | Some x \<Rightarrow> JInt x)"

lemma opt_str_inj [simp]: "opt_str a = opt_str b \<longleftrightarrow> a = b"
  by (auto simp: opt_str_def split: option.splits)

lemma opt_int_inj [simp]: "opt_int a = opt_int b \<longleftrightarrow> a = b"
  by (auto simp: opt_int_def split: option.splits)

section \<open>Reading a document\<close>

text \<open>\<open>d.get(k, default)\<close>, \<open>k in d\<close>, \<open>str(x)\<close> and the key set of an object.\<close>

fun obj_has :: "json \<Rightarrow> string \<Rightarrow> bool" where
  "obj_has (JObj kvs) k = (k \<in> fst ` set kvs)"
| "obj_has _ k = False"

definition obj_get_def :: "json \<Rightarrow> string \<Rightarrow> json \<Rightarrow> json" where
  "obj_get_def d k v = (if obj_has d k then obj_get d k else v)"

fun obj_keys :: "json \<Rightarrow> string set" where
  "obj_keys (JObj kvs) = fst ` set kvs"
| "obj_keys _ = {}"

fun is_obj :: "json \<Rightarrow> bool" where
  "is_obj (JObj kvs) = True"
| "is_obj _ = False"

fun is_str :: "json \<Rightarrow> bool" where
  "is_str (JStr s) = True"
| "is_str _ = False"

text \<open>
  \<open>repr\<close> of a string: single quotes unless it holds a single and no double one; control
  characters are escaped and other characters kept.
\<close>

definition repr_char :: "char \<Rightarrow> char \<Rightarrow> string" where
  "repr_char q c =
     (if c = q \<or> c = CHR 0x5C then [CHR 0x5C, c]
      else if c = CHR 0x0A then [CHR 0x5C, CHR ''n'']
      else if c = CHR 0x0D then [CHR 0x5C, CHR ''r'']
      else if c = CHR 0x09 then [CHR 0x5C, CHR ''t'']
      else if (of_char c :: nat) < 32 \<or> (of_char c :: nat) = 127 then [CHR 0x5C, CHR ''x''] @ hex_byte c
      else [c])"

definition repr_str :: "string \<Rightarrow> string" where
  "repr_str s =
     (let q = (if CHR 0x27 \<in> set s \<and> CHR 0x22 \<notin> set s then CHR 0x22 else CHR 0x27) in
      [q] @ concat (map (repr_char q) s) @ [q])"

fun py_repr :: "json \<Rightarrow> string" where
  "py_repr JNull = ''None''"
| "py_repr (JBool b) = (if b then ''True'' else ''False'')"
| "py_repr (JInt i) = int_dec i"
| "py_repr (JFloat FNan) = ''nan''"
| "py_repr (JFloat FInf) = ''inf''"
| "py_repr (JFloat FNegInf) = ''-inf''"
| "py_repr (JFloat (FRepr s)) = s"
| "py_repr (JStr s) = repr_str s"
| "py_repr (JList xs) = ''['' @ join_with '', '' (map py_repr xs) @ '']''"
| "py_repr (JObj kvs) = ''{'' @ join_with '', '' (map (\<lambda>(k, v). repr_str k @ '': '' @ py_repr v) kvs) @ ''}''"

fun py_str :: "json \<Rightarrow> string" where
  "py_str (JStr s) = s"
| "py_str j = py_repr j"

text \<open>\<open>x or y\<close> on documents.\<close>

definition or_else :: "json \<Rightarrow> json \<Rightarrow> json" where
  "or_else x y = (if truthy x then x else y)"

lemma or_else_truthy [simp]: "truthy x \<Longrightarrow> or_else x y = x" "\<not> truthy x \<Longrightarrow> or_else x y = y"
  by (simp_all add: or_else_def)

section \<open>Printing\<close>

definition esc_char :: "char \<Rightarrow> string" where
  "esc_char c =
     (if c = CHR 0x22 then [CHR 0x5C, CHR 0x22]
      else if c = CHR 0x5C then [CHR 0x5C, CHR 0x5C]
      else if c = CHR 0x0A then [CHR 0x5C, CHR ''n'']
      else if c = CHR 0x0D then [CHR 0x5C, CHR ''r'']
      else if c = CHR 0x09 then [CHR 0x5C, CHR ''t'']
      else if c = CHR 0x0C then [CHR 0x5C, CHR ''f'']
      else if c = CHR 0x08 then [CHR 0x5C, CHR ''b'']
      else if (of_char c :: nat) < 32 then [CHR 0x5C, CHR ''u'', CHR ''0'', CHR ''0''] @ hex_byte c
      else [c])"

definition render_str :: "string \<Rightarrow> string" where
  "render_str s = CHR 0x22 # concat (map esc_char s) @ [CHR 0x22]"

fun render_float :: "pyfloat \<Rightarrow> string" where
  "render_float FNan = ''NaN''"
| "render_float FInf = ''Infinity''"
| "render_float FNegInf = ''-Infinity''"
| "render_float (FRepr s) = s"

fun render :: "json \<Rightarrow> string" where
  "render JNull = ''null''"
| "render (JBool b) = (if b then ''true'' else ''false'')"
| "render (JInt i) = int_dec i"
| "render (JFloat f) = render_float f"
| "render (JStr s) = render_str s"
| "render (JList xs) = CHR ''['' # join_with '','' (map render xs) @ '']''"
| "render (JObj kvs) =
     CHR ''{'' # join_with '','' (map (\<lambda>(k, v). render_str k @ CHR '':'' # render v) kvs) @ ''}''"

fun norm :: "json \<Rightarrow> json" where
  "norm (JList xs) = JList (map norm xs)"
| "norm (JObj kvs) = JObj (sort_key fst (map (\<lambda>(k, v). (k, norm v)) kvs))"
| "norm j = j"

definition canonical_json :: "json \<Rightarrow> bytes" where
  "canonical_json j = render (norm j)"

definition sha256_json :: "json \<Rightarrow> string" where
  "sha256_json j = sha256_hex (canonical_json j)"

section \<open>The canonical text determines the document\<close>

text \<open>
  A finite float prints as digits with a point or an exponent, so it is never the text of an
  integer or of a keyword.
\<close>

definition atom_char :: "char \<Rightarrow> bool" where
  "atom_char c \<longleftrightarrow> c \<notin> {CHR '','', CHR '']'', CHR ''}'', CHR ''['', CHR ''{'', CHR 0x22, CHR '':''}"

fun wf_float :: "pyfloat \<Rightarrow> bool" where
  "wf_float (FRepr s) =
     (s \<noteq> [] \<and> list_all atom_char s \<and> (is_digit (hd s) \<or> hd s = CHR ''-'') \<and>
      (CHR ''.'' \<in> set s \<or> CHR ''e'' \<in> set s))"
| "wf_float _ = True"

fun wf_json :: "json \<Rightarrow> bool" where
  "wf_json (JFloat f) = wf_float f"
| "wf_json (JList xs) = list_all wf_json xs"
| "wf_json (JObj kvs) = list_all (\<lambda>(k, v). wf_json v) kvs"
| "wf_json _ = True"

text \<open>The keys of an object are distinct, as the keys of a \<open>dict\<close> are.\<close>

fun keys_ok :: "json \<Rightarrow> bool" where
  "keys_ok (JList js) = list_all keys_ok js"
| "keys_ok (JObj kvs) = (distinct (map fst kvs) \<and> list_all (\<lambda>(k, v). keys_ok v) kvs)"
| "keys_ok j = True"

text \<open>What may follow a document inside another one.\<close>

definition delimited :: "string \<Rightarrow> bool" where
  "delimited r \<longleftrightarrow> r = [] \<or> hd r \<in> {CHR '','', CHR '']'', CHR ''}''}"

lemma join_with_Cons: "join_with sep (x # xs) = x @ (if xs = [] then [] else sep @ join_with sep xs)"
  by (cases xs) simp_all

lemma hexdigit_inj: "m < 16 \<Longrightarrow> n < 16 \<Longrightarrow> hexdigit m = hexdigit n \<longleftrightarrow> m = n"
proof -
  have "\<forall>m\<in>{0..<16}. \<forall>n\<in>{0..<16}. hexdigit m = hexdigit n \<longleftrightarrow> m = n" by code_simp
  then show "m < 16 \<Longrightarrow> n < 16 \<Longrightarrow> ?thesis" by simp
qed

lemma hex_byte_inj: "hex_byte c = hex_byte d \<longleftrightarrow> c = d"
proof
  let ?m = "of_char c :: nat" and ?n = "of_char d :: nat"
  assume "hex_byte c = hex_byte d"
  then have "hexdigit (?m div 16) = hexdigit (?n div 16)" "hexdigit (?m mod 16) = hexdigit (?n mod 16)"
    by (simp_all add: hex_byte_def Let_def)
  moreover have "?m div 16 < 16" "?n div 16 < 16"
    using nat_of_char_less_256[of c] nat_of_char_less_256[of d] by (simp_all add: less_mult_imp_div_less)
  ultimately have "?m div 16 = ?n div 16" "?m mod 16 = ?n mod 16" by (simp_all add: hexdigit_inj)
  then have "?m = ?n" by (metis div_mult_mod_eq)
  then show "c = d" by simp
qed simp

lemma length_hex_byte [simp]: "length (hex_byte c) = 2"
  by (simp add: hex_byte_def Let_def)

lemma esc_char_prefix: "esc_char c @ x = esc_char d @ y \<Longrightarrow> c = d \<and> x = y"
  by (auto simp: esc_char_def hex_byte_inj split: if_splits)

lemma esc_char_quote [simp]: "esc_char c @ x \<noteq> CHR 0x22 # y" "CHR 0x22 # y \<noteq> esc_char c @ x"
  by (auto simp: esc_char_def)

lemma esc_string_prefix:
  "concat (map esc_char s) @ CHR 0x22 # r = concat (map esc_char t) @ CHR 0x22 # u \<Longrightarrow> s = t \<and> r = u"
proof (induction s arbitrary: t)
  case Nil
  then show ?case by (cases t) simp_all
next
  case (Cons c s)
  then obtain d t' where t: "t = d # t'" by (cases t) simp_all
  with Cons.prems have "esc_char c @ (concat (map esc_char s) @ CHR 0x22 # r) =
      esc_char d @ (concat (map esc_char t') @ CHR 0x22 # u)" by simp
  from esc_char_prefix[OF this] show ?case using Cons.IH t by blast
qed

lemma render_str_prefix: "render_str s @ r = render_str t @ u \<Longrightarrow> s = t \<and> r = u"
  by (auto simp: render_str_def dest: esc_string_prefix)

lemma render_str_hd [simp]: "hd (render_str s) = CHR 0x22" "render_str s \<noteq> []"
  by (simp_all add: render_str_def)

fun is_atom :: "json \<Rightarrow> bool" where
  "is_atom (JStr s) = False"
| "is_atom (JList xs) = False"
| "is_atom (JObj kvs) = False"
| "is_atom j = True"

lemma digit_atom: "is_digit c \<Longrightarrow> atom_char c"
  by (auto simp: is_digit_def atom_char_def)

lemma int_dec_atom: "list_all atom_char (int_dec i)"
  using int_dec_chars[of _ i] digit_atom by (auto simp: list_all_iff atom_char_def)

lemma render_atom: "is_atom j \<Longrightarrow> wf_json j \<Longrightarrow> list_all atom_char (render j) \<and> render j \<noteq> []"
proof (cases j)
  case (JFloat f)
  assume "wf_json j"
  with JFloat show ?thesis by (cases f) (simp_all add: atom_char_def)
qed (simp_all add: int_dec_atom atom_char_def)

lemma int_dec_no_point: "CHR ''.'' \<notin> set (int_dec i)" "CHR ''e'' \<notin> set (int_dec i)"
  using int_dec_chars[of "CHR ''.''" i] int_dec_chars[of "CHR ''e''" i] by (auto simp: is_digit_def)

lemma int_dec_hd: "hd (int_dec i) = CHR ''-'' \<or> is_digit (hd (int_dec i))"
  using int_dec_chars[of "hd (int_dec i)" i] by simp

lemma int_dec_letter: "int_dec i = s \<Longrightarrow> \<not> (\<exists>c \<in> set s. c \<noteq> CHR ''-'' \<and> \<not> is_digit c)"
  using int_dec_chars by blast

lemma render_float_inj: "wf_float f \<Longrightarrow> wf_float g \<Longrightarrow> render_float f = render_float g \<longleftrightarrow> f = g"
  by (cases f; cases g) (auto simp: is_digit_def)

lemma render_float_int: "wf_float f \<Longrightarrow> render_float f \<noteq> int_dec i"
proof
  assume wf: "wf_float f" and eq: "render_float f = int_dec i"
  have "\<forall>c \<in> set (render_float f). c = CHR ''-'' \<or> is_digit c"
    using int_dec_chars unfolding eq by blast
  then have *: "c \<in> set (render_float f) \<Longrightarrow> c = CHR ''-'' \<or> is_digit c" for c by blast
  have nd: "\<not> is_digit CHR ''.''" "\<not> is_digit CHR ''e''" "\<not> is_digit CHR ''N''" "\<not> is_digit CHR ''I''"
    by code_simp+
  show False
  proof (cases f)
    case (FRepr s)
    then show ?thesis using wf nd *[of "CHR ''.''"] *[of "CHR ''e''"] by auto
  qed (use nd *[of "CHR ''N''"] *[of "CHR ''I''"] in auto)
qed

lemma int_dec_keyword: "int_dec i \<noteq> ''null''" "int_dec i \<noteq> ''true''" "int_dec i \<noteq> ''false''"
  using int_dec_letter[of i "''null''"] int_dec_letter[of i "''true''"] int_dec_letter[of i "''false''"]
  by (auto simp: is_digit_def)

lemma render_float_keyword:
  assumes "wf_float f"
  shows "render_float f \<noteq> ''null''" "render_float f \<noteq> ''true''" "render_float f \<noteq> ''false''"
  using assms by (cases f; auto simp: is_digit_def)+

lemmas keyword_neq = int_dec_keyword int_dec_keyword[THEN not_sym]
  render_float_keyword render_float_keyword[THEN not_sym]

lemma render_atom_inj:
  "is_atom a \<Longrightarrow> is_atom b \<Longrightarrow> wf_json a \<Longrightarrow> wf_json b \<Longrightarrow> render a = render b \<Longrightarrow> a = b"
  by (cases a; cases b; simp add: int_dec_inj keyword_neq render_float_int render_float_int[THEN not_sym] render_float_inj split: if_splits)

lemma takeWhile_delimited:
  "list_all atom_char s \<Longrightarrow> delimited r \<Longrightarrow> takeWhile atom_char (s @ r) = s"
  by (cases r) (auto simp: delimited_def atom_char_def list_all_iff takeWhile_append2)

lemma render_atom_prefix:
  assumes "is_atom a" "is_atom b" "wf_json a" "wf_json b" "delimited r" "delimited s"
    and "render a @ r = render b @ s"
  shows "a = b \<and> r = s"
proof -
  have "takeWhile atom_char (render a @ r) = render a" "takeWhile atom_char (render b @ s) = render b"
    using assms render_atom takeWhile_delimited by blast+
  then have "render a = render b" using assms(7) by simp
  then show ?thesis using assms render_atom_inj by auto
qed

lemma join_prefix:
  assumes "\<And>x y r s. x \<in> set xs \<Longrightarrow> y \<in> set ys \<Longrightarrow> delimited r \<Longrightarrow> delimited s \<Longrightarrow>
      f x @ r = f y @ s \<Longrightarrow> x = y \<and> r = s"
    and "\<And>x. f x \<noteq> [] \<and> hd (f x) \<noteq> d"
    and "d = CHR '']'' \<or> d = CHR ''}''"
    and "join_with '','' (map f xs) @ d # r = join_with '','' (map f ys) @ d # s"
  shows "xs = ys \<and> r = s"
  using assms(1,4)
proof (induction xs arbitrary: ys)
  case Nil
  show ?case
  proof (cases ys)
    case (Cons y ys')
    obtain c t where "f y = c # t" "c \<noteq> d" using assms(2)[of y] by (cases "f y") auto
    then show ?thesis using Nil.prems(2) Cons by (simp add: join_with_Cons)
  qed (use Nil in simp)
next
  case (Cons x xs)
  show ?case
  proof (cases ys)
    case Nil
    obtain c t where "f x = c # t" "c \<noteq> d" using assms(2)[of x] by (cases "f x") auto
    then show ?thesis using Cons.prems(2) Nil by (simp add: join_with_Cons)
  next
    case (Cons y ys')
    let ?r = "(if xs = [] then [] else '','' @ join_with '','' (map f xs)) @ d # r"
    let ?s = "(if ys' = [] then [] else '','' @ join_with '','' (map f ys')) @ d # s"
    have "f x @ ?r = f y @ ?s" using Cons.prems(2) Cons by (simp add: join_with_Cons)
    moreover have "delimited ?r" "delimited ?s" using assms(3) by (auto simp: delimited_def)
    ultimately have xy: "x = y" and rs: "?r = ?s" using Cons.prems(1)[of x y ?r ?s] Cons by auto
    show ?thesis
    proof (cases "xs = [] \<or> ys' = []")
      case True
      then show ?thesis using rs xy Cons assms(3) by (auto split: if_splits)
    next
      case False
      then have "join_with '','' (map f xs) @ d # r = join_with '','' (map f ys') @ d # s" using rs by simp
      then have "xs = ys' \<and> r = s" using Cons.IH[of ys'] Cons.prems(1) Cons by auto
      then show ?thesis using xy Cons by simp
    qed
  qed
qed

lemma render_hd_atom: "is_atom j \<Longrightarrow> wf_json j \<Longrightarrow> \<exists>c t. render j = c # t \<and> atom_char c"
  using render_atom[of j] by (cases "render j") auto

lemma render_hd_other:
  "\<not> is_atom j \<Longrightarrow> \<exists>c t. render j = c # t \<and> \<not> atom_char c"
  by (cases j) (auto simp: render_str_def atom_char_def)

lemma render_hd_close: "wf_json j \<Longrightarrow> \<exists>c t. render j = c # t \<and> c \<noteq> CHR '']'' \<and> c \<noteq> CHR ''}''"
proof (cases "is_atom j")
  case True
  then show "wf_json j \<Longrightarrow> ?thesis" using render_hd_atom[of j] by (auto simp: atom_char_def)
next
  case False
  then show ?thesis by (cases j) (auto simp: render_str_def)
qed

lemma render_nonatom_kind:
  assumes "render a @ r = render b @ s" "wf_json a" "wf_json b"
  shows "is_atom a = is_atom b"
proof -
  have "\<exists>c t. render x = c # t \<and> atom_char c = is_atom x" if "wf_json x" for x
    using that render_hd_atom[of x] render_hd_other[of x] by (cases "is_atom x") auto
  note hd_of = this
  obtain c t where "render a = c # t" "atom_char c = is_atom a" using hd_of[OF assms(2)] by blast
  moreover obtain d u where "render b = d # u" "atom_char d = is_atom b" using hd_of[OF assms(3)] by blast
  ultimately show ?thesis using assms(1) by simp
qed

lemma render_prefix:
  "wf_json a \<Longrightarrow> wf_json b \<Longrightarrow> delimited r \<Longrightarrow> delimited s \<Longrightarrow> render a @ r = render b @ s \<Longrightarrow> a = b \<and> r = s"
proof (induction a arbitrary: b r s)
  case (JStr x)
  then show ?case
    by (cases b) (use render_nonatom_kind[OF JStr.prems(5,1,2)] in
      \<open>auto simp: render_str_def dest: esc_string_prefix\<close>)
next
  case (JList xs)
  then obtain ys where b: "b = JList ys"
    by (cases b) (use render_nonatom_kind[OF JList.prems(5,1,2)] in \<open>auto simp: render_str_def\<close>)
  define f where "f x = (if wf_json x then render x else [CHR '','' ])" for x
  have "join_with '','' (map f xs) @ CHR '']'' # r = join_with '','' (map f ys) @ CHR '']'' # s"
    using JList.prems b by (simp add: f_def list_all_iff cong: map_cong)
  then have "xs = ys \<and> r = s"
  proof (rule join_prefix[rotated 3])
    show "f x \<noteq> [] \<and> hd (f x) \<noteq> CHR '']''" for x
      using render_hd_close[of x] by (auto simp: f_def)
    show "x = y \<and> r = s"
      if "x \<in> set xs" "y \<in> set ys" "delimited r" "delimited s" "f x @ r = f y @ s" for x y r s
      using JList.IH[of x y r s] JList.prems b that by (simp add: f_def list_all_iff)
  qed simp
  then show ?case using b by simp
next
  case (JObj kvs)
  then obtain kvs' where b: "b = JObj kvs'"
    by (cases b) (use render_nonatom_kind[OF JObj.prems(5,1,2)] in \<open>auto simp: render_str_def\<close>)
  define f where "f p = render_str (fst p) @ CHR '':'' # render (snd p)" for p :: "string \<times> json"
  have f: "map (\<lambda>(k, v). render_str k @ CHR '':'' # render v) kvs = map f kvs" for kvs
    by (simp add: f_def case_prod_beta)
  have "join_with '','' (map f kvs) @ CHR ''}'' # r = join_with '','' (map f kvs') @ CHR ''}'' # s"
    using JObj.prems b by (simp add: f)
  then have "kvs = kvs' \<and> r = s"
  proof (rule join_prefix[rotated 3])
    show "f p \<noteq> [] \<and> hd (f p) \<noteq> CHR ''}''" for p
      by (simp add: f_def)
    show "p = q \<and> r = s"
      if "p \<in> set kvs" "q \<in> set kvs'" "delimited r" "delimited s" "f p @ r = f q @ s" for p q r s
    proof -
      have "render_str (fst p) @ (CHR '':'' # render (snd p) @ r) =
          render_str (fst q) @ (CHR '':'' # render (snd q) @ s)"
        using that(5) by (simp add: f_def)
      from render_str_prefix[OF this] have "fst p = fst q \<and> render (snd p) @ r = render (snd q) @ s"
        by simp
      moreover have "wf_json (snd p)" "wf_json (snd q)"
        using JObj.prems b that by (auto simp: list_all_iff case_prod_beta)
      ultimately show ?thesis
        using JObj.IH[of p "snd p" "snd q" r s] that by (auto intro: prod_eqI snds.intros)
    qed
  qed simp
  then show ?case using b by simp
qed (use render_nonatom_kind render_atom_prefix in \<open>(metis is_atom.simps(4-7))+\<close>)

theorem render_inj:
  assumes "wf_json a" "wf_json b"
  shows "render a = render b \<longleftrightarrow> a = b"
  using render_prefix[of a b "[]" "[]"] assms by (auto simp: delimited_def)

lemma wf_norm [simp]: "wf_json (norm j) = wf_json j"
  by (induction j) (auto simp: list_all_iff case_prod_beta snds.simps intro: bexI)

lemma canonical_inj:
  assumes "wf_json a" "wf_json b"
  shows "canonical_json a = canonical_json b \<longleftrightarrow> norm a = norm b"
  using assms by (simp add: canonical_json_def render_inj)

lemma sha256_json_inj:
  assumes "wf_json a" "wf_json b" "sha256_json a = sha256_json b"
  shows "norm a = norm b \<or> sha_collision (canonical_json a) (canonical_json b)"
  using assms canonical_inj[of a b] sha256_hex_inj[of "canonical_json a" "canonical_json b"]
  by (auto simp: sha256_json_def)

section \<open>Documents with the same keys\<close>

lemma sort_key_fst_distinct:
  assumes "distinct (map fst xs)" "map fst xs = map fst ys" "sort_key fst xs = sort_key fst ys"
  shows "xs = (ys :: (string \<times> 'a) list)"
proof -
  have "set xs = set ys" using assms(3) by (metis set_sort)
  then have eq: "map_of xs = map_of ys"
    using assms(1,2) by (simp add: map_of_inject_set)
  have vals: "map snd zs = map (the \<circ> map_of zs) (map fst zs)" if "distinct (map fst zs)" for zs :: "(string \<times> 'a) list"
    using that by (auto simp: comp_def intro!: map_cong)
  have "map snd xs = map snd ys"
    using vals[of xs] vals[of ys] assms(1,2) eq by simp
  then show ?thesis using assms(2) by (metis zip_map_fst_snd)
qed

lemma norm_obj_inj:
  assumes "distinct (map fst xs)" "map fst xs = map fst ys"
  shows "norm (JObj xs) = norm (JObj ys) \<longleftrightarrow> map (norm \<circ> snd) xs = map (norm \<circ> snd) ys"
proof
  let ?f = "\<lambda>(k, v). (k, norm v)"
  have fst: "map fst (map ?f xs) = map fst xs" for xs :: "(string \<times> json) list"
    by (simp add: case_prod_beta)
  have snd: "map snd (map ?f xs) = map (norm \<circ> snd) xs" for xs :: "(string \<times> json) list"
    by (simp add: case_prod_beta)
  {
    assume "norm (JObj xs) = norm (JObj ys)"
    then have "map ?f xs = map ?f ys"
      using sort_key_fst_distinct[of "map ?f xs" "map ?f ys"] assms unfolding fst by simp
    then have "map snd (map ?f xs) = map snd (map ?f ys)" by simp
    then show "map (norm \<circ> snd) xs = map (norm \<circ> snd) ys" unfolding snd .
  }
  {
    assume "map (norm \<circ> snd) xs = map (norm \<circ> snd) ys"
    then have "map ?f xs = map ?f ys"
      using fst[of xs] fst[of ys] snd[of xs] snd[of ys] assms(2) by (metis zip_map_fst_snd)
    then show "norm (JObj xs) = norm (JObj ys)" by simp
  }
qed

end
