(* ===== verification/Immutable.thy ===== *)
theory Immutable
  imports Json
begin

text \<open>
  domain/immutable.py: deep freezing of JSON-shaped data.  A Python value of unknown shape is a
  \<open>pyval\<close>: the scalars, lists, tuples, dictionaries, read-only mapping proxies and any other object
  (with the name of its type).  \<open>freeze_json\<close> and \<open>thaw_json\<close> follow the source branch by branch.
  The lemmas: freezing succeeds exactly on JSON-shaped data, its result holds no mutable container,
  freezing is idempotent, and thawing a frozen value gives a detached plain copy of the original.
\<close>

section \<open>Python values\<close>

text \<open>A dictionary key: a string, or another hashable object with its \<open>str()\<close> text.\<close>

datatype pykey = KStr string | KOther string

datatype pyval =
    VNone
  | VBool bool
  | VInt int
  | VFloat pyfloat
  | VStr string
  | VList "pyval list"
  | VTuple "pyval list"
  | VDict "(pykey \<times> pyval) list"
  | VProxy "(pykey \<times> pyval) list"
  | VObj string

fun key_str :: "pykey \<Rightarrow> string" where
  "key_str (KStr s) = s"
| "key_str (KOther s) = s"

definition dict_of :: "('k \<times> 'v) list \<Rightarrow> ('k \<times> 'v) list" where
  "dict_of kvs = foldl (\<lambda>d (k, v). dict_set k v d) [] kvs"

lemma map_res_cong [fundef_cong]:
  "xs = ys \<Longrightarrow> (\<And>x. x \<in> set ys \<Longrightarrow> f x = g x) \<Longrightarrow> map_res f xs = map_res g ys"
  by (induction ys arbitrary: xs) simp_all

section \<open>freeze_json and thaw_json\<close>

fun freeze_json :: "pyval \<Rightarrow> pyval res" where
  "freeze_json (VDict kvs) =
     and_then (map_res (\<lambda>(k, v).
         (case k of
            KOther _ \<Rightarrow> raise TypeError ''JSON object keys must be strings''
          | KStr s \<Rightarrow> and_then (freeze_json v) (\<lambda>w. Inr (KStr s, w)))) kvs)
       (\<lambda>items. Inr (VProxy items))"
| "freeze_json (VProxy kvs) =
     and_then (map_res (\<lambda>(k, v).
         (case k of
            KOther _ \<Rightarrow> raise TypeError ''JSON object keys must be strings''
          | KStr s \<Rightarrow> and_then (freeze_json v) (\<lambda>w. Inr (KStr s, w)))) kvs)
       (\<lambda>items. Inr (VProxy items))"
| "freeze_json (VList xs) = and_then (map_res freeze_json xs) (\<lambda>ys. Inr (VTuple ys))"
| "freeze_json (VTuple xs) = and_then (map_res freeze_json xs) (\<lambda>ys. Inr (VTuple ys))"
| "freeze_json (VObj t) = raise TypeError (''value is not JSON-shaped: '' @ t)"
| "freeze_json v = Inr v"

fun thaw_json :: "pyval \<Rightarrow> pyval" where
  "thaw_json (VDict kvs) = VDict (dict_of (map (\<lambda>(k, v). (KStr (key_str k), thaw_json v)) kvs))"
| "thaw_json (VProxy kvs) = VDict (dict_of (map (\<lambda>(k, v). (KStr (key_str k), thaw_json v)) kvs))"
| "thaw_json (VTuple xs) = VList (map thaw_json xs)"
| "thaw_json v = v"

section \<open>What freezing guarantees\<close>

definition is_str_key :: "pykey \<Rightarrow> bool" where
  "is_str_key k \<longleftrightarrow> (case k of KStr _ \<Rightarrow> True | KOther _ \<Rightarrow> False)"

fun json_shaped :: "pyval \<Rightarrow> bool" where
  "json_shaped (VDict kvs) = list_all (\<lambda>(k, v). is_str_key k \<and> json_shaped v) kvs"
| "json_shaped (VProxy kvs) = list_all (\<lambda>(k, v). is_str_key k \<and> json_shaped v) kvs"
| "json_shaped (VList xs) = list_all json_shaped xs"
| "json_shaped (VTuple xs) = list_all json_shaped xs"
| "json_shaped (VObj t) = False"
| "json_shaped v = True"

text \<open>No mutable container is reachable.\<close>

fun frozen :: "pyval \<Rightarrow> bool" where
  "frozen (VList xs) = False"
| "frozen (VDict kvs) = False"
| "frozen (VTuple xs) = list_all frozen xs"
| "frozen (VProxy kvs) = list_all (\<lambda>(k, v). frozen v) kvs"
| "frozen (VObj t) = False"
| "frozen v = True"

text \<open>A dictionary has each key once.\<close>

fun wf_val :: "pyval \<Rightarrow> bool" where
  "wf_val (VDict kvs) = (distinct (map fst kvs) \<and> list_all (\<lambda>(k, v). wf_val v) kvs)"
| "wf_val (VProxy kvs) = (distinct (map fst kvs) \<and> list_all (\<lambda>(k, v). wf_val v) kvs)"
| "wf_val (VList xs) = list_all wf_val xs"
| "wf_val (VTuple xs) = list_all wf_val xs"
| "wf_val v = True"

text \<open>The plain data with the same content: lists for sequences, dictionaries for mappings.\<close>

fun plain :: "pyval \<Rightarrow> pyval" where
  "plain (VDict kvs) = VDict (map (\<lambda>(k, v). (k, plain v)) kvs)"
| "plain (VProxy kvs) = VDict (map (\<lambda>(k, v). (k, plain v)) kvs)"
| "plain (VList xs) = VList (map plain xs)"
| "plain (VTuple xs) = VList (map plain xs)"
| "plain v = v"

lemma dict_set_fresh: "k \<notin> fst ` set d \<Longrightarrow> dict_set k v d = d @ [(k, v)]"
  by (induction d) auto

lemma foldl_dict_set_distinct:
  "distinct (map fst (d @ kvs)) \<Longrightarrow> foldl (\<lambda>d (k, v). dict_set k v d) d kvs = d @ kvs"
proof (induction kvs arbitrary: d)
  case (Cons p kvs)
  obtain k v where p: "p = (k, v)" by (cases p)
  then have "dict_set k v d = d @ [(k, v)]" using Cons.prems by (intro dict_set_fresh) auto
  then show ?case using Cons.IH[of "d @ [(k, v)]"] Cons.prems p by simp
qed simp

lemma dict_of_distinct: "distinct (map fst kvs) \<Longrightarrow> dict_of kvs = kvs"
  using foldl_dict_set_distinct[of "[]" kvs] by (simp add: dict_of_def)

lemma ok_map_res: "ok (map_res f xs) \<longleftrightarrow> list_all (\<lambda>x. ok (f x)) xs"
  by (induction xs) (auto simp: ok_iff and_then_Inr)

lemma ok_and_then_Inr: "ok (and_then m (\<lambda>x. Inr (f x))) = ok m"
  by (cases m) simp_all

lemma freeze_json_ok: "ok (freeze_json v) \<longleftrightarrow> json_shaped v"
proof (induction v)
  case (VDict kvs)
  then show ?case
    by (auto simp: ok_and_then_Inr ok_map_res list_all_iff is_str_key_def snds.simps split: pykey.splits)
next
  case (VProxy kvs)
  then show ?case
    by (auto simp: ok_and_then_Inr ok_map_res list_all_iff is_str_key_def snds.simps split: pykey.splits)
qed (simp_all add: ok_and_then_Inr ok_map_res list_all_iff)

text \<open>The relation between a value and its frozen form, one equation per container.\<close>

definition frozen_item :: "pykey \<times> pyval \<Rightarrow> pykey \<times> pyval \<Rightarrow> bool" where
  "frozen_item p q \<longleftrightarrow> is_str_key (fst p) \<and> fst q = fst p \<and> freeze_json (snd p) = Inr (snd q)"

lemma freeze_items:
  "map_res (\<lambda>(k, v).
       (case k of
          KOther _ \<Rightarrow> raise TypeError ''JSON object keys must be strings''
        | KStr s \<Rightarrow> and_then (freeze_json v) (\<lambda>w. Inr (KStr s, w)))) kvs = Inr items
   \<longleftrightarrow> list_all2 frozen_item kvs items"
proof -
  have "(case k of
          KOther _ \<Rightarrow> raise TypeError ''JSON object keys must be strings''
        | KStr s \<Rightarrow> and_then (freeze_json v) (\<lambda>w. Inr (KStr s, w))) = Inr q \<longleftrightarrow> frozen_item (k, v) q" for k v q
    by (cases q; cases k) (auto simp: frozen_item_def is_str_key_def and_then_Inr)
  then show ?thesis unfolding map_res_Inr by (simp add: case_prod_beta)
qed

lemma list_all2_imp_all:
  "list_all2 P xs ys \<Longrightarrow> (\<And>x y. x \<in> set xs \<Longrightarrow> P x y \<Longrightarrow> Q y) \<Longrightarrow> list_all Q ys"
  by (induction rule: list_all2_induct) auto

lemma freeze_json_frozen: "freeze_json v = Inr w \<Longrightarrow> frozen w"
proof (induction v arbitrary: w)
  case (VDict kvs)
  then show ?case
    by (auto simp: and_then_Inr freeze_items frozen_item_def case_prod_beta elim!: list_all2_imp_all
      intro: snds.intros)
next
  case (VProxy kvs)
  then show ?case
    by (auto simp: and_then_Inr freeze_items frozen_item_def case_prod_beta elim!: list_all2_imp_all
      intro: snds.intros)
qed (auto simp: and_then_Inr map_res_Inr elim!: list_all2_imp_all)

lemma list_all2_map_eq:
  "list_all2 P xs ys \<Longrightarrow> (\<And>x y. x \<in> set xs \<Longrightarrow> y \<in> set ys \<Longrightarrow> P x y \<Longrightarrow> g y = f x) \<Longrightarrow> map g ys = map f xs"
  by (induction rule: list_all2_induct) auto

lemma frozen_items_all:
  assumes "list_all2 frozen_item kvs items"
    and "\<And>p w. p \<in> set kvs \<Longrightarrow> freeze_json (snd p) = Inr w \<Longrightarrow> Q w"
  shows "list_all (\<lambda>(k, v). Q v) items"
  by (rule list_all2_imp_all[OF assms(1)]) (auto simp: frozen_item_def case_prod_beta intro: assms(2))

lemma frozen_items_keys: "list_all2 frozen_item kvs items \<Longrightarrow> map fst items = map fst kvs"
  by (erule list_all2_map_eq) (simp add: frozen_item_def)

lemma freeze_json_wf: "freeze_json v = Inr w \<Longrightarrow> wf_val v \<Longrightarrow> wf_val w"
proof (induction v arbitrary: w)
  case (VDict kvs)
  have "list_all (\<lambda>(k, v). wf_val v) items" if "list_all2 frozen_item kvs items" for items
    using VDict.IH VDict.prems(2) by (intro frozen_items_all[OF that]) (auto simp: list_all_iff intro: snds.intros)
  with VDict.prems show ?case by (auto simp: and_then_Inr freeze_items frozen_items_keys)
next
  case (VProxy kvs)
  have "list_all (\<lambda>(k, v). wf_val v) items" if "list_all2 frozen_item kvs items" for items
    using VProxy.IH VProxy.prems(2) by (intro frozen_items_all[OF that]) (auto simp: list_all_iff intro: snds.intros)
  with VProxy.prems show ?case by (auto simp: and_then_Inr freeze_items frozen_items_keys)
next
  case (VList xs)
  then show ?case by (auto simp: and_then_Inr map_res_Inr list_all_iff[of wf_val xs] elim!: list_all2_imp_all)
next
  case (VTuple xs)
  then show ?case by (auto simp: and_then_Inr map_res_Inr list_all_iff[of wf_val xs] elim!: list_all2_imp_all)
qed auto

lemma thaw_items:
  assumes "list_all2 frozen_item kvs items" "distinct (map fst kvs)"
    and "\<And>p w. p \<in> set kvs \<Longrightarrow> freeze_json (snd p) = Inr w \<Longrightarrow> thaw_json w = plain (snd p)"
  shows "thaw_json (VProxy items) = VDict (map (\<lambda>(k, v). (k, plain v)) kvs)"
proof -
  have eq: "map (\<lambda>(k, v). (KStr (key_str k), thaw_json v)) items = map (\<lambda>(k, v). (k, plain v)) kvs"
    using assms(3) by (intro list_all2_map_eq[OF assms(1)])
      (auto simp: frozen_item_def case_prod_beta is_str_key_def split: pykey.splits)
  have "map fst (map (\<lambda>(k, v). (k, plain v)) kvs) = map fst kvs" by (simp add: case_prod_beta)
  then have "dict_of (map (\<lambda>(k, v). (k, plain v)) kvs) = map (\<lambda>(k, v). (k, plain v)) kvs"
    using assms(2) by (intro dict_of_distinct) (simp only:)
  then show ?thesis by (simp add: eq)
qed

text \<open>Thawing the frozen form gives the plain copy of the original.\<close>

lemma thaw_freeze: "freeze_json v = Inr w \<Longrightarrow> wf_val v \<Longrightarrow> thaw_json w = plain v"
proof (induction v arbitrary: w)
  case (VDict kvs)
  have "thaw_json (VProxy items) = plain (VDict kvs)" if "list_all2 frozen_item kvs items" for items
    unfolding plain.simps using VDict.IH VDict.prems(2)
    by (intro thaw_items[OF that]) (auto simp: list_all_iff intro: snds.intros)
  with VDict.prems show ?case by (auto simp: and_then_Inr freeze_items)
next
  case (VProxy kvs)
  have "thaw_json (VProxy items) = plain (VProxy kvs)" if "list_all2 frozen_item kvs items" for items
    unfolding plain.simps using VProxy.IH VProxy.prems(2)
    by (intro thaw_items[OF that]) (auto simp: list_all_iff intro: snds.intros)
  with VProxy.prems show ?case by (auto simp: and_then_Inr freeze_items)
next
  case (VList xs)
  then show ?case
    by (auto simp: and_then_Inr map_res_Inr list_all_iff intro!: list_all2_map_eq)
next
  case (VTuple xs)
  then show ?case
    by (auto simp: and_then_Inr map_res_Inr list_all_iff intro!: list_all2_map_eq)
qed auto

text \<open>A frozen value is its own frozen form.\<close>

lemma freeze_json_idem: "frozen w \<Longrightarrow> json_shaped w \<Longrightarrow> freeze_json w = Inr w"
proof (induction w)
  case (VTuple xs)
  then have "map_res freeze_json xs = Inr xs"
    by (auto simp: map_res_Inr list_all_iff list_all2_same)
  then show ?case by simp
next
  case (VProxy kvs)
  then have "list_all2 frozen_item kvs kvs"
    by (fastforce simp: list_all2_same frozen_item_def list_all_iff intro: snds.intros)
  then show ?case by (simp only: freeze_json.simps flip: freeze_items) (simp add: freeze_items[THEN iffD2])
qed auto

end
