(* ===== verification/Evidence.thy ===== *)
theory Evidence
  imports Immutable
begin

text \<open>
  domain/evidence.py: severities, decisions, evidence records and findings, their serialised form
  and the seal of a set of findings (\<open>finding_set_sha256\<close>).  The lemmas: the seal does not depend
  on the order of the findings, and two sets with the same seal serialise to the same multiset of
  findings unless they are a SHA-256 collision.
\<close>

section \<open>Enumerations\<close>

datatype severity = INFO | LOW | MEDIUM | HIGH | CRITICAL
datatype decision = GO | CONDITIONAL_GO | NO_GO
datatype evidence_authority = PLATFORM | ORGANIZATION_POLICY | MODEL_ADVISORY
datatype evidence_kind = STATIC_RULE | EXECUTION_RESULT | INTEGRITY_CHECK | MODEL_NOTE

fun severity_value :: "severity \<Rightarrow> string" where
  "severity_value INFO = ''INFO''"
| "severity_value LOW = ''LOW''"
| "severity_value MEDIUM = ''MEDIUM''"
| "severity_value HIGH = ''HIGH''"
| "severity_value CRITICAL = ''CRITICAL''"

text \<open>\<open>Severity(text)\<close>, \<open>None\<close> where the enum raises ValueError.\<close>

definition severity_of :: "string \<Rightarrow> severity option" where
  "severity_of s = List.find (\<lambda>v. severity_value v = s) [INFO, LOW, MEDIUM, HIGH, CRITICAL]"

fun decision_value :: "decision \<Rightarrow> string" where
  "decision_value GO = ''GO''"
| "decision_value CONDITIONAL_GO = ''CONDITIONAL_GO''"
| "decision_value NO_GO = ''NO_GO''"

definition decision_of :: "string \<Rightarrow> decision option" where
  "decision_of s = List.find (\<lambda>v. decision_value v = s) [GO, CONDITIONAL_GO, NO_GO]"

fun authority_value :: "evidence_authority \<Rightarrow> string" where
  "authority_value PLATFORM = ''PLATFORM''"
| "authority_value ORGANIZATION_POLICY = ''ORGANIZATION_POLICY''"
| "authority_value MODEL_ADVISORY = ''MODEL_ADVISORY''"

fun kind_value :: "evidence_kind \<Rightarrow> string" where
  "kind_value STATIC_RULE = ''STATIC_RULE''"
| "kind_value EXECUTION_RESULT = ''EXECUTION_RESULT''"
| "kind_value INTEGRITY_CHECK = ''INTEGRITY_CHECK''"
| "kind_value MODEL_NOTE = ''MODEL_NOTE''"

lemma enum_value_inj [simp]:
  "severity_value a = severity_value b \<longleftrightarrow> a = b" "decision_value c = decision_value d \<longleftrightarrow> c = d"
  "authority_value e = authority_value f \<longleftrightarrow> e = f" "kind_value g = kind_value h \<longleftrightarrow> g = h"
  subgoal by (cases a; cases b) simp_all
  subgoal by (cases c; cases d) simp_all
  subgoal by (cases e; cases f) simp_all
  subgoal by (cases g; cases h) simp_all
  done

lemma severity_of_value [simp]: "severity_of (severity_value v) = Some v"
  by (cases v) (simp_all add: severity_of_def)

lemma decision_of_value [simp]: "decision_of (decision_value v) = Some v"
  by (cases v) (simp_all add: decision_of_def)

lemma severity_of_Some: "severity_of s = Some v \<Longrightarrow> s = severity_value v"
  by (auto simp: severity_of_def split: if_splits)

lemma decision_of_Some: "decision_of s = Some v \<Longrightarrow> s = decision_value v"
  by (auto simp: decision_of_def split: if_splits)

text \<open>
  The decisions from the most to the least permissive: \<open>GO < CONDITIONAL_GO < NO_GO\<close>.  The
  component that decides is specified with it (theory Judge).
\<close>

fun strictness :: "decision \<Rightarrow> nat" where
  "strictness GO = 0"
| "strictness CONDITIONAL_GO = 1"
| "strictness NO_GO = 2"

instantiation decision :: linorder
begin

definition less_eq_decision :: "decision \<Rightarrow> decision \<Rightarrow> bool" where
  "less_eq_decision a b \<longleftrightarrow> strictness a \<le> strictness b"

definition less_decision :: "decision \<Rightarrow> decision \<Rightarrow> bool" where
  "less_decision a b \<longleftrightarrow> strictness a < strictness b"

instance
proof
  fix a b :: decision
  assume "a \<le> b" "b \<le> a"
  then show "a = b" by (cases a; cases b) (simp_all add: less_eq_decision_def)
qed (auto simp: less_eq_decision_def less_decision_def)

end

section \<open>Evidence and findings\<close>

text \<open>
  The dataclasses are frozen; \<open>details\<close> is a JSON object that the constructor deep-freezes
  (theory Immutable), so a document value models it.
\<close>

record evidence =
  evidence_id :: string
  ev_kind :: evidence_kind
  ev_authority :: evidence_authority
  ev_source :: string
  ev_summary :: string
  reproducible :: bool
  blocking_eligible :: bool
  ev_details :: json
  ev_policy_id :: "string option"
  ev_policy_revision :: "int option"
  ev_policy_sha256 :: "string option"

definition authoritative :: "evidence \<Rightarrow> bool" where
  "authoritative e \<longleftrightarrow> ev_authority e \<in> {PLATFORM, ORGANIZATION_POLICY}"

definition evidence_to_dict :: "evidence \<Rightarrow> json" where
  "evidence_to_dict e = JObj
    [(''evidence_id'', JStr (evidence_id e)),
     (''kind'', JStr (kind_value (ev_kind e))),
     (''authority'', JStr (authority_value (ev_authority e))),
     (''source'', JStr (ev_source e)),
     (''summary'', JStr (ev_summary e)),
     (''reproducible'', JBool (reproducible e)),
     (''blocking_eligible'', JBool (blocking_eligible e)),
     (''details'', ev_details e),
     (''policy_id'', opt_str (ev_policy_id e)),
     (''policy_revision'', opt_int (ev_policy_revision e)),
     (''policy_sha256'', opt_str (ev_policy_sha256 e))]"

record finding =
  finding_id :: string
  fd_title :: string
  fd_severity :: severity
  fd_source :: string
  fd_claim :: string
  fd_evidence :: "evidence list"
  advisory_notes :: "string list"

definition blocking_evidence :: "finding \<Rightarrow> evidence list" where
  "blocking_evidence f = filter (\<lambda>e. authoritative e \<and> blocking_eligible e) (fd_evidence f)"

definition finding_to_dict :: "finding \<Rightarrow> json" where
  "finding_to_dict f = JObj
    [(''finding_id'', JStr (finding_id f)),
     (''title'', JStr (fd_title f)),
     (''severity'', JStr (severity_value (fd_severity f))),
     (''source'', JStr (fd_source f)),
     (''claim'', JStr (fd_claim f)),
     (''evidence'', JList (map evidence_to_dict (fd_evidence f))),
     (''advisory_notes'', JList (map JStr (advisory_notes f)))]"

section \<open>The seal of a set of findings\<close>

definition evidence_set_bytes :: "finding list \<Rightarrow> bytes" where
  "evidence_set_bytes fs =
     render (JList (map JStr (sort (map (\<lambda>f. canonical_json (finding_to_dict f)) fs))))"

definition finding_set_sha256 :: "finding list \<Rightarrow> string" where
  "finding_set_sha256 fs = sha256_hex (evidence_set_bytes fs)"

text \<open>A finding up to the key order of its evidence details, which the serialised form forgets.\<close>

definition evidence_norm :: "evidence \<Rightarrow> evidence" where
  "evidence_norm e = e\<lparr>ev_details := norm (ev_details e)\<rparr>"

definition finding_norm :: "finding \<Rightarrow> finding" where
  "finding_norm f = f\<lparr>fd_evidence := map evidence_norm (fd_evidence f)\<rparr>"

definition wf_finding :: "finding \<Rightarrow> bool" where
  "wf_finding f \<longleftrightarrow> list_all (\<lambda>e. wf_json (ev_details e)) (fd_evidence f)"

lemma wf_opt [simp]: "wf_json (opt_str s)" "wf_json (opt_int i)" "norm (opt_str s) = opt_str s"
  "norm (opt_int i) = opt_int i"
  by (simp_all add: opt_str_def opt_int_def split: option.splits)

lemma evidence_norm_eq:
  "evidence_norm e = evidence_norm e' \<longleftrightarrow>
     evidence_id e = evidence_id e' \<and> ev_kind e = ev_kind e' \<and> ev_authority e = ev_authority e' \<and>
     ev_source e = ev_source e' \<and> ev_summary e = ev_summary e' \<and> reproducible e = reproducible e' \<and>
     blocking_eligible e = blocking_eligible e' \<and> norm (ev_details e) = norm (ev_details e') \<and>
     ev_policy_id e = ev_policy_id e' \<and> ev_policy_revision e = ev_policy_revision e' \<and>
     ev_policy_sha256 e = ev_policy_sha256 e'"
  by (cases e; cases e') (simp add: evidence_norm_def)

lemma finding_norm_eq:
  "finding_norm f = finding_norm g \<longleftrightarrow>
     finding_id f = finding_id g \<and> fd_title f = fd_title g \<and> fd_severity f = fd_severity g \<and>
     fd_source f = fd_source g \<and> fd_claim f = fd_claim g \<and>
     map evidence_norm (fd_evidence f) = map evidence_norm (fd_evidence g) \<and>
     advisory_notes f = advisory_notes g"
  by (cases f; cases g) (simp add: finding_norm_def)

lemma evidence_to_dict_norm:
  "norm (evidence_to_dict e) = norm (evidence_to_dict e') \<longleftrightarrow> evidence_norm e = evidence_norm e'"
  unfolding evidence_to_dict_def evidence_norm_eq by (subst norm_obj_inj) simp_all

lemma map_norm_evidence:
  "map (norm \<circ> evidence_to_dict) es = map (norm \<circ> evidence_to_dict) es' \<longleftrightarrow>
   map evidence_norm es = map evidence_norm es'"
  by (induction es es' rule: list_induct2') (auto simp: evidence_to_dict_norm)

lemma map_norm_JStr: "map (norm \<circ> JStr) xs = map JStr xs"
  by simp

lemma map_JStr_inj [simp]: "map JStr xs = map JStr ys \<longleftrightarrow> xs = ys"
  by (induction xs ys rule: list_induct2') auto

lemma finding_to_dict_norm:
  "norm (finding_to_dict f) = norm (finding_to_dict g) \<longleftrightarrow> finding_norm f = finding_norm g"
  unfolding finding_to_dict_def finding_norm_eq
  by (subst norm_obj_inj) (simp_all add: map_norm_evidence map_norm_JStr)

lemma wf_finding_dict: "wf_finding f \<Longrightarrow> wf_json (finding_to_dict f)"
  by (auto simp: wf_finding_def finding_to_dict_def evidence_to_dict_def list_all_iff)

lemma canonical_finding:
  "wf_finding f \<Longrightarrow> wf_finding g \<Longrightarrow>
    canonical_json (finding_to_dict f) = canonical_json (finding_to_dict g) \<longleftrightarrow> finding_norm f = finding_norm g"
  by (simp add: canonical_inj wf_finding_dict finding_to_dict_norm)

lemma evidence_set_bytes_inj:
  "evidence_set_bytes fs = evidence_set_bytes gs \<longleftrightarrow>
   mset (map (\<lambda>f. canonical_json (finding_to_dict f)) fs) =
   mset (map (\<lambda>f. canonical_json (finding_to_dict f)) gs)"
  unfolding evidence_set_bytes_def
  by (subst render_inj) (simp_all add: list_all_iff sort_eq_iff_mset del: mset_map)

lemma mset_map_cong_inj:
  assumes "\<And>x y. x \<in> set xs \<Longrightarrow> y \<in> set ys \<Longrightarrow> f x = f y \<Longrightarrow> g x = g y" "mset (map f xs) = mset (map f ys)"
  shows "mset (map g xs) = mset (map g ys)"
  using assms
proof (induction xs arbitrary: ys)
  case (Cons x xs)
  have "f x \<in># mset (map f ys)" using Cons.prems(2) by (metis list.set_intros(1) list.simps(9) set_mset_mset)
  then obtain y where y: "y \<in> set ys" "f y = f x" by auto
  then obtain as bs where ys: "ys = as @ y # bs" by (meson split_list)
  have "mset (map f xs) = mset (map f (as @ bs))" using Cons.prems(2) y ys by simp
  then have "mset (map g xs) = mset (map g (as @ bs))"
    using Cons.prems(1) ys by (intro Cons.IH) auto
  moreover have "g y = g x" using Cons.prems(1)[of x y] y by simp
  ultimately show ?case using ys by simp
qed simp

lemma finding_set_sha256_order:
  assumes "mset fs = mset gs"
  shows "finding_set_sha256 fs = finding_set_sha256 gs"
proof -
  have "evidence_set_bytes fs = evidence_set_bytes gs"
    unfolding evidence_set_bytes_inj by (simp only: mset_map assms)
  then show ?thesis by (simp only: finding_set_sha256_def)
qed

lemma finding_set_sha256_binding:
  assumes "list_all wf_finding fs" "list_all wf_finding gs" "finding_set_sha256 fs = finding_set_sha256 gs"
  shows "mset (map finding_norm fs) = mset (map finding_norm gs) \<or>
    sha_collision (evidence_set_bytes fs) (evidence_set_bytes gs)"
proof (cases "evidence_set_bytes fs = evidence_set_bytes gs")
  case True
  then have "mset (map finding_norm fs) = mset (map finding_norm gs)"
    using assms(1,2) unfolding evidence_set_bytes_inj
    by (rule_tac mset_map_cong_inj) (auto simp: list_all_iff canonical_finding)
  then show ?thesis ..
next
  case False
  then show ?thesis using assms(3) by (simp add: finding_set_sha256_def sha_collision_def)
qed

end
