(* ===== verification/Judge.thy ===== *)
theory Judge
  imports Evidence
begin

text \<open>
  release/judge.py and the in-process gatekeeper of release/gatekeeper.py: the deterministic
  decision over a set of findings, and the verdict record.  The abstract specification gives each
  finding a level and takes the strictest (\<open>spec_decision\<close>); \<open>judge_decide\<close> is proved to implement
  it, so the decision depends on the set of findings only and more findings never relax it.
  The locale \<open>deterministic_gate\<close> is the contract the release engine relies on.
\<close>

section \<open>DeterministicJudge\<close>

definition high_blockers :: "finding list \<Rightarrow> finding list" where
  "high_blockers fs = filter (\<lambda>f. fd_severity f \<in> {HIGH, CRITICAL} \<and> blocking_evidence f \<noteq> []) fs"

definition medium_blockers :: "finding list \<Rightarrow> finding list" where
  "medium_blockers fs = filter (\<lambda>f. fd_severity f = MEDIUM \<and> blocking_evidence f \<noteq> []) fs"

definition count_text :: "'a list \<Rightarrow> string" where
  "count_text xs = nat_dec (length xs)"

definition judge_decide :: "finding list \<Rightarrow> decision \<times> string list" where
  "judge_decide fs =
     (let blockers = high_blockers fs; medium = medium_blockers fs in
      if blockers \<noteq> [] then
        (NO_GO, [count_text blockers @ '' high/critical finding(s) have authoritative blocking evidence.'',
                 ''Model output is not part of release authority.''])
      else if medium \<noteq> [] then
        (CONDITIONAL_GO, [count_text medium @ '' authoritative medium-severity finding(s) remain.''])
      else (GO, [''No authoritative blocking evidence remains.'']))"

section \<open>Specification: the strictest level\<close>

definition finding_level :: "finding \<Rightarrow> decision" where
  "finding_level f =
     (if blocking_evidence f = [] then GO
      else if fd_severity f \<in> {HIGH, CRITICAL} then NO_GO
      else if fd_severity f = MEDIUM then CONDITIONAL_GO
      else GO)"

definition spec_decision :: "finding list \<Rightarrow> decision" where
  "spec_decision fs = Max (insert GO (finding_level ` set fs))"

lemma decision_le_simps [simp]: "GO \<le> d" "d \<le> NO_GO" "CONDITIONAL_GO \<le> d \<longleftrightarrow> d \<noteq> GO"
    "NO_GO \<le> d \<longleftrightarrow> d = NO_GO" "d \<le> GO \<longleftrightarrow> d = GO" "d \<le> CONDITIONAL_GO \<longleftrightarrow> d \<noteq> NO_GO"
  by (cases d; simp add: less_eq_decision_def)+

lemma spec_decision_NO_GO: "spec_decision fs = NO_GO \<longleftrightarrow> (\<exists>f \<in> set fs. finding_level f = NO_GO)"
proof -
  have "NO_GO \<le> Max (insert GO (finding_level ` set fs)) \<longleftrightarrow> (\<exists>d \<in> insert GO (finding_level ` set fs). NO_GO \<le> d)"
    by (rule Max_ge_iff) simp_all
  then show ?thesis by (simp add: spec_decision_def) (metis (no_types, lifting) image_iff)
qed

lemma spec_decision_GO: "spec_decision fs = GO \<longleftrightarrow> (\<forall>f \<in> set fs. finding_level f = GO)"
proof -
  have "Max (insert GO (finding_level ` set fs)) \<le> GO \<longleftrightarrow> (\<forall>d \<in> insert GO (finding_level ` set fs). d \<le> GO)"
    by (rule Max_le_iff) simp_all
  then show ?thesis by (simp add: spec_decision_def)
qed

lemma finding_level_NO_GO:
  "finding_level f = NO_GO \<longleftrightarrow> fd_severity f \<in> {HIGH, CRITICAL} \<and> blocking_evidence f \<noteq> []"
  by (simp add: finding_level_def)

lemma finding_level_CONDITIONAL:
  "finding_level f = CONDITIONAL_GO \<longleftrightarrow> fd_severity f = MEDIUM \<and> blocking_evidence f \<noteq> []"
  by (cases "fd_severity f") (simp_all add: finding_level_def)

lemma high_blockers_level: "high_blockers fs \<noteq> [] \<longleftrightarrow> (\<exists>f \<in> set fs. finding_level f = NO_GO)"
  unfolding high_blockers_def finding_level_NO_GO filter_empty_conv by blast

lemma medium_blockers_level: "medium_blockers fs \<noteq> [] \<longleftrightarrow> (\<exists>f \<in> set fs. finding_level f = CONDITIONAL_GO)"
  unfolding medium_blockers_def finding_level_CONDITIONAL filter_empty_conv by blast

lemma judge_decide_spec: "fst (judge_decide fs) = spec_decision fs"
proof (cases "high_blockers fs \<noteq> []")
  case True
  then have "spec_decision fs = NO_GO" by (simp add: spec_decision_NO_GO flip: high_blockers_level)
  then show ?thesis using True by (simp add: judge_decide_def Let_def)
next
  case high: False
  then have no: "spec_decision fs \<noteq> NO_GO" by (simp add: spec_decision_NO_GO flip: high_blockers_level)
  show ?thesis
  proof (cases "medium_blockers fs \<noteq> []")
    case True
    then have "spec_decision fs \<noteq> GO" unfolding spec_decision_GO medium_blockers_level by force
    then have "spec_decision fs = CONDITIONAL_GO" using no by (cases "spec_decision fs") simp_all
    then show ?thesis using True high by (simp add: judge_decide_def Let_def)
  next
    case False
    then have "spec_decision fs = GO"
      using high decision.exhaust unfolding spec_decision_GO high_blockers_level medium_blockers_level by blast
    then show ?thesis using False high by (simp add: judge_decide_def Let_def)
  qed
qed

lemma spec_decision_mono: "set fs \<subseteq> set gs \<Longrightarrow> spec_decision fs \<le> spec_decision gs"
  unfolding spec_decision_def by (rule Max_mono) auto

text \<open>Evidence a model wrote, and advisory notes, are invisible to the decision.\<close>

definition drop_advisory :: "finding \<Rightarrow> finding" where
  "drop_advisory f = f\<lparr>fd_evidence := filter (\<lambda>e. ev_authority e \<noteq> MODEL_ADVISORY) (fd_evidence f),
                      advisory_notes := []\<rparr>"

lemma blocking_drop_advisory [simp]: "blocking_evidence (drop_advisory f) = blocking_evidence f"
proof -
  have "authoritative e \<longleftrightarrow> ev_authority e \<noteq> MODEL_ADVISORY" for e
    by (cases "ev_authority e") (auto simp: authoritative_def)
  then show ?thesis
    by (simp add: blocking_evidence_def drop_advisory_def)
qed

lemma level_drop_advisory: "finding_level (drop_advisory f) = finding_level f"
  by (simp add: finding_level_def) (simp add: drop_advisory_def)

lemma spec_drop_advisory: "spec_decision (map drop_advisory fs) = spec_decision fs"
  by (simp add: spec_decision_def image_image level_drop_advisory)

section \<open>GatekeeperVerdict and LocalDeterministicGatekeeper\<close>

record verdict =
  gv_decision :: decision
  gv_rationale :: "json list"
  gv_authority :: string
  gv_component :: string
  gv_llm_present :: bool
  gv_agent_influence :: int
  gv_ignored_agent_opinions :: int
  gv_transport :: string
  gv_trace_id :: "string option"

definition verdict_to_dict :: "verdict \<Rightarrow> json" where
  "verdict_to_dict v = JObj
    [(''decision'', JStr (decision_value (gv_decision v))),
     (''rationale'', JList (gv_rationale v)),
     (''authority'', JStr (gv_authority v)),
     (''component'', JStr (gv_component v)),
     (''llm_present'', JBool (gv_llm_present v)),
     (''agent_influence'', JInt (gv_agent_influence v)),
     (''ignored_agent_opinions'', JInt (gv_ignored_agent_opinions v)),
     (''transport'', JStr (gv_transport v)),
     (''trace_id'', opt_str (gv_trace_id v))]"

definition local_gatekeeper :: "string \<Rightarrow> finding list \<Rightarrow> json list \<Rightarrow> verdict res" where
  "local_gatekeeper release_id findings agent_opinions =
     (let (d, rationale) = judge_decide findings in
      Inr \<lparr>gv_decision = d,
           gv_rationale = map JStr (rationale @
             (if agent_opinions \<noteq> [] then [''Agent opinions were received but have zero decision authority.''] else [])),
           gv_authority = ''DETERMINISTIC_REFERENCE_GATE'',
           gv_component = ''python-reference-gate'',
           gv_llm_present = False,
           gv_agent_influence = 0,
           gv_ignored_agent_opinions = int (length agent_opinions),
           gv_transport = ''in_process_reference'',
           gv_trace_id = None\<rparr>)"

section \<open>The contract of a deterministic gate\<close>

text \<open>
  A gate either refuses or returns a verdict; a verdict is decided by the findings alone, and says
  that no model took part.
\<close>

locale deterministic_gate =
  fixes decide :: "string \<Rightarrow> finding list \<Rightarrow> json list \<Rightarrow> verdict res"
  assumes decide_spec: "decide r fs ops = Inr v \<Longrightarrow> gv_decision v = spec_decision fs"
    and no_model: "decide r fs ops = Inr v \<Longrightarrow> \<not> gv_llm_present v \<and> gv_agent_influence v = 0"
    and opinions_cannot_refuse: "ok (decide r fs ops) = ok (decide r fs ops')"
begin

lemma opinions_irrelevant:
  "decide r fs ops = Inr v \<Longrightarrow> decide r' fs ops' = Inr v' \<Longrightarrow> gv_decision v = gv_decision v'"
  by (simp add: decide_spec)

lemma order_irrelevant:
  "decide r fs ops = Inr v \<Longrightarrow> decide r gs ops = Inr v' \<Longrightarrow> set fs = set gs \<Longrightarrow> gv_decision v = gv_decision v'"
  by (simp add: decide_spec spec_decision_def)

lemma more_findings_stricter:
  "decide r fs ops = Inr v \<Longrightarrow> decide r gs ops = Inr v' \<Longrightarrow> set fs \<subseteq> set gs \<Longrightarrow> gv_decision v \<le> gv_decision v'"
  by (simp add: decide_spec spec_decision_mono)

end

interpretation local_gate: deterministic_gate local_gatekeeper
  by unfold_locales
    (auto simp: local_gatekeeper_def case_prod_beta judge_decide_spec)

end
