(* ===== verification/Policy.thy ===== *)
theory Policy
  imports Judge
begin

text \<open>
  policy/model.py and policy/store.py: the organization policy document, its validation
  (\<open>build_policy\<close>), its digest, and the store of immutable revisions; infrastructure/firestore.py:
  the same store on a document database, whose client is a parameter.  The lemmas: validation
  accepts exactly the well-formed policies and is inverse to \<open>canonical_payload\<close>; a digest names one
  policy; in both stores the first policy filed under a key is what every later read returns.
\<close>

section \<open>Data\<close>

record policy_command =
  command_id :: string
  pc_title :: string
  pc_argv :: "string list"
  pc_cwd :: string
  timeout_seconds :: int
  pc_severity :: severity
  blocking_on_failure :: bool

record release_policy =
  policy_id :: string
  revision :: int
  commands :: "policy_command list"
  rp_sha256 :: string

definition command_payload :: "policy_command \<Rightarrow> json" where
  "command_payload c = JObj
    [(''id'', JStr (command_id c)),
     (''title'', JStr (pc_title c)),
     (''argv'', JList (map JStr (pc_argv c))),
     (''cwd'', JStr (pc_cwd c)),
     (''timeout_seconds'', JInt (timeout_seconds c)),
     (''severity'', JStr (severity_value (pc_severity c))),
     (''blocking_on_failure'', JBool (blocking_on_failure c))]"

definition policy_payload :: "string \<Rightarrow> int \<Rightarrow> policy_command list \<Rightarrow> json" where
  "policy_payload i r cs = JObj
    [(''policy_id'', JStr i), (''revision'', JInt r), (''commands'', JList (map command_payload cs))]"

definition canonical_payload :: "release_policy \<Rightarrow> json" where
  "canonical_payload p = policy_payload (policy_id p) (revision p) (commands p)"

section \<open>build_policy\<close>

text \<open>\<open>isinstance(argv, list) and argv and all(isinstance(x, str) and x for x in argv)\<close>.\<close>

fun str_items :: "json list \<Rightarrow> string list option" where
  "str_items [] = Some []"
| "str_items (JStr s # xs) = (if s = [] then None else map_option (Cons s) (str_items xs))"
| "str_items (x # xs) = None"

fun argv_of :: "json \<Rightarrow> string list option" where
  "argv_of (JList (x # xs)) = str_items (x # xs)"
| "argv_of j = None"

definition cwd_inside :: "string \<Rightarrow> bool" where
  "cwd_inside s \<longleftrightarrow> \<not> starts_with s ''/'' \<and> ''..'' \<notin> set (split_on CHR ''/'' s)"

fun cwd_of :: "json \<Rightarrow> string option" where
  "cwd_of (JStr s) = (if cwd_inside s then Some s else None)"
| "cwd_of j = None"

fun timeout_of :: "json \<Rightarrow> int option" where
  "timeout_of (JInt i) = (if 1 \<le> i \<and> i \<le> 1800 then Some i else None)"
| "timeout_of j = None"

fun severity_json :: "json \<Rightarrow> severity option" where
  "severity_json (JStr s) = severity_of s"
| "severity_json j = None"

fun bool_of :: "json \<Rightarrow> bool option" where
  "bool_of (JBool b) = Some b"
| "bool_of j = None"

fun fresh_id :: "string list \<Rightarrow> json \<Rightarrow> string option" where
  "fresh_id seen (JStr s) = (if s = [] \<or> s \<in> set seen then None else Some s)"
| "fresh_id seen j = None"

definition build_command :: "string list \<Rightarrow> json \<Rightarrow> policy_command res" where
  "build_command seen raw =
    (if \<not> is_obj raw then raise PolicyError ''command must be an object'' else
     case fresh_id seen (obj_get raw ''id'') of
       None \<Rightarrow> raise PolicyError ''command ids must be unique non-empty strings''
     | Some cid \<Rightarrow>
     case argv_of (obj_get raw ''argv'') of
       None \<Rightarrow> raise PolicyError (cid @ '': argv must be a non-empty string list'')
     | Some argv \<Rightarrow>
     if \<not> starts_with (hd argv) ''/'' then raise PolicyError (cid @ '': executable must be an absolute path'') else
     case cwd_of (obj_get_def raw ''cwd'' (JStr ''.'')) of
       None \<Rightarrow> raise PolicyError (cid @ '': cwd must stay inside repository'')
     | Some cwd \<Rightarrow>
     case timeout_of (obj_get_def raw ''timeout_seconds'' (JInt 120)) of
       None \<Rightarrow> raise PolicyError (cid @ '': timeout_seconds out of range'')
     | Some timeout \<Rightarrow>
     case severity_json (obj_get_def raw ''severity'' (JStr ''HIGH'')) of
       None \<Rightarrow> raise PolicyError (cid @ '': invalid severity'')
     | Some severity \<Rightarrow>
     case bool_of (obj_get_def raw ''blocking_on_failure'' (JBool True)) of
       None \<Rightarrow> raise PolicyError (cid @ '': blocking_on_failure must be boolean'')
     | Some blocking \<Rightarrow>
       Inr \<lparr>command_id = cid, pc_title = py_str (or_else (obj_get raw ''title'') (JStr cid)),
            pc_argv = argv, pc_cwd = cwd, timeout_seconds = timeout, pc_severity = severity,
            blocking_on_failure = blocking\<rparr>)"

fun build_commands :: "string list \<Rightarrow> json list \<Rightarrow> policy_command list res" where
  "build_commands seen [] = Inr []"
| "build_commands seen (raw # raws) =
     and_then (build_command seen raw) (\<lambda>c.
     and_then (build_commands (command_id c # seen) raws) (\<lambda>cs. Inr (c # cs)))"

fun policy_id_of :: "json \<Rightarrow> string option" where
  "policy_id_of (JStr s) = (if strip s = [] then None else Some (strip s))"
| "policy_id_of j = None"

fun revision_of :: "json \<Rightarrow> int option" where
  "revision_of (JInt i) = (if i < 1 then None else Some i)"
| "revision_of j = None"

fun raw_commands :: "json \<Rightarrow> json list" where
  "raw_commands (JList xs) = xs"
| "raw_commands j = []"

definition build_policy :: "json \<Rightarrow> release_policy res" where
  "build_policy document =
    (if \<not> is_obj document then raise PolicyError ''policy must be an object'' else
     case policy_id_of (obj_get document ''policy_id'') of
       None \<Rightarrow> raise PolicyError ''policy_id is required''
     | Some i \<Rightarrow>
     case revision_of (obj_get document ''revision'') of
       None \<Rightarrow> raise PolicyError ''revision must be a positive integer''
     | Some r \<Rightarrow>
     if raw_commands (obj_get document ''commands'') = [] then raise PolicyError ''policy must define commands'' else
     and_then (build_commands [] (raw_commands (obj_get document ''commands''))) (\<lambda>cs.
       Inr \<lparr>policy_id = i, revision = r, commands = cs, rp_sha256 = sha256_json (policy_payload i r cs)\<rparr>))"

section \<open>Well-formed policies\<close>

definition wf_command :: "policy_command \<Rightarrow> bool" where
  "wf_command c \<longleftrightarrow> command_id c \<noteq> [] \<and> pc_title c \<noteq> [] \<and> pc_argv c \<noteq> [] \<and> [] \<notin> set (pc_argv c) \<and>
     starts_with (hd (pc_argv c)) ''/'' \<and> cwd_inside (pc_cwd c) \<and>
     1 \<le> timeout_seconds c \<and> timeout_seconds c \<le> 1800"

definition wf_policy :: "release_policy \<Rightarrow> bool" where
  "wf_policy p \<longleftrightarrow> policy_id p \<noteq> [] \<and> strip (policy_id p) = policy_id p \<and> 1 \<le> revision p \<and>
     commands p \<noteq> [] \<and> distinct (map command_id (commands p)) \<and> list_all wf_command (commands p) \<and>
     rp_sha256 p = sha256_json (canonical_payload p)"

lemma py_str_nonempty: "truthy j \<Longrightarrow> wf_json j \<Longrightarrow> py_str j \<noteq> []"
proof (cases j)
  case (JFloat f)
  then show "truthy j \<Longrightarrow> wf_json j \<Longrightarrow> ?thesis" by (cases f) simp_all
qed simp_all

lemma str_items_Some: "str_items xs = Some ys \<longleftrightarrow> xs = map JStr ys \<and> [] \<notin> set ys"
proof (induction xs arbitrary: ys rule: str_items.induct)
  case (2 s xs)
  then show ?case by (cases ys) auto
qed auto

lemma argv_of_Some: "argv_of j = Some ys \<longleftrightarrow> j = JList (map JStr ys) \<and> ys \<noteq> [] \<and> [] \<notin> set ys"
proof (cases "\<exists>x xs. j = JList (x # xs)")
  case True
  then obtain x xs where "j = JList (x # xs)" by blast
  then show ?thesis using str_items_Some[of "x # xs" ys] by auto
next
  case False
  then show ?thesis by (cases j rule: argv_of.cases) (auto simp: neq_Nil_conv)
qed

lemma option_json_Some:
  "cwd_of j = Some s \<longleftrightarrow> j = JStr s \<and> cwd_inside s"
  "timeout_of j = Some i \<longleftrightarrow> j = JInt i \<and> 1 \<le> i \<and> i \<le> 1800"
  "severity_json j = Some v \<longleftrightarrow> j = JStr (severity_value v)"
  "bool_of j = Some b \<longleftrightarrow> j = JBool b"
  "fresh_id seen j = Some s \<longleftrightarrow> j = JStr s \<and> s \<noteq> [] \<and> s \<notin> set seen"
  "policy_id_of j = Some s \<longleftrightarrow> (\<exists>t. j = JStr t \<and> s = strip t \<and> s \<noteq> [])"
  "revision_of j = Some i \<longleftrightarrow> j = JInt i \<and> 1 \<le> i"
  by (cases j; auto dest: severity_of_Some)+

lemma wf_obj_get: "wf_json d \<Longrightarrow> wf_json (obj_get d k)"
  by (cases d) (auto simp: list_all_iff split: option.splits dest: map_of_SomeD)

lemma wf_or_else: "wf_json x \<Longrightarrow> wf_json y \<Longrightarrow> wf_json (or_else x y)"
  by (simp add: or_else_def)

lemma build_command_Inr:
  assumes "build_command seen raw = Inr c" "wf_json raw"
  shows "wf_command c \<and> command_id c \<notin> set seen"
proof -
  have "pc_title c = py_str (or_else (obj_get raw ''title'') (JStr (command_id c)))"
    using assms(1) by (auto simp: build_command_def Let_def split: if_splits option.splits)
  moreover have c: "command_id c \<noteq> []" "command_id c \<notin> set seen" "pc_argv c \<noteq> []" "[] \<notin> set (pc_argv c)"
     "starts_with (hd (pc_argv c)) ''/''" "cwd_inside (pc_cwd c)"
     "1 \<le> timeout_seconds c" "timeout_seconds c \<le> 1800"
    using assms(1)
    by (auto simp: build_command_def option_json_Some argv_of_Some split: if_splits option.splits)
  moreover have "truthy (or_else x (JStr s))" if "s \<noteq> []" for x s
    using that by (simp add: or_else_def)
  ultimately show ?thesis
    using py_str_nonempty wf_or_else wf_obj_get assms(2) by (simp add: wf_command_def)
qed

lemma build_commands_Inr:
  "build_commands seen raws = Inr cs \<Longrightarrow> list_all wf_json raws \<Longrightarrow>
   list_all wf_command cs \<and> distinct (map command_id cs) \<and> set (map command_id cs) \<inter> set seen = {} \<and>
   length cs = length raws"
proof (induction raws arbitrary: seen cs)
  case (Cons raw raws)
  then obtain c cs' where c: "build_command seen raw = Inr c" "build_commands (command_id c # seen) raws = Inr cs'"
    "cs = c # cs'"
    by (auto simp: and_then_Inr)
  then show ?case using Cons build_command_Inr[OF c(1)] Cons.IH[OF c(2)] by auto
qed simp

lemma build_policy_wf:
  assumes "build_policy d = Inr p" "wf_json d"
  shows "wf_policy p"
proof -
  have w: "list_all wf_json (raw_commands (obj_get d ''commands''))"
    using wf_obj_get[OF assms(2), of "''commands''"] by (cases "obj_get d ''commands''") simp_all
  from assms(1) obtain cs where
    "build_commands [] (raw_commands (obj_get d ''commands'')) = Inr cs" and ne: "raw_commands (obj_get d ''commands'') \<noteq> []"
    and p: "commands p = cs" "policy_id p \<noteq> []" "strip (policy_id p) = policy_id p" "1 \<le> revision p"
      "rp_sha256 p = sha256_json (policy_payload (policy_id p) (revision p) (commands p))"
    by (auto simp: build_policy_def and_then_Inr option_json_Some split: if_splits option.splits)
  note cs = build_commands_Inr[OF \<open>build_commands [] _ = Inr cs\<close> w]
  then have "cs \<noteq> []" using ne by auto
  then show ?thesis using cs p by (simp add: wf_policy_def canonical_payload_def)
qed

lemma build_command_payload:
  assumes "wf_command c" "command_id c \<notin> set seen"
  shows "build_command seen (command_payload c) = Inr c"
proof -
  have "argv_of (JList (map JStr (pc_argv c))) = Some (pc_argv c)"
    using assms(1) by (auto simp: argv_of_Some wf_command_def)
  then show ?thesis
    using assms by (simp add: build_command_def command_payload_def wf_command_def obj_get_def_def or_else_def)
qed

lemma build_commands_payload:
  "list_all wf_command cs \<Longrightarrow> distinct (map command_id cs) \<Longrightarrow> set (map command_id cs) \<inter> set seen = {} \<Longrightarrow>
   build_commands seen (map command_payload cs) = Inr cs"
proof (induction cs arbitrary: seen)
  case (Cons c cs)
  then show ?case using build_command_payload[of c seen] Cons.IH[of "command_id c # seen"] by simp
qed simp

lemma build_policy_canonical:
  assumes "wf_policy p"
  shows "build_policy (canonical_payload p) = Inr p"
proof -
  have "build_commands [] (map command_payload (commands p)) = Inr (commands p)"
    using assms by (intro build_commands_payload) (simp_all add: wf_policy_def)
  then show ?thesis
    using assms by (simp add: build_policy_def wf_policy_def canonical_payload_def policy_payload_def)
qed

lemma build_command_error: "build_command seen raw = Inl e \<Longrightarrow> fst e = PolicyError"
  by (auto simp: build_command_def split: if_splits option.splits)

lemma build_commands_error: "build_commands seen raws = Inl e \<Longrightarrow> fst e = PolicyError"
  by (induction raws arbitrary: seen) (auto simp: and_then_Inl dest: build_command_error)

lemma build_policy_error: "build_policy d = Inl e \<Longrightarrow> fst e = PolicyError"
  by (auto simp: build_policy_def and_then_Inl split: if_splits option.splits dest: build_commands_error)

section \<open>The digest names the policy\<close>

lemma command_payload_norm: "norm (command_payload c) = norm (command_payload c') \<longleftrightarrow> c = c'"
proof -
  have "norm (command_payload c) = norm (command_payload c') \<Longrightarrow> c = c'"
    unfolding command_payload_def
    by (subst (asm) norm_obj_inj) (simp_all add: comp_def policy_command.equality)
  then show ?thesis by auto
qed

lemma command_payloads_norm: "map (norm \<circ> command_payload) cs = map (norm \<circ> command_payload) ds \<longleftrightarrow> cs = ds"
  by (induction cs ds rule: list_induct2') (auto simp: command_payload_norm)

lemma wf_command_payload [simp]: "wf_json (command_payload c)"
  by (simp add: command_payload_def list_all_iff)

lemma wf_policy_payload [simp]: "wf_json (policy_payload i r cs)"
  by (simp add: policy_payload_def list_all_iff)

lemma policy_payload_norm:
  "norm (policy_payload i r cs) = norm (policy_payload i' r' cs') \<longleftrightarrow> i = i' \<and> r = r' \<and> cs = cs'"
  unfolding policy_payload_def by (subst norm_obj_inj) (simp_all add: command_payloads_norm)

lemma policy_sha256_binding:
  assumes "wf_policy p" "wf_policy q" "rp_sha256 p = rp_sha256 q"
  shows "p = q \<or> sha_collision (canonical_json (canonical_payload p)) (canonical_json (canonical_payload q))"
proof -
  have "sha256_json (canonical_payload p) = sha256_json (canonical_payload q)"
    using assms by (simp add: wf_policy_def)
  from sha256_json_inj[OF _ _ this] show ?thesis
    using assms(3) by (auto simp: canonical_payload_def policy_payload_norm intro: release_policy.equality)
qed

section \<open>The contract of a policy store\<close>

text \<open>
  A revision can be created once and is then what every read returns; a refused creation leaves the
  store as it was (\<open>try_create\<close>).
\<close>

definition policy_key :: "release_policy \<Rightarrow> string \<times> int" where
  "policy_key p = (policy_id p, revision p)"

definition commit :: "('s \<Rightarrow> 's res) \<Rightarrow> 's \<Rightarrow> 's" where
  "commit f s = (case f s of Inl e \<Rightarrow> s | Inr s' \<Rightarrow> s')"

lemma commit_simps [simp]: "f s = Inr s' \<Longrightarrow> commit f s = s'" "f s = Inl e \<Longrightarrow> commit f s = s"
  by (simp_all add: commit_def)

locale policy_store =
  fixes inv :: "'s \<Rightarrow> bool"
    and empty_store :: 's
    and create :: "release_policy \<Rightarrow> 's \<Rightarrow> 's res"
    and get :: "string \<Rightarrow> int \<Rightarrow> 's \<Rightarrow> release_policy res"
  assumes inv_empty: "inv empty_store"
    and inv_create: "inv s \<Longrightarrow> wf_policy p \<Longrightarrow> create p s = Inr s' \<Longrightarrow> inv s'"
    and get_empty: "\<not> ok (get i r empty_store)"
    and get_create: "inv s \<Longrightarrow> wf_policy p \<Longrightarrow> create p s = Inr s' \<Longrightarrow>
          get i r s' = (if (i, r) = policy_key p then Inr p else get i r s)"
    and create_iff: "inv s \<Longrightarrow> wf_policy p \<Longrightarrow> ok (create p s) \<longleftrightarrow> \<not> ok (get (policy_id p) (revision p) s)"
begin

definition run_creates :: "release_policy list \<Rightarrow> 's \<Rightarrow> 's" where
  "run_creates ps s = fold (\<lambda>p. commit (create p)) ps s"

lemma run_creates_inv: "inv s \<Longrightarrow> list_all wf_policy ps \<Longrightarrow> inv (run_creates ps s)"
proof (induction ps arbitrary: s)
  case (Cons p ps)
  then have "inv (commit (create p) s)" by (cases "create p s") (auto intro: inv_create)
  then show ?case using Cons by (simp add: run_creates_def)
qed (simp add: run_creates_def)

lemma commit_create_get:
  assumes "inv s" "wf_policy p"
  shows "ok (get i r s) \<Longrightarrow> get i r (commit (create p) s) = get i r s"
    and "\<not> ok (get i r s) \<Longrightarrow> get i r (commit (create p) s) = (if (i, r) = policy_key p then Inr p else get i r s)"
proof -
  have created: "get i r (commit (create p) s) = (if (i, r) = policy_key p then Inr p else get i r s)"
    if "create p s = Inr s'" for s'
    using that get_create[OF assms that] by simp
  have kept: "(i, r) = policy_key p \<Longrightarrow> ok (create p s) \<longleftrightarrow> \<not> ok (get i r s)"
    using create_iff[OF assms] by (simp add: policy_key_def)
  show "ok (get i r s) \<Longrightarrow> get i r (commit (create p) s) = get i r s"
    using created kept by (cases "create p s") auto
  show "\<not> ok (get i r s) \<Longrightarrow> get i r (commit (create p) s) = (if (i, r) = policy_key p then Inr p else get i r s)"
    using created kept by (cases "create p s") auto
qed

lemma stored_is_immutable:
  assumes "inv s" "list_all wf_policy ps" "get i r s = Inr p"
  shows "get i r (run_creates ps s) = Inr p"
  using assms
proof (induction ps arbitrary: s)
  case (Cons q ps)
  then have "inv (commit (create q) s)" using run_creates_inv[of s "[q]"] by (simp add: run_creates_def)
  moreover have "get i r (commit (create q) s) = Inr p" using commit_create_get(1)[of s q i r] Cons.prems by simp
  ultimately show ?case using Cons by (simp add: run_creates_def)
qed (simp add: run_creates_def)

lemma first_writer_wins:
  assumes "inv s" "list_all wf_policy ps" "\<not> ok (get i r s)"
  shows "get i r (run_creates ps s) =
    (case List.find (\<lambda>p. policy_key p = (i, r)) ps of Some p \<Rightarrow> Inr p | None \<Rightarrow> get i r s)"
  using assms
proof (induction ps arbitrary: s)
  case (Cons q ps)
  let ?s = "commit (create q) s"
  have inv: "inv ?s" using run_creates_inv[of s "[q]"] Cons.prems by (simp add: run_creates_def)
  have step: "get i r ?s = (if (i, r) = policy_key q then Inr q else get i r s)"
    using commit_create_get(2)[of s q i r] Cons.prems by simp
  show ?case
  proof (cases "policy_key q = (i, r)")
    case True
    then have "get i r ?s = Inr q" using step by simp
    from stored_is_immutable[OF inv _ this, of ps] show ?thesis
      using True Cons.prems by (simp add: run_creates_def)
  next
    case False
    then have "get i r ?s = get i r s" using step by auto
    then show ?thesis using Cons.IH[OF inv] Cons.prems False by (simp add: run_creates_def cong: option.case_cong)
  qed
qed (simp add: run_creates_def)

end

section \<open>InMemoryPolicyStore\<close>

text \<open>
  The store is a dictionary from (policy id, revision) to policies; the lock makes each operation
  one step, and \<open>deepcopy\<close> makes it hold values.
\<close>

type_synonym memory_store = "(string \<times> int) \<rightharpoonup> release_policy"

definition memory_create :: "release_policy \<Rightarrow> memory_store \<Rightarrow> memory_store res" where
  "memory_create p s =
     (case s (policy_id p, revision p) of
        Some _ \<Rightarrow> raise PolicyError ''policy revision already exists and is immutable''
      | None \<Rightarrow> Inr (s((policy_id p, revision p) \<mapsto> p)))"

definition memory_get :: "string \<Rightarrow> int \<Rightarrow> memory_store \<Rightarrow> release_policy res" where
  "memory_get i r s =
     (case s (i, r) of None \<Rightarrow> raise PolicyError ''policy revision not found'' | Some p \<Rightarrow> Inr p)"

interpretation memory: policy_store "\<lambda>_. True" Map.empty memory_create memory_get
  by unfold_locales (auto simp: memory_create_def memory_get_def policy_key_def split: option.splits if_splits)

section \<open>FirestorePolicyStore\<close>

text \<open>
  The document database is a parameter: \<open>create_doc\<close> files a document under an identifier or
  raises, \<open>read_doc\<close> is a document snapshot's content (\<open>None\<close>: the snapshot does not exist).
  An exception class of the client library is a \<open>UserException\<close> with its name.
\<close>

definition doc_id :: "string \<Rightarrow> int \<Rightarrow> string" where
  "doc_id i r = i @ ''--r'' @ int_dec r"

definition policy_document :: "release_policy \<Rightarrow> json" where
  "policy_document p = JObj [(''policy'', canonical_payload p), (''sha256'', JStr (rp_sha256 p))]"

definition firestore_create ::
    "(string \<Rightarrow> json \<Rightarrow> 's \<Rightarrow> 's res) \<Rightarrow> release_policy \<Rightarrow> 's \<Rightarrow> 's res" where
  "firestore_create create_doc p s =
     (case create_doc (doc_id (policy_id p) (revision p)) (policy_document p) s of
        Inr s' \<Rightarrow> Inr s'
      | Inl (c, m) \<Rightarrow>
          if c \<in> {UserException ''AlreadyExists'', UserException ''Conflict''}
          then raise PolicyError ''policy revision already exists and is immutable'' else Inl (c, m))"

definition firestore_get :: "(string \<Rightarrow> 's \<Rightarrow> json option) \<Rightarrow> string \<Rightarrow> int \<Rightarrow> 's \<Rightarrow> release_policy res" where
  "firestore_get read_doc i r s =
     (case read_doc (doc_id i r) s of
        None \<Rightarrow> raise PolicyError ''policy revision not found''
      | Some raw \<Rightarrow>
          and_then (build_policy (obj_get raw ''policy'')) (\<lambda>p.
            if obj_get raw ''sha256'' \<noteq> JStr (rp_sha256 p) then raise PolicyError ''stored policy hash mismatch''
            else Inr p))"

text \<open>
  The documented behaviour of \<open>DocumentReference.create\<close> and \<open>get\<close>: creation fails exactly when the
  document exists, with AlreadyExists, and changes that document only.
\<close>

definition create_if_absent :: "(string \<Rightarrow> json \<Rightarrow> 's \<Rightarrow> 's res) \<Rightarrow> (string \<Rightarrow> 's \<Rightarrow> json option) \<Rightarrow> bool" where
  "create_if_absent create_doc read_doc \<longleftrightarrow>
     (\<forall>k d s. case read_doc k s of
        Some _ \<Rightarrow> \<exists>m. create_doc k d s = Inl (UserException ''AlreadyExists'', m)
      | None \<Rightarrow> \<exists>s'. create_doc k d s = Inr s' \<and> (\<forall>k'. read_doc k' s' = (if k' = k then Some d else read_doc k' s)))"

lemma int_dec_not_r: "CHR ''r'' \<notin> set (int_dec i)"
  using int_dec_chars[of "CHR ''r''" i] by (auto simp: is_digit_def)

lemma split_at_last:
  "xs @ c # as = ys @ c # bs \<Longrightarrow> c \<notin> set as \<Longrightarrow> c \<notin> set bs \<Longrightarrow> xs = ys \<and> as = bs"
proof (induction xs arbitrary: ys)
  case Nil
  then show ?case by (cases ys) auto
next
  case (Cons x xs)
  then show ?case by (cases ys) auto
qed

lemma doc_id_inj: "doc_id i r = doc_id i' r' \<longleftrightarrow> i = i' \<and> r = r'"
proof
  assume "doc_id i r = doc_id i' r'"
  then have "(i @ ''--'') @ CHR ''r'' # int_dec r = (i' @ ''--'') @ CHR ''r'' # int_dec r'"
    by (simp add: doc_id_def)
  from split_at_last[OF this int_dec_not_r int_dec_not_r] show "i = i' \<and> r = r'"
    by (simp add: int_dec_inj)
qed simp

lemma firestore_get_document:
  "wf_policy p \<Longrightarrow> read_doc (doc_id (policy_id p) (revision p)) s = Some (policy_document p) \<Longrightarrow>
   firestore_get read_doc (policy_id p) (revision p) s = Inr p"
  by (simp add: firestore_get_def policy_document_def build_policy_canonical)

text \<open>Every document of the collection was filed by \<open>firestore_create\<close> for a validated policy.\<close>

definition all_policies :: "(string \<Rightarrow> 's \<Rightarrow> json option) \<Rightarrow> 's \<Rightarrow> bool" where
  "all_policies read_doc s \<longleftrightarrow>
     (\<forall>k d. read_doc k s = Some d \<longrightarrow>
        (\<exists>p. wf_policy p \<and> k = doc_id (policy_id p) (revision p) \<and> d = policy_document p))"

lemma firestore_get_eq:
  assumes "all_policies read_doc s"
  shows "ok (firestore_get read_doc i r s) \<longleftrightarrow> read_doc (doc_id i r) s \<noteq> None"
proof (cases "read_doc (doc_id i r) s")
  case (Some d)
  then obtain p where p: "wf_policy p" "doc_id i r = doc_id (policy_id p) (revision p)" "d = policy_document p"
    using assms by (auto simp: all_policies_def)
  then have "i = policy_id p" "r = revision p" by (simp_all add: doc_id_inj)
  then show ?thesis using firestore_get_document[of p read_doc s] p Some by simp
qed (simp add: firestore_get_def)

lemma firestore_is_policy_store:
  assumes laws: "create_if_absent create_doc read_doc" and e: "\<And>k. read_doc k e = None"
  shows "policy_store (all_policies read_doc) e (firestore_create create_doc) (firestore_get read_doc)"
proof
  show "all_policies read_doc e" by (simp add: all_policies_def e)
  show "\<not> ok (firestore_get read_doc i r e)" for i r by (simp add: firestore_get_def e)
next
  fix s s' p
  assume inv: "all_policies read_doc s" and p: "wf_policy p" and c: "firestore_create create_doc p s = Inr s'"
  let ?k = "doc_id (policy_id p) (revision p)"
  have read: "read_doc k' s' = (if k' = ?k then Some (policy_document p) else read_doc k' s)" for k'
    using laws[unfolded create_if_absent_def, rule_format, of ?k "policy_document p" s] c
    by (auto simp: firestore_create_def split: option.splits if_splits)
  show "all_policies read_doc s'"
    using inv p by (auto simp: all_policies_def read split: if_splits)
  show "firestore_get read_doc i r s' = (if (i, r) = policy_key p then Inr p else firestore_get read_doc i r s)" for i r
    using firestore_get_document[OF p, of read_doc s'] read
    by (auto simp: firestore_get_def policy_key_def doc_id_inj)
next
  fix s p
  assume inv: "all_policies read_doc s" and p: "wf_policy p"
  show "ok (firestore_create create_doc p s) \<longleftrightarrow> \<not> ok (firestore_get read_doc (policy_id p) (revision p) s)"
    using laws[unfolded create_if_absent_def, rule_format, of "doc_id (policy_id p) (revision p)" "policy_document p" s]
    unfolding firestore_get_eq[OF inv]
    by (auto simp: firestore_create_def split: option.splits)
qed

end
