(* ===== verification/Execution.thy ===== *)
theory Execution
  imports Policy
begin

text \<open>
  execution/: the result of a check, the demo executor pinned to a fixture digest (execution/demo.py)
  and the Cloud Run sandbox executor (execution/cloudrun.py), whose \<open>which\<close>, path resolution, clock
  and \<open>subprocess.run\<close> are parameters.  The lemmas: the sandbox executor never starts a process
  outside the repository or without the sandbox binary in front of the command, and every result it
  gives carries the digests of what the process printed; the demo executor answers for the pinned
  fixture only; and its digest is the hash of an encoding that two different trees can share.
\<close>

section \<open>ExecutionResult\<close>

record execution_result =
  er_command_id :: string
  return_code :: int
  timed_out :: bool
  stdout_sha256 :: string
  stderr_sha256 :: string
  duration_ms :: int

definition passed :: "execution_result \<Rightarrow> bool" where
  "passed r \<longleftrightarrow> \<not> timed_out r \<and> return_code r = 0"

section \<open>CloudRunSandboxExecutor\<close>

text \<open>What \<open>subprocess.run\<close> does: it completes, runs out of time, or raises.\<close>

datatype process_run = Completed bytes bytes int | TimedOut bytes bytes | RunRaised exn

text \<open>A path is its list of components; \<open>repository in [cwd, *cwd.parents]\<close>.\<close>

definition inside :: "string list \<Rightarrow> string list \<Rightarrow> bool" where
  "inside repository cwd \<longleftrightarrow> take (length repository) cwd = repository"

definition path_text :: "string list \<Rightarrow> string" where
  "path_text parts = CHR ''/'' # join_with ''/'' parts"

definition sandbox_argv :: "string \<Rightarrow> string list \<Rightarrow> policy_command \<Rightarrow> string list" where
  "sandbox_argv binary cwd command =
     [binary, ''do'', ''--'', ''/usr/bin/env'', ''-C'', path_text cwd] @ pc_argv command"

definition cloudrun_execute ::
    "string option \<Rightarrow> (string list \<Rightarrow> string \<Rightarrow> string list) \<Rightarrow>
     (string list \<Rightarrow> string list \<Rightarrow> int \<Rightarrow> process_run) \<Rightarrow> int \<Rightarrow>
     string list \<Rightarrow> policy_command \<Rightarrow> execution_result res" where
  "cloudrun_execute which resolve run elapsed repository command =
    (case which of
       None \<Rightarrow> raise SandboxUnavailable ''Cloud Run sandbox binary is unavailable; refusing host execution''
     | Some binary \<Rightarrow>
       let cwd = resolve repository (pc_cwd command) in
       if \<not> inside repository cwd then raise ValueError ''policy cwd escaped repository'' else
       let result = (\<lambda>out err code late. Inr
             \<lparr>er_command_id = command_id command, return_code = code, timed_out = late,
              stdout_sha256 = sha256_hex out, stderr_sha256 = sha256_hex err, duration_ms = elapsed\<rparr>) in
       case run (sandbox_argv binary cwd command) cwd (timeout_seconds command) of
         Completed out err code \<Rightarrow> result out err code False
       | TimedOut out err \<Rightarrow> result out err 124 True
       | RunRaised e \<Rightarrow> Inl e)"

lemma cloudrun_result:
  assumes "cloudrun_execute which resolve run elapsed repository command = Inr r"
  shows "\<exists>binary. which = Some binary \<and> inside repository (resolve repository (pc_cwd command)) \<and>
    er_command_id r = command_id command \<and>
    (passed r \<longleftrightarrow> (\<exists>out err. run (sandbox_argv binary (resolve repository (pc_cwd command)) command)
       (resolve repository (pc_cwd command)) (timeout_seconds command) = Completed out err 0))"
  using assms
  by (auto simp: cloudrun_execute_def Let_def passed_def split: option.splits if_splits process_run.splits)

text \<open>The runner is never asked to start anything when the binary is missing or the directory escapes.\<close>

lemma cloudrun_confined:
  assumes "which = None \<or> \<not> inside repository (resolve repository (pc_cwd command))"
  shows "cloudrun_execute which resolve run elapsed repository command =
         cloudrun_execute which resolve run' elapsed' repository command"
    and "\<not> ok (cloudrun_execute which resolve run elapsed repository command)"
  using assms by (auto simp: cloudrun_execute_def Let_def split: option.splits)

text \<open>
  A lexically resolved directory: \<open>.\<close> and empty components vanish.  With the check of \<open>build_policy\<close>
  there is no \<open>..\<close>, so the lexical result is always inside; only symbolic links can escape.
\<close>

definition lexical_resolve :: "string list \<Rightarrow> string \<Rightarrow> string list" where
  "lexical_resolve repository cwd =
     foldl (\<lambda>p c. if c \<in> {'''', ''.''} then p else if c = ''..'' then butlast p else p @ [c])
       repository (split_on CHR ''/'' cwd)"

lemma lexical_fold_inside:
  "''..'' \<notin> set cs \<Longrightarrow>
   \<exists>q. foldl (\<lambda>p c. if c \<in> {'''', ''.''} then p else if c = ''..'' then butlast p else p @ [c]) repository cs = repository @ q"
proof (induction cs arbitrary: repository)
  case (Cons c cs)
  have "\<exists>q. foldl (\<lambda>p c. if c \<in> {'''', ''.''} then p else if c = ''..'' then butlast p else p @ [c]) (repository @ x) cs
      = repository @ q" for x
    using Cons.IH[of "repository @ x"] Cons.prems by auto
  from this[of "[]"] this[of "[c]"] show ?case using Cons.prems by auto
qed simp

lemma policy_cwd_inside: "wf_command c \<Longrightarrow> inside repository (lexical_resolve repository (pc_cwd c))"
  using lexical_fold_inside[of "split_on CHR ''/'' (pc_cwd c)" repository]
  by (auto simp: wf_command_def cwd_inside_def inside_def lexical_resolve_def)

section \<open>BundledDemoExecutor\<close>

text \<open>
  A file of the fixture: the components of its path and its bytes.  A file is kept by its directories and its
  suffix; a name that is \<open>.pyc\<close> alone has no suffix.  The digest is
  SHA-256 of \<open>path NUL content NUL\<close> for the files in path order.
\<close>

record fixture_file =
  fx_parts :: "string list"
  fx_bytes :: bytes

definition fixture_kept :: "fixture_file \<Rightarrow> bool" where
  "fixture_kept f \<longleftrightarrow> ''__pycache__'' \<notin> set (fx_parts f) \<and>
     \<not> (ends_with (last (fx_parts f)) ''.pyc'' \<and> last (fx_parts f) \<noteq> ''.pyc'')"

definition fixture_encoding :: "nat \<Rightarrow> fixture_file list \<Rightarrow> bytes" where
  "fixture_encoding depth files =
     concat (map (\<lambda>f. join_with ''/'' (drop depth (fx_parts f)) @ [CHR 0x00] @ fx_bytes f @ [CHR 0x00])
       (sort_key fx_parts (filter fixture_kept files)))"

definition fixture_digest :: "nat \<Rightarrow> fixture_file list \<Rightarrow> string" where
  "fixture_digest depth files = sha256_hex (fixture_encoding depth files)"

text \<open>\<open>repository_sha256\<close> of coverage/canonical.py: the same encoding, for a directory.\<close>

definition repository_sha256 :: "bool \<Rightarrow> nat \<Rightarrow> fixture_file list \<Rightarrow> string res" where
  "repository_sha256 is_dir depth files =
     (if \<not> is_dir then raise ValueError ''repository must be an existing directory''
      else Inr (fixture_digest depth files))"

text \<open>
  \<open>json.dumps(..., sort_keys=True)\<close> of the demonstration payload; command identifiers are ASCII here,
  where \<open>ensure_ascii\<close> changes nothing.
\<close>

definition demo_payload :: "string \<Rightarrow> string \<Rightarrow> bytes" where
  "demo_payload cid digest =
     [CHR ''{''] @ render_str ''command_id'' @ '': '' @ render_str cid @ '', '' @
     render_str ''fixture_sha256'' @ '': '' @ render_str digest @ '', '' @
     render_str ''offline_demo'' @ '': true}''"

definition demo_execute :: "string \<Rightarrow> int \<Rightarrow> nat \<Rightarrow> fixture_file list \<Rightarrow> policy_command \<Rightarrow> execution_result res" where
  "demo_execute expected code depth files command =
    (if fixture_digest depth files \<noteq> expected
     then raise RuntimeError ''BundledDemoExecutor only accepts the hash-pinned bundled demo fixture''
     else Inr \<lparr>er_command_id = command_id command, return_code = code, timed_out = False,
               stdout_sha256 = sha256_hex (demo_payload (command_id command) (fixture_digest depth files)),
               stderr_sha256 = sha256_hex [], duration_ms = 0\<rparr>)"

lemma demo_execute_pinned:
  "demo_execute expected code depth files command = Inr r \<Longrightarrow>
   fixture_digest depth files = expected \<and> er_command_id r = command_id command \<and> (passed r \<longleftrightarrow> code = 0)"
  by (auto simp: demo_execute_def passed_def split: if_splits)

text \<open>The encoding separates with NUL bytes that contents may contain: two trees share a digest.\<close>

definition tree_one :: "fixture_file list" where
  "tree_one = [\<lparr>fx_parts = [''a''], fx_bytes = ''x'' @ [CHR 0x00] @ ''b'' @ [CHR 0x00] @ ''y''\<rparr>]"

definition tree_two :: "fixture_file list" where
  "tree_two = [\<lparr>fx_parts = [''a''], fx_bytes = ''x''\<rparr>, \<lparr>fx_parts = [''b''], fx_bytes = ''y''\<rparr>]"

lemma same_encoding: "fixture_encoding 0 tree_one = fixture_encoding 0 tree_two"
  by (simp add: fixture_encoding_def tree_one_def tree_two_def fixture_kept_def ends_with_def)

end
