(* ===== verification/Scanner.thy ===== *)
theory Scanner
  imports Judge
begin

text \<open>
  release/scanners.py: the platform's secret scan.  The file system is the list of entries that
  \<open>root.rglob("*")\<close> yields; the two patterns of \<open>_SECRET_PATTERNS\<close> are terms of a small regular
  expression language with a backtracking matcher (\<open>rests\<close>).  The lemmas: a finding is reported for
  exactly the lines that match in the files that are read; each of them carries blocking platform
  evidence; what is reported depends on the position of a match only, never on the matched text;
  and a repository below a directory with a skipped name is not scanned at all.
\<close>

section \<open>Patterns\<close>

text \<open>
  \<open>OneOf\<close> is a choice of literal texts, \<open>NotQuote\<close> the class \<open>[^'"]\<close> (one code point), \<open>rests r t\<close>
  what a match of \<open>r\<close> at the start of \<open>t\<close> can leave over.
\<close>

datatype re = OneOf "string list" | NotQuote | Seq re re | Alt re re | Star re

definition after_prefix :: "string \<Rightarrow> string \<Rightarrow> string list" where
  "after_prefix t s = (if starts_with t s then [drop (length s) t] else [])"

fun not_quote :: "string \<Rightarrow> string list" where
  "not_quote [] = []"
| "not_quote (c # cs) = (if c = CHR 0x22 \<or> c = CHR 0x27 \<or> utf8_cont c then [] else [dropWhile utf8_cont cs])"

function (sequential) rests :: "re \<Rightarrow> string \<Rightarrow> string list" where
  "rests (OneOf ss) t = concat (map (after_prefix t) ss)"
| "rests NotQuote t = not_quote t"
| "rests (Seq a b) t = concat (map (rests b) (rests a t))"
| "rests (Alt a b) t = rests a t @ rests b t"
| "rests (Star a) t = t # concat (map (rests (Star a)) (filter (\<lambda>r. length r < length t) (rests a t)))"
  by pat_completeness auto
termination by (relation "measures [\<lambda>(r, t). size r, \<lambda>(r, t). length t]") auto

definition re_search :: "re \<Rightarrow> string \<Rightarrow> bool" where
  "re_search r s = list_ex (\<lambda>n. rests r (drop n s) \<noteq> []) [0..<Suc (length s)]"

definition seq_all :: "re list \<Rightarrow> re" where
  "seq_all rs = foldr Seq rs (OneOf [''''])"

text \<open>
  Case-insensitive letters; three of them also match non-ASCII letters (the Kelvin sign, the long s,
  the dotted and dotless i).
\<close>

definition ci_char :: "char \<Rightarrow> re" where
  "ci_char c = OneOf ([[c], [ascii_upper c]] @
     (if c = CHR ''k'' then [[CHR 0xE2, CHR 0x84, CHR 0xAA]] else
      if c = CHR ''s'' then [[CHR 0xC5, CHR 0xBF]] else
      if c = CHR ''i'' then [[CHR 0xC4, CHR 0xB0], [CHR 0xC4, CHR 0xB1]] else []))"

definition ci_word :: "string \<Rightarrow> re" where
  "ci_word w = seq_all (map ci_char w)"

text \<open>\<open>\s\<close>: the ASCII whitespace and the other space characters of Unicode.\<close>

definition space_texts :: "string list" where
  "space_texts =
     map (\<lambda>c. [c]) [CHR '' '', CHR 0x09, CHR 0x0A, CHR 0x0B, CHR 0x0C, CHR 0x0D, CHR 0x1C, CHR 0x1D, CHR 0x1E, CHR 0x1F] @
     [[CHR 0xC2, CHR 0x85], [CHR 0xC2, CHR 0xA0], [CHR 0xE1, CHR 0x9A, CHR 0x80],
      [CHR 0xE2, CHR 0x80, CHR 0xAF], [CHR 0xE2, CHR 0x81, CHR 0x9F], [CHR 0xE3, CHR 0x80, CHR 0x80]] @
     map (\<lambda>c. [CHR 0xE2, CHR 0x80, c])
       [CHR 0x80, CHR 0x81, CHR 0x82, CHR 0x83, CHR 0x84, CHR 0x85, CHR 0x86, CHR 0x87, CHR 0x88, CHR 0x89, CHR 0x8A,
        CHR 0xA8, CHR 0xA9]"

datatype secret_rule = PrivateKey | GenericSecret

fun rule_name :: "secret_rule \<Rightarrow> string" where
  "rule_name PrivateKey = ''private_key''"
| "rule_name GenericSecret = ''generic_secret''"

definition quote_re :: re where
  "quote_re = OneOf [[CHR 0x22], [CHR 0x27]]"

definition keyword_re :: "string \<Rightarrow> string \<Rightarrow> re" where
  "keyword_re a b = seq_all [ci_word a, OneOf [''_'', ''-'', ''''], ci_word b]"

fun secret_pattern :: "secret_rule \<Rightarrow> re" where
  "secret_pattern PrivateKey = seq_all
     [OneOf [''-----BEGIN ''], OneOf [''RSA '', ''EC '', ''OPENSSH '', ''''], OneOf [''PRIVATE KEY-----'']]"
| "secret_pattern GenericSecret = seq_all
     ([Alt (keyword_re ''api'' ''key'') (Alt (keyword_re ''secret'' ''key'') (keyword_re ''access'' ''token'')),
       Star (OneOf space_texts), OneOf [''='', '':''], Star (OneOf space_texts), quote_re] @
      replicate 12 NotQuote @ [Star NotQuote, quote_re])"

declare secret_pattern.simps [simp del]

section \<open>Lines\<close>

text \<open>\<open>str.splitlines\<close>: the length in bytes of the line break at the start of a text, 0 if there is none.\<close>

definition break_len :: "string \<Rightarrow> nat" where
  "break_len s =
     (if starts_with s [CHR 0x0D, CHR 0x0A] then 2
      else if list_ex (\<lambda>c. starts_with s [c])
        [CHR 0x0A, CHR 0x0D, CHR 0x0B, CHR 0x0C, CHR 0x1C, CHR 0x1D, CHR 0x1E] then 1
      else if starts_with s [CHR 0xC2, CHR 0x85] then 2
      else if starts_with s [CHR 0xE2, CHR 0x80, CHR 0xA8] \<or> starts_with s [CHR 0xE2, CHR 0x80, CHR 0xA9] then 3
      else 0)"

fun lines_from :: "string \<Rightarrow> string \<Rightarrow> string list" where
  "lines_from acc [] = (if acc = [] then [] else [rev acc])"
| "lines_from acc (c # cs) =
     (if break_len (c # cs) = 0 then lines_from (c # acc) cs
      else rev acc # lines_from [] (drop (break_len (c # cs) - 1) cs))"

definition splitlines :: "string \<Rightarrow> string list" where
  "splitlines s = lines_from [] s"

section \<open>The scan\<close>

text \<open>
  An entry: the parts of its absolute path, whether it is a symbolic link and a regular file, its
  size and its text (\<open>None\<close> where \<open>stat\<close> or \<open>read_text\<close> raises).
\<close>

record fs_entry =
  fe_parts :: "string list"
  fe_symlink :: bool
  fe_file :: bool
  fe_size :: "int option"
  fe_text :: "string option"

definition skip_names :: "string list" where
  "skip_names = [''.git'', ''.venv'', ''node_modules'', ''dist'', ''build'', ''__pycache__'']"

definition skipped_path :: "string list \<Rightarrow> bool" where
  "skipped_path parts \<longleftrightarrow> list_ex (\<lambda>p. p \<in> set skip_names) parts"

definition scanned_text :: "fs_entry \<Rightarrow> string option" where
  "scanned_text e =
     (if fe_symlink e \<or> \<not> fe_file e \<or> skipped_path (fe_parts e) then None
      else case fe_size e of None \<Rightarrow> None
           | Some n \<Rightarrow> if n > 1000000 then None else fe_text e)"

definition relative_to :: "string list \<Rightarrow> fs_entry \<Rightarrow> string" where
  "relative_to root e = join_with ''/'' (drop (length root) (fe_parts e))"

definition secret_finding :: "string \<Rightarrow> nat \<Rightarrow> secret_rule \<Rightarrow> finding" where
  "secret_finding relative line_no rule =
     (let token = take 12 (sha256_hex (relative @ '':'' @ nat_dec line_no @ '':'' @ rule_name rule)) in
      \<lparr>finding_id = ''SEC-'' @ take 8 token,
       fd_title = ''Credential-like material in repository'',
       fd_severity = HIGH,
       fd_source = ''platform.secret_scan'',
       fd_claim = ''Platform policy forbids credential-like material in release source.'',
       fd_evidence =
         [\<lparr>evidence_id = ''ev-static-'' @ token,
           ev_kind = STATIC_RULE,
           ev_authority = PLATFORM,
           ev_source = ''platform.secret_scan'',
           ev_summary = ''Credential-like material matched '' @ rule_name rule @ '' in '' @ relative @ '':'' @
             nat_dec line_no @ ''; value redacted.'',
           reproducible = True,
           blocking_eligible = True,
           ev_details = JObj [(''file'', JStr relative), (''line'', JInt (int line_no)),
                              (''rule'', JStr (rule_name rule)), (''redacted'', JBool True)],
           ev_policy_id = None, ev_policy_revision = None, ev_policy_sha256 = None\<rparr>],
       advisory_notes = []\<rparr>)"

text \<open>\<open>for line_no, line in enumerate(lines, 1)\<close>, and inside it the two rules in order.\<close>

fun scan_rules :: "string \<Rightarrow> nat \<Rightarrow> string \<Rightarrow> secret_rule list \<Rightarrow> finding list" where
  "scan_rules rel n line [] = []"
| "scan_rules rel n line (r # rs) =
     (if \<not> re_search (secret_pattern r) line then scan_rules rel n line rs
      else secret_finding rel n r # scan_rules rel n line rs)"

fun scan_lines :: "string \<Rightarrow> nat \<Rightarrow> string list \<Rightarrow> finding list" where
  "scan_lines rel n [] = []"
| "scan_lines rel n (line # rest) = scan_rules rel n line [PrivateKey, GenericSecret] @ scan_lines rel (Suc n) rest"

fun scan_platform_rules :: "string list \<Rightarrow> fs_entry list \<Rightarrow> finding list" where
  "scan_platform_rules root [] = []"
| "scan_platform_rules root (e # es) =
     (case scanned_text e of
        None \<Rightarrow> scan_platform_rules root es
      | Some text \<Rightarrow> scan_lines (relative_to root e) 1 (splitlines text) @ scan_platform_rules root es)"

section \<open>What the scan reports\<close>

text \<open>The positions (file, line, rule) of the matches, in order.\<close>

definition line_hits :: "string \<Rightarrow> nat \<Rightarrow> string \<Rightarrow> (string \<times> nat \<times> secret_rule) list" where
  "line_hits rel n line =
     map (\<lambda>r. (rel, n, r)) (filter (\<lambda>r. re_search (secret_pattern r) line) [PrivateKey, GenericSecret])"

definition text_hits :: "string \<Rightarrow> string \<Rightarrow> (string \<times> nat \<times> secret_rule) list" where
  "text_hits rel text =
     concat (map (\<lambda>(n, line). line_hits rel n line) (List.enumerate 1 (splitlines text)))"

definition hits :: "string list \<Rightarrow> fs_entry list \<Rightarrow> (string \<times> nat \<times> secret_rule) list" where
  "hits root es =
     concat (map (\<lambda>e. case scanned_text e of None \<Rightarrow> [] | Some t \<Rightarrow> text_hits (relative_to root e) t) es)"

lemma scan_rules_hits:
  "scan_rules rel n line rs =
   map (\<lambda>r. secret_finding rel n r) (filter (\<lambda>r. re_search (secret_pattern r) line) rs)"
  by (induction rs) simp_all

lemma scan_lines_hits:
  "scan_lines rel n ls =
   map (\<lambda>(f, k, r). secret_finding f k r) (concat (map (\<lambda>(k, l). line_hits rel k l) (List.enumerate n ls)))"
  by (induction ls arbitrary: n) (simp_all add: scan_rules_hits line_hits_def comp_def)

lemma scan_hits: "scan_platform_rules root es = map (\<lambda>(f, k, r). secret_finding f k r) (hits root es)"
  by (induction es) (simp_all add: hits_def text_hits_def scan_lines_hits split: option.split)

lemma line_hits_iff:
  "(f, k, r) \<in> set (line_hits rel n l) \<longleftrightarrow> f = rel \<and> k = n \<and> re_search (secret_pattern r) l"
  by (cases r) (auto simp: line_hits_def)

lemma in_concat_pairs: "y \<in> set (concat (map (\<lambda>(n, l). g n l) ps)) \<longleftrightarrow> (\<exists>n l. (n, l) \<in> set ps \<and> y \<in> set (g n l))"
  by (induction ps) auto

lemma text_hits_iff:
  "(f, k, r) \<in> set (text_hits g t) \<longleftrightarrow>
   f = g \<and> 1 \<le> k \<and> k \<le> length (splitlines t) \<and> re_search (secret_pattern r) (splitlines t ! (k - 1))"
proof -
  have A: "(k, l) \<in> set (List.enumerate 1 (splitlines t)) \<longleftrightarrow>
      1 \<le> k \<and> k \<le> length (splitlines t) \<and> l = splitlines t ! (k - 1)" for l
    by (cases k) (auto simp: in_set_enumerate_eq)
  have B: "(f, k, r) \<in> set (text_hits g t) \<longleftrightarrow>
      (\<exists>n l. (n, l) \<in> set (List.enumerate 1 (splitlines t)) \<and> (f, k, r) \<in> set (line_hits g n l))"
    unfolding text_hits_def by (rule in_concat_pairs)
  show ?thesis unfolding B line_hits_iff by (auto simp add: A simp del: One_nat_def)
qed

lemma hits_iff:
  "(f, k, r) \<in> set (hits root es) \<longleftrightarrow>
   (\<exists>e\<in>set es. \<exists>t. scanned_text e = Some t \<and> f = relative_to root e \<and>
      1 \<le> k \<and> k \<le> length (splitlines t) \<and> re_search (secret_pattern r) (splitlines t ! (k - 1)))"
proof -
  have "(f, k, r) \<in> set (hits root es) \<longleftrightarrow>
      (\<exists>e\<in>set es. \<exists>t. scanned_text e = Some t \<and> (f, k, r) \<in> set (text_hits (relative_to root e) t))"
    unfolding hits_def by (induction es) (auto split: option.split)
  then show ?thesis unfolding text_hits_iff by blast
qed

lemma secret_finding_level: "finding_level (secret_finding f k r) = NO_GO"
  by (simp add: finding_level_def blocking_evidence_def secret_finding_def authoritative_def Let_def)

lemma scan_blocks:
  "scan_platform_rules root es \<noteq> [] \<Longrightarrow> set (scan_platform_rules root es) \<subseteq> set fs \<Longrightarrow> spec_decision fs = NO_GO"
proof -
  assume "scan_platform_rules root es \<noteq> []" "set (scan_platform_rules root es) \<subseteq> set fs"
  then obtain f k r where "secret_finding f k r \<in> set fs"
    unfolding scan_hits by (cases "hits root es") auto
  then show ?thesis unfolding spec_decision_NO_GO using secret_finding_level by blast
qed

lemma scan_depends_on_hits: "hits root es = hits root es' \<Longrightarrow> scan_platform_rules root es = scan_platform_rules root es'"
  by (simp add: scan_hits)

lemma wf_secret_finding: "wf_finding (secret_finding f k r)"
  by (simp add: wf_finding_def secret_finding_def Let_def)

lemma scan_wf: "list_all wf_finding (scan_platform_rules root es)"
  by (auto simp: scan_hits list_all_iff wf_secret_finding)

text \<open>The absolute path decides what is skipped, the directories above the repository included.\<close>

lemma scan_below_skipped:
  assumes "skipped_path root" "\<forall>e\<in>set es. take (length root) (fe_parts e) = root"
  shows "scan_platform_rules root es = []"
  using assms(2)
proof (induction es)
  case (Cons e es)
  then have "set root \<subseteq> set (fe_parts e)" by (metis list.set_intros(1) set_take_subset)
  then have "skipped_path (fe_parts e)" using assms(1) by (auto simp: skipped_path_def list_ex_iff)
  then show ?case using Cons by (simp add: scanned_text_def)
qed simp

end
