(* ===== verification/Engine.thy ===== *)
theory Engine
  imports Execution Scanner
begin

text \<open>
  release/engine.py and domain/release.py: one evaluation of a release.  Evidence is collected from
  the platform scan and the organization's checks and sealed; then the advisory stage runs on a
  redacted projection; the seal is checked again; the gate decides; the report is built.

  Python values are shared references, so the advisory stage is modelled with the memory it could
  reach: an advisor returns its answer and what the sealed findings look like afterwards.  The main
  lemmas hold for every advisor, the hostile ones included: a report's decision is the one the
  collected evidence calls for, and no report is issued when the evidence changed.
\<close>

section \<open>Requests, reports, advisors\<close>

record release_request =
  rq_release_id :: string
  rq_root :: "string list"
  rq_commit_sha :: "string option"

text \<open>\<open>ReleaseRequest.__post_init__\<close>: the path must be a directory, and is kept resolved.\<close>

definition make_request :: "string \<Rightarrow> bool \<Rightarrow> bool \<Rightarrow> string list \<Rightarrow> string option \<Rightarrow> release_request res" where
  "make_request rid path_exists is_dir resolved sha =
     (if \<not> path_exists \<or> \<not> is_dir then raise ValueError ''repository_path must be an existing directory''
      else Inr \<lparr>rq_release_id = rid, rq_root = resolved, rq_commit_sha = sha\<rparr>)"

record release_report =
  rr_report_id :: string
  rr_release_id :: string
  rr_decision :: decision
  rr_findings :: "finding list"
  rr_rationale :: "json list"
  rr_policy_id :: string
  rr_policy_revision :: int
  rr_policy_sha256 :: string
  rr_execution_count :: int
  rr_evidence_sha256 :: string
  rr_advisory :: json
  rr_gatekeeper :: json
  rr_created_at :: string

text \<open>
  \<open>ReleaseReport.__post_init__\<close>: a non-empty seal must match the findings; the stored seal is always
  the recomputed one.  Freezing JSON data keeps its content (theory Immutable).
\<close>

definition make_report :: "release_report \<Rightarrow> release_report res" where
  "make_report r =
     (let actual = finding_set_sha256 (rr_findings r) in
      if rr_evidence_sha256 r \<noteq> [] \<and> rr_evidence_sha256 r \<noteq> actual
      then raise EvidenceIntegrityError ''release report evidence does not match its seal''
      else Inr (r\<lparr>rr_evidence_sha256 := actual\<rparr>))"

definition report_to_dict :: "release_report \<Rightarrow> json" where
  "report_to_dict r = JObj
    [(''report_id'', JStr (rr_report_id r)),
     (''release_id'', JStr (rr_release_id r)),
     (''decision'', JStr (decision_value (rr_decision r))),
     (''rationale'', JList (rr_rationale r)),
     (''policy_id'', JStr (rr_policy_id r)),
     (''policy_revision'', JInt (rr_policy_revision r)),
     (''policy_sha256'', JStr (rr_policy_sha256 r)),
     (''execution_count'', JInt (rr_execution_count r)),
     (''evidence_sha256'', JStr (rr_evidence_sha256 r)),
     (''findings'', JList (map finding_to_dict (rr_findings r))),
     (''advisory'', rr_advisory r),
     (''gatekeeper'', rr_gatekeeper r),
     (''created_at'', JStr (rr_created_at r))]"

text \<open>The executor, and an advisor with its effect on the sealed findings.\<close>

type_synonym executor = "string list \<Rightarrow> policy_command \<Rightarrow> execution_result res"
type_synonym advisor = "release_request \<Rightarrow> json list \<Rightarrow> finding list \<Rightarrow> json res \<times> finding list"
type_synonym gate = "string \<Rightarrow> finding list \<Rightarrow> json list \<Rightarrow> verdict res"

section \<open>Collecting evidence\<close>

definition command_evidence :: "release_policy \<Rightarrow> policy_command \<Rightarrow> execution_result \<Rightarrow> evidence" where
  "command_evidence policy command result =
     (let payload = rp_sha256 policy @ '':'' @ command_id command @ '':'' @ int_dec (return_code result) @ '':'' @
                    stdout_sha256 result @ '':'' @ stderr_sha256 result in
      \<lparr>evidence_id = ''ev-exec-'' @ take 12 (sha256_hex payload),
       ev_kind = EXECUTION_RESULT,
       ev_authority = ORGANIZATION_POLICY,
       ev_source = ''policy:'' @ policy_id policy @ '':'' @ command_id command,
       ev_summary = ''Organization-owned release check failed in isolated execution.'',
       reproducible = \<not> timed_out result,
       blocking_eligible = blocking_on_failure command,
       ev_details = JObj
         [(''command_id'', JStr (command_id command)),
          (''return_code'', JInt (return_code result)),
          (''timed_out'', JBool (timed_out result)),
          (''stdout_sha256'', JStr (stdout_sha256 result)),
          (''stderr_sha256'', JStr (stderr_sha256 result)),
          (''duration_ms'', JInt (duration_ms result)),
          (''expected_exit_code'', JInt 0)],
       ev_policy_id = Some (policy_id policy),
       ev_policy_revision = Some (revision policy),
       ev_policy_sha256 = Some (rp_sha256 policy)\<rparr>)"

definition command_finding :: "release_policy \<Rightarrow> policy_command \<Rightarrow> execution_result \<Rightarrow> finding" where
  "command_finding policy command result =
     \<lparr>finding_id = ''POL-'' @ take 8 (sha256_hex
        (policy_id policy @ '':'' @ int_dec (revision policy) @ '':'' @ command_id command)),
      fd_title = pc_title command,
      fd_severity = pc_severity command,
      fd_source = ''organization_policy'',
      fd_claim = ''A required organization-owned release check failed.'',
      fd_evidence = [command_evidence policy command result],
      advisory_notes = []\<rparr>"

fun run_checks ::
    "executor \<Rightarrow> string list \<Rightarrow> release_policy \<Rightarrow> policy_command list \<Rightarrow> finding list \<Rightarrow> nat \<Rightarrow> (finding list \<times> nat) res"
  where
  "run_checks execute root policy [] fs n = Inr (fs, n)"
| "run_checks execute root policy (c # cs) fs n =
     and_then (execute root c) (\<lambda>result.
       if passed result then run_checks execute root policy cs fs (n + 1)
       else run_checks execute root policy cs (fs @ [command_finding policy c result]) (n + 1))"

definition collect_evidence ::
    "executor \<Rightarrow> fs_entry list \<Rightarrow> release_request \<Rightarrow> release_policy \<Rightarrow> (finding list \<times> nat) res" where
  "collect_evidence execute entries request policy =
     run_checks execute (rq_root request) policy (commands policy)
       (scan_platform_rules (rq_root request) entries) 0"

section \<open>The advisory stage\<close>

definition advisory_projection :: "finding list \<Rightarrow> json list" where
  "advisory_projection fs =
     map (\<lambda>f. JObj
       [(''finding_id'', JStr (finding_id f)),
        (''title'', JStr (fd_title f)),
        (''severity'', JStr (severity_value (fd_severity f))),
        (''source'', JStr (fd_source f)),
        (''claim'', JStr (fd_claim f)),
        (''blocking_eligible'', JBool (blocking_evidence f \<noteq> []))]) fs"

definition unavailable_advisory :: json where
  "unavailable_advisory = JObj
    [(''role'', JStr ''advisory_fleet''), (''authority'', JStr ''ADVISORY''),
     (''status'', JStr ''UNAVAILABLE''), (''opinions'', JList [])]"

definition collect_advisory :: "advisor option \<Rightarrow> release_request \<Rightarrow> finding list \<Rightarrow> json res \<times> finding list" where
  "collect_advisory advisor request fs =
    (case advisor of
       None \<Rightarrow> (Inr JNull, fs)
     | Some advise \<Rightarrow>
       let (answer, fs') = advise request (advisory_projection fs) fs in
       (case answer of
          Inr a \<Rightarrow> (Inr a, fs')
        | Inl e \<Rightarrow>
            if catches EvidenceIntegrityError e then (Inl e, fs')
            else if catches PyException e then (Inr unavailable_advisory, fs')
            else (Inl e, fs')))"

text \<open>\<open>list(x)\<close>: the items of a list, the characters of a string, the keys of an object.\<close>

fun characters :: "string \<Rightarrow> string list" where
  "characters [] = []"
| "characters (c # cs) =
     (case characters cs of
        [] \<Rightarrow> [[c]]
      | w # ws \<Rightarrow> if utf8_cont (hd w) then (c # w) # ws else [c] # w # ws)"

fun py_list :: "json \<Rightarrow> json list res" where
  "py_list (JList xs) = Inr xs"
| "py_list (JStr s) = Inr (map JStr (characters s))"
| "py_list (JObj kvs) = Inr (map (JStr \<circ> fst) kvs)"
| "py_list j = raise TypeError ''object is not iterable''"

text \<open>\<open>list((advisory or {}).get("opinions") or [])\<close>.\<close>

definition opinions_of :: "json \<Rightarrow> json list res" where
  "opinions_of advisory =
     (let a = or_else advisory (JObj []) in
      if \<not> is_obj a then raise AttributeError ''object has no attribute get''
      else py_list (or_else (obj_get a ''opinions'') (JList [])))"

section \<open>ReleaseEngine\<close>

definition evaluate ::
    "executor \<Rightarrow> advisor option \<Rightarrow> gate \<Rightarrow> fs_entry list \<Rightarrow> string \<times> string \<Rightarrow>
     release_request \<Rightarrow> release_policy \<Rightarrow> release_report res" where
  "evaluate execute advisor decide entries stamp request policy =
    and_then (collect_evidence execute entries request policy) (\<lambda>(findings, executions).
      let seal = finding_set_sha256 findings;
          (advisory, sealed) = collect_advisory advisor request findings in
      and_then advisory (\<lambda>advisory.
        if finding_set_sha256 sealed \<noteq> seal
        then raise EvidenceIntegrityError ''advisory stage mutated sealed evidence; no verdict was issued'' else
        and_then (opinions_of advisory) (\<lambda>opinions.
        and_then (decide (rq_release_id request) sealed opinions) (\<lambda>v.
          if gv_llm_present v \<or> gv_agent_influence v \<noteq> 0
          then raise RuntimeError ''gatekeeper violated deterministic authority contract'' else
          make_report
            \<lparr>rr_report_id = ''report-'' @ fst stamp,
             rr_release_id = rq_release_id request,
             rr_decision = gv_decision v,
             rr_findings = sealed,
             rr_rationale = gv_rationale v,
             rr_policy_id = policy_id policy,
             rr_policy_revision = revision policy,
             rr_policy_sha256 = rp_sha256 policy,
             rr_execution_count = int executions,
             rr_evidence_sha256 = seal,
             rr_advisory = advisory,
             rr_gatekeeper = verdict_to_dict v,
             rr_created_at = snd stamp\<rparr>))))"

section \<open>Lemmas: collection\<close>

lemma wf_command_finding: "wf_finding (command_finding policy c result)"
  by (simp add: wf_finding_def command_finding_def command_evidence_def Let_def)

text \<open>The checks all run, in order; the failing ones leave a finding each.\<close>

lemma run_checks_spec:
  "run_checks execute root policy cs fs n = Inr (gs, m) \<longleftrightarrow>
   (\<exists>results. list_all2 (\<lambda>c r. execute root c = Inr r) cs results \<and> m = n + length cs \<and>
      gs = fs @ map (\<lambda>(c, r). command_finding policy c r) (filter (\<lambda>(c, r). \<not> passed r) (zip cs results)))"
proof (induction cs arbitrary: fs n)
  case Nil
  then show ?case by auto
next
  case (Cons c cs)
  show ?case
  proof (cases "execute root c")
    case (Inl e)
    then show ?thesis by (simp add: list_all2_Cons1)
  next
    case (Inr r)
    then have "(\<exists>rs. list_all2 (\<lambda>c r. execute root c = Inr r) (c # cs) rs \<and> P rs) \<longleftrightarrow>
        (\<exists>rs. list_all2 (\<lambda>c r. execute root c = Inr r) cs rs \<and> P (r # rs))" for P
      by (auto simp: list_all2_Cons1)
    then show ?thesis using Inr Cons.IH by simp
  qed
qed

lemma collect_wf: "collect_evidence execute entries request policy = Inr (fs, n) \<Longrightarrow> list_all wf_finding fs"
  using scan_wf[of "rq_root request" entries] wf_command_finding
  by (fastforce simp: collect_evidence_def run_checks_spec list_all_iff)

lemma collect_count: "collect_evidence execute entries request policy = Inr (fs, n) \<Longrightarrow> n = length (commands policy)"
  by (auto simp: collect_evidence_def run_checks_spec)

lemma collect_scan:
  "collect_evidence execute entries request policy = Inr (fs, n) \<Longrightarrow>
   set (scan_platform_rules (rq_root request) entries) \<subseteq> set fs"
  by (auto simp: collect_evidence_def run_checks_spec)

lemma collect_failed_check:
  assumes "collect_evidence execute entries request policy = Inr (fs, n)"
    and "c \<in> set (commands policy)" "execute (rq_root request) c = Inr r" "\<not> passed r"
  shows "command_finding policy c r \<in> set fs"
proof -
  obtain rs where rs: "list_all2 (\<lambda>c r. execute (rq_root request) c = Inr r) (commands policy) rs"
    and fs: "fs = scan_platform_rules (rq_root request) entries @
      map (\<lambda>(c, r). command_finding policy c r) (filter (\<lambda>(c, r). \<not> passed r) (zip (commands policy) rs))"
    using assms(1) by (auto simp: collect_evidence_def run_checks_spec)
  obtain i where i: "i < length (commands policy)" "commands policy ! i = c"
    using assms(2) by (auto simp: in_set_conv_nth)
  then have "rs ! i = r" using rs assms(3) by (auto simp: list_all2_conv_all_nth)
  then have "(c, r) \<in> set (zip (commands policy) rs)"
    using i rs by (auto simp: set_zip list_all2_lengthD intro!: exI[of _ i])
  then show ?thesis using assms(4) unfolding fs by force
qed

lemma command_finding_level:
  "finding_level (command_finding policy c r) =
     (if \<not> blocking_on_failure c then GO
      else if pc_severity c \<in> {HIGH, CRITICAL} then NO_GO
      else if pc_severity c = MEDIUM then CONDITIONAL_GO else GO)"
  by (simp add: finding_level_def blocking_evidence_def command_finding_def command_evidence_def
      authoritative_def Let_def)

section \<open>Lemmas: what the seal protects\<close>

lemma level_finding_norm: "finding_level (finding_norm f) = finding_level f"
proof -
  have "blocking_evidence (finding_norm f) = map evidence_norm (blocking_evidence f)"
    by (simp add: blocking_evidence_def finding_norm_def filter_map comp_def evidence_norm_def authoritative_def)
  moreover have "fd_severity (finding_norm f) = fd_severity f" by (simp add: finding_norm_def)
  ultimately show ?thesis by (simp add: finding_level_def)
qed

lemma spec_decision_norm:
  assumes "mset (map finding_norm fs) = mset (map finding_norm gs)"
  shows "spec_decision fs = spec_decision gs"
proof -
  have "finding_norm ` set fs = finding_norm ` set gs" using assms by (metis list.set_map mset_eq_setD)
  then have "finding_level ` finding_norm ` set fs = finding_level ` finding_norm ` set gs" by simp
  then show ?thesis by (simp add: spec_decision_def image_image level_finding_norm)
qed

lemma seal_fixes_decision:
  assumes "list_all wf_finding fs" "list_all wf_finding gs" "finding_set_sha256 fs = finding_set_sha256 gs"
  shows "spec_decision fs = spec_decision gs \<or> sha_collision (evidence_set_bytes fs) (evidence_set_bytes gs)"
  using finding_set_sha256_binding[OF assms] spec_decision_norm by blast

section \<open>Lemmas: the evaluation\<close>

text \<open>A successful evaluation, step by step.\<close>

lemma evaluate_Inr:
  assumes "evaluate execute advisor decide entries stamp request policy = Inr rep"
  shows "\<exists>fs n advisory sealed opinions v.
    collect_evidence execute entries request policy = Inr (fs, n) \<and>
    collect_advisory advisor request fs = (Inr advisory, sealed) \<and>
    finding_set_sha256 sealed = finding_set_sha256 fs \<and>
    opinions_of advisory = Inr opinions \<and>
    decide (rq_release_id request) sealed opinions = Inr v \<and>
    \<not> gv_llm_present v \<and> gv_agent_influence v = 0 \<and>
    rr_decision rep = gv_decision v \<and> rr_findings rep = sealed \<and>
    rr_evidence_sha256 rep = finding_set_sha256 fs \<and> rr_execution_count rep = int n \<and>
    rr_policy_sha256 rep = rp_sha256 policy \<and> rr_gatekeeper rep = verdict_to_dict v"
proof -
  obtain fs n where c: "collect_evidence execute entries request policy = Inr (fs, n)"
    using assms by (auto simp: evaluate_def and_then_Inr)
  obtain answer sealed where a: "collect_advisory advisor request fs = (answer, sealed)"
    by (cases "collect_advisory advisor request fs")
  show ?thesis
    using assms c a
    by (auto simp: evaluate_def Let_def and_then_Inr make_report_def split: if_splits)
qed

text \<open>An honest advisor has no way to reach the sealed findings: it leaves them as they are.\<close>

definition honest :: "advisor \<Rightarrow> bool" where
  "honest advise \<longleftrightarrow> (\<forall>r p fs. snd (advise r p fs) = fs)"

context deterministic_gate
begin

lemma evaluate_decision:
  assumes "evaluate execute advisor decide entries stamp request policy = Inr rep"
    and "list_all wf_finding (rr_findings rep)"
  shows "\<exists>fs. collect_evidence execute entries request policy = Inr (fs, length (commands policy)) \<and>
    rr_evidence_sha256 rep = finding_set_sha256 fs \<and>
    (rr_decision rep = spec_decision fs \<or> sha_collision (evidence_set_bytes fs) (evidence_set_bytes (rr_findings rep)))"
proof -
  from evaluate_Inr[OF assms(1)] obtain fs n opinions v where
    c: "collect_evidence execute entries request policy = Inr (fs, n)" and
    s: "finding_set_sha256 (rr_findings rep) = finding_set_sha256 fs" "rr_evidence_sha256 rep = finding_set_sha256 fs" and
    d: "decide (rq_release_id request) (rr_findings rep) opinions = Inr v" "rr_decision rep = gv_decision v"
    by metis
  have "rr_decision rep = spec_decision (rr_findings rep)" using decide_spec[OF d(1)] d(2) by simp
  then show ?thesis
    using seal_fixes_decision[OF collect_wf[OF c] assms(2) s(1)[symmetric]] collect_count[OF c] c s(2) by auto
qed

lemma advisors_cannot_disagree:
  assumes "evaluate execute advisor decide entries stamp request policy = Inr rep"
    and "evaluate execute advisor' decide entries stamp' request policy = Inr rep'"
    and "list_all wf_finding (rr_findings rep)" "list_all wf_finding (rr_findings rep')"
  shows "rr_evidence_sha256 rep = rr_evidence_sha256 rep'"
    and "rr_decision rep = rr_decision rep' \<or>
      sha_collision (evidence_set_bytes (rr_findings rep)) (evidence_set_bytes (rr_findings rep'))"
proof -
  from evaluate_Inr[OF assms(1)] obtain fs n opinions v where
    c: "collect_evidence execute entries request policy = Inr (fs, n)" and
    s: "finding_set_sha256 (rr_findings rep) = finding_set_sha256 fs" "rr_evidence_sha256 rep = finding_set_sha256 fs" and
    d: "decide (rq_release_id request) (rr_findings rep) opinions = Inr v" "rr_decision rep = gv_decision v"
    by metis
  from evaluate_Inr[OF assms(2)] obtain opinions' v' where
    s': "finding_set_sha256 (rr_findings rep') = finding_set_sha256 fs" "rr_evidence_sha256 rep' = finding_set_sha256 fs" and
    d': "decide (rq_release_id request) (rr_findings rep') opinions' = Inr v'" "rr_decision rep' = gv_decision v'"
    using c by auto
  show "rr_evidence_sha256 rep = rr_evidence_sha256 rep'" using s s' by simp
  show "rr_decision rep = rr_decision rep' \<or>
      sha_collision (evidence_set_bytes (rr_findings rep)) (evidence_set_bytes (rr_findings rep'))"
    using seal_fixes_decision[OF assms(3,4)] decide_spec[OF d(1)] decide_spec[OF d'(1)] d(2) d'(2) s(1) s'(1) by simp
qed

text \<open>An advisor that fails does not take the release down: the verdict is the one without it.\<close>

lemma failing_advisor_harmless:
  assumes "fst (advise request (advisory_projection fs) fs) = Inl e" "catches PyException e"
    and "\<not> catches EvidenceIntegrityError e" "honest advise"
    and "collect_evidence execute entries request policy = Inr (fs, n)"
    and "evaluate execute None decide entries stamp request policy = Inr rep"
  shows "\<exists>rep'. evaluate execute (Some advise) decide entries stamp request policy = Inr rep' \<and>
    rr_decision rep' = rr_decision rep \<and> rr_findings rep' = rr_findings rep"
proof -
  have same: "snd (advise request (advisory_projection fs) fs) = fs" using assms(4) by (simp add: honest_def)
  have some: "collect_advisory (Some advise) request fs = (Inr unavailable_advisory, fs)"
    using assms(1-3) same by (cases "advise request (advisory_projection fs) fs") (simp add: collect_advisory_def)
  have none: "collect_advisory None request fs = (Inr JNull, fs)" by (simp add: collect_advisory_def)
  have ops: "opinions_of unavailable_advisory = Inr []" "opinions_of JNull = Inr []"
    by (simp_all add: opinions_of_def unavailable_advisory_def Let_def or_else_def)
  show ?thesis
    using assms(5,6)
    by (auto simp: evaluate_def some none ops Let_def and_then_Inr make_report_def split: if_splits)
qed

end

lemma evaluate_refuses_tampering:
  assumes "collect_evidence execute entries request policy = Inr (fs, n)"
    and "collect_advisory advisor request fs = (answer, sealed)"
    and "finding_set_sha256 sealed \<noteq> finding_set_sha256 fs"
  shows "\<not> ok (evaluate execute advisor decide entries stamp request policy)"
proof
  assume "ok (evaluate execute advisor decide entries stamp request policy)"
  then obtain rep where "evaluate execute advisor decide entries stamp request policy = Inr rep"
    by (auto simp: ok_iff)
  from evaluate_Inr[OF this] show False using assms by auto
qed

text \<open>The projection hides the evidence: it is a function of what is shown.\<close>

definition shown :: "finding \<Rightarrow> string \<times> string \<times> severity \<times> string \<times> string \<times> bool" where
  "shown f = (finding_id f, fd_title f, fd_severity f, fd_source f, fd_claim f, blocking_evidence f \<noteq> [])"

lemma projection_shows: "advisory_projection fs = advisory_projection gs \<longleftrightarrow> map shown fs = map shown gs"
proof (induction fs gs rule: list_induct2')
  case (4 f fs g gs)
  then show ?case by (simp add: advisory_projection_def shown_def)
qed (simp_all add: advisory_projection_def)

end
