(* ===== verification/Samples.thy ===== *)
theory Samples
  imports Engine
begin

text \<open>
  A small release that the properties are instantiated at: a policy with one required check, an
  executor that reports its failure, and advisors that vote, raise and delete evidence.
\<close>

section \<open>A small release\<close>

definition demo_command :: policy_command where
  "demo_command = \<lparr>command_id = ''unit'', pc_title = ''Unit tests'', pc_argv = [''/usr/bin/make'', ''test''],
     pc_cwd = ''app'', timeout_seconds = 60, pc_severity = HIGH, blocking_on_failure = True\<rparr>"

definition demo_policy :: release_policy where
  "demo_policy = \<lparr>policy_id = ''org'', revision = 3, commands = [demo_command],
     rp_sha256 = sha256_json (policy_payload ''org'' 3 [demo_command])\<rparr>"

definition demo_failure :: execution_result where
  "demo_failure = \<lparr>er_command_id = ''unit'', return_code = 2, timed_out = False, stdout_sha256 = ''aa'',
     stderr_sha256 = ''bb'', duration_ms = 5\<rparr>"

definition demo_request :: release_request where
  "demo_request = \<lparr>rq_release_id = ''r1'', rq_root = [''srv'', ''repo''], rq_commit_sha = None\<rparr>"

definition demo_executor :: executor where
  "demo_executor root c = Inr demo_failure"

definition demo_finding :: finding where
  "demo_finding = command_finding demo_policy demo_command demo_failure"

text \<open>An advisor that votes GO, one that raises, and one that deletes the findings.\<close>

definition voting_advisor :: advisor where
  "voting_advisor r p fs = (Inr (JObj [(''opinions'', JList [JStr ''GO''])]), fs)"

definition raising_advisor :: advisor where
  "raising_advisor r p fs = (raise RuntimeError ''model unavailable'', fs)"

definition hostile_advisor :: advisor where
  "hostile_advisor r p fs = (Inr (JObj []), [])"

lemma demo_wf: "wf_command demo_command" "wf_policy demo_policy"
proof -
  show c: "wf_command demo_command"
    by (simp add: wf_command_def demo_command_def cwd_inside_def)
  show "wf_policy demo_policy"
    using c by (simp add: wf_policy_def demo_policy_def canonical_payload_def strip_kept visible_ascii_def is_space_def)
qed

lemma demo_collect: "collect_evidence demo_executor [] demo_request demo_policy = Inr ([demo_finding], 1)"
  by (simp add: collect_evidence_def demo_executor_def demo_policy_def passed_def demo_finding_def demo_failure_def)

lemma demo_finding_wf: "wf_finding demo_finding"
  by (simp add: demo_finding_def wf_command_finding)

lemma demo_level: "spec_decision [demo_finding] = NO_GO"
  by (simp add: spec_decision_NO_GO demo_finding_def command_finding_level demo_command_def)

lemma demo_verdict:
  "\<exists>v. local_gatekeeper ''r1'' [demo_finding] ops = Inr v \<and> gv_decision v = NO_GO \<and> \<not> gv_llm_present v \<and> gv_agent_influence v = 0"
  using judge_decide_spec[of "[demo_finding]"] demo_level by (simp add: local_gatekeeper_def case_prod_beta)

lemma demo_evaluate:
  assumes "collect_advisory advisor demo_request [demo_finding] = (Inr a, [demo_finding])" "opinions_of a = Inr ops"
  shows "\<exists>rep. evaluate demo_executor advisor local_gatekeeper [] (''id'', ''now'') demo_request demo_policy = Inr rep \<and>
    rr_decision rep = NO_GO \<and> rr_findings rep = [demo_finding]"
  using demo_verdict[of ops] assms demo_collect
  by (auto simp: evaluate_def Let_def make_report_def demo_request_def)

lemma demo_advisories:
  "collect_advisory None demo_request [demo_finding] = (Inr JNull, [demo_finding])"
  "collect_advisory (Some voting_advisor) demo_request [demo_finding] =
     (Inr (JObj [(''opinions'', JList [JStr ''GO''])]), [demo_finding])"
  "opinions_of JNull = Inr []" "opinions_of (JObj [(''opinions'', JList [JStr ''GO''])]) = Inr [JStr ''GO'']"
  by (simp_all add: collect_advisory_def voting_advisor_def opinions_of_def or_else_def)

text \<open>An evaluation with an advisor that answers and leaves the findings alone.\<close>

lemma honest_run:
  assumes "collect_evidence x entries rq policy = Inr (fs, n)" "advise rq (advisory_projection fs) fs = (Inr a, fs)" "ok (opinions_of a)"
  shows "\<exists>rep. evaluate x (Some advise) local_gatekeeper entries stamp rq policy = Inr rep \<and> rr_findings rep = fs \<and>
    rr_advisory rep = a \<and> rr_decision rep = spec_decision fs"
proof -
  obtain ops where o: "opinions_of a = Inr ops" using assms(3) by (auto simp: ok_iff)
  obtain v where "local_gatekeeper (rq_release_id rq) fs ops = Inr v" "gv_decision v = spec_decision fs" "\<not> gv_llm_present v"
    "gv_agent_influence v = 0"
    using judge_decide_spec[of fs] by (simp add: local_gatekeeper_def case_prod_beta)
  then show ?thesis
    using assms(1,2) o by (simp add: evaluate_def Let_def make_report_def collect_advisory_def)
qed

end
