(* ===== verification/Attestation.thy ===== *)
theory Attestation
  imports Engine
begin

text \<open>
  operations/: the evidence bundle built from a release report and its signature
  (operations/attestation.py), signed provenance (operations/provenance.py) and the checkpoint store
  (operations/checkpoint.py).  A signer is a parameter: a function from the payload to a signature
  and a key name, or an error.  The lemmas: every report the engine issues can be attested; a bundle
  holds one result per finding, in identifier order, from which the decision can be recomputed; its
  digest determines the bundle; and the bundle of a report whose findings changed is refused.
\<close>

section \<open>EvidenceBundle\<close>

record evidence_bundle =
  eb_release_id :: string
  eb_source_sha256 :: string
  eb_execution_id :: string
  eb_nonce :: string
  eb_issued_at :: int
  eb_expires_at :: int
  eb_policy_id :: string
  eb_policy_revision :: int
  eb_policy_sha256 :: string
  eb_execution_count :: int
  eb_results :: "json list"

definition bundle_schema :: string where
  "bundle_schema = ''release-sentinel.evidence-bundle.v1''"

definition bundle_to_dict :: "evidence_bundle \<Rightarrow> json" where
  "bundle_to_dict b = JObj
    [(''schema'', JStr bundle_schema),
     (''release_id'', JStr (eb_release_id b)),
     (''source_sha256'', JStr (eb_source_sha256 b)),
     (''execution_id'', JStr (eb_execution_id b)),
     (''nonce'', JStr (eb_nonce b)),
     (''issued_at_unix'', JInt (eb_issued_at b)),
     (''expires_at_unix'', JInt (eb_expires_at b)),
     (''policy_id'', JStr (eb_policy_id b)),
     (''policy_revision'', JInt (eb_policy_revision b)),
     (''policy_sha256'', JStr (eb_policy_sha256 b)),
     (''execution_count'', JInt (eb_execution_count b)),
     (''results'', JList (eb_results b))]"

definition evidence_digest :: "finding \<Rightarrow> string" where
  "evidence_digest f = sha256_json (finding_to_dict f)"

definition bundle_result :: "finding \<Rightarrow> json" where
  "bundle_result f = JObj
    [(''finding_id'', JStr (finding_id f)),
     (''severity'', JStr (severity_value (fd_severity f))),
     (''failed'', JBool True),
     (''blocking_eligible'', JBool (blocking_evidence f \<noteq> [])),
     (''evidence_digest_sha256'', JStr (evidence_digest f))]"

text \<open>
  \<open>now\<close> is the time that is used when \<open>now_unix\<close> is absent, \<open>fresh\<close> the two identifiers that
  \<open>uuid4\<close> gives.  An empty identifier argument counts as absent (Python's \<open>or\<close>).
\<close>

definition or_fresh :: "string option \<Rightarrow> string \<Rightarrow> string" where
  "or_fresh x y = (case x of Some s \<Rightarrow> if s = [] then y else s | None \<Rightarrow> y)"

definition build_evidence_bundle ::
    "release_report \<Rightarrow> string \<Rightarrow> int option \<Rightarrow> int \<Rightarrow> string option \<Rightarrow> string option \<Rightarrow> int \<Rightarrow> string \<times> string \<Rightarrow>
     evidence_bundle res" where
  "build_evidence_bundle report source_sha256 now_unix ttl_seconds execution_id nonce clock fresh =
    (if py_len source_sha256 \<noteq> 64 then raise ValueError ''source_sha256 must be a SHA-256 hex digest''
     else if ttl_seconds < 30 \<or> ttl_seconds > 900 then raise ValueError ''evidence TTL must be between 30 and 900 seconds''
     else if finding_set_sha256 (rr_findings report) \<noteq> rr_evidence_sha256 report
     then raise EvidenceIntegrityError ''release report evidence changed after evaluation''
     else let now = (case now_unix of None \<Rightarrow> clock | Some t \<Rightarrow> t) in Inr
      \<lparr>eb_release_id = rr_release_id report,
       eb_source_sha256 = source_sha256,
       eb_execution_id = or_fresh execution_id (''exec-'' @ fst fresh),
       eb_nonce = or_fresh nonce (''nonce-'' @ snd fresh),
       eb_issued_at = now,
       eb_expires_at = now + ttl_seconds,
       eb_policy_id = rr_policy_id report,
       eb_policy_revision = rr_policy_revision report,
       eb_policy_sha256 = rr_policy_sha256 report,
       eb_execution_count = rr_execution_count report,
       eb_results = map bundle_result (sort_key finding_id (rr_findings report))\<rparr>)"

section \<open>Signing\<close>

record signed_bundle =
  sb_bundle :: json
  sb_bundle_sha256 :: string
  sb_signature_base64 :: string
  sb_key_id :: string

definition signed_to_dict :: "signed_bundle \<Rightarrow> json" where
  "signed_to_dict s = JObj
    [(''bundle'', sb_bundle s),
     (''bundle_sha256'', JStr (sb_bundle_sha256 s)),
     (''signature_base64'', JStr (sb_signature_base64 s)),
     (''key_id'', JStr (sb_key_id s))]"

definition sign_evidence_bundle :: "(bytes \<Rightarrow> (bytes \<times> string) res) \<Rightarrow> evidence_bundle \<Rightarrow> signed_bundle res" where
  "sign_evidence_bundle sign_payload b =
     (let raw = canonical_json (bundle_to_dict b) in
      and_then (sign_payload raw) (\<lambda>(signature, key_id).
        Inr \<lparr>sb_bundle = bundle_to_dict b, sb_bundle_sha256 = sha256_hex raw,
             sb_signature_base64 = b64encode signature, sb_key_id = key_id\<rparr>))"

text \<open>The KMS signer of infrastructure/kms.py: a full key name, and digests of 32 bytes only.\<close>

definition kms_init :: "string \<Rightarrow> string res" where
  "kms_init key_version =
     (if \<not> contains ''/cryptoKeyVersions/'' key_version
      then raise ValueError ''KMS key version must be a full CryptoKeyVersion resource name'' else Inr key_version)"

definition kms_sign :: "(string \<Rightarrow> bytes \<Rightarrow> bytes res) \<Rightarrow> string \<Rightarrow> bytes \<Rightarrow> (bytes \<times> string) res" where
  "kms_sign asymmetric_sign key_version digest =
     (if length digest \<noteq> 32 then raise ValueError ''CloudKmsSigner expects a SHA-256 digest''
      else and_then (asymmetric_sign key_version digest) (\<lambda>s. Inr (s, key_version)))"

definition kms_sign_payload :: "(string \<Rightarrow> bytes \<Rightarrow> bytes res) \<Rightarrow> string \<Rightarrow> bytes \<Rightarrow> (bytes \<times> string) res" where
  "kms_sign_payload asymmetric_sign key_version payload = kms_sign asymmetric_sign key_version (sha256 payload)"

section \<open>Provenance\<close>

record signed_provenance =
  manifest :: json
  manifest_sha256 :: string
  signature_hex :: "string option"
  key_version :: "string option"

definition build_provenance ::
    "json \<Rightarrow> (bytes \<Rightarrow> (bytes \<times> string) res) option \<Rightarrow> bool \<Rightarrow> signed_provenance res" where
  "build_provenance m signer signing_required =
    (case signer of
       None \<Rightarrow>
         if signing_required then raise RuntimeError ''provenance signing is required''
         else Inr \<lparr>manifest = m, manifest_sha256 = sha256_json m, signature_hex = None, key_version = None\<rparr>
     | Some sign \<Rightarrow>
         and_then (sign (sha256 (canonical_json m))) (\<lambda>(signature, v).
           Inr \<lparr>manifest = m, manifest_sha256 = sha256_json m,
                signature_hex = Some (hexdigest signature), key_version = Some v\<rparr>))"

section \<open>Checkpoints\<close>

record checkpoint =
  completed_scenarios :: "string set"
  cancelled :: bool

type_synonym checkpoints = "string \<rightharpoonup> checkpoint"

definition get_or_create :: "string \<Rightarrow> checkpoints \<Rightarrow> checkpoint \<times> checkpoints" where
  "get_or_create run s =
     (case s run of
        Some c \<Rightarrow> (c, s)
      | None \<Rightarrow> let c = \<lparr>completed_scenarios = {}, cancelled = False\<rparr> in (c, s(run \<mapsto> c)))"

definition mark_complete :: "string \<Rightarrow> string \<Rightarrow> checkpoints \<Rightarrow> checkpoints" where
  "mark_complete run scenario s =
     (let (c, s') = get_or_create run s in
      s'(run \<mapsto> c\<lparr>completed_scenarios := insert scenario (completed_scenarios c)\<rparr>))"

definition request_cancel :: "string \<Rightarrow> checkpoints \<Rightarrow> checkpoints" where
  "request_cancel run s = (let (c, s') = get_or_create run s in s'(run \<mapsto> c\<lparr>cancelled := True\<rparr>))"

datatype checkpoint_op = GetRun string | MarkComplete string string | Cancel string

fun checkpoint_step :: "checkpoint_op \<Rightarrow> checkpoints \<Rightarrow> checkpoints" where
  "checkpoint_step (GetRun r) s = snd (get_or_create r s)"
| "checkpoint_step (MarkComplete r x) s = mark_complete r x s"
| "checkpoint_step (Cancel r) s = request_cancel r s"

text \<open>Progress and cancellation are never undone.\<close>

definition checkpoints_le :: "checkpoints \<Rightarrow> checkpoints \<Rightarrow> bool" where
  "checkpoints_le s t \<longleftrightarrow> (\<forall>r c. s r = Some c \<longrightarrow> (\<exists>d. t r = Some d \<and>
     completed_scenarios c \<subseteq> completed_scenarios d \<and> (cancelled c \<longrightarrow> cancelled d)))"

lemma checkpoints_le_refl: "checkpoints_le s s"
  by (simp add: checkpoints_le_def)

lemma checkpoints_le_trans: "checkpoints_le s t \<Longrightarrow> checkpoints_le t u \<Longrightarrow> checkpoints_le s u"
  unfolding checkpoints_le_def by (meson subset_trans)

lemma checkpoint_step_le: "checkpoints_le s (checkpoint_step op s)"
  by (cases op)
    (auto simp: checkpoints_le_def get_or_create_def mark_complete_def request_cancel_def Let_def split: option.splits)

lemma checkpoint_run_le: "checkpoints_le s (fold checkpoint_step ops s)"
proof (induction ops arbitrary: s)
  case (Cons op ops)
  then show ?case using checkpoint_step_le checkpoints_le_trans by (metis fold_simps(2))
qed (simp add: checkpoints_le_refl)

lemma mark_complete_records: "\<exists>c. mark_complete r x s r = Some c \<and> x \<in> completed_scenarios c"
  by (simp add: mark_complete_def case_prod_beta)

section \<open>Lemmas: bundles\<close>

lemma set_sorted_findings: "set (sort_key finding_id fs) = set fs"
  by simp

definition blocking_result :: "severity set \<Rightarrow> json \<Rightarrow> bool" where
  "blocking_result ss r \<longleftrightarrow>
     obj_get r ''blocking_eligible'' = JBool True \<and> (\<exists>v\<in>ss. obj_get r ''severity'' = JStr (severity_value v))"

lemma blocking_result_iff: "blocking_result ss (bundle_result f) \<longleftrightarrow> blocking_evidence f \<noteq> [] \<and> fd_severity f \<in> ss"
  by (auto simp: blocking_result_def bundle_result_def)

lemma build_bundle_Inr:
  assumes "build_evidence_bundle report src now ttl ex nonce clock fresh = Inr b"
  shows "eb_results b = map bundle_result (sort_key finding_id (rr_findings report))"
    "finding_set_sha256 (rr_findings report) = rr_evidence_sha256 report"
    "eb_expires_at b = eb_issued_at b + ttl" "30 \<le> ttl" "ttl \<le> 900"
    "eb_policy_sha256 b = rr_policy_sha256 report" "eb_release_id b = rr_release_id report"
    "eb_source_sha256 b = src" "py_len src = 64"
  using assms by (auto simp: build_evidence_bundle_def Let_def split: if_splits)

text \<open>The decision can be read off the results.\<close>

lemma bundle_decision:
  assumes "build_evidence_bundle report src now ttl ex nonce clock fresh = Inr b"
  shows "spec_decision (rr_findings report) = NO_GO \<longleftrightarrow> (\<exists>r\<in>set (eb_results b). blocking_result {HIGH, CRITICAL} r)"
    and "spec_decision (rr_findings report) = GO \<longleftrightarrow> \<not> (\<exists>r\<in>set (eb_results b). blocking_result {MEDIUM, HIGH, CRITICAL} r)"
proof -
  have ex: "(\<exists>r\<in>set (eb_results b). blocking_result ss r) \<longleftrightarrow>
      (\<exists>f\<in>set (rr_findings report). blocking_evidence f \<noteq> [] \<and> fd_severity f \<in> ss)" for ss
    using build_bundle_Inr(1)[OF assms] by (simp add: blocking_result_iff)
  show "spec_decision (rr_findings report) = NO_GO \<longleftrightarrow> (\<exists>r\<in>set (eb_results b). blocking_result {HIGH, CRITICAL} r)"
    unfolding ex spec_decision_NO_GO finding_level_NO_GO by blast
  show "spec_decision (rr_findings report) = GO \<longleftrightarrow> \<not> (\<exists>r\<in>set (eb_results b). blocking_result {MEDIUM, HIGH, CRITICAL} r)"
    unfolding ex spec_decision_GO by (auto simp: finding_level_def)
qed

lemma bundle_of_engine_report:
  assumes "evaluate execute advisor decide entries stamp request policy = Inr rep"
    and "py_len src = 64" "30 \<le> ttl" "ttl \<le> 900"
  shows "ok (build_evidence_bundle rep src now ttl ex nonce clock fresh)"
proof -
  from evaluate_Inr[OF assms(1)] have "finding_set_sha256 (rr_findings rep) = rr_evidence_sha256 rep" by force
  then show ?thesis using assms(2-4) by (simp add: build_evidence_bundle_def Let_def)
qed

text \<open>The digest determines the bundle.\<close>

lemma wf_bundle_result [simp]: "wf_json (bundle_result f)"
  by (simp add: bundle_result_def)

lemma bundle_result_inj:
  assumes "wf_finding f" "wf_finding g" "norm (bundle_result f) = norm (bundle_result g)"
  shows "finding_norm f = finding_norm g \<or>
    sha_collision (canonical_json (finding_to_dict f)) (canonical_json (finding_to_dict g))"
proof -
  have "evidence_digest f = evidence_digest g"
    using assms(3) unfolding bundle_result_def by (subst (asm) norm_obj_inj) simp_all
  then show ?thesis
    using sha256_json_inj[of "finding_to_dict f" "finding_to_dict g"] assms(1,2)
    by (auto simp: evidence_digest_def wf_finding_dict finding_to_dict_norm)
qed

lemma bundle_dict_norm:
  "norm (bundle_to_dict b) = norm (bundle_to_dict c) \<longleftrightarrow>
     eb_release_id b = eb_release_id c \<and> eb_source_sha256 b = eb_source_sha256 c \<and>
     eb_execution_id b = eb_execution_id c \<and> eb_nonce b = eb_nonce c \<and> eb_issued_at b = eb_issued_at c \<and>
     eb_expires_at b = eb_expires_at c \<and> eb_policy_id b = eb_policy_id c \<and>
     eb_policy_revision b = eb_policy_revision c \<and> eb_policy_sha256 b = eb_policy_sha256 c \<and>
     eb_execution_count b = eb_execution_count c \<and> map norm (eb_results b) = map norm (eb_results c)"
  unfolding bundle_to_dict_def by (subst norm_obj_inj) simp_all

lemma sign_bundle_Inr:
  "sign_evidence_bundle sign b = Inr s \<longleftrightarrow>
   (\<exists>sig k. sign (canonical_json (bundle_to_dict b)) = Inr (sig, k) \<and>
     s = \<lparr>sb_bundle = bundle_to_dict b, sb_bundle_sha256 = sha256_json (bundle_to_dict b),
          sb_signature_base64 = b64encode sig, sb_key_id = k\<rparr>)"
  by (auto simp: sign_evidence_bundle_def Let_def and_then_Inr sha256_json_def)

lemma results_determine_findings:
  assumes "list_all wf_finding fs" "list_all wf_finding gs"
    and "map norm (map bundle_result fs) = map norm (map bundle_result gs)"
  shows "map finding_norm fs = map finding_norm gs \<or>
    (\<exists>f\<in>set fs. \<exists>g\<in>set gs. sha_collision (canonical_json (finding_to_dict f)) (canonical_json (finding_to_dict g)))"
  using assms
proof (induction fs arbitrary: gs)
  case Nil
  then show ?case by simp
next
  case (Cons f fs)
  then obtain g gs' where gs: "gs = g # gs'" by (cases gs) auto
  then show ?case
    using Cons.IH[of gs'] Cons.prems bundle_result_inj[of f g] by auto
qed

text \<open>The texts whose digests a signed bundle rests on.\<close>

definition attested_texts :: "release_report \<Rightarrow> evidence_bundle \<Rightarrow> bytes set" where
  "attested_texts r b = insert (canonical_json (bundle_to_dict b)) ((canonical_json \<circ> finding_to_dict) ` set (rr_findings r))"

text \<open>Two signed bundles with the same digest attest the same report, unless a digest collides.\<close>

lemma signed_bundle_binding:
  assumes "build_evidence_bundle r src now ttl ex nonce clock fresh = Inr b"
    and "build_evidence_bundle r' src' now' ttl' ex' nonce' clock' fresh' = Inr b'"
    and "sign_evidence_bundle sign b = Inr s" "sign_evidence_bundle sign' b' = Inr s'"
    and "sb_bundle_sha256 s = sb_bundle_sha256 s'"
    and "list_all wf_finding (rr_findings r)" "list_all wf_finding (rr_findings r')"
  shows "(src = src' \<and> rr_policy_sha256 r = rr_policy_sha256 r' \<and>
      mset (map finding_norm (rr_findings r)) = mset (map finding_norm (rr_findings r'))) \<or> 
      collision_among (attested_texts r b \<union> attested_texts r' b')"
proof (cases "collision_among (attested_texts r b \<union> attested_texts r' b')")
  case False
  then have none: "\<not> sha_collision x y" if "x \<in> attested_texts r b" "y \<in> attested_texts r' b'" for x y
    using that by (meson UnI1 UnI2 collision_amongI)
  have "sha256_json (bundle_to_dict b) = sha256_json (bundle_to_dict b')"
    using assms(3-5) by (auto simp: sign_bundle_Inr)
  moreover have "wf_json (bundle_to_dict b)" "wf_json (bundle_to_dict b')"
    using build_bundle_Inr(1)[OF assms(1)] build_bundle_Inr(1)[OF assms(2)]
    by (auto simp: bundle_to_dict_def list_all_iff)
  ultimately have "norm (bundle_to_dict b) = norm (bundle_to_dict b')" using sha256_json_inj[of "bundle_to_dict b" "bundle_to_dict b'"] none[of "canonical_json (bundle_to_dict b)" "canonical_json (bundle_to_dict b')"]
    by (auto simp: attested_texts_def)
  then have same: "eb_source_sha256 b = eb_source_sha256 b'" "eb_policy_sha256 b = eb_policy_sha256 b'"
    and res: "map norm (eb_results b) = map norm (eb_results b')" by (auto simp: bundle_dict_norm)
  let ?fs = "sort_key finding_id (rr_findings r)" and ?gs = "sort_key finding_id (rr_findings r')"
  have "map finding_norm ?fs = map finding_norm ?gs"
    using results_determine_findings[of ?fs ?gs] res assms(6,7) none
    by (auto simp: build_bundle_Inr(1)[OF assms(1)] build_bundle_Inr(1)[OF assms(2)] list_all_iff attested_texts_def)
  then have "mset (map finding_norm ?fs) = mset (map finding_norm ?gs)" by simp
  then have "mset (map finding_norm (rr_findings r)) = mset (map finding_norm (rr_findings r'))" by simp
  then show ?thesis
    using same build_bundle_Inr(6,8)[OF assms(1)] build_bundle_Inr(6,8)[OF assms(2)] by auto
qed simp

end
