(* ===== verification/Gatekeeper.thy ===== *)
theory Gatekeeper
  imports Attestation
begin

text \<open>
  The A2A client of release/gatekeeper.py: the checks on the service URL (with \<open>urlsplit\<close>), the
  request in the two binding versions, the extraction of the verdict artifact and of the trace
  identifier, and the verdict that a signed bundle obtains.  The HTTP exchange, the identity token
  and the tracing context are parameters.  The lemmas: an identity token is only ever requested for
  an https origin under \<open>.run.app\<close> whose URL is the token's audience; a verdict is returned only
  for a response whose verdict artifact says accepted, and has that artifact's decision.
\<close>

section \<open>urlsplit\<close>

definition rstrip_slash :: "string \<Rightarrow> string" where
  "rstrip_slash s = rev (dropWhile (\<lambda>c. c = CHR ''/'') (rev s))"

text \<open>\<open>s.partition(c)\<close> and \<open>s.rpartition(c)\<close>.\<close>

definition partition_at :: "char \<Rightarrow> string \<Rightarrow> string \<times> bool \<times> string" where
  "partition_at c s =
     (if c \<in> set s then (takeWhile (\<lambda>x. x \<noteq> c) s, True, tl (dropWhile (\<lambda>x. x \<noteq> c) s)) else (s, False, ''''))"

definition rpartition_at :: "char \<Rightarrow> string \<Rightarrow> string \<times> bool \<times> string" where
  "rpartition_at c s =
     (let (a, found, b) = partition_at c (rev s) in
      if found then (rev b, True, rev a) else ('''', False, s))"

record split_url =
  su_scheme :: string
  su_netloc :: string
  su_path :: string
  su_query :: string
  su_fragment :: string

definition scheme_char :: "char \<Rightarrow> bool" where
  "scheme_char c \<longleftrightarrow> is_digit c \<or> (CHR ''a'' \<le> ascii_lower c \<and> ascii_lower c \<le> CHR ''z'') \<or> c \<in> set ''+-.''"

definition alpha_char :: "char \<Rightarrow> bool" where
  "alpha_char c \<longleftrightarrow> CHR ''a'' \<le> ascii_lower c \<and> ascii_lower c \<le> CHR ''z''"

text \<open>
  The scheme is the text before the first colon when it starts with a letter and has scheme
  characters only; leading control characters and blanks, and tabs and line ends anywhere, go first.
\<close>

definition url_clean :: "string \<Rightarrow> string" where
  "url_clean s = filter (\<lambda>c. c \<notin> {CHR 0x09, CHR 0x0A, CHR 0x0D})
     (dropWhile (\<lambda>c. (of_char c :: nat) \<le> 32) s)"

definition url_scheme :: "string \<Rightarrow> string \<times> string" where
  "url_scheme url =
     (let (a, found, b) = partition_at CHR '':'' url in
      if found \<and> a \<noteq> [] \<and> alpha_char (hd a) \<and> list_all scheme_char a then (map ascii_lower a, b)
      else ('''', url))"

definition urlsplit :: "string \<Rightarrow> split_url res" where
  "urlsplit raw =
     (let (scheme, rest) = url_scheme (url_clean raw);
          has_net = starts_with rest ''//'';
          body = (if has_net then drop 2 rest else rest);
          netloc = (if has_net then takeWhile (\<lambda>c. c \<notin> set ''/?#'') body else '''');
          rest2 = (if has_net then dropWhile (\<lambda>c. c \<notin> set ''/?#'') body else body);
          (before_fragment, f1, fragment) = partition_at CHR ''#'' rest2;
          (path, f2, query) = partition_at CHR ''?'' before_fragment in
      if (CHR ''['' \<in> set netloc) \<noteq> (CHR '']'' \<in> set netloc) then raise ValueError ''Invalid IPv6 URL''
      else Inr \<lparr>su_scheme = scheme, su_netloc = netloc, su_path = path, su_query = query, su_fragment = fragment\<rparr>)"

definition userinfo :: "split_url \<Rightarrow> string \<times> bool" where
  "userinfo u = (let (info, found, host) = rpartition_at CHR ''@'' (su_netloc u) in (info, found))"

text \<open>\<open>username or password\<close> as a truth value.\<close>

definition has_credentials :: "split_url \<Rightarrow> bool" where
  "has_credentials u =
     (let (info, found) = userinfo u; (user, f, password) = partition_at CHR '':'' info in
      found \<and> (user \<noteq> [] \<or> password \<noteq> []))"

definition hostname :: "split_url \<Rightarrow> string" where
  "hostname u =
     (let (info, found, hostinfo) = rpartition_at CHR ''@'' (su_netloc u);
          (pre, open_br, bracketed) = partition_at CHR ''['' hostinfo;
          host = (if open_br then fst (partition_at CHR '']'' bracketed) else fst (partition_at CHR '':'' hostinfo));
          (name, zoned, zone) = partition_at CHR ''%'' host in
      map ascii_lower name @ (if zoned then CHR ''%'' # zone else ''''))"

section \<open>The client\<close>

record a2a_client =
  base_url :: string
  audience :: "string option"
  protocol_version :: string

definition version_legacy :: string where "version_legacy = ''0.3''"
definition version_current :: string where "version_current = ''1.0''"

definition loopback_origin :: "split_url \<Rightarrow> bool" where
  "loopback_origin u \<longleftrightarrow> su_scheme u = ''http'' \<and> hostname u \<in> {''127.0.0.1'', ''localhost''}"

definition cloud_origin :: "split_url \<Rightarrow> bool" where
  "cloud_origin u \<longleftrightarrow> su_scheme u = ''https'' \<and> hostname u \<noteq> [] \<and> ends_with (hostname u) ''.run.app''"

definition a2a_client_init :: "string \<Rightarrow> string option \<Rightarrow> string \<Rightarrow> a2a_client res" where
  "a2a_client_init url aud version =
     (let value = rstrip_slash url in
      and_then (urlsplit value) (\<lambda>u.
      if has_credentials u \<or> su_query u \<noteq> [] \<or> su_fragment u \<noteq> [] \<or> su_path u \<notin> {'''', ''/''}
      then raise ValueError ''gatekeeper URL must be a service origin without credentials, path, query, or fragment''
      else if loopback_origin u \<and> aud \<noteq> None
      then raise ValueError ''local Gatekeeper calls must not request a cloud identity token''
      else if \<not> loopback_origin u \<and> \<not> cloud_origin u
      then raise ValueError ''production Gatekeeper must be a private Cloud Run service origin''
      else if \<not> loopback_origin u \<and> (aud = None \<or> aud = Some [])
      then raise ValueError ''private Cloud Run Gatekeeper requires an identity-token audience''
      else if \<not> loopback_origin u \<and> rstrip_slash (the aud) \<noteq> value
      then raise ValueError ''Gatekeeper audience must match the Cloud Run service URL''
      else if version \<notin> {version_legacy, version_current}
      then raise ValueError (''unsupported A2A protocol version '' @ repr_str version @
        ''; expected one of ('' @ repr_str version_legacy @ '', '' @ repr_str version_current @ '')'')
      else Inr \<lparr>base_url = value, audience = aud, protocol_version = version\<rparr>))"

definition authorization_header :: "(string \<Rightarrow> string res) \<Rightarrow> a2a_client \<Rightarrow> string option res" where
  "authorization_header fetch_id_token c =
     (case audience c of
        None \<Rightarrow> Inr None
      | Some aud \<Rightarrow>
          if aud = [] then Inr None
          else and_then (fetch_id_token aud) (\<lambda>token. Inr (Some (''Bearer '' @ token))))"

section \<open>Reading a response\<close>

text \<open>\<open>x.get(k)\<close> on a value that may not be an object.\<close>

definition attr_get :: "json \<Rightarrow> string \<Rightarrow> json res" where
  "attr_get x k = (if is_obj x then Inr (obj_get x k) else raise AttributeError ''object has no attribute get'')"

definition unwrap_task :: "json \<Rightarrow> json" where
  "unwrap_task result = (if is_obj result \<and> is_obj (obj_get result ''task'') then obj_get result ''task'' else result)"

fun data_part :: "json list \<Rightarrow> json option res" where
  "data_part [] = Inr None"
| "data_part (part # parts) =
     and_then (attr_get part ''kind'') (\<lambda>kind.
       if kind \<notin> {JNull, JStr ''data''} then data_part parts
       else if is_obj (obj_get part ''data'') then Inr (Some (obj_get part ''data''))
       else data_part parts)"

fun artifact_data :: "json list \<Rightarrow> json option res" where
  "artifact_data [] = Inr None"
| "artifact_data (artifact # artifacts) =
     and_then (attr_get artifact ''parts'') (\<lambda>raw.
     and_then (py_list (or_else raw (JList []))) (\<lambda>parts.
     and_then (data_part parts) (\<lambda>found.
       case found of Some d \<Rightarrow> Inr (Some d) | None \<Rightarrow> artifact_data artifacts)))"

definition extract_verdict :: "json \<Rightarrow> json res" where
  "extract_verdict body =
     and_then (attr_get body ''result'') (\<lambda>r.
     and_then (attr_get (unwrap_task (or_else r (JObj []))) ''artifacts'') (\<lambda>raw.
     and_then (py_list (or_else raw (JList []))) (\<lambda>artifacts.
     and_then (artifact_data artifacts) (\<lambda>found.
       case found of
         Some d \<Rightarrow> Inr d
       | None \<Rightarrow> raise RuntimeError ''gatekeeper A2A response did not contain a verdict artifact''))))"

definition extract_trace_id :: "json \<Rightarrow> string option res" where
  "extract_trace_id body =
     and_then (attr_get body ''_release_sentinel_trace_id'') (\<lambda>t.
     and_then (if truthy t then Inr t
       else let result = unwrap_task (or_else (obj_get body ''result'') (JObj [])) in
         if is_obj result then attr_get (or_else (obj_get result ''metadata'') (JObj [])) ''trace_id'' else Inr JNull)
       (\<lambda>trace. case trace of
          JStr s \<Rightarrow> Inr (if py_len s = 32 then Some s else None)
        | _ \<Rightarrow> Inr None))"

section \<open>Requests and verdicts\<close>

definition rpc_payload :: "a2a_client \<Rightarrow> string \<times> string \<Rightarrow> json \<Rightarrow> json" where
  "rpc_payload c ids decision_input =
     (let current = (protocol_version c = version_current);
          (method, role) = (if current then (''SendMessage'', ''ROLE_USER'') else (''message/send'', ''user''));
          part = (if current then JObj [(''data'', decision_input)]
                  else JObj [(''kind'', JStr ''data''), (''data'', decision_input)]) in
      JObj [(''jsonrpc'', JStr ''2.0''),
            (''id'', JStr (''rs-'' @ fst ids)),
            (''method'', JStr method),
            (''params'', JObj
               [(''message'', JObj
                   [(''role'', JStr role),
                    (''messageId'', JStr (''msg-'' @ snd ids)),
                    (''parts'', JList [part])]),
                (''configuration'', JObj [(''blocking'', JBool True)])])])"

text \<open>
  \<open>transport url headers payload\<close> is the HTTP exchange with the decoded JSON body as its result, and
  \<open>trace\<close> the identifier of the current span.
\<close>

record environment =
  transport :: "string \<Rightarrow> (string \<times> string) list \<Rightarrow> json \<Rightarrow> json res"
  fetch_id_token :: "string \<Rightarrow> string res"
  trace_headers :: "(string \<times> string) list"
  current_trace :: "string option"
  request_ids :: "string \<times> string"

definition set_field :: "json \<Rightarrow> string \<Rightarrow> json \<Rightarrow> json" where
  "set_field d k v = (case d of JObj kvs \<Rightarrow> JObj (dict_set k v kvs) | _ \<Rightarrow> d)"

definition a2a_post :: "environment \<Rightarrow> a2a_client \<Rightarrow> json \<Rightarrow> json res" where
  "a2a_post env c payload =
     and_then (authorization_header (fetch_id_token env) c) (\<lambda>auth.
       let headers = foldl (\<lambda>d (k, v). dict_set k v d)
            [(''Content-Type'', ''application/json''), (''A2A-Version'', protocol_version c)] (trace_headers env);
           headers' = (case auth of None \<Rightarrow> headers | Some a \<Rightarrow> dict_set ''Authorization'' a headers) in
       and_then (transport env (base_url c @ ''/a2a'') headers' payload) (\<lambda>body.
       and_then (attr_get body ''error'') (\<lambda>err.
         if truthy err then raise RuntimeError ''gatekeeper A2A request failed'' else
         and_then (extract_verdict body) (\<lambda>_.
           Inr (set_field body ''_release_sentinel_trace_id'' (opt_str (current_trace env)))))))"

definition decision_input :: "string \<Rightarrow> string \<Rightarrow> string \<Rightarrow> json \<Rightarrow> json list \<Rightarrow> json" where
  "decision_input release_id source policy bundle opinions = JObj
     [(''release_id'', JStr release_id),
      (''source_sha256'', JStr source),
      (''policy_sha256'', JStr policy),
      (''signed_evidence_bundle'', bundle),
      (''agent_opinions'', JList opinions)]"

text \<open>
  \<open>int(x)\<close> on a document.  A float is truncated from its \<open>repr\<close> digits, exact below \<open>2 ^ 53\<close>; text is
  decimal digits with a sign, surrounding blanks and single underscores between digits.
\<close>

definition digit_value :: "char \<Rightarrow> int" where
  "digit_value c = int (of_char c) - 48"

definition digits_int :: "string \<Rightarrow> int" where
  "digits_int ds = foldl (\<lambda>n c. 10 * n + digit_value c) 0 (filter is_digit ds)"

definition parse_digits :: "string \<Rightarrow> int option" where
  "parse_digits s =
     (if s \<noteq> [] \<and> list_all (\<lambda>w. w \<noteq> [] \<and> list_all is_digit w) (split_on CHR ''_'' s)
      then Some (digits_int s) else None)"

definition parse_int :: "string \<Rightarrow> int option" where
  "parse_int raw =
     (let s = strip raw in
      if starts_with s ''-'' then map_option uminus (parse_digits (tl s))
      else if starts_with s ''+'' then parse_digits (tl s)
      else parse_digits s)"

definition exponent_of :: "string \<Rightarrow> int" where
  "exponent_of e = (if starts_with e ''-'' then - digits_int (tl e) else digits_int e)"

definition truncate_repr :: "string \<Rightarrow> int" where
  "truncate_repr r =
     (let neg = starts_with r ''-''; t = (if neg then tl r else r);
          (mantissa, fe, e) = partition_at CHR ''e'' t;
          (whole, fp, frac) = partition_at CHR ''.'' mantissa;
          k = (if fe then exponent_of e else 0) - int (length frac);
          m = digits_int (whole @ frac);
          v = (if k \<ge> 0 then m * 10 ^ nat k else m div 10 ^ nat (- k)) in
      if neg then - v else v)"

fun py_int :: "json \<Rightarrow> int res" where
  "py_int (JInt i) = Inr i"
| "py_int (JBool b) = Inr (if b then 1 else 0)"
| "py_int (JStr s) =
     (case parse_int s of Some i \<Rightarrow> Inr i | None \<Rightarrow> raise ValueError ''invalid literal for int() with base 10'')"
| "py_int (JFloat (FRepr r)) = Inr (truncate_repr r)"
| "py_int (JFloat FNan) = raise ValueError ''cannot convert float NaN to integer''"
| "py_int (JFloat f) = raise PyException ''cannot convert float infinity to integer''"
| "py_int j = raise TypeError ''int() argument must be a string or a number''"

definition decision_json :: "json \<Rightarrow> decision res" where
  "decision_json j =
     (case j of JStr s \<Rightarrow>
        (case decision_of s of Some d \<Rightarrow> Inr d | None \<Rightarrow> raise ValueError ''not a valid Decision'')
      | _ \<Rightarrow> raise ValueError ''not a valid Decision'')"

definition verdict_of :: "json \<Rightarrow> json list \<Rightarrow> string option \<Rightarrow> verdict res" where
  "verdict_of raw opinions trace =
     (if \<not> truthy (obj_get_def raw ''accepted'' (JBool False))
      then raise GatekeeperRejected (''gatekeeper rejected signed evidence: '' @
        py_str (or_else (obj_get raw ''rejection_code'') (JStr ''EVIDENCE_REJECTED'')))
      else if \<not> obj_has raw ''decision'' then raise KeyError ''decision'' else
      and_then (decision_json (obj_get raw ''decision'')) (\<lambda>d.
      and_then (py_list (or_else (obj_get raw ''rationale'') (JList []))) (\<lambda>rationale.
      and_then (py_int (obj_get_def raw ''agent_influence'' (JInt 0))) (\<lambda>influence.
      and_then (py_int (obj_get_def raw ''ignored_agent_opinions'' (JInt (int (length opinions))))) (\<lambda>ignored.
        Inr \<lparr>gv_decision = d,
             gv_rationale = rationale,
             gv_authority = py_str (or_else (obj_get raw ''authority'') (JStr ''DETERMINISTIC_GO_GATEKEEPER'')),
             gv_component = py_str (or_else (obj_get raw ''component'') (JStr ''release-sentinel-go-gatekeeper'')),
             gv_llm_present = truthy (obj_get_def raw ''llm_present'' (JBool False)),
             gv_agent_influence = influence,
             gv_ignored_agent_opinions = ignored,
             gv_transport = ''A2A_JSONRPC'',
             gv_trace_id = trace\<rparr>)))))"

definition decide_attested ::
    "environment \<Rightarrow> a2a_client \<Rightarrow> string \<Rightarrow> string \<Rightarrow> string \<Rightarrow> json \<Rightarrow> json list \<Rightarrow> verdict res" where
  "decide_attested env c release_id source policy bundle opinions =
     and_then (a2a_post env c (rpc_payload c (request_ids env) (decision_input release_id source policy bundle opinions))) (\<lambda>body.
     and_then (extract_verdict body) (\<lambda>raw.
     and_then (extract_trace_id body) (\<lambda>trace. verdict_of raw opinions trace)))"

definition attack_raw ::
    "environment \<Rightarrow> a2a_client \<Rightarrow> string \<Rightarrow> string \<Rightarrow> string \<Rightarrow> json \<Rightarrow> json list \<Rightarrow> json res" where
  "attack_raw env c release_id source policy bundle opinions =
     and_then (a2a_post env c (rpc_payload c (request_ids env) (decision_input release_id source policy bundle opinions)))
       extract_verdict"

definition remote_decide :: "string \<Rightarrow> finding list \<Rightarrow> json list \<Rightarrow> verdict res" where
  "remote_decide release_id findings opinions =
     raise RuntimeError ''remote Go gatekeeper requires a signed evidence bundle; unsigned findings are never authoritative''"

text \<open>\<open>gatekeeper_from_env\<close>: the environment variables are the arguments, absent ones empty.\<close>

datatype gatekeeper = LocalGate | RemoteGate a2a_client

definition gatekeeper_from_env :: "string \<Rightarrow> string \<Rightarrow> string \<Rightarrow> bool \<Rightarrow> gatekeeper res" where
  "gatekeeper_from_env url_var audience_var version_var require_remote =
     (let url = strip url_var in
      if url \<noteq> [] then
        let aud = (if starts_with url ''http://127.0.0.1'' \<or> starts_with url ''http://localhost'' then None
                   else Some (if audience_var = [] then url else audience_var));
            version = (if strip version_var = [] then version_legacy else strip version_var) in
        and_then (a2a_client_init url aud version) (\<lambda>c. Inr (RemoteGate c))
      else if require_remote then raise RuntimeError ''RELEASE_SENTINEL_GATEKEEPER_URL is required''
      else Inr LocalGate)"

definition gate_decide :: "gatekeeper \<Rightarrow> gate" where
  "gate_decide g = (case g of LocalGate \<Rightarrow> local_gatekeeper | RemoteGate c \<Rightarrow> remote_decide)"

section \<open>Lemmas\<close>

text \<open>A remote gate refuses unsigned findings, so both gates satisfy the engine's contract.\<close>

interpretation any_gate: deterministic_gate "gate_decide g" for g
proof (cases g)
  case LocalGate
  then show "deterministic_gate (gate_decide g)"
    using local_gate.deterministic_gate_axioms by (simp add: gate_decide_def)
next
  case (RemoteGate c)
  then show "deterministic_gate (gate_decide g)"
    by unfold_locales (simp_all add: gate_decide_def remote_decide_def)
qed

lemma a2a_client_init_Inr:
  assumes "a2a_client_init url aud version = Inr c"
  shows "\<exists>u. urlsplit (base_url c) = Inr u \<and> \<not> has_credentials u \<and> su_query u = [] \<and> su_fragment u = [] \<and>
    su_path u \<in> {'''', ''/''} \<and> audience c = aud \<and> protocol_version c \<in> {version_legacy, version_current} \<and>
    (if loopback_origin u then aud = None else cloud_origin u \<and> (\<exists>a. aud = Some a \<and> a \<noteq> [] \<and> rstrip_slash a = base_url c))"
proof -
  obtain u where u: "urlsplit (rstrip_slash url) = Inr u"
    using assms by (auto simp: a2a_client_init_def Let_def and_then_Inr)
  have rest: "\<not> has_credentials u \<and> su_query u = [] \<and> su_fragment u = [] \<and> su_path u \<in> {'''', ''/''} \<and>
      (loopback_origin u \<longrightarrow> aud = None) \<and> (loopback_origin u \<or> cloud_origin u) \<and>
      (loopback_origin u \<or> (aud \<noteq> None \<and> aud \<noteq> Some [] \<and> rstrip_slash (the aud) = rstrip_slash url)) \<and>
      version \<in> {version_legacy, version_current} \<and>
      c = \<lparr>base_url = rstrip_slash url, audience = aud, protocol_version = version\<rparr>"
    using assms unfolding a2a_client_init_def Let_def u and_then_simps
    by (simp only: raise_simps sum.inject split: if_splits) argo
  then have "base_url c = rstrip_slash url" by simp
  then show ?thesis using u rest by (intro exI[of _ u]) (cases aud; auto)
qed

lemma token_only_for_cloud_origin:
  assumes "a2a_client_init url aud version = Inr c" "authorization_header fetch c = Inr (Some h)"
  shows "\<exists>u a. urlsplit (base_url c) = Inr u \<and> cloud_origin u \<and> \<not> has_credentials u \<and> rstrip_slash a = base_url c \<and>
    (\<exists>t. fetch a = Inr t \<and> h = ''Bearer '' @ t)"
  using a2a_client_init_Inr[OF assms(1)] assms(2)
  by (auto simp: authorization_header_def and_then_Inr split: option.splits if_splits)

lemma verdict_of_Inr:
  assumes "verdict_of raw opinions trace = Inr v"
  shows "truthy (obj_get raw ''accepted'') \<and> obj_get raw ''decision'' = JStr (decision_value (gv_decision v)) \<and>
    gv_transport v = ''A2A_JSONRPC'' \<and> gv_llm_present v = truthy (obj_get raw ''llm_present'')"
proof -
  have "\<not> obj_has raw k \<Longrightarrow> obj_get raw k = JNull" for k
    by (cases raw) (auto split: option.splits dest: weak_map_of_SomeI map_of_SomeD intro: rev_image_eqI)
  then have g: "truthy (obj_get_def raw k (JBool False)) = truthy (obj_get raw k)" for k
    by (simp add: obj_get_def_def)
  show ?thesis
    using assms
    by (auto simp: verdict_of_def and_then_Inr g decision_json_def split: if_splits json.splits option.splits
        dest: decision_of_Some)
qed

lemma set_field_get: "is_obj d \<Longrightarrow> obj_get (set_field d k v) k' = (if k' = k then v else obj_get d k')"
  by (cases d) (simp_all add: set_field_def)

lemma a2a_post_Inr:
  assumes "a2a_post env c payload = Inr body"
  shows "\<exists>headers reply. transport env (base_url c @ ''/a2a'') headers payload = Inr reply \<and>
    \<not> truthy (obj_get reply ''error'') \<and> extract_verdict body = extract_verdict reply"
proof -
  obtain headers reply where t: "transport env (base_url c @ ''/a2a'') headers payload = Inr reply"
    and o: "is_obj reply" "\<not> truthy (obj_get reply ''error'')"
    and b: "body = set_field reply ''_release_sentinel_trace_id'' (opt_str (current_trace env))"
    using assms by (auto simp: a2a_post_def Let_def and_then_Inr attr_get_def split: if_splits)
  have "is_obj body" using o(1) b by (cases reply) (simp_all add: set_field_def)
  then have "extract_verdict body = extract_verdict reply"
    using o(1) b set_field_get[OF o(1)] by (simp add: extract_verdict_def attr_get_def)
  then show ?thesis using t o(2) by blast
qed

lemma decide_attested_Inr:
  assumes "decide_attested env c release_id source policy bundle opinions = Inr v"
  shows "\<exists>headers reply raw. transport env (base_url c @ ''/a2a'') headers
      (rpc_payload c (request_ids env) (decision_input release_id source policy bundle opinions)) = Inr reply \<and>
    \<not> truthy (obj_get reply ''error'') \<and> extract_verdict reply = Inr raw \<and>
    truthy (obj_get raw ''accepted'') \<and> obj_get raw ''decision'' = JStr (decision_value (gv_decision v))"
proof -
  obtain body raw trace where b: "a2a_post env c
      (rpc_payload c (request_ids env) (decision_input release_id source policy bundle opinions)) = Inr body"
    and r: "extract_verdict body = Inr raw" and v: "verdict_of raw opinions trace = Inr v"
    using assms by (auto simp: decide_attested_def and_then_Inr)
  show ?thesis using a2a_post_Inr[OF b] r verdict_of_Inr[OF v] by metis
qed

text \<open>
  Extraction reads either binding: the first data part of the first artifact that has one, with or
  without the task wrapper and the \<open>kind\<close> tag.
\<close>

lemma data_part_first:
  "list_all is_obj parts \<Longrightarrow>
   data_part parts = Inr (map_option (\<lambda>p. obj_get p ''data'')
     (List.find (\<lambda>p. obj_get p ''kind'' \<in> {JNull, JStr ''data''} \<and> is_obj (obj_get p ''data'')) parts))"
  by (induction parts) (auto simp: attr_get_def)

lemma extract_both_bindings:
  assumes "is_obj d"
  shows "extract_verdict (JObj [(''result'', JObj [(''task'', JObj [(''artifacts'',
            JList [JObj [(''parts'', JList [JObj [(''data'', d)]])]])])])]) = Inr d"
    and "extract_verdict (JObj [(''result'', JObj [(''artifacts'',
            JList [JObj [(''parts'', JList [JObj [(''kind'', JStr ''text'')], JObj [(''kind'', JStr ''data''), (''data'', d)]])]])])]) = Inr d"
  using assms by (simp_all add: extract_verdict_def attr_get_def unwrap_task_def or_else_def)

end
