(* ===== verification/Gate_Claims.thy ===== *)
theory Gate_Claims
  imports Samples Gatekeeper
begin

text \<open>
  The properties of attestation and of the remote gatekeeper: an engine report can be attested and
  its decision recomputed from the attested results; the signed digest binds source, policy and
  findings; identity tokens only leave for the configured Cloud Run origin; a remote verdict comes
  from an accepted artifact of the reply.
\<close>

section \<open>Attestation\<close>

definition demo_digest :: string where
  "demo_digest = replicate 64 CHR ''a''"

lemma demo_digest_len: "py_len demo_digest = 64"
  by code_simp

text \<open>Property C18. Every report of the engine can be attested for any source digest and a lifetime of 30 to 900
  seconds, and the decision of the report can be recomputed from the attested results alone:
  severity and blocking eligibility of each result are enough.\<close>

theorem attested_results_carry_decision:
  assumes "evaluate execute advisor local_gatekeeper entries stamp request policy = Inr rep"
    and "py_len src = 64" "30 \<le> ttl" "ttl \<le> 900"
  shows "\<exists>b. build_evidence_bundle rep src now ttl ex nonce clock fresh = Inr b \<and>
    eb_source_sha256 b = src \<and> eb_policy_sha256 b = rp_sha256 policy \<and> eb_expires_at b = eb_issued_at b + ttl \<and>
    rr_decision rep =
      (if \<exists>r\<in>set (eb_results b). blocking_result {HIGH, CRITICAL} r then NO_GO
       else if \<exists>r\<in>set (eb_results b). blocking_result {MEDIUM} r then CONDITIONAL_GO else GO)"
proof -
  obtain b where b: "build_evidence_bundle rep src now ttl ex nonce clock fresh = Inr b"
    using bundle_of_engine_report[OF assms] unfolding ok_iff by blast
  have d: "rr_decision rep = spec_decision (rr_findings rep)" and p: "rr_policy_sha256 rep = rp_sha256 policy"
    using evaluate_Inr[OF assms(1)] by (auto dest: local_gate.decide_spec)
  have "blocking_result {MEDIUM, HIGH, CRITICAL} r \<longleftrightarrow> blocking_result {HIGH, CRITICAL} r \<or> blocking_result {MEDIUM} r" for r
    by (auto simp: blocking_result_def)
  then have "spec_decision (rr_findings rep) =
      (if \<exists>r\<in>set (eb_results b). blocking_result {HIGH, CRITICAL} r then NO_GO
       else if \<exists>r\<in>set (eb_results b). blocking_result {MEDIUM} r then CONDITIONAL_GO else GO)"
    using bundle_decision[OF b] by (cases "spec_decision (rr_findings rep)") auto
  then show ?thesis using b build_bundle_Inr(3,6,8)[OF b] d p by auto
qed

theorem attested_results_carry_decision_witness:
  "\<exists>rep b. evaluate demo_executor None local_gatekeeper [] (''id'', ''now'') demo_request demo_policy = Inr rep \<and>
     build_evidence_bundle rep demo_digest None 300 None None 7 (''e'', ''n'') = Inr b \<and>
     rr_decision rep = NO_GO \<and> (\<exists>r\<in>set (eb_results b). blocking_result {HIGH, CRITICAL} r)"
proof -
  obtain rep where r: "evaluate demo_executor None local_gatekeeper [] (''id'', ''now'') demo_request demo_policy = Inr rep"
    "rr_decision rep = NO_GO"
    using demo_evaluate[OF demo_advisories(1,3)] by blast
  from attested_results_carry_decision[OF r(1) demo_digest_len, of 300 None None None 7 "(''e'', ''n'')"]
  show ?thesis using r by (auto split: if_splits)
qed

text \<open>Property C19. The digest that is signed with an evidence bundle binds what it attests: two signed bundles
  with the same digest are about the same source, the same policy and the same findings (up to
  order), unless SHA-256 collides on two of the attested texts; the signature plays no part in it.\<close>

theorem signed_digest_binds_attestation:
  assumes "build_evidence_bundle r src now ttl ex nonce clock fresh = Inr b"
    and "build_evidence_bundle r' src' now' ttl' ex' nonce' clock' fresh' = Inr b'"
    and "sign_evidence_bundle sign b = Inr s" "sign_evidence_bundle sign' b' = Inr s'"
    and "sb_bundle_sha256 s = sb_bundle_sha256 s'"
    and "list_all wf_finding (rr_findings r)" "list_all wf_finding (rr_findings r')"
  shows "(src = src' \<and> rr_policy_sha256 r = rr_policy_sha256 r' \<and>
      mset (map finding_norm (rr_findings r)) = mset (map finding_norm (rr_findings r'))) \<or> collision_among (attested_texts r b \<union> attested_texts r' b')"
  by (rule signed_bundle_binding[OF assms])

theorem signed_digest_binds_attestation_witness:
  "\<exists>rep b s. evaluate demo_executor None local_gatekeeper [] (''id'', ''now'') demo_request demo_policy = Inr rep \<and>
     build_evidence_bundle rep demo_digest None 300 None None 7 (''e'', ''n'') = Inr b \<and>
     sign_evidence_bundle (\<lambda>x. Inr (x, ''k'')) b = Inr s \<and>
     (demo_digest = demo_digest \<and> rr_policy_sha256 rep = rr_policy_sha256 rep \<or> collision_among (attested_texts rep b))"
proof -
  obtain rep where r: "evaluate demo_executor None local_gatekeeper [] (''id'', ''now'') demo_request demo_policy = Inr rep"
    "rr_findings rep = [demo_finding]"
    using demo_evaluate[OF demo_advisories(1,3)] by blast
  have wf: "list_all wf_finding (rr_findings rep)" using r(2) demo_finding_wf by simp
  obtain b where b: "build_evidence_bundle rep demo_digest None 300 None None 7 (''e'', ''n'') = Inr b"
    using bundle_of_engine_report[OF r(1) demo_digest_len, of 300 None None None 7 "(''e'', ''n'')"] unfolding ok_iff by auto
  obtain s where s: "sign_evidence_bundle (\<lambda>x. Inr (x, ''k'')) b = Inr s"
    by (simp add: sign_evidence_bundle_def Let_def)
  from signed_digest_binds_attestation[OF b b s s refl wf wf] show ?thesis using r(1) b s by auto
qed

section \<open>The remote gatekeeper\<close>

text \<open>An identity token is only requested for, and only sent to, the configured Cloud Run origin: a
  client that was constructed and attaches an Authorization header has an https origin below
  run.app without credentials, and asked for a token whose audience is that origin.\<close>

lemma token_stays_with_cloud_origin:
  assumes "a2a_client_init url aud version = Inr c" "authorization_header fetch c = Inr (Some h)"
  shows "\<exists>u a. urlsplit (base_url c) = Inr u \<and> cloud_origin u \<and> \<not> has_credentials u \<and> rstrip_slash a = base_url c \<and>
    (\<exists>t. fetch a = Inr t \<and> h = ''Bearer '' @ t)"
  by (rule token_only_for_cloud_origin[OF assms])

definition demo_client :: a2a_client where
  "demo_client = \<lparr>base_url = ''https://gate-x.run.app'', audience = Some ''https://gate-x.run.app'',
     protocol_version = ''1.0''\<rparr>"

lemma token_stays_with_cloud_origin_instance:
  "\<exists>u. urlsplit (base_url demo_client) = Inr u \<and> cloud_origin u"
proof -
  have c: "a2a_client_init ''https://gate-x.run.app/'' (Some ''https://gate-x.run.app'') ''1.0'' = Inr demo_client"
    by code_simp
  have h: "authorization_header (\<lambda>a. Inr ''t'') demo_client = Inr (Some ''Bearer t'')" by code_simp
  from token_stays_with_cloud_origin[OF c h] show ?thesis by blast
qed

text \<open>A remote verdict is read from an accepted artifact of the gatekeeper's reply to exactly this
  request: the reply reports no error, its first data part is marked accepted, and the decision is
  the one it names.\<close>

lemma remote_verdict_was_accepted:
  assumes "decide_attested env c release_id source policy bundle opinions = Inr v"
  shows "\<exists>headers reply raw. transport env (base_url c @ ''/a2a'') headers
      (rpc_payload c (request_ids env) (decision_input release_id source policy bundle opinions)) = Inr reply \<and>
    \<not> truthy (obj_get reply ''error'') \<and> extract_verdict reply = Inr raw \<and>
    truthy (obj_get raw ''accepted'') \<and> obj_get raw ''decision'' = JStr (decision_value (gv_decision v))"
  by (rule decide_attested_Inr[OF assms])

definition demo_reply :: json where
  "demo_reply = JObj [(''result'', JObj [(''task'', JObj [(''artifacts'', JList [JObj [(''parts'', JList [JObj
     [(''data'', JObj [(''accepted'', JBool True), (''decision'', JStr ''GO'')])]])]])])])]"

definition demo_environment :: environment where
  "demo_environment = \<lparr>transport = (\<lambda>u h p. Inr demo_reply), fetch_id_token = (\<lambda>a. Inr ''t''),
     trace_headers = [], current_trace = None, request_ids = (''a'', ''b'')\<rparr>"

lemma remote_verdict_was_accepted_instance:
  "\<exists>v raw. decide_attested demo_environment demo_client ''r'' demo_digest demo_digest JNull [] = Inr v \<and>
     extract_verdict demo_reply = Inr raw \<and> obj_get raw ''decision'' = JStr (decision_value (gv_decision v))"
proof -
  obtain v where v: "decide_attested demo_environment demo_client ''r'' demo_digest demo_digest JNull [] = Inr v"
  proof -
    have "ok (decide_attested demo_environment demo_client ''r'' demo_digest demo_digest JNull [])" by code_simp
    then show ?thesis using that unfolding ok_iff by blast
  qed
  from remote_verdict_was_accepted[OF v] v show ?thesis by (auto simp: demo_environment_def)
qed

end
