(* ===== verification/Signing.thy ===== *)
theory Signing
  imports Engine
begin

text \<open>
  coverage/models.py and coverage/signing.py: the measurement context and its identifier, signature
  envelopes, \<open>sign_json\<close> and \<open>verify_json\<close>, and the HMAC authority.  The locale
  \<open>signature_scheme\<close> states what a signer and its verifier promise each other; the envelope lemmas are
  proved from it, and the HMAC authority is proved to keep it.
\<close>

section \<open>Models\<close>

datatype oracle_verdict = SAFE | UNSAFE
datatype candidate_validity = VALID | INVALID
datatype classification = CORRECT_ACCEPT | ESCAPE | OVERBLOCK | CORRECT_BLOCK | INVALID_CANDIDATE

fun verdict_value :: "oracle_verdict \<Rightarrow> string" where
  "verdict_value SAFE = ''SAFE''"
| "verdict_value UNSAFE = ''UNSAFE''"

fun validity_value :: "candidate_validity \<Rightarrow> string" where
  "validity_value VALID = ''VALID''"
| "validity_value INVALID = ''INVALID''"

fun classification_value :: "classification \<Rightarrow> string" where
  "classification_value CORRECT_ACCEPT = ''CORRECT_ACCEPT''"
| "classification_value ESCAPE = ''ESCAPE''"
| "classification_value OVERBLOCK = ''OVERBLOCK''"
| "classification_value CORRECT_BLOCK = ''CORRECT_BLOCK''"
| "classification_value INVALID_CANDIDATE = ''INVALID_CANDIDATE''"

lemma verdict_value_inj [simp]: "verdict_value a = verdict_value b \<longleftrightarrow> a = b"
  by (cases a; cases b) simp_all

record measurement_context =
  challenge_sha256 :: string
  fixture_sha256 :: string
  candidate_sha256 :: string
  policy_sha256 :: string
  benchmark_manifest_sha256 :: string
  oracle_digest :: string
  gatekeeper_digest :: string
  runner_digest :: string
  run_nonce :: string

definition context_to_dict :: "measurement_context \<Rightarrow> json" where
  "context_to_dict c = JObj
    [(''challenge_sha256'', JStr (challenge_sha256 c)),
     (''fixture_sha256'', JStr (fixture_sha256 c)),
     (''candidate_sha256'', JStr (candidate_sha256 c)),
     (''policy_sha256'', JStr (policy_sha256 c)),
     (''benchmark_manifest_sha256'', JStr (benchmark_manifest_sha256 c)),
     (''oracle_digest'', JStr (oracle_digest c)),
     (''gatekeeper_digest'', JStr (gatekeeper_digest c)),
     (''runner_digest'', JStr (runner_digest c)),
     (''run_nonce'', JStr (run_nonce c))]"

definition context_sha256 :: "measurement_context \<Rightarrow> string" where
  "context_sha256 c = sha256_json (context_to_dict c)"

definition measurement_id :: "measurement_context \<Rightarrow> string" where
  "measurement_id c = ''cov-'' @ context_sha256 c"

lemma context_sha256_inj:
  assumes "context_sha256 c = context_sha256 d"
  shows "c = d \<or> sha_collision (canonical_json (context_to_dict c)) (canonical_json (context_to_dict d))"
proof -
  have "norm (context_to_dict c) = norm (context_to_dict d) \<Longrightarrow> c = d"
    unfolding context_to_dict_def by (subst (asm) norm_obj_inj) (simp_all add: measurement_context.equality)
  then show ?thesis
    using sha256_json_inj[of "context_to_dict c" "context_to_dict d"] assms
    by (auto simp: context_sha256_def context_to_dict_def)
qed

lemma measurement_id_inj: "measurement_id c = measurement_id d \<longleftrightarrow> context_sha256 c = context_sha256 d"
  by (simp add: measurement_id_def)

section \<open>Envelopes\<close>

record signature_envelope =
  payload_sha256 :: string
  signature_b64 :: string
  env_key_id :: string
  env_algorithm :: string

definition envelope_to_dict :: "signature_envelope \<Rightarrow> json" where
  "envelope_to_dict e = JObj
    [(''payload_sha256'', JStr (payload_sha256 e)),
     (''signature_b64'', JStr (signature_b64 e)),
     (''key_id'', JStr (env_key_id e)),
     (''algorithm'', JStr (env_algorithm e))]"

record signer =
  sg_key_id :: string
  sg_algorithm :: string
  sg_sign :: "bytes \<Rightarrow> bytes res"

text \<open>\<open>verify payload signature key_id algorithm\<close>; a verifier that runs a process may raise.\<close>

type_synonym verifier = "bytes \<Rightarrow> bytes \<Rightarrow> string \<Rightarrow> string \<Rightarrow> bool res"

definition sign_json :: "json \<Rightarrow> signer \<Rightarrow> signature_envelope res" where
  "sign_json payload s =
     (let raw = canonical_json payload in
      and_then (sg_sign s raw) (\<lambda>signature.
        Inr \<lparr>payload_sha256 = sha256_hex raw, signature_b64 = b64encode signature,
             env_key_id = sg_key_id s, env_algorithm = sg_algorithm s\<rparr>))"

text \<open>\<open>hmac.compare_digest\<close> on two \<open>str\<close> values needs ASCII.\<close>

definition ascii :: "string \<Rightarrow> bool" where
  "ascii s \<longleftrightarrow> list_all (\<lambda>c. (of_char c :: nat) < 128) s"

definition compare_digest :: "string \<Rightarrow> string \<Rightarrow> bool res" where
  "compare_digest a b =
     (if ascii a \<and> ascii b then Inr (a = b)
      else raise TypeError ''comparing strings with non-ASCII characters is not supported'')"

definition verify_json :: "json \<Rightarrow> signature_envelope \<Rightarrow> verifier \<Rightarrow> bool res" where
  "verify_json payload e verify =
     (let raw = canonical_json payload in
      and_then (compare_digest (sha256_hex raw) (payload_sha256 e)) (\<lambda>same.
        if \<not> same then Inr False else
        case b64decode (signature_b64 e) of
          None \<Rightarrow> Inr False
        | Some signature \<Rightarrow> verify raw signature (env_key_id e) (env_algorithm e)))"

section \<open>The HMAC authority\<close>

definition hmac_algorithm :: string where
  "hmac_algorithm = ''HMAC_SHA256_TEST_ONLY''"

definition hmac_signer :: "bytes \<Rightarrow> string \<Rightarrow> signer res" where
  "hmac_signer secret key =
     (if secret = [] then raise ValueError ''HMAC test secret must be non-empty''
      else if key = [] then raise ValueError ''key_id must be non-empty''
      else Inr \<lparr>sg_key_id = key, sg_algorithm = hmac_algorithm, sg_sign = (\<lambda>payload. Inr (hmac_sha256 secret payload))\<rparr>)"

definition hmac_verify :: "bytes \<Rightarrow> string \<Rightarrow> verifier" where
  "hmac_verify secret key payload signature key' alg =
     (if key' \<noteq> key \<or> alg \<noteq> hmac_algorithm then Inr False else Inr (hmac_sha256 secret payload = signature))"

text \<open>
  The Cloud KMS signer and its verifier: \<open>asymmetric_sign\<close> is the KMS call on a digest, and
  \<open>openssl\<close> the verification process with the public key; both are parameters.
\<close>

definition kms_algorithm :: string where
  "kms_algorithm = ''EC_SIGN_P256_SHA256''"

definition kms_signer :: "(string \<Rightarrow> bytes \<Rightarrow> bytes res) \<Rightarrow> string \<Rightarrow> signer" where
  "kms_signer asymmetric_sign key =
     \<lparr>sg_key_id = key, sg_algorithm = kms_algorithm, sg_sign = (\<lambda>payload. asymmetric_sign key (sha256 payload))\<rparr>"

definition openssl_verifier :: "(string \<Rightarrow> bytes \<Rightarrow> bytes \<Rightarrow> bool res) \<Rightarrow> string \<Rightarrow> string \<Rightarrow> string \<Rightarrow> verifier res" where
  "openssl_verifier openssl pem key alg =
     (if \<not> contains ''BEGIN PUBLIC KEY'' pem then raise ValueError ''public_key_pem must contain a PEM public key''
      else Inr (\<lambda>payload signature key' alg'.
        if key' \<noteq> key \<or> alg' \<noteq> alg then Inr False else openssl pem signature payload))"

section \<open>The contract of a signature scheme\<close>

text \<open>
  Whatever the signer signs, its verifier accepts under the signer's key name and algorithm; and the
  verifier accepts under no other key name or algorithm.
\<close>

locale signature_scheme =
  fixes s :: signer and verify :: verifier
  assumes complete: "sg_sign s p = Inr sig \<Longrightarrow> verify p sig (sg_key_id s) (sg_algorithm s) = Inr True"
    and pinned: "verify p sig k a = Inr True \<Longrightarrow> k = sg_key_id s \<and> a = sg_algorithm s"
begin

lemma sign_json_verifies:
  assumes "sign_json payload s = Inr e"
  shows "verify_json payload e verify = Inr True"
proof -
  have "is_hex c \<Longrightarrow> (of_char c :: nat) < 128" for c by (auto simp: is_hex_def)
  then have hex: "ascii (sha256_hex x)" for x
    using sha256_hex_chars[of _ x] by (simp add: ascii_def list_all_iff)
  from assms obtain sig where sig: "sg_sign s (canonical_json payload) = Inr sig"
    and e: "e = \<lparr>payload_sha256 = sha256_hex (canonical_json payload), signature_b64 = b64encode sig,
             env_key_id = sg_key_id s, env_algorithm = sg_algorithm s\<rparr>"
    by (auto simp: sign_json_def Let_def and_then_Inr)
  show ?thesis
    using complete[OF sig] hex by (simp add: verify_json_def e compare_digest_def)
qed

lemma verified_key: "verify_json payload e verify = Inr True \<Longrightarrow> env_key_id e = sg_key_id s \<and> env_algorithm e = sg_algorithm s"
  using pinned by (auto simp: verify_json_def Let_def and_then_Inr split: if_splits option.splits)

end

lemma verify_json_payload:
  "verify_json payload e verify = Inr True \<Longrightarrow> payload_sha256 e = sha256_json payload"
  by (auto simp: verify_json_def Let_def and_then_Inr compare_digest_def sha256_json_def split: if_splits)

text \<open>One envelope does not verify for two payloads.\<close>

lemma envelope_binding:
  assumes "verify_json p e verify = Inr True" "verify_json q e verify' = Inr True" "wf_json p" "wf_json q"
  shows "norm p = norm q \<or> sha_collision (canonical_json p) (canonical_json q)"
  using sha256_json_inj[OF assms(3,4)] verify_json_payload[OF assms(1)] verify_json_payload[OF assms(2)] by simp

interpretation hmac_scheme: signature_scheme
    "\<lparr>sg_key_id = key, sg_algorithm = hmac_algorithm, sg_sign = (\<lambda>payload. Inr (hmac_sha256 secret payload))\<rparr>"
    "hmac_verify secret key" for secret key
  by unfold_locales (auto simp: hmac_verify_def split: if_splits)

text \<open>
  The production pair keeps the contract when \<open>openssl\<close> accepts the signatures that KMS makes for
  the key behind the PEM text.
\<close>

lemma kms_openssl_scheme:
  assumes "openssl_verifier openssl pem key kms_algorithm = Inr verify"
    and "\<And>p sig. asymmetric_sign key (sha256 p) = Inr sig \<Longrightarrow> openssl pem sig p = Inr True"
  shows "signature_scheme (kms_signer asymmetric_sign key) verify"
  using assms by unfold_locales (auto simp: openssl_verifier_def kms_signer_def split: if_splits)

end
