(* ===== verification/Oracle.thy ===== *)
theory Oracle
  imports Signing
begin

text \<open>
  coverage/oracle.py: the reference oracle for tenant isolation.  A candidate is a function from the
  two tenants to a Python value, or an exception; the oracle calls it on its vectors, takes the truth
  value and compares it with what each vector expects.  The part the two oracles share (theory
  Path_Oracle is the other) is \<open>evaluate_vectors\<close>, with its lemmas in the locale \<open>vector_oracle\<close>.
\<close>

section \<open>Evaluations\<close>

record oracle_failure =
  of_vector_id :: string
  of_category :: string
  of_expected :: bool
  of_actual :: "bool option"
  of_error :: "string option"

record oracle_evaluation =
  oe_verdict :: oracle_verdict
  total_vectors :: nat
  passed_vectors :: nat
  failed_vectors :: "oracle_failure list"

definition opt_bool :: "bool option \<Rightarrow> json" where
  "opt_bool b = (case b of None \<Rightarrow> JNull | Some x \<Rightarrow> JBool x)"

definition failure_to_dict :: "oracle_failure \<Rightarrow> json" where
  "failure_to_dict f = JObj
    [(''vector_id'', JStr (of_vector_id f)),
     (''category'', JStr (of_category f)),
     (''expected'', JBool (of_expected f)),
     (''actual'', opt_bool (of_actual f)),
     (''error'', opt_str (of_error f))]"

definition evaluation_to_dict :: "oracle_evaluation \<Rightarrow> json" where
  "evaluation_to_dict e = JObj
    [(''verdict'', JStr (verdict_value (oe_verdict e))),
     (''total_vectors'', JInt (int (total_vectors e))),
     (''passed_vectors'', JInt (int (passed_vectors e))),
     (''failed_vectors'', JList (map failure_to_dict (failed_vectors e)))]"

record qualification =
  q_passed :: bool
  fixed_verdict :: oracle_verdict
  vulnerable_verdict :: oracle_verdict
  mutation_killed :: nat
  mutation_survived :: nat
  mutation_total :: nat
  manifest_sha256 :: string
  selftest_sha256 :: string

definition qualification_to_dict :: "qualification \<Rightarrow> json" where
  "qualification_to_dict q = JObj
    [(''passed'', JBool (q_passed q)),
     (''fixed_verdict'', JStr (verdict_value (fixed_verdict q))),
     (''vulnerable_verdict'', JStr (verdict_value (vulnerable_verdict q))),
     (''mutation_killed'', JInt (int (mutation_killed q))),
     (''mutation_survived'', JInt (int (mutation_survived q))),
     (''mutation_total'', JInt (int (mutation_total q))),
     (''manifest_sha256'', JStr (manifest_sha256 q)),
     (''selftest_sha256'', JStr (selftest_sha256 q))]"

text \<open>
  One vector: an exception of class \<open>Exception\<close> or below is a failure with no actual value; any
  other one (an interpreter exit) ends the evaluation.
\<close>

definition check_vector ::
    "('v \<Rightarrow> json res) \<Rightarrow> ('v \<Rightarrow> string) \<Rightarrow> ('v \<Rightarrow> string) \<Rightarrow> ('v \<Rightarrow> bool) \<Rightarrow> 'v \<Rightarrow> oracle_failure option res" where
  "check_vector call vid category expected v =
    (let failure = (\<lambda>actual err. Inr (Some
           \<lparr>of_vector_id = vid v, of_category = category v, of_expected = expected v,
            of_actual = actual, of_error = err\<rparr>)) in
     case call v of
       Inr x \<Rightarrow> if truthy x \<noteq> expected v then failure (Some (truthy x)) None else Inr None
     | Inl e \<Rightarrow>
         if catches PyException e then failure None (Some (class_name (fst e) @ '': '' @ snd e)) else Inl e)"

fun vector_failures ::
    "('v \<Rightarrow> json res) \<Rightarrow> ('v \<Rightarrow> string) \<Rightarrow> ('v \<Rightarrow> string) \<Rightarrow> ('v \<Rightarrow> bool) \<Rightarrow> 'v list \<Rightarrow> oracle_failure list res" where
  "vector_failures call vid category expected [] = Inr []"
| "vector_failures call vid category expected (v # vs) =
     and_then (check_vector call vid category expected v) (\<lambda>f.
     and_then (vector_failures call vid category expected vs) (\<lambda>fs.
       Inr (case f of None \<Rightarrow> fs | Some x \<Rightarrow> x # fs)))"

definition evaluate_vectors ::
    "('v \<Rightarrow> json res) \<Rightarrow> ('v \<Rightarrow> string) \<Rightarrow> ('v \<Rightarrow> string) \<Rightarrow> ('v \<Rightarrow> bool) \<Rightarrow> 'v list \<Rightarrow> oracle_evaluation res" where
  "evaluate_vectors call vid category expected vs =
     and_then (vector_failures call vid category expected vs) (\<lambda>failures.
       Inr \<lparr>oe_verdict = (if failures = [] then SAFE else UNSAFE),
            total_vectors = length vs,
            passed_vectors = length vs - length failures,
            failed_vectors = failures\<rparr>)"

text \<open>A call meets a vector when it returns and the truth value of its answer is the expected one.\<close>

definition meets :: "('v \<Rightarrow> json res) \<Rightarrow> ('v \<Rightarrow> bool) \<Rightarrow> 'v \<Rightarrow> bool" where
  "meets call expected v \<longleftrightarrow> (case call v of Inr x \<Rightarrow> truthy x = expected v | Inl e \<Rightarrow> False)"

lemma check_vector_meets:
  "check_vector call vid category expected v = Inr f \<Longrightarrow> f = None \<longleftrightarrow> meets call expected v"
  by (auto simp: check_vector_def meets_def Let_def split: sum.splits if_splits)

lemma check_vector_id:
  "check_vector call vid category expected v = Inr (Some x) \<Longrightarrow> of_vector_id x = vid v"
  by (auto simp: check_vector_def Let_def split: sum.splits if_splits)

lemma vector_failures_ids:
  "vector_failures call vid category expected vs = Inr fs \<Longrightarrow>
   map of_vector_id fs = map vid (filter (\<lambda>v. \<not> meets call expected v) vs)"
proof (induction vs arbitrary: fs)
  case (Cons v vs)
  then obtain f gs where f: "check_vector call vid category expected v = Inr f"
    and gs: "vector_failures call vid category expected vs = Inr gs"
    and fs: "fs = (case f of None \<Rightarrow> gs | Some x \<Rightarrow> x # gs)"
    by (auto simp: and_then_Inr)
  show ?case
    using fs Cons.IH[OF gs] check_vector_meets[OF f] check_vector_id[of call vid category expected v] f
    by (cases f) simp_all
qed simp

lemma evaluate_vectors_Inr:
  assumes "evaluate_vectors call vid category expected vs = Inr e"
  shows "oe_verdict e = (if \<forall>v\<in>set vs. meets call expected v then SAFE else UNSAFE)"
    and "total_vectors e = length vs"
    and "passed_vectors e + length (failed_vectors e) = total_vectors e"
    and "map of_vector_id (failed_vectors e) = map vid (filter (\<lambda>v. \<not> meets call expected v) vs)"
proof -
  obtain fs where fs: "vector_failures call vid category expected vs = Inr fs"
    and e: "e = \<lparr>oe_verdict = (if fs = [] then SAFE else UNSAFE), total_vectors = length vs,
            passed_vectors = length vs - length fs, failed_vectors = fs\<rparr>"
    using assms by (auto simp: evaluate_vectors_def and_then_Inr)
  note ids = vector_failures_ids[OF fs]
  have "fs = [] \<longleftrightarrow> (\<forall>v\<in>set vs. meets call expected v)"
    using arg_cong[OF ids, of length] by (auto simp: filter_empty_conv)
  moreover have "length fs \<le> length vs"
    using arg_cong[OF ids, of length] by simp
  ultimately show "oe_verdict e = (if \<forall>v\<in>set vs. meets call expected v then SAFE else UNSAFE)"
    "total_vectors e = length vs" "passed_vectors e + length (failed_vectors e) = total_vectors e"
    "map of_vector_id (failed_vectors e) = map vid (filter (\<lambda>v. \<not> meets call expected v) vs)"
    using ids e by auto
qed

text \<open>An evaluation only fails to return when the candidate exits the interpreter.\<close>

definition only_exceptions :: "('v \<Rightarrow> json res) \<Rightarrow> 'v list \<Rightarrow> bool" where
  "only_exceptions call vs \<longleftrightarrow> list_all (\<lambda>v. case call v of Inl e \<Rightarrow> catches PyException e | Inr x \<Rightarrow> True) vs"

lemma evaluate_vectors_ok: "only_exceptions call vs \<Longrightarrow> ok (evaluate_vectors call vid category expected vs)"
proof -
  assume "only_exceptions call vs"
  then have "ok (vector_failures call vid category expected vs)"
    by (induction vs) (auto simp: only_exceptions_def check_vector_def Let_def ok_iff and_then_Inr split: sum.splits)
  then show ?thesis by (auto simp: evaluate_vectors_def ok_iff)
qed

section \<open>The cross-tenant oracle\<close>

record oracle_vector =
  ov_vector_id :: string
  requester_tenant :: json
  resource_tenant :: json
  ov_expected :: bool
  ov_category :: string

definition tenant_vector :: "string \<Rightarrow> json \<Rightarrow> json \<Rightarrow> bool \<Rightarrow> string \<Rightarrow> oracle_vector" where
  "tenant_vector i a b x c =
     \<lparr>ov_vector_id = i, requester_tenant = a, resource_tenant = b, ov_expected = x, ov_category = c\<rparr>"

definition composed :: string where
  "composed = [CHR 0xC3, CHR 0xA9] @ ''quipe''"
definition decomposed :: string where
  "decomposed = ''e'' @ [CHR 0xCC, CHR 0x81] @ ''quipe''"
definition cyrillic_a :: string where
  "cyrillic_a = ''tenant-'' @ [CHR 0xD0, CHR 0xB0]"
definition musteri :: string where
  "musteri = ''m'' @ [CHR 0xC3, CHR 0xBC, CHR 0xC5, CHR 0x9F] @ ''teri-1''"

definition tenant_vectors :: "oracle_vector list" where
  "tenant_vectors =
    [tenant_vector ''same-basic'' (JStr ''tenant-a'') (JStr ''tenant-a'') True ''same_tenant'',
     tenant_vector ''same-uppercase'' (JStr ''TENANT-A'') (JStr ''TENANT-A'') True ''same_tenant'',
     tenant_vector ''same-unicode'' (JStr musteri) (JStr musteri) True ''same_tenant'',
     tenant_vector ''cross-basic'' (JStr ''tenant-a'') (JStr ''tenant-b'') False ''cross_tenant'',
     tenant_vector ''prefix'' (JStr ''tenant-a'') (JStr ''tenant-a-prod'') False ''prefix_distinct'',
     tenant_vector ''suffix'' (JStr ''prod-tenant-a'') (JStr ''tenant-a'') False ''suffix_distinct'',
     tenant_vector ''case'' (JStr ''tenant-a'') (JStr ''TENANT-A'') False ''case_distinct'',
     tenant_vector ''leading-space'' (JStr ''tenant-a'') (JStr '' tenant-a'') False ''whitespace_distinct'',
     tenant_vector ''trailing-space'' (JStr ''tenant-a'') (JStr ''tenant-a '') False ''whitespace_distinct'',
     tenant_vector ''unicode-normalization'' (JStr composed) (JStr decomposed) False ''unicode_distinct'',
     tenant_vector ''unicode-confusable'' (JStr ''tenant-a'') (JStr cyrillic_a) False ''unicode_distinct'',
     tenant_vector ''empty-empty'' (JStr '''') (JStr '''') False ''malformed'',
     tenant_vector ''empty-left'' (JStr '''') (JStr ''tenant-a'') False ''malformed'',
     tenant_vector ''none-none'' JNull JNull False ''malformed'',
     tenant_vector ''non-string'' (JInt 7) (JInt 7) False ''malformed'']"

type_synonym tenant_candidate = "json \<Rightarrow> json \<Rightarrow> json res"

definition vector_to_dict :: "oracle_vector \<Rightarrow> json" where
  "vector_to_dict v = JObj
    [(''vector_id'', JStr (ov_vector_id v)),
     (''requester_tenant'', requester_tenant v),
     (''resource_tenant'', resource_tenant v),
     (''expected'', JBool (ov_expected v)),
     (''category'', JStr (ov_category v))]"

definition tenant_mutant_names :: "string list" where
  "tenant_mutant_names =
     [''allow_all'', ''deny_all'', ''casefold_equality'', ''permit_empty_equality'', ''prefix_equality'']"

definition tenant_manifest :: json where
  "tenant_manifest = JObj
    [(''schema'', JStr ''release-sentinel.oracle-qualification.v1''),
     (''oracle_revision'', JStr ''cross-tenant-oracle-v1''),
     (''vectors'', JList (map vector_to_dict tenant_vectors)),
     (''mutants'', JList (map JStr tenant_mutant_names))]"

definition tenant_evaluate :: "tenant_candidate \<Rightarrow> oracle_evaluation res" where
  "tenant_evaluate can_read =
     evaluate_vectors (\<lambda>v. can_read (requester_tenant v) (resource_tenant v))
       ov_vector_id ov_category ov_expected tenant_vectors"

text \<open>The reference: \<open>_strict_identity_expected\<close>.\<close>

fun strict_identity :: "json \<Rightarrow> json \<Rightarrow> bool" where
  "strict_identity (JStr a) (JStr b) = (a \<noteq> [] \<and> b \<noteq> [] \<and> a = b)"
| "strict_identity _ _ = False"

text \<open>The five mutants; \<open>str.casefold\<close> is exact on ASCII and keeps the lower-case letters used here.\<close>

fun both_strings :: "(string \<Rightarrow> string \<Rightarrow> bool) \<Rightarrow> json \<Rightarrow> json \<Rightarrow> bool" where
  "both_strings f (JStr a) (JStr b) = (a \<noteq> [] \<and> b \<noteq> [] \<and> f a b)"
| "both_strings f _ _ = False"

definition tenant_mutants :: "(json \<Rightarrow> json \<Rightarrow> bool) list" where
  "tenant_mutants =
    [(\<lambda>_ _. True),
     (\<lambda>_ _. False),
     both_strings (\<lambda>a b. map ascii_lower a = map ascii_lower b),
     (\<lambda>a b. a = b),
     both_strings (\<lambda>a b. starts_with a b \<or> starts_with b a)]"

definition tenant_mutation_results :: "nat \<times> nat" where
  "tenant_mutation_results =
     (let survived = (\<lambda>m. list_all (\<lambda>v. m (requester_tenant v) (resource_tenant v) = ov_expected v) tenant_vectors);
          killed = length (filter (\<lambda>m. \<not> survived m) tenant_mutants) in
      (killed, length tenant_mutants - killed))"

text \<open>The self-test that \<open>qualify\<close> of both oracles builds from its parts.\<close>

definition selftest_payload :: "string \<Rightarrow> oracle_evaluation \<Rightarrow> oracle_evaluation \<Rightarrow> nat \<Rightarrow> nat \<Rightarrow> bool \<Rightarrow> json" where
  "selftest_payload manifest fixed vulnerable killed survived p = JObj
    [(''manifest_sha256'', JStr manifest),
     (''fixed'', evaluation_to_dict fixed),
     (''vulnerable'', evaluation_to_dict vulnerable),
     (''mutation_killed'', JInt (int killed)),
     (''mutation_survived'', JInt (int survived)),
     (''passed'', JBool p)]"

definition qualify_with ::
    "('c \<Rightarrow> oracle_evaluation res) \<Rightarrow> nat \<times> nat \<Rightarrow> json \<Rightarrow> 'c \<Rightarrow> 'c \<Rightarrow> qualification res" where
  "qualify_with evaluate_callable mutation_results manifest fixed_callable vulnerable_callable =
     and_then (evaluate_callable fixed_callable) (\<lambda>fixed.
     and_then (evaluate_callable vulnerable_callable) (\<lambda>vulnerable.
       let (killed, survived) = mutation_results;
           p = (oe_verdict fixed = SAFE \<and> oe_verdict vulnerable = UNSAFE \<and> survived = 0);
           m = sha256_json manifest in
       Inr \<lparr>q_passed = p, fixed_verdict = oe_verdict fixed, vulnerable_verdict = oe_verdict vulnerable,
            mutation_killed = killed, mutation_survived = survived, mutation_total = killed + survived,
            manifest_sha256 = m,
            selftest_sha256 = sha256_json (selftest_payload m fixed vulnerable killed survived p)\<rparr>))"

definition tenant_qualify :: "tenant_candidate \<Rightarrow> tenant_candidate \<Rightarrow> qualification res" where
  "tenant_qualify = qualify_with tenant_evaluate tenant_mutation_results tenant_manifest"

section \<open>The contract of an oracle\<close>

text \<open>
  What the protocol and the benchmarks use of an oracle: a reference that meets every vector, and
  mutants none of which does.
\<close>

locale vector_oracle =
  fixes vectors :: "'v list"
    and apply_to :: "'c \<Rightarrow> 'v \<Rightarrow> json res"
    and vid category :: "'v \<Rightarrow> string"
    and expected :: "'v \<Rightarrow> bool"
    and reference :: 'c
    and mutants :: "'c list"
  assumes distinct_ids: "distinct (map vid vectors)"
    and reference_meets: "v \<in> set vectors \<Longrightarrow> meets (apply_to reference) expected v"
    and mutants_caught: "m \<in> set mutants \<Longrightarrow> \<exists>v \<in> set vectors. \<not> meets (apply_to m) expected v"
begin

definition evaluation :: "'c \<Rightarrow> oracle_evaluation res" where
  "evaluation c = evaluate_vectors (apply_to c) vid category expected vectors"

lemma reference_safe:
  "evaluation reference = Inr e \<Longrightarrow> oe_verdict e = SAFE \<and> failed_vectors e = []"
proof -
  assume e: "evaluation reference = Inr e"
  then have "map of_vector_id (failed_vectors e) = []"
    using evaluate_vectors_Inr(4) reference_meets by (fastforce simp: evaluation_def filter_empty_conv)
  then show ?thesis using evaluate_vectors_Inr(1) e reference_meets by (fastforce simp: evaluation_def)
qed

lemma mutant_unsafe: "m \<in> set mutants \<Longrightarrow> evaluation m = Inr e \<Longrightarrow> oe_verdict e = UNSAFE"
  using evaluate_vectors_Inr(1)[of "apply_to m" vid category expected vectors e] mutants_caught
  by (auto simp: evaluation_def)

lemma safe_iff_meets_all: "evaluation c = Inr e \<Longrightarrow> oe_verdict e = SAFE \<longleftrightarrow> (\<forall>v\<in>set vectors. meets (apply_to c) expected v)"
  using evaluate_vectors_Inr(1)[of "apply_to c" vid category expected vectors e] by (auto simp: evaluation_def)

lemma failures_distinct: "evaluation c = Inr e \<Longrightarrow> distinct (map of_vector_id (failed_vectors e))"
  using evaluate_vectors_Inr(4)[of "apply_to c" vid category expected vectors e] distinct_ids
  by (simp add: evaluation_def distinct_map_filter)

end

definition tenant_call :: "tenant_candidate \<Rightarrow> oracle_vector \<Rightarrow> json res" where
  "tenant_call can_read v = can_read (requester_tenant v) (resource_tenant v)"

definition returns :: "(json \<Rightarrow> json \<Rightarrow> bool) \<Rightarrow> tenant_candidate" where
  "returns f a b = Inr (JBool (f a b))"

lemma tenant_vectors_checks:
  "distinct (map ov_vector_id tenant_vectors)"
  "list_all (\<lambda>v. strict_identity (requester_tenant v) (resource_tenant v) = ov_expected v) tenant_vectors"
  "list_all (\<lambda>m. \<not> list_all (\<lambda>v. m (requester_tenant v) (resource_tenant v) = ov_expected v) tenant_vectors) tenant_mutants"
  by code_simp+

lemma meets_returns: "meets (tenant_call (returns f)) ov_expected v \<longleftrightarrow> f (requester_tenant v) (resource_tenant v) = ov_expected v"
  by (simp add: meets_def tenant_call_def returns_def)

interpretation tenant_oracle: vector_oracle tenant_vectors tenant_call ov_vector_id ov_category ov_expected
    "returns strict_identity" "map returns tenant_mutants"
proof
  show "distinct (map ov_vector_id tenant_vectors)" by (rule tenant_vectors_checks(1))
  show "meets (tenant_call (returns strict_identity)) ov_expected v" if "v \<in> set tenant_vectors" for v
    using tenant_vectors_checks(2) that by (simp add: meets_returns list_all_iff)
  show "\<exists>v\<in>set tenant_vectors. \<not> meets (tenant_call m) ov_expected v" if "m \<in> set (map returns tenant_mutants)" for m
    using tenant_vectors_checks(3) that by (auto simp: meets_returns list_all_iff)
qed

lemma tenant_evaluation: "tenant_oracle.evaluation = tenant_evaluate"
  by (rule ext) (subst tenant_oracle.evaluation_def, simp only: tenant_evaluate_def tenant_call_def[abs_def])

lemma all_mutants_killed: "tenant_mutation_results = (5, 0)"
proof -
  have "filter (\<lambda>m. \<not> list_all (\<lambda>v. m (requester_tenant v) (resource_tenant v) = ov_expected v) tenant_vectors) tenant_mutants
      = tenant_mutants"
    using tenant_vectors_checks(3) by (simp add: list_all_iff)
  then show ?thesis by (simp add: tenant_mutation_results_def Let_def) (simp add: tenant_mutants_def)
qed

lemma qualify_with_Inr:
  assumes "qualify_with ev (killed, survived) manifest f v = Inr q"
  shows "\<exists>ef e. ev f = Inr ef \<and> ev v = Inr e \<and>
    (q_passed q \<longleftrightarrow> oe_verdict ef = SAFE \<and> oe_verdict e = UNSAFE \<and> survived = 0) \<and> manifest_sha256 q = sha256_json manifest"
  using assms by (auto simp: qualify_with_def and_then_Inr Let_def)

end
