(* ===== verification/Path_Oracle.thy ===== *)
theory Path_Oracle
  imports Oracle
begin

text \<open>
  coverage/path_oracle.py: the reference oracle for path containment, with the functions of
  \<open>posixpath\<close> and \<open>urllib.parse.unquote\<close> that it and its reference candidate use, and that candidate
  (\<open>_BASE_FIXED\<close> of coverage/path_benchmark.py, \<open>can_open_path\<close> here).  The lemmas: the reference
  meets every vector and every mutant misses one; an accepted request names, after decoding,
  joining and normalising, a path at or below the base directory, and so does the resolved target;
  \<open>normpath\<close> leaves no \<open>.\<close>, \<open>..\<close> or empty component in an absolute path.
\<close>

section \<open>posixpath\<close>

definition slashes :: "string \<Rightarrow> string" where
  "slashes path =
     (if \<not> starts_with path ''/'' then ''''
      else if starts_with path ''//'' \<and> \<not> starts_with path ''///'' then ''//'' else ''/'')"

definition norm_step :: "bool \<Rightarrow> string list \<Rightarrow> string \<Rightarrow> string list" where
  "norm_step absolute comps c =
     (if c \<in> {'''', ''.''} then comps
      else if c \<noteq> ''..'' \<or> (\<not> absolute \<and> comps = []) \<or> (comps \<noteq> [] \<and> last comps = ''..'') then comps @ [c]
      else if comps \<noteq> [] then butlast comps
      else comps)"

definition norm_comps :: "string \<Rightarrow> string list" where
  "norm_comps path = foldl (norm_step (slashes path \<noteq> '''')) [] (split_on CHR ''/'' path)"

definition normpath :: "string \<Rightarrow> string" where
  "normpath path =
     (if path = '''' then ''.''
      else let p = slashes path @ join_with ''/'' (norm_comps path) in if p = '''' then ''.'' else p)"

definition path_join :: "string \<Rightarrow> string \<Rightarrow> string" where
  "path_join a b =
     (if starts_with b ''/'' then b
      else if a = '''' \<or> ends_with a ''/'' then a @ b
      else a @ ''/'' @ b)"

fun common_prefix :: "string list \<Rightarrow> string list \<Rightarrow> string list" where
  "common_prefix (x # xs) (y # ys) = (if x = y then x # common_prefix xs ys else [])"
| "common_prefix _ _ = []"

definition real_comps :: "string \<Rightarrow> string list" where
  "real_comps path = filter (\<lambda>c. c \<noteq> '''' \<and> c \<noteq> ''.'') (split_on CHR ''/'' path)"

definition commonpath2 :: "string \<Rightarrow> string \<Rightarrow> string res" where
  "commonpath2 a b =
     (if starts_with a ''/'' \<noteq> starts_with b ''/'' then raise ValueError ''Can't mix absolute and relative paths''
      else Inr ((if starts_with a ''/'' then ''/'' else '''') @ join_with ''/'' (common_prefix (real_comps a) (real_comps b))))"

section \<open>unquote\<close>

text \<open>
  A percent sign with two hexadecimal digits is the byte they name.  The bytes are read as UTF-8;
  the model keeps them as they are, exact when they are valid UTF-8 (as everywhere in the vectors).
\<close>

definition hex_value :: "char \<Rightarrow> nat option" where
  "hex_value c =
     (if is_digit c then Some (of_char c - 48)
      else if CHR ''a'' \<le> ascii_lower c \<and> ascii_lower c \<le> CHR ''f'' then Some (of_char (ascii_lower c) - 87)
      else None)"

fun unquote :: "string \<Rightarrow> string" where
  "unquote (c # h # l # s) =
     (if c = CHR ''%'' then
        (case (hex_value h, hex_value l) of
           (Some x, Some y) \<Rightarrow> char_of (16 * x + y) # unquote s
         | _ \<Rightarrow> c # unquote (h # l # s))
      else c # unquote (h # l # s))"
| "unquote s = s"

text \<open>\<open>for _ in range(3)\<close> with the early exit.\<close>

fun unquote_rounds :: "nat \<Rightarrow> string \<Rightarrow> string" where
  "unquote_rounds 0 s = s"
| "unquote_rounds (Suc n) s = (let t = unquote s in if t = s then s else unquote_rounds n t)"

definition decode_request :: "string \<Rightarrow> string" where
  "decode_request s = map (\<lambda>c. if c = CHR 0x5C then CHR ''/'' else c) (unquote_rounds 3 s)"

section \<open>The reference candidate and the mutants\<close>

type_synonym path_candidate = "json \<Rightarrow> json \<Rightarrow> json \<Rightarrow> json res"

definition contained :: "string \<Rightarrow> string \<Rightarrow> bool" where
  "contained base path = (commonpath2 base path = Inr base)"

text \<open>A ValueError of \<open>commonpath\<close> is caught and means False, like an unequal result.\<close>

fun can_open_path :: "json \<Rightarrow> json \<Rightarrow> json \<Rightarrow> bool" where
  "can_open_path (JStr base_dir) (JStr requested) (JStr resolved_target) =
     (if \<not> starts_with base_dir ''/'' \<or> \<not> starts_with resolved_target ''/'' \<or> requested = '''' \<or> CHR 0x00 \<in> set requested
      then False
      else let decoded = decode_request requested in
        if starts_with decoded ''/'' then False
        else let base = normpath base_dir; lexical = normpath (path_join base decoded);
                 resolved = normpath resolved_target in
          contained base lexical \<and> contained base resolved)"
| "can_open_path _ _ _ = False"

fun lexical_only :: "json \<Rightarrow> json \<Rightarrow> json \<Rightarrow> bool" where
  "lexical_only (JStr base_dir) (JStr requested) _ =
     (if \<not> starts_with base_dir ''/'' \<or> requested = '''' \<or> CHR 0x00 \<in> set requested then False
      else let decoded = decode_request requested in
        if starts_with decoded ''/'' then False
        else let base = normpath base_dir in contained base (normpath (path_join base decoded)))"
| "lexical_only _ _ _ = False"

fun naive_prefix :: "json \<Rightarrow> json \<Rightarrow> json \<Rightarrow> bool" where
  "naive_prefix (JStr base) _ (JStr resolved) = starts_with resolved base"
| "naive_prefix _ _ _ = False"

fun allow_absolute_inside :: "json \<Rightarrow> json \<Rightarrow> json \<Rightarrow> bool" where
  "allow_absolute_inside (JStr base) _ (JStr resolved) = starts_with (normpath resolved) (normpath base @ ''/'')"
| "allow_absolute_inside _ _ _ = False"

definition path_mutants :: "(json \<Rightarrow> json \<Rightarrow> json \<Rightarrow> bool) list" where
  "path_mutants =
    [(\<lambda>_ _ _. True),
     lexical_only,
     naive_prefix,
     allow_absolute_inside,
     (\<lambda>base request resolved. request = JStr '''' \<or> lexical_only base request resolved)]"

definition path_mutant_names :: "string list" where
  "path_mutant_names = [''allow_all'', ''lexical_only'', ''naive_prefix'', ''allow_absolute_inside'', ''allow_empty'']"

section \<open>The oracle\<close>

record path_vector =
  pv_vector_id :: string
  base_dir :: json
  requested_path :: json
  resolved_target :: json
  pv_expected :: bool
  pv_category :: string

definition path_vec :: "string \<Rightarrow> string \<Rightarrow> string \<Rightarrow> string \<Rightarrow> bool \<Rightarrow> string \<Rightarrow> path_vector" where
  "path_vec i b r t x c =
     \<lparr>pv_vector_id = i, base_dir = JStr b, requested_path = JStr r, resolved_target = JStr t,
      pv_expected = x, pv_category = c\<rparr>"

definition asset_base :: string where
  "asset_base = ''/srv/assets''"

definition unicode_path :: string where
  "unicode_path = ''m'' @ [CHR 0xC3, CHR 0xBC, CHR 0xC5, CHR 0x9F] @ ''teri/'' @ [CHR 0xC3, CHR 0xA7] @ ''.png''"

definition path_vectors :: "path_vector list" where
  "path_vectors = (let base = asset_base in
    [path_vec ''safe-basic'' base ''images/logo.png'' (base @ ''/images/logo.png'') True ''contained'',
     path_vec ''safe-dot'' base ''./images/logo.png'' (base @ ''/images/logo.png'') True ''contained'',
     path_vec ''safe-collapse'' base ''images/../css/app.css'' (base @ ''/css/app.css'') True ''contained'',
     path_vec ''safe-space'' base ''space name.txt'' (base @ ''/space name.txt'') True ''contained'',
     path_vec ''safe-unicode'' base unicode_path (base @ ''/'' @ unicode_path) True ''contained'',
     path_vec ''safe-double-slash'' base ''a//b.txt'' (base @ ''/a/b.txt'') True ''contained'',
     path_vec ''safe-inner-dot'' base ''a/./b.txt'' (base @ ''/a/b.txt'') True ''contained'',
     path_vec ''safe-encoded-dot'' base ''a/%2e/b.txt'' (base @ ''/a/b.txt'') True ''encoded'',
     path_vec ''safe-encoded-char'' base ''%66ile.txt'' (base @ ''/file.txt'') True ''encoded'',
     path_vec ''dotdot-one'' base ''../secret.txt'' ''/srv/secret.txt'' False ''dotdot'',
     path_vec ''dotdot-two'' base ''../../etc/passwd'' ''/etc/passwd'' False ''dotdot'',
     path_vec ''encoded-dotdot'' base ''%2e%2e/secret.txt'' ''/srv/secret.txt'' False ''encoded'',
     path_vec ''encoded-double'' base ''%252e%252e%252fsecret.txt'' ''/srv/secret.txt'' False ''encoded'',
     path_vec ''backslash'' base (''..'' @ [CHR 0x5C] @ ''secret.txt'') ''/srv/secret.txt'' False ''backslash'',
     path_vec ''encoded-backslash'' base ''%2e%2e%5csecret.txt'' ''/srv/secret.txt'' False ''backslash'',
     path_vec ''absolute'' base ''/etc/passwd'' ''/etc/passwd'' False ''absolute'',
     path_vec ''encoded-absolute'' base ''%2fetc%2fpasswd'' ''/etc/passwd'' False ''absolute'',
     path_vec ''absolute-inside'' base ''/srv/assets/file.txt'' (base @ ''/file.txt'') False ''absolute'',
     path_vec ''symlink'' base ''link/passwd'' ''/etc/passwd'' False ''symlink_escape'',
     path_vec ''nested-symlink'' base ''safe/link/key'' ''/var/keys/key'' False ''symlink_escape'',
     path_vec ''prefix-collision'' base ''file.txt'' ''/srv/assets_evil/file.txt'' False ''prefix_collision'',
     path_vec ''sibling-collision'' base ''file.txt'' ''/srv/asset/file.txt'' False ''prefix_collision'',
     path_vec ''empty-request'' base '''' base False ''malformed'',
     path_vec ''nul-byte'' base (''safe'' @ [CHR 0x00] @ ''/evil'') (base @ ''/safe'') False ''malformed'',
     path_vec ''relative-base'' ''srv/assets'' ''file.txt'' ''srv/assets/file.txt'' False ''malformed'',
     path_vec ''relative-resolved'' base ''file.txt'' ''srv/assets/file.txt'' False ''malformed''])"

definition path_vector_to_dict :: "path_vector \<Rightarrow> json" where
  "path_vector_to_dict v = JObj
    [(''vector_id'', JStr (pv_vector_id v)),
     (''base_dir'', base_dir v),
     (''requested_path'', requested_path v),
     (''resolved_target'', resolved_target v),
     (''expected'', JBool (pv_expected v)),
     (''category'', JStr (pv_category v))]"

definition path_manifest :: json where
  "path_manifest = JObj
    [(''schema'', JStr ''release-sentinel.oracle-qualification.v1''),
     (''oracle_revision'', JStr ''path-traversal-oracle-v1''),
     (''vectors'', JList (map path_vector_to_dict path_vectors)),
     (''mutants'', JList (map JStr path_mutant_names))]"

definition path_call :: "path_candidate \<Rightarrow> path_vector \<Rightarrow> json res" where
  "path_call can_open v = can_open (base_dir v) (requested_path v) (resolved_target v)"

definition path_evaluate :: "path_candidate \<Rightarrow> oracle_evaluation res" where
  "path_evaluate can_open = evaluate_vectors (path_call can_open) pv_vector_id pv_category pv_expected path_vectors"

definition path_returns :: "(json \<Rightarrow> json \<Rightarrow> json \<Rightarrow> bool) \<Rightarrow> path_candidate" where
  "path_returns f a b c = Inr (JBool (f a b c))"

text \<open>A mutant is killed when its evaluation is UNSAFE.\<close>

definition path_mutation_results :: "nat \<times> nat" where
  "path_mutation_results =
     (let killed = length (filter (\<lambda>m. case path_evaluate (path_returns m) of
            Inr e \<Rightarrow> oe_verdict e = UNSAFE | Inl _ \<Rightarrow> False) path_mutants) in
      (killed, length path_mutants - killed))"

definition path_qualify :: "path_candidate \<Rightarrow> path_candidate \<Rightarrow> qualification res" where
  "path_qualify = qualify_with path_evaluate path_mutation_results path_manifest"

section \<open>Lemmas: the vectors\<close>

lemma path_vectors_checks:
  "distinct (map pv_vector_id path_vectors)"
  "list_all (\<lambda>v. can_open_path (base_dir v) (requested_path v) (resolved_target v) = pv_expected v) path_vectors"
  "list_all (\<lambda>m. \<not> list_all (\<lambda>v. m (base_dir v) (requested_path v) (resolved_target v) = pv_expected v) path_vectors) path_mutants"
  by code_simp+

lemma meets_path_returns:
  "meets (path_call (path_returns f)) pv_expected v \<longleftrightarrow> f (base_dir v) (requested_path v) (resolved_target v) = pv_expected v"
  by (simp add: meets_def path_call_def path_returns_def)

interpretation path_oracle: vector_oracle path_vectors path_call pv_vector_id pv_category pv_expected
    "path_returns can_open_path" "map path_returns path_mutants"
proof
  show "distinct (map pv_vector_id path_vectors)" by (rule path_vectors_checks(1))
  show "meets (path_call (path_returns can_open_path)) pv_expected v" if "v \<in> set path_vectors" for v
    using path_vectors_checks(2) that by (simp add: meets_path_returns list_all_iff)
  show "\<exists>v\<in>set path_vectors. \<not> meets (path_call m) pv_expected v" if "m \<in> set (map path_returns path_mutants)" for m
    using path_vectors_checks(3) that by (auto simp: meets_path_returns list_all_iff)
qed

lemma path_evaluation: "path_oracle.evaluation = path_evaluate"
  by (rule ext) (simp only: path_oracle.evaluation_def path_evaluate_def)

lemma path_returns_evaluates: "\<exists>e. path_evaluate (path_returns f) = Inr e"
proof -
  have "only_exceptions (path_call (path_returns f)) path_vectors"
    by (simp add: only_exceptions_def path_call_def path_returns_def list_all_iff)
  then show ?thesis using evaluate_vectors_ok by (auto simp: path_evaluate_def ok_iff)
qed

lemma all_path_mutants_killed: "path_mutation_results = (5, 0)"
proof -
  have "oe_verdict e = UNSAFE" if "m \<in> set path_mutants" "path_evaluate (path_returns m) = Inr e" for m e
    using path_oracle.mutant_unsafe[of "path_returns m" e] that by (simp add: path_evaluation)
  then have "filter (\<lambda>m. case path_evaluate (path_returns m) of Inr e \<Rightarrow> oe_verdict e = UNSAFE | Inl _ \<Rightarrow> False) path_mutants
      = path_mutants"
    using path_returns_evaluates by (auto simp: filter_id_conv split: sum.splits) (metis Inl_Inr_False)
  then show ?thesis by (simp add: path_mutation_results_def Let_def) (simp add: path_mutants_def)
qed

section \<open>Lemmas: containment\<close>

text \<open>Components of a normalised absolute path are real names.\<close>

definition real_name :: "string \<Rightarrow> bool" where
  "real_name c \<longleftrightarrow> c \<noteq> '''' \<and> c \<noteq> ''.'' \<and> c \<noteq> ''..''"

lemma norm_fold_real:
  "list_all real_name acc \<Longrightarrow> list_all real_name (foldl (norm_step True) acc cs)"
proof (induction cs arbitrary: acc)
  case (Cons c cs)
  have "list_all real_name (norm_step True acc c)"
    using Cons.prems by (auto simp: norm_step_def list_all_iff real_name_def dest: in_set_butlastD last_in_set)
  then show ?case using Cons.IH by simp
qed simp

lemma norm_comps_real: "starts_with p ''/'' \<Longrightarrow> list_all real_name (norm_comps p)"
  using norm_fold_real[of "[]"] by (simp add: norm_comps_def slashes_def)

lemma norm_fold_no_slash:
  "\<forall>c \<in> set acc \<union> set cs. CHR ''/'' \<notin> set c \<Longrightarrow> \<forall>c \<in> set (foldl (norm_step b) acc cs). CHR ''/'' \<notin> set c"
proof (induction cs arbitrary: acc)
  case (Cons c cs)
  have "\<forall>x \<in> set (norm_step b acc c) \<union> set cs. CHR ''/'' \<notin> set x"
    using Cons.prems by (auto simp: norm_step_def dest: in_set_butlastD)
  then show ?case using Cons.IH by simp
qed simp

lemma norm_comps_no_slash: "\<forall>c \<in> set (norm_comps p). CHR ''/'' \<notin> set c"
  unfolding norm_comps_def by (rule norm_fold_no_slash) (auto dest: split_on_no_sep)

lemma real_comps_join:
  assumes "list_all real_name cs" "\<forall>c \<in> set cs. CHR ''/'' \<notin> set c"
  shows "real_comps (slashes p @ join_with ''/'' cs) = cs"
proof -
  have keep: "filter (\<lambda>c. c \<noteq> '''' \<and> c \<noteq> ''.'') cs = cs"
    using assms(1) by (auto simp: filter_id_conv list_all_iff real_name_def)
  have body: "filter (\<lambda>c. c \<noteq> '''' \<and> c \<noteq> ''.'') (split_on CHR ''/'' (join_with ''/'' cs)) = cs"
  proof (cases "cs = []")
    case False
    then show ?thesis using split_join_noslash[OF False assms(2)] keep by simp
  qed simp
  show ?thesis
    using body by (auto simp: real_comps_def slashes_def)
qed

lemma normpath_comps:
  assumes "starts_with p ''/''"
  shows "real_comps (normpath p) = norm_comps p" "starts_with (normpath p) ''/''"
proof -
  have n: "normpath p = slashes p @ join_with ''/'' (norm_comps p)" "slashes p = ''/'' \<or> slashes p = ''//''"
    using assms by (auto simp: normpath_def slashes_def Let_def)
  then show "real_comps (normpath p) = norm_comps p"
    using real_comps_join[OF norm_comps_real[OF assms] norm_comps_no_slash] by simp
  show "starts_with (normpath p) ''/''" using n by auto
qed

lemma common_prefix_take: "common_prefix xs ys = take (length (common_prefix xs ys)) ys"
  by (induction xs ys rule: common_prefix.induct) auto

lemma common_prefix_left: "common_prefix xs ys = take (length (common_prefix xs ys)) xs"
  by (induction xs ys rule: common_prefix.induct) auto

text \<open>Containment is the prefix order on the components.\<close>

lemma contained_prefix:
  assumes b: "starts_with b ''/''" and p: "starts_with p ''/''"
    and c: "contained (normpath b) (normpath p)"
  shows "\<exists>rest. norm_comps p = norm_comps b @ rest"
proof -
  let ?k = "common_prefix (norm_comps b) (norm_comps p)"
  have "''/'' @ join_with ''/'' ?k = normpath b"
    using c normpath_comps[OF b] normpath_comps[OF p] by (simp add: contained_def commonpath2_def)
  then have "real_comps (''/'' @ join_with ''/'' ?k) = norm_comps b" using normpath_comps(1)[OF b] by simp
  moreover have "list_all real_name ?k"
    using norm_comps_real[OF b] common_prefix_left[of "norm_comps b" "norm_comps p"]
    by (metis in_set_takeD list_all_iff)
  moreover have "\<forall>c \<in> set ?k. CHR ''/'' \<notin> set c"
    using norm_comps_no_slash common_prefix_left by (metis in_set_takeD)
  ultimately have "?k = norm_comps b"
    using real_comps_join[of ?k "''/''"] by (simp add: slashes_def)
  then show ?thesis using common_prefix_take by (metis append_take_drop_id)
qed

lemma can_open_path_contained:
  assumes "can_open_path (JStr b) (JStr r) (JStr t)"
  shows "\<exists>rest rest'. norm_comps (path_join (normpath b) (decode_request r)) = norm_comps b @ rest \<and>
    norm_comps t = norm_comps b @ rest' \<and>
    list_all real_name (norm_comps b @ rest) \<and> list_all real_name (norm_comps b @ rest')"
proof -
  let ?l = "path_join (normpath b) (decode_request r)"
  have a: "starts_with b ''/''" "starts_with t ''/''" "\<not> starts_with (decode_request r) ''/''"
    and c: "contained (normpath b) (normpath ?l)" "contained (normpath b) (normpath t)"
    using assms by (auto simp: Let_def split: if_splits)
  have "starts_with ?l ''/''"
    using normpath_comps(2)[OF a(1)] a(3) by (auto simp: path_join_def starts_with_iff)
  then show ?thesis
    using contained_prefix[OF a(1) _ c(1)] contained_prefix[OF a(1,2) c(2)] norm_comps_real[of ?l] norm_comps_real[OF a(2)]
    by metis
qed

end
