(* ===== verification/Protocol.thy ===== *)
theory Protocol
  imports Path_Oracle
begin

text \<open>
  coverage/protocol.py: the order of a measurement.  The gate's decision is signed first, in a
  snapshot bound to the measurement context; only then may the oracle be asked, and its signed result
  names the snapshot.  The lemmas: the oracle is never consulted unless the snapshot verifies for the
  context; an honest run verifies from end to end; and a snapshot that verifies for a context belongs
  to that context only.
\<close>

section \<open>Snapshots and results\<close>

record gate_snapshot =
  gs_schema :: string
  gs_measurement_id :: string
  gs_context_sha256 :: string
  gs_candidate_sha256 :: string
  gs_fixture_sha256 :: string
  gs_policy_sha256 :: string
  gs_benchmark_manifest_sha256 :: string
  gs_gatekeeper_digest :: string
  gs_gatekeeper_revision :: string
  gs_build_receipt_sha256 :: string
  gs_gate_decision :: decision
  gs_gate_response_sha256 :: string
  gs_sequence :: int
  gs_oracle_result_present :: bool
  gs_run_nonce :: string

definition snapshot_to_dict :: "gate_snapshot \<Rightarrow> json" where
  "snapshot_to_dict g = JObj
    [(''schema'', JStr (gs_schema g)),
     (''measurement_id'', JStr (gs_measurement_id g)),
     (''context_sha256'', JStr (gs_context_sha256 g)),
     (''candidate_sha256'', JStr (gs_candidate_sha256 g)),
     (''fixture_sha256'', JStr (gs_fixture_sha256 g)),
     (''policy_sha256'', JStr (gs_policy_sha256 g)),
     (''benchmark_manifest_sha256'', JStr (gs_benchmark_manifest_sha256 g)),
     (''gatekeeper_digest'', JStr (gs_gatekeeper_digest g)),
     (''gatekeeper_revision'', JStr (gs_gatekeeper_revision g)),
     (''build_receipt_sha256'', JStr (gs_build_receipt_sha256 g)),
     (''gate_decision'', JStr (decision_value (gs_gate_decision g))),
     (''gate_response_sha256'', JStr (gs_gate_response_sha256 g)),
     (''sequence'', JInt (gs_sequence g)),
     (''oracle_result_present'', JBool (gs_oracle_result_present g)),
     (''run_nonce'', JStr (gs_run_nonce g))]"

definition snapshot_sha256 :: "gate_snapshot \<Rightarrow> string" where
  "snapshot_sha256 g = sha256_json (snapshot_to_dict g)"

record signed_snapshot =
  ss_snapshot :: gate_snapshot
  ss_signature :: signature_envelope

record oracle_result =
  or_schema :: string
  or_measurement_id :: string
  or_context_sha256 :: string
  or_candidate_sha256 :: string
  or_gate_snapshot_sha256 :: string
  or_verdict :: oracle_verdict
  or_total_vectors :: int
  or_failed_vectors :: int
  or_oracle_digest :: string
  or_qualification_manifest_sha256 :: string
  or_oracle_selftest_sha256 :: string
  or_sequence :: int

definition oracle_result_to_dict :: "oracle_result \<Rightarrow> json" where
  "oracle_result_to_dict r = JObj
    [(''schema'', JStr (or_schema r)),
     (''measurement_id'', JStr (or_measurement_id r)),
     (''context_sha256'', JStr (or_context_sha256 r)),
     (''candidate_sha256'', JStr (or_candidate_sha256 r)),
     (''gate_snapshot_sha256'', JStr (or_gate_snapshot_sha256 r)),
     (''verdict'', JStr (verdict_value (or_verdict r))),
     (''total_vectors'', JInt (or_total_vectors r)),
     (''failed_vectors'', JInt (or_failed_vectors r)),
     (''oracle_digest'', JStr (or_oracle_digest r)),
     (''qualification_manifest_sha256'', JStr (or_qualification_manifest_sha256 r)),
     (''oracle_selftest_sha256'', JStr (or_oracle_selftest_sha256 r)),
     (''sequence'', JInt (or_sequence r))]"

definition oracle_result_sha256 :: "oracle_result \<Rightarrow> string" where
  "oracle_result_sha256 r = sha256_json (oracle_result_to_dict r)"

record signed_oracle_result =
  so_result :: oracle_result
  so_signature :: signature_envelope

definition signed_oracle_to_dict :: "signed_oracle_result \<Rightarrow> json" where
  "signed_oracle_to_dict s = JObj
    [(''result'', oracle_result_to_dict (so_result s)), (''signature'', envelope_to_dict (so_signature s))]"

section \<open>The steps of a measurement\<close>

definition build_gate_snapshot ::
    "measurement_context \<Rightarrow> decision \<Rightarrow> string \<Rightarrow> string \<Rightarrow> string \<Rightarrow> signer \<Rightarrow> signed_snapshot res" where
  "build_gate_snapshot ctx gate_decision response build_receipt gate_revision s =
    (if gate_decision \<notin> {GO, NO_GO}
     then raise CoverageProtocolError ''coverage gate snapshot requires GO or NO_GO''
     else let snapshot =
        \<lparr>gs_schema = ''release-sentinel.gate-snapshot.v1'',
         gs_measurement_id = measurement_id ctx,
         gs_context_sha256 = context_sha256 ctx,
         gs_candidate_sha256 = candidate_sha256 ctx,
         gs_fixture_sha256 = fixture_sha256 ctx,
         gs_policy_sha256 = policy_sha256 ctx,
         gs_benchmark_manifest_sha256 = benchmark_manifest_sha256 ctx,
         gs_gatekeeper_digest = gatekeeper_digest ctx,
         gs_gatekeeper_revision = gate_revision,
         gs_build_receipt_sha256 = build_receipt,
         gs_gate_decision = gate_decision,
         gs_gate_response_sha256 = response,
         gs_sequence = 1,
         gs_oracle_result_present = False,
         gs_run_nonce = run_nonce ctx\<rparr> in
      and_then (sign_json (snapshot_to_dict snapshot) s) (\<lambda>e. Inr \<lparr>ss_snapshot = snapshot, ss_signature = e\<rparr>))"

definition gate_context_matches :: "gate_snapshot \<Rightarrow> measurement_context \<Rightarrow> bool" where
  "gate_context_matches g ctx \<longleftrightarrow>
     gs_measurement_id g = measurement_id ctx \<and>
     gs_context_sha256 g = context_sha256 ctx \<and>
     gs_candidate_sha256 g = candidate_sha256 ctx \<and>
     gs_fixture_sha256 g = fixture_sha256 ctx \<and>
     gs_policy_sha256 g = policy_sha256 ctx \<and>
     gs_benchmark_manifest_sha256 g = benchmark_manifest_sha256 ctx \<and>
     gs_gatekeeper_digest g = gatekeeper_digest ctx \<and>
     gs_run_nonce g = run_nonce ctx"

definition verify_signed_gate_snapshot :: "signed_snapshot \<Rightarrow> measurement_context \<Rightarrow> verifier \<Rightarrow> unit res" where
  "verify_signed_gate_snapshot sg ctx verify =
    (let g = ss_snapshot sg in
     if gs_sequence g \<noteq> 1 then raise CoverageProtocolError ''gate snapshot sequence must be 1''
     else if gs_oracle_result_present g
     then raise CoverageProtocolError ''gate snapshot oracle_result_present must be false''
     else if \<not> gate_context_matches g ctx then raise CoverageProtocolError ''gate snapshot context mismatch''
     else and_then (verify_json (snapshot_to_dict g) (ss_signature sg) verify) (\<lambda>good.
       if \<not> good then raise CoverageProtocolError ''gate snapshot signature verification failed'' else Inr ()))"

text \<open>An oracle: the digest of its manifest, and the evaluation of a candidate.\<close>

record 'c coverage_oracle =
  qualification_manifest_sha256 :: string
  evaluate_callable :: "'c \<Rightarrow> oracle_evaluation res"

definition evaluate_after_gate_snapshot ::
    "signed_snapshot \<Rightarrow> measurement_context \<Rightarrow> 'c \<Rightarrow> 'c coverage_oracle \<Rightarrow> qualification \<Rightarrow> verifier \<Rightarrow> signer \<Rightarrow>
     signed_oracle_result res" where
  "evaluate_after_gate_snapshot sg ctx candidate oracle q gate_verify oracle_signer =
     and_then (verify_signed_gate_snapshot sg ctx gate_verify) (\<lambda>_.
       if \<not> q_passed q then raise CoverageProtocolError ''oracle qualification is not valid''
       else if manifest_sha256 q \<noteq> qualification_manifest_sha256 oracle
       then raise CoverageProtocolError ''oracle qualification manifest mismatch''
       else and_then (evaluate_callable oracle candidate) (\<lambda>evaluation.
         let result =
           \<lparr>or_schema = ''release-sentinel.oracle-result.v1'',
            or_measurement_id = measurement_id ctx,
            or_context_sha256 = context_sha256 ctx,
            or_candidate_sha256 = candidate_sha256 ctx,
            or_gate_snapshot_sha256 = snapshot_sha256 (ss_snapshot sg),
            or_verdict = oe_verdict evaluation,
            or_total_vectors = int (total_vectors evaluation),
            or_failed_vectors = int (length (failed_vectors evaluation)),
            or_oracle_digest = oracle_digest ctx,
            or_qualification_manifest_sha256 = manifest_sha256 q,
            or_oracle_selftest_sha256 = selftest_sha256 q,
            or_sequence = 2\<rparr> in
         and_then (sign_json (oracle_result_to_dict result) oracle_signer) (\<lambda>e.
           Inr \<lparr>so_result = result, so_signature = e\<rparr>)))"

definition verify_signed_oracle_result ::
    "signed_oracle_result \<Rightarrow> measurement_context \<Rightarrow> signed_snapshot \<Rightarrow> verifier \<Rightarrow> unit res" where
  "verify_signed_oracle_result so ctx sg verify =
    (let r = so_result so in
     if or_sequence r \<noteq> 2 then raise CoverageProtocolError ''oracle result sequence must be 2''
     else if or_measurement_id r \<noteq> measurement_id ctx \<or> or_context_sha256 r \<noteq> context_sha256 ctx
     then raise CoverageProtocolError ''oracle result context mismatch''
     else if or_candidate_sha256 r \<noteq> candidate_sha256 ctx
     then raise CoverageProtocolError ''oracle result candidate mismatch''
     else if or_oracle_digest r \<noteq> oracle_digest ctx
     then raise CoverageProtocolError ''oracle result oracle digest mismatch''
     else if or_gate_snapshot_sha256 r \<noteq> snapshot_sha256 (ss_snapshot sg)
     then raise CoverageProtocolError ''oracle result gate snapshot mismatch''
     else and_then (verify_json (oracle_result_to_dict r) (so_signature so) verify) (\<lambda>good.
       if \<not> good then raise CoverageProtocolError ''oracle result signature verification failed'' else Inr ()))"

section \<open>Lemmas\<close>

lemma wf_snapshot [simp]: "wf_json (snapshot_to_dict g)"
  by (simp add: snapshot_to_dict_def)

lemma wf_oracle_result [simp]: "wf_json (oracle_result_to_dict r)"
  by (simp add: oracle_result_to_dict_def)

lemma snapshot_norm: "norm (snapshot_to_dict g) = norm (snapshot_to_dict h) \<longleftrightarrow> g = h"
proof -
  have "norm (snapshot_to_dict g) = norm (snapshot_to_dict h) \<Longrightarrow> g = h"
    unfolding snapshot_to_dict_def by (subst (asm) norm_obj_inj) (simp_all add: gate_snapshot.equality)
  then show ?thesis by auto
qed

lemma snapshot_sha256_inj:
  "snapshot_sha256 g = snapshot_sha256 h \<Longrightarrow>
   g = h \<or> sha_collision (canonical_json (snapshot_to_dict g)) (canonical_json (snapshot_to_dict h))"
  using sha256_json_inj[of "snapshot_to_dict g" "snapshot_to_dict h"] by (auto simp: snapshot_sha256_def snapshot_norm)

lemma verified_snapshot:
  assumes "verify_signed_gate_snapshot sg ctx verify = Inr ()"
  shows "gs_sequence (ss_snapshot sg) = 1" "\<not> gs_oracle_result_present (ss_snapshot sg)"
    "gate_context_matches (ss_snapshot sg) ctx"
    "verify_json (snapshot_to_dict (ss_snapshot sg)) (ss_signature sg) verify = Inr True"
  using assms by (auto simp: verify_signed_gate_snapshot_def Let_def and_then_Inr split: if_splits)

lemma verified_snapshot_context:
  assumes "verify_signed_gate_snapshot sg ctx verify = Inr ()" "verify_signed_gate_snapshot sg ctx' verify' = Inr ()"
  shows "ctx = ctx' \<or> sha_collision (canonical_json (context_to_dict ctx)) (canonical_json (context_to_dict ctx'))"
proof -
  have "context_sha256 ctx = context_sha256 ctx'"
    using verified_snapshot(3)[OF assms(1)] verified_snapshot(3)[OF assms(2)] by (simp add: gate_context_matches_def)
  then show ?thesis by (rule context_sha256_inj)
qed

text \<open>One signature belongs to one snapshot.\<close>

lemma verified_snapshot_signature:
  assumes "verify_signed_gate_snapshot sg ctx verify = Inr ()" "verify_signed_gate_snapshot sg' ctx' verify' = Inr ()"
    and "ss_signature sg = ss_signature sg'"
  shows "ss_snapshot sg = ss_snapshot sg' \<or>
    sha_collision (canonical_json (snapshot_to_dict (ss_snapshot sg))) (canonical_json (snapshot_to_dict (ss_snapshot sg')))"
  using envelope_binding[OF verified_snapshot(4)[OF assms(1)], of "snapshot_to_dict (ss_snapshot sg')" verify']
    verified_snapshot(4)[OF assms(2)] assms(3)
  by (auto simp: snapshot_norm)

text \<open>Without a verified snapshot nothing of the oracle or the candidate matters.\<close>

lemma oracle_needs_snapshot:
  assumes "verify_signed_gate_snapshot sg ctx verify \<noteq> Inr ()"
  shows "evaluate_after_gate_snapshot sg ctx candidate oracle q verify s =
         evaluate_after_gate_snapshot sg ctx candidate' oracle' q' verify s'"
    and "\<not> ok (evaluate_after_gate_snapshot sg ctx candidate oracle q verify s)"
  using assms by (cases "verify_signed_gate_snapshot sg ctx verify"; simp add: evaluate_after_gate_snapshot_def)+

lemma evaluate_after_Inr:
  assumes "evaluate_after_gate_snapshot sg ctx candidate oracle q verify s = Inr so"
  shows "verify_signed_gate_snapshot sg ctx verify = Inr ()" "q_passed q"
    "manifest_sha256 q = qualification_manifest_sha256 oracle"
    "\<exists>e. evaluate_callable oracle candidate = Inr e \<and> or_verdict (so_result so) = oe_verdict e"
    "or_gate_snapshot_sha256 (so_result so) = snapshot_sha256 (ss_snapshot sg)"
    "or_context_sha256 (so_result so) = context_sha256 ctx"
    "or_measurement_id (so_result so) = measurement_id ctx"
    "or_candidate_sha256 (so_result so) = candidate_sha256 ctx" "or_oracle_digest (so_result so) = oracle_digest ctx"
    "or_sequence (so_result so) = 2"
    "sign_json (oracle_result_to_dict (so_result so)) s = Inr (so_signature so)"
  using assms by (auto simp: evaluate_after_gate_snapshot_def Let_def and_then_Inr split: if_splits)

context signature_scheme
begin

lemma built_snapshot_verifies:
  assumes "build_gate_snapshot ctx d response receipt rev_name s = Inr sg"
  shows "verify_signed_gate_snapshot sg ctx verify = Inr ()" "gs_gate_decision (ss_snapshot sg) = d" "d \<noteq> CONDITIONAL_GO"
proof -
  have sig: "sign_json (snapshot_to_dict (ss_snapshot sg)) s = Inr (ss_signature sg)"
    and g: "gs_sequence (ss_snapshot sg) = 1" "\<not> gs_oracle_result_present (ss_snapshot sg)"
      "gate_context_matches (ss_snapshot sg) ctx" "gs_gate_decision (ss_snapshot sg) = d" "d \<in> {GO, NO_GO}"
    using assms
    by (auto simp: build_gate_snapshot_def Let_def and_then_Inr gate_context_matches_def split: if_splits)
  from sign_json_verifies[OF sig] g show "verify_signed_gate_snapshot sg ctx verify = Inr ()"
    by (simp add: verify_signed_gate_snapshot_def)
  show "gs_gate_decision (ss_snapshot sg) = d" "d \<noteq> CONDITIONAL_GO" using g by auto
qed

lemma oracle_result_verifies:
  assumes "evaluate_after_gate_snapshot sg ctx candidate oracle q gate_verify s = Inr so"
  shows "verify_signed_oracle_result so ctx sg verify = Inr ()"
  using sign_json_verifies[OF evaluate_after_Inr(11)[OF assms]] evaluate_after_Inr(5-10)[OF assms]
  by (simp add: verify_signed_oracle_result_def)

end

end
