(* ===== verification/Reference_Policy.thy ===== *)
theory Reference_Policy
  imports Path_Oracle
begin

text \<open>
  coverage/reference_policy.py and coverage/path_reference_policy.py: the cheap gates whose gaps the
  oracles measure.  A gate runs a list of probes and, from revision 2 on, asks for a shape of the
  source.  \<open>ast.parse\<close> followed by \<open>ast.walk\<close> is the parameter \<open>walk\<close>: the nodes of the source, or
  the exception of the parser.  The lemmas: a later revision never accepts what an earlier one
  blocks (tenants), revision 3 of the path gate accepts only what the path oracle finds safe, and
  the earlier revisions let unsafe candidates through.
\<close>

section \<open>Syntax nodes\<close>

datatype ast_expr = NameExpr string | OtherExpr
datatype ast_op = EqOp | OtherOp

text \<open>
  The nodes the shapes look at: function definitions (plain or async) with their positional
  arguments, comparisons, calls of an attribute, and names that are assigned to.
\<close>

datatype ast_node =
    FunctionNode string "string list"
  | CompareNode ast_expr "ast_op list" "ast_expr list"
  | CallNode string
  | StoreNode string
  | OtherNode

type_synonym walker = "string \<Rightarrow> ast_node list res"

definition functions_of :: "ast_node list \<Rightarrow> (string \<times> string list) list" where
  "functions_of ns = concat (map (\<lambda>n. case n of FunctionNode f a \<Rightarrow> [(f, a)] | _ \<Rightarrow> []) ns)"

text \<open>\<open>except (SyntaxError, ValueError, TypeError)\<close>: the shape is then False.\<close>

definition shape_error :: "exn \<Rightarrow> bool" where
  "shape_error e \<longleftrightarrow> catches (UserException ''SyntaxError'') e \<or> catches ValueError e \<or> catches TypeError e"

definition shape_or_false :: "bool res \<Rightarrow> bool res" where
  "shape_or_false m = (case m of Inr b \<Rightarrow> Inr b | Inl e \<Rightarrow> if shape_error e then Inr False else Inl e)"

section \<open>The tenant gate\<close>

definition reference_policy_document :: "int \<Rightarrow> json res" where
  "reference_policy_document policy_revision =
    (let document = (\<lambda>behavior. Inr (JObj
       [(''id'', JStr ''reference-auth-boundary-approximation''),
        (''revision'', JInt policy_revision),
        (''behavior'', JStr behavior)])) in
     if policy_revision = 1 then document ''single-cross-tenant-probe''
     else if policy_revision = 2 then document ''multi-probe-plus-canonical-shape''
     else if policy_revision = 3 then document ''expanded-probes-plus-direct-identity-shape''
     else raise ValueError ''reference policy revision must be 1, 2, or 3'')"

definition canonical_auth_shape :: "walker \<Rightarrow> string \<Rightarrow> bool res" where
  "canonical_auth_shape walk source =
     and_then (walk source) (\<lambda>ns.
       Inr (functions_of ns = [(''can_read'', [''requester_tenant'', ''resource_tenant''])]))"

fun identity_compare :: "ast_node \<Rightarrow> bool" where
  "identity_compare (CompareNode (NameExpr l) [EqOp] [NameExpr r]) =
     ({l, r} = {''requester_tenant'', ''resource_tenant''})"
| "identity_compare _ = False"

definition strict_identity_compare_shape :: "walker \<Rightarrow> string \<Rightarrow> bool res" where
  "strict_identity_compare_shape walk source =
     and_then (canonical_auth_shape walk source) (\<lambda>canonical.
       if \<not> canonical then Inr False
       else and_then (walk source) (\<lambda>ns. Inr (list_ex identity_compare ns)))"

type_synonym probe = "json \<times> json \<times> bool"

definition probe_of :: "string \<Rightarrow> string \<Rightarrow> bool \<Rightarrow> probe" where
  "probe_of a b x = (JStr a, JStr b, x)"

definition tenant_probes :: "int \<Rightarrow> probe list res" where
  "tenant_probes policy_revision =
    (if policy_revision = 1 then Inr [probe_of ''tenant-a'' ''tenant-b'' False]
     else if policy_revision = 2 then Inr
       [probe_of ''tenant-a'' ''tenant-b'' False,
        probe_of ''tenant-a'' ''tenant-a'' True,
        probe_of ''Tenant-A'' ''tenant-a'' False,
        probe_of ''tenant-a '' ''tenant-a'' False,
        probe_of ''tenant-a'' ''tenant'' False,
        probe_of ''x-tenant'' ''tenant'' False,
        probe_of ''alpha'' ''amber'' False,
        probe_of ''aa'' ''bb'' False,
        probe_of '''' '''' False]
     else if policy_revision = 3 then Inr
       [probe_of ''tenant-a'' ''tenant-b'' False,
        probe_of ''tenant-a'' ''tenant-a'' True,
        probe_of ''Tenant-A'' ''tenant-a'' False,
        probe_of ''tenant-a '' ''tenant-a'' False,
        probe_of '' tenant-a'' ''tenant-a'' False,
        probe_of ''tenant-a'' ''tenant'' False,
        probe_of ''x-tenant'' ''tenant'' False,
        probe_of ''alpha'' ''amber'' False,
        probe_of ''aa'' ''bb'' False,
        probe_of '''' '''' False,
        probe_of composed decomposed False]
     else raise ValueError ''reference policy revision must be 1, 2, or 3'')"

text \<open>
  One probe: the recorded outcome, and whether it blocks.  The gates share the loop over their
  probes; \<open>inputs\<close> are the fields that record the arguments.
\<close>

definition probe_outcome :: "(string \<times> json) list \<Rightarrow> bool \<Rightarrow> json res \<Rightarrow> (json \<times> bool) res" where
  "probe_outcome inputs expected answer =
    (case answer of
       Inr x \<Rightarrow> Inr (JObj (inputs @ [(''expected'', JBool expected), (''actual'', JBool (truthy x))]), truthy x \<noteq> expected)
     | Inl e \<Rightarrow>
         if catches PyException e
         then Inr (JObj (inputs @ [(''expected'', JBool expected), (''error'', JStr (class_name (fst e)))]), True)
         else Inl e)"

fun run_probes :: "((string \<times> json) list \<times> bool \<times> json res) list \<Rightarrow> (json list \<times> bool) res" where
  "run_probes [] = Inr ([], False)"
| "run_probes ((inputs, expected, answer) # ps) =
     and_then (probe_outcome inputs expected answer) (\<lambda>(o1, b1).
     and_then (run_probes ps) (\<lambda>(os, b2). Inr (o1 # os, b1 \<or> b2)))"

definition gate_verdict :: "bool \<Rightarrow> decision" where
  "gate_verdict blocked = (if blocked then NO_GO else GO)"

definition evaluate_reference_gate ::
    "walker \<Rightarrow> tenant_candidate \<Rightarrow> string \<Rightarrow> int \<Rightarrow> (decision \<times> string) res" where
  "evaluate_reference_gate walk can_read source policy_revision =
    and_then (tenant_probes policy_revision) (\<lambda>probes.
      let require_canonical = (2 \<le> policy_revision); require_strict = (policy_revision = 3) in
      and_then (run_probes (map (\<lambda>(a, b, x). ([(''requester'', a), (''resource'', b)], x, can_read a b)) probes))
        (\<lambda>(outcomes, bad).
      and_then (if require_canonical then shape_or_false (canonical_auth_shape walk source) else Inr True) (\<lambda>shape_ok.
      and_then (if require_strict then shape_or_false (strict_identity_compare_shape walk source) else Inr True) (\<lambda>strict_ok.
        let blocked = (bad \<or> (require_canonical \<and> \<not> shape_ok) \<or> (require_strict \<and> \<not> strict_ok));
            payload = JObj
              [(''check'', JStr ''auth-boundary-reference-policy''),
               (''policy_revision'', JInt policy_revision),
               (''probes'', JList outcomes),
               (''canonical_shape_required'', JBool require_canonical),
               (''canonical_shape_ok'', JBool shape_ok),
               (''strict_identity_shape_required'', JBool require_strict),
               (''strict_identity_shape_ok'', JBool strict_ok)] in
        Inr (gate_verdict blocked, sha256_json payload)))))"

section \<open>The path gate\<close>

definition path_policy_document :: "int \<Rightarrow> json res" where
  "path_policy_document policy_revision =
    (let document = (\<lambda>behavior. Inr (JObj
       [(''id'', JStr ''reference-path-containment-approximation''),
        (''revision'', JInt policy_revision),
        (''behavior'', JStr behavior)])) in
     if policy_revision = 1 then document ''single-dotdot-probe''
     else if policy_revision = 2 then document ''multi-probe-plus-approved-containment-shape''
     else if policy_revision = 3 then document ''oracle-vector-probes-plus-commonpath-shape''
     else raise ValueError ''path reference policy revision must be 1, 2, or 3'')"

definition path_signature_ok :: "walker \<Rightarrow> string \<Rightarrow> bool res" where
  "path_signature_ok walk source =
     and_then (walk source) (\<lambda>ns.
       Inr (filter (\<lambda>(f, a). f = ''can_open_path'') (functions_of ns) =
            [(''can_open_path'', [''base_dir'', ''requested_path'', ''resolved_target''])]))"

definition approved_rev2_shape :: "walker \<Rightarrow> string \<Rightarrow> bool res" where
  "approved_rev2_shape walk source =
     and_then (path_signature_ok walk source) (\<lambda>sig_ok.
       if \<not> sig_ok then Inr False else
       and_then (walk source) (\<lambda>ns.
         Inr (CallNode ''commonpath'' \<in> set ns \<or> CallNode ''relpath'' \<in> set ns \<or> StoreNode ''blocked'' \<in> set ns)))"

definition strict_rev3_shape :: "walker \<Rightarrow> string \<Rightarrow> bool res" where
  "strict_rev3_shape walk source =
     and_then (path_signature_ok walk source) (\<lambda>sig_ok.
       if \<not> sig_ok then Inr False else
       and_then (walk source) (\<lambda>ns. Inr (CallNode ''commonpath'' \<in> set ns \<and> contains ''unquote'' source)))"

type_synonym path_probe = "json \<times> json \<times> json \<times> bool"

definition path_probe_of :: "string \<Rightarrow> string \<Rightarrow> bool \<Rightarrow> path_probe" where
  "path_probe_of r t x = (JStr asset_base, JStr r, JStr t, x)"

definition rev1_path_probes :: "path_probe list" where
  "rev1_path_probes = [path_probe_of ''../secret.txt'' ''/srv/secret.txt'' False]"

definition rev2_path_probes :: "path_probe list" where
  "rev2_path_probes =
    [path_probe_of ''images/logo.png'' (asset_base @ ''/images/logo.png'') True,
     path_probe_of ''../secret.txt'' ''/srv/secret.txt'' False,
     path_probe_of ''%2e%2e/secret.txt'' ''/srv/secret.txt'' False,
     path_probe_of (''..'' @ [CHR 0x5C] @ ''secret.txt'') ''/srv/secret.txt'' False,
     path_probe_of ''/etc/passwd'' ''/etc/passwd'' False,
     path_probe_of ''link/passwd'' ''/etc/passwd'' False,
     path_probe_of ''file.txt'' ''/srv/assets_evil/file.txt'' False,
     path_probe_of '''' asset_base False]"

definition rev3_path_probes :: "path_probe list" where
  "rev3_path_probes = map (\<lambda>v. (base_dir v, requested_path v, resolved_target v, pv_expected v)) path_vectors"

definition path_gate_setup :: "walker \<Rightarrow> string \<Rightarrow> int \<Rightarrow> (path_probe list \<times> string \<times> bool) res" where
  "path_gate_setup walk source policy_revision =
    (if policy_revision = 1 then Inr (rev1_path_probes, ''NONE'', True)
     else if policy_revision = 2 then
       and_then (shape_or_false (approved_rev2_shape walk source)) (\<lambda>shape_ok. Inr (rev2_path_probes, ''APPROVED_CONTAINMENT'', shape_ok))
     else if policy_revision = 3 then
       and_then (shape_or_false (strict_rev3_shape walk source)) (\<lambda>shape_ok. Inr (rev3_path_probes, ''COMMONPATH_PLUS_UNQUOTE'', shape_ok))
     else raise ValueError ''path reference policy revision must be 1, 2, or 3'')"

definition evaluate_path_reference_gate ::
    "walker \<Rightarrow> path_candidate \<Rightarrow> string \<Rightarrow> int \<Rightarrow> (decision \<times> string) res" where
  "evaluate_path_reference_gate walk can_open source policy_revision =
    and_then (path_gate_setup walk source policy_revision) (\<lambda>(probes, shape_required, shape_ok).
    and_then (run_probes (map (\<lambda>(b, r, t, x).
        ([(''base_dir'', b), (''requested_path'', r), (''resolved_target'', t)], x, can_open b r t)) probes))
      (\<lambda>(outcomes, bad).
        let payload = JObj
          [(''check'', JStr ''path-containment-reference-policy''),
           (''policy_revision'', JInt policy_revision),
           (''probes'', JList outcomes),
           (''shape_required'', JStr shape_required),
           (''shape_ok'', JBool shape_ok)] in
        Inr (gate_verdict (bad \<or> \<not> shape_ok), sha256_json payload)))"

section \<open>Lemmas\<close>

definition answers :: "json res \<Rightarrow> bool \<Rightarrow> bool" where
  "answers a x \<longleftrightarrow> (case a of Inr j \<Rightarrow> truthy j = x | Inl e \<Rightarrow> False)"

lemma gate_verdict_GO [simp]: "gate_verdict b = GO \<longleftrightarrow> \<not> b"
  by (simp add: gate_verdict_def)

lemma probe_outcome_Inr: "probe_outcome i x a = Inr (j, b) \<Longrightarrow> b \<longleftrightarrow> \<not> answers a x"
  by (auto simp: probe_outcome_def answers_def split: sum.splits if_splits)

lemma run_probes_Inr: "run_probes ps = Inr (os, b) \<Longrightarrow> b \<longleftrightarrow> (\<exists>(i, x, a) \<in> set ps. \<not> answers a x)"
proof (induction ps arbitrary: os b rule: run_probes.induct)
  case (2 i x a ps)
  then obtain o1 b1 os2 b2 where o1: "probe_outcome i x a = Inr (o1, b1)" and r: "run_probes ps = Inr (os2, b2)"
    and b: "b = (b1 \<or> b2)"
    by (auto simp: and_then_Inr)
  show ?case using "2.IH"[OF r] probe_outcome_Inr[OF o1] by (simp add: b)
qed simp

lemma run_probes_good: "list_all (\<lambda>(i, x, a). answers a x) ps \<Longrightarrow> \<exists>os. run_probes ps = Inr (os, False)"
  by (induction ps rule: run_probes.induct) (auto simp: probe_outcome_def answers_def split: sum.splits)

lemma tenant_gate_GO:
  assumes "evaluate_reference_gate walk can_read source rv = Inr (GO, h)"
  shows "\<exists>probes. tenant_probes rv = Inr probes \<and> (\<forall>(a, b, x) \<in> set probes. answers (can_read a b) x) \<and>
    (2 \<le> rv \<longrightarrow> canonical_auth_shape walk source = Inr True) \<and>
    (rv = 3 \<longrightarrow> strict_identity_compare_shape walk source = Inr True)"
proof -
  obtain probes os bad sh st where p: "tenant_probes rv = Inr probes"
    and r: "run_probes (map (\<lambda>(a, b, x). ([(''requester'', a), (''resource'', b)], x, can_read a b)) probes) = Inr (os, bad)"
    and sh: "(if 2 \<le> rv then shape_or_false (canonical_auth_shape walk source) else Inr True) = Inr sh"
    and st: "(if rv = 3 then shape_or_false (strict_identity_compare_shape walk source) else Inr True) = Inr st"
    and b: "\<not> bad" "2 \<le> rv \<Longrightarrow> sh" "rv = 3 \<Longrightarrow> st"
    using assms by (auto simp: evaluate_reference_gate_def and_then_Inr Let_def)
  have "shape_or_false m = Inr True \<Longrightarrow> m = Inr True" for m
    by (auto simp: shape_or_false_def split: sum.splits if_splits)
  then show ?thesis using p sh st b run_probes_Inr[OF r] by (auto split: if_splits)
qed

lemma path_gate_GO:
  assumes "evaluate_path_reference_gate walk can_open source rv = Inr (GO, h)"
  shows "\<exists>probes sr. path_gate_setup walk source rv = Inr (probes, sr, True) \<and>
    (\<forall>(b, r, t, x) \<in> set probes. answers (can_open b r t) x)"
proof -
  obtain probes sr sh os bad where p: "path_gate_setup walk source rv = Inr (probes, sr, sh)"
    and r: "run_probes (map (\<lambda>(b, r, t, x).
        ([(''base_dir'', b), (''requested_path'', r), (''resolved_target'', t)], x, can_open b r t)) probes) = Inr (os, bad)"
    and b: "\<not> bad" "sh"
    using assms by (auto simp: evaluate_path_reference_gate_def and_then_Inr Let_def)
  then show ?thesis using run_probes_Inr[OF r] by auto
qed

lemma answers_meets: "answers (path_call c v) (pv_expected v) \<longleftrightarrow> meets (path_call c) pv_expected v"
  by (simp add: answers_def meets_def)

lemma path_rev3_safe:
  assumes "evaluate_path_reference_gate walk can_open source 3 = Inr (GO, h)" "path_evaluate can_open = Inr e"
  shows "oe_verdict e = SAFE"
proof -
  have "path_gate_setup walk source 3 = Inr (probes, sr, True) \<Longrightarrow> probes = rev3_path_probes" for probes sr
    by (auto simp: path_gate_setup_def and_then_Inr)
  then have "\<forall>v \<in> set path_vectors. meets (path_call can_open) pv_expected v"
    using path_gate_GO[OF assms(1)] by (auto simp: rev3_path_probes_def answers_meets[symmetric] path_call_def)
  then show ?thesis using path_oracle.safe_iff_meets_all[of can_open e] assms(2) by (simp add: path_evaluation)
qed

text \<open>The tenant gate's revisions are ordered.\<close>

lemma tenant_probes_nested:
  "tenant_probes 1 = Inr p1 \<Longrightarrow> tenant_probes 2 = Inr p2 \<Longrightarrow> tenant_probes 3 = Inr p3 \<Longrightarrow> set p1 \<subseteq> set p2 \<and> set p2 \<subseteq> set p3"
  by (auto simp: tenant_probes_def)

lemma tenant_gate_runs:
  assumes "tenant_probes rv = Inr probes" "\<forall>(a, b, x) \<in> set probes. answers (can_read a b) x"
    and "2 \<le> rv \<Longrightarrow> canonical_auth_shape walk source = Inr True"
    and "rv = 3 \<Longrightarrow> strict_identity_compare_shape walk source = Inr True"
  shows "\<exists>h. evaluate_reference_gate walk can_read source rv = Inr (GO, h)"
proof -
  let ?ps = "map (\<lambda>(a, b, x). ([(''requester'', a), (''resource'', b)], x, can_read a b)) probes"
  have "list_all (\<lambda>(i, x, a). answers a x) ?ps" using assms(2) by (auto simp: list_all_iff)
  then obtain os where "run_probes ?ps = Inr (os, False)" using run_probes_good by blast
  then show ?thesis
    using assms(1,3,4) by (simp add: evaluate_reference_gate_def Let_def shape_or_false_def)
qed

lemma tenant_gate_stricter:
  assumes "evaluate_reference_gate walk can_read source rv = Inr (GO, h)" "rv' \<in> {1, 2, 3}" "rv' \<le> rv"
  shows "\<exists>h'. evaluate_reference_gate walk can_read source rv' = Inr (GO, h')"
proof -
  from tenant_gate_GO[OF assms(1)] obtain probes where p: "tenant_probes rv = Inr probes"
    "\<forall>(a, b, x) \<in> set probes. answers (can_read a b) x" "2 \<le> rv \<longrightarrow> canonical_auth_shape walk source = Inr True"
    "rv = 3 \<longrightarrow> strict_identity_compare_shape walk source = Inr True" by blast
  have rv: "rv \<in> {1, 2, 3}" using p(1) by (auto simp: tenant_probes_def split: if_splits)
  obtain p1 p2 p3 where ps: "tenant_probes 1 = Inr p1" "tenant_probes 2 = Inr p2" "tenant_probes 3 = Inr p3"
    by (simp add: tenant_probes_def)
  obtain probes' where p': "tenant_probes rv' = Inr probes'" using assms(2) ps by auto
  have "set p1 \<subseteq> set p2" "set p2 \<subseteq> set p3" "set p1 \<subseteq> set p3" using tenant_probes_nested[OF ps] by auto
  then have "set probes' \<subseteq> set probes" using assms(2,3) rv p(1) p' ps by force
  then have "\<forall>(a, b, x) \<in> set probes'. answers (can_read a b) x" using p(2) by blast
  then show ?thesis using assms(2,3) rv p(3,4) p' by (intro tenant_gate_runs) auto
qed

section \<open>Gaps\<close>

text \<open>
  A prefix match passes revision 1 of the tenant gate; a function that hides the probes of revision 2
  behind an assignment to \<open>blocked\<close> passes revision 2 of the path gate.
\<close>

definition prefix_candidate :: tenant_candidate where
  "prefix_candidate = returns (both_strings (\<lambda>a b. starts_with a b \<or> starts_with b a))"

definition deny_list_candidate :: path_candidate where
  "deny_list_candidate = path_returns (\<lambda>b r t.
     \<not> list_ex (\<lambda>x. r = JStr x)
       [''../secret.txt'', ''%2e%2e/secret.txt'', ''..'' @ [CHR 0x5C] @ ''secret.txt'', ''/etc/passwd'', ''link/passwd'', '''']
     \<and> t \<noteq> JStr ''/srv/assets_evil/file.txt'')"

definition deny_list_walk :: walker where
  "deny_list_walk source = Inr
     [FunctionNode ''can_open_path'' [''base_dir'', ''requested_path'', ''resolved_target''], StoreNode ''blocked'']"

lemma prefix_candidate_gap:
  "\<exists>h. evaluate_reference_gate walk prefix_candidate source 1 = Inr (GO, h)"
  "tenant_evaluate prefix_candidate = Inr e \<Longrightarrow> oe_verdict e = UNSAFE"
proof -
  show "\<exists>h. evaluate_reference_gate walk prefix_candidate source 1 = Inr (GO, h)"
    by (rule tenant_gate_runs[where probes = "[probe_of ''tenant-a'' ''tenant-b'' False]"])
      (simp_all add: tenant_probes_def probe_of_def answers_def prefix_candidate_def returns_def)
  have "prefix_candidate \<in> set (map returns tenant_mutants)" by (simp add: prefix_candidate_def tenant_mutants_def)
  then show "tenant_evaluate prefix_candidate = Inr e \<Longrightarrow> oe_verdict e = UNSAFE"
    using tenant_oracle.mutant_unsafe[of prefix_candidate e] by (simp add: tenant_evaluation)
qed

lemma deny_list_gap:
  "\<exists>h. evaluate_path_reference_gate deny_list_walk deny_list_candidate source 2 = Inr (GO, h)"
  "path_evaluate deny_list_candidate = Inr e \<Longrightarrow> oe_verdict e = UNSAFE"
proof -
  have probes: "list_all (\<lambda>(b, r, t, x). answers (deny_list_candidate b r t) x) rev2_path_probes" by code_simp
  let ?ps = "map (\<lambda>(b, r, t, x). ([(''base_dir'', b), (''requested_path'', r), (''resolved_target'', t)], x,
      deny_list_candidate b r t)) rev2_path_probes"
  have "list_all (\<lambda>(i, x, a). answers a x) ?ps"
    using probes by (auto simp: list_all_iff)
  then obtain os where "run_probes ?ps = Inr (os, False)" using run_probes_good by blast
  then show "\<exists>h. evaluate_path_reference_gate deny_list_walk deny_list_candidate source 2 = Inr (GO, h)"
    by (simp add: evaluate_path_reference_gate_def path_gate_setup_def approved_rev2_shape_def path_signature_ok_def
        deny_list_walk_def functions_of_def shape_or_false_def Let_def)
  have "\<not> list_all (\<lambda>v. meets (path_call deny_list_candidate) pv_expected v) path_vectors" by code_simp
  then show "path_evaluate deny_list_candidate = Inr e \<Longrightarrow> oe_verdict e = UNSAFE"
    using path_oracle.safe_iff_meets_all[of deny_list_candidate e]
    by (cases "oe_verdict e") (auto simp: path_evaluation list_all_iff)
qed

end
