(* ===== verification/Binary64.thy ===== *)
theory Binary64
  imports Complex_Main
begin

text \<open>
  The arithmetic of Python's \<open>float\<close>: every operation gives the exact real result, rounded to the
  nearest binary64 number, ties to the even one.  A number of this format has 53 significant bits and
  no bit below \<open>2 powr -1074\<close>.  Overflow, which no value of this program comes near, is left out: the
  rounding has no largest number.  The lemmas: rounding is monotone, keeps 0, 1 and signs, and
  moves a normal number by at most one part in \<open>2 ^ 53\<close>; and a calculus of relative errors.
\<close>

section \<open>Rounding to the nearest integer\<close>

definition round_even :: "real \<Rightarrow> int" where
  "round_even x =
    (let f = \<lfloor>x\<rfloor>; d = x - real_of_int f in if d < 1 / 2 \<or> d = 1 / 2 \<and> even f then f else f + 1)"

lemma round_even_near: "\<bar>real_of_int (round_even x) - x\<bar> \<le> 1 / 2"
proof -
  have "real_of_int \<lfloor>x\<rfloor> \<le> x" "x < real_of_int \<lfloor>x\<rfloor> + 1" by linarith+
  then show ?thesis by (auto simp: round_even_def Let_def)
qed

lemma round_even_floor: "\<lfloor>x\<rfloor> \<le> round_even x" "round_even x \<le> \<lfloor>x\<rfloor> + 1"
  by (simp_all add: round_even_def Let_def)

lemma round_even_of_int [simp]: "round_even (real_of_int k) = k"
  by (simp add: round_even_def)

lemma round_even_mono:
  assumes "x \<le> y"
  shows "round_even x \<le> round_even y"
proof (cases "\<lfloor>x\<rfloor> = \<lfloor>y\<rfloor>")
  case True
  then show ?thesis using assms by (auto simp: round_even_def Let_def)
next
  case False
  then have "\<lfloor>x\<rfloor> + 1 \<le> \<lfloor>y\<rfloor>" using floor_mono[OF assms] by simp
  then show ?thesis using round_even_floor[of x] round_even_floor[of y] by linarith
qed

lemma round_even_unique:
  assumes "\<bar>real_of_int m - x\<bar> < 1 / 2"
  shows "round_even x = m"
proof -
  have "\<bar>real_of_int (round_even x) - real_of_int m\<bar> < 1" using round_even_near[of x] assms by linarith
  then show ?thesis by linarith
qed

section \<open>Rounding to binary64\<close>

text \<open>The exponent of the last bit a number of the magnitude of \<open>x\<close> has.\<close>

definition last_bit :: "real \<Rightarrow> int" where
  "last_bit x = max (\<lfloor>log 2 \<bar>x\<bar>\<rfloor> - 52) (- 1074)"

definition binary64 :: "real \<Rightarrow> real" where
  "binary64 x = real_of_int (round_even (x / 2 powr real_of_int (last_bit x))) * 2 powr real_of_int (last_bit x)"

lemma binade:
  assumes "0 < x"
  shows "2 powr real_of_int \<lfloor>log 2 x\<rfloor> \<le> x" "x < 2 powr (real_of_int \<lfloor>log 2 x\<rfloor> + 1)"
  using floor_log_eq_powr_iff[of x 2 "\<lfloor>log 2 x\<rfloor>"] assms by auto

lemma last_bit_mono: "0 < x \<Longrightarrow> x \<le> y \<Longrightarrow> last_bit x \<le> last_bit y"
  unfolding last_bit_def by (intro max.mono diff_mono floor_mono) auto

text \<open>A power of two whose exponent is not below the last bit is a whole number of last bits.\<close>

lemma powr_whole: "e \<le> k \<Longrightarrow> \<exists>n :: int. 2 powr real_of_int k / 2 powr real_of_int e = real_of_int n"
proof -
  assume "e \<le> k"
  then have "2 powr real_of_int k / 2 powr real_of_int e = (2 :: real) ^ nat (k - e)"
    by (simp add: powr_diff[symmetric] powr_realpow[symmetric])
  then show ?thesis by (metis of_int_numeral of_int_power)
qed

lemma binary64_below:
  assumes "x \<le> 2 powr real_of_int k" "last_bit x \<le> k"
  shows "binary64 x \<le> 2 powr real_of_int k"
proof -
  let ?u = "2 powr real_of_int (last_bit x) :: real"
  obtain n :: int where n: "2 powr real_of_int k / ?u = real_of_int n" using powr_whole[OF assms(2)] by blast
  have "x / ?u \<le> real_of_int n" unfolding n[symmetric] by (intro divide_right_mono assms(1)) simp
  from round_even_mono[OF this] have "real_of_int (round_even (x / ?u)) \<le> 2 powr real_of_int k / ?u" by (simp add: n)
  then show ?thesis by (simp add: binary64_def field_simps)
qed

lemma binary64_above:
  assumes "2 powr real_of_int k \<le> x" "last_bit x \<le> k"
  shows "2 powr real_of_int k \<le> binary64 x"
proof -
  let ?u = "2 powr real_of_int (last_bit x) :: real"
  obtain n :: int where n: "2 powr real_of_int k / ?u = real_of_int n" using powr_whole[OF assms(2)] by blast
  have "real_of_int n \<le> x / ?u" unfolding n[symmetric] by (intro divide_right_mono assms(1)) simp
  from round_even_mono[OF this] have "2 powr real_of_int k / ?u \<le> real_of_int (round_even (x / ?u))" by (simp add: n)
  then show ?thesis by (simp add: binary64_def field_simps)
qed

lemma binary64_zero [simp]: "binary64 0 = 0"
  using round_even_of_int[of 0] by (simp add: binary64_def)

lemma binary64_nonneg: "0 \<le> x \<Longrightarrow> 0 \<le> binary64 x"
  using round_even_mono[of 0 "x / 2 powr real_of_int (last_bit x)"] round_even_of_int[of 0] by (simp add: binary64_def)

lemma binary64_nonpos: "x \<le> 0 \<Longrightarrow> binary64 x \<le> 0"
  using round_even_mono[of "x / 2 powr real_of_int (last_bit x)" 0] round_even_of_int[of 0]
  by (simp add: binary64_def divide_nonpos_nonneg mult_nonpos_nonneg)

lemma binary64_mono:
  assumes "0 \<le> x" "x \<le> y"
  shows "binary64 x \<le> binary64 y"
proof (cases "0 < x \<and> last_bit x \<noteq> last_bit y")
  case True
  then have x: "0 < x" and e: "last_bit x < last_bit y" using last_bit_mono[of x y] assms(2) by auto
  then have y: "0 < y" using assms(2) by simp
  let ?k = "\<lfloor>log 2 y\<rfloor>"
  have k: "last_bit y = ?k - 52" "\<lfloor>log 2 x\<rfloor> < ?k" using e x y by (auto simp: last_bit_def)
  have "x < 2 powr (real_of_int \<lfloor>log 2 x\<rfloor> + 1)" by (rule binade(2)[OF x])
  also have "\<dots> \<le> 2 powr real_of_int ?k" using k(2) by (intro powr_mono) linarith+
  finally have "binary64 x \<le> 2 powr real_of_int ?k" using e k by (intro binary64_below) auto
  also have "\<dots> \<le> binary64 y" using binade(1)[OF y] k(1) by (intro binary64_above) auto
  finally show ?thesis .
next
  case False
  then show ?thesis
  proof (cases "x = 0")
    case True
    then show ?thesis using binary64_nonneg assms by simp
  next
    case nz: False
    then have e: "last_bit x = last_bit y" using False assms(1) by auto
    show ?thesis
      unfolding binary64_def e
      by (intro mult_right_mono) (use round_even_mono[of "x / 2 powr real_of_int (last_bit y)"] assms(2) in \<open>simp_all add: divide_right_mono\<close>)
  qed
qed

lemma binary64_one [simp]: "binary64 1 = 1"
proof -
  have "last_bit 1 = - 52" by (simp add: last_bit_def)
  moreover have "round_even (2 ^ 52) = 2 ^ 52" using round_even_of_int[of "2 ^ 52"] by simp
  ultimately show ?thesis by (simp add: binary64_def powr_minus)
qed

text \<open>Rounding never more than halves a normal number.\<close>

lemma binary64_half: "2 powr - 1022 \<le> x \<Longrightarrow> x \<le> 2 * binary64 x"
proof -
  assume n: "2 powr - 1022 \<le> x"
  then have x: "0 < x" by (rule less_le_trans[rotated]) simp
  have "- 1022 \<le> log 2 x" using n x by (simp add: le_log_iff)
  then have "- 1022 \<le> \<lfloor>log 2 x\<rfloor>" by (simp add: le_floor_iff)
  then have k: "last_bit x \<le> \<lfloor>log 2 x\<rfloor>" using x by (simp add: last_bit_def)
  have "x \<le> 2 * 2 powr real_of_int \<lfloor>log 2 x\<rfloor>" using binade(2)[OF x] by (simp add: powr_add)
  then show ?thesis using binary64_above[OF binade(1)[OF x] k] by simp
qed

lemma binary64_error:
  assumes "2 powr - 1022 \<le> x"
  shows "\<bar>binary64 x - x\<bar> \<le> x / 2 ^ 53"
proof -
  have x: "0 < x" using assms by (rule less_le_trans[rotated]) simp
  have "- 1022 \<le> log 2 x" using assms x by (simp add: le_log_iff)
  then have e: "last_bit x = \<lfloor>log 2 x\<rfloor> - 52" using x by (simp add: last_bit_def max_def) linarith
  let ?u = "2 powr real_of_int (last_bit x) :: real"
  have "binary64 x - x = (real_of_int (round_even (x / ?u)) - x / ?u) * ?u"
    by (simp add: binary64_def left_diff_distrib)
  then have "\<bar>binary64 x - x\<bar> = \<bar>real_of_int (round_even (x / ?u)) - x / ?u\<bar> * ?u"
    by (simp only: abs_mult abs_of_nonneg[OF powr_ge_zero])
  also have "\<dots> \<le> 1 / 2 * ?u" by (intro mult_right_mono round_even_near) simp
  also have "1 / 2 * ?u = 2 powr real_of_int \<lfloor>log 2 x\<rfloor> / 2 ^ 53" by (simp add: e powr_diff)
  also have "\<dots> \<le> x / 2 ^ 53" using binade(1)[OF x] by (intro divide_right_mono) auto
  finally show ?thesis .
qed

lemma last_bit_powr: "- 1022 \<le> k \<Longrightarrow> last_bit (2 powr real_of_int k) \<le> k"
  by (simp add: last_bit_def)

lemma binary64_powr: "- 1022 \<le> k \<Longrightarrow> binary64 (2 powr real_of_int k) = 2 powr real_of_int k"
  using binary64_above[of k "2 powr real_of_int k"] binary64_below[of "2 powr real_of_int k" k] last_bit_powr[of k] by simp

text \<open>The number before 1 is a binary64 number.\<close>

lemma binary64_before_one: "binary64 (1 - 1 / 2 ^ 53) = 1 - 1 / 2 ^ 53"
proof -
  have "\<lfloor>log 2 (1 - 1 / 2 ^ 53)\<rfloor> = - 1"
    by (subst floor_log_eq_powr_iff) (simp_all add: powr_minus)
  then have e: "last_bit (1 - 1 / 2 ^ 53) = - 53" by (simp add: last_bit_def)
  have "round_even (2 ^ 53 - 1) = 2 ^ 53 - 1" using round_even_of_int[of "2 ^ 53 - 1"] by simp
  then show ?thesis unfolding binary64_def e by (simp add: powr_minus)
qed

text \<open>Evaluation on a concrete number below \<open>2 ^ 53\<close>: \<open>m\<close> is the significand and \<open>- j\<close> the exponent of the last bit.\<close>

lemma significand_near:
  assumes "(m - 1 / 2) / 2 ^ j < x" "x < (m + 1 / 2) / 2 ^ j"
  shows "\<bar>m - x * 2 ^ j\<bar> < 1 / (2 :: real)"
proof -
  have "m - 1 / 2 < x * 2 ^ j" "x * 2 ^ j < m + 1 / 2"
    using assms by (simp_all add: pos_divide_less_eq pos_less_divide_eq)
  then show ?thesis by linarith
qed

lemma binary64_eval:
  assumes "2 ^ 52 \<le> x * 2 ^ j" "x * 2 ^ j < 2 ^ 53" "\<bar>real_of_int m - x * 2 ^ j\<bar> < 1 / 2" "j \<le> 1074"
  shows "binary64 x = real_of_int m / 2 ^ j"
proof -
  have "0 < x * 2 ^ j" by (rule less_le_trans[OF _ assms(1)]) simp
  then have x: "0 < x" by (simp add: zero_less_mult_iff)
  have u: "2 powr real_of_int (- int j) = (1 :: real) / 2 ^ j"
    by (simp add: powr_minus powr_realpow divide_inverse)
  have k: "2 powr real_of_int (52 - int j) = (2 :: real) ^ 52 / 2 ^ j"
    by (simp add: powr_diff powr_realpow)
  have "2 powr (real_of_int (52 - int j) + 1) = 2 powr real_of_int (52 - int j) * (2 :: real)"
    by (simp only: powr_add) simp
  also have "\<dots> = (2 :: real) ^ 53 / 2 ^ j" unfolding k by simp
  finally have k': "2 powr (real_of_int (52 - int j) + 1) = (2 :: real) ^ 53 / 2 ^ j" .
  have "2 powr real_of_int (52 - int j) \<le> x" "x < 2 powr (real_of_int (52 - int j) + 1)"
    unfolding k k' using assms(1,2) by (simp_all add: pos_divide_le_eq pos_less_divide_eq)
  then have "\<lfloor>log 2 x\<rfloor> = 52 - int j"
    using x by (subst floor_log_eq_powr_iff) simp_all
  then have "last_bit x = - int j" using x assms(4) by (simp add: last_bit_def)
  moreover have "round_even (x * 2 ^ j) = m" by (rule round_even_unique[OF assms(3)])
  ultimately show ?thesis unfolding binary64_def by (simp only: u) simp
qed

section \<open>Magnitudes\<close>

text \<open>\<open>mag j k x\<close>: \<open>x\<close> lies between the \<open>j\<close>-th and the \<open>k\<close>-th power of two.\<close>

definition mag :: "int \<Rightarrow> int \<Rightarrow> real \<Rightarrow> bool" where
  "mag j k x \<longleftrightarrow> 2 powr real_of_int j \<le> x \<and> x \<le> 2 powr real_of_int k"

lemma mag_pos: "mag j k x \<Longrightarrow> 0 < x"
  unfolding mag_def by (elim conjE) (erule less_le_trans[rotated], simp)

lemma mag_mult:
  assumes "mag a b x" "mag c d y"
  shows "mag (a + c) (b + d) (x * y)"
  using assms mag_pos[OF assms(1)] mag_pos[OF assms(2)] by (simp add: mag_def powr_add mult_mono)

lemma mag_divide:
  assumes "mag a b x" "mag c d y"
  shows "mag (a - d) (b - c) (x / y)"
  using assms mag_pos[OF assms(1)] mag_pos[OF assms(2)] by (simp add: mag_def powr_diff frac_le)

lemma mag_add:
  assumes "mag a b x" "0 \<le> y" "y \<le> 2 powr real_of_int b"
  shows "mag a (b + 1) (x + y)"
  using assms by (simp add: mag_def powr_add)

lemma mag_sqrt:
  assumes "mag (2 * a) (2 * b) x"
  shows "mag a b (sqrt x)"
proof -
  have "sqrt (2 powr (2 * real_of_int k)) = 2 powr real_of_int k" for k
    by (simp add: powr_half_sqrt[symmetric] powr_powr)
  then show ?thesis using assms real_sqrt_le_mono by (metis mag_def of_int_mult of_int_numeral)
qed

lemma mag_binary64:
  assumes "mag a b x" "- 1022 \<le> a" "a \<le> b"
  shows "mag a b (binary64 x)"
  using assms binary64_mono[of "2 powr real_of_int a" x] binary64_mono[of x "2 powr real_of_int b"] mag_pos[OF assms(1)]
    binary64_powr[of a] binary64_powr[of b]
  by (simp add: mag_def)

lemma mag_weaken: "mag a b x \<Longrightarrow> c \<le> a \<Longrightarrow> b \<le> d \<Longrightarrow> mag c d x"
  unfolding mag_def by (meson of_int_le_iff order_trans powr_mono one_le_numeral)

lemma mag_normal: "mag a b x \<Longrightarrow> - 1022 \<le> a \<Longrightarrow> 2 powr - 1022 \<le> x"
  using mag_weaken[of a b x "- 1022" b] by (simp add: mag_def)

section \<open>Relative errors\<close>

text \<open>\<open>near k a b\<close>: \<open>a\<close> is \<open>b\<close> up to \<open>k\<close> roundings.\<close>

definition rnd :: real where "rnd = 1 + 1 / 2 ^ 52"

lemma rnd_ge [simp]: "1 \<le> rnd" "0 < rnd" "0 \<le> rnd" "rnd \<noteq> 0"
  by (simp_all add: rnd_def)

lemma rnd_power [simp]: "0 < rnd ^ k" "0 \<le> rnd ^ k" "\<bar>rnd ^ k\<bar> = rnd ^ k" "1 \<le> rnd ^ k"
  by (simp_all add: abs_of_pos order.strict_implies_order)

definition near :: "nat \<Rightarrow> real \<Rightarrow> real \<Rightarrow> bool" where
  "near k a b \<longleftrightarrow> 0 \<le> b \<and> b / rnd ^ k \<le> a \<and> a \<le> b * rnd ^ k"

lemma near_nonneg: "near k a b \<Longrightarrow> 0 \<le> a" "near k a b \<Longrightarrow> 0 \<le> b"
proof -
  show "0 \<le> a" if n: "near k a b"
  proof -
    have "0 \<le> b / rnd ^ k" "b / rnd ^ k \<le> a" using n by (simp_all add: near_def zero_le_divide_iff)
    then show ?thesis by linarith
  qed
  show "near k a b \<Longrightarrow> 0 \<le> b" by (simp add: near_def)
qed

lemma near_refl: "0 \<le> a \<Longrightarrow> near 0 a a"
  by (simp add: near_def)

lemma near_mono: "near j a b \<Longrightarrow> j \<le> k \<Longrightarrow> near k a b"
proof -
  assume n: "near j a b" and jk: "j \<le> k"
  have p: "rnd ^ j \<le> rnd ^ k" using jk by (intro power_increasing) simp_all
  have "b / rnd ^ k \<le> b / rnd ^ j" using n p by (intro divide_left_mono) (simp_all add: near_def)
  moreover have "b * rnd ^ j \<le> b * rnd ^ k" using n p by (intro mult_left_mono) (simp_all add: near_def)
  ultimately show ?thesis using n unfolding near_def by linarith
qed

lemma near_mult:
  assumes "near j a b" "near k c d"
  shows "near (j + k) (a * c) (b * d)"
proof -
  note n = near_nonneg[OF assms(1)] near_nonneg[OF assms(2)]
  have "b / rnd ^ j * (d / rnd ^ k) \<le> a * c"
    by (rule mult_mono) (use assms n in \<open>simp_all add: near_def\<close>)
  moreover have "a * c \<le> b * rnd ^ j * (d * rnd ^ k)"
    by (rule mult_mono) (use assms n in \<open>simp_all add: near_def\<close>)
  ultimately show ?thesis using near_nonneg[OF assms(1)] near_nonneg[OF assms(2)] by (simp add: near_def power_add ac_simps)
qed

lemma near_divide:
  assumes "near j a b" "near k c d" "0 < d"
  shows "near (j + k) (a / c) (b / d)"
proof -
  have c: "0 < c" using assms(2,3) by (intro less_le_trans[of 0 "d / rnd ^ k" c]) (simp_all add: near_def)
  note n = near_nonneg[OF assms(1)]
  have "b / rnd ^ j / (d * rnd ^ k) \<le> a / c"
    by (rule frac_le) (use assms n c in \<open>simp_all add: near_def\<close>)
  moreover have "a / c \<le> b * rnd ^ j / (d / rnd ^ k)"
    by (rule frac_le) (use assms n in \<open>simp_all add: near_def\<close>)
  ultimately show ?thesis using near_nonneg[OF assms(1)] assms(3) by (simp add: near_def power_add ac_simps)
qed

lemma near_add:
  assumes "near k a b" "near k c d"
  shows "near k (a + c) (b + d)"
  using assms by (auto simp: near_def add_divide_distrib distrib_right)

lemma near_sqrt:
  assumes "near k a b"
  shows "near k (sqrt a) (sqrt b)"
proof -
  have r: "rnd ^ k \<le> (rnd ^ k)\<^sup>2" by (simp add: self_le_power)
  have b: "0 \<le> b" using near_nonneg[OF assms] by simp
  have "sqrt b / rnd ^ k = sqrt (b / (rnd ^ k)\<^sup>2)" by (simp add: real_sqrt_divide)
  also have "b / (rnd ^ k)\<^sup>2 \<le> b / rnd ^ k" using r b by (intro divide_left_mono) simp_all
  then have "sqrt (b / (rnd ^ k)\<^sup>2) \<le> sqrt a" using assms by (simp add: near_def)
  finally have 1: "sqrt b / rnd ^ k \<le> sqrt a" .
  have "b * rnd ^ k \<le> b * (rnd ^ k)\<^sup>2" using r b by (intro mult_left_mono)
  then have "sqrt a \<le> sqrt (b * (rnd ^ k)\<^sup>2)" using assms by (simp add: near_def)
  also have "\<dots> = sqrt b * rnd ^ k" by (simp add: real_sqrt_mult)
  finally show ?thesis using 1 b by (simp add: near_def)
qed

lemma near_binary64:
  assumes "near k a b" "a = 0 \<or> 2 powr - 1022 \<le> a"
  shows "near (Suc k) (binary64 a) b"
proof (cases "a = 0")
  case True
  then show ?thesis using assms(1) near_mono[of k a b "Suc k"] by simp
next
  case False
  then have e: "\<bar>binary64 a - a\<bar> \<le> a / 2 ^ 53" using assms(2) binary64_error by simp
  have a: "0 \<le> a" using near_nonneg[OF assms(1)] by simp
  have "a / rnd \<le> a * (1 - 1 / 2 ^ 53)" using a by (simp add: rnd_def field_simps)
  also have "\<dots> = a - a / 2 ^ 53" by (simp add: right_diff_distrib)
  also have "\<dots> \<le> binary64 a" using e by linarith
  finally have lo: "a / rnd \<le> binary64 a" .
  have "binary64 a \<le> a + a / 2 ^ 53" using e by linarith
  also have "\<dots> = a * (1 + 1 / 2 ^ 53)" by (simp add: distrib_left)
  also have "\<dots> \<le> a * rnd" using a by (intro mult_left_mono) (simp_all add: rnd_def)
  finally have hi: "binary64 a \<le> a * rnd" .
  have "b / rnd ^ Suc k = b / rnd ^ k / rnd" by simp
  also have "\<dots> \<le> a / rnd" using assms(1) by (intro divide_right_mono) (simp_all add: near_def)
  finally have 1: "b / rnd ^ Suc k \<le> binary64 a" using lo by simp
  have "a * rnd \<le> b * rnd ^ k * rnd" using assms(1) by (intro mult_right_mono) (simp_all add: near_def)
  then have "binary64 a \<le> b * rnd ^ k * rnd" using hi by linarith
  then have "binary64 a \<le> b * rnd ^ Suc k" by (simp add: ac_simps)
  then show ?thesis using 1 near_nonneg[OF assms(1)] by (simp add: near_def)
qed

end
