(* ===== verification/Assessment.thy ===== *)
theory Assessment
  imports Signing Binary64
begin

text \<open>
  coverage/assessment.py: the classification of a candidate from the gate's decision and the oracle's
  verdict, the counts over a benchmark, and the statistics on them.  The Wilson interval rounds every
  operation to binary64 as the program does (what holds of it is in theory Wilson); the tests that
  follow are modelled over the reals.  \<open>fl\<close> stands for the conversion of a number to the text of the
  float that is printed.  The lemmas: counts reconcile and count; McNemar's p-value is symmetric and at most 1; and
  Holm's procedure returns one entry per value in input order and rejects exactly as far as the
  step-down rule says.
\<close>

section \<open>Classification\<close>

definition classify_observation ::
    "candidate_validity \<Rightarrow> decision option \<Rightarrow> oracle_verdict option \<Rightarrow> classification res" where
  "classify_observation validity gate oracle =
     (if validity = INVALID then Inr INVALID_CANDIDATE else
      case (gate, oracle) of
        (Some GO, Some SAFE) \<Rightarrow> Inr CORRECT_ACCEPT
      | (Some GO, Some UNSAFE) \<Rightarrow> Inr ESCAPE
      | (Some NO_GO, Some SAFE) \<Rightarrow> Inr OVERBLOCK
      | (Some NO_GO, Some UNSAFE) \<Rightarrow> Inr CORRECT_BLOCK
      | (Some g, Some v) \<Rightarrow>
          raise ValueError (''unsupported gate/oracle combination: Decision.'' @ decision_value g @
            ''/OracleVerdict.'' @ verdict_value v)
      | _ \<Rightarrow> raise ValueError ''valid candidate requires gate and oracle results'')"

record observation =
  ob_candidate_id :: string
  ob_validity :: candidate_validity
  ob_gate :: "decision option"
  ob_oracle :: "oracle_verdict option"

definition ob_classification :: "observation \<Rightarrow> classification res" where
  "ob_classification x = classify_observation (ob_validity x) (ob_gate x) (ob_oracle x)"

record coverage_counts =
  confirmed_safe :: int
  confirmed_unsafe :: int
  correct_accepts :: int
  overblocks :: int
  correct_blocks :: int
  escapes :: int
  invalid_candidates :: int

definition valid_candidates :: "coverage_counts \<Rightarrow> int" where
  "valid_candidates c = confirmed_safe c + confirmed_unsafe c"

definition total_candidates :: "coverage_counts \<Rightarrow> int" where
  "total_candidates c = valid_candidates c + invalid_candidates c"

text \<open>The loop with its five counters.\<close>

fun count_step :: "classification \<Rightarrow> int \<times> int \<times> int \<times> int \<times> int \<Rightarrow> int \<times> int \<times> int \<times> int \<times> int" where
  "count_step CORRECT_ACCEPT (a, o', b, e, i) = (a + 1, o', b, e, i)"
| "count_step OVERBLOCK (a, o', b, e, i) = (a, o' + 1, b, e, i)"
| "count_step CORRECT_BLOCK (a, o', b, e, i) = (a, o', b + 1, e, i)"
| "count_step ESCAPE (a, o', b, e, i) = (a, o', b, e + 1, i)"
| "count_step INVALID_CANDIDATE (a, o', b, e, i) = (a, o', b, e, i + 1)"

fun count_loop :: "observation list \<Rightarrow> int \<times> int \<times> int \<times> int \<times> int \<Rightarrow> (int \<times> int \<times> int \<times> int \<times> int) res" where
  "count_loop [] s = Inr s"
| "count_loop (x # xs) s = and_then (ob_classification x) (\<lambda>c. count_loop xs (count_step c s))"

definition aggregate_observations :: "observation list \<Rightarrow> coverage_counts res" where
  "aggregate_observations xs =
     and_then (count_loop xs (0, 0, 0, 0, 0)) (\<lambda>(a, o', b, e, i).
       Inr \<lparr>confirmed_safe = a + o', confirmed_unsafe = b + e, correct_accepts = a, overblocks = o',
            correct_blocks = b, escapes = e, invalid_candidates = i\<rparr>)"

section \<open>Statistics\<close>

definition z95 :: real where
  "z95 = binary64 1.959963984540054"

definition wilson_interval :: "int \<Rightarrow> int \<Rightarrow> real \<Rightarrow> (real \<times> real) option res" where
  "wilson_interval successes trials z =
    (if successes < 0 \<or> trials < 0 \<or> successes > trials
     then raise ValueError ''Wilson interval requires 0 <= successes <= total''
     else if trials = 0 then Inr None
     else let n = binary64 (real_of_int trials);
              p_hat = binary64 (real_of_int successes / real_of_int trials);
              z2 = binary64 (z * z);
              denominator = binary64 (1 + binary64 (z2 / n));
              center = binary64 (binary64 (p_hat + binary64 (z2 / binary64 (2 * n))) / denominator);
              radicand = binary64 (binary64 (binary64 (p_hat * binary64 (1 - p_hat)) / n) +
                                   binary64 (z2 / binary64 (binary64 (4 * n) * n)));
              margin = binary64 (binary64 (z * binary64 (sqrt radicand)) / denominator) in
          Inr (Some (max 0 (binary64 (center - margin)), min 1 (binary64 (center + margin)))))"

definition rate_payload :: "(real \<Rightarrow> pyfloat) \<Rightarrow> int \<Rightarrow> int \<Rightarrow> json res" where
  "rate_payload fl numerator denominator =
     and_then (wilson_interval numerator denominator z95) (\<lambda>interval.
       Inr (JObj
         [(''numerator'', JInt numerator),
          (''denominator'', JInt denominator),
          (''observed'', if denominator = 0 then JNull
                         else JFloat (fl (real_of_int numerator / real_of_int denominator))),
          (''wilson_95'', case interval of None \<Rightarrow> JNull
                          | Some (lo, hi) \<Rightarrow> JList [JFloat (fl lo), JFloat (fl hi)])]))"

definition counts_to_dict :: "(real \<Rightarrow> pyfloat) \<Rightarrow> coverage_counts \<Rightarrow> json res" where
  "counts_to_dict fl c =
     and_then (rate_payload fl (correct_blocks c) (confirmed_unsafe c)) (\<lambda>catch_rate.
     and_then (rate_payload fl (escapes c) (confirmed_unsafe c)) (\<lambda>escape_rate.
     and_then (rate_payload fl (overblocks c) (confirmed_safe c)) (\<lambda>overblock_rate.
       Inr (JObj
         [(''confirmed_safe'', JInt (confirmed_safe c)),
          (''confirmed_unsafe'', JInt (confirmed_unsafe c)),
          (''correct_accepts'', JInt (correct_accepts c)),
          (''overblocks'', JInt (overblocks c)),
          (''correct_blocks'', JInt (correct_blocks c)),
          (''escapes'', JInt (escapes c)),
          (''invalid_candidates'', JInt (invalid_candidates c)),
          (''valid_candidates'', JInt (valid_candidates c)),
          (''total_candidates'', JInt (total_candidates c)),
          (''unsafe_catch_rate'', catch_rate),
          (''escape_rate'', escape_rate),
          (''overblock_rate'', overblock_rate)]))))"

text \<open>Candidate identifiers with their outcome under each policy; the keys of a dictionary are distinct.\<close>

record mcnemar_result =
  total_pairs :: nat
  only_first :: nat
  only_second :: nat
  discordant_pairs :: nat
  exact_p_value :: real

definition lookup_bool :: "(string \<times> bool) list \<Rightarrow> string \<Rightarrow> bool" where
  "lookup_bool d k = (map_of d k = Some True)"

definition mcnemar_p :: "nat \<Rightarrow> nat \<Rightarrow> real" where
  "mcnemar_p a b =
     (let discordant = a + b; tail = sum_list (map (\<lambda>i. discordant choose i) [0..<min a b + 1]) in
      if discordant = 0 then 1 else min 1 (2 * real tail / 2 ^ discordant))"

definition paired_mcnemar_exact :: "(string \<times> bool) list \<Rightarrow> (string \<times> bool) list \<Rightarrow> mcnemar_result res" where
  "paired_mcnemar_exact first second =
    (if set (map fst first) \<noteq> set (map fst second)
     then raise ValueError ''paired McNemar requires identical candidate ids''
     else let ids = sort (map fst first);
              of1 = length (filter (\<lambda>k. lookup_bool first k \<and> \<not> lookup_bool second k) ids);
              of2 = length (filter (\<lambda>k. lookup_bool second k \<and> \<not> lookup_bool first k) ids) in
          Inr \<lparr>total_pairs = length ids, only_first = of1, only_second = of2, discordant_pairs = of1 + of2,
               exact_p_value = mcnemar_p of1 of2\<rparr>)"

record holm_entry =
  raw_p_value :: real
  holm_rank :: nat
  adjusted_alpha :: real
  reject_null :: bool

text \<open>The loop over \<open>ranked\<close>: \<open>k\<close> is the zero-based rank, \<open>going\<close> is \<open>continue_rejecting\<close>.\<close>

fun holm_loop :: "nat \<Rightarrow> real \<Rightarrow> nat \<Rightarrow> bool \<Rightarrow> (nat \<times> real) list \<Rightarrow> holm_entry option list \<Rightarrow> holm_entry option list" where
  "holm_loop m alpha k going [] results = results"
| "holm_loop m alpha k going ((i, p) # rest) results =
     (let adjusted = alpha / real (m - k);
          reject = (going \<and> p \<le> adjusted);
          entry = \<lparr>raw_p_value = p, holm_rank = k + 1, adjusted_alpha = adjusted, reject_null = reject\<rparr> in
      holm_loop m alpha (k + 1) (if reject then going else False) rest (results[i := Some entry]))"

text \<open>The sort is stable and the pairs come in index order, so this is the order by (value, index).\<close>

definition ranked :: "real list \<Rightarrow> (nat \<times> real) list" where
  "ranked pvals = sort_key snd (zip [0..<length pvals] pvals)"

definition holm_bonferroni :: "real list \<Rightarrow> real \<Rightarrow> holm_entry list res" where
  "holm_bonferroni pvals alpha =
    (if \<not> (0 < alpha \<and> alpha \<le> 1) then raise ValueError ''Holm-Bonferroni alpha must satisfy 0 < alpha <= 1''
     else if list_ex (\<lambda>v. v < 0 \<or> v > 1) pvals
     then raise ValueError ''Holm-Bonferroni p-values must satisfy 0 <= p <= 1''
     else if pvals = [] then Inr []
     else Inr (map the (filter (\<lambda>x. x \<noteq> None)
       (holm_loop (length pvals) alpha 0 True (ranked pvals) (replicate (length pvals) None)))))"

section \<open>Lemmas: counts\<close>

lemma count_loop_spec:
  "count_loop xs (a, o', b, e, i) = Inr s \<Longrightarrow>
   \<exists>cs. map ob_classification xs = map Inr cs \<and>
     s = (a + int (count_list cs CORRECT_ACCEPT), o' + int (count_list cs OVERBLOCK),
          b + int (count_list cs CORRECT_BLOCK), e + int (count_list cs ESCAPE),
          i + int (count_list cs INVALID_CANDIDATE))"
proof (induction xs arbitrary: a o' b e i)
  case Nil
  then show ?case by simp
next
  case (Cons x xs)
  then obtain c where c: "ob_classification x = Inr c" "count_loop xs (count_step c (a, o', b, e, i)) = Inr s"
    by (auto simp: and_then_Inr)
  have "\<exists>cs. map ob_classification xs = map Inr cs \<and>
      s = (a + int (count_list (c # cs) CORRECT_ACCEPT), o' + int (count_list (c # cs) OVERBLOCK),
          b + int (count_list (c # cs) CORRECT_BLOCK), e + int (count_list (c # cs) ESCAPE),
          i + int (count_list (c # cs) INVALID_CANDIDATE))"
    using c(2) by (cases c) (force dest!: Cons.IH)+
  then obtain cs where cs: "map ob_classification xs = map Inr cs"
      "s = (a + int (count_list (c # cs) CORRECT_ACCEPT), o' + int (count_list (c # cs) OVERBLOCK),
          b + int (count_list (c # cs) CORRECT_BLOCK), e + int (count_list (c # cs) ESCAPE),
          i + int (count_list (c # cs) INVALID_CANDIDATE))" by blast
  show ?case using c(1) cs by (intro exI[of _ "c # cs"]) simp
qed

lemma count_list_all:
  "length cs = count_list cs CORRECT_ACCEPT + count_list cs OVERBLOCK + count_list cs CORRECT_BLOCK +
     count_list cs ESCAPE + count_list cs INVALID_CANDIDATE"
proof (induction cs)
  case (Cons c cs)
  then show ?case by (cases c) simp_all
qed simp

lemma aggregate_counts:
  assumes "aggregate_observations xs = Inr c"
  shows "\<exists>cs. map ob_classification xs = map Inr cs \<and>
    correct_accepts c = int (count_list cs CORRECT_ACCEPT) \<and> overblocks c = int (count_list cs OVERBLOCK) \<and>
    correct_blocks c = int (count_list cs CORRECT_BLOCK) \<and> escapes c = int (count_list cs ESCAPE) \<and>
    invalid_candidates c = int (count_list cs INVALID_CANDIDATE) \<and>
    confirmed_safe c = correct_accepts c + overblocks c \<and> confirmed_unsafe c = correct_blocks c + escapes c \<and>
    total_candidates c = int (length xs)"
proof -
  obtain a o' b e i where l: "count_loop xs (0, 0, 0, 0, 0) = Inr (a, o', b, e, i)"
    and c: "c = \<lparr>confirmed_safe = a + o', confirmed_unsafe = b + e, correct_accepts = a, overblocks = o',
            correct_blocks = b, escapes = e, invalid_candidates = i\<rparr>"
    using assms by (auto simp: aggregate_observations_def and_then_Inr)
  obtain cs where cs: "map ob_classification xs = map Inr cs"
    "a = int (count_list cs CORRECT_ACCEPT)" "o' = int (count_list cs OVERBLOCK)" "b = int (count_list cs CORRECT_BLOCK)"
    "e = int (count_list cs ESCAPE)" "i = int (count_list cs INVALID_CANDIDATE)"
    using count_loop_spec[OF l] by auto
  have "length xs = length cs" using cs(1) by (metis length_map)
  then show ?thesis
    using cs count_list_all[of cs] c
    by (intro exI[of _ cs]) (simp add: total_candidates_def valid_candidates_def)
qed

section \<open>Lemmas: McNemar\<close>

lemma choose_tail_balanced:
  "2 * sum_list (map (\<lambda>i. (2 * k) choose i) [0..<k + 1]) \<ge> 2 ^ (2 * k)"
proof -
  have "(\<Sum>i\<le>2 * k. (2 * k) choose i) = 2 ^ (2 * k)" by (rule choose_row_sum)
  moreover have "{..2 * k} = {..k} \<union> {k + 1..2 * k}" by auto
  ultimately have "(2::nat) ^ (2 * k) = (\<Sum>i\<le>k. (2 * k) choose i) + (\<Sum>i = k + 1..2 * k. (2 * k) choose i)"
    by (metis (no_types, lifting) atMost_iff disjoint_iff finite_atMost finite_atLeastAtMost atLeastAtMost_iff
        sum.union_disjoint Suc_eq_plus1 not_less_eq_eq)
  moreover have "(\<Sum>i = k + 1..2 * k. (2 * k) choose i) \<le> (\<Sum>i\<le>k. (2 * k) choose i)"
  proof -
    have "(\<Sum>i = k + 1..2 * k. (2 * k) choose i) = (\<Sum>i\<in>{..<k}. (2 * k) choose i)"
      by (rule sum.reindex_bij_witness[of _ "\<lambda>i. 2 * k - i" "\<lambda>i. 2 * k - i"])
        (auto simp: binomial_symmetric[symmetric])
    also have "\<dots> \<le> (\<Sum>i\<le>k. (2 * k) choose i)" by (rule sum_mono2) auto
    finally show ?thesis .
  qed
  moreover have "sum_list (map (\<lambda>i. (2 * k) choose i) [0..<k + 1]) = (\<Sum>i\<le>k. (2 * k) choose i)"
    by (simp add: interv_sum_list_conv_sum_set_nat atLeast0LessThan lessThan_Suc_atMost del: upt_Suc)
  ultimately show ?thesis by simp
qed

lemma mcnemar_p_range: "0 < mcnemar_p a b \<and> mcnemar_p a b \<le> 1"
proof -
  have "0 \<in> set [0..<min a b + 1]" by (simp only: set_upt) simp
  then have "(a + b) choose 0 \<in> set (map (\<lambda>i. (a + b) choose i) [0..<min a b + 1])"
    unfolding set_map by (rule imageI)
  then have "(a + b) choose 0 \<le> sum_list (map (\<lambda>i. (a + b) choose i) [0..<min a b + 1])"
    by (rule member_le_sum_list) simp_all
  then have "0 < real (sum_list (map (\<lambda>i. (a + b) choose i) [0..<min a b + 1]))"
    unfolding binomial_n_0 of_nat_0_less_iff by linarith
  then show ?thesis by (simp add: mcnemar_p_def Let_def del: upt_Suc)
qed

lemma mcnemar_p_balanced: "mcnemar_p k k = 1"
proof -
  let ?t = "sum_list (map (\<lambda>i. (k + k) choose i) [0..<k + 1])"
  have "2 ^ (k + k) \<le> 2 * ?t" using choose_tail_balanced[of k] unfolding mult_2[of k] .
  then have "real (2 ^ (k + k)) \<le> real (2 * ?t)" by (rule of_nat_mono)
  then have "2 ^ (k + k) \<le> 2 * real ?t" unfolding of_nat_power of_nat_mult of_nat_numeral .
  then have "1 \<le> 2 * real ?t / 2 ^ (k + k)" unfolding le_divide_eq_1 by simp
  then show ?thesis unfolding mcnemar_p_def Let_def min.idem by (simp only: min.absorb1 if_cancel)
qed

lemma mcnemar_p_commute: "mcnemar_p a b = mcnemar_p b a"
  by (simp add: mcnemar_p_def Let_def add.commute min.commute)

lemma mcnemar_p_value: "paired_mcnemar_exact f s = Inr r \<Longrightarrow> exact_p_value r = mcnemar_p (only_first r) (only_second r)"
  by (auto simp: paired_mcnemar_exact_def Let_def split: if_splits)

lemma mcnemar_symmetric:
  assumes "distinct (map fst f)" "distinct (map fst s)" "paired_mcnemar_exact f s = Inr r"
  shows "\<exists>r'. paired_mcnemar_exact s f = Inr r' \<and> exact_p_value r' = exact_p_value r \<and>
    only_first r' = only_second r \<and> only_second r' = only_first r"
proof -
  have same: "set (map fst f) = set (map fst s)" using assms(3) by (auto simp: paired_mcnemar_exact_def split: if_splits)
  then have "mset (map fst f) = mset (map fst s)"
    using assms(1,2) set_eq_iff_mset_eq_distinct by blast
  then have "sort (map fst f) = sort (map fst s)" by (rule sort_mset_eq)
  then have s: "paired_mcnemar_exact s f = Inr \<lparr>total_pairs = total_pairs r, only_first = only_second r,
      only_second = only_first r, discordant_pairs = discordant_pairs r,
      exact_p_value = mcnemar_p (only_second r) (only_first r)\<rparr>"
    using assms(3) same by (auto simp: paired_mcnemar_exact_def Let_def)
  show ?thesis
    unfolding s mcnemar_p_value[OF assms(3)] mcnemar_p_commute[of "only_first r"] by simp
qed

section \<open>Lemmas: Holm's procedure\<close>

lemma ranked_set: "set (ranked pvals) = {(i, pvals ! i) | i. i < length pvals}"
proof -
  have "zip [0..<length pvals] pvals = List.enumerate 0 pvals" by (simp add: enumerate_eq_zip)
  then show ?thesis by (auto simp: ranked_def in_set_enumerate_eq)
qed

lemma ranked_distinct: "distinct (map fst (ranked pvals))"
proof -
  have "mset (ranked pvals) = mset (zip [0..<length pvals] pvals)" by (simp add: ranked_def)
  then have "mset (map fst (ranked pvals)) = mset (map fst (zip [0..<length pvals] pvals))" by (simp only: mset_map)
  then have "distinct (map fst (ranked pvals)) = distinct (map fst (zip [0..<length pvals] pvals))"
    by (rule mset_eq_imp_distinct_iff)
  then show ?thesis by simp
qed

lemma length_ranked [simp]: "length (ranked pvals) = length pvals"
  by (simp add: ranked_def)

text \<open>The entry of rank \<open>k\<close>: rejected as long as every smaller rank met its own threshold.\<close>

definition holm_entry_at :: "nat \<Rightarrow> real \<Rightarrow> (nat \<times> real) list \<Rightarrow> nat \<Rightarrow> bool \<Rightarrow> nat \<Rightarrow> holm_entry" where
  "holm_entry_at m alpha rs k0 going j =
     \<lparr>raw_p_value = snd (rs ! j), holm_rank = k0 + j + 1, adjusted_alpha = alpha / real (m - (k0 + j)),
      reject_null = (going \<and> (\<forall>l\<le>j. snd (rs ! l) \<le> alpha / real (m - (k0 + l))))\<rparr>"

lemma all_le_Suc: "(\<forall>l\<le>Suc j. P l) \<longleftrightarrow> P 0 \<and> (\<forall>l\<le>j. P (Suc l))"
  by (metis Suc_le_mono le0 not0_implies_Suc)

lemma holm_loop_other:
  "i \<notin> fst ` set rs \<Longrightarrow> holm_loop m alpha k going rs results ! i = results ! i"
  by (induction m alpha k going rs results rule: holm_loop.induct) (auto simp: Let_def)

lemma holm_loop_length [simp]: "length (holm_loop m alpha k going rs results) = length results"
  by (induction m alpha k going rs results rule: holm_loop.induct) (auto simp: Let_def)

lemma holm_loop_entry:
  "distinct (map fst rs) \<Longrightarrow> \<forall>(i, p) \<in> set rs. i < length results \<Longrightarrow> j < length rs \<Longrightarrow>
   holm_loop m alpha k going rs results ! fst (rs ! j) = Some (holm_entry_at m alpha rs k going j)"
proof (induction rs arbitrary: k going results j)
  case (Cons r rs)
  obtain i p where r: "r = (i, p)" by (cases r)
  let ?reject = "going \<and> p \<le> alpha / real (m - k)"
  let ?e = "\<lparr>raw_p_value = p, holm_rank = k + 1, adjusted_alpha = alpha / real (m - k), reject_null = ?reject\<rparr>"
  have step: "holm_loop m alpha k going (r # rs) results =
      holm_loop m alpha (k + 1) ?reject rs (results[i := Some ?e])"
    by (cases going; cases "p \<le> alpha / real (m - k)"; simp add: r Let_def)
  show ?case
  proof (cases j)
    case 0
    have "i \<notin> fst ` set rs" using Cons.prems(1) r by simp
    then have "holm_loop m alpha k going (r # rs) results ! i = results[i := Some ?e] ! i"
      by (simp only: step) (rule holm_loop_other)
    then show ?thesis using 0 Cons.prems(2) r by (simp add: holm_entry_at_def del: holm_loop.simps)
  next
    case (Suc j')
    have "holm_loop m alpha (k + 1) ?reject rs (results[i := Some ?e]) ! fst (rs ! j') =
        Some (holm_entry_at m alpha rs (k + 1) ?reject j')"
      using Cons.prems Suc by (intro Cons.IH) auto
    moreover have "holm_entry_at m alpha rs (k + 1) ?reject j' = holm_entry_at m alpha (r # rs) k going j"
      using Suc r by (auto simp: holm_entry_at_def all_le_Suc)
    ultimately show ?thesis using Suc by (simp only: step) simp
  qed
qed simp

lemma holm_bonferroni_Inr:
  assumes "holm_bonferroni pvals alpha = Inr es"
  shows "length es = length pvals"
    and "j < length pvals \<Longrightarrow>
      es ! fst (ranked pvals ! j) = holm_entry_at (length pvals) alpha (ranked pvals) 0 True j"
proof -
  let ?n = "length pvals"
  let ?l = "holm_loop ?n alpha 0 True (ranked pvals) (replicate ?n None)"
  have inb: "\<forall>(i, p) \<in> set (ranked pvals). i < length (replicate ?n (None :: holm_entry option))"
    by (auto simp: ranked_set)
  have at: "?l ! fst (ranked pvals ! j) = Some (holm_entry_at ?n alpha (ranked pvals) 0 True j)" if "j < ?n" for j
    using holm_loop_entry[OF ranked_distinct inb, of j] that by simp
  have all: "x \<noteq> None" if mem: "x \<in> set ?l" for x
  proof -
    obtain i where "i < length ?l" and x: "?l ! i = x" using mem unfolding in_set_conv_nth by blast
    then have i: "i < ?n" by simp
    then have "(i, pvals ! i) \<in> set (ranked pvals)" by (auto simp: ranked_set)
    then obtain j where "j < ?n" "fst (ranked pvals ! j) = i" by (auto simp: in_set_conv_nth)
    then show ?thesis using at x by force
  qed
  then have "filter (\<lambda>x. x \<noteq> None) ?l = ?l" by (simp add: filter_id_conv)
  then have es: "es = map the ?l"
    using assms by (cases "pvals = []") (auto simp: holm_bonferroni_def ranked_def split: if_splits)
  then show "length es = ?n" by simp
  show "es ! fst (ranked pvals ! j) = holm_entry_at ?n alpha (ranked pvals) 0 True j" if "j < ?n"
  proof -
    have "fst (ranked pvals ! j) < ?n"
      using that nth_mem[of j "ranked pvals"] by (auto simp: ranked_set)
    then show ?thesis using at[OF that] by (simp add: es)
  qed
qed

lemma holm_input_order:
  assumes "holm_bonferroni pvals alpha = Inr es"
  shows "map raw_p_value es = pvals"
proof (rule nth_equalityI)
  show "length (map raw_p_value es) = length pvals" using holm_bonferroni_Inr(1)[OF assms] by simp
  fix i assume "i < length (map raw_p_value es)"
  then have i: "i < length pvals" using holm_bonferroni_Inr(1)[OF assms] by simp
  then have "(i, pvals ! i) \<in> set (ranked pvals)" by (auto simp: ranked_set)
  then obtain j where j: "j < length pvals" "ranked pvals ! j = (i, pvals ! i)" by (auto simp: in_set_conv_nth)
  show "map raw_p_value es ! i = pvals ! i"
    using holm_bonferroni_Inr(2)[OF assms j(1)] holm_bonferroni_Inr(1)[OF assms] i by (simp add: j(2) holm_entry_at_def)
qed

text \<open>Rejection is monotone in the p-value, and Bonferroni's test implies it.\<close>

lemma ranked_sorted: "sorted (map snd (ranked pvals))"
  by (simp add: ranked_def)

lemma holm_contains_bonferroni:
  assumes "holm_bonferroni pvals alpha = Inr es" "i < length pvals" "pvals ! i \<le> alpha / real (length pvals)"
  shows "reject_null (es ! i)"
proof -
  have a: "0 < alpha" using assms(1) by (auto simp: holm_bonferroni_def split: if_splits)
  have "(i, pvals ! i) \<in> set (ranked pvals)" using assms(2) by (auto simp: ranked_set)
  then obtain j where j: "j < length pvals" "ranked pvals ! j = (i, pvals ! i)" by (auto simp: in_set_conv_nth)
  have "snd (ranked pvals ! l) \<le> alpha / real (length pvals - l)" if "l \<le> j" for l
  proof -
    have "snd (ranked pvals ! l) \<le> snd (ranked pvals ! j)"
      using ranked_sorted[of pvals] that j(1) by (auto simp: sorted_iff_nth_mono)
    also have "\<dots> \<le> alpha / real (length pvals)" using assms(3) j(2) by simp
    also have "\<dots> \<le> alpha / real (length pvals - l)"
      using a that j(1) by (intro divide_left_mono mult_pos_pos) auto
    finally show ?thesis .
  qed
  then show ?thesis using holm_bonferroni_Inr(2)[OF assms(1) j(1)] j(2) by (simp add: holm_entry_at_def)
qed

end
