(* ===== verification/Receipt.thy ===== *)
theory Receipt
  imports Assessment
begin

text \<open>
  coverage/receipt.py, coverage/hunt.py and coverage/challenge.py: the signed statement of a
  coverage measurement, the comparison of policies, the adaptive hunt with its model proposals, and
  the challenge document.  The lemmas: a receipt is only built for reconciled counts, signs and
  verifies, and binds its scope; the pieces say that no agent has authority; a model proposal cannot
  carry any field but source and rationale.
\<close>

section \<open>Scope\<close>

text \<open>\<open>len(value) == 64\<close> and only hexadecimal digits after \<open>lower()\<close>.\<close>

definition is_sha256 :: "string \<Rightarrow> bool" where
  "is_sha256 s \<longleftrightarrow> py_len s = 64 \<and> list_all (\<lambda>c. is_hex (ascii_lower c)) s"

definition require_sha256 :: "string \<Rightarrow> string \<Rightarrow> unit res" where
  "require_sha256 name v =
     (if is_sha256 v then Inr () else raise ValueError (name @ '' must be a 64-character SHA-256 hex digest''))"

record coverage_scope =
  sc_challenge_sha256 :: string
  sc_fixture_sha256 :: string
  sc_policy_sha256 :: string
  sc_benchmark_manifest_sha256 :: string
  sc_oracle_digest :: string
  sc_gatekeeper_digest :: string
  sc_runner_digest :: string
  sc_qualification_manifest_sha256 :: string
  sc_selftest_sha256 :: string
  sc_tested :: "string list"
  sc_not_tested :: "string list"

definition scope_digests :: "coverage_scope \<Rightarrow> (string \<times> string) list" where
  "scope_digests s =
    [(''challenge_sha256'', sc_challenge_sha256 s),
     (''fixture_sha256'', sc_fixture_sha256 s),
     (''policy_sha256'', sc_policy_sha256 s),
     (''benchmark_manifest_sha256'', sc_benchmark_manifest_sha256 s),
     (''oracle_digest'', sc_oracle_digest s),
     (''gatekeeper_digest'', sc_gatekeeper_digest s),
     (''runner_digest'', sc_runner_digest s),
     (''oracle_qualification_manifest_sha256'', sc_qualification_manifest_sha256 s),
     (''oracle_selftest_sha256'', sc_selftest_sha256 s)]"

definition make_scope :: "coverage_scope \<Rightarrow> coverage_scope res" where
  "make_scope s =
     and_then (map_res (\<lambda>(name, v). require_sha256 name v) (scope_digests s)) (\<lambda>_.
       if sc_tested s = [] then raise ValueError ''tested scope must be non-empty''
       else if set (sc_tested s) \<inter> set (sc_not_tested s) \<noteq> {}
       then raise ValueError ''tested and not_tested scope must be disjoint''
       else Inr s)"

definition scope_to_dict :: "coverage_scope \<Rightarrow> json" where
  "scope_to_dict s = JObj
    (map (\<lambda>(k, v). (k, JStr v)) (scope_digests s) @
     [(''tested'', JList (map JStr (sc_tested s))), (''not_tested'', JList (map JStr (sc_not_tested s)))])"

section \<open>Receipts\<close>

record coverage_receipt =
  cr_schema :: string
  cr_claim :: string
  cr_scope :: coverage_scope
  cr_counts :: coverage_counts
  cr_benchmark_lane :: string
  cr_agent_authority :: string
  cr_historical_replay :: "json option"
  cr_hunt :: "json option"

definition receipt_to_dict :: "(real \<Rightarrow> pyfloat) \<Rightarrow> coverage_receipt \<Rightarrow> json res" where
  "receipt_to_dict fl r =
     and_then (counts_to_dict fl (cr_counts r)) (\<lambda>counts. Inr (JObj
       ([(''schema'', JStr (cr_schema r)),
         (''claim'', JStr (cr_claim r)),
         (''scope'', scope_to_dict (cr_scope r)),
         (''counts'', counts),
         (''benchmark_lane'', JStr (cr_benchmark_lane r)),
         (''agent_authority'', JStr (cr_agent_authority r))] @
        (case cr_historical_replay r of None \<Rightarrow> [] | Some j \<Rightarrow> [(''historical_replay'', j)]) @
        (case cr_hunt r of None \<Rightarrow> [] | Some j \<Rightarrow> [(''hunt'', j)]))))"

definition build_coverage_receipt ::
    "coverage_scope \<Rightarrow> coverage_counts \<Rightarrow> json option \<Rightarrow> json option \<Rightarrow> coverage_receipt res" where
  "build_coverage_receipt scope counts replay hunt =
    (if confirmed_safe counts \<noteq> correct_accepts counts + overblocks counts
     then raise ValueError ''safe population does not reconcile''
     else if confirmed_unsafe counts \<noteq> correct_blocks counts + escapes counts
     then raise ValueError ''unsafe population does not reconcile''
     else Inr \<lparr>cr_schema = ''release-sentinel.coverage-receipt.v1'',
               cr_claim = ''SCOPED_GATE_GAP_MEASUREMENT'',
               cr_scope = scope, cr_counts = counts,
               cr_benchmark_lane = ''DETERMINISTIC'', cr_agent_authority = ''NONE'',
               cr_historical_replay = replay, cr_hunt = hunt\<rparr>)"

record signed_receipt =
  sr_receipt :: coverage_receipt
  sr_signature :: signature_envelope

definition sign_coverage_receipt :: "(real \<Rightarrow> pyfloat) \<Rightarrow> coverage_receipt \<Rightarrow> signer \<Rightarrow> signed_receipt res" where
  "sign_coverage_receipt fl r s =
    (if cr_agent_authority r \<noteq> ''NONE'' then raise ValueError ''coverage receipt agent authority must be NONE''
     else and_then (receipt_to_dict fl r) (\<lambda>d.
       and_then (sign_json d s) (\<lambda>e. Inr \<lparr>sr_receipt = r, sr_signature = e\<rparr>)))"

definition verify_signed_coverage_receipt :: "(real \<Rightarrow> pyfloat) \<Rightarrow> signed_receipt \<Rightarrow> verifier \<Rightarrow> unit res" where
  "verify_signed_coverage_receipt fl sr verify =
    (if cr_agent_authority (sr_receipt sr) \<noteq> ''NONE''
     then raise ValueError ''coverage receipt authority contract violated''
     else and_then (receipt_to_dict fl (sr_receipt sr)) (\<lambda>d.
       and_then (verify_json d (sr_signature sr) verify) (\<lambda>good.
         if \<not> good then raise ValueError ''coverage receipt signature verification failed'' else Inr ())))"

section \<open>Comparison receipts\<close>

record comparison_receipt =
  cm_schema :: string
  cm_claim :: string
  cm_scope_sha256 :: string
  cm_benchmark_manifest_sha256 :: string
  cm_points :: "json list"
  cm_mcnemar :: json
  cm_agent_authority :: string

definition comparison_to_dict :: "comparison_receipt \<Rightarrow> json" where
  "comparison_to_dict r = JObj
    [(''schema'', JStr (cm_schema r)),
     (''claim'', JStr (cm_claim r)),
     (''comparison_scope_sha256'', JStr (cm_scope_sha256 r)),
     (''benchmark_manifest_sha256'', JStr (cm_benchmark_manifest_sha256 r)),
     (''points'', JList (cm_points r)),
     (''mcnemar'', cm_mcnemar r),
     (''agent_authority'', JStr (cm_agent_authority r))]"

definition make_comparison_receipt :: "comparison_receipt \<Rightarrow> comparison_receipt res" where
  "make_comparison_receipt r =
     and_then (require_sha256 ''comparison_scope_sha256'' (cm_scope_sha256 r)) (\<lambda>_.
     and_then (require_sha256 ''benchmark_manifest_sha256'' (cm_benchmark_manifest_sha256 r)) (\<lambda>_.
       if length (cm_points r) < 2 then raise ValueError ''comparison receipt requires at least two policy points''
       else
       and_then (map_res (\<lambda>p. require_sha256 ''policy_sha256'' (py_str (obj_get_def p ''policy_sha256'' (JStr ''''))))
         (cm_points r)) (\<lambda>_.
         if obj_get (cm_mcnemar r) ''paired_by'' \<noteq> JStr ''candidate_id''
         then raise ValueError ''comparison receipt requires candidate_id paired McNemar data''
         else if cm_agent_authority r \<noteq> ''NONE''
         then raise ValueError ''comparison receipt agent authority must be NONE''
         else Inr r)))"

definition build_coverage_comparison_receipt ::
    "string \<Rightarrow> string \<Rightarrow> json list \<Rightarrow> json \<Rightarrow> comparison_receipt res" where
  "build_coverage_comparison_receipt scope_sha manifest_sha points mcnemar = make_comparison_receipt
    \<lparr>cm_schema = ''release-sentinel.coverage-comparison-receipt.v1'',
     cm_claim = ''SCOPED_PAIRED_POLICY_TRADEOFF'',
     cm_scope_sha256 = scope_sha, cm_benchmark_manifest_sha256 = manifest_sha,
     cm_points = points, cm_mcnemar = mcnemar, cm_agent_authority = ''NONE''\<rparr>"

record signed_comparison =
  sm_receipt :: comparison_receipt
  sm_signature :: signature_envelope

definition sign_coverage_comparison_receipt :: "comparison_receipt \<Rightarrow> signer \<Rightarrow> signed_comparison res" where
  "sign_coverage_comparison_receipt r s =
    (if cm_agent_authority r \<noteq> ''NONE'' then raise ValueError ''comparison receipt agent authority must be NONE''
     else and_then (sign_json (comparison_to_dict r) s) (\<lambda>e. Inr \<lparr>sm_receipt = r, sm_signature = e\<rparr>))"

definition verify_signed_coverage_comparison_receipt :: "signed_comparison \<Rightarrow> verifier \<Rightarrow> unit res" where
  "verify_signed_coverage_comparison_receipt sm verify =
    (if cm_agent_authority (sm_receipt sm) \<noteq> ''NONE''
     then raise ValueError ''comparison receipt authority contract violated''
     else and_then (verify_json (comparison_to_dict (sm_receipt sm)) (sm_signature sm) verify) (\<lambda>good.
       if \<not> good then raise ValueError ''comparison receipt signature verification failed'' else Inr ()))"

section \<open>Hunt\<close>

definition forbidden_model_fields :: "string list" where
  "forbidden_model_fields =
     [''oracle_verdict'', ''classification'', ''gate_decision'', ''receipt'', ''authority'', ''signature'']"

record hunt_proposal =
  hp_source :: string
  hp_rationale :: string
  hp_proposer_id :: string
  hp_authority :: string

text \<open>The text of a list of names as an f-string prints it.\<close>

definition py_names :: "string list \<Rightarrow> string" where
  "py_names ns = py_repr (JList (map JStr ns))"

definition hunt_proposal_of :: "(string \<times> json) list \<Rightarrow> string \<Rightarrow> hunt_proposal res" where
  "hunt_proposal_of payload proposer_id =
    (let names = map fst payload;
         bad = sort (filter (\<lambda>k. k \<in> set names) forbidden_model_fields) in
     if bad \<noteq> [] then raise ValueError (''model payload contains authoritative fields: '' @ py_names bad)
     else if \<not> set names \<subseteq> {''source'', ''rationale''}
     then raise ValueError ''model payload contains unsupported non-candidate fields''
     else case obj_get (JObj payload) ''source'' of
       JStr source \<Rightarrow>
         if strip source = [] then raise ValueError ''hunt proposal source is required''
         else (case obj_get (JObj payload) ''rationale'' of
           JStr rationale \<Rightarrow>
             if proposer_id = [] then raise ValueError ''proposer_id is required''
             else Inr \<lparr>hp_source = source, hp_rationale = rationale, hp_proposer_id = proposer_id, hp_authority = ''NONE''\<rparr>
         | _ \<Rightarrow> raise ValueError ''hunt proposal rationale must be a string'')
     | _ \<Rightarrow> raise ValueError ''hunt proposal source is required'')"

definition proposal_sha256 :: "hunt_proposal \<Rightarrow> string" where
  "proposal_sha256 p = sha256_json (JObj
    [(''source'', JStr (hp_source p)),
     (''rationale'', JStr (hp_rationale p)),
     (''proposer_id'', JStr (hp_proposer_id p)),
     (''authority'', JStr (hp_authority p))])"

record hunt_attempt =
  ha_proposal_sha256 :: string
  ha_classification :: classification

definition record_hunt_attempt :: "hunt_proposal \<Rightarrow> classification \<Rightarrow> hunt_attempt" where
  "record_hunt_attempt p c = \<lparr>ha_proposal_sha256 = proposal_sha256 p, ha_classification = c\<rparr>"

record hunt_summary =
  hs_attempts :: nat
  hs_new_escapes :: nat
  hs_invalid :: nat

definition summarize_hunt :: "hunt_attempt list \<Rightarrow> hunt_summary" where
  "summarize_hunt items =
    \<lparr>hs_attempts = length items,
     hs_new_escapes = length (filter (\<lambda>i. ha_classification i = ESCAPE) items),
     hs_invalid = length (filter (\<lambda>i. ha_classification i = INVALID_CANDIDATE) items)\<rparr>"

definition hunt_to_dict :: "hunt_summary \<Rightarrow> json" where
  "hunt_to_dict s = JObj
    [(''attempts'', JInt (int (hs_attempts s))),
     (''new_escapes'', JInt (int (hs_new_escapes s))),
     (''invalid'', JInt (int (hs_invalid s))),
     (''lane'', JStr ''ADAPTIVE_NON_STATISTICAL''),
     (''agent_authority'', JStr ''NONE'')]"

section \<open>Challenges\<close>

fun positive_int :: "json \<Rightarrow> bool" where
  "positive_int (JInt i) = (1 \<le> i)"
| "positive_int j = False"

fun nonempty_str :: "json \<Rightarrow> bool" where
  "nonempty_str (JStr s) = (s \<noteq> [])"
| "nonempty_str j = False"

text \<open>The elements of the two scope lists are texts, as in the bundled documents, so they are hashable.\<close>

definition make_challenge :: "json \<Rightarrow> json res" where
  "make_challenge data =
    (if obj_get data ''schema'' \<noteq> JStr ''release-sentinel.coverage-challenge.v1''
     then raise ValueError ''unsupported coverage challenge schema''
     else if \<not> nonempty_str (obj_get data ''id'') then raise ValueError ''coverage challenge id is required''
     else if \<not> positive_int (obj_get data ''revision'') then raise ValueError ''coverage challenge revision must be positive''
     else if \<not> is_obj (obj_get data ''scope'') then raise ValueError ''coverage challenge scope is required''
     else
       and_then (py_list (or_else (obj_get (obj_get data ''scope'') ''tested'') (JList []))) (\<lambda>tested.
       and_then (py_list (or_else (obj_get (obj_get data ''scope'') ''not_tested'') (JList []))) (\<lambda>not_tested.
         if tested = [] \<or> set tested \<inter> set not_tested \<noteq> {}
         then raise ValueError ''coverage challenge scope must be non-empty and disjoint''
         else Inr data)))"

section \<open>Lemmas\<close>

lemma is_sha256_hex [simp]: "is_sha256 (sha256_hex m)"
proof -
  have "is_hex c \<Longrightarrow> is_hex (ascii_lower c)" for c
    by (auto simp: is_hex_def ascii_lower_def)
  then show ?thesis using sha256_hex_chars by (auto simp: is_sha256_def list_all_iff)
qed

lemma is_sha256_json [simp]: "is_sha256 (sha256_json j)"
  by (simp add: sha256_json_def)

lemma hunt_proposal_Inr:
  "hunt_proposal_of payload proposer = Inr p \<Longrightarrow>
   set (map fst payload) \<subseteq> {''source'', ''rationale''} \<and> hp_authority p = ''NONE'' \<and>
   map_of payload ''source'' = Some (JStr (hp_source p)) \<and> strip (hp_source p) \<noteq> []"
  by (auto simp: hunt_proposal_of_def Let_def split: if_splits json.splits option.splits)

lemma summarize_hunt_bounds: "hs_new_escapes (summarize_hunt is) + hs_invalid (summarize_hunt is) \<le> hs_attempts (summarize_hunt is)"
  by (induction "is") (auto simp: summarize_hunt_def)

lemma make_scope_Inr:
  "make_scope s = Inr t \<Longrightarrow> t = s \<and> sc_tested s \<noteq> [] \<and> set (sc_tested s) \<inter> set (sc_not_tested s) = {} \<and>
   list_all (\<lambda>(k, v). is_sha256 v) (scope_digests s)"
  by (auto simp: make_scope_def and_then_Inr map_res_Inr scope_digests_def require_sha256_def list_all2_Cons1 split: if_splits)

lemma build_receipt_Inr:
  "build_coverage_receipt scope counts replay hunt = Inr r \<Longrightarrow>
   cr_scope r = scope \<and> cr_counts r = counts \<and> cr_agent_authority r = ''NONE'' \<and>
   confirmed_safe counts = correct_accepts counts + overblocks counts \<and>
   confirmed_unsafe counts = correct_blocks counts + escapes counts"
  by (auto simp: build_coverage_receipt_def split: if_splits)

text \<open>The counts of a benchmark always give a receipt.\<close>

lemma aggregate_receipt:
  assumes "aggregate_observations xs = Inr c"
  shows "\<exists>r. build_coverage_receipt scope c replay hunt = Inr r"
  using aggregate_counts[OF assms] by (auto simp: build_coverage_receipt_def)

context signature_scheme
begin

lemma signed_receipt_verifies:
  assumes "sign_coverage_receipt fl r s = Inr sr"
  shows "verify_signed_coverage_receipt fl sr verify = Inr ()"
proof -
  obtain d where d: "receipt_to_dict fl r = Inr d" "sign_json d s = Inr (sr_signature sr)" "sr_receipt sr = r"
    "cr_agent_authority r = ''NONE''"
    using assms by (auto simp: sign_coverage_receipt_def and_then_Inr split: if_splits)
  from sign_json_verifies[OF d(2)] d show ?thesis by (simp add: verify_signed_coverage_receipt_def)
qed

lemma signed_comparison_verifies:
  assumes "sign_coverage_comparison_receipt r s = Inr sm"
  shows "verify_signed_coverage_comparison_receipt sm verify = Inr ()"
proof -
  have d: "sign_json (comparison_to_dict r) s = Inr (sm_signature sm)" "sm_receipt sm = r" "cm_agent_authority r = ''NONE''"
    using assms by (auto simp: sign_coverage_comparison_receipt_def and_then_Inr split: if_splits)
  from sign_json_verifies[OF d(1)] d show ?thesis by (simp add: verify_signed_coverage_comparison_receipt_def)
qed

end

text \<open>A verified receipt binds its scope: with the same signature, the same scope.\<close>

lemma map_norm_str: "map (Json.norm \<circ> JStr) xs = map (Json.norm \<circ> JStr) ys \<longleftrightarrow> xs = ys"
  by (rule inj_map_eq_map) (auto intro: injI)

lemma scope_to_dict_norm: "Json.norm (scope_to_dict s) = Json.norm (scope_to_dict t) \<longleftrightarrow> s = t"
proof -
  have "Json.norm (scope_to_dict s) = Json.norm (scope_to_dict t) \<Longrightarrow> s = t"
    unfolding scope_to_dict_def scope_digests_def
    by (subst (asm) norm_obj_inj) (simp_all add: coverage_scope.equality map_norm_str)
  then show ?thesis by auto
qed

end
