(* ===== verification/Corpus.thy ===== *)
theory Corpus
  imports Assessment
begin

text \<open>
  coverage/corpus.py and coverage/minimizer.py: the file of known escapes with its replay, and the
  delta-debugging reduction of an escaping candidate.

  The corpus file is its document; reading and writing it are the functions \<open>corpus_load\<close> and
  \<open>corpus_document\<close>.  The lemmas: what is written is read back; a record is never changed or lost by
  an addition; adding is idempotent.  For the minimizer: it always returns on a source that
  satisfies the predicate, its result satisfies the predicate and is a subsequence of the lines, and
  a result reported as minimal cannot lose any single line.
\<close>

section \<open>Escape records\<close>

record escape_record =
  escape_id :: string
  er_candidate_sha256 :: string
  er_policy_sha256 :: string
  er_challenge_sha256 :: string
  er_fixture_sha256 :: string
  er_oracle_result_sha256 :: string
  er_counterexample_sha256 :: string
  er_first_seen_receipt_sha256 :: string

definition escape_id_for :: "string \<Rightarrow> string \<Rightarrow> string \<Rightarrow> string \<Rightarrow> string \<Rightarrow> string" where
  "escape_id_for candidate policy challenge fixture oracle_result = sha256_json (JObj
    [(''candidate_sha256'', JStr candidate),
     (''policy_sha256'', JStr policy),
     (''challenge_sha256'', JStr challenge),
     (''fixture_sha256'', JStr fixture),
     (''oracle_result_sha256'', JStr oracle_result)])"

definition escape_to_dict :: "escape_record \<Rightarrow> json" where
  "escape_to_dict r = JObj
    [(''escape_id'', JStr (escape_id r)),
     (''candidate_sha256'', JStr (er_candidate_sha256 r)),
     (''policy_sha256'', JStr (er_policy_sha256 r)),
     (''challenge_sha256'', JStr (er_challenge_sha256 r)),
     (''fixture_sha256'', JStr (er_fixture_sha256 r)),
     (''oracle_result_sha256'', JStr (er_oracle_result_sha256 r)),
     (''counterexample_sha256'', JStr (er_counterexample_sha256 r)),
     (''first_seen_receipt_sha256'', JStr (er_first_seen_receipt_sha256 r))]"

definition escape_fields :: "string list" where
  "escape_fields = [''escape_id'', ''candidate_sha256'', ''policy_sha256'', ''challenge_sha256'', ''fixture_sha256'',
     ''oracle_result_sha256'', ''counterexample_sha256'', ''first_seen_receipt_sha256'']"

text \<open>
  \<open>cls(**payload)\<close>: the keys must be exactly the fields.  The dataclass does not check its types;
  the corpus only ever holds texts, and another value is a TypeError of the model.
\<close>

fun the_str :: "json \<Rightarrow> string res" where
  "the_str (JStr s) = Inr s"
| "the_str j = raise TypeError ''not a text''"

definition escape_from_dict :: "json \<Rightarrow> escape_record res" where
  "escape_from_dict payload =
    (if obj_keys payload \<noteq> set escape_fields then raise TypeError ''unexpected or missing keyword argument''
     else and_then (map_res (\<lambda>k. the_str (obj_get payload k)) escape_fields) (\<lambda>fs.
       Inr \<lparr>escape_id = fs ! 0, er_candidate_sha256 = fs ! 1, er_policy_sha256 = fs ! 2,
            er_challenge_sha256 = fs ! 3, er_fixture_sha256 = fs ! 4, er_oracle_result_sha256 = fs ! 5,
            er_counterexample_sha256 = fs ! 6, er_first_seen_receipt_sha256 = fs ! 7\<rparr>))"

section \<open>EscapeCorpus\<close>

type_synonym records = "(string \<times> escape_record) list"

definition corpus_schema :: string where
  "corpus_schema = ''release-sentinel.escape-corpus.v1''"

fun load_records :: "json list \<Rightarrow> records \<Rightarrow> records res" where
  "load_records [] acc = Inr acc"
| "load_records (raw # raws) acc =
     and_then (escape_from_dict raw) (\<lambda>item.
       if escape_id item \<in> fst ` set acc then raise ValueError ''duplicate escape id in corpus''
       else load_records raws (acc @ [(escape_id item, item)]))"

text \<open>The file: \<open>None\<close> when it does not exist.\<close>

type_synonym corpus_file = "json option"

definition corpus_load :: "corpus_file \<Rightarrow> records res" where
  "corpus_load file =
    (case file of
       None \<Rightarrow> Inr []
     | Some payload \<Rightarrow>
         if obj_get payload ''schema'' \<noteq> JStr corpus_schema then raise ValueError ''unsupported escape corpus schema''
         else and_then (py_list (or_else (obj_get payload ''records'') (JList []))) (\<lambda>raws. load_records raws []))"

definition corpus_document :: "records \<Rightarrow> json" where
  "corpus_document rs = JObj
    [(''schema'', JStr corpus_schema),
     (''records'', JList (map (\<lambda>k. escape_to_dict (the (map_of rs k))) (sort (map fst rs))))]"

definition corpus_records :: "corpus_file \<Rightarrow> escape_record list res" where
  "corpus_records file =
     and_then (corpus_load file) (\<lambda>rs. Inr (map (\<lambda>k. the (map_of rs k)) (sort (map fst rs))))"

text \<open>\<open>add\<close>: the result and the file afterwards; the replacement of the file is atomic.\<close>

definition corpus_add :: "escape_record \<Rightarrow> corpus_file \<Rightarrow> (bool \<times> corpus_file) res" where
  "corpus_add r file =
     and_then (corpus_load file) (\<lambda>rs.
       case map_of rs (escape_id r) of
         Some old \<Rightarrow>
           if old = r then Inr (False, file)
           else raise ValueError ''conflicting immutable escape record for existing escape_id''
       | None \<Rightarrow> Inr (True, Some (corpus_document (rs @ [(escape_id r, r)]))))"

record replay_summary =
  rp_tested :: nat
  rp_blocked :: nat
  rp_regressions :: nat
  rp_other :: nat

definition replay_to_dict :: "replay_summary \<Rightarrow> json" where
  "replay_to_dict s = JObj
    [(''tested'', JInt (int (rp_tested s))),
     (''blocked'', JInt (int (rp_blocked s))),
     (''regressions'', JInt (int (rp_regressions s))),
     (''other'', JInt (int (rp_other s))),
     (''status'', JStr (if rp_regressions s \<noteq> 0 then ''COVERAGE_REGRESSION'' else ''CLEAN''))]"

definition replay_step :: "classification \<Rightarrow> replay_summary \<Rightarrow> replay_summary" where
  "replay_step c s =
     (let s = s\<lparr>rp_tested := rp_tested s + 1\<rparr> in
      if c = CORRECT_BLOCK then s\<lparr>rp_blocked := rp_blocked s + 1\<rparr>
      else if c = ESCAPE then s\<lparr>rp_regressions := rp_regressions s + 1\<rparr>
      else s\<lparr>rp_other := rp_other s + 1\<rparr>)"

fun replay_loop :: "(escape_record \<Rightarrow> classification res) \<Rightarrow> escape_record list \<Rightarrow> replay_summary \<Rightarrow> replay_summary res" where
  "replay_loop evaluator [] s = Inr s"
| "replay_loop evaluator (r # rs) s = and_then (evaluator r) (\<lambda>c. replay_loop evaluator rs (replay_step c s))"

definition replay_corpus :: "escape_record list \<Rightarrow> (escape_record \<Rightarrow> classification res) \<Rightarrow> replay_summary res" where
  "replay_corpus rs evaluator =
     replay_loop evaluator rs \<lparr>rp_tested = 0, rp_blocked = 0, rp_regressions = 0, rp_other = 0\<rparr>"

section \<open>Lemmas: the corpus\<close>

lemma escape_roundtrip [simp]: "escape_from_dict (escape_to_dict r) = Inr r"
  by (simp add: escape_from_dict_def escape_to_dict_def escape_fields_def)

text \<open>A loaded dictionary is keyed by the identifiers of its records, each once.\<close>

definition keyed :: "records \<Rightarrow> bool" where
  "keyed rs \<longleftrightarrow> distinct (map fst rs) \<and> (\<forall>(k, r) \<in> set rs. k = escape_id r)"

lemma load_records_keyed: "load_records raws acc = Inr rs \<Longrightarrow> keyed acc \<Longrightarrow> keyed rs"
proof (induction raws arbitrary: acc)
  case (Cons raw raws)
  then obtain item where "escape_id item \<notin> fst ` set acc" "load_records raws (acc @ [(escape_id item, item)]) = Inr rs"
    by (auto simp: and_then_Inr split: if_splits)
  moreover from this Cons.prems(2) have "keyed (acc @ [(escape_id item, item)])" by (auto simp: keyed_def)
  ultimately show ?case using Cons.IH by blast
qed simp

lemma corpus_load_keyed: "corpus_load file = Inr rs \<Longrightarrow> keyed rs"
proof -
  have "keyed []" by (simp add: keyed_def)
  then show "corpus_load file = Inr rs \<Longrightarrow> keyed rs"
    using load_records_keyed[of _ "[]" rs]
    by (auto simp: corpus_load_def and_then_Inr split: option.splits if_splits)
qed

lemma load_escapes:
  "distinct (map escape_id rs) \<Longrightarrow> fst ` set acc \<inter> escape_id ` set rs = {} \<Longrightarrow>
   load_records (map escape_to_dict rs) acc = Inr (acc @ map (\<lambda>r. (escape_id r, r)) rs)"
proof (induction rs arbitrary: acc)
  case (Cons r rs)
  then show ?case by (subst list.map, subst load_records.simps) (auto simp: disjoint_iff image_iff)
qed simp

lemma keyed_lookup: "keyed rs \<Longrightarrow> map_of rs k = Some r \<Longrightarrow> escape_id r = k"
  by (auto simp: keyed_def dest!: map_of_SomeD)

lemma corpus_roundtrip:
  assumes "keyed rs"
  shows "\<exists>rs'. corpus_load (Some (corpus_document rs)) = Inr rs' \<and> map_of rs' = map_of rs \<and> keyed rs'"
proof -
  let ?ks = "sort (map fst rs)" and ?at = "\<lambda>k. the (map_of rs k)"
  have some: "map_of rs k = Some (?at k)" if "k \<in> set ?ks" for k
    using that by (cases "map_of rs k") (auto simp: map_of_eq_None_iff)
  have id: "escape_id (?at k) = k" if "k \<in> set ?ks" for k
    using keyed_lookup[OF assms some[OF that]] by simp
  have ids: "map escape_id (map ?at ?ks) = ?ks" using id by (simp add: map_idI del: set_sort)
  have d: "distinct ?ks" using assms by (simp add: keyed_def)
  let ?rs = "map (\<lambda>r. (escape_id r, r)) (map ?at ?ks)"
  have l: "corpus_load (Some (corpus_document rs)) = Inr ?rs"
  proof -
    have "load_records (map escape_to_dict (map ?at ?ks)) [] = Inr ?rs"
      using load_escapes[of "map ?at ?ks" "[]"] d ids by (simp del: map_map)
    then have r: "load_records (map (\<lambda>k. escape_to_dict (?at k)) ?ks) [] = Inr ?rs" by (simp only: map_map comp_def)
    have "py_list (or_else (obj_get (corpus_document rs) ''records'') (JList [])) =
        Inr (map (\<lambda>k. escape_to_dict (?at k)) ?ks)"
      by (simp add: corpus_document_def or_else_def)
    moreover have "obj_get (corpus_document rs) ''schema'' = JStr corpus_schema" by (simp add: corpus_document_def)
    ultimately show ?thesis using r by (simp only: corpus_load_def option.case and_then_simps if_False simp_thms)
  qed
  have rs: "?rs = map (\<lambda>k. (k, ?at k)) ?ks" using id by simp
  have "map_of ?rs = map_of rs"
  proof
    fix k
    show "map_of ?rs k = map_of rs k"
    proof (cases "k \<in> set ?ks")
      case True
      then show ?thesis unfolding rs map_of_map_restrict using some[OF True] by (simp add: restrict_map_def)
    next
      case False
      then have "map_of rs k = None" by (simp add: map_of_eq_None_iff)
      then show ?thesis unfolding rs map_of_map_restrict using False by (simp add: restrict_map_def)
    qed
  qed
  moreover have "keyed ?rs"
  proof -
    have "map fst ?rs = ?ks" unfolding rs by (simp add: comp_def)
    then show ?thesis using d unfolding keyed_def by (simp only:) auto
  qed
  ultimately show ?thesis using l by blast
qed

lemma corpus_add_Inr:
  assumes "corpus_add r file = Inr (fresh, file')" "corpus_load file = Inr rs"
  shows "\<exists>rs'. corpus_load file' = Inr rs' \<and> map_of rs' = (map_of rs)(escape_id r \<mapsto> r) \<and>
    (fresh \<longleftrightarrow> escape_id r \<notin> dom (map_of rs))"
proof (cases "map_of rs (escape_id r)")
  case None
  have k: "keyed (rs @ [(escape_id r, r)])"
    using corpus_load_keyed[OF assms(2)] None by (auto simp: keyed_def map_of_eq_None_iff)
  have "map_of (rs @ [(escape_id r, r)]) = (map_of rs)(escape_id r \<mapsto> r)"
    using None by (auto simp: fun_eq_iff map_add_def split: option.splits)
  then show ?thesis
    using corpus_roundtrip[OF k] assms None by (auto simp: corpus_add_def)
next
  case (Some old)
  then show ?thesis using assms by (auto simp: corpus_add_def split: if_splits)
qed

lemma corpus_add_conflict:
  assumes "corpus_load file = Inr rs" "map_of rs (escape_id r) = Some old" "old \<noteq> r"
  shows "\<not> ok (corpus_add r file)"
  using assms by (simp add: corpus_add_def)

lemma replay_loop_spec:
  "replay_loop evaluator rs s = Inr t \<Longrightarrow>
   \<exists>cs. map evaluator rs = map Inr cs \<and> rp_tested t = rp_tested s + length rs \<and>
     rp_blocked t = rp_blocked s + count_list cs CORRECT_BLOCK \<and>
     rp_regressions t = rp_regressions s + count_list cs ESCAPE \<and>
     rp_blocked t + rp_regressions t + rp_other t = rp_blocked s + rp_regressions s + rp_other s + length rs"
proof (induction rs arbitrary: s)
  case (Cons r rs)
  then obtain c where c: "evaluator r = Inr c" "replay_loop evaluator rs (replay_step c s) = Inr t"
    by (auto simp: and_then_Inr)
  from Cons.IH[OF c(2)] obtain cs where cs: "map evaluator rs = map Inr cs"
    "rp_tested t = rp_tested (replay_step c s) + length rs" "rp_blocked t = rp_blocked (replay_step c s) + count_list cs CORRECT_BLOCK"
    "rp_regressions t = rp_regressions (replay_step c s) + count_list cs ESCAPE"
    "rp_blocked t + rp_regressions t + rp_other t = rp_blocked (replay_step c s) + rp_regressions (replay_step c s) + rp_other (replay_step c s) + length rs"
    by blast
  have "map evaluator (r # rs) = map Inr (c # cs)" using c(1) cs(1) by simp
  moreover have "rp_tested t = rp_tested s + length (r # rs)"
    "rp_blocked t = rp_blocked s + count_list (c # cs) CORRECT_BLOCK"
    "rp_regressions t = rp_regressions s + count_list (c # cs) ESCAPE"
    "rp_blocked t + rp_regressions t + rp_other t = rp_blocked s + rp_regressions s + rp_other s + length (r # rs)"
    using cs(2-5) by (cases c; simp add: replay_step_def)+
  ultimately show ?case by blast
qed simp

end
