(* ===== verification/Minimizer.thy ===== *)
theory Minimizer
  imports Scanner "HOL-Library.Sublist"
begin

text \<open>
  coverage/minimizer.py: the bounded delta-debugging reduction of an escaping candidate at line
  granularity.  The clock is a parameter: \<open>late k\<close> says whether the \<open>k\<close>-th reading of the clock is
  past the time budget.  The predicate may raise, which ends the minimization.  The lemmas: the loop ends,
  and raises nothing but what the predicate raises on a part of the source; its result satisfies the
  predicate, is a subsequence of the original lines and took at most \<open>max_evaluations\<close> evaluations; and
  a result of two lines or more that is reported as minimal cannot lose any single line.
\<close>

section \<open>Lines with their ends\<close>

fun lines_keep_from :: "string \<Rightarrow> string \<Rightarrow> string list" where
  "lines_keep_from acc [] = (if acc = [] then [] else [rev acc])"
| "lines_keep_from acc (c # cs) =
     (let n = break_len (c # cs) in
      if n = 0 then lines_keep_from (c # acc) cs
      else (rev acc @ take n (c # cs)) # lines_keep_from [] (drop (n - 1) cs))"

definition lines_keep :: "string \<Rightarrow> string list" where
  "lines_keep s = lines_keep_from [] s"

lemma concat_lines_keep: "concat (lines_keep s) = s"
proof -
  have "concat (lines_keep_from acc s) = rev acc @ s" for acc
  proof (induction acc s rule: lines_keep_from.induct)
    case (2 acc c cs)
    show ?case
    proof (cases "break_len (c # cs) = 0")
      case True
      then show ?thesis using 2(1)[OF refl True] by (simp add: Let_def)
    next
      case False
      then obtain k where k: "break_len (c # cs) = Suc k" by (cases "break_len (c # cs)") auto
      show ?thesis using 2(2)[OF refl False] by (simp add: Let_def k)
    qed
  qed simp
  then show ?thesis by (simp add: lines_keep_def)
qed

section \<open>The budget\<close>

text \<open>
  The state is the number of evaluations made and of clock readings taken; the clock is only read
  while evaluations are left.
\<close>

type_synonym meter = "nat \<times> nat"

definition within_budget :: "nat \<Rightarrow> (nat \<Rightarrow> bool) \<Rightarrow> meter \<Rightarrow> bool \<times> meter" where
  "within_budget max_evaluations late s =
     (let (e, t) = s in if e < max_evaluations then (\<not> late t, (e, t + 1)) else (False, (e, t)))"

definition evaluate_candidate ::
    "nat \<Rightarrow> (nat \<Rightarrow> bool) \<Rightarrow> (string \<Rightarrow> bool res) \<Rightarrow> string \<Rightarrow> meter \<Rightarrow> (bool \<times> meter) res" where
  "evaluate_candidate max_evaluations late predicate candidate s =
     (let (within, (e, t)) = within_budget max_evaluations late s in
      if \<not> within then Inr (False, (e, t)) else and_then (predicate candidate) (\<lambda>good. Inr (good, (e + 1, t))))"

section \<open>The reduction\<close>

datatype attempt = OutOfBudget | Reduced "string list" | NotReduced

definition without_chunk :: "string list \<Rightarrow> nat \<Rightarrow> nat \<Rightarrow> string list" where
  "without_chunk lines start len = take start lines @ drop (start + len) lines"

fun try_starts ::
    "nat \<Rightarrow> (nat \<Rightarrow> bool) \<Rightarrow> (string \<Rightarrow> bool res) \<Rightarrow> string list \<Rightarrow> nat \<Rightarrow> nat list \<Rightarrow> meter \<Rightarrow> (attempt \<times> meter) res" where
  "try_starts m late predicate lines chunk [] s = Inr (NotReduced, s)"
| "try_starts m late predicate lines chunk (start # starts) s =
     (let (within, s1) = within_budget m late s in
      if \<not> within then Inr (OutOfBudget, s1)
      else and_then (evaluate_candidate m late predicate (concat (without_chunk lines start chunk)) s1) (\<lambda>(good, s2).
           if good then Inr (Reduced (without_chunk lines start chunk), s2)
           else try_starts m late predicate lines chunk starts s2))"

definition chunk_size :: "string list \<Rightarrow> nat \<Rightarrow> nat" where
  "chunk_size lines n = max 1 ((length lines + n - 1) div n)"

text \<open>\<open>range(0, len(lines), chunk)\<close>.\<close>

definition chunk_starts :: "string list \<Rightarrow> nat \<Rightarrow> nat list" where
  "chunk_starts lines chunk = map (\<lambda>k. k * chunk) [0..<(length lines + chunk - 1) div chunk]"

lemma chunk_starts_bound: "0 < chunk \<Longrightarrow> st \<in> set (chunk_starts lines chunk) \<Longrightarrow> st < length lines"
proof -
  assume c: "0 < chunk" and "st \<in> set (chunk_starts lines chunk)"
  then obtain k where k: "st = k * chunk" "k < (length lines + chunk - 1) div chunk" by (auto simp: chunk_starts_def)
  then have "(k + 1) * chunk \<le> length lines + chunk - 1"
    using c by (metis Suc_eq_plus1 Suc_leI less_eq_div_iff_mult_less_eq)
  then show ?thesis using k(1) c by (simp add: algebra_simps)
qed

lemma evaluate_candidate_Inr:
  "evaluate_candidate m late predicate x (e, t) = Inr (good, s) \<longleftrightarrow>
    (if e < m \<and> \<not> late t then predicate x = Inr good \<and> s = (e + 1, t + 1)
     else \<not> good \<and> s = (if e < m then (e, t + 1) else (e, t)))"
  by (auto simp: evaluate_candidate_def within_budget_def and_then_Inr)

lemma evaluate_candidate_Inl: "evaluate_candidate m late predicate x s = Inl e \<Longrightarrow> predicate x = Inl e"
  by (auto simp: evaluate_candidate_def and_then_def split: prod.splits if_splits sum.splits)

lemma try_starts_reduced:
  "try_starts m late predicate lines chunk starts s = Inr (Reduced ls, s') \<Longrightarrow>
   (\<exists>st\<in>set starts. ls = without_chunk lines st chunk) \<and> predicate (concat ls) = Inr True"
proof (induction starts arbitrary: s)
  case (Cons st starts)
  obtain w e1 t1 where w: "within_budget m late s = (w, (e1, t1))" by (metis prod_cases3)
  then obtain g s2 where g: "w" "evaluate_candidate m late predicate (concat (without_chunk lines st chunk)) (e1, t1) = Inr (g, s2)"
    and r: "(if g then Inr (Reduced (without_chunk lines st chunk), s2) else try_starts m late predicate lines chunk starts s2) =
      Inr (Reduced ls, s')"
    using Cons.prems by (auto simp: and_then_Inr split: if_splits)
  have "g \<Longrightarrow> predicate (concat (without_chunk lines st chunk)) = Inr True"
    using g(2) by (auto simp: evaluate_candidate_Inr split: if_splits)
  then show ?case using Cons.IH[of s2] r by (auto split: if_splits)
qed simp

lemma try_starts_raised:
  "try_starts m late predicate lines chunk starts s = Inl e \<Longrightarrow> \<exists>st. predicate (concat (without_chunk lines st chunk)) = Inl e"
proof (induction starts arbitrary: s)
  case (Cons st starts)
  obtain w s1 where w: "within_budget m late s = (w, s1)" by (cases "within_budget m late s")
  then have "w" using Cons.prems by (cases w) auto
  show ?case
  proof (cases "evaluate_candidate m late predicate (concat (without_chunk lines st chunk)) s1")
    case (Inl e')
    then show ?thesis using Cons.prems w \<open>w\<close> evaluate_candidate_Inl[OF Inl] by auto
  next
    case (Inr gs)
    then show ?thesis using Cons w \<open>w\<close> by (cases gs) (auto split: if_splits)
  qed
qed simp

lemma without_chunk_shorter: "st < length lines \<Longrightarrow> 0 < chunk \<Longrightarrow> length (without_chunk lines st chunk) < length lines"
  by (simp add: without_chunk_def)

lemma chunk_size_pos: "0 < chunk_size lines n"
  by (simp add: chunk_size_def)

text \<open>One turn of the outer loop: the check of the budget, then the pass over the chunks.\<close>

definition ddmin_pass ::
    "nat \<Rightarrow> (nat \<Rightarrow> bool) \<Rightarrow> (string \<Rightarrow> bool res) \<Rightarrow> string list \<Rightarrow> nat \<Rightarrow> meter \<Rightarrow> (attempt \<times> meter) res" where
  "ddmin_pass m late predicate lines n s =
     (let (within, s1) = within_budget m late s in
      if \<not> within then Inr (OutOfBudget, s1)
      else let chunk = chunk_size lines n in
        try_starts m late predicate lines chunk (chunk_starts lines chunk) s1)"

lemma ddmin_pass_reduced:
  assumes "ddmin_pass m late predicate lines n s = Inr (Reduced ls, s')"
  shows "length ls < length lines" "predicate (concat ls) = Inr True" "\<exists>st c. ls = without_chunk lines st c"
proof -
  obtain s1 where "try_starts m late predicate lines (chunk_size lines n) (chunk_starts lines (chunk_size lines n)) s1 = Inr (Reduced ls, s')"
    using assms by (auto simp: ddmin_pass_def Let_def split: prod.splits if_splits)
  from try_starts_reduced[OF this] obtain st where st: "st \<in> set (chunk_starts lines (chunk_size lines n))"
    "ls = without_chunk lines st (chunk_size lines n)" "predicate (concat ls) = Inr True" by blast
  show "length ls < length lines"
    using st(2) without_chunk_shorter[OF chunk_starts_bound[OF chunk_size_pos st(1)] chunk_size_pos] by simp
  show "predicate (concat ls) = Inr True" "\<exists>st c. ls = without_chunk lines st c" using st(2,3) by blast+
qed

lemma ddmin_pass_raised:
  "ddmin_pass m late predicate lines n s = Inl e \<Longrightarrow> \<exists>st c. predicate (concat (without_chunk lines st c)) = Inl e"
  by (auto simp: ddmin_pass_def Let_def split: prod.splits if_splits) (blast dest: try_starts_raised)

text \<open>
  The loop; the third component says whether it was \<open>completed\<close>.  The granularity starts at 2 and
  stays positive; at 0 Python's division would raise.
\<close>

function ddmin_loop ::
    "nat \<Rightarrow> (nat \<Rightarrow> bool) \<Rightarrow> (string \<Rightarrow> bool res) \<Rightarrow> string list \<Rightarrow> nat \<Rightarrow> meter \<Rightarrow> (string list \<times> meter \<times> bool) res" where
  "ddmin_loop m late predicate lines n s =
    (if length lines < 2 then Inr (lines, s, True)
     else if n = 0 then raise (UserException ''ZeroDivisionError'') ''division by zero''
     else case ddmin_pass m late predicate lines n s of
         Inl e \<Rightarrow> Inl e
       | Inr (OutOfBudget, s1) \<Rightarrow> Inr (lines, s1, False)
       | Inr (Reduced ls, s1) \<Rightarrow> ddmin_loop m late predicate ls (max 2 (n - 1)) s1
       | Inr (NotReduced, s1) \<Rightarrow>
           if length lines \<le> n then Inr (lines, s1, True)
           else ddmin_loop m late predicate lines (min (length lines) (n * 2)) s1)"
  by pat_completeness auto
termination
  by (relation "measures [\<lambda>(m, late, predicate, lines, n, s). length lines,
                          \<lambda>(m, late, predicate, lines, n, s). length lines - n]")
    (auto dest!: ddmin_pass_reduced(1)[OF sym] ddmin_pass_reduced(1))

declare ddmin_loop.simps [simp del]

datatype minimization_status = MINIMAL_UNDER_CONFIGURED_GRANULARITY | REDUCED_COUNTEREXAMPLE

record minimization_result =
  mr_source :: string
  mr_status :: minimization_status
  mr_evaluations :: nat
  mr_removed_lines :: nat
  mr_budget_exhausted :: bool

text \<open>\<open>MinimizationBudget\<close>: the time limit is the clock's; only its sign is checked.\<close>

definition make_budget :: "json \<Rightarrow> bool \<Rightarrow> nat res" where
  "make_budget max_evaluations seconds_positive =
    (case max_evaluations of
       JInt i \<Rightarrow>
         if i < 1 then raise ValueError ''max_evaluations must be a positive integer''
         else if \<not> seconds_positive then raise ValueError ''max_seconds must be positive''
         else Inr (nat i)
     | _ \<Rightarrow> raise ValueError ''max_evaluations must be a positive integer'')"

definition minimize_lines :: "nat \<Rightarrow> (nat \<Rightarrow> bool) \<Rightarrow> string \<Rightarrow> (string \<Rightarrow> bool res) \<Rightarrow> minimization_result res" where
  "minimize_lines m late source predicate =
    and_then (evaluate_candidate m late predicate source (0, 0)) (\<lambda>(good, s).
     if \<not> good then
       if fst s = 0 then raise ValueError ''minimization budget expired before original predicate could be evaluated''
       else raise ValueError ''original source does not satisfy escape predicate''
     else
       let original_lines = lines_keep source in
       and_then (ddmin_loop m late predicate original_lines 2 s) (\<lambda>(lines, s1, completed).
         let (within, s2) = (if \<not> completed then (False, s1) else within_budget m late s1);
             exhausted = (\<not> completed \<or> \<not> within) in
         Inr \<lparr>mr_source = concat lines,
              mr_status = (if exhausted then REDUCED_COUNTEREXAMPLE else MINIMAL_UNDER_CONFIGURED_GRANULARITY),
              mr_evaluations = fst s2,
              mr_removed_lines = length original_lines - length lines,
              mr_budget_exhausted = exhausted\<rparr>))"

section \<open>Lemmas: the loop\<close>

text \<open>An induction over the loop's runs: four exits and two steps.\<close>

lemma ddmin_loop_run [consumes 1, case_names short raised out minimal reduce refine]:
  assumes "0 < n"
    and short: "\<And>lines n s. length lines < 2 \<Longrightarrow> P lines n s (Inr (lines, s, True))"
    and raised: "\<And>lines n s e. ddmin_pass m late predicate lines n s = Inl e \<Longrightarrow> P lines n s (Inl e)"
    and out: "\<And>lines n s s1. ddmin_pass m late predicate lines n s = Inr (OutOfBudget, s1) \<Longrightarrow> P lines n s (Inr (lines, s1, False))"
    and minimal: "\<And>lines n s s1. 0 < n \<Longrightarrow> 2 \<le> length lines \<Longrightarrow> length lines \<le> n \<Longrightarrow>
        ddmin_pass m late predicate lines n s = Inr (NotReduced, s1) \<Longrightarrow> P lines n s (Inr (lines, s1, True))"
    and reduce: "\<And>lines n s ls s1 r. ddmin_pass m late predicate lines n s = Inr (Reduced ls, s1) \<Longrightarrow>
        P ls (max 2 (n - 1)) s1 r \<Longrightarrow> P lines n s r"
    and refine: "\<And>lines n s s1 r. ddmin_pass m late predicate lines n s = Inr (NotReduced, s1) \<Longrightarrow>
        P lines (min (length lines) (n * 2)) s1 r \<Longrightarrow> P lines n s r"
  shows "P lines n s (ddmin_loop m late predicate lines n s)"
  using assms(1)
proof (induction "(length lines, length lines - n)" arbitrary: lines n s
    rule: wf_induct[OF wf_lex_prod[OF wf_less_than wf_less_than]])
  case 1
  have IH: "0 < k \<Longrightarrow> length ls < length lines \<or> length ls = length lines \<and> length ls - k < length lines - n \<Longrightarrow>
      P ls k t (ddmin_loop m late predicate ls k t)" for ls k t
    using 1(1)[rule_format, of "(length ls, length ls - k)" ls k t] by (simp del: split_paired_All)
  show ?case
  proof (cases "length lines < 2")
    case True
    then show ?thesis using short by (simp add: ddmin_loop.simps)
  next
    case False
    show ?thesis
    proof (cases "ddmin_pass m late predicate lines n s")
      case (Inl e)
      then show ?thesis using raised[OF Inl] 1(2) False by (simp add: ddmin_loop.simps[of m late predicate lines n s])
    next
      case (Inr p)
      then obtain a s1 where a: "ddmin_pass m late predicate lines n s = Inr (a, s1)" by (cases p) simp
      have unf: "ddmin_loop m late predicate lines n s =
        (case a of OutOfBudget \<Rightarrow> Inr (lines, s1, False)
         | Reduced ls \<Rightarrow> ddmin_loop m late predicate ls (max 2 (n - 1)) s1
         | NotReduced \<Rightarrow> if length lines \<le> n then Inr (lines, s1, True)
             else ddmin_loop m late predicate lines (min (length lines) (n * 2)) s1)"
        using 1(2) a False by (simp add: ddmin_loop.simps[of m late predicate lines n s] split: attempt.split)
      show ?thesis
      proof (cases a)
        case OutOfBudget
        then show ?thesis using out a unf by simp
      next
        case (Reduced ls)
        then have "P ls (max 2 (n - 1)) s1 (ddmin_loop m late predicate ls (max 2 (n - 1)) s1)"
          using a ddmin_pass_reduced(1) by (intro IH) auto
        then show ?thesis using reduce a Reduced unf by simp
      next
        case NotReduced
        show ?thesis
        proof (cases "length lines \<le> n")
          case True
          then show ?thesis using minimal 1(2) False a NotReduced unf by simp
        next
          case more: False
          then have "P lines (min (length lines) (n * 2)) s1 (ddmin_loop m late predicate lines (min (length lines) (n * 2)) s1)"
            using 1(2) False by (intro IH) auto
          then show ?thesis using refine a NotReduced unf more by simp
        qed
      qed
    qed
  qed
qed

lemma without_chunk_subseq: "subseq (without_chunk lines st c) lines"
proof -
  have "subseq (drop (st + c) lines) (drop st lines)"
    by (metis add.commute drop_drop suffix_drop suffix_imp_subseq)
  then have "subseq (take st lines @ drop (st + c) lines) (take st lines @ drop st lines)"
    by (intro list_emb_append_mono) auto
  then show ?thesis by (simp add: without_chunk_def)
qed

lemma ddmin_pass_subseq:
  assumes "ddmin_pass m late predicate lines n s = Inr (Reduced ks, s1)"
  shows "subseq ks lines"
  using ddmin_pass_reduced(3)[OF assms] without_chunk_subseq by auto

text \<open>The loop raises what the predicate raised on a part of the lines, and nothing else.\<close>

lemma ddmin_loop_raised:
  assumes "0 < n" "ddmin_loop m late predicate lines n s = Inl e"
  shows "\<exists>ls. subseq ls lines \<and> predicate (concat ls) = Inl e"
proof -
  have "ddmin_loop m late predicate lines n s = Inl e \<longrightarrow> (\<exists>ls. subseq ls lines \<and> predicate (concat ls) = Inl e)"
    using assms(1)
  proof (induction rule: ddmin_loop_run[where P = "\<lambda>lines n s r. r = Inl e \<longrightarrow>
      (\<exists>ls. subseq ls lines \<and> predicate (concat ls) = Inl e)"])
    case (raised lines n s e')
    then show ?case using ddmin_pass_raised[OF raised] without_chunk_subseq by blast
  next
    case (reduce lines n s ks s1 r)
    then show ?case using ddmin_pass_subseq[OF reduce(1)] subseq_order.order_trans by blast
  qed auto
  then show ?thesis using assms(2) by blast
qed

lemma ddmin_loop_result:
  assumes "0 < n" "ddmin_loop m late predicate lines n s = Inr (ls, s', c)" "predicate (concat lines) = Inr True"
  shows "predicate (concat ls) = Inr True \<and> subseq ls lines"
proof -
  have "ddmin_loop m late predicate lines n s = Inr (ls, s', c) \<longrightarrow> predicate (concat lines) = Inr True \<longrightarrow>
      predicate (concat ls) = Inr True \<and> subseq ls lines"
    using assms(1)
  proof (induction rule: ddmin_loop_run[where P = "\<lambda>lines n s r. r = Inr (ls, s', c) \<longrightarrow> predicate (concat lines) = Inr True \<longrightarrow>
      predicate (concat ls) = Inr True \<and> subseq ls lines"])
    case (reduce lines n s ks s1 r)
    then show ?case
      using ddmin_pass_subseq[OF reduce(1)] ddmin_pass_reduced(2)[OF reduce(1)] subseq_order.order_trans by blast
  qed auto
  then show ?thesis using assms(2,3) by blast
qed

section \<open>Lemmas: the budget\<close>

text \<open>Evaluations are bounded, and a spent budget stays spent when the clock does not run back.\<close>

definition spent :: "nat \<Rightarrow> (nat \<Rightarrow> bool) \<Rightarrow> meter \<Rightarrow> bool" where
  "spent m late s \<longleftrightarrow> \<not> fst (within_budget m late s)"

definition forward :: "(nat \<Rightarrow> bool) \<Rightarrow> bool" where
  "forward late \<longleftrightarrow> (\<forall>i j. i \<le> j \<longrightarrow> late i \<longrightarrow> late j)"

lemma within_budget_simp: "fst (within_budget m late (e, t)) \<longleftrightarrow> e < m \<and> \<not> late t"
  by (simp add: within_budget_def)

lemma spent_simp: "spent m late (e, t) \<longleftrightarrow> m \<le> e \<or> late t"
  by (auto simp: spent_def within_budget_simp)

lemma within_budget_snd: "within_budget m late (e, t) = (w, (e', t')) \<Longrightarrow> e' = e \<and> t \<le> t'"
  by (auto simp: within_budget_def split: if_splits)

lemma evaluate_candidate_meter:
  assumes "evaluate_candidate m late predicate x (e, t) = Inr (good, (e', t'))"
  shows "e \<le> e'" "t \<le> t'" "e \<le> m \<Longrightarrow> e' \<le> m" "\<not> good \<Longrightarrow> predicate x = Inr False \<or> spent m late (e, t)"
  using assms by (auto simp: evaluate_candidate_Inr spent_simp split: if_splits)

lemma spent_later: "forward late \<Longrightarrow> spent m late (e, t) \<Longrightarrow> e \<le> e' \<Longrightarrow> t \<le> t' \<Longrightarrow> spent m late (e', t')"
  by (auto simp: spent_simp forward_def)

text \<open>One step of the pass over the chunks.\<close>

lemma try_starts_Cons:
  assumes "try_starts m late predicate lines chunk (st # starts) (e, t) = Inr (a, s')"
  obtains (out) s1 where "within_budget m late (e, t) = (False, s1)" "a = OutOfBudget" "s' = s1"
  | (good) e1 t1 where "within_budget m late (e, t) = (True, (e1, t1))" "a = Reduced (without_chunk lines st chunk)"
      "evaluate_candidate m late predicate (concat (without_chunk lines st chunk)) (e1, t1) = Inr (True, s')"
  | (next_start) e1 t1 e2 t2 where "within_budget m late (e, t) = (True, (e1, t1))"
      "evaluate_candidate m late predicate (concat (without_chunk lines st chunk)) (e1, t1) = Inr (False, (e2, t2))"
      "try_starts m late predicate lines chunk starts (e2, t2) = Inr (a, s')"
proof -
  obtain w e1 t1 where w: "within_budget m late (e, t) = (w, (e1, t1))" by (metis prod_cases3)
  show ?thesis
  proof (cases w)
    case False
    then show ?thesis using assms w out by simp
  next
    case True
    then obtain g s2 where g: "evaluate_candidate m late predicate (concat (without_chunk lines st chunk)) (e1, t1) = Inr (g, s2)"
      "(if g then Inr (Reduced (without_chunk lines st chunk), s2) else try_starts m late predicate lines chunk starts s2) = Inr (a, s')"
      using assms w by (auto simp: and_then_Inr)
    show ?thesis
    proof (cases g)
      case True
      then show ?thesis using good[of e1 t1] w g \<open>w\<close> by auto
    next
      case False
      then show ?thesis using next_start[of e1 t1 "fst s2" "snd s2"] w g \<open>w\<close> by auto
    qed
  qed
qed

lemma try_starts_meter:
  "try_starts m late predicate lines chunk starts (e, t) = Inr (a, (e', t')) \<Longrightarrow> e \<le> e' \<and> t \<le> t' \<and> (e \<le> m \<longrightarrow> e' \<le> m)"
proof (induction starts arbitrary: e t)
  case (Cons st starts)
  from Cons.prems show ?case
  proof (cases rule: try_starts_Cons)
    case (out s1)
    then show ?thesis using within_budget_snd by blast
  next
    case (good e1 t1)
    then show ?thesis using within_budget_snd[OF good(1)] evaluate_candidate_meter[OF good(3)] by auto
  next
    case (next_start e1 t1 e2 t2)
    then show ?thesis
      using within_budget_snd[OF next_start(1)] evaluate_candidate_meter[OF next_start(2)] Cons.IH[OF next_start(3)] by auto
  qed
qed simp

lemma try_starts_not_reduced:
  "forward late \<Longrightarrow> try_starts m late predicate lines chunk starts (e, t) = Inr (NotReduced, (e', t')) \<Longrightarrow>
   \<not> spent m late (e', t') \<Longrightarrow> st \<in> set starts \<Longrightarrow> predicate (concat (without_chunk lines st chunk)) = Inr False"
proof (induction starts arbitrary: e t)
  case (Cons x starts)
  from Cons.prems(2) obtain e1 t1 e2 t2 where
    g: "evaluate_candidate m late predicate (concat (without_chunk lines x chunk)) (e1, t1) = Inr (False, (e2, t2))"
    and r: "try_starts m late predicate lines chunk starts (e2, t2) = Inr (NotReduced, (e', t'))"
    by (cases rule: try_starts_Cons) auto
  show ?case
  proof (cases "st = x")
    case True
    have "e1 \<le> e'" "t1 \<le> t'"
      using evaluate_candidate_meter(1,2)[OF g] try_starts_meter[OF r] by auto
    then have "\<not> spent m late (e1, t1)" using spent_later[OF Cons.prems(1)] Cons.prems(3) by blast
    then show ?thesis using evaluate_candidate_meter(4)[OF g] True by blast
  next
    case False
    then show ?thesis using Cons.IH[OF Cons.prems(1) r Cons.prems(3)] Cons.prems(4) by simp
  qed
qed simp

lemma ddmin_pass_meter:
  assumes "ddmin_pass m late predicate lines n (e, t) = Inr (a, (e', t'))"
  shows "e \<le> m \<Longrightarrow> e' \<le> m"
proof -
  obtain w e1 t1 where w: "within_budget m late (e, t) = (w, (e1, t1))" by (metis prod_cases3)
  then show "e \<le> m \<Longrightarrow> e' \<le> m"
    using assms within_budget_snd[OF w] try_starts_meter[of m late predicate lines _ _ e1 t1 a e' t']
    by (cases w) (auto simp: ddmin_pass_def Let_def)
qed

lemma ddmin_loop_evaluations:
  assumes "0 < n" "ddmin_loop m late predicate lines n s = Inr (ls, s', c)" "fst s \<le> m"
  shows "fst s' \<le> m"
proof -
  have "ddmin_loop m late predicate lines n s = Inr (ls, s', c) \<longrightarrow> fst s \<le> m \<longrightarrow> fst s' \<le> m"
    using assms(1)
    by (induction rule: ddmin_loop_run[where P = "\<lambda>lines n s r. r = Inr (ls, s', c) \<longrightarrow> fst s \<le> m \<longrightarrow> fst s' \<le> m"])
      (auto dest: ddmin_pass_meter)
  then show ?thesis using assms(2,3) by blast
qed

text \<open>With the granularity at or above the number of lines, chunks are single lines.\<close>

lemma chunk_size_one: "0 < length lines \<Longrightarrow> length lines \<le> n \<Longrightarrow> chunk_size lines n = 1"
proof -
  assume l: "0 < length lines" "length lines \<le> n"
  then have "(length lines + n - 1) div n = 1"
    by (intro div_nat_eqI) (cases lines; simp)+
  then show ?thesis by (simp add: chunk_size_def)
qed

lemma ddmin_loop_minimal:
  assumes "0 < n" "ddmin_loop m late predicate lines n s = Inr (ls, s', True)" "forward late" "\<not> spent m late s'"
    and "2 \<le> length ls" "i < length ls"
  shows "predicate (concat (take i ls @ drop (Suc i) ls)) = Inr False"
proof -
  have "ddmin_loop m late predicate lines n s = Inr (ls, s', True) \<longrightarrow> predicate (concat (take i ls @ drop (Suc i) ls)) = Inr False"
    using assms(1)
  proof (induction rule: ddmin_loop_run[where P = "\<lambda>lines n s r. r = Inr (ls, s', True) \<longrightarrow>
      predicate (concat (take i ls @ drop (Suc i) ls)) = Inr False"])
    case (short lines n s)
    then show ?case using assms(5) by auto
  next
    case (minimal lines n s s1)
    {
      assume eq: "lines = ls" "s1 = s'"
      have one: "chunk_size lines n = 1" using minimal(2,3) by (intro chunk_size_one) auto
      obtain e t where s: "s = (e, t)" by (cases s)
      obtain e' t' where s': "s' = (e', t')" by (cases s')
      obtain e1 t1 where "try_starts m late predicate lines 1 (chunk_starts lines 1) (e1, t1) = Inr (NotReduced, (e', t'))"
        using minimal(4) one eq s' by (auto simp: ddmin_pass_def Let_def split: prod.splits if_splits)
      from try_starts_not_reduced[OF assms(3) this, of i] have "predicate (concat (without_chunk lines i 1)) = Inr False"
        using assms(4,6) s' eq by (simp add: chunk_starts_def)
      then have "predicate (concat (take i ls @ drop (Suc i) ls)) = Inr False" by (simp add: eq without_chunk_def)
    }
    then show ?case by auto
  qed auto
  then show ?thesis using assms(2) by blast
qed

section \<open>Lemmas: the result\<close>

lemma minimize_lines_Inr:
  assumes "minimize_lines m late source predicate = Inr r"
  shows "\<exists>ls. mr_source r = concat ls \<and> subseq ls (lines_keep source) \<and> predicate (mr_source r) = Inr True \<and>
    mr_evaluations r \<le> m \<and> mr_removed_lines r = length (lines_keep source) - length ls \<and>
    (mr_status r = REDUCED_COUNTEREXAMPLE \<longleftrightarrow> mr_budget_exhausted r) \<and>
    (forward late \<longrightarrow> mr_status r = MINIMAL_UNDER_CONFIGURED_GRANULARITY \<longrightarrow> 2 \<le> length ls \<longrightarrow>
       (\<forall>i < length ls. predicate (concat (take i ls @ drop (Suc i) ls)) = Inr False))"
proof -
  obtain e t where ev: "evaluate_candidate m late predicate source (0, 0) = Inr (True, (e, t))"
    using assms by (auto simp: minimize_lines_def and_then_Inr Let_def split: if_splits)
  have src: "predicate source = Inr True" and e: "e \<le> m"
    using ev by (auto simp: evaluate_candidate_Inr split: if_splits)
  obtain ls s1 completed where d: "ddmin_loop m late predicate (lines_keep source) 2 (e, t) = Inr (ls, s1, completed)"
    using assms ev by (auto simp: minimize_lines_def Let_def and_then_Inr)
  obtain within s2 where w: "(if \<not> completed then (False, s1) else within_budget m late s1) = (within, s2)"
    by (cases "if \<not> completed then (False, s1) else within_budget m late s1")
  have r: "r = \<lparr>mr_source = concat ls,
        mr_status = (if \<not> completed \<or> \<not> within then REDUCED_COUNTEREXAMPLE else MINIMAL_UNDER_CONFIGURED_GRANULARITY),
        mr_evaluations = fst s2, mr_removed_lines = length (lines_keep source) - length ls,
        mr_budget_exhausted = (\<not> completed \<or> \<not> within)\<rparr>"
    using assms ev d w by (simp add: minimize_lines_def Let_def)
  have s2: "fst s2 = fst s1"
    using w by (cases s1; cases s2) (auto dest: within_budget_snd split: if_splits)
  note res = ddmin_loop_result[OF _ d] and evs = ddmin_loop_evaluations[OF _ d]
  have "forward late \<Longrightarrow> completed \<Longrightarrow> within \<Longrightarrow> 2 \<le> length ls \<Longrightarrow> i < length ls \<Longrightarrow>
      predicate (concat (take i ls @ drop (Suc i) ls)) = Inr False" for i
    using ddmin_loop_minimal[of 2 m late predicate "lines_keep source" "(e, t)" ls s1 i] d w by (simp add: spent_def)
  then show ?thesis
    using res evs e src s2 by (intro exI[of _ ls]) (auto simp: r concat_lines_keep)
qed

lemma minimize_lines_outcome:
  assumes "0 < m" "\<not> late 0" "predicate source = Inr True"
  shows "ok (minimize_lines m late source predicate) \<or>
    (\<exists>e ls. minimize_lines m late source predicate = Inl e \<and> subseq ls (lines_keep source) \<and> predicate (concat ls) = Inl e)"
proof -
  have ev: "evaluate_candidate m late predicate source (0, 0) = Inr (True, (1, 1))"
    using assms by (simp add: evaluate_candidate_Inr)
  show ?thesis
  proof (cases "ddmin_loop m late predicate (lines_keep source) 2 (1, 1)")
    case (Inl e)
    then show ?thesis using ddmin_loop_raised[OF _ Inl] by (simp add: minimize_lines_def ev Let_def)
  next
    case (Inr x)
    then show ?thesis by (cases x) (simp add: minimize_lines_def ev Let_def case_prod_beta)
  qed
qed

end
