(* ===== verification/Wilson.thy ===== *)
theory Wilson
  imports Assessment
begin

text \<open>
  The Wilson interval of coverage/assessment.py as the floats compute it.  The lemmas: for the exact formula the
  observed rate lies in the interval; the computed one lies in [0, 1] and is not empty; and at the score
  the program uses it contains the observed rate up to \<open>2 powr -46\<close>.
\<close>

section \<open>The exact formula\<close>

lemma wilson_algebra:
  fixes p n z :: real
  assumes "0 < n" "0 \<le> p" "p \<le> 1" "0 \<le> z"
  defines "d \<equiv> 1 + z * z / n"
  defines "c \<equiv> (p + z * z / (2 * n)) / d" and "m \<equiv> z * sqrt (p * (1 - p) / n + z * z / (4 * n * n)) / d"
  shows "c - m \<le> p" "p \<le> c + m" "0 \<le> m" "0 \<le> c" "c \<le> 1" "m \<le> 1"
proof -
  have d: "0 < d" using assms(1) by (simp add: d_def add_pos_nonneg)
  let ?r = "p * (1 - p) / n + z * z / (4 * n * n)"
  have r: "0 \<le> ?r" using assms(1-4) by simp
  show m: "0 \<le> m" using d assms(4) r by (simp add: m_def)
  have diff: "(c - p) * d = z * z / (2 * n) * (1 - 2 * p)"
  proof -
    define w where "w = z * z / (2 * n)"
    have "z * z / n = 2 * w" by (simp add: w_def)
    then have pd: "p * d = p + 2 * p * w" by (simp add: d_def algebra_simps)
    have cd: "c * d = p + w" using d by (simp add: c_def w_def)
    show ?thesis by (simp only: left_diff_distrib cd pd flip: w_def) (simp add: algebra_simps)
  qed
  have "(z / (2 * n) * (1 - 2 * p))\<^sup>2 \<le> ?r"
  proof -
    have "(z / (2 * n) * (1 - 2 * p))\<^sup>2 = z * z / (4 * n * n) - p * (1 - p) * (z * z / (n * n))"
      using assms(1) by (simp add: power2_eq_square field_simps)
    also have "\<dots> \<le> z * z / (4 * n * n)" using assms(1-3) by simp
    also have "\<dots> \<le> ?r" using assms(1-3) by simp
    finally show ?thesis .
  qed
  then have "\<bar>z / (2 * n) * (1 - 2 * p)\<bar> \<le> sqrt ?r"
    using real_sqrt_le_mono by fastforce
  then have "z * \<bar>z / (2 * n) * (1 - 2 * p)\<bar> \<le> z * sqrt ?r"
    using assms(4) by (rule mult_left_mono)
  moreover have "\<bar>(c - p) * d\<bar> = z * \<bar>z / (2 * n) * (1 - 2 * p)\<bar>"
  proof -
    have "(c - p) * d = z * (z / (2 * n) * (1 - 2 * p))" using diff by simp
    then show ?thesis using assms(4) by (simp add: abs_mult)
  qed
  moreover have "z * sqrt ?r = m * d" using d by (simp add: m_def)
  ultimately have "\<bar>c - p\<bar> * d \<le> m * d" using d by (simp add: abs_mult)
  then have "\<bar>c - p\<bar> \<le> m" using d by simp
  then show "c - m \<le> p" "p \<le> c + m" by auto
  define v where "v = z * z / n"
  have v: "0 \<le> v" "d = 1 + v" "z * z / (2 * n) = v / 2" using assms(1,4) by (simp_all add: v_def d_def)
  show "0 \<le> c" using assms(1,2) v d unfolding c_def v(3) by (intro divide_nonneg_pos add_nonneg_nonneg) simp_all
  have "p + v / 2 \<le> d" using assms(3) v by linarith
  then show "c \<le> 1" using d unfolding c_def v(3) by simp
  have "(z * sqrt ?r)\<^sup>2 = v * (p * (1 - p) + v / 4)"
    using r assms(1) by (simp add: power_mult_distrib v_def power2_eq_square field_simps)
  also have "\<dots> \<le> d * d"
  proof (rule mult_mono)
    have "p * (1 - p) \<le> 1 * 1" by (rule mult_mono) (use assms(2,3) in simp_all)
    then show "p * (1 - p) + v / 4 \<le> d" using v(1,2) by linarith
    show "0 \<le> p * (1 - p) + v / 4" using assms(2,3) v(1) by simp
  qed (use v in simp_all)
  finally have "z * sqrt ?r \<le> d" using d by (simp add: power2_eq_square[symmetric] power2_le_iff_abs_le)
  then show "m \<le> 1" using d by (simp add: m_def)
qed

section \<open>The range\<close>

text \<open>The parts of the computation under names.\<close>

definition w_n :: "int \<Rightarrow> real" where "w_n t = binary64 (real_of_int t)"
definition w_p :: "int \<Rightarrow> int \<Rightarrow> real" where "w_p s t = binary64 (real_of_int s / real_of_int t)"
definition w_den :: "int \<Rightarrow> real \<Rightarrow> real" where
  "w_den t z = binary64 (1 + binary64 (binary64 (z * z) / w_n t))"
definition w_center :: "int \<Rightarrow> int \<Rightarrow> real \<Rightarrow> real" where
  "w_center s t z = binary64 (binary64 (w_p s t + binary64 (binary64 (z * z) / binary64 (2 * w_n t))) / w_den t z)"
definition w_radicand :: "int \<Rightarrow> int \<Rightarrow> real \<Rightarrow> real" where
  "w_radicand s t z = binary64 (binary64 (binary64 (w_p s t * binary64 (1 - w_p s t)) / w_n t) +
     binary64 (binary64 (z * z) / binary64 (binary64 (4 * w_n t) * w_n t)))"
definition w_margin :: "int \<Rightarrow> int \<Rightarrow> real \<Rightarrow> real" where
  "w_margin s t z = binary64 (binary64 (z * binary64 (sqrt (w_radicand s t z))) / w_den t z)"

lemma wilson_interval_parts:
  "0 \<le> s \<Longrightarrow> s \<le> t \<Longrightarrow> 0 < t \<Longrightarrow> wilson_interval s t z =
    Inr (Some (max 0 (binary64 (w_center s t z - w_margin s t z)), min 1 (binary64 (w_center s t z + w_margin s t z))))"
  by (simp add: wilson_interval_def w_center_def w_margin_def w_radicand_def w_den_def w_p_def w_n_def Let_def)

lemma w_n_ge: "0 < t \<Longrightarrow> 1 \<le> w_n t"
  using binary64_mono[of 1 "real_of_int t"] by (simp add: w_n_def)

lemma w_n_double: "0 < t \<Longrightarrow> w_n t \<le> binary64 (2 * w_n t)"
proof -
  assume t: "0 < t"
  have "2 powr - 1022 \<le> (2 :: real) powr 0" by (rule powr_mono) simp_all
  then have "2 powr - 1022 \<le> real_of_int t" using t by simp
  from binary64_half[OF this] have "real_of_int t \<le> 2 * w_n t" by (simp add: w_n_def)
  then show ?thesis using binary64_mono[of "real_of_int t" "2 * w_n t"] t by (simp add: w_n_def)
qed

lemma w_p_range: "0 \<le> s \<Longrightarrow> s \<le> t \<Longrightarrow> 0 < t \<Longrightarrow> 0 \<le> w_p s t" "0 \<le> s \<Longrightarrow> s \<le> t \<Longrightarrow> 0 < t \<Longrightarrow> w_p s t \<le> 1"
  using binary64_nonneg[of "real_of_int s / real_of_int t"] binary64_mono[of "real_of_int s / real_of_int t" 1]
  by (simp_all add: w_p_def)

lemma w_den_ge: "0 < t \<Longrightarrow> 1 \<le> w_den t z"
  using binary64_mono[of 1 "1 + binary64 (binary64 (z * z) / w_n t)"] binary64_nonneg[of "binary64 (z * z) / w_n t"]
    binary64_nonneg[of "z * z"] w_n_ge[of t]
  by (simp add: w_den_def)

lemma w_center_range:
  assumes "0 \<le> s" "s \<le> t" "0 < t"
  shows "0 \<le> w_center s t z" "w_center s t z \<le> 1"
proof -
  let ?z2 = "binary64 (z * z)"
  let ?u = "binary64 (?z2 / binary64 (2 * w_n t))" and ?v = "binary64 (?z2 / w_n t)"
  have z2: "0 \<le> ?z2" by (simp add: binary64_nonneg)
  have n: "1 \<le> w_n t" "w_n t \<le> binary64 (2 * w_n t)" using w_n_ge w_n_double assms(3) by blast+
  have u: "0 \<le> ?u" using z2 n by (intro binary64_nonneg) simp
  have "?u \<le> ?v" using z2 n by (intro binary64_mono divide_left_mono) auto
  then have le: "binary64 (w_p s t + ?u) \<le> w_den t z"
    unfolding w_den_def using w_p_range[OF assms] u by (intro binary64_mono) auto
  have nn: "0 \<le> binary64 (w_p s t + ?u)" using w_p_range(1)[OF assms] u by (intro binary64_nonneg) simp
  have d: "1 \<le> w_den t z" using w_den_ge[OF assms(3)] .
  show "0 \<le> w_center s t z" unfolding w_center_def using nn d by (intro binary64_nonneg) simp
  have "w_center s t z \<le> binary64 1" unfolding w_center_def using nn d le by (intro binary64_mono) simp_all
  then show "w_center s t z \<le> 1" by simp
qed

lemma w_margin_nonneg: "0 \<le> z \<Longrightarrow> 0 < t \<Longrightarrow> 0 \<le> s \<Longrightarrow> s \<le> t \<Longrightarrow> 0 \<le> w_margin s t z"
proof -
  assume a: "0 \<le> z" "0 < t" "0 \<le> s" "s \<le> t"
  have "0 \<le> z * z" by simp
  then have "0 \<le> w_radicand s t z"
    unfolding w_radicand_def using w_n_ge[OF a(2)] w_p_range[OF a(3,4,2)] a(1)
    by (intro binary64_nonneg add_nonneg_nonneg divide_nonneg_nonneg mult_nonneg_nonneg) auto
  then show ?thesis
    unfolding w_margin_def using a(1) w_den_ge[OF a(2), of z]
    by (intro binary64_nonneg divide_nonneg_nonneg mult_nonneg_nonneg) auto
qed

lemma wilson_interval_range:
  assumes "0 \<le> s" "s \<le> t" "0 < t" "0 \<le> z" "wilson_interval s t z = Inr (Some (lo, hi))"
  shows "0 \<le> lo" "lo \<le> hi" "hi \<le> 1"
proof -
  let ?c = "w_center s t z" and ?m = "w_margin s t z"
  have c: "0 \<le> ?c" "?c \<le> 1" and m: "0 \<le> ?m" using w_center_range w_margin_nonneg assms by blast+
  have lh: "lo = max 0 (binary64 (?c - ?m))" "hi = min 1 (binary64 (?c + ?m))"
    using assms wilson_interval_parts by auto
  have "binary64 (?c - ?m) \<le> 1 \<and> binary64 (?c - ?m) \<le> binary64 (?c + ?m)"
  proof (cases "0 \<le> ?c - ?m")
    case True
    then show ?thesis using binary64_mono[of "?c - ?m" 1] binary64_mono[of "?c - ?m" "?c + ?m"] c m by simp
  next
    case False
    then show ?thesis using binary64_nonpos[of "?c - ?m"] binary64_nonneg[of "?c + ?m"] c m by simp
  qed
  moreover have "0 \<le> binary64 (?c + ?m)" using c m by (intro binary64_nonneg) simp
  ultimately show "0 \<le> lo" "lo \<le> hi" "hi \<le> 1" unfolding lh by simp_all
qed

section \<open>The error\<close>

lemma z95_mag: "mag 0 1 z95"
proof -
  have "mag 0 1 (1.959963984540054 :: real)" by (simp add: mag_def)
  then show ?thesis unfolding z95_def by (rule mag_binary64) simp_all
qed

text \<open>The roundings of the parts, for up to \<open>2 ^ 53\<close> trials; none of them underflows.\<close>

lemma trials_mag: "0 < t \<Longrightarrow> t \<le> 2 ^ 53 \<Longrightarrow> mag 0 53 (real_of_int t)"
proof -
  assume t: "0 < t" "t \<le> 2 ^ 53"
  then have "real_of_int t \<le> real_of_int (2 ^ 53)" by (simp only: of_int_le_iff)
  moreover have "2 powr 53 = (2 :: real) ^ 53" by simp
  ultimately show ?thesis using t(1) by (simp add: mag_def)
qed

lemma w_n_mag: "0 < t \<Longrightarrow> t \<le> 2 ^ 53 \<Longrightarrow> mag 0 53 (w_n t)"
  unfolding w_n_def by (intro mag_binary64 trials_mag) simp_all

lemma near_mag_or_zero: "near k a b \<Longrightarrow> a = 0 \<or> mag i j a \<Longrightarrow> - 1022 \<le> i \<Longrightarrow> k < m \<Longrightarrow> near m (binary64 a) b"
  by (rule near_mono[OF near_binary64]) (auto dest: mag_normal)

lemma near_mag: "near k a b \<Longrightarrow> mag i j a \<Longrightarrow> - 1022 \<le> i \<Longrightarrow> k < m \<Longrightarrow> near m (binary64 a) b"
  by (rule near_mag_or_zero[OF _ disjI2])

lemma near_n: "0 < t \<Longrightarrow> t \<le> 2 ^ 53 \<Longrightarrow> near 1 (w_n t) (real_of_int t)"
  unfolding w_n_def by (rule near_mag[OF near_refl trials_mag]) simp_all

definition w_z2 :: real where "w_z2 = binary64 (z95 * z95)"

lemma near_z2: "near 1 w_z2 (z95 * z95)" "mag 0 2 w_z2"
proof -
  have m: "mag 0 2 (z95 * z95)" using mag_mult[OF z95_mag z95_mag] by simp
  show "near 1 w_z2 (z95 * z95)" unfolding w_z2_def by (rule near_mag[OF near_refl m]) simp_all
  show "mag 0 2 w_z2" unfolding w_z2_def using mag_binary64[OF m] by simp
qed

lemma near_den:
  assumes "0 < t" "t \<le> 2 ^ 53"
  shows "near 4 (w_den t z95) (1 + z95 * z95 / real_of_int t)" "mag 0 3 (w_den t z95)"
proof -
  let ?v = "binary64 (w_z2 / w_n t)"
  have mv: "mag (- 53) 2 (w_z2 / w_n t)" using mag_divide[OF near_z2(2) w_n_mag[OF assms]] by simp
  have nv: "near 3 ?v (z95 * z95 / real_of_int t)"
    by (rule near_mag[OF near_divide[OF near_z2(1) near_n[OF assms]] mv]) (use assms(1) in simp_all)
  have "mag (- 53) 2 ?v" using mag_binary64[OF mv] by simp
  then have v: "0 \<le> ?v" "?v \<le> 4" using mag_pos[of "- 53" 2 ?v] by (simp_all add: mag_def)
  then have m: "mag 0 3 (1 + ?v)" by (simp add: mag_def)
  have n: "near 3 (1 + ?v) (1 + z95 * z95 / real_of_int t)"
    by (rule near_add[OF near_mono[OF near_refl] nv]) simp_all
  show "near 4 (w_den t z95) (1 + z95 * z95 / real_of_int t)"
    unfolding w_den_def w_z2_def[symmetric] by (rule near_mag[OF n m]) simp_all
  show "mag 0 3 (w_den t z95)"
    using mag_binary64[OF m] by (simp add: w_den_def w_z2_def)
qed

lemma w_p_mag:
  assumes "0 \<le> s" "s \<le> t" "0 < t" "t \<le> 2 ^ 53"
  shows "w_p s t = 0 \<or> mag (- 53) 0 (w_p s t)"
proof (cases "s = 0")
  case False
  have t: "0 < real_of_int t" "real_of_int t \<le> 2 powr 53" using trials_mag[OF assms(3,4)] assms(3) by (simp_all add: mag_def)
  have "2 powr real_of_int (- 53) = (1 :: real) / 2 powr 53" using powr_minus_divide[of 2 "53 :: real"] by simp
  also have "\<dots> \<le> real_of_int s / real_of_int t" by (rule frac_le) (use False assms t in simp_all)
  finally have "mag (- 53) 0 (real_of_int s / real_of_int t)" unfolding mag_def using assms by simp
  then show ?thesis unfolding w_p_def by (intro disjI2 mag_binary64) simp_all
qed (simp add: w_p_def)

lemma near_center:
  assumes "0 \<le> s" "s \<le> t" "0 < t" "t \<le> 2 ^ 53"
  shows "near 10 (w_center s t z95) ((w_p s t + z95 * z95 / (2 * real_of_int t)) / (1 + z95 * z95 / real_of_int t))"
proof -
  let ?n2 = "binary64 (2 * w_n t)"
  let ?u = "binary64 (w_z2 / ?n2)"
  have two: "mag 1 1 (2 :: real)" by (simp add: mag_def)
  have m2: "mag 1 54 (2 * w_n t)" using mag_mult[OF two w_n_mag[OF assms(3,4)]] by simp
  have n2: "near 2 ?n2 (2 * real_of_int t)"
    by (rule near_mag[OF near_mult[OF near_refl near_n[OF assms(3,4)], of 2] m2]) simp_all
  have mu: "mag (- 54) 1 (w_z2 / ?n2)" using mag_divide[OF near_z2(2) mag_binary64[OF m2]] by simp
  have nu: "near 4 ?u (z95 * z95 / (2 * real_of_int t))"
    by (rule near_mag[OF near_divide[OF near_z2(1) n2] mu]) (use assms(3) in simp_all)
  have p: "0 \<le> w_p s t" "w_p s t \<le> 1" using w_p_range[OF assms(1-3)] by simp_all
  have "near 4 (w_p s t) (w_p s t)" by (rule near_mono[OF near_refl]) (use p in simp_all)
  from near_add[OF this nu] have ns: "near 4 (w_p s t + ?u) (w_p s t + z95 * z95 / (2 * real_of_int t))" .
  have "mag (- 54) 2 (?u + w_p s t)" using mag_add[OF mag_binary64[OF mu], of "w_p s t"] p by simp
  then have ms: "mag (- 54) 2 (w_p s t + ?u)" by (simp add: add.commute)
  have nb: "near 5 (binary64 (w_p s t + ?u)) (w_p s t + z95 * z95 / (2 * real_of_int t))"
    by (rule near_mag[OF ns ms]) simp_all
  have md: "mag (- 57) 2 (binary64 (w_p s t + ?u) / w_den t z95)"
    using mag_divide[OF mag_binary64[OF ms] near_den(2)[OF assms(3,4)]] by simp
  have "0 < 1 + z95 * z95 / real_of_int t" using assms(3) by (intro add_pos_nonneg) simp_all
  then show ?thesis
    unfolding w_center_def w_z2_def[symmetric] by (intro near_mag[OF near_divide[OF nb near_den(1)[OF assms(3,4)]] md]) simp_all
qed

text \<open>The rate that is not 1 leaves at least \<open>2 powr -53\<close>.\<close>

lemma w_q_mag:
  assumes "0 \<le> s" "s \<le> t" "0 < t" "t \<le> 2 ^ 53"
  shows "1 - w_p s t = 0 \<or> mag (- 53) 0 (1 - w_p s t)"
proof (cases "s = t")
  case True
  then show ?thesis using assms by (simp add: w_p_def)
next
  case False
  have t: "0 < real_of_int t" "real_of_int t \<le> 2 ^ 53" using trials_mag[OF assms(3,4)] assms(3) by (simp_all add: mag_def)
  have "real_of_int s \<le> real_of_int t - 1" using False assms(2) by linarith
  then have "real_of_int s / real_of_int t \<le> (real_of_int t - 1) / real_of_int t" using t(1) by (intro divide_right_mono) simp_all
  also have "\<dots> = 1 - 1 / real_of_int t" using t(1) by (simp add: diff_divide_distrib)
  also have "\<dots> \<le> 1 - 1 / 2 ^ 53" using t by (intro diff_left_mono frac_le) simp_all
  finally have "w_p s t \<le> 1 - 1 / 2 ^ 53"
    using binary64_mono[of "real_of_int s / real_of_int t" "1 - 1 / 2 ^ 53"] assms unfolding binary64_before_one w_p_def by simp
  moreover have "2 powr real_of_int (- 53) = (1 :: real) / 2 ^ 53" using powr_minus_divide[of 2 "53 :: real"] by simp
  ultimately show ?thesis using w_p_range(1)[OF assms(1-3)] by (simp add: mag_def)
qed

lemma zero_or_mag_mult: "x = 0 \<or> mag a b x \<Longrightarrow> y = 0 \<or> mag c d y \<Longrightarrow> x * y = 0 \<or> mag (a + c) (b + d) (x * y)"
  using mag_mult by fastforce

lemma zero_or_mag_divide: "x = 0 \<or> mag a b x \<Longrightarrow> mag c d y \<Longrightarrow> x / y = 0 \<or> mag (a - d) (b - c) (x / y)"
  using mag_divide by fastforce

lemma zero_or_mag_binary64: "x = 0 \<or> mag a b x \<Longrightarrow> - 1022 \<le> a \<Longrightarrow> a \<le> b \<Longrightarrow> binary64 x = 0 \<or> mag a b (binary64 x)"
  using mag_binary64 by fastforce

lemma near_radicand:
  fixes s t :: int
  assumes "0 \<le> s" "s \<le> t" "0 < t" "t \<le> 2 ^ 53"
  defines "p \<equiv> w_p s t" and "n \<equiv> real_of_int t"
  shows "near 7 (w_radicand s t z95) (p * (1 - p) / n + z95 * z95 / (4 * n * n))" "mag (- 108) 4 (w_radicand s t z95)"
proof -
  note N = near_n[OF assms(3,4), folded n_def] and M = w_n_mag[OF assms(3,4)]
  have p: "0 \<le> p" "p \<le> 1" using w_p_range[OF assms(1-3)] by (simp_all add: p_def)
  let ?q = "binary64 (1 - p)"
  have mq: "?q = 0 \<or> mag (- 53) 0 ?q" by (rule zero_or_mag_binary64) (use w_q_mag[OF assms(1-4)] in \<open>simp_all add: p_def\<close>)
  have nq: "near 1 ?q (1 - p)"
    by (rule near_mag_or_zero[OF near_refl, where i = "- 53" and j = 0]) (use w_q_mag[OF assms(1-4)] p in \<open>simp_all add: p_def\<close>)
  have mpq: "p * ?q = 0 \<or> mag (- 106) 0 (p * ?q)"
    using zero_or_mag_mult[OF w_p_mag[OF assms(1-4)] mq[unfolded p_def]] by (simp add: p_def)
  have npq: "near 2 (binary64 (p * ?q)) (p * (1 - p))"
    by (rule near_mag_or_zero[OF near_mult[OF near_refl nq] mpq]) (use p in simp_all)
  have ma: "binary64 (p * ?q) / w_n t = 0 \<or> mag (- 159) 0 (binary64 (p * ?q) / w_n t)"
    using zero_or_mag_divide[OF zero_or_mag_binary64[OF mpq] M] by simp
  let ?A = "binary64 (binary64 (p * ?q) / w_n t)"
  have n0: "0 < n" using assms(3) by (simp add: n_def)
  have na: "near 4 ?A (p * (1 - p) / n)" by (rule near_mag_or_zero[OF near_divide[OF npq N n0] ma]) simp_all
  have a: "0 \<le> ?A" "?A \<le> 1" using zero_or_mag_binary64[OF ma] near_nonneg(1)[OF na] by (auto simp: mag_def)
  have four: "mag 2 2 (4 :: real)" by (simp add: mag_def)
  have m4: "mag 2 55 (4 * w_n t)" using mag_mult[OF four M] by simp
  have n4: "near 2 (binary64 (4 * w_n t)) (4 * n)" by (rule near_mag[OF near_mult[OF near_refl N, of 4] m4]) simp_all
  have mm: "mag 2 108 (binary64 (4 * w_n t) * w_n t)" using mag_mult[OF mag_binary64[OF m4] M] by simp
  have nm: "near 4 (binary64 (binary64 (4 * w_n t) * w_n t)) (4 * n * n)"
    by (rule near_mag[OF near_mult[OF n4 N] mm]) simp_all
  have mb: "mag (- 108) 0 (w_z2 / binary64 (binary64 (4 * w_n t) * w_n t))"
    using mag_divide[OF near_z2(2) mag_binary64[OF mm]] by simp
  let ?B = "binary64 (w_z2 / binary64 (binary64 (4 * w_n t) * w_n t))"
  have nb: "near 6 ?B (z95 * z95 / (4 * n * n))"
    by (rule near_mag[OF near_divide[OF near_z2(1) nm] mb]) (use n0 in simp_all)
  have "mag (- 108) 1 (?B + ?A)" using mag_add[OF mag_binary64[OF mb], of ?A] a by simp
  then have "mag (- 108) 1 (?A + ?B)" by (simp only: add.commute[of ?A ?B])
  then have ms: "mag (- 108) 4 (?A + ?B)" by (rule mag_weaken) simp_all
  have r: "w_radicand s t z95 = binary64 (?A + ?B)" by (simp add: w_radicand_def w_z2_def p_def)
  show "near 7 (w_radicand s t z95) (p * (1 - p) / n + z95 * z95 / (4 * n * n))"
    unfolding r by (rule near_mag[OF near_add[OF near_mono[OF na] nb] ms]) simp_all
  show "mag (- 108) 4 (w_radicand s t z95)" unfolding r by (rule mag_binary64[OF ms]) simp_all
qed

lemma near_margin:
  fixes s t :: int
  assumes "0 \<le> s" "s \<le> t" "0 < t" "t \<le> 2 ^ 53"
  defines "p \<equiv> w_p s t" and "n \<equiv> real_of_int t"
  shows "near 14 (w_margin s t z95) (z95 * sqrt (p * (1 - p) / n + z95 * z95 / (4 * n * n)) / (1 + z95 * z95 / n))"
proof -
  let ?r = "p * (1 - p) / n + z95 * z95 / (4 * n * n)"
  note R = near_radicand[OF assms(1-4), folded p_def n_def] and D = near_den[OF assms(3,4), folded n_def]
  have ms: "mag (- 54) 2 (sqrt (w_radicand s t z95))" by (rule mag_sqrt) (use R(2) in simp)
  have ns: "near 8 (binary64 (sqrt (w_radicand s t z95))) (sqrt ?r)" by (rule near_mag[OF near_sqrt[OF R(1)] ms]) simp_all
  have mz: "mag (- 54) 3 (z95 * binary64 (sqrt (w_radicand s t z95)))" using mag_mult[OF z95_mag mag_binary64[OF ms]] by simp
  have "near 0 z95 z95" using near_refl mag_pos[OF z95_mag] by simp
  then have nz: "near 9 (binary64 (z95 * binary64 (sqrt (w_radicand s t z95)))) (z95 * sqrt ?r)"
    by (intro near_mag[OF near_mult[OF _ ns] mz]) simp_all
  have md: "mag (- 57) 3 (binary64 (z95 * binary64 (sqrt (w_radicand s t z95))) / w_den t z95)"
    using mag_divide[OF mag_binary64[OF mz] D(2)] by simp
  have "0 < 1 + z95 * z95 / n" using assms(3) by (intro add_pos_nonneg) (simp_all add: n_def)
  then show ?thesis unfolding w_margin_def by (intro near_mag[OF near_divide[OF nz D(1)] md]) simp_all
qed

lemma near_difference:
  assumes "near 14 a b" "b \<le> 1"
  shows "\<bar>a - b\<bar> \<le> 1 / 2 ^ 48"
proof -
  have r: "rnd ^ 14 \<le> 1 + 1 / 2 ^ 48" by (simp add: rnd_def power_divide)
  have b: "0 \<le> b" using near_nonneg(2)[OF assms(1)] .
  have "a \<le> b * (1 + 1 / 2 ^ 48)" using assms(1) mult_left_mono[OF r b] by (simp add: near_def)
  then have 1: "a - b \<le> b / 2 ^ 48" by (simp add: distrib_left)
  have "b \<le> a * rnd ^ 14" using assms(1) by (simp add: near_def pos_divide_le_eq)
  also have "\<dots> \<le> a * (1 + 1 / 2 ^ 48)" using near_nonneg(1)[OF assms(1)] by (intro mult_left_mono r)
  finally have 2: "b - a \<le> a / 2 ^ 48" by (simp add: distrib_left)
  show ?thesis
  proof (cases "a \<le> b")
    case True
    then show ?thesis using 2 assms(2) by simp
  next
    case False
    then show ?thesis using 1 assms(2) by simp
  qed
qed

lemma binary64_error_le:
  assumes "0 \<le> x" "x \<le> 2"
  shows "\<bar>binary64 x - x\<bar> \<le> 1 / 2 ^ 52"
proof (cases "2 powr - 1022 \<le> x")
  case True
  then show ?thesis using binary64_error[OF True] assms(2) by simp
next
  case False
  have m: "2 powr real_of_int (- 1022) \<le> (2 :: real) powr real_of_int (- 53)" by (rule powr_mono) simp_all
  have p: "2 powr real_of_int (- 53) = (1 :: real) / 2 ^ 53" using powr_minus_divide[of 2 "53 :: real"] by simp
  have "x \<le> 2 powr real_of_int (- 1022)" using False by simp
  then have "binary64 x \<le> 2 powr real_of_int (- 1022)"
    using binary64_mono[of x "2 powr real_of_int (- 1022)"] binary64_powr[of "- 1022"] assms(1) by simp
  moreover have "0 \<le> binary64 x" using assms(1) by (rule binary64_nonneg)
  ultimately have "\<bar>binary64 x - x\<bar> \<le> 1 / 2 ^ 53" using m p \<open>x \<le> 2 powr real_of_int (- 1022)\<close> assms(1) by linarith
  then show ?thesis by simp
qed

text \<open>At the score the program uses, the interval holds the observed rate up to \<open>2 powr -46\<close>.\<close>

lemma wilson_interval_near:
  fixes s t :: int
  assumes st: "0 \<le> s" "s \<le> t" "0 < t" "t \<le> 2 ^ 53" and w: "wilson_interval s t z95 = Inr (Some (lo, hi))"
  shows "lo \<le> real_of_int s / real_of_int t + 1 / 2 ^ 46" "real_of_int s / real_of_int t \<le> hi + 1 / 2 ^ 46"
proof -
  let ?n = "real_of_int t" and ?x = "real_of_int s / real_of_int t" and ?p = "w_p s t"
  let ?c = "w_center s t z95" and ?m = "w_margin s t z95"
  define C where "C = (?p + z95 * z95 / (2 * ?n)) / (1 + z95 * z95 / ?n)"
  define M where "M = z95 * sqrt (?p * (1 - ?p) / ?n + z95 * z95 / (4 * ?n * ?n)) / (1 + z95 * z95 / ?n)"
  have n: "0 < ?n" "0 \<le> z95" using st(3) mag_pos[OF z95_mag] by simp_all
  note A = wilson_algebra[OF n(1) w_p_range[OF st(1-3)] n(2), folded C_def M_def]
  have c: "\<bar>?c - C\<bar> \<le> 1 / 2 ^ 48"
    by (rule near_difference[OF near_mono[OF near_center[OF st, folded C_def]] A(5)]) simp
  have m: "\<bar>?m - M\<bar> \<le> 1 / 2 ^ 48" by (rule near_difference[OF near_margin[OF st, folded M_def] A(6)])
  have x: "0 \<le> ?x" "?x \<le> 1" using st by simp_all
  then have p: "\<bar>?p - ?x\<bar> \<le> 1 / 2 ^ 52" unfolding w_p_def by (intro binary64_error_le) linarith+
  have lh: "lo = max 0 (binary64 (?c - ?m))" "hi = min 1 (binary64 (?c + ?m))" using w wilson_interval_parts[OF st(1-3)] by auto
  have r: "0 \<le> ?c" "?c \<le> 1" "0 \<le> ?m" using w_center_range[OF st(1-3)] w_margin_nonneg[OF n(2) st(3,1,2)] by simp_all
  have diff: "?c - ?m \<le> ?x + (1 / 2 ^ 48 + 1 / 2 ^ 48 + 1 / 2 ^ 52)" using A(1) c m p by linarith
  have sum: "?x \<le> ?c + ?m + (1 / 2 ^ 48 + 1 / 2 ^ 48 + 1 / 2 ^ 52)" using A(2) c m p by linarith
  show "lo \<le> ?x + 1 / 2 ^ 46"
  proof (cases "0 \<le> ?c - ?m")
    case True
    then have "binary64 (?c - ?m) \<le> ?c - ?m + 1 / 2 ^ 52" using binary64_error_le[of "?c - ?m"] r by linarith
    then show ?thesis using diff x(1) unfolding lh by simp
  next
    case False
    then show ?thesis using binary64_nonpos[of "?c - ?m"] x(1) unfolding lh by simp
  qed
  show "?x \<le> hi + 1 / 2 ^ 46"
  proof (cases "?c + ?m \<le> 1")
    case True
    then have "?c + ?m \<le> binary64 (?c + ?m) + 1 / 2 ^ 52" using binary64_error_le[of "?c + ?m"] r by linarith
    then show ?thesis using sum x(2) unfolding lh by simp
  next
    case False
    then have "hi = 1" using binary64_mono[of 1 "?c + ?m"] unfolding lh by simp
    then show ?thesis by (intro order_trans[OF x(2)]) simp
  qed
qed

section \<open>A rate outside its interval\<close>

text \<open>
  Up to that error only: of three trials without a success the rate is 0, and the lower end of the interval is
  \<open>2 powr -54\<close>, so the interval does not hold it.  In exact arithmetic the lower end is 0.
\<close>

lemma wilson_interval_misses_rate:
  "\<exists>hi. wilson_interval 0 3 z95 = Inr (Some (1 / 2 ^ 54, hi))"
proof -
  have z: "z95 = 8826893070434180 / 2 ^ 52"
    unfolding z95_def using binary64_eval[of "1.959963984540054" 52 8826893070434180] by simp
  have z2: "binary64 (z95 * z95) = 8650196256718584 / 2 ^ 51"
    unfolding z using binary64_eval[of _ 51 8650196256718584] by simp
  have n: "binary64 3 = 3" "binary64 6 = 6" "binary64 12 = 12" "binary64 36 = 36"
    using binary64_eval[of 3 51 "3 * 2 ^ 51"] binary64_eval[of 6 50 "6 * 2 ^ 50"] binary64_eval[of 12 49 "12 * 2 ^ 49"]
      binary64_eval[of 36 47 "36 * 2 ^ 47"] by simp_all
  have v: "binary64 (8650196256718584 / 2 ^ 51 / 3) = 5766797504479056 / 2 ^ 52"
    using binary64_eval[of _ 52 5766797504479056] by simp
  have d: "binary64 (1 + 5766797504479056 / 2 ^ 52) = 5135198565924776 / 2 ^ 51"
    using binary64_eval[of _ 51 5135198565924776] by simp
  have u: "binary64 (8650196256718584 / 2 ^ 51 / 6) = 5766797504479056 / 2 ^ 53"
    using binary64_eval[of _ 53 5766797504479056] by simp
  have u': "binary64 (5766797504479056 / 2 ^ 53) = 5766797504479056 / 2 ^ 53"
    using binary64_eval[of _ 53 5766797504479056] by simp
  have c: "binary64 (5766797504479056 / 2 ^ 53 / (5135198565924776 / 2 ^ 51)) = 5057515645963325 / 2 ^ 54"
    using binary64_eval[of _ 54 5057515645963325] by simp
  have b: "binary64 (8650196256718584 / 2 ^ 51 / 36) = 7689063339305408 / 2 ^ 56"
    using binary64_eval[of _ 56 7689063339305408] by simp
  have b': "binary64 (7689063339305408 / 2 ^ 56) = 7689063339305408 / 2 ^ 56"
    using binary64_eval[of _ 56 7689063339305408] by simp
  have q: "(5884595380289453 - 1 / 2) / 2 ^ 54 < sqrt (7689063339305408 / 2 ^ 56)"
    by (rule real_less_rsqrt) (simp add: power_divide)
  have q': "sqrt (7689063339305408 / 2 ^ 56) < (5884595380289453 + 1 / 2) / 2 ^ 54"
    by (rule real_less_lsqrt) (simp_all add: power_divide)
  note near_m = significand_near[OF q q']
  have r: "binary64 (sqrt (7689063339305408 / 2 ^ 56)) = real_of_int 5884595380289453 / 2 ^ 54"
  proof (rule binary64_eval)
    show "\<bar>real_of_int 5884595380289453 - sqrt (7689063339305408 / 2 ^ 56) * 2 ^ 54\<bar> < 1 / 2" using near_m by simp
    have "\<bar>5884595380289453 - y\<bar> < 1 / 2 \<Longrightarrow> 2 ^ 52 \<le> y \<and> y < 2 ^ 53" for y :: real unfolding abs_less_iff by auto
    from this[OF near_m] show "2 ^ 52 \<le> sqrt (7689063339305408 / 2 ^ 56) * 2 ^ 54" "sqrt (7689063339305408 / 2 ^ 56) * 2 ^ 54 < 2 ^ 53"
      by blast+
  qed simp
  have zs: "binary64 (z95 * (5884595380289453 / 2 ^ 54)) = 5766797504479055 / 2 ^ 53"
    unfolding z using binary64_eval[of _ 53 5766797504479055] by simp
  have m: "binary64 (5766797504479055 / 2 ^ 53 / (5135198565924776 / 2 ^ 51)) = 5057515645963324 / 2 ^ 54"
    using binary64_eval[of _ 54 5057515645963324] by simp
  have l: "binary64 (5057515645963325 / 2 ^ 54 - 5057515645963324 / 2 ^ 54) = 1 / 2 ^ 54"
    using binary64_eval[of "1 / 2 ^ 54" 106 "2 ^ 52"] by simp
  have parts: "w_n 3 = 3" "w_p 0 3 = 0" "(2 :: real) * 3 = 6" "(4 :: real) * 3 = 12" "(12 :: real) * 3 = 36"
    by (simp_all add: w_n_def w_p_def n)
  have den: "w_den 3 z95 = 5135198565924776 / 2 ^ 51"
    unfolding w_den_def z2 parts v by (rule d)
  have center: "w_center 0 3 z95 = 5057515645963325 / 2 ^ 54"
    unfolding w_center_def den z2 parts n u add_0 u' by (rule c)
  have radicand: "w_radicand 0 3 z95 = 7689063339305408 / 2 ^ 56"
    unfolding w_radicand_def z2 parts n b mult_zero_left binary64_zero div_0 add_0 by (rule b')
  have margin: "w_margin 0 3 z95 = 5057515645963324 / 2 ^ 54"
    unfolding w_margin_def den radicand r[unfolded of_int_numeral] zs by (rule m)
  show ?thesis
    using wilson_interval_parts[of 0 3 z95] unfolding center margin l by simp
qed

end
