(* ===== verification/Coverage_Claims.thy ===== *)
theory Coverage_Claims
  imports Samples Protocol Reference_Policy Receipt Corpus Minimizer Wilson
begin

text \<open>
  The properties of the coverage measurement: signed statements and what they bind, the order of gate
  and oracle, the qualification of the oracles, the reference gates and their gaps, the statistics,
  the counterexample minimizer and the corpus of escapes.
\<close>

section \<open>Signatures\<close>

text \<open>What the HMAC authority signs, the same authority verifies; and the envelope verifies,
  under any authority, for no document but the signed one (up to key order), unless SHA-256
  collides.\<close>

lemma signed_document_verifies:
  assumes "hmac_signer secret key = Inr s" "sign_json p s = Inr e" "wf_json p"
  shows "verify_json p e (hmac_verify secret key) = Inr True \<and>
    (\<forall>q secret' key'. wf_json q \<and> verify_json q e (hmac_verify secret' key') = Inr True \<longrightarrow>
       Json.norm p = Json.norm q \<or> sha_collision (canonical_json p) (canonical_json q))"
proof -
  have "s = \<lparr>sg_key_id = key, sg_algorithm = hmac_algorithm, sg_sign = (\<lambda>payload. Inr (hmac_sha256 secret payload))\<rparr>"
    using assms(1) by (auto simp: hmac_signer_def split: if_splits)
  then have v: "verify_json p e (hmac_verify secret key) = Inr True"
    using assms(2) hmac_scheme.sign_json_verifies by blast
  then show ?thesis using envelope_binding[OF v] assms(3) by blast
qed

lemma signed_document_verifies_instance:
  "\<exists>s e. hmac_signer ''secret'' ''key'' = Inr s \<and> sign_json (JStr ''x'') s = Inr e \<and>
     verify_json (JStr ''x'') e (hmac_verify ''secret'' ''key'') = Inr True"
proof -
  obtain s where s: "hmac_signer ''secret'' ''key'' = Inr s" by (simp add: hmac_signer_def)
  then obtain e where e: "sign_json (JStr ''x'') s = Inr e"
    by (auto simp: sign_json_def Let_def and_then_Inr hmac_signer_def)
  from signed_document_verifies[OF s e] s e show ?thesis by simp
qed

section \<open>Gate before oracle\<close>

text \<open>Property C16. The oracle is asked about a candidate only after a snapshot of the gate's decision verified
  for the same measurement context: without one, the outcome does not depend on candidate, oracle,
  qualification or signer and is an error; with one, the result names the snapshot and the context
  and carries the oracle's verdict under a passed qualification of the same oracle.\<close>

theorem oracle_runs_after_gate_only:
  "(verify_signed_gate_snapshot sg ctx verify \<noteq> Inr () \<longrightarrow>
      \<not> ok (evaluate_after_gate_snapshot sg ctx candidate orc q verify s) \<and>
      evaluate_after_gate_snapshot sg ctx candidate orc q verify s =
        evaluate_after_gate_snapshot sg ctx candidate' orc' q' verify s') \<and>
   (evaluate_after_gate_snapshot sg ctx candidate orc q verify s = Inr so \<longrightarrow>
      verify_signed_gate_snapshot sg ctx verify = Inr () \<and> q_passed q \<and>
      manifest_sha256 q = qualification_manifest_sha256 orc \<and>
      or_gate_snapshot_sha256 (so_result so) = snapshot_sha256 (ss_snapshot sg) \<and>
      or_context_sha256 (so_result so) = context_sha256 ctx \<and>
      (\<exists>e. evaluate_callable orc candidate = Inr e \<and> or_verdict (so_result so) = oe_verdict e))"
proof (intro conjI impI)
  assume "verify_signed_gate_snapshot sg ctx verify \<noteq> Inr ()"
  then show "\<not> ok (evaluate_after_gate_snapshot sg ctx candidate orc q verify s)"
    "evaluate_after_gate_snapshot sg ctx candidate orc q verify s =
      evaluate_after_gate_snapshot sg ctx candidate' orc' q' verify s'"
    by (rule oracle_needs_snapshot(2), rule oracle_needs_snapshot(1))
qed (simp_all only: evaluate_after_Inr)

definition demo_context :: measurement_context where
  "demo_context = \<lparr>challenge_sha256 = ''c'', fixture_sha256 = ''f'', candidate_sha256 = ''d'', policy_sha256 = ''p'',
     benchmark_manifest_sha256 = ''b'', oracle_digest = ''o'', gatekeeper_digest = ''g'', runner_digest = ''r'',
     run_nonce = ''n''\<rparr>"

definition demo_oracle :: "tenant_candidate coverage_oracle" where
  "demo_oracle = \<lparr>qualification_manifest_sha256 = sha256_json tenant_manifest, evaluate_callable = tenant_evaluate\<rparr>"

lemma tenant_returns_evaluates: "\<exists>e. tenant_evaluate (returns f) = Inr e"
proof -
  have "only_exceptions (tenant_call (returns f)) tenant_vectors"
    by (simp add: only_exceptions_def tenant_call_def returns_def list_all_iff)
  then show ?thesis using evaluate_vectors_ok by (auto simp: tenant_evaluate_def tenant_call_def[abs_def] ok_iff)
qed

lemma tenant_qualifies:
  assumes "m \<in> set tenant_mutants"
  shows "\<exists>q. tenant_qualify (returns strict_identity) (returns m) = Inr q \<and> q_passed q \<and>
    mutation_killed q = 5 \<and> mutation_survived q = 0 \<and> manifest_sha256 q = sha256_json tenant_manifest"
proof -
  obtain ef e where ef: "tenant_evaluate (returns strict_identity) = Inr ef" "tenant_evaluate (returns m) = Inr e"
    using tenant_returns_evaluates by meson
  have "oe_verdict ef = SAFE" "oe_verdict e = UNSAFE"
    using tenant_oracle.reference_safe[unfolded tenant_evaluation, OF ef(1)]
      tenant_oracle.mutant_unsafe[unfolded tenant_evaluation, of "returns m"] ef(2) assms by auto
  then show ?thesis using ef by (simp add: tenant_qualify_def qualify_with_def all_mutants_killed Let_def)
qed

lemma path_qualifies:
  assumes "m \<in> set path_mutants"
  shows "\<exists>q. path_qualify (path_returns can_open_path) (path_returns m) = Inr q \<and> q_passed q \<and>
    mutation_killed q = 5 \<and> mutation_survived q = 0"
proof -
  obtain ef e where ef: "path_evaluate (path_returns can_open_path) = Inr ef" "path_evaluate (path_returns m) = Inr e"
    using path_returns_evaluates by meson
  have "oe_verdict ef = SAFE" "oe_verdict e = UNSAFE"
    using path_oracle.reference_safe[unfolded path_evaluation, OF ef(1)]
      path_oracle.mutant_unsafe[unfolded path_evaluation, of "path_returns m"] ef(2) assms by auto
  then show ?thesis using ef by (simp add: path_qualify_def qualify_with_def all_path_mutants_killed Let_def)
qed

text \<open>Property C17. A measurement made with HMAC authorities verifies from end to end: the snapshot that
  \<open>build_gate_snapshot\<close> signs verifies for its context and records the gate's decision, which is GO or
  NO_GO, and the oracle result obtained with it verifies against that snapshot.\<close>

theorem honest_measurement_verifies:
  assumes "hmac_signer gs gk = Inr gate_signer" "hmac_signer os okey = Inr oracle_signer"
    and "build_gate_snapshot ctx d response receipt rev_name gate_signer = Inr sg"
    and "evaluate_after_gate_snapshot sg ctx candidate orc q (hmac_verify gs gk) oracle_signer = Inr so"
  shows "verify_signed_gate_snapshot sg ctx (hmac_verify gs gk) = Inr () \<and>
    gs_gate_decision (ss_snapshot sg) = d \<and> d \<in> {GO, NO_GO} \<and>
    verify_signed_oracle_result so ctx sg (hmac_verify os okey) = Inr ()"
proof -
  have s: "gate_signer = \<lparr>sg_key_id = gk, sg_algorithm = hmac_algorithm, sg_sign = (\<lambda>payload. Inr (hmac_sha256 gs payload))\<rparr>"
    "oracle_signer = \<lparr>sg_key_id = okey, sg_algorithm = hmac_algorithm, sg_sign = (\<lambda>payload. Inr (hmac_sha256 os payload))\<rparr>"
    using assms(1,2) by (auto simp: hmac_signer_def split: if_splits)
  show ?thesis
    using hmac_scheme.built_snapshot_verifies[OF assms(3)[unfolded s]]
      hmac_scheme.oracle_result_verifies[OF assms(4)[unfolded s]] by (cases d) auto
qed

lemma demo_measurement:
  "\<exists>gsn osn sg so q. hmac_signer ''a'' ''k'' = Inr gsn \<and> hmac_signer ''b'' ''l'' = Inr osn \<and>
     build_gate_snapshot demo_context NO_GO ''r'' ''b'' ''v1'' gsn = Inr sg \<and>
     evaluate_after_gate_snapshot sg demo_context (returns strict_identity) demo_oracle q (hmac_verify ''a'' ''k'') osn = Inr so"
proof -
  obtain gsn osn where s: "hmac_signer ''a'' ''k'' = Inr gsn" "hmac_signer ''b'' ''l'' = Inr osn"
    by (simp add: hmac_signer_def)
  obtain sg where sg: "build_gate_snapshot demo_context NO_GO ''r'' ''b'' ''v1'' gsn = Inr sg"
    using s(1) by (auto simp: build_gate_snapshot_def Let_def sign_json_def hmac_signer_def)
  have v: "verify_signed_gate_snapshot sg demo_context (hmac_verify ''a'' ''k'') = Inr ()"
    using hmac_scheme.built_snapshot_verifies(1)[of demo_context NO_GO "''r''" "''b''" "''v1''" "''k''" "''a''" sg] sg s(1)
    by (simp add: hmac_signer_def)
  obtain q :: qualification where q: "q_passed q" "manifest_sha256 q = sha256_json tenant_manifest"
    using tenant_qualifies[of "\<lambda>_ _. True"] by (auto simp: tenant_mutants_def)
  obtain e where "tenant_evaluate (returns strict_identity) = Inr e" using tenant_returns_evaluates by blast
  then obtain so where so: "evaluate_after_gate_snapshot sg demo_context (returns strict_identity) demo_oracle q (hmac_verify ''a'' ''k'') osn = Inr so"
    using v q s(2) by (auto simp: evaluate_after_gate_snapshot_def demo_oracle_def Let_def sign_json_def hmac_signer_def)
  show ?thesis using s sg so by blast
qed

theorem honest_measurement_verifies_witness:
  "\<exists>sg so. verify_signed_gate_snapshot sg demo_context (hmac_verify ''a'' ''k'') = Inr () \<and>
     gs_gate_decision (ss_snapshot sg) = NO_GO \<and>
     verify_signed_oracle_result so demo_context sg (hmac_verify ''b'' ''l'') = Inr ()"
proof -
  obtain gsn osn sg so and q :: qualification where s: "hmac_signer ''a'' ''k'' = Inr gsn" "hmac_signer ''b'' ''l'' = Inr osn"
    and sg: "build_gate_snapshot demo_context NO_GO ''r'' ''b'' ''v1'' gsn = Inr sg"
    and so: "evaluate_after_gate_snapshot sg demo_context (returns strict_identity) demo_oracle q (hmac_verify ''a'' ''k'') osn = Inr so"
    using demo_measurement by blast
  from honest_measurement_verifies[OF s sg so] show ?thesis by blast
qed

theorem oracle_runs_after_gate_only_witness:
  "\<exists>(sg :: signed_snapshot) (so :: signed_oracle_result). verify_signed_gate_snapshot sg demo_context (hmac_verify ''a'' ''k'') = Inr () \<and>
     or_gate_snapshot_sha256 (so_result so) = snapshot_sha256 (ss_snapshot sg)"
proof -
  obtain osn and sg :: signed_snapshot and so :: signed_oracle_result and q :: qualification where
    so: "evaluate_after_gate_snapshot sg demo_context (returns strict_identity) demo_oracle q (hmac_verify ''a'' ''k'') osn = Inr so"
    using demo_measurement by blast
  from oracle_runs_after_gate_only[THEN conjunct2, rule_format, OF so] show ?thesis by blast
qed

text \<open>A signed gate snapshot belongs to one measurement: if it verifies for two contexts, under
  whatever keys, the contexts are the same; and one signature belongs to one snapshot, unless
  SHA-256 collides.\<close>

lemma snapshot_belongs_to_one_context:
  assumes "verify_signed_gate_snapshot sg ctx verify = Inr ()" "verify_signed_gate_snapshot sg' ctx' verify' = Inr ()"
    and "ss_signature sg = ss_signature sg'"
  shows "(ss_snapshot sg = ss_snapshot sg' \<and> ctx = ctx') \<or>
    sha_collision (canonical_json (snapshot_to_dict (ss_snapshot sg))) (canonical_json (snapshot_to_dict (ss_snapshot sg'))) \<or>
    sha_collision (canonical_json (context_to_dict ctx)) (canonical_json (context_to_dict ctx'))"
proof -
  have "ss_snapshot sg = ss_snapshot sg' \<Longrightarrow> sg = sg'" using assms(3) by simp
  then show ?thesis
    using verified_snapshot_signature[OF assms] verified_snapshot_context[OF assms(1)] assms(2) by blast
qed

lemma snapshot_belongs_to_one_context_instance:
  "\<exists>sg. verify_signed_gate_snapshot sg demo_context (hmac_verify ''a'' ''k'') = Inr () \<and>
    ((ss_snapshot sg = ss_snapshot sg \<and> demo_context = demo_context) \<or>
      sha_collision (canonical_json (snapshot_to_dict (ss_snapshot sg))) (canonical_json (snapshot_to_dict (ss_snapshot sg))))"
proof -
  obtain gsn where s: "hmac_signer ''a'' ''k'' = Inr gsn" by (simp add: hmac_signer_def)
  obtain sg where sg: "build_gate_snapshot demo_context NO_GO ''r'' ''b'' ''v1'' gsn = Inr sg"
    using s by (auto simp: build_gate_snapshot_def Let_def sign_json_def hmac_signer_def)
  have v: "verify_signed_gate_snapshot sg demo_context (hmac_verify ''a'' ''k'') = Inr ()"
    using hmac_scheme.built_snapshot_verifies(1)[of demo_context NO_GO "''r''" "''b''" "''v1''" "''k''" "''a''" sg] sg s
    by (simp add: hmac_signer_def)
  from snapshot_belongs_to_one_context[OF v v refl] show ?thesis using v by blast
qed

section \<open>Oracles and reference gates\<close>

text \<open>Both oracles qualify with their reference candidate: qualification against any of the five
  known-bad candidates passes, all five mutants are killed and none survives.\<close>

lemma oracles_qualify:
  "(\<forall>m. m \<in> set tenant_mutants \<longrightarrow> (\<exists>q. tenant_qualify (returns strict_identity) (returns m) = Inr q \<and>
      q_passed q \<and> mutation_killed q = 5 \<and> mutation_survived q = 0)) \<and>
   (\<forall>m. m \<in> set path_mutants \<longrightarrow> (\<exists>q. path_qualify (path_returns can_open_path) (path_returns m) = Inr q \<and>
      q_passed q \<and> mutation_killed q = 5 \<and> mutation_survived q = 0))"
proof (intro conjI allI impI)
  fix m assume "m \<in> set tenant_mutants"
  from tenant_qualifies[OF this] show "\<exists>q. tenant_qualify (returns strict_identity) (returns m) = Inr q \<and>
      q_passed q \<and> mutation_killed q = 5 \<and> mutation_survived q = 0" by blast
next
  fix m assume "m \<in> set path_mutants"
  from path_qualifies[OF this] show "\<exists>q. path_qualify (path_returns can_open_path) (path_returns m) = Inr q \<and>
      q_passed q \<and> mutation_killed q = 5 \<and> mutation_survived q = 0" .
qed

lemma oracles_qualify_instance:
  "\<exists>q. path_qualify (path_returns can_open_path) (path_returns (\<lambda>_ _ _. True)) = Inr q \<and>
     q_passed q \<and> mutation_killed q = 5 \<and> mutation_survived q = 0"
  by (rule oracles_qualify[THEN conjunct2, rule_format]) (simp add: path_mutants_def)

text \<open>The reference for path containment is sound for every input: when it opens a path, both
  the normalised request (decoded up to three times and joined to the base) and the normalised
  resolved target extend the base's path components, with no \<open>.\<close>, \<open>..\<close> or empty component left.\<close>

lemma opened_path_is_contained:
  assumes "can_open_path (JStr b) (JStr r) (JStr t)"
  shows "\<exists>rest rest'. norm_comps (path_join (normpath b) (decode_request r)) = norm_comps b @ rest \<and>
    norm_comps t = norm_comps b @ rest' \<and>
    list_all real_name (norm_comps b @ rest) \<and> list_all real_name (norm_comps b @ rest')"
  by (rule can_open_path_contained[OF assms])

lemma opened_path_is_contained_instance:
  "\<exists>rest. norm_comps ''/srv/assets/../assets/x'' = norm_comps ''/srv/assets'' @ rest"
proof -
  have "can_open_path (JStr ''/srv/assets'') (JStr ''a/%2e%2e/x'') (JStr ''/srv/assets/../assets/x'')" by code_simp
  from opened_path_is_contained[OF this] show ?thesis by blast
qed

text \<open>Revision 3 of the path gate lets no escape through: a candidate that it accepts is judged
  SAFE by the path oracle, so the observation is classified as a correct accept.\<close>

lemma path_gate_rev3_has_no_escape:
  assumes "evaluate_path_reference_gate walk can_open source 3 = Inr (GO, h)" "path_evaluate can_open = Inr e"
  shows "oe_verdict e = SAFE \<and> classify_observation VALID (Some GO) (Some (oe_verdict e)) = Inr CORRECT_ACCEPT"
  using path_rev3_safe[OF assms] by (simp add: classify_observation_def)

definition rev3_walk :: walker where
  "rev3_walk source = Inr
     [FunctionNode ''can_open_path'' [''base_dir'', ''requested_path'', ''resolved_target''], CallNode ''commonpath'']"

lemma rev3_gate_accepts:
  "\<exists>h. evaluate_path_reference_gate rev3_walk (path_returns can_open_path) ''unquote'' 3 = Inr (GO, h)"
proof -
  have probes: "list_all (\<lambda>(b, r, t, x). answers (path_returns can_open_path b r t) x) rev3_path_probes" by code_simp
  let ?ps = "map (\<lambda>(b, r, t, x). ([(''base_dir'', b), (''requested_path'', r), (''resolved_target'', t)], x,
      path_returns can_open_path b r t)) rev3_path_probes"
  have "list_all (\<lambda>(i, x, a). answers a x) ?ps" using probes by (auto simp: list_all_iff)
  then obtain os where "run_probes ?ps = Inr (os, False)" using run_probes_good by blast
  moreover have "strict_rev3_shape rev3_walk ''unquote'' = Inr True" by code_simp
  ultimately show ?thesis
    by (simp add: evaluate_path_reference_gate_def path_gate_setup_def shape_or_false_def Let_def)
qed

lemma path_gate_rev3_has_no_escape_instance:
  "\<exists>e. path_evaluate (path_returns can_open_path) = Inr e \<and> oe_verdict e = SAFE"
proof -
  obtain h where h: "evaluate_path_reference_gate rev3_walk (path_returns can_open_path) ''unquote'' 3 = Inr (GO, h)"
    using rev3_gate_accepts by blast
  obtain e where e: "path_evaluate (path_returns can_open_path) = Inr e" using path_returns_evaluates by blast
  from path_gate_rev3_has_no_escape[OF h e] e show ?thesis by blast
qed

text \<open>The revisions of the tenant gate are ordered: whatever a revision accepts, every lower
  revision accepts.\<close>

lemma tenant_gate_revisions_ordered:
  assumes "evaluate_reference_gate walk can_read source rv = Inr (GO, h)" "rv' \<in> {1, 2, 3}" "rv' \<le> rv"
  shows "\<exists>h'. evaluate_reference_gate walk can_read source rv' = Inr (GO, h')"
  by (rule tenant_gate_stricter[OF assms])

definition strict_walk :: walker where
  "strict_walk source = Inr
     [FunctionNode ''can_read'' [''requester_tenant'', ''resource_tenant''],
      CompareNode (NameExpr ''requester_tenant'') [EqOp] [NameExpr ''resource_tenant'']]"

lemma strict_gate_accepts: "\<exists>h. evaluate_reference_gate strict_walk (returns strict_identity) ''src'' 3 = Inr (GO, h)"
proof -
  obtain probes where p: "tenant_probes 3 = Inr probes" by (simp add: tenant_probes_def)
  have "list_all (\<lambda>(a, b, x). answers (returns strict_identity a b) x) (projr (tenant_probes 3))" by code_simp
  then show ?thesis
    by (intro tenant_gate_runs[OF p])
      (simp_all add: p list_all_iff strict_walk_def canonical_auth_shape_def strict_identity_compare_shape_def functions_of_def)
qed

lemma tenant_gate_revisions_ordered_instance:
  "\<exists>h. evaluate_reference_gate strict_walk (returns strict_identity) ''src'' 1 = Inr (GO, h)"
proof -
  obtain h where h: "evaluate_reference_gate strict_walk (returns strict_identity) ''src'' 3 = Inr (GO, h)"
    using strict_gate_accepts by blast
  show ?thesis by (rule tenant_gate_revisions_ordered[OF h]) simp_all
qed

text \<open>The weaker revisions have the gaps that the arena is there to measure: a prefix match passes
  revision 1 of the tenant gate, a deny list of known attacks passes revision 2 of the path gate, and
  the oracles find both UNSAFE, so both observations are escapes.\<close>

lemma weaker_gates_have_escapes:
  "(\<exists>h e. evaluate_reference_gate walk prefix_candidate source 1 = Inr (GO, h) \<and>
      tenant_evaluate prefix_candidate = Inr e \<and>
      classify_observation VALID (Some GO) (Some (oe_verdict e)) = Inr ESCAPE) \<and>
   (\<exists>h e. evaluate_path_reference_gate deny_list_walk deny_list_candidate source 2 = Inr (GO, h) \<and>
      path_evaluate deny_list_candidate = Inr e \<and>
      classify_observation VALID (Some GO) (Some (oe_verdict e)) = Inr ESCAPE)"
proof -
  obtain e where e: "tenant_evaluate prefix_candidate = Inr e"
    using tenant_returns_evaluates unfolding prefix_candidate_def by blast
  obtain e' where e': "path_evaluate deny_list_candidate = Inr e'"
    using path_returns_evaluates unfolding deny_list_candidate_def by blast
  obtain h h' where "evaluate_reference_gate walk prefix_candidate source 1 = Inr (GO, h)"
    "evaluate_path_reference_gate deny_list_walk deny_list_candidate source 2 = Inr (GO, h')"
    using prefix_candidate_gap(1) deny_list_gap(1) by meson
  then show ?thesis
    using e e' prefix_candidate_gap(2)[OF e] deny_list_gap(2)[OF e'] by (simp add: classify_observation_def)
qed

section \<open>Counts and statistics\<close>

text \<open>The counts of a measurement partition its observations: every count is the number of
  observations of that class, the safe and unsafe populations are the sums of theirs, and the total
  is the number of observations.\<close>

lemma counts_partition_observations:
  assumes "aggregate_observations xs = Inr c"
  shows "\<exists>cs. map ob_classification xs = map Inr cs \<and>
    correct_accepts c = int (count_list cs CORRECT_ACCEPT) \<and> overblocks c = int (count_list cs OVERBLOCK) \<and>
    correct_blocks c = int (count_list cs CORRECT_BLOCK) \<and> escapes c = int (count_list cs ESCAPE) \<and>
    invalid_candidates c = int (count_list cs INVALID_CANDIDATE) \<and>
    confirmed_safe c = correct_accepts c + overblocks c \<and> confirmed_unsafe c = correct_blocks c + escapes c \<and>
    total_candidates c = int (length xs)"
  by (rule aggregate_counts[OF assms])

definition demo_observations :: "observation list" where
  "demo_observations =
    [\<lparr>ob_candidate_id = ''a'', ob_validity = VALID, ob_gate = Some GO, ob_oracle = Some UNSAFE\<rparr>,
     \<lparr>ob_candidate_id = ''b'', ob_validity = INVALID, ob_gate = None, ob_oracle = None\<rparr>]"

lemma counts_partition_observations_instance:
  "\<exists>c. aggregate_observations demo_observations = Inr c \<and> total_candidates c = 2 \<and>
     confirmed_unsafe c = correct_blocks c + escapes c"
proof -
  obtain c where c: "aggregate_observations demo_observations = Inr c"
    by (simp add: aggregate_observations_def demo_observations_def ob_classification_def classify_observation_def)
  from counts_partition_observations[OF c] c show ?thesis by (auto simp: demo_observations_def)
qed

text \<open>Property C40. The Wilson interval as the floats compute it, every operation rounded to binary64.  It is refused
  exactly for counts that are negative or out of order and absent exactly for no trials; else it is a non-empty
  interval within \<open>[0, 1]\<close>, at any non-negative score.  At the score of the program and up to \<open>2 ^ 53\<close> trials it
  contains the observed rate up to the rounding errors, which stay below \<open>2 powr -46\<close>.  It need not contain the rate
  exactly: \<open>wilson_interval_misses_rate\<close> has one that does not.\<close>

theorem wilson_interval_is_sound:
  assumes "0 \<le> z"
  shows "case wilson_interval successes trials z of
      Inl e \<Rightarrow> (successes < 0 \<or> trials < 0 \<or> trials < successes) \<and> fst e = ValueError
    | Inr None \<Rightarrow> successes = 0 \<and> trials = 0
    | Inr (Some (lo, hi)) \<Rightarrow> 0 \<le> successes \<and> successes \<le> trials \<and> 0 < trials \<and> 0 \<le> lo \<and> lo \<le> hi \<and> hi \<le> 1 \<and>
        (z = z95 \<and> trials \<le> 2 ^ 53 \<longrightarrow>
           lo \<le> real_of_int successes / real_of_int trials + 1 / 2 ^ 46 \<and>
           real_of_int successes / real_of_int trials \<le> hi + 1 / 2 ^ 46)"
proof (cases "0 \<le> successes \<and> successes \<le> trials \<and> 0 < trials")
  case True
  then obtain lo hi where w: "wilson_interval successes trials z = Inr (Some (lo, hi))"
    using wilson_interval_parts by blast
  note r = wilson_interval_range[OF _ _ _ assms w]
  show ?thesis using True r wilson_interval_near[of successes trials lo hi] w by auto
next
  case False
  then show ?thesis by (auto simp: wilson_interval_def raise_def)
qed

theorem wilson_interval_is_sound_witness:
  "\<exists>hi. wilson_interval 0 3 z95 = Inr (Some (1 / 2 ^ 54, hi)) \<and> 1 / 2 ^ 54 \<le> hi \<and> hi \<le> 1"
proof -
  obtain hi where w: "wilson_interval 0 3 z95 = Inr (Some (1 / 2 ^ 54, hi))" using wilson_interval_misses_rate by blast
  have "0 \<le> z95" using mag_pos[OF z95_mag] by simp
  from wilson_interval_is_sound[OF this, of 0 3] show ?thesis unfolding w by (intro exI[of _ hi]) simp
qed

text \<open>The exact paired test is a proper p-value: between 0 and 1, the same when the two policies
  are exchanged (with the discordant counts exchanged), and 1 when the discordant pairs balance.\<close>

lemma mcnemar_is_symmetric:
  assumes "distinct (map fst f)" "distinct (map fst s)" "paired_mcnemar_exact f s = Inr r"
  shows "(\<exists>r'. paired_mcnemar_exact s f = Inr r' \<and> exact_p_value r' = exact_p_value r \<and>
      only_first r' = only_second r \<and> only_second r' = only_first r) \<and>
    0 < exact_p_value r \<and> exact_p_value r \<le> 1 \<and> (only_first r = only_second r \<longrightarrow> exact_p_value r = 1)"
  using mcnemar_symmetric[OF assms] mcnemar_p_value[OF assms(3)] mcnemar_p_range mcnemar_p_balanced by simp

lemma mcnemar_is_symmetric_instance:
  "\<exists>r. paired_mcnemar_exact [(''a'', True), (''b'', False)] [(''b'', True), (''a'', False)] = Inr r \<and> exact_p_value r \<le> 1"
proof -
  obtain r where r: "paired_mcnemar_exact [(''a'', True), (''b'', False)] [(''b'', True), (''a'', False)] = Inr r"
    by (auto simp: paired_mcnemar_exact_def Let_def insert_commute)
  from mcnemar_is_symmetric[OF _ _ r] r show ?thesis by simp
qed

text \<open>The Holm correction answers in input order, one entry per p-value; an entry of rank \<open>k\<close> is
  rejected exactly when every p-value up to that rank meets its own threshold; and it rejects whatever
  the Bonferroni correction rejects.\<close>

lemma holm_steps_down:
  assumes "holm_bonferroni pvals alpha = Inr es"
  shows "map raw_p_value es = pvals \<and>
    (\<forall>j. j < length pvals \<longrightarrow>
      es ! fst (ranked pvals ! j) = holm_entry_at (length pvals) alpha (ranked pvals) 0 True j) \<and>
    (\<forall>i. i < length pvals \<and> pvals ! i \<le> alpha / real (length pvals) \<longrightarrow> reject_null (es ! i))"
  using holm_input_order[OF assms] holm_bonferroni_Inr(2)[OF assms] holm_contains_bonferroni[OF assms] by blast

lemma holm_steps_down_instance:
  "\<exists>es. holm_bonferroni [1/2, 1/100] (1/20) = Inr es \<and> map raw_p_value es = [1/2, 1/100] \<and> reject_null (es ! 1)"
proof -
  obtain es where es: "holm_bonferroni [1/2, 1/100] (1/20) = Inr es"
    by (simp add: holm_bonferroni_def)
  from holm_steps_down[OF es] es show ?thesis by auto
qed

section \<open>Minimizer, corpus, proposals\<close>

text \<open>Property C28. The minimizer ends, if the original source shows the escape, for every budget that allows one
  evaluation and a clock that is inside the limit at its first reading.  Either it returns: the result still shows
  the escape, is the original with lines removed, and took no more evaluations than budgeted; and when the status
  is minimal, the clock does not run back and the result has two lines or more, every further removal of one line was
  tried and loses the escape (the only line of a one-line result is never tried).  Or it raises, and then what the
  escape test raised on a part of the lines.\<close>

theorem minimizer_is_sound:
  assumes "0 < m" "\<not> late 0" "predicate source = Inr True"
  shows "(\<exists>r ls. minimize_lines m late source predicate = Inr r \<and> mr_source r = concat ls \<and>
      subseq ls (lines_keep source) \<and> predicate (mr_source r) = Inr True \<and> mr_evaluations r \<le> m \<and>
      mr_removed_lines r = length (lines_keep source) - length ls \<and>
      (mr_status r = REDUCED_COUNTEREXAMPLE \<longleftrightarrow> mr_budget_exhausted r) \<and>
      (forward late \<longrightarrow> mr_status r = MINIMAL_UNDER_CONFIGURED_GRANULARITY \<longrightarrow> 2 \<le> length ls \<longrightarrow>
         (\<forall>i < length ls. predicate (concat (take i ls @ drop (Suc i) ls)) = Inr False))) \<or>
    (\<exists>e ls. minimize_lines m late source predicate = Inl e \<and> subseq ls (lines_keep source) \<and> predicate (concat ls) = Inl e)"
proof (cases "minimize_lines m late source predicate")
  case (Inl e)
  then show ?thesis using minimize_lines_outcome[of m late predicate source] assms by (simp add: ok_iff)
next
  case (Inr r)
  from minimize_lines_Inr[OF Inr] Inr show ?thesis by blast
qed

theorem minimizer_is_sound_witness:
  "\<exists>r ls. minimize_lines 50 (\<lambda>t. False) (''a'' @ [CHR 0x0A] @ ''b'' @ [CHR 0x0A] @ ''x'') (\<lambda>s. Inr (contains ''x'' s)) = Inr r \<and>
     mr_source r = concat ls \<and> contains ''x'' (mr_source r)"
proof -
  have prems: "0 < (50 :: nat)" "\<not> (\<lambda>t :: nat. False) 0"
    "(\<lambda>s. Inr (contains ''x'' s) :: bool res) (''a'' @ [CHR 0x0A] @ ''b'' @ [CHR 0x0A] @ ''x'') = Inr True" by code_simp+
  from minimizer_is_sound[of 50 "\<lambda>t. False" "\<lambda>s. Inr (contains ''x'' s)", OF prems] show ?thesis by auto
qed

text \<open>The corpus file holds what was added: after an addition the file loads, with the record
  under its identifier and every other record as before; the addition is reported as new exactly when
  the identifier was absent; and a different record under a used identifier is refused.\<close>

lemma corpus_keeps_escapes:
  assumes "corpus_load file = Inr rs"
  shows "(\<forall>fresh file'. corpus_add r file = Inr (fresh, file') \<longrightarrow>
      (\<exists>rs'. corpus_load file' = Inr rs' \<and> map_of rs' = (map_of rs)(escape_id r \<mapsto> r) \<and>
        (fresh \<longleftrightarrow> escape_id r \<notin> dom (map_of rs)))) \<and>
    (\<forall>old. map_of rs (escape_id r) = Some old \<and> old \<noteq> r \<longrightarrow> \<not> ok (corpus_add r file))"
  using corpus_add_Inr[OF _ assms] corpus_add_conflict[OF assms] by blast

definition demo_escape :: escape_record where
  "demo_escape = \<lparr>escape_id = ''e'', er_candidate_sha256 = ''a'', er_policy_sha256 = ''b'', er_challenge_sha256 = ''c'',
     er_fixture_sha256 = ''d'', er_oracle_result_sha256 = ''e'', er_counterexample_sha256 = ''f'',
     er_first_seen_receipt_sha256 = ''g''\<rparr>"

lemma corpus_keeps_escapes_instance:
  "\<exists>file' rs'. corpus_add demo_escape None = Inr (True, file') \<and> corpus_load file' = Inr rs' \<and>
     map_of rs' ''e'' = Some demo_escape"
proof -
  have l: "corpus_load None = Inr []" by (simp add: corpus_load_def)
  have a: "corpus_add demo_escape None = Inr (True, Some (corpus_document [(''e'', demo_escape)]))"
    by (simp add: corpus_add_def l demo_escape_def)
  from corpus_keeps_escapes[OF l, of demo_escape] a show ?thesis by (auto simp: demo_escape_def)
qed

text \<open>A model's proposal is code with a rationale and nothing else: a payload with any other field
  (a verdict, a receipt, a signature, an authority) is refused, the accepted proposal has authority
  NONE, and its source is the payload's.\<close>

lemma proposals_carry_no_authority:
  assumes "hunt_proposal_of payload proposer = Inr p"
  shows "set (map fst payload) \<subseteq> {''source'', ''rationale''} \<and> hp_authority p = ''NONE'' \<and>
    map_of payload ''source'' = Some (JStr (hp_source p)) \<and> strip (hp_source p) \<noteq> []"
  by (rule hunt_proposal_Inr[OF assms])

lemma proposals_carry_no_authority_instance:
  "\<exists>p. hunt_proposal_of [(''source'', JStr ''x''), (''rationale'', JStr '''')] ''m'' = Inr p \<and> hp_authority p = ''NONE''"
proof -
  obtain p where p: "hunt_proposal_of [(''source'', JStr ''x''), (''rationale'', JStr '''')] ''m'' = Inr p"
    by (simp add: hunt_proposal_of_def forbidden_model_fields_def strip_kept visible_ascii_def is_space_def)
  from proposals_carry_no_authority[OF p] p show ?thesis by blast
qed

end
