(* ===== verification/Benchmark.thy ===== *)
theory Benchmark
  imports Json
begin

text \<open>
  coverage/benchmark_models.py, coverage/benchmark.py and coverage/path_benchmark.py: the fixed set of
  candidate programs that a measurement runs.  The case files are data (a parsed JSON document); the
  loader, the candidates with their digests and the manifest are here.  The lemmas: a suite has one
  candidate per case, its operator names are distinct within each kind, and the manifest lists exactly
  the candidates.
\<close>

section \<open>Candidates and manifests\<close>

datatype benchmark_kind = SafeKind | UnsafeKind

fun kind_text :: "benchmark_kind \<Rightarrow> string" where
  "kind_text SafeKind = ''SAFE''"
| "kind_text UnsafeKind = ''UNSAFE''"

record benchmark_candidate =
  bc_candidate_id :: string
  bc_kind :: benchmark_kind
  bc_operator_id :: string
  bc_operator_revision :: int
  bc_source :: string
  bc_source_sha256 :: string

definition to_manifest_dict :: "benchmark_candidate \<Rightarrow> json" where
  "to_manifest_dict c = JObj
    [(''candidate_id'', JStr (bc_candidate_id c)),
     (''kind'', JStr (kind_text (bc_kind c))),
     (''operator_id'', JStr (bc_operator_id c)),
     (''operator_revision'', JInt (bc_operator_revision c)),
     (''source_sha256'', JStr (bc_source_sha256 c))]"

record benchmark_manifest =
  bm_challenge_id :: string
  bm_challenge_revision :: int
  bm_generation_revision :: string
  bm_base_fixture_sha256 :: string
  bm_expected_candidate_count :: int
  bm_operator_ids :: "string list"
  bm_candidate_sha256 :: "string list"
  bm_inventory :: "json list"

definition manifest_to_dict :: "benchmark_manifest \<Rightarrow> json" where
  "manifest_to_dict m = JObj
    [(''schema'', JStr ''release-sentinel.coverage-benchmark.v3''),
     (''challenge_id'', JStr (bm_challenge_id m)),
     (''challenge_revision'', JInt (bm_challenge_revision m)),
     (''generation_revision'', JStr (bm_generation_revision m)),
     (''base_fixture_sha256'', JStr (bm_base_fixture_sha256 m)),
     (''expected_candidate_count'', JInt (bm_expected_candidate_count m)),
     (''operator_ids'', JList (map JStr (bm_operator_ids m))),
     (''candidate_sha256'', JList (map JStr (bm_candidate_sha256 m))),
     (''inventory'', JList (bm_inventory m))]"

definition bm_sha256 :: "benchmark_manifest \<Rightarrow> string" where
  "bm_sha256 m = sha256_json (manifest_to_dict m)"

record benchmark_suite =
  bs_manifest :: benchmark_manifest
  bs_candidates :: "benchmark_candidate list"

section \<open>Case files\<close>

text \<open>
  The two loaders differ in their messages and in the function every source must define: \<open>prefix\<close>
  opens every message, \<open>operator_text\<close> is the name of the operator field in them.
\<close>

fun load_case_items :: "string \<Rightarrow> string \<Rightarrow> string \<Rightarrow> string \<Rightarrow> nat \<Rightarrow> json list \<Rightarrow> (string \<times> string) list res" where
  "load_case_items prefix operator_text marker name index [] = Inr []"
| "load_case_items prefix operator_text marker name index (item # items) =
    (let place = name @ ''['' @ nat_dec index @ '']'' in
     if \<not> is_obj item then raise ValueError (prefix @ '' case must be an object: '' @ place)
     else case obj_get item ''operator_id'' of
       JStr operator_id \<Rightarrow>
         if operator_id = [] then raise ValueError (prefix @ '' '' @ operator_text @ '' invalid: '' @ place)
         else (case obj_get item ''source'' of
           JStr source \<Rightarrow>
             if \<not> contains marker source then raise ValueError (prefix @ '' source invalid: '' @ place)
             else and_then (load_case_items prefix operator_text marker name (index + 1) items) (\<lambda>rest.
                    Inr ((operator_id, source) # rest))
         | _ \<Rightarrow> raise ValueError (prefix @ '' source invalid: '' @ place))
     | _ \<Rightarrow> raise ValueError (prefix @ '' '' @ operator_text @ '' invalid: '' @ place))"

definition load_case_file :: "string \<Rightarrow> string \<Rightarrow> string \<Rightarrow> string \<Rightarrow> json \<Rightarrow> (string \<times> string) list res" where
  "load_case_file prefix operator_text marker name raw =
    (case raw of
       JList items \<Rightarrow>
         and_then (load_case_items prefix operator_text marker name 0 items) (\<lambda>cases.
           if \<not> distinct (map fst cases) then raise ValueError (prefix @ '' operator ids must be unique: '' @ name)
           else Inr cases)
     | _ \<Rightarrow> raise ValueError (prefix @ '' case file must be a list: '' @ name))"

definition load_tenant_cases :: "string \<Rightarrow> json \<Rightarrow> (string \<times> string) list res" where
  "load_tenant_cases = load_case_file ''benchmark'' ''operator_id'' ''def can_read''"

definition load_path_cases :: "string \<Rightarrow> json \<Rightarrow> (string \<times> string) list res" where
  "load_path_cases = load_case_file ''path benchmark'' ''operator'' ''def can_open_path''"

section \<open>Suites\<close>

definition make_candidate :: "string \<Rightarrow> benchmark_kind \<Rightarrow> string \<times> string \<Rightarrow> benchmark_candidate" where
  "make_candidate id_prefix kind = (\<lambda>(operator_id, source).
     let digest = sha256_hex source in
     \<lparr>bc_candidate_id = id_prefix @ map ascii_lower (kind_text kind) @ ''-'' @ operator_id @ ''-'' @ take 12 digest,
      bc_kind = kind, bc_operator_id = operator_id, bc_operator_revision = 1,
      bc_source = source, bc_source_sha256 = digest\<rparr>)"

definition make_suite :: "string \<Rightarrow> string \<Rightarrow> string \<Rightarrow> string \<Rightarrow> (string \<times> string) list \<Rightarrow> (string \<times> string) list \<Rightarrow> benchmark_suite" where
  "make_suite challenge generation base_fixed id_prefix safe unsafe =
    (let candidates = map (make_candidate id_prefix SafeKind) safe @ map (make_candidate id_prefix UnsafeKind) unsafe in
     \<lparr>bs_manifest =
        \<lparr>bm_challenge_id = challenge, bm_challenge_revision = 1, bm_generation_revision = generation,
         bm_base_fixture_sha256 = sha256_hex base_fixed,
         bm_expected_candidate_count = int (length candidates),
         bm_operator_ids = map bc_operator_id candidates,
         bm_candidate_sha256 = map bc_source_sha256 candidates,
         bm_inventory = map to_manifest_dict candidates\<rparr>,
      bs_candidates = candidates\<rparr>)"

definition text_lines :: "string list \<Rightarrow> string" where
  "text_lines ls = concat (map (\<lambda>l. l @ [CHR 0x0A]) ls)"

definition tenant_base_fixed :: string where
  "tenant_base_fixed = text_lines
    [''def can_read(requester_tenant, resource_tenant):'',
     ''    if not isinstance(requester_tenant, str) or not isinstance(resource_tenant, str):'',
     ''        return False'',
     ''    if not requester_tenant or not resource_tenant:'',
     ''        return False'',
     ''    return requester_tenant == resource_tenant'']"

definition path_base_fixed :: string where
  "path_base_fixed = text_lines
    [''def can_open_path(base_dir, requested_path, resolved_target):'',
     ''    import posixpath'',
     ''    from urllib.parse import unquote'',
     ''    if not all(isinstance(value, str) for value in (base_dir, requested_path, resolved_target)):'',
     ''        return False'',
     ''    if not base_dir.startswith('' @ [CHR 0x22] @ ''/'' @ [CHR 0x22] @ '') or not resolved_target.startswith('' @
       [CHR 0x22] @ ''/'' @ [CHR 0x22] @ '') or not requested_path or '' @ [CHR 0x22, CHR 0x5C] @ ''x00'' @ [CHR 0x22] @
       '' in requested_path:'',
     ''        return False'',
     ''    decoded = requested_path'',
     ''    for _ in range(3):'',
     ''        next_value = unquote(decoded)'',
     ''        if next_value == decoded:'',
     ''            break'',
     ''        decoded = next_value'',
     ''    decoded = decoded.replace('' @ [CHR 0x22, CHR 0x5C, CHR 0x5C, CHR 0x22] @ '', '' @ [CHR 0x22] @ ''/'' @ [CHR 0x22] @ '')'',
     ''    if decoded.startswith('' @ [CHR 0x22] @ ''/'' @ [CHR 0x22] @ ''):'',
     ''        return False'',
     ''    base = posixpath.normpath(base_dir)'',
     ''    lexical = posixpath.normpath(posixpath.join(base, decoded))'',
     ''    resolved = posixpath.normpath(resolved_target)'',
     ''    try:'',
     ''        return posixpath.commonpath((base, lexical)) == base and posixpath.commonpath((base, resolved)) == base'',
     ''    except ValueError:'',
     ''        return False'']"

text \<open>The two suites; the arguments are the parsed case files.\<close>

definition generate_cross_tenant_benchmark :: "json \<Rightarrow> json \<Rightarrow> benchmark_suite res" where
  "generate_cross_tenant_benchmark safe_file unsafe_file =
     and_then (load_tenant_cases ''benchmark_safe_v3.json'' safe_file) (\<lambda>safe.
     and_then (load_tenant_cases ''benchmark_unsafe_v3.json'' unsafe_file) (\<lambda>unsafe.
       Inr (make_suite ''cross-tenant-authorization'' ''cross-tenant-benchmark-v3'' tenant_base_fixed ''candidate-'' safe unsafe)))"

definition generate_path_traversal_benchmark :: "json \<Rightarrow> json \<Rightarrow> benchmark_suite res" where
  "generate_path_traversal_benchmark safe_file unsafe_file =
     and_then (load_path_cases ''path_benchmark_safe_v1.json'' safe_file) (\<lambda>safe.
     and_then (load_path_cases ''path_benchmark_unsafe_v1.json'' unsafe_file) (\<lambda>unsafe.
       Inr (make_suite ''path-traversal-containment'' ''path-traversal-benchmark-v1'' path_base_fixed ''candidate-path-'' safe unsafe)))"

section \<open>Lemmas\<close>

lemma load_case_items_length: "load_case_items p ot m nm i items = Inr cs \<Longrightarrow> length cs = length items"
  by (induction p ot m nm i items arbitrary: cs rule: load_case_items.induct)
    (auto simp: Let_def and_then_Inr split: if_splits json.splits)

lemma load_case_items_marker:
  "load_case_items p ot m nm i items = Inr cs \<Longrightarrow> list_all (\<lambda>(oid, src). oid \<noteq> [] \<and> contains m src) cs"
  by (induction p ot m nm i items arbitrary: cs rule: load_case_items.induct)
    (auto simp: Let_def and_then_Inr split: if_splits json.splits)

lemma load_case_file_Inr:
  "load_case_file p ot m nm raw = Inr cs \<Longrightarrow>
   \<exists>items. raw = JList items \<and> length cs = length items \<and> distinct (map fst cs) \<and>
     list_all (\<lambda>(oid, src). oid \<noteq> [] \<and> contains m src) cs"
  using load_case_items_length load_case_items_marker
  by (auto simp: load_case_file_def and_then_Inr split: json.splits if_splits)

lemma make_suite_manifest:
  "bm_expected_candidate_count (bs_manifest (make_suite ch g b p s u)) = int (length (bs_candidates (make_suite ch g b p s u)))"
  "bm_candidate_sha256 (bs_manifest (make_suite ch g b p s u)) = map (sha256_hex \<circ> bc_source) (bs_candidates (make_suite ch g b p s u))"
  "bm_inventory (bs_manifest (make_suite ch g b p s u)) = map to_manifest_dict (bs_candidates (make_suite ch g b p s u))"
  "length (bs_candidates (make_suite ch g b p s u)) = length s + length u"
  by (simp_all add: make_suite_def Let_def make_candidate_def case_prod_beta)

lemma make_suite_digests:
  "c \<in> set (bs_candidates (make_suite ch g b p s u)) \<Longrightarrow> bc_source_sha256 c = sha256_hex (bc_source c)"
  by (auto simp: make_suite_def make_candidate_def Let_def)

end
