(* ===== verification/Arena.thy ===== *)
theory Arena
  imports Protocol Reference_Policy Receipt Corpus Benchmark
begin

text \<open>
  coverage/runner.py: the arena.  For every candidate of a benchmark: load it, ask the reference gate,
  sign the gate's decision, ask the oracle, classify; then aggregate, state the scope and sign the
  receipt.  Running a candidate's source is the interpreter's work: \<open>exec_source\<close> gives the names a
  source defines (with the callable ones as values of the model).  The lemmas: the measurements are in
  order and verify; the counts are those of the candidates; the receipt verifies; a gate that accepts
  less never has more escapes; and the arena completes when its candidates do not exit the interpreter.
\<close>

section \<open>Definitions of a challenge\<close>

record 'c challenge_definition =
  cd_challenge :: "json res"
  cd_benchmark :: "benchmark_suite res"
  cd_oracle :: "'c coverage_oracle"
  cd_oracle_revision :: string
  cd_qualify :: "'c \<Rightarrow> 'c \<Rightarrow> qualification res"
  cd_fixed :: 'c
  cd_vulnerable :: 'c
  cd_symbol :: string
  cd_policy_document :: "int \<Rightarrow> json res"
  cd_gate :: "'c \<Rightarrow> string \<Rightarrow> int \<Rightarrow> (decision \<times> string) res"
  cd_gate_component :: string
  cd_gate_prefix :: string

text \<open>The callables a challenge qualifies its oracle with.\<close>

fun qualified_fixed :: "json \<Rightarrow> json \<Rightarrow> bool" where
  "qualified_fixed (JStr a) (JStr b) = (if a = [] \<or> b = [] then False else a = b)"
| "qualified_fixed _ _ = False"

fun qualified_path_fixed :: "json \<Rightarrow> json \<Rightarrow> json \<Rightarrow> bool" where
  "qualified_path_fixed (JStr b) (JStr r) (JStr t) =
     (if \<not> starts_with b ''/'' \<or> \<not> starts_with t ''/'' \<or> r = '''' then False
      else if CHR 0x00 \<in> set r then False
      else let decoded = decode_request r in
        if starts_with decoded ''/'' then False
        else let base = normpath b; lexical = normpath (path_join base decoded);
                 resolved = normpath t in
          contained base lexical \<and> contained base resolved)"
| "qualified_path_fixed _ _ _ = False"

definition known_vulnerable :: tenant_candidate where
  "known_vulnerable = returns (\<lambda>_ _. True)"

definition known_path_vulnerable :: path_candidate where
  "known_path_vulnerable = path_returns (\<lambda>_ _ _. True)"

text \<open>\<open>_load_package_owned_candidate\<close>: a name that is missing or not callable is None.\<close>

definition load_candidate :: "(string \<Rightarrow> (string \<Rightarrow> 'c option) res) \<Rightarrow> string \<Rightarrow> benchmark_candidate \<Rightarrow> 'c res" where
  "load_candidate exec_source symbol c =
     and_then (exec_source (bc_source c)) (\<lambda>namespace.
       case namespace symbol of
         None \<Rightarrow> raise ValueError (''benchmark candidate does not expose '' @ symbol)
       | Some f \<Rightarrow> Inr f)"

section \<open>One run\<close>

record reference_measurement =
  rm_candidate_id :: string
  rm_candidate_sha256 :: string
  rm_gate_decision :: decision
  rm_oracle_verdict :: oracle_verdict
  rm_classification :: classification
  rm_signed_gate_snapshot :: signed_snapshot
  rm_signed_oracle_result :: signed_oracle_result

record arena_run =
  ar_benchmark :: benchmark_suite
  ar_qualification :: qualification
  ar_counts :: coverage_counts
  ar_measurements :: "reference_measurement list"
  ar_signed_receipt :: signed_receipt

text \<open>The digests that are fixed for a run.\<close>

record arena_frame =
  af_challenge_sha256 :: string
  af_challenge_id :: string
  af_fixture_sha256 :: string
  af_policy_sha256 :: string
  af_manifest_sha256 :: string
  af_oracle_digest :: string
  af_gatekeeper_digest :: string
  af_runner_digest :: string

definition arena_frame_of :: "'c challenge_definition \<Rightarrow> benchmark_suite \<Rightarrow> qualification \<Rightarrow> json \<Rightarrow> json \<Rightarrow> int \<Rightarrow> arena_frame" where
  "arena_frame_of d bench q challenge policy policy_revision =
    \<lparr>af_challenge_sha256 = sha256_json challenge,
     af_challenge_id = py_str (obj_get challenge ''id''),
     af_fixture_sha256 = bm_base_fixture_sha256 (bs_manifest bench),
     af_policy_sha256 = sha256_json policy,
     af_manifest_sha256 = bm_sha256 (bs_manifest bench),
     af_oracle_digest = sha256_json (JObj
       [(''revision'', JStr (cd_oracle_revision d)),
        (''qualification_manifest_sha256'', JStr (manifest_sha256 q))]),
     af_gatekeeper_digest = sha256_json (JObj
       [(''component'', JStr (cd_gate_component d)), (''revision'', JInt policy_revision)]),
     af_runner_digest = sha256_json (JObj
       [(''component'', JStr ''package-owned-reference-runner''), (''revision'', JInt 2)])\<rparr>"

definition candidate_context :: "arena_frame \<Rightarrow> benchmark_candidate \<Rightarrow> measurement_context" where
  "candidate_context f c =
    \<lparr>challenge_sha256 = af_challenge_sha256 f, fixture_sha256 = af_fixture_sha256 f,
     candidate_sha256 = bc_source_sha256 c, policy_sha256 = af_policy_sha256 f,
     benchmark_manifest_sha256 = af_manifest_sha256 f, oracle_digest = af_oracle_digest f,
     gatekeeper_digest = af_gatekeeper_digest f, runner_digest = af_runner_digest f,
     run_nonce = take 32 (sha256_json (JObj
       [(''lane'', JStr ''REFERENCE''), (''challenge_id'', JStr (af_challenge_id f)),
        (''candidate_id'', JStr (bc_candidate_id c))]))\<rparr>"

definition build_receipt_of :: "arena_frame \<Rightarrow> benchmark_candidate \<Rightarrow> string" where
  "build_receipt_of f c = sha256_json (JObj
     [(''candidate_sha256'', JStr (bc_source_sha256 c)), (''build_valid'', JBool True),
      (''runner_digest'', JStr (af_runner_digest f))])"

text \<open>The three authorities with their fixed test secrets.\<close>

definition reference_signer :: "string \<Rightarrow> signer" where
  "reference_signer role =
    \<lparr>sg_key_id = ''reference-'' @ role @ ''-test-key'', sg_algorithm = hmac_algorithm,
     sg_sign = (\<lambda>payload. Inr (hmac_sha256 (''release-sentinel-reference-'' @ role @ ''-v1'') payload))\<rparr>"

definition reference_verifier :: "string \<Rightarrow> verifier" where
  "reference_verifier role = hmac_verify (''release-sentinel-reference-'' @ role @ ''-v1'') (''reference-'' @ role @ ''-test-key'')"

definition measure_candidate ::
    "(string \<Rightarrow> (string \<Rightarrow> 'c option) res) \<Rightarrow> 'c challenge_definition \<Rightarrow> qualification \<Rightarrow> arena_frame \<Rightarrow> int \<Rightarrow>
     benchmark_candidate \<Rightarrow> (observation \<times> reference_measurement option) res" where
  "measure_candidate exec_source d q f policy_revision c =
    (case load_candidate exec_source (cd_symbol d) c of
       Inl e \<Rightarrow>
         if catches PyException e
         then Inr (\<lparr>ob_candidate_id = bc_candidate_id c, ob_validity = INVALID, ob_gate = None, ob_oracle = None\<rparr>, None)
         else Inl e
     | Inr candidate \<Rightarrow>
         and_then (cd_gate d candidate (bc_source c) policy_revision) (\<lambda>(gate_decision, response).
         let ctx = candidate_context f c in
         and_then (build_gate_snapshot ctx gate_decision response (build_receipt_of f c)
             (cd_gate_prefix d @ ''-v'' @ int_dec policy_revision) (reference_signer ''gate'')) (\<lambda>signed_gate.
         and_then (evaluate_after_gate_snapshot signed_gate ctx candidate (cd_oracle d) q
             (reference_verifier ''gate'') (reference_signer ''oracle'')) (\<lambda>signed_oracle.
         let verdict = or_verdict (so_result signed_oracle);
             observation = \<lparr>ob_candidate_id = bc_candidate_id c, ob_validity = VALID,
                            ob_gate = Some gate_decision, ob_oracle = Some verdict\<rparr> in
         and_then (ob_classification observation) (\<lambda>classified.
           Inr (observation, Some
             \<lparr>rm_candidate_id = bc_candidate_id c, rm_candidate_sha256 = bc_source_sha256 c,
              rm_gate_decision = gate_decision, rm_oracle_verdict = verdict, rm_classification = classified,
              rm_signed_gate_snapshot = signed_gate, rm_signed_oracle_result = signed_oracle\<rparr>))))))"

text \<open>\<open>tuple(scope[k])\<close>: the scope lists of a challenge hold texts.\<close>

definition scope_texts :: "json \<Rightarrow> string \<Rightarrow> string list res" where
  "scope_texts scope k =
    (if \<not> obj_has scope k then raise KeyError k
     else and_then (py_list (obj_get scope k)) (map_res the_str))"

definition arena_scope :: "arena_frame \<Rightarrow> qualification \<Rightarrow> json \<Rightarrow> coverage_scope res" where
  "arena_scope f q challenge =
     and_then (scope_texts (obj_get challenge ''scope'') ''tested'') (\<lambda>tested.
     and_then (scope_texts (obj_get challenge ''scope'') ''not_tested'') (\<lambda>not_tested.
       make_scope
         \<lparr>sc_challenge_sha256 = af_challenge_sha256 f, sc_fixture_sha256 = af_fixture_sha256 f,
          sc_policy_sha256 = af_policy_sha256 f, sc_benchmark_manifest_sha256 = af_manifest_sha256 f,
          sc_oracle_digest = af_oracle_digest f, sc_gatekeeper_digest = af_gatekeeper_digest f,
          sc_runner_digest = af_runner_digest f,
          sc_qualification_manifest_sha256 = manifest_sha256 q, sc_selftest_sha256 = selftest_sha256 q,
          sc_tested = tested, sc_not_tested = not_tested\<rparr>))"

definition run_reference_arena ::
    "(real \<Rightarrow> pyfloat) \<Rightarrow> (string \<Rightarrow> (string \<Rightarrow> 'c option) res) \<Rightarrow> 'c challenge_definition \<Rightarrow> int \<Rightarrow> arena_run res" where
  "run_reference_arena fl exec_source d policy_revision =
     and_then (cd_benchmark d) (\<lambda>bench.
     and_then (cd_qualify d (cd_fixed d) (cd_vulnerable d)) (\<lambda>q.
       if \<not> q_passed q then raise RuntimeError ''oracle qualification failed; refusing coverage measurement'' else
     and_then (cd_challenge d) (\<lambda>challenge.
       if bm_challenge_id (bs_manifest bench) \<noteq> py_str (obj_get challenge ''id'') \<or>
          JInt (bm_challenge_revision (bs_manifest bench)) \<noteq> obj_get challenge ''revision''
       then raise RuntimeError ''benchmark/challenge identity mismatch'' else
     and_then (cd_policy_document d policy_revision) (\<lambda>policy.
       let f = arena_frame_of d bench q challenge policy policy_revision in
     and_then (map_res (measure_candidate exec_source d q f policy_revision) (bs_candidates bench)) (\<lambda>measured.
     and_then (aggregate_observations (map fst measured)) (\<lambda>counts.
     and_then (arena_scope f q challenge) (\<lambda>scope.
     and_then (build_coverage_receipt scope counts None None) (\<lambda>receipt.
     and_then (sign_coverage_receipt fl receipt (reference_signer ''receipt'')) (\<lambda>signed.
       Inr \<lparr>ar_benchmark = bench, ar_qualification = q, ar_counts = counts,
            ar_measurements = List.map_filter snd measured, ar_signed_receipt = signed\<rparr>)))))))))"

section \<open>The two challenges\<close>

text \<open>
  The arguments are the parsed challenge document and case files, and the syntax tree walker of the
  gates.
\<close>

definition cross_tenant :: "json \<Rightarrow> json \<Rightarrow> json \<Rightarrow> walker \<Rightarrow> tenant_candidate challenge_definition" where
  "cross_tenant challenge safe_file unsafe_file walk =
    \<lparr>cd_challenge = make_challenge challenge,
     cd_benchmark = generate_cross_tenant_benchmark safe_file unsafe_file,
     cd_oracle = \<lparr>qualification_manifest_sha256 = sha256_json tenant_manifest, evaluate_callable = tenant_evaluate\<rparr>,
     cd_oracle_revision = ''cross-tenant-oracle-v1'',
     cd_qualify = tenant_qualify,
     cd_fixed = returns qualified_fixed,
     cd_vulnerable = known_vulnerable,
     cd_symbol = ''can_read'',
     cd_policy_document = reference_policy_document,
     cd_gate = evaluate_reference_gate walk,
     cd_gate_component = ''reference-auth-boundary-gate'',
     cd_gate_prefix = ''reference-auth-boundary-gate''\<rparr>"

definition path_traversal :: "json \<Rightarrow> json \<Rightarrow> json \<Rightarrow> walker \<Rightarrow> path_candidate challenge_definition" where
  "path_traversal challenge safe_file unsafe_file walk =
    \<lparr>cd_challenge = make_challenge challenge,
     cd_benchmark = generate_path_traversal_benchmark safe_file unsafe_file,
     cd_oracle = \<lparr>qualification_manifest_sha256 = sha256_json path_manifest, evaluate_callable = path_evaluate\<rparr>,
     cd_oracle_revision = ''path-traversal-oracle-v1'',
     cd_qualify = path_qualify,
     cd_fixed = path_returns qualified_path_fixed,
     cd_vulnerable = known_path_vulnerable,
     cd_symbol = ''can_open_path'',
     cd_policy_document = path_policy_document,
     cd_gate = evaluate_path_reference_gate walk,
     cd_gate_component = ''reference-path-containment-gate'',
     cd_gate_prefix = ''reference-path-containment-gate''\<rparr>"

section \<open>Lemmas: one candidate\<close>

text \<open>What a candidate contributes, without signatures: its gate decision and the oracle's verdict.\<close>

definition candidate_class ::
    "(string \<Rightarrow> (string \<Rightarrow> 'c option) res) \<Rightarrow> 'c challenge_definition \<Rightarrow> int \<Rightarrow> benchmark_candidate \<Rightarrow> classification \<Rightarrow> bool" where
  "candidate_class exec_source d rv c k \<longleftrightarrow>
    (case load_candidate exec_source (cd_symbol d) c of
       Inl e \<Rightarrow> k = INVALID_CANDIDATE
     | Inr g \<Rightarrow> \<exists>gd h e. cd_gate d g (bc_source c) rv = Inr (gd, h) \<and> evaluate_callable (cd_oracle d) g = Inr e \<and>
         classify_observation VALID (Some gd) (Some (oe_verdict e)) = Inr k)"

text \<open>What a measurement of a candidate promises.\<close>

definition good_measurement ::
    "(string \<Rightarrow> (string \<Rightarrow> 'c option) res) \<Rightarrow> 'c challenge_definition \<Rightarrow> int \<Rightarrow> arena_frame \<Rightarrow> benchmark_candidate \<Rightarrow>
     reference_measurement \<Rightarrow> bool" where
  "good_measurement exec_source d rv f c m \<longleftrightarrow>
    rm_candidate_id m = bc_candidate_id c \<and>
    verify_signed_gate_snapshot (rm_signed_gate_snapshot m) (candidate_context f c) (reference_verifier ''gate'') = Inr () \<and>
    verify_signed_oracle_result (rm_signed_oracle_result m) (candidate_context f c) (rm_signed_gate_snapshot m)
      (reference_verifier ''oracle'') = Inr () \<and>
    gs_gate_decision (ss_snapshot (rm_signed_gate_snapshot m)) = rm_gate_decision m \<and>
    or_verdict (so_result (rm_signed_oracle_result m)) = rm_oracle_verdict m \<and>
    classify_observation VALID (Some (rm_gate_decision m)) (Some (rm_oracle_verdict m)) = Inr (rm_classification m) \<and>
    candidate_class exec_source d rv c (rm_classification m)"

interpretation reference_scheme: signature_scheme "reference_signer role" "reference_verifier role" for role
  by unfold_locales (auto simp: reference_signer_def reference_verifier_def hmac_verify_def split: if_splits)

lemma measure_candidate_Inr:
  assumes "measure_candidate exec_source d q f rv c = Inr (ob, m)"
  shows "\<exists>k. ob_classification ob = Inr k \<and> candidate_class exec_source d rv c k"
    and "\<And>x. m = Some x \<Longrightarrow> good_measurement exec_source d rv f c x"
proof -
  have "(\<exists>k. ob_classification ob = Inr k \<and> candidate_class exec_source d rv c k) \<and>
    (\<forall>x. m = Some x \<longrightarrow> good_measurement exec_source d rv f c x)"
  proof (cases "load_candidate exec_source (cd_symbol d) c")
    case (Inl e)
    then have "ob = \<lparr>ob_candidate_id = bc_candidate_id c, ob_validity = INVALID, ob_gate = None, ob_oracle = None\<rparr>" "m = None"
      using assms by (auto simp: measure_candidate_def split: if_splits)
    then show ?thesis
      using Inl by (auto simp: ob_classification_def classify_observation_def candidate_class_def)
  next
    case (Inr g)
    let ?ctx = "candidate_context f c"
    obtain gd h sg so k where gate: "cd_gate d g (bc_source c) rv = Inr (gd, h)"
      and sg: "build_gate_snapshot ?ctx gd h (build_receipt_of f c) (cd_gate_prefix d @ ''-v'' @ int_dec rv)
        (reference_signer ''gate'') = Inr sg"
      and so: "evaluate_after_gate_snapshot sg ?ctx g (cd_oracle d) q (reference_verifier ''gate'') (reference_signer ''oracle'') = Inr so"
      and k: "classify_observation VALID (Some gd) (Some (or_verdict (so_result so))) = Inr k"
      and ob: "ob = \<lparr>ob_candidate_id = bc_candidate_id c, ob_validity = VALID,
                            ob_gate = Some gd, ob_oracle = Some (or_verdict (so_result so))\<rparr>"
      and m: "m = Some \<lparr>rm_candidate_id = bc_candidate_id c, rm_candidate_sha256 = bc_source_sha256 c,
              rm_gate_decision = gd, rm_oracle_verdict = or_verdict (so_result so), rm_classification = k,
              rm_signed_gate_snapshot = sg, rm_signed_oracle_result = so\<rparr>"
      using assms Inr by (auto simp: measure_candidate_def Let_def and_then_Inr ob_classification_def)
    obtain e where e: "evaluate_callable (cd_oracle d) g = Inr e" "or_verdict (so_result so) = oe_verdict e"
      using evaluate_after_Inr(4)[OF so] by blast
    have cls: "candidate_class exec_source d rv c k" using Inr gate e k by (auto simp: candidate_class_def)
    moreover have "good_measurement exec_source d rv f c x" if "m = Some x" for x
    proof -
      from that m have x: "x = \<lparr>rm_candidate_id = bc_candidate_id c, rm_candidate_sha256 = bc_source_sha256 c,
              rm_gate_decision = gd, rm_oracle_verdict = or_verdict (so_result so), rm_classification = k,
              rm_signed_gate_snapshot = sg, rm_signed_oracle_result = so\<rparr>" by simp
      show ?thesis
        using reference_scheme.built_snapshot_verifies[OF sg] reference_scheme.oracle_result_verifies[OF so] cls k
        by (simp add: x good_measurement_def)
    qed
    ultimately show ?thesis using k by (simp add: ob ob_classification_def)
  qed
  then show "\<exists>k. ob_classification ob = Inr k \<and> candidate_class exec_source d rv c k"
    "\<And>x. m = Some x \<Longrightarrow> good_measurement exec_source d rv f c x" by blast+
qed

section \<open>Lemmas: a run\<close>

lemma arena_Inr:
  assumes "run_reference_arena fl exec_source d rv = Inr r"
  shows "\<exists>q challenge policy f measured scope receipt.
    cd_benchmark d = Inr (ar_benchmark r) \<and> cd_qualify d (cd_fixed d) (cd_vulnerable d) = Inr q \<and> q_passed q \<and>
    cd_policy_document d rv = Inr policy \<and>
    f = arena_frame_of d (ar_benchmark r) q challenge policy rv \<and>
    map_res (measure_candidate exec_source d q f rv) (bs_candidates (ar_benchmark r)) = Inr measured \<and>
    aggregate_observations (map fst measured) = Inr (ar_counts r) \<and>
    ar_measurements r = List.map_filter snd measured \<and>
    arena_scope f q challenge = Inr scope \<and>
    build_coverage_receipt scope (ar_counts r) None None = Inr receipt \<and>
    sign_coverage_receipt fl receipt (reference_signer ''receipt'') = Inr (ar_signed_receipt r)"
  using assms by (auto simp: run_reference_arena_def Let_def and_then_Inr split: if_splits) blast

text \<open>The classes of the candidates, in benchmark order, are what the counts count.\<close>

lemma arena_classes:
  assumes "run_reference_arena fl exec_source d rv = Inr r"
  shows "\<exists>ks. list_all2 (candidate_class exec_source d rv) (bs_candidates (ar_benchmark r)) ks \<and>
    correct_accepts (ar_counts r) = int (count_list ks CORRECT_ACCEPT) \<and>
    overblocks (ar_counts r) = int (count_list ks OVERBLOCK) \<and>
    correct_blocks (ar_counts r) = int (count_list ks CORRECT_BLOCK) \<and>
    escapes (ar_counts r) = int (count_list ks ESCAPE) \<and>
    invalid_candidates (ar_counts r) = int (count_list ks INVALID_CANDIDATE) \<and>
    total_candidates (ar_counts r) = int (length (bs_candidates (ar_benchmark r)))"
proof -
  from arena_Inr[OF assms] obtain q f measured where
    m: "map_res (measure_candidate exec_source d q f rv) (bs_candidates (ar_benchmark r)) = Inr measured"
    and a: "aggregate_observations (map fst measured) = Inr (ar_counts r)" by blast
  from aggregate_counts[OF a] obtain ks where ks: "map ob_classification (map fst measured) = map Inr ks"
    "correct_accepts (ar_counts r) = int (count_list ks CORRECT_ACCEPT)" "overblocks (ar_counts r) = int (count_list ks OVERBLOCK)"
    "correct_blocks (ar_counts r) = int (count_list ks CORRECT_BLOCK)" "escapes (ar_counts r) = int (count_list ks ESCAPE)"
    "invalid_candidates (ar_counts r) = int (count_list ks INVALID_CANDIDATE)"
    "total_candidates (ar_counts r) = int (length (map fst measured))" by blast
  from m have l: "list_all2 (\<lambda>c x. measure_candidate exec_source d q f rv c = Inr x) (bs_candidates (ar_benchmark r)) measured"
    by (simp add: map_res_Inr)
  have lk: "length measured = length ks" using ks(1) by (metis length_map)
  have "list_all2 (candidate_class exec_source d rv) (bs_candidates (ar_benchmark r)) ks"
    unfolding list_all2_conv_all_nth
  proof (intro conjI allI impI)
    show "length (bs_candidates (ar_benchmark r)) = length ks" using l lk by (simp add: list_all2_lengthD)
    fix i assume i: "i < length (bs_candidates (ar_benchmark r))"
    then have im: "i < length measured" using l by (simp add: list_all2_lengthD)
    obtain ob mm where x: "measured ! i = (ob, mm)" by (cases "measured ! i")
    have "measure_candidate exec_source d q f rv (bs_candidates (ar_benchmark r) ! i) = Inr (ob, mm)"
      using l i x by (simp add: list_all2_conv_all_nth)
    moreover have "ob_classification ob = Inr (ks ! i)"
      using arg_cong[OF ks(1), of "\<lambda>l. l ! i"] im lk x by simp
    ultimately show "candidate_class exec_source d rv (bs_candidates (ar_benchmark r) ! i) (ks ! i)"
      using measure_candidate_Inr(1) by fastforce
  qed
  moreover have "length (map fst measured) = length (bs_candidates (ar_benchmark r))"
    using l by (simp add: list_all2_lengthD)
  ultimately show ?thesis using ks(2-) by (intro exI[of _ ks]) simp
qed

lemma arena_measurements:
  assumes "run_reference_arena fl exec_source d rv = Inr r" "m \<in> set (ar_measurements r)"
  shows "\<exists>f. \<exists>c\<in>set (bs_candidates (ar_benchmark r)). good_measurement exec_source d rv f c m"
proof -
  from arena_Inr[OF assms(1)] obtain q f measured where
    l: "list_all2 (\<lambda>c x. measure_candidate exec_source d q f rv c = Inr x) (bs_candidates (ar_benchmark r)) measured"
    and ms: "ar_measurements r = List.map_filter snd measured" by (auto simp: map_res_Inr)
  obtain ob where x: "(ob, Some m) \<in> set measured"
    using assms(2) unfolding ms by (auto simp: List.map_filter_def split: if_splits option.splits)
  then obtain c where "c \<in> set (bs_candidates (ar_benchmark r))" "measure_candidate exec_source d q f rv c = Inr (ob, Some m)"
    using l by (auto simp: list_all2_conv_all_nth in_set_conv_nth) metis
  then show ?thesis using measure_candidate_Inr(2) by blast
qed

lemma arena_receipt:
  assumes "run_reference_arena fl exec_source d rv = Inr r"
  shows "verify_signed_coverage_receipt fl (ar_signed_receipt r) (reference_verifier ''receipt'') = Inr ()"
    "cr_counts (sr_receipt (ar_signed_receipt r)) = ar_counts r"
    "cr_agent_authority (sr_receipt (ar_signed_receipt r)) = ''NONE''"
proof -
  from arena_Inr[OF assms] obtain scope receipt where
    b: "build_coverage_receipt scope (ar_counts r) None None = Inr receipt"
    and s: "sign_coverage_receipt fl receipt (reference_signer ''receipt'') = Inr (ar_signed_receipt r)" by blast
  show "verify_signed_coverage_receipt fl (ar_signed_receipt r) (reference_verifier ''receipt'') = Inr ()"
    by (rule reference_scheme.signed_receipt_verifies[OF s])
  have "sr_receipt (ar_signed_receipt r) = receipt"
    using s by (auto simp: sign_coverage_receipt_def and_then_Inr split: if_splits dest: sym)
  then show "cr_counts (sr_receipt (ar_signed_receipt r)) = ar_counts r"
    "cr_agent_authority (sr_receipt (ar_signed_receipt r)) = ''NONE''"
    using build_receipt_Inr[OF b] by simp_all
qed

section \<open>Lemmas: stricter gates\<close>

lemma count_list_mono:
  "list_all2 (\<lambda>k k'. k = x \<longrightarrow> k' = x) ks ks' \<Longrightarrow> count_list ks x \<le> count_list ks' x"
  by (induction rule: list_all2_induct) auto

text \<open>A gate that accepts no more than another has no more escapes and no fewer overblocks.\<close>

lemma arena_stricter_gate:
  assumes r: "run_reference_arena fl exec_source d rv = Inr r" and r': "run_reference_arena fl exec_source d rv' = Inr r'"
    and gate: "\<And>g src h. cd_gate d g src rv = Inr (GO, h) \<Longrightarrow> \<exists>h'. cd_gate d g src rv' = Inr (GO, h')"
  shows "escapes (ar_counts r) \<le> escapes (ar_counts r')" "overblocks (ar_counts r') \<le> overblocks (ar_counts r)"
proof -
  have b: "ar_benchmark r' = ar_benchmark r"
    using arena_Inr[OF r] arena_Inr[OF r'] by auto
  obtain ks where ks: "list_all2 (candidate_class exec_source d rv) (bs_candidates (ar_benchmark r)) ks"
    "escapes (ar_counts r) = int (count_list ks ESCAPE)" "overblocks (ar_counts r) = int (count_list ks OVERBLOCK)"
    using arena_classes[OF r] by blast
  obtain ks' where ks': "list_all2 (candidate_class exec_source d rv') (bs_candidates (ar_benchmark r)) ks'"
    "escapes (ar_counts r') = int (count_list ks' ESCAPE)" "overblocks (ar_counts r') = int (count_list ks' OVERBLOCK)"
    using arena_classes[OF r'] unfolding b by blast
  have one: "(k = ESCAPE \<longrightarrow> k' = ESCAPE) \<and> (k' = OVERBLOCK \<longrightarrow> k = OVERBLOCK)"
    if cls: "candidate_class exec_source d rv c k" "candidate_class exec_source d rv' c k'" for c k k'
  proof (cases "load_candidate exec_source (cd_symbol d) c")
    case (Inl e)
    then show ?thesis using cls by (simp add: candidate_class_def)
  next
    case (Inr g)
    obtain gd h e where k: "cd_gate d g (bc_source c) rv = Inr (gd, h)" "evaluate_callable (cd_oracle d) g = Inr e"
      "classify_observation VALID (Some gd) (Some (oe_verdict e)) = Inr k"
      using cls(1) Inr by (auto simp: candidate_class_def)
    obtain gd' h' where k': "cd_gate d g (bc_source c) rv' = Inr (gd', h')"
      "classify_observation VALID (Some gd') (Some (oe_verdict e)) = Inr k'"
      using cls(2) Inr k(2) by (auto simp: candidate_class_def)
    have "gd = GO \<Longrightarrow> gd' = GO" using gate k(1) k'(1) by fastforce
    then show ?thesis using k(3) k'(2)
      by (cases gd; cases gd'; cases "oe_verdict e") (auto simp: classify_observation_def)
  qed
  have "list_all2 (\<lambda>k k'. k = ESCAPE \<longrightarrow> k' = ESCAPE) ks ks'" "list_all2 (\<lambda>k' k. k' = OVERBLOCK \<longrightarrow> k = OVERBLOCK) ks' ks"
    using ks(1) ks'(1) one by (auto simp: list_all2_conv_all_nth) blast+
  then show "escapes (ar_counts r) \<le> escapes (ar_counts r')" "overblocks (ar_counts r') \<le> overblocks (ar_counts r)"
    using ks ks' count_list_mono by simp_all
qed

lemma cross_tenant_revisions:
  assumes "run_reference_arena fl exec_source (cross_tenant ch sf uf walk) rv = Inr r"
    and "run_reference_arena fl exec_source (cross_tenant ch sf uf walk) rv' = Inr r'" "rv' \<le> rv"
  shows "escapes (ar_counts r) \<le> escapes (ar_counts r')" "overblocks (ar_counts r') \<le> overblocks (ar_counts r)"
proof -
  have "\<exists>policy. reference_policy_document rv' = Inr policy"
    using arena_Inr[OF assms(2)] by (auto simp: cross_tenant_def)
  then have rv: "rv' \<in> {1, 2, 3}" by (auto simp: reference_policy_document_def Let_def split: if_splits)
  have "cd_gate (cross_tenant ch sf uf walk) g src rv = Inr (GO, h) \<Longrightarrow>
      \<exists>h'. cd_gate (cross_tenant ch sf uf walk) g src rv' = Inr (GO, h')" for g src h
    using tenant_gate_stricter[OF _ rv assms(3), of walk g src h] by (simp add: cross_tenant_def)
  then show "escapes (ar_counts r) \<le> escapes (ar_counts r')" "overblocks (ar_counts r') \<le> overblocks (ar_counts r)"
    using arena_stricter_gate[OF assms(1,2)] by blast+
qed

lemma path_rev3_no_escapes:
  assumes "run_reference_arena fl exec_source (path_traversal ch sf uf walk) 3 = Inr r"
  shows "escapes (ar_counts r) = 0"
proof -
  let ?d = "path_traversal ch sf uf walk"
  obtain ks where ks: "list_all2 (candidate_class exec_source ?d 3) (bs_candidates (ar_benchmark r)) ks"
    "escapes (ar_counts r) = int (count_list ks ESCAPE)"
    using arena_classes[OF assms] by blast
  have "k \<noteq> ESCAPE" if cls: "candidate_class exec_source ?d 3 c k" for c k
  proof (cases "load_candidate exec_source (cd_symbol ?d) c")
    case (Inr g)
    then obtain gd h e where k: "evaluate_path_reference_gate walk g (bc_source c) 3 = Inr (gd, h)" "path_evaluate g = Inr e"
      "classify_observation VALID (Some gd) (Some (oe_verdict e)) = Inr k"
      using cls by (auto simp: candidate_class_def path_traversal_def)
    then show ?thesis using path_rev3_safe[of walk g "bc_source c" h e]
      by (cases gd; cases "oe_verdict e") (auto simp: classify_observation_def)
  qed (use cls in \<open>simp add: candidate_class_def\<close>)
  then have "ESCAPE \<notin> set ks" using ks(1) by (auto simp: list_all2_conv_all_nth in_set_conv_nth)
  then show ?thesis using ks(2) by (simp add: count_list_0_iff)
qed

section \<open>Lemmas: completion\<close>

text \<open>
  The arena completes when the oracle qualifies, the documents fit, and every candidate either fails to
  load with an exception or gets an answer from gate and oracle.
\<close>

definition answered :: "(string \<Rightarrow> (string \<Rightarrow> 'c option) res) \<Rightarrow> 'c challenge_definition \<Rightarrow> int \<Rightarrow> benchmark_candidate \<Rightarrow> bool" where
  "answered exec_source d rv c \<longleftrightarrow>
    (case load_candidate exec_source (cd_symbol d) c of
       Inl e \<Rightarrow> catches PyException e
     | Inr g \<Rightarrow> (\<exists>gd h. cd_gate d g (bc_source c) rv = Inr (gd, h) \<and> gd \<noteq> CONDITIONAL_GO) \<and>
         ok (evaluate_callable (cd_oracle d) g))"

lemma measure_candidate_ok:
  assumes "answered exec_source d rv c" "q_passed q" "manifest_sha256 q = qualification_manifest_sha256 (cd_oracle d)"
  shows "ok (measure_candidate exec_source d q f rv c)"
proof (cases "load_candidate exec_source (cd_symbol d) c")
  case (Inl e)
  then show ?thesis using assms(1) by (simp add: measure_candidate_def answered_def)
next
  case (Inr g)
  then obtain gd h e where g: "cd_gate d g (bc_source c) rv = Inr (gd, h)" "gd \<noteq> CONDITIONAL_GO"
    "evaluate_callable (cd_oracle d) g = Inr e"
    using assms(1) by (auto simp: answered_def ok_iff)
  obtain sg where sg: "build_gate_snapshot (candidate_context f c) gd h (build_receipt_of f c)
      (cd_gate_prefix d @ ''-v'' @ int_dec rv) (reference_signer ''gate'') = Inr sg"
    using g(2) by (cases gd) (auto simp: build_gate_snapshot_def Let_def sign_json_def reference_signer_def)
  obtain so where so: "evaluate_after_gate_snapshot sg (candidate_context f c) g (cd_oracle d) q
      (reference_verifier ''gate'') (reference_signer ''oracle'') = Inr so"
    using reference_scheme.built_snapshot_verifies(1)[OF sg] assms(2,3) g(3)
    by (auto simp: evaluate_after_gate_snapshot_def Let_def sign_json_def reference_signer_def)
  have "\<exists>k. classify_observation VALID (Some gd) (Some v) = Inr k" for v
    using g(2) by (cases gd; cases v) (auto simp: classify_observation_def)
  then obtain k where "classify_observation VALID (Some gd) (Some (or_verdict (so_result so))) = Inr k" by blast
  then show ?thesis
    using Inr g sg so by (simp add: measure_candidate_def Let_def ob_classification_def)
qed

lemma map_res_ok: "list_all (\<lambda>x. ok (f x)) xs \<Longrightarrow> ok (map_res f xs)"
  by (induction xs) (auto simp: ok_iff)

lemma wilson_interval_ok: "0 \<le> s \<Longrightarrow> s \<le> t \<Longrightarrow> ok (wilson_interval s t z)"
  by (simp add: wilson_interval_def Let_def)

lemma counts_to_dict_ok:
  assumes "aggregate_observations xs = Inr c"
  shows "ok (counts_to_dict fl c)"
proof -
  have "0 \<le> correct_blocks c" "0 \<le> escapes c" "0 \<le> overblocks c" "0 \<le> correct_accepts c"
    "confirmed_safe c = correct_accepts c + overblocks c" "confirmed_unsafe c = correct_blocks c + escapes c"
    using aggregate_counts[OF assms] by auto
  then have "ok (wilson_interval (correct_blocks c) (confirmed_unsafe c) z95)"
    "ok (wilson_interval (escapes c) (confirmed_unsafe c) z95)" "ok (wilson_interval (overblocks c) (confirmed_safe c) z95)"
    by (simp_all add: wilson_interval_ok)
  then show ?thesis by (auto simp: counts_to_dict_def rate_payload_def ok_iff)
qed

lemma aggregate_ok:
  assumes "list_all (\<lambda>x. ok (ob_classification x)) xs"
  shows "ok (aggregate_observations xs)"
proof -
  have "ok (count_loop xs s)" for s
    using assms by (induction xs s rule: count_loop.induct) (auto simp: ok_iff)
  then obtain a o' b e i where "count_loop xs (0, 0, 0, 0, 0) = Inr (a, o', b, e, i)"
    unfolding ok_iff by (metis prod_cases5)
  then show ?thesis by (simp add: aggregate_observations_def)
qed

lemma arena_completes:
  assumes "cd_benchmark d = Inr bench" "cd_qualify d (cd_fixed d) (cd_vulnerable d) = Inr q" "q_passed q"
    and "manifest_sha256 q = qualification_manifest_sha256 (cd_oracle d)"
    and "cd_challenge d = Inr challenge" "bm_challenge_id (bs_manifest bench) = py_str (obj_get challenge ''id'')"
    and "obj_get challenge ''revision'' = JInt (bm_challenge_revision (bs_manifest bench))"
    and "cd_policy_document d rv = Inr policy"
    and "list_all (answered exec_source d rv) (bs_candidates bench)"
    and "ok (arena_scope (arena_frame_of d bench q challenge policy rv) q challenge)"
  shows "ok (run_reference_arena fl exec_source d rv)"
proof -
  let ?f = "arena_frame_of d bench q challenge policy rv"
  have "list_all (\<lambda>c. ok (measure_candidate exec_source d q ?f rv c)) (bs_candidates bench)"
    using assms(9) measure_candidate_ok[OF _ assms(3,4)] by (auto simp: list_all_iff)
  then obtain measured where m: "map_res (measure_candidate exec_source d q ?f rv) (bs_candidates bench) = Inr measured"
    using map_res_ok unfolding ok_iff by blast
  then have l: "list_all2 (\<lambda>c x. measure_candidate exec_source d q ?f rv c = Inr x) (bs_candidates bench) measured"
    by (simp add: map_res_Inr)
  have "ok (ob_classification (fst x))" if mem: "x \<in> set measured" for x
  proof -
    obtain c where "measure_candidate exec_source d q ?f rv c = Inr x"
      using l mem by (auto simp: list_all2_conv_all_nth in_set_conv_nth)
    then show ?thesis using measure_candidate_Inr(1)[of exec_source d q ?f rv c "fst x" "snd x"] by (auto simp: ok_iff)
  qed
  then have "list_all (\<lambda>x. ok (ob_classification x)) (map fst measured)" by (auto simp: list_all_iff)
  from aggregate_ok[OF this] obtain counts where a: "aggregate_observations (map fst measured) = Inr counts"
    unfolding ok_iff by blast
  obtain scope where sc: "arena_scope ?f q challenge = Inr scope" using assms(10) unfolding ok_iff by blast
  have "confirmed_safe counts = correct_accepts counts + overblocks counts"
    "confirmed_unsafe counts = correct_blocks counts + escapes counts"
    using aggregate_counts[OF a] by auto
  then obtain receipt where b: "build_coverage_receipt scope counts None None = Inr receipt"
    "cr_counts receipt = counts" "cr_agent_authority receipt = ''NONE''"
    by (auto simp: build_coverage_receipt_def)
  obtain dd where "counts_to_dict fl counts = Inr dd" using counts_to_dict_ok[OF a] unfolding ok_iff by blast
  then obtain signed where "sign_coverage_receipt fl receipt (reference_signer ''receipt'') = Inr signed"
    using b(2,3) by (auto simp: sign_coverage_receipt_def receipt_to_dict_def sign_json_def reference_signer_def Let_def)
  then show ?thesis
    using assms(1-3,5-8) m a sc b(1) by (simp add: run_reference_arena_def Let_def)
qed

text \<open>A candidate that only ever raises exceptions of class \<open>Exception\<close>, never an interpreter exit.\<close>

definition tame :: "tenant_candidate \<Rightarrow> bool" where
  "tame g \<longleftrightarrow> (\<forall>a b. case g a b of Inl e \<Rightarrow> catches PyException e | Inr x \<Rightarrow> True)"

text \<open>What \<open>ast.parse\<close> is documented to do with a source: it returns the tree, or raises SyntaxError, or ValueError
  for a null byte.\<close>

definition parses :: "walker \<Rightarrow> string \<Rightarrow> bool" where
  "parses walk src \<longleftrightarrow> (case walk src of Inl e \<Rightarrow> shape_error e | Inr ns \<Rightarrow> True)"

lemma run_probes_ok:
  "list_all (\<lambda>(i, x, a). case a of Inl e \<Rightarrow> catches PyException e | Inr j \<Rightarrow> True) ps \<Longrightarrow> ok (run_probes ps)"
  by (induction ps rule: run_probes.induct) (auto simp: probe_outcome_def ok_iff split: sum.splits)

lemma tenant_gate_answers:
  assumes "tame g" "rv \<in> {1, 2, 3}" "parses walk src"
  shows "\<exists>gd h. evaluate_reference_gate walk g src rv = Inr (gd, h) \<and> gd \<noteq> CONDITIONAL_GO"
proof -
  obtain probes where p: "tenant_probes rv = Inr probes" using assms(2) by (auto simp: tenant_probes_def)
  let ?ps = "map (\<lambda>(a, b, x). ([(''requester'', a), (''resource'', b)], x, g a b)) probes"
  have "list_all (\<lambda>(i, x, a). case a of Inl e \<Rightarrow> catches PyException e | Inr j \<Rightarrow> True) ?ps"
    using assms(1) by (auto simp: tame_def list_all_iff)
  then obtain os bad where r: "run_probes ?ps = Inr (os, bad)" using run_probes_ok unfolding ok_iff by fast
  have "shape_ok (canonical_auth_shape walk src)" "shape_ok (strict_identity_compare_shape walk src)"
    if "shape_ok = (\<lambda>m. case m of Inl e \<Rightarrow> shape_error e | Inr x \<Rightarrow> True)" for shape_ok :: "bool res \<Rightarrow> bool"
    using assms(3)
    by (auto simp: that parses_def canonical_auth_shape_def strict_identity_compare_shape_def and_then_def split: sum.splits)
  then obtain c st where "shape_or_false (canonical_auth_shape walk src) = Inr c"
    "shape_or_false (strict_identity_compare_shape walk src) = Inr st"
    unfolding shape_or_false_def by (fastforce split: sum.splits)
  then show ?thesis using p r
    by (auto simp: evaluate_reference_gate_def Let_def gate_verdict_def)
qed

lemma tenant_oracle_answers: "tame g \<Longrightarrow> ok (tenant_evaluate g)"
proof -
  assume "tame g"
  then have "only_exceptions (tenant_call g) tenant_vectors"
    by (auto simp: tame_def only_exceptions_def tenant_call_def list_all_iff)
  then show ?thesis using evaluate_vectors_ok by (auto simp: tenant_evaluate_def tenant_call_def[abs_def])
qed

lemma qualified_fixed_identity: "qualified_fixed a b = strict_identity a b"
  by (induction a b rule: strict_identity.induct) auto

lemma qualified_path_fixed_reference: "qualified_path_fixed b r t = can_open_path b r t"
  by (induction b r t rule: qualified_path_fixed.induct) (simp_all add: Let_def)

lemma cross_tenant_qualifies:
  "\<exists>q. tenant_qualify (returns qualified_fixed) known_vulnerable = Inr q \<and> q_passed q \<and>
     manifest_sha256 q = sha256_json tenant_manifest \<and> is_sha256 (selftest_sha256 q)"
proof -
  obtain ef e where ev: "tenant_evaluate (returns strict_identity) = Inr ef" "tenant_evaluate known_vulnerable = Inr e"
    using tenant_oracle_answers[of "returns _"] unfolding ok_iff known_vulnerable_def tame_def returns_def by fastforce
  have "oe_verdict ef = SAFE" "oe_verdict e = UNSAFE"
    using tenant_oracle.reference_safe[unfolded tenant_evaluation, OF ev(1)]
      tenant_oracle.mutant_unsafe[unfolded tenant_evaluation, of known_vulnerable] ev(2)
    by (auto simp: known_vulnerable_def tenant_mutants_def)
  moreover have "returns qualified_fixed = returns strict_identity"
    by (simp add: fun_eq_iff returns_def qualified_fixed_identity)
  ultimately show ?thesis
    using ev by (simp add: tenant_qualify_def qualify_with_def all_mutants_killed Let_def is_sha256_json)
qed

lemma cross_tenant_completes:
  assumes "generate_cross_tenant_benchmark safe_file unsafe_file = Inr bench" "make_challenge challenge = Inr challenge"
    and "obj_get challenge ''id'' = JStr ''cross-tenant-authorization''" "obj_get challenge ''revision'' = JInt 1"
    and "scope_texts (obj_get challenge ''scope'') ''tested'' = Inr ts" "scope_texts (obj_get challenge ''scope'') ''not_tested'' = Inr ns"
    and "ts \<noteq> []" "set ts \<inter> set ns = {}" "rv \<in> {1, 2, 3}"
    and "\<forall>c\<in>set (bs_candidates bench). case load_candidate exec_source ''can_read'' c of
           Inl e \<Rightarrow> catches PyException e | Inr g \<Rightarrow> tame g \<and> parses walk (bc_source c)"
  shows "\<exists>r. run_reference_arena fl exec_source (cross_tenant challenge safe_file unsafe_file walk) rv = Inr r \<and>
    ar_benchmark r = bench \<and> total_candidates (ar_counts r) = int (length (bs_candidates bench))"
proof -
  let ?d = "cross_tenant challenge safe_file unsafe_file walk"
  obtain q where q: "tenant_qualify (returns qualified_fixed) known_vulnerable = Inr q" "q_passed q"
    "manifest_sha256 q = sha256_json tenant_manifest" "is_sha256 (selftest_sha256 q)"
    using cross_tenant_qualifies by blast
  obtain policy where p: "reference_policy_document rv = Inr policy"
    using assms(9) by (auto simp: reference_policy_document_def Let_def)
  have bm: "bm_challenge_id (bs_manifest bench) = ''cross-tenant-authorization''" "bm_challenge_revision (bs_manifest bench) = 1"
    "is_sha256 (bm_base_fixture_sha256 (bs_manifest bench))"
    using assms(1) by (auto simp: generate_cross_tenant_benchmark_def and_then_Inr make_suite_def Let_def)
  have "answered exec_source ?d rv c" if mem: "c \<in> set (bs_candidates bench)" for c
    using assms(10) mem tenant_gate_answers[OF _ assms(9), of _ walk "bc_source c"] tenant_oracle_answers
    by (fastforce simp: answered_def cross_tenant_def split: sum.splits)
  then have a: "list_all (answered exec_source ?d rv) (bs_candidates bench)" by (simp add: list_all_iff)
  have sc: "ok (arena_scope (arena_frame_of ?d bench q challenge policy rv) q challenge)"
    using assms(5-8) q(3,4) bm(3)
    by (simp add: arena_scope_def make_scope_def scope_digests_def require_sha256_def arena_frame_of_def bm_sha256_def)
  have "ok (run_reference_arena fl exec_source ?d rv)"
    by (rule arena_completes[OF _ _ q(2) _ _ _ _ _ a sc])
      (use assms(1-4) q(1,3) p bm in \<open>simp_all add: cross_tenant_def\<close>)
  then obtain r where r: "run_reference_arena fl exec_source ?d rv = Inr r" unfolding ok_iff by blast
  then have "ar_benchmark r = bench" using arena_Inr[OF r] assms(1) by (auto simp: cross_tenant_def)
  then show ?thesis using r arena_classes[OF r] by auto
qed

end
