(* ===== verification/Arena_Claims.thy ===== *)
theory Arena_Claims
  imports Arena
begin

text \<open>
  The properties of a whole arena run: what its measurements, counts and receipt are worth, how the
  revisions of the gates compare on one benchmark, and that the run completes.
\<close>

text \<open>A benchmark with one candidate per kind, and an interpreter that knows them.\<close>

definition one_case :: "string \<Rightarrow> string \<Rightarrow> json" where
  "one_case op src = JList [JObj [(''operator_id'', JStr op), (''source'', JStr src)]]"

definition demo_challenge :: json where
  "demo_challenge = JObj
    [(''schema'', JStr ''release-sentinel.coverage-challenge.v1''), (''id'', JStr ''cross-tenant-authorization''),
     (''revision'', JInt 1),
     (''scope'', JObj [(''tested'', JList [JStr ''tenant isolation'']), (''not_tested'', JList [JStr ''availability''])])]"

definition demo_exec :: "string \<Rightarrow> (string \<Rightarrow> tenant_candidate option) res" where
  "demo_exec source = Inr (\<lambda>name. if name = ''can_read''
     then Some (if source = ''def can_read(): safe'' then returns strict_identity else prefix_candidate) else None)"

definition demo_arena :: "tenant_candidate challenge_definition" where
  "demo_arena = cross_tenant demo_challenge (one_case ''s'' ''def can_read(): safe'') (one_case ''u'' ''def can_read(): prefix'')
     (\<lambda>s. Inr [])"

lemma demo_cases:
  "load_tenant_cases nm (one_case ''s'' ''def can_read(): safe'') = Inr [(''s'', ''def can_read(): safe'')]"
  "load_tenant_cases nm (one_case ''u'' ''def can_read(): prefix'') = Inr [(''u'', ''def can_read(): prefix'')]"
proof -
  have "contains ''def can_read'' ''def can_read(): safe''" "contains ''def can_read'' ''def can_read(): prefix''" by code_simp+
  then show "load_tenant_cases nm (one_case ''s'' ''def can_read(): safe'') = Inr [(''s'', ''def can_read(): safe'')]"
    "load_tenant_cases nm (one_case ''u'' ''def can_read(): prefix'') = Inr [(''u'', ''def can_read(): prefix'')]"
    by (simp_all add: load_tenant_cases_def load_case_file_def one_case_def Let_def)
qed

lemma demo_challenge_ok: "make_challenge demo_challenge = Inr demo_challenge"
  by code_simp


lemma demo_documents:
  assumes "generate_cross_tenant_benchmark (one_case ''s'' ''def can_read(): safe'') (one_case ''u'' ''def can_read(): prefix'') = Inr bench"
  shows "\<forall>c\<in>set (bs_candidates bench). case load_candidate demo_exec ''can_read'' c of
           Inl e \<Rightarrow> catches PyException e | Inr g \<Rightarrow> tame g \<and> parses (\<lambda>s. Inr []) (bc_source c)"
    and "scope_texts (obj_get demo_challenge ''scope'') ''tested'' = Inr [''tenant isolation'']"
    and "scope_texts (obj_get demo_challenge ''scope'') ''not_tested'' = Inr [''availability'']"
  using assms
  by (auto simp: load_candidate_def demo_exec_def tame_def parses_def returns_def prefix_candidate_def scope_texts_def demo_challenge_def)

lemma demo_benchmark:
  "\<exists>bench. generate_cross_tenant_benchmark (one_case ''s'' ''def can_read(): safe'') (one_case ''u'' ''def can_read(): prefix'') = Inr bench \<and>
     length (bs_candidates bench) = 2"
  by (simp add: generate_cross_tenant_benchmark_def demo_cases make_suite_def Let_def)


text \<open>A run exists at every revision.\<close>

lemma demo_run: "rv \<in> {1, 2, 3} \<Longrightarrow> \<exists>r. run_reference_arena (\<lambda>x. FRepr ''0.5'') demo_exec demo_arena rv = Inr r"
proof -
  assume rv: "rv \<in> {1, 2, 3}"
  obtain bench where b: "generate_cross_tenant_benchmark (one_case ''s'' ''def can_read(): safe'') (one_case ''u'' ''def can_read(): prefix'') = Inr bench"
    using demo_benchmark by blast
  have "\<exists>r. run_reference_arena (\<lambda>x. FRepr ''0.5'') demo_exec (cross_tenant demo_challenge (one_case ''s'' ''def can_read(): safe'')
      (one_case ''u'' ''def can_read(): prefix'') (\<lambda>s. Inr [])) rv = Inr r \<and>
    ar_benchmark r = bench \<and> total_candidates (ar_counts r) = int (length (bs_candidates bench))"
    by (rule cross_tenant_completes[OF b demo_challenge_ok _ _ demo_documents(2,3)[OF b] _ _ rv demo_documents(1)[OF b]])
      (simp_all add: demo_challenge_def)
  then show ?thesis by (auto simp: demo_arena_def)
qed

text \<open>A run accounts for itself: every measurement carries a gate snapshot and an oracle result
  that verify for its context, with the oracle result naming that snapshot, and is classified from
  exactly these two; the counts are those of the candidates' classes, which depend only on what the
  gate and the oracle answer; and the receipt verifies, carries these counts and names no agent
  authority.\<close>

lemma arena_run_is_accountable:
  assumes "run_reference_arena fl exec_source d rv = Inr r"
  shows "(\<forall>m\<in>set (ar_measurements r). \<exists>f. \<exists>c\<in>set (bs_candidates (ar_benchmark r)). good_measurement exec_source d rv f c m) \<and>
    (\<exists>ks. list_all2 (candidate_class exec_source d rv) (bs_candidates (ar_benchmark r)) ks \<and>
      escapes (ar_counts r) = int (count_list ks ESCAPE) \<and> overblocks (ar_counts r) = int (count_list ks OVERBLOCK) \<and>
      total_candidates (ar_counts r) = int (length (bs_candidates (ar_benchmark r)))) \<and>
    verify_signed_coverage_receipt fl (ar_signed_receipt r) (reference_verifier ''receipt'') = Inr () \<and>
    cr_counts (sr_receipt (ar_signed_receipt r)) = ar_counts r \<and>
    cr_agent_authority (sr_receipt (ar_signed_receipt r)) = ''NONE''"
  using arena_measurements[OF assms] arena_classes[OF assms] arena_receipt[OF assms] by blast

lemma arena_run_is_accountable_instance:
  "\<exists>r. run_reference_arena (\<lambda>x. FRepr ''0.5'') demo_exec demo_arena 1 = Inr r \<and>
     verify_signed_coverage_receipt (\<lambda>x. FRepr ''0.5'') (ar_signed_receipt r) (reference_verifier ''receipt'') = Inr ()"
proof -
  obtain r where r: "run_reference_arena (\<lambda>x. FRepr ''0.5'') demo_exec demo_arena 1 = Inr r"
    using demo_run[of 1] by auto
  from arena_run_is_accountable[OF r] r show ?thesis by blast
qed

text \<open>On one benchmark the revisions of the tenant gate trade escapes for overblocks: a higher
  revision never lets more unsafe candidates escape and never blocks fewer safe ones; and revision 3
  of the path gate lets none escape.\<close>

lemma higher_revisions_escape_less:
  "(run_reference_arena fl exec_source (cross_tenant ch sf uf walk) rv = Inr r \<and>
    run_reference_arena fl exec_source (cross_tenant ch sf uf walk) rv' = Inr r' \<and> rv' \<le> rv \<longrightarrow>
      escapes (ar_counts r) \<le> escapes (ar_counts r') \<and> overblocks (ar_counts r') \<le> overblocks (ar_counts r)) \<and>
   (run_reference_arena fl exec' (path_traversal ch sf uf walk) 3 = Inr p \<longrightarrow> escapes (ar_counts p) = 0)"
  using cross_tenant_revisions[of fl exec_source ch sf uf walk rv r rv' r'] path_rev3_no_escapes[of fl exec' ch sf uf walk p]
  by blast

lemma higher_revisions_escape_less_instance:
  "\<exists>r r'. run_reference_arena (\<lambda>x. FRepr ''0.5'') demo_exec demo_arena 3 = Inr r \<and>
     run_reference_arena (\<lambda>x. FRepr ''0.5'') demo_exec demo_arena 1 = Inr r' \<and>
     escapes (ar_counts r) \<le> escapes (ar_counts r')"
proof -
  obtain r r' where r: "run_reference_arena (\<lambda>x. FRepr ''0.5'') demo_exec demo_arena 3 = Inr r"
    "run_reference_arena (\<lambda>x. FRepr ''0.5'') demo_exec demo_arena 1 = Inr r'"
    using demo_run[of 3] demo_run[of 1] by auto
  have "escapes (ar_counts r) \<le> escapes (ar_counts r')"
    by (rule higher_revisions_escape_less[THEN conjunct1, THEN mp, THEN conjunct1])
      (use r in \<open>auto simp: demo_arena_def\<close>)
  then show ?thesis using r by blast
qed

end
