(* ===== verification/Remediation.thy ===== *)
theory Remediation
  imports Engine
begin

text \<open>
  remediation/model.py and remediation/service.py: an untrusted agent proposes complete file contents
  for an allow-list of paths; the coordinator applies them to a copy and evaluates the copy from
  scratch.  A directory tree is the list of its entries in traversal order.  The evaluator and the
  agent run while the original tree is on disk, so both return, beside their answer, the tree as they
  leave it.  The lemmas: the tree digest is a commitment to names and contents; an applied repair
  changes files of the allow-list only; the source that was repaired is the one that was evaluated;
  and a repaired release carries the verdict of a fresh evaluation of the new tree.
\<close>

section \<open>Trees\<close>

datatype node = FileNode bytes | LinkNode | DirNode

type_synonym tree = "(string list \<times> node) list"

definition posix :: "string list \<Rightarrow> string" where
  "posix parts = join_with ''/'' parts"

definition is_link :: "string list \<times> node \<Rightarrow> bool" where
  "is_link e \<longleftrightarrow> snd e = LinkNode"

fun file_entries :: "tree \<Rightarrow> (string \<times> bytes) list" where
  "file_entries [] = []"
| "file_entries ((p, FileNode d) # t) = (posix p, d) # file_entries t"
| "file_entries (e # t) = file_entries t"

text \<open>\<open>_safe_files\<close>: any link refuses the tree; the files come in the order of their names.\<close>

definition safe_files :: "tree \<Rightarrow> (string \<times> bytes) list res" where
  "safe_files t =
    (case List.find is_link t of
       Some e \<Rightarrow> raise RepairRejected (''repository contains symlink: '' @ posix (fst e))
     | None \<Rightarrow> Inr (sort_key fst (file_entries t)))"

text \<open>\<open>n.to_bytes(k, "big")\<close>.\<close>

fun be_digits :: "nat \<Rightarrow> nat \<Rightarrow> bytes" where
  "be_digits 0 n = []"
| "be_digits (Suc k) n = be_digits k (n div 256) @ [char_of (n mod 256)]"

definition to_bytes :: "nat \<Rightarrow> nat \<Rightarrow> bytes res" where
  "to_bytes k n = (if 256 ^ k \<le> n then raise (UserException ''OverflowError'') ''int too big to convert'' else Inr (be_digits k n))"

definition frame_file :: "string \<times> bytes \<Rightarrow> bytes res" where
  "frame_file = (\<lambda>(rel, data).
     and_then (to_bytes 4 (length rel)) (\<lambda>n. and_then (to_bytes 8 (length data)) (\<lambda>m. Inr (n @ rel @ m @ data))))"

definition tree_sha256 :: "bool \<Rightarrow> tree \<Rightarrow> string res" where
  "tree_sha256 is_dir t =
    (if \<not> is_dir then raise ValueError ''repository root must be a directory''
     else and_then (safe_files t) (\<lambda>files.
          and_then (map_res frame_file files) (\<lambda>frames. Inr (sha256_hex (concat frames)))))"

section \<open>Proposals\<close>

text \<open>\<open>PurePosixPath\<close>: empty and \<open>.\<close> components vanish.\<close>

definition posix_parts :: "string \<Rightarrow> string list" where
  "posix_parts s = filter (\<lambda>c. c \<noteq> '''' \<and> c \<noteq> ''.'') (split_on CHR ''/'' s)"

definition normalize_relpath :: "string \<Rightarrow> string list res" where
  "normalize_relpath raw =
    (let s = map (\<lambda>c. if c = CHR 0x5C then CHR ''/'' else c) raw; parts = posix_parts s in
     if starts_with s ''/'' \<or> parts = [] then raise RepairRejected ''repair path must be relative''
     else if list_ex (\<lambda>p. p = '''' \<or> p = ''.'' \<or> p = ''..'') parts
     then raise RepairRejected (''unsafe repair path: '' @ raw)
     else Inr parts)"

definition max_file_bytes :: nat where "max_file_bytes = 256 * 1024"
definition max_changed_files :: nat where "max_changed_files = 16"

type_synonym changes = "(string \<times> string) list"

fun validate_loop :: "changes \<Rightarrow> string list list \<Rightarrow> (string list \<times> string) list \<Rightarrow> (string list \<times> string) list res" where
  "validate_loop [] allowed acc = Inr acc"
| "validate_loop ((raw_path, content) # rest) allowed acc =
     and_then (normalize_relpath raw_path) (\<lambda>path.
       if path \<notin> set allowed then raise RepairRejected (''agent attempted an unauthorized write: '' @ posix path)
       else if length content > max_file_bytes then raise RepairRejected (''repair exceeds file-size limit: '' @ posix path)
       else validate_loop rest allowed (dict_set path content acc))"

definition validate_changes :: "changes \<Rightarrow> string list list \<Rightarrow> (string list \<times> string) list res" where
  "validate_changes chg allowed =
    (if chg = [] then raise RepairRejected ''agent returned an empty repair''
     else if length chg > max_changed_files then raise RepairRejected ''agent attempted to modify too many files''
     else validate_loop chg allowed [])"

record repair_context =
  rc_release_id :: string
  rc_base_source_sha256 :: string
  rc_findings :: "json list"

record repair_proposal =
  rp_release_id :: string
  rp_base_source_sha256 :: string
  rp_producer_agent_id :: string
  rp_files :: changes
  rp_authority :: string
  rp_proposal_sha256 :: string

definition proposal_authority :: string where
  "proposal_authority = ''PROPOSAL_ONLY''"

definition files_json :: "changes \<Rightarrow> json" where
  "files_json fs = JObj (map (\<lambda>(k, v). (k, JStr v)) fs)"

text \<open>\<open>RepairProposal.__post_init__\<close>: the files in the order of their names, and the digest of the rest.\<close>

definition make_proposal :: "string \<Rightarrow> string \<Rightarrow> string \<Rightarrow> changes \<Rightarrow> string \<Rightarrow> repair_proposal res" where
  "make_proposal release base producer files authority =
    (if files = [] then raise ValueError ''repair proposal must change at least one file''
     else if py_len base \<noteq> 64 then raise ValueError ''base_source_sha256 must be a SHA-256 hex digest''
     else if authority \<noteq> proposal_authority then raise ValueError ''repair proposals cannot acquire decision authority''
     else let sorted = sort_key fst files in Inr
      \<lparr>rp_release_id = release, rp_base_source_sha256 = base, rp_producer_agent_id = producer,
       rp_files = sorted, rp_authority = authority,
       rp_proposal_sha256 = sha256_json (JObj
         [(''release_id'', JStr release), (''base_source_sha256'', JStr base),
          (''producer_agent_id'', JStr producer), (''authority'', JStr authority),
          (''files'', files_json sorted)])\<rparr>)"

definition proposal_to_dict :: "repair_proposal \<Rightarrow> json" where
  "proposal_to_dict p = JObj
    [(''release_id'', JStr (rp_release_id p)),
     (''base_source_sha256'', JStr (rp_base_source_sha256 p)),
     (''producer_agent_id'', JStr (rp_producer_agent_id p)),
     (''authority'', JStr (rp_authority p)),
     (''files'', files_json (rp_files p)),
     (''proposal_sha256'', JStr (rp_proposal_sha256 p))]"

section \<open>Applying a proposal\<close>

text \<open>
  \<open>mkdir(parents=True, exist_ok=True)\<close> and \<open>write_text\<close> below the copy: a file among the parents, or a
  directory in the place of the file, is an OSError.
\<close>

definition parents :: "string list \<Rightarrow> string list list" where
  "parents p = map (\<lambda>n. take n p) [1..<length p]"

definition make_dirs :: "string list \<Rightarrow> tree \<Rightarrow> tree" where
  "make_dirs p t = t @ map (\<lambda>d. (d, DirNode)) (filter (\<lambda>d. map_of t d = None) (parents p))"

definition is_file :: "node option \<Rightarrow> bool" where
  "is_file n \<longleftrightarrow> (case n of Some (FileNode d) \<Rightarrow> True | _ \<Rightarrow> False)"

definition write_text :: "string list \<Rightarrow> string \<Rightarrow> tree \<Rightarrow> tree res" where
  "write_text p content t =
    (if map_of t p = Some LinkNode then raise RepairRejected (''agent attempted to replace a symlink: '' @ posix p)
     else if list_ex (\<lambda>d. is_file (map_of t d)) (parents p) then raise OSError ''Not a directory''
     else if map_of t p = Some DirNode then raise OSError ''Is a directory''
     else Inr (dict_set p (FileNode content) (make_dirs p t)))"

fun write_all :: "(string list \<times> string) list \<Rightarrow> tree \<Rightarrow> tree res" where
  "write_all [] t = Inr t"
| "write_all ((p, content) # rest) t = and_then (write_text p content t) (write_all rest)"

text \<open>
  \<open>materialize_repair\<close>: the new tree and its digest.  The target of a write is resolved inside the copy;
  as the copy has no links, it is the path itself and stays below the staging root.
\<close>

definition materialize_repair :: "tree \<Rightarrow> bool \<Rightarrow> repair_proposal \<Rightarrow> string list \<Rightarrow> (tree \<times> string) res" where
  "materialize_repair src dst_exists proposal allowed_paths =
     and_then (map_res normalize_relpath allowed_paths) (\<lambda>allowed.
     and_then (tree_sha256 True src) (\<lambda>current.
       if current \<noteq> rp_base_source_sha256 proposal
       then raise RepairRejected ''proposal base digest does not match current source'' else
     and_then (validate_changes (rp_files proposal) allowed) (\<lambda>chg.
       if dst_exists then raise RepairRejected ''repair destination must not already exist'' else
     and_then (safe_files src) (\<lambda>_.
     and_then (write_all chg src) (\<lambda>dst.
     and_then (tree_sha256 True dst) (\<lambda>repaired.
       if repaired = rp_base_source_sha256 proposal then raise RepairRejected ''repair produced no source change''
       else Inr (dst, repaired)))))))"

section \<open>The coordinator\<close>

type_synonym tree_evaluator = "string \<Rightarrow> string option \<Rightarrow> tree \<Rightarrow> release_report res \<times> tree"
type_synonym remediator = "repair_context \<Rightarrow> tree \<Rightarrow> changes res \<times> tree"

record coordinator =
  co_producer_agent_id :: string
  co_allowed_paths :: "string list list"

definition make_coordinator :: "string \<Rightarrow> string list \<Rightarrow> coordinator res" where
  "make_coordinator producer allowed_paths =
     and_then (map_res normalize_relpath allowed_paths) (\<lambda>allowed.
       if allowed = [] then raise ValueError ''remediation requires an explicit non-empty write allowlist''
       else Inr \<lparr>co_producer_agent_id = producer, co_allowed_paths = allowed\<rparr>)"

record remediation_outcome =
  ro_release_id :: string
  ro_original_source_sha256 :: string
  ro_repaired_source_sha256 :: "string option"
  ro_before :: release_report
  ro_after :: "release_report option"
  ro_proposal :: "repair_proposal option"
  ro_reevaluated_from_scratch :: bool

definition outcome_to_dict :: "remediation_outcome \<Rightarrow> json" where
  "outcome_to_dict r = JObj
    [(''release_id'', JStr (ro_release_id r)),
     (''original_source_sha256'', JStr (ro_original_source_sha256 r)),
     (''repaired_source_sha256'', opt_str (ro_repaired_source_sha256 r)),
     (''before'', report_to_dict (ro_before r)),
     (''after'', case ro_after r of None \<Rightarrow> JNull | Some x \<Rightarrow> report_to_dict x),
     (''proposal'', case ro_proposal r of None \<Rightarrow> JNull | Some p \<Rightarrow> proposal_to_dict p),
     (''reevaluated_from_scratch'', JBool (ro_reevaluated_from_scratch r))]"

definition posix_changes :: "(string list \<times> string) list \<Rightarrow> changes" where
  "posix_changes = map (\<lambda>(p, c). (posix p, c))"

definition coordinator_run ::
    "coordinator \<Rightarrow> tree_evaluator \<Rightarrow> remediator \<Rightarrow> string \<Rightarrow> string option \<Rightarrow> tree \<Rightarrow> remediation_outcome res" where
  "coordinator_run co evaluator remediate release commit_sha t0 =
     and_then (tree_sha256 True t0) (\<lambda>original_sha.
       let (before, t1) = evaluator release commit_sha t0 in
     and_then before (\<lambda>before.
       if rr_decision before = GO
       then Inr \<lparr>ro_release_id = release, ro_original_source_sha256 = original_sha, ro_repaired_source_sha256 = None,
                 ro_before = before, ro_after = None, ro_proposal = None, ro_reevaluated_from_scratch = False\<rparr>
       else
         let (raw_changes, t2) = remediate
               \<lparr>rc_release_id = release, rc_base_source_sha256 = original_sha,
                rc_findings = advisory_projection (rr_findings before)\<rparr> t1 in
     and_then raw_changes (\<lambda>raw.
     and_then (validate_changes raw (co_allowed_paths co)) (\<lambda>chg.
     and_then (make_proposal release original_sha (co_producer_agent_id co) (posix_changes chg) proposal_authority) (\<lambda>proposal.
     and_then (materialize_repair t2 False proposal (map posix (co_allowed_paths co))) (\<lambda>(staged, repaired_sha).
     and_then (fst (evaluator (release @ ''-repair-'' @ take 12 repaired_sha) commit_sha staged)) (\<lambda>after.
       Inr \<lparr>ro_release_id = release, ro_original_source_sha256 = original_sha,
            ro_repaired_source_sha256 = Some repaired_sha, ro_before = before, ro_after = Some after,
            ro_proposal = Some proposal, ro_reevaluated_from_scratch = True\<rparr>)))))))"

section \<open>Lemmas: the tree digest\<close>

lemma be_digits_length [simp]: "length (be_digits k n) = k"
  by (induction k arbitrary: n) auto

lemma be_digits_inj: "be_digits k m = be_digits k n \<Longrightarrow> m < 256 ^ k \<Longrightarrow> n < 256 ^ k \<Longrightarrow> m = n"
proof (induction k arbitrary: m n)
  case (Suc k)
  then have "be_digits k (m div 256) = be_digits k (n div 256)" and c: "(char_of (m mod 256) :: char) = char_of (n mod 256)"
    by simp_all
  moreover have "m div 256 < 256 ^ k" "n div 256 < 256 ^ k" using Suc.prems by (auto intro: less_mult_imp_div_less simp: mult.commute)
  ultimately have "m div 256 = n div 256" using Suc.IH by blast
  moreover have "m mod 256 = n mod 256"
    using arg_cong[OF c, of "of_char :: char \<Rightarrow> nat"] by simp
  ultimately show ?case by (metis div_mult_mod_eq)
qed simp

lemma to_bytes_Inr: "to_bytes k n = Inr x \<longleftrightarrow> n < 256 ^ k \<and> x = be_digits k n"
  by (auto simp: to_bytes_def)

text \<open>Frames are uniquely readable: the lengths come first.\<close>

lemma frame_prefix:
  assumes "frame_file f = Inr x" "frame_file g = Inr y" "x @ r = y @ s"
  shows "f = g \<and> r = s"
proof -
  obtain p d q e where fg: "f = (p, d)" "g = (q, e)" by (cases f, cases g)
  then have x: "x = be_digits 4 (length p) @ p @ be_digits 8 (length d) @ d" "length p < 256 ^ 4" "length d < 256 ^ 8"
    and y: "y = be_digits 4 (length q) @ q @ be_digits 8 (length e) @ e" "length q < 256 ^ 4" "length e < 256 ^ 8"
    using assms(1,2) by (auto simp: frame_file_def and_then_Inr to_bytes_Inr)
  have "be_digits 4 (length p) = be_digits 4 (length q)"
    and 1: "p @ be_digits 8 (length d) @ d @ r = q @ be_digits 8 (length e) @ e @ s"
    using assms(3) unfolding x(1) y(1) by (simp_all add: append_eq_append_conv)
  then have "length p = length q" using be_digits_inj x(2) y(2) by blast
  then have p: "p = q" and 2: "be_digits 8 (length d) @ d @ r = be_digits 8 (length e) @ e @ s"
    using 1 by (simp_all add: append_eq_append_conv)
  then have "be_digits 8 (length d) = be_digits 8 (length e)" and 3: "d @ r = e @ s"
    by (simp_all add: append_eq_append_conv)
  then have "length d = length e" using be_digits_inj x(3) y(3) by blast
  then have "d = e" "r = s" using 3 by (simp_all add: append_eq_append_conv)
  then show ?thesis using p fg by simp
qed

lemma frame_nonempty: "frame_file f = Inr x \<Longrightarrow> x \<noteq> []"
  by (cases f) (auto simp: frame_file_def and_then_Inr to_bytes_Inr simp del: be_digits.simps dest: arg_cong[of _ _ length])

lemma frames_inj:
  "map_res frame_file fs = Inr xs \<Longrightarrow> map_res frame_file gs = Inr ys \<Longrightarrow> concat xs = concat ys \<Longrightarrow> fs = gs"
proof (induction fs arbitrary: xs gs ys)
  case Nil
  then show ?case using frame_nonempty by (cases gs) (auto simp: and_then_Inr)
next
  case (Cons f fs)
  obtain x xs' where x: "frame_file f = Inr x" "map_res frame_file fs = Inr xs'" "xs = x # xs'"
    using Cons.prems(1) by (auto simp: and_then_Inr)
  show ?case
  proof (cases gs)
    case Nil
    then show ?thesis using Cons.prems frame_nonempty x by auto
  next
    case (Cons g gs')
    then obtain y ys' where y: "frame_file g = Inr y" "map_res frame_file gs' = Inr ys'" "ys = y # ys'"
      using Cons.prems(2) by (auto simp: and_then_Inr)
    have "f = g \<and> concat xs' = concat ys'" using frame_prefix[OF x(1) y(1)] Cons.prems(3) x(3) y(3) by simp
    then show ?thesis using Cons.IH[OF x(2) y(2)] Cons by simp
  qed
qed

lemma tree_sha256_Inr:
  "tree_sha256 b t = Inr h \<Longrightarrow> List.find is_link t = None \<and>
   (\<exists>frames. map_res frame_file (sort_key fst (file_entries t)) = Inr frames \<and> h = sha256_hex (concat frames))"
  by (auto simp: tree_sha256_def safe_files_def and_then_Inr split: if_splits option.splits)

text \<open>The text the digest of a tree is taken of.\<close>

definition tree_text :: "tree \<Rightarrow> bytes" where
  "tree_text t = (case map_res frame_file (sort_key fst (file_entries t)) of Inr frames \<Rightarrow> concat frames | Inl e \<Rightarrow> [])"

lemma tree_sha256_binding:
  assumes "tree_sha256 b t = Inr h" "tree_sha256 b' t' = Inr h"
  shows "sort_key fst (file_entries t) = sort_key fst (file_entries t') \<or> sha_collision (tree_text t) (tree_text t')"
proof -
  from tree_sha256_Inr[OF assms(1)] obtain xs where x: "map_res frame_file (sort_key fst (file_entries t)) = Inr xs"
    "h = sha256_hex (concat xs)" by blast
  from tree_sha256_Inr[OF assms(2)] obtain ys where y: "map_res frame_file (sort_key fst (file_entries t')) = Inr ys"
    "h = sha256_hex (concat ys)" by blast
  have "tree_text t = concat xs" "tree_text t' = concat ys" using x(1) y(1) by (simp_all add: tree_text_def)
  then show ?thesis using sha256_hex_inj[of "concat xs" "concat ys"] x(2) y(2) frames_inj[OF x(1) y(1)] by auto
qed

section \<open>Lemmas: writing\<close>

definition file_at :: "tree \<Rightarrow> string list \<Rightarrow> bytes option" where
  "file_at t p = (case map_of t p of Some (FileNode d) \<Rightarrow> Some d | _ \<Rightarrow> None)"

lemma map_of_make_dirs:
  "map_of (make_dirs p t) q =
    (case map_of t q of Some n \<Rightarrow> Some n | None \<Rightarrow> if q \<in> set (parents p) then Some DirNode else None)"
proof -
  have "map_of (map (\<lambda>d. (d, DirNode)) ds) q = (if q \<in> set ds then Some DirNode else None)" for ds
    by (induction ds) auto
  then show ?thesis by (auto simp: make_dirs_def map_add_def split: option.splits)
qed

lemma write_text_file_at:
  "write_text p c t = Inr t' \<Longrightarrow> file_at t' q = (if q = p then Some c else file_at t q)"
  by (auto simp: write_text_def file_at_def map_of_make_dirs split: if_splits option.splits)

lemma write_all_file_at:
  "write_all chg t = Inr t' \<Longrightarrow> distinct (map fst chg) \<Longrightarrow>
   file_at t' q = (case map_of chg q of Some c \<Rightarrow> Some c | None \<Rightarrow> file_at t q)"
proof (induction chg arbitrary: t)
  case (Cons pc chg)
  obtain p c where pc: "pc = (p, c)" by (cases pc)
  then obtain t1 where t1: "write_text p c t = Inr t1" "write_all chg t1 = Inr t'"
    using Cons.prems(1) by (auto simp: and_then_Inr)
  have "map_of chg p = None" using Cons.prems(2) pc by (simp add: map_of_eq_None_iff)
  then show ?case
    using Cons.IH[OF t1(2)] Cons.prems(2) write_text_file_at[OF t1(1), of q] by (cases "q = p") (simp_all add: pc split: option.split)
qed simp

lemma validate_loop_Inr:
  "validate_loop chg allowed acc = Inr r \<Longrightarrow> distinct (map fst acc) \<Longrightarrow> fst ` set acc \<subseteq> set allowed \<Longrightarrow>
   distinct (map fst r) \<and> fst ` set r \<subseteq> set allowed"
proof (induction chg allowed acc rule: validate_loop.induct)
  case (2 raw content rest allowed acc)
  then obtain path where p: "normalize_relpath raw = Inr path" "path \<in> set allowed" "\<not> length content > max_file_bytes"
    "validate_loop rest allowed (dict_set path content acc) = Inr r"
    by (auto simp: and_then_Inr split: if_splits)
  show ?case by (rule "2.IH"[OF _ p(3,4)]) (use p(2) "2.prems"(2,3) in \<open>simp_all add: distinct_dict_set\<close>)
qed simp

text \<open>What a proposal says of a path: the last content it names for any spelling of it.\<close>

definition last_proposed :: "changes \<Rightarrow> string list \<Rightarrow> string option" where
  "last_proposed chg p = map_of (rev (map (\<lambda>(raw, content). (normalize_relpath raw, content)) chg)) (Inr p)"

lemma last_proposed_simps:
  "last_proposed [] p = None"
  "last_proposed ((raw, content) # rest) p =
    (case last_proposed rest p of Some c \<Rightarrow> Some c | None \<Rightarrow> if normalize_relpath raw = Inr p then Some content else None)"
  by (auto simp: last_proposed_def map_add_def split: option.split)

lemma validate_loop_contents:
  "validate_loop chg allowed acc = Inr r \<Longrightarrow>
   map_of r p = (case last_proposed chg p of Some c \<Rightarrow> Some c | None \<Rightarrow> map_of acc p) \<and>
   (\<forall>raw content. (raw, content) \<in> set chg \<longrightarrow>
     (\<exists>q. normalize_relpath raw = Inr q \<and> q \<in> set allowed) \<and> length content \<le> max_file_bytes)"
proof (induction chg allowed acc rule: validate_loop.induct)
  case (2 raw content rest allowed acc)
  then obtain path where q: "normalize_relpath raw = Inr path" "path \<in> set allowed" "\<not> length content > max_file_bytes"
    "validate_loop rest allowed (dict_set path content acc) = Inr r"
    by (auto simp: and_then_Inr split: if_splits)
  then show ?case using "2.IH"[OF _ q(3,4)] by (auto simp: last_proposed_simps split: option.splits)
qed (simp add: last_proposed_simps)

lemma validate_changes_Inr:
  assumes "validate_changes chg allowed = Inr r"
  shows "distinct (map fst r) \<and> fst ` set r \<subseteq> set allowed \<and> length chg \<le> 16 \<and> chg \<noteq> [] \<and>
    (\<forall>raw content. (raw, content) \<in> set chg \<longrightarrow>
      (\<exists>q. normalize_relpath raw = Inr q \<and> q \<in> set allowed) \<and> length content \<le> 256 * 1024)"
    and "map_of r = last_proposed chg"
proof -
  have v: "validate_loop chg allowed [] = Inr r" "chg \<noteq> []" "length chg \<le> 16"
    using assms by (auto simp: validate_changes_def max_changed_files_def split: if_splits)
  show "distinct (map fst r) \<and> fst ` set r \<subseteq> set allowed \<and> length chg \<le> 16 \<and> chg \<noteq> [] \<and>
    (\<forall>raw content. (raw, content) \<in> set chg \<longrightarrow>
      (\<exists>q. normalize_relpath raw = Inr q \<and> q \<in> set allowed) \<and> length content \<le> 256 * 1024)"
    using validate_loop_Inr[OF v(1)] validate_loop_contents[OF v(1)] v(2,3) by (auto simp: max_file_bytes_def)
  show "map_of r = last_proposed chg"
    using validate_loop_contents[OF v(1)] by (auto split: option.split)
qed

lemma materialize_repair_Inr:
  assumes "materialize_repair src ex proposal allowed_paths = Inr (dst, h)" "map_res normalize_relpath allowed_paths = Inr allowed"
  shows "\<exists>chg. validate_changes (rp_files proposal) allowed = Inr chg \<and> write_all chg src = Inr dst \<and>
    tree_sha256 True src = Inr (rp_base_source_sha256 proposal) \<and> tree_sha256 True dst = Inr h \<and>
    h \<noteq> rp_base_source_sha256 proposal \<and>
    (\<forall>p. file_at dst p = (case map_of chg p of Some c \<Rightarrow> Some c | None \<Rightarrow> file_at src p)) \<and> fst ` set chg \<subseteq> set allowed"
proof -
  obtain chg where chg: "validate_changes (rp_files proposal) allowed = Inr chg" "write_all chg src = Inr dst"
    "tree_sha256 True src = Inr (rp_base_source_sha256 proposal)" "tree_sha256 True dst = Inr h"
    "h \<noteq> rp_base_source_sha256 proposal"
    using assms by (auto simp: materialize_repair_def and_then_Inr split: if_splits)
  then show ?thesis using write_all_file_at[OF chg(2)] validate_changes_Inr(1)[OF chg(1)] by blast
qed

section \<open>Lemmas: the coordinator\<close>

lemma filter_split_replace:
  assumes "p = filter (\<lambda>c. c \<noteq> '''' \<and> c \<noteq> ''.'') (split_on CHR ''/'' s)" "p \<noteq> []" "CHR 0x5C \<notin> set s"
  shows "posix_parts (posix p) = p" "\<not> starts_with (posix p) ''/''" "CHR 0x5C \<notin> set (posix p)"
proof -
  have c: "c \<noteq> ''''" "c \<noteq> ''.''" "CHR ''/'' \<notin> set c" "CHR 0x5C \<notin> set c" if mem: "c \<in> set p" for c
  proof -
    have "c \<in> set (split_on CHR ''/'' s)" using mem assms(1) by simp
    then show "CHR ''/'' \<notin> set c" by (rule split_on_no_sep)
    have "set c \<subseteq> set (join_with ''/'' (split_on CHR ''/'' s))" if m: "c \<in> set ws" "ws = split_on CHR ''/'' s" for ws
    proof -
      have "set c \<subseteq> set (join_with ''/'' ws)" using m(1) by (induction ws rule: induct_list012) auto
      then show ?thesis using m(2) by simp
    qed
    then show "CHR 0x5C \<notin> set c" using \<open>c \<in> set (split_on CHR ''/'' s)\<close> assms(3) by auto
    show "c \<noteq> ''''" "c \<noteq> ''.''" using mem assms(1) by auto
  qed
  have "split_on CHR ''/'' (posix p) = p" unfolding posix_def by (rule split_join_noslash) (use assms(2) c in auto)
  then show "posix_parts (posix p) = p" using c by (simp add: posix_parts_def filter_id_conv)
  have sub: "set (join_with ''/'' ws) \<subseteq> insert CHR ''/'' (\<Union>w\<in>set ws. set w)" for ws
    by (induction ws rule: induct_list012) auto
  show "CHR 0x5C \<notin> set (posix p)" using sub[of p] c unfolding posix_def by auto
  obtain d ds where p: "p = d # ds" using assms(2) by (cases p) auto
  then obtain x xs where "d = x # xs" "x \<noteq> CHR ''/''" using c[of d] by (cases d) auto
  then show "\<not> starts_with (posix p) ''/''" by (cases ds) (simp_all add: posix_def p)
qed

lemma normalize_posix: "normalize_relpath raw = Inr p \<Longrightarrow> normalize_relpath (posix p) = Inr p"
proof -
  assume n: "normalize_relpath raw = Inr p"
  let ?s = "map (\<lambda>c. if c = CHR 0x5C then CHR ''/'' else c) raw"
  have p: "p = posix_parts ?s" "p \<noteq> []" "\<not> list_ex (\<lambda>p. p = '''' \<or> p = ''.'' \<or> p = ''..'') p"
    using n by (auto simp: normalize_relpath_def Let_def split: if_splits)
  have "CHR 0x5C \<notin> set ?s" by auto
  note q = filter_split_replace[OF p(1)[unfolded posix_parts_def] p(2) this]
  have "map (\<lambda>c. if c = CHR 0x5C then CHR ''/'' else c) (posix p) = posix p"
    using q(3) by (induction "posix p" rule: list.induct) (auto intro: map_idI)
  then show ?thesis using q p(2,3) by (simp add: normalize_relpath_def Let_def)
qed

lemma make_coordinator_allowed:
  "make_coordinator producer ps = Inr co \<Longrightarrow>
   map_res normalize_relpath (map posix (co_allowed_paths co)) = Inr (co_allowed_paths co) \<and> co_allowed_paths co \<noteq> []"
proof -
  assume "make_coordinator producer ps = Inr co"
  then have "map_res normalize_relpath ps = Inr (co_allowed_paths co)" "co_allowed_paths co \<noteq> []"
    by (auto simp: make_coordinator_def and_then_Inr split: if_splits)
  moreover from this(1) have "list_all (\<lambda>p. normalize_relpath (posix p) = Inr p) (co_allowed_paths co)"
    using normalize_posix by (fastforce simp: map_res_Inr list_all2_conv_all_nth list_all_length)
  ultimately show ?thesis by (simp add: map_res_Inr list_all2_conv_all_nth list_all_length)
qed

lemma coordinator_run_Inr:
  assumes "make_coordinator producer ps = Inr co" "coordinator_run co evaluator remediate release sha t0 = Inr r"
    and "rr_decision (ro_before r) \<noteq> GO"
  shows "\<exists>t2 staged h after.
    tree_sha256 True t0 = Inr (ro_original_source_sha256 r) \<and> tree_sha256 True t2 = Inr (ro_original_source_sha256 r) \<and>
    tree_sha256 True staged = Inr h \<and> h \<noteq> ro_original_source_sha256 r \<and> ro_repaired_source_sha256 r = Some h \<and>
    (\<forall>p. p \<notin> set (co_allowed_paths co) \<longrightarrow> file_at staged p = file_at t2 p) \<and>
    fst (evaluator (release @ ''-repair-'' @ take 12 h) sha staged) = Inr after \<and> ro_after r = Some after \<and>
    ro_reevaluated_from_scratch r"
proof -
  obtain h0 where h0: "tree_sha256 True t0 = Inr h0"
    using assms(2) by (auto simp: coordinator_run_def and_then_Inr)
  obtain first t1 where e: "evaluator release sha t0 = (first, t1)" by (cases "evaluator release sha t0")
  obtain before where b: "first = Inr before"
    using assms(2) h0 e by (auto simp: coordinator_run_def and_then_Inr)
  have ng: "rr_decision before \<noteq> GO"
    using assms(2,3) h0 e b by (auto simp: coordinator_run_def)
  let ?c = "\<lparr>rc_release_id = release, rc_base_source_sha256 = h0, rc_findings = advisory_projection (rr_findings before)\<rparr>"
  obtain answer t2 where rem: "remediate ?c t1 = (answer, t2)" by (cases "remediate ?c t1")
  obtain chg proposal staged h after where
    m: "materialize_repair t2 False proposal (map posix (co_allowed_paths co)) = Inr (staged, h)"
    and p: "make_proposal release h0 (co_producer_agent_id co) (posix_changes chg) proposal_authority = Inr proposal"
    and a: "fst (evaluator (release @ ''-repair-'' @ take 12 h) sha staged) = Inr after"
    and r: "r = \<lparr>ro_release_id = release, ro_original_source_sha256 = h0,
            ro_repaired_source_sha256 = Some h, ro_before = before, ro_after = Some after,
            ro_proposal = Some proposal, ro_reevaluated_from_scratch = True\<rparr>"
    using assms(2) ng by (auto simp: coordinator_run_def and_then_Inr h0 e b rem)
  have base: "rp_base_source_sha256 proposal = h0"
    using p by (auto simp: make_proposal_def Let_def split: if_splits)
  from materialize_repair_Inr[OF m make_coordinator_allowed[OF assms(1), THEN conjunct1]] obtain chg' where
    "tree_sha256 True t2 = Inr h0" "tree_sha256 True staged = Inr h" "h \<noteq> h0"
    "\<forall>p. file_at staged p = (case map_of chg' p of Some c \<Rightarrow> Some c | None \<Rightarrow> file_at t2 p)"
    "fst ` set chg' \<subseteq> set (co_allowed_paths co)"
    unfolding base by blast
  moreover from this(4,5) have "\<forall>p. p \<notin> set (co_allowed_paths co) \<longrightarrow> file_at staged p = file_at t2 p"
    by (auto simp: map_of_eq_None_iff subset_iff split: option.splits) (metis map_of_SomeD fst_conv image_eqI)
  ultimately show ?thesis using h0 a by (intro exI[of _ t2] exI[of _ staged] exI[of _ h] exI[of _ after]) (simp add: r)
qed

end
