(* ===== verification/Rebuild.thy ===== *)
theory Rebuild
  imports Remediation "HOL-Library.Product_Lexorder"
begin

text \<open>
  rebuild/model.py and rebuild/service.py: a bundle of file proposals and the writer that commits it to
  an empty workspace against pinned digests.  The writer returns its result and the workspace as it
  leaves it.  The lemmas: a refused bundle writes nothing; a committed one writes exactly the proposed
  files, none of them in the control directory; the pin is compared with the digest the bundle
  carries, which the writer does not recompute.
\<close>

section \<open>Bundles\<close>

record file_proposal =
  fp_agent :: string
  fp_path :: string
  fp_content :: string
  fp_purpose :: string

definition file_proposal_dict :: "file_proposal \<Rightarrow> json" where
  "file_proposal_dict p = JObj
    [(''agent'', JStr (fp_agent p)), (''path'', JStr (fp_path p)),
     (''content'', JStr (fp_content p)), (''purpose'', JStr (fp_purpose p))]"

record proposal_bundle =
  pb_proposals :: "file_proposal list"
  pb_sha256 :: string

definition bundle_digest :: "file_proposal list \<Rightarrow> string" where
  "bundle_digest ps = sha256_json (JList (map file_proposal_dict (sort_key (\<lambda>p. (fp_path p, fp_agent p)) ps)))"

definition build_bundle :: "file_proposal list \<Rightarrow> proposal_bundle" where
  "build_bundle ps = \<lparr>pb_proposals = ps, pb_sha256 = bundle_digest ps\<rparr>"

record rebuild_baseline =
  rb_source_sha256 :: string
  rb_reference_sha256 :: string

text \<open>\<open>fingerprint_tree\<close>: files below a \<open>.git\<close> component of their full path are left out.\<close>

definition fingerprint_tree :: "nat \<Rightarrow> fixture_file list \<Rightarrow> string" where
  "fingerprint_tree depth files = sha256_hex (concat (map
     (\<lambda>f. join_with ''/'' (drop depth (fx_parts f)) @ [CHR 0x00] @ fx_bytes f @ [CHR 0x00])
     (sort_key fx_parts (filter (\<lambda>f. ''.git'' \<notin> set (fx_parts f)) files))))"

section \<open>The writer\<close>

definition control_directory :: string where
  "control_directory = ''.release-sentinel''"

fun check_proposals :: "file_proposal list \<Rightarrow> string list set \<Rightarrow> unit res" where
  "check_proposals [] seen = Inr ()"
| "check_proposals (p # ps) seen =
    (let parts = posix_parts (fp_path p) in
     if starts_with (fp_path p) ''/'' \<or> ''..'' \<in> set parts \<or> parts = [] \<or> hd parts = control_directory
     then raise RebuildError ''proposal path is outside writable candidate namespace''
     else if parts \<in> seen then raise RebuildError ''duplicate proposal path''
     else check_proposals ps (insert parts seen))"

text \<open>A write that fails ends the loop and leaves the earlier files in the workspace.\<close>

fun write_proposals :: "file_proposal list \<Rightarrow> tree \<Rightarrow> unit res \<times> tree" where
  "write_proposals [] t = (Inr (), t)"
| "write_proposals (p # ps) t =
    (case write_text (posix_parts (fp_path p)) (fp_content p) t of
       Inl e \<Rightarrow> (Inl e, t)
     | Inr t' \<Rightarrow> write_proposals ps t')"

definition writer_apply ::
    "tree \<Rightarrow> proposal_bundle \<Rightarrow> rebuild_baseline \<Rightarrow> string \<Rightarrow> string \<Rightarrow> string \<Rightarrow> nat res \<times> tree" where
  "writer_apply target bundle baseline pinned_source pinned_reference pinned_bundle =
    (if target \<noteq> [] then (raise RebuildError ''candidate workspace must start empty'', target)
     else if pinned_source \<noteq> rb_source_sha256 baseline then (raise RebuildError ''source baseline pin mismatch'', target)
     else if pinned_reference \<noteq> rb_reference_sha256 baseline then (raise RebuildError ''reference pin mismatch'', target)
     else if pinned_bundle \<noteq> pb_sha256 bundle then (raise RebuildError ''proposal bundle pin mismatch'', target)
     else case check_proposals (pb_proposals bundle) {} of
       Inl e \<Rightarrow> (Inl e, target)
     | Inr _ \<Rightarrow>
         (case write_proposals (pb_proposals bundle) target of
            (Inl e, t) \<Rightarrow> (Inl e, t)
          | (Inr _, t) \<Rightarrow> (Inr (length (pb_proposals bundle)), t)))"

section \<open>Lemmas\<close>

lemma check_proposals_Inr:
  "check_proposals ps seen = Inr () \<Longrightarrow>
   distinct (map (posix_parts \<circ> fp_path) ps) \<and> (posix_parts \<circ> fp_path) ` set ps \<inter> seen = {} \<and>
   (\<forall>p\<in>set ps. posix_parts (fp_path p) \<noteq> [] \<and> ''..'' \<notin> set (posix_parts (fp_path p)) \<and>
      hd (posix_parts (fp_path p)) \<noteq> control_directory)"
proof (induction ps seen rule: check_proposals.induct)
  case (2 p ps seen)
  let ?q = "posix_parts (fp_path p)"
  have ok: "\<not> (starts_with (fp_path p) ''/'' \<or> ''..'' \<in> set ?q \<or> ?q = [] \<or> hd ?q = control_directory)" "?q \<notin> seen"
    "check_proposals ps (insert ?q seen) = Inr ()"
    using "2.prems" unfolding check_proposals.simps Let_def by (meson raise_simps(1))+
  from "2.IH"[OF refl ok] show ?case using ok(1,2) by auto
qed simp

lemma check_proposals_error: "check_proposals ps seen = Inl e \<Longrightarrow> fst e = RebuildError"
  by (induction ps seen rule: check_proposals.induct) (auto simp: Let_def split: if_splits)

lemma write_proposals_file_at:
  "write_proposals ps t = (Inr (), t') \<Longrightarrow> distinct (map (posix_parts \<circ> fp_path) ps) \<Longrightarrow>
   file_at t' q = (case List.find (\<lambda>p. posix_parts (fp_path p) = q) ps of Some p \<Rightarrow> Some (fp_content p) | None \<Rightarrow> file_at t q)"
proof (induction ps arbitrary: t)
  case (Cons p ps)
  then obtain t1 where t1: "write_text (posix_parts (fp_path p)) (fp_content p) t = Inr t1" "write_proposals ps t1 = (Inr (), t')"
    by (auto split: sum.splits)
  have "(posix_parts \<circ> fp_path) p \<notin> (posix_parts \<circ> fp_path) ` set ps"
    using Cons.prems(2) by simp
  then have "\<not> (\<exists>x. x \<in> set ps \<and> posix_parts (fp_path x) = posix_parts (fp_path p))"
    unfolding image_def by auto
  then have "q = posix_parts (fp_path p) \<Longrightarrow> List.find (\<lambda>p. posix_parts (fp_path p) = q) ps = None"
    by (simp add: find_None_iff)
  then show ?case
    using Cons.IH[OF t1(2)] Cons.prems(2) write_text_file_at[OF t1(1), of q]
    by (cases "q = posix_parts (fp_path p)") (auto split: option.split)
qed simp

lemma writer_apply_Inr:
  assumes "writer_apply target bundle baseline ps pr pb = (Inr n, t)"
  shows "target = [] \<and> ps = rb_source_sha256 baseline \<and> pr = rb_reference_sha256 baseline \<and> pb = pb_sha256 bundle \<and>
    n = length (pb_proposals bundle) \<and> check_proposals (pb_proposals bundle) {} = Inr () \<and>
    write_proposals (pb_proposals bundle) [] = (Inr (), t)"
  using assms by (auto simp: writer_apply_def split: if_splits sum.splits prod.splits)

lemma writer_refusal:
  "writer_apply target bundle baseline ps pr pb = (Inl e, t) \<Longrightarrow> fst e = RebuildError \<Longrightarrow>
   (\<And>p c t e. write_text p c t = Inl e \<Longrightarrow> fst e \<noteq> RebuildError) \<Longrightarrow> t = target"
proof -
  assume a: "writer_apply target bundle baseline ps pr pb = (Inl e, t)" and e: "fst e = RebuildError"
    and w: "\<And>p c t e. write_text p c t = Inl e \<Longrightarrow> fst e \<noteq> RebuildError"
  have "write_proposals qs u = (Inl e, u') \<Longrightarrow> fst e \<noteq> RebuildError" for qs u u'
    using w by (induction qs u rule: write_proposals.induct) (auto split: sum.splits)
  then show "t = target" using a e by (auto simp: writer_apply_def split: if_splits sum.splits prod.splits)
qed

lemma write_text_no_rebuild_error: "write_text p c t = Inl e \<Longrightarrow> fst e \<noteq> RebuildError"
  by (auto simp: write_text_def split: if_splits)

end
