(* ===== verification/Sha256_Vectors.thy ===== *)
theory Sha256_Vectors
  imports Sha256
begin

text \<open>
  A bit-serial computation of SHA-256 that the simplifier can run: a word is the list of its bits,
  least significant first.  It is proved equal to the word-level definition of \<open>Sha256\<close>, and with it
  the test vectors of FIPS 180-4 are theorems, and so are the digests the examples need.
\<close>

section \<open>Words as bit lists\<close>

definition bits :: "u32 \<Rightarrow> bool list" where
  "bits w = map (bit w) [0..<32]"

fun xors :: "bool list \<Rightarrow> bool list \<Rightarrow> bool list" where
  "xors (a # as) (b # bs) = (a = (\<not> b)) # xors as bs"
| "xors _ _ = []"

fun choose_bits :: "bool list \<Rightarrow> bool list \<Rightarrow> bool list \<Rightarrow> bool list" where
  "choose_bits (a # as) (b # bs) (c # cs) = (if a then b else c) # choose_bits as bs cs"
| "choose_bits _ _ _ = []"

fun majority_bits :: "bool list \<Rightarrow> bool list \<Rightarrow> bool list \<Rightarrow> bool list" where
  "majority_bits (a # as) (b # bs) (c # cs) = (if a then b \<or> c else b \<and> c) # majority_bits as bs cs"
| "majority_bits _ _ _ = []"

fun add_bits :: "bool \<Rightarrow> bool list \<Rightarrow> bool list \<Rightarrow> bool list" where
  "add_bits c (a # as) (b # bs) =
     (if c then (a = b) # add_bits (a \<or> b) as bs else (a = (\<not> b)) # add_bits (a \<and> b) as bs)"
| "add_bits _ _ _ = []"

definition ror_bits :: "nat \<Rightarrow> bool list \<Rightarrow> bool list" where
  "ror_bits n as = drop n as @ take n as"

definition shr_bits :: "nat \<Rightarrow> bool list \<Rightarrow> bool list" where
  "shr_bits n as = drop n as @ replicate n False"

lemma length_bits [simp]: "length (bits w) = 32"
  by (simp add: bits_def)

lemma nth_bits [simp]: "i < 32 \<Longrightarrow> bits w ! i = bit w i"
  by (simp add: bits_def)

lemma nth_xors [simp]:
  "length (xors as bs) = min (length as) (length bs)"
  "i < length as \<Longrightarrow> i < length bs \<Longrightarrow> xors as bs ! i = (as ! i \<noteq> bs ! i)"
  by (induction as bs arbitrary: i rule: xors.induct) (auto simp: nth_Cons' less_Suc_eq_0_disj)

lemma nth_choose_bits [simp]:
  "length (choose_bits as bs cs) = min (length as) (min (length bs) (length cs))"
  "i < length as \<Longrightarrow> i < length bs \<Longrightarrow> i < length cs \<Longrightarrow> choose_bits as bs cs ! i = (if as ! i then bs ! i else cs ! i)"
  by (induction as bs cs arbitrary: i rule: choose_bits.induct) (auto simp: nth_Cons' less_Suc_eq_0_disj)

lemma nth_majority_bits [simp]:
  "length (majority_bits as bs cs) = min (length as) (min (length bs) (length cs))"
  "i < length as \<Longrightarrow> i < length bs \<Longrightarrow> i < length cs \<Longrightarrow>
   majority_bits as bs cs ! i = (if as ! i then bs ! i \<or> cs ! i else bs ! i \<and> cs ! i)"
  by (induction as bs cs arbitrary: i rule: majority_bits.induct) (auto simp: nth_Cons' less_Suc_eq_0_disj)

lemma bits_eqI: "length bs = 32 \<Longrightarrow> (\<And>i. i < 32 \<Longrightarrow> bit w i = bs ! i) \<Longrightarrow> bits w = bs"
  by (rule nth_equalityI) simp_all

lemma bits_xor: "bits (a XOR b) = xors (bits a) (bits b)"
  by (rule bits_eqI) (simp_all add: bit_xor_iff)

lemma bits_choose: "bits ((e AND f) XOR (NOT e AND g)) = choose_bits (bits e) (bits f) (bits g)"
  by (rule bits_eqI) (auto simp: bit_xor_iff bit_and_iff bit_not_iff)

lemma bits_majority: "bits ((a AND b) XOR (a AND c) XOR (b AND c)) = majority_bits (bits a) (bits b) (bits c)"
  by (rule bits_eqI) (auto simp: bit_xor_iff bit_and_iff)

lemma bits_ror: "n \<le> 32 \<Longrightarrow> bits (ror n w) = ror_bits n (bits w)"
  by (rule bits_eqI)
    (auto simp: ror_bits_def ror_def bit_or_iff bit_drop_bit_eq bit_push_bit_iff nth_append add.commute dest: bit_imp_le_length)

lemma bits_shr: "n \<le> 32 \<Longrightarrow> bits (drop_bit n w) = shr_bits n (bits w)"
  by (rule bits_eqI)
    (auto simp: shr_bits_def bit_drop_bit_eq nth_append add.commute dest: bit_imp_le_length)

text \<open>Ripple-carry addition.\<close>

lemma length_add_bits [simp]: "length (add_bits c as bs) = min (length as) (length bs)"
  by (induction c as bs rule: add_bits.induct) auto

lemma take_bit_step: "take_bit (Suc n) (of_bool r + 2 * x :: int) = of_bool r + 2 * take_bit n x"
  by (cases r) (simp_all add: take_bit_Suc)

lemma add_bits_sum:
  "length as = length bs \<Longrightarrow> horner_sum of_bool 2 (add_bits c as bs) =
   take_bit (length as) (horner_sum of_bool 2 as + horner_sum of_bool 2 bs + of_bool c :: int)"
proof (induction c as bs rule: add_bits.induct)
  case (1 c a as b bs)
  let ?r = "(a = b) = c" and ?c = "if c then a \<or> b else a \<and> b"
  have "horner_sum of_bool 2 (a # as) + horner_sum of_bool 2 (b # bs) + of_bool c =
      (of_bool ?r + 2 * (horner_sum of_bool 2 as + horner_sum of_bool 2 bs + of_bool ?c) :: int)"
    by (cases a; cases b; cases c) simp_all
  moreover have "horner_sum of_bool 2 (add_bits c (a # as) (b # bs)) =
      (of_bool ?r + 2 * horner_sum of_bool 2 (add_bits ?c as bs) :: int)"
    by (cases a; cases b; cases c) simp_all
  moreover have "horner_sum of_bool 2 (add_bits ?c as bs) =
      take_bit (length as) (horner_sum of_bool 2 as + horner_sum of_bool 2 bs + of_bool ?c :: int)"
    using 1 by (cases c) simp_all
  ultimately show ?case by (simp only: take_bit_step list.size add_0_right add_Suc_right)
qed simp_all

lemma bits_uint: "horner_sum of_bool 2 (bits w) = uint w"
proof -
  have "horner_sum of_bool 2 (map (bit (uint w)) [0..<32]) = take_bit 32 (uint w)"
    by (rule horner_sum_bit_eq_take_bit)
  moreover have "map (bit (uint w)) [0..<32] = bits w" by (simp add: bits_def bit_uint_iff)
  moreover have "take_bit 32 (uint w) = uint w"
    using uint_lt2p[of w] uint_ge_0[of w] by (simp add: take_bit_int_eq_self)
  ultimately show ?thesis by simp
qed

lemma horner_inj:
  "length as = length bs \<Longrightarrow> horner_sum of_bool (2 :: int) as = horner_sum of_bool 2 bs \<Longrightarrow> as = bs"
proof (induction as bs rule: list_induct2)
  case (Cons x xs y ys)
  then have "of_bool x + 2 * horner_sum of_bool (2 :: int) xs = of_bool y + 2 * horner_sum of_bool 2 ys" by simp
  then have "x = y \<and> horner_sum of_bool (2 :: int) xs = horner_sum of_bool 2 ys"
    by (cases x; cases y; simp; presburger)
  then show ?case using Cons by simp
qed simp

lemma bits_add: "bits (a + b) = add_bits False (bits a) (bits b)"
proof (rule horner_inj)
  have "horner_sum of_bool 2 (add_bits False (bits a) (bits b)) = uint (a + b)"
    by (subst add_bits_sum) (simp_all add: bits_uint uint_word_ariths take_bit_eq_mod)
  then show "horner_sum of_bool (2 :: int) (bits (a + b)) = horner_sum of_bool 2 (add_bits False (bits a) (bits b))"
    by (simp add: bits_uint)
qed simp

text \<open>The bits of a numeral.\<close>

fun num_bits :: "num \<Rightarrow> bool list" where
  "num_bits num.One = [True]"
| "num_bits (num.Bit0 k) = False # num_bits k"
| "num_bits (num.Bit1 k) = True # num_bits k"

lemma bit_num_bits: "bit (numeral k :: int) i \<longleftrightarrow> i < length (num_bits k) \<and> num_bits k ! i"
proof (induction k arbitrary: i)
  case One
  then show ?case by (cases i) (simp_all add: bit_1_iff)
next
  case (Bit0 k)
  then show ?case by (cases i) (simp_all add: bit_0)
next
  case (Bit1 k)
  then show ?case by (cases i) (simp_all add: bit_0)
qed

lemma bits_numeral: "bits (numeral k) = take 32 (num_bits k @ replicate 32 False)"
proof (rule bits_eqI)
  fix i :: nat
  assume "i < 32"
  have "bit (numeral k :: u32) i = bit (word_of_int (numeral k) :: u32) i" by simp
  also have "\<dots> = bit (numeral k :: int) i" using \<open>i < 32\<close> by (simp only: bit_word_of_int_iff) simp
  finally show "bit (numeral k :: u32) i = take 32 (num_bits k @ replicate 32 False) ! i"
    using \<open>i < 32\<close> by (auto simp: bit_num_bits nth_append)
qed simp

section \<open>The hash on bit lists\<close>

definition schedule_bits :: "bool list list \<Rightarrow> bool list" where
  "schedule_bits r = add_bits False (add_bits False (add_bits False
     (xors (ror_bits 17 (r ! 1)) (xors (ror_bits 19 (r ! 1)) (shr_bits 10 (r ! 1)))) (r ! 6))
     (xors (ror_bits 7 (r ! 14)) (xors (ror_bits 18 (r ! 14)) (shr_bits 3 (r ! 14))))) (r ! 15)"

fun extend_bits :: "nat \<Rightarrow> bool list list \<Rightarrow> bool list list" where
  "extend_bits 0 r = r"
| "extend_bits (Suc n) r = extend_bits n (schedule_bits r # r)"

fun round_bits :: "bool list list \<Rightarrow> bool list \<times> bool list \<Rightarrow> bool list list" where
  "round_bits [a, b, c, d, e, f, g, h] (k, w) =
     (let t1 = add_bits False (add_bits False (add_bits False (add_bits False h
            (xors (ror_bits 6 e) (xors (ror_bits 11 e) (ror_bits 25 e)))) (choose_bits e f g)) k) w;
          t2 = add_bits False (xors (ror_bits 2 a) (xors (ror_bits 13 a) (ror_bits 22 a))) (majority_bits a b c)
      in [add_bits False t1 t2, a, b, c, add_bits False d t1, e, f, g])"
| "round_bits st kw = st"

definition block_bits :: "bool list list \<Rightarrow> bool list list \<Rightarrow> bool list list \<Rightarrow> bool list list" where
  "block_bits ks st ws =
     map2 (add_bits False) st (foldl round_bits st (zip ks (rev (extend_bits 48 (rev ws)))))"

lemmas bits_hom = bits_add bits_xor bits_choose bits_majority bits_ror bits_shr

lemma xor_assoc_bits: "bits (a XOR b XOR c) = xors (bits a) (xors (bits b) (bits c))"
  by (simp only: xor.assoc bits_xor)

lemma majority_xors: "xors (bits (a AND b)) (xors (bits (a AND c)) (bits (b AND c))) = majority_bits (bits a) (bits b) (bits c)"
  by (simp only: xor.assoc flip: bits_xor bits_majority)

lemma extend_bits_correct: "16 \<le> length r \<Longrightarrow> map bits (extend_schedule n r) = extend_bits n (map bits r)"
  by (induction n r rule: extend_schedule.induct)
    (simp_all add: schedule_bits_def small0_def small1_def bits_add bits_ror bits_shr xor_assoc_bits)

lemma round_bits_correct: "map bits (sha_round st (k, w)) = round_bits (map bits st) (bits k, bits w)"
  by (cases "(st, (k, w))" rule: sha_round.cases)
    (simp_all add: Let_def big0_def big1_def bits_add bits_ror xor_assoc_bits bits_choose majority_xors)

lemma rounds_bits_correct:
  "map bits (foldl sha_round st kws) = foldl round_bits (map bits st) (map (\<lambda>(k, w). (bits k, bits w)) kws)"
  by (induction kws arbitrary: st) (auto simp: round_bits_correct)

lemma zip_bits: "map (\<lambda>(k, w). (bits k, bits w)) (zip ks ws) = zip (map bits ks) (map bits ws)"
  by (induction ks ws rule: list_induct2') simp_all

lemma map2_bits: "map bits (map2 (+) xs ys) = map2 (add_bits False) (map bits xs) (map bits ys)"
  by (induction xs ys rule: list_induct2') (simp_all add: bits_add)

lemma block_bits_correct:
  assumes "16 \<le> length (chunks 4 m)"
  shows "map bits (sha_block st m) = block_bits (map bits sha_k) (map bits st) (map bits (map word_of_bytes (chunks 4 m)))"
proof -
  have "map bits (rev (extend_schedule 48 (rev (map word_of_bytes (chunks 4 m))))) =
      rev (extend_bits 48 (rev (map bits (map word_of_bytes (chunks 4 m)))))"
    using assms by (simp only: rev_map[symmetric] extend_bits_correct length_rev length_map)
  then show ?thesis
    by (simp only: sha_block_def block_bits_def Let_def map2_bits rounds_bits_correct zip_bits)
qed

fun char_bits :: "char \<Rightarrow> bool list" where
  "char_bits (Char b0 b1 b2 b3 b4 b5 b6 b7) = [b0, b1, b2, b3, b4, b5, b6, b7]"

definition word_bits :: "bytes \<Rightarrow> bool list" where
  "word_bits bs = foldl (\<lambda>acc b. char_bits b @ take 24 acc) (replicate 32 False) bs"

definition byte_at :: "bool list \<Rightarrow> nat \<Rightarrow> char" where
  "byte_at w n = (case take 8 (drop n w) of [b0, b1, b2, b3, b4, b5, b6, b7] \<Rightarrow> Char b0 b1 b2 b3 b4 b5 b6 b7 | _ \<Rightarrow> CHR 0x00)"

lemma length_char_bits [simp]: "length (char_bits c) = 8"
  by (cases c) simp

lemma of_char_bits: "of_char c = (horner_sum of_bool 2 (char_bits c) :: u32)"
  by (cases c) (simp add: of_char_def)

lemma bits_shift_in: "bits (push_bit 8 acc OR of_char b) = char_bits b @ take 24 (bits acc)"
  by (rule bits_eqI)
    (auto simp: of_char_bits bit_or_iff bit_push_bit_iff bit_horner_sum_bit_word_iff nth_append)

lemma bits_word_of_bytes: "bits (word_of_bytes bs) = word_bits bs"
proof -
  have "bits (foldl (\<lambda>acc b. push_bit 8 acc OR of_char b) w bs) = foldl (\<lambda>acc b. char_bits b @ take 24 acc) (bits w) bs" for w
    by (induction bs arbitrary: w) (simp_all add: bits_shift_in)
  moreover have "bits 0 = replicate 32 False" by (rule bits_eqI) simp_all
  ultimately show ?thesis by (simp add: word_of_bytes_def word_bits_def)
qed

lemma byte_at_bits: "n + 8 \<le> 32 \<Longrightarrow> byte_at (bits w) n = char_of (uint (drop_bit n w))"
proof -
  assume "n + 8 \<le> 32"
  then have "take 8 (drop n (bits w)) = map (\<lambda>i. bit w (n + i)) [0..<8]"
    by (intro nth_equalityI) auto
  moreover have "[0..<8] = [0, 1, 2, 3, 4, 5, 6, 7 :: nat]" by (simp add: upt_rec)
  ultimately have "take 8 (drop n (bits w)) = map (\<lambda>i. bit w (n + i)) [0, 1, 2, 3, 4, 5, 6, 7]" by simp
  moreover have "bit (uint (drop_bit n w)) i = bit w (n + i)" if "i < 8" for i
    using that \<open>n + 8 \<le> 32\<close> by (simp add: bit_uint_iff bit_drop_bit_eq)
  moreover from this[of 0] have "odd (uint (drop_bit n w)) = bit w n" by (simp add: bit_0)
  ultimately show ?thesis by (simp add: byte_at_def char_of_def)
qed

lemma word_bytes_bits: "word_bytes w = map (byte_at (bits w)) [24, 16, 8, 0]"
  by (simp add: word_bytes_def byte_at_bits)

definition sha256_bits :: "bytes \<Rightarrow> string" where
  "sha256_bits m = hexdigest (concat (map (\<lambda>w. map (byte_at w) [24, 16, 8, 0])
     (foldl (block_bits (map bits sha_k)) (map bits sha_iv) (map (\<lambda>b. map word_bits (chunks 4 b)) (chunks 64 (sha_pad m))))))"

lemma chunks_empty: "chunks 0 xs = []" "chunks n [] = []"
  by (subst chunks.simps, simp)+

lemma chunks_length: "n dvd length xs \<Longrightarrow> b \<in> set (chunks n xs) \<Longrightarrow> length b = n"
proof (induction n xs rule: chunks.induct)
  case (1 n xs)
  have n: "n \<noteq> 0" "xs \<noteq> []" using 1(3) chunks_empty by (metis empty_iff list.set(1))+
  have "b = take n xs \<or> b \<in> set (chunks n (drop n xs))" using 1(3) n by (simp add: chunks.simps[of n xs])
  moreover have "n \<le> length xs" "n dvd length (drop n xs)" using 1(2) n by (auto simp: dvd_imp_le dvd_diff_nat)
  ultimately show ?case using 1(1) n by auto
qed

lemma chunks_count: "0 < n \<Longrightarrow> length (chunks n (xs :: 'a list)) = (length xs + n - 1) div n"
proof (induction n xs rule: chunks.induct)
  case (1 n xs)
  show ?case
  proof (cases "n < length xs")
    case True
    then have "length xs + n - 1 = (length xs - n + n - 1) + n" using 1(2) by simp
    then have "(length xs + n - 1) div n = (length xs - n + n - 1) div n + 1"
      using 1(2) by (metis div_add_self2 Suc_eq_plus1 less_numeral_extra(3))
    then show ?thesis using 1 True by (auto simp: chunks.simps[of n xs])
  next
    case False
    have "(length xs + n - 1) div n = (if xs = [] then 0 else 1)"
      using False 1(2) by (auto intro!: div_nat_eqI simp: neq_Nil_conv)
    then show ?thesis using 1(2) False by (simp add: chunks.simps[of n xs] chunks.simps[of n "[]"])
  qed
qed

lemma pad_length: "64 dvd length (sha_pad m)"
proof -
  define r where "r = length m mod 64"
  have "length (sha_pad m) = length m + 9 + (119 - r) mod 64"
    by (simp add: sha_pad_def Let_def r_def)
  also have "length m = 64 * (length m div 64) + r" by (simp add: r_def)
  finally have "length (sha_pad m) = 64 * (length m div 64) + (r + 9 + (119 - r) mod 64)" by simp
  moreover have "r < 64" by (simp add: r_def)
  then have "64 dvd r + 9 + (119 - r) mod 64"
  proof (cases "r \<le> 55")
    case True
    then have "119 - r = 64 + (55 - r)" by simp
    then have "(119 - r) mod 64 = 55 - r" by (simp only: mod_add_self1) simp
    then show ?thesis using True by simp
  next
    case False
    then have "(119 - r) mod 64 = 119 - r" by simp
    then show ?thesis using False \<open>r < 64\<close> by simp
  qed
  ultimately show ?thesis by simp
qed

theorem sha256_by_bits: "sha256_hex m = sha256_bits m"
proof -
  have "map bits (foldl sha_block st bs) = foldl (block_bits (map bits sha_k)) (map bits st) (map (\<lambda>b. map word_bits (chunks 4 b)) bs)"
    if "\<forall>b\<in>set bs. length b = 64" for st bs
    using that
  proof (induction bs arbitrary: st)
    case (Cons b bs)
    then have "length (chunks 4 b) = 16" by (simp add: chunks_count)
    then show ?case using Cons by (simp add: block_bits_correct bits_word_of_bytes comp_def)
  qed simp
  then have "map bits (foldl sha_block sha_iv (chunks 64 (sha_pad m))) =
      foldl (block_bits (map bits sha_k)) (map bits sha_iv) (map (\<lambda>b. map word_bits (chunks 4 b)) (chunks 64 (sha_pad m)))"
    using chunks_length[OF pad_length] by blast
  moreover have "map word_bytes ws = map (\<lambda>w. map (byte_at w) [24, 16, 8, 0]) (map bits ws)" for ws
    by (induction ws) (simp_all add: word_bytes_bits)
  ultimately show ?thesis by (simp only: sha256_hex_def sha256_def sha256_bits_def)
qed

section \<open>Test vectors\<close>


lemmas constant_bits = sha_k_def sha_iv_def list.map bits_numeral num_bits.simps

lemma sha256_vector_abc: "sha256_hex ''abc'' = ''ba7816bf8f01cfea414140de5dae2223b00361a396177a9cb410ff61f20015ad''"
proof -
  have "chunks 64 (sha_pad ''abc'') = [''abc'' @ [CHR 0x80] @ replicate 59 (CHR 0x00) @ [CHR 0x18]]" by code_simp
  then show ?thesis unfolding sha256_by_bits sha256_bits_def by (simp only: constant_bits) code_simp
qed

end
