(* ===== verification/Repair_Claims.thy ===== *)
theory Repair_Claims
  imports Samples Rebuild Sha256_Vectors
begin

text \<open>
  The properties of automatic repair and of rebuilt candidates: what the digest of a tree binds, what
  a repair can change, what verdict a repaired release carries, and what the writer of a rebuilt
  candidate commits.  The sample repair is computed with the bit-serial SHA-256.
\<close>

section \<open>A sample repair\<close>

definition demo_tree :: tree where
  "demo_tree = [([''app.py''], FileNode ''x = 1'')]"

definition repaired_tree :: tree where
  "repaired_tree = [([''app.py''], FileNode ''x = 2'')]"

definition demo_source_sha :: string where
  "demo_source_sha = ''d2b9b86231f24b9052147523f1c0a407609662c80a901ebbc2da1b0272e54970''"

definition repaired_source_sha :: string where
  "repaired_source_sha = ''4abe77c31f69274b5ae696b7aaa94a29f803968d53c83332b3bd6365a9cb48b5''"

definition demo_frame :: "char \<Rightarrow> bytes" where
  "demo_frame c = [CHR 0x00, CHR 0x00, CHR 0x00, CHR 0x06] @ ''app.py'' @
     [CHR 0x00, CHR 0x00, CHR 0x00, CHR 0x00, CHR 0x00, CHR 0x00, CHR 0x00, CHR 0x05] @ ''x = '' @ [c]"

lemma demo_lengths:
  "be_digits 4 (Suc (Suc (Suc (Suc (Suc (Suc 0)))))) = [CHR 0x00, CHR 0x00, CHR 0x00, CHR 0x06]"
  "be_digits 8 (Suc (Suc (Suc (Suc (Suc 0))))) = [CHR 0x00, CHR 0x00, CHR 0x00, CHR 0x00, CHR 0x00, CHR 0x00, CHR 0x00, CHR 0x05]"
  by code_simp+

lemma demo_frames:
  "frame_file (''app.py'', ''x = 1'') = Inr (demo_frame CHR ''1'')" "frame_file (''app.py'', ''x = 2'') = Inr (demo_frame CHR ''2'')"
  by (simp_all add: frame_file_def to_bytes_def demo_lengths demo_frame_def)

lemma demo_source_vector: "sha256_hex (demo_frame CHR ''1'') = demo_source_sha"
proof -
  have "chunks 64 (sha_pad (demo_frame CHR ''1'')) = [demo_frame CHR ''1'' @ [CHR 0x80] @ replicate 39 (CHR 0x00) @ [CHR 0xB8]]"
    by code_simp
  then show ?thesis unfolding sha256_by_bits sha256_bits_def by (simp only: constant_bits) code_simp
qed

lemma repaired_source_vector: "sha256_hex (demo_frame CHR ''2'') = repaired_source_sha"
proof -
  have "chunks 64 (sha_pad (demo_frame CHR ''2'')) = [demo_frame CHR ''2'' @ [CHR 0x80] @ replicate 39 (CHR 0x00) @ [CHR 0xB8]]"
    by code_simp
  then show ?thesis unfolding sha256_by_bits sha256_bits_def by (simp only: constant_bits) code_simp
qed

lemma demo_tree_sha: "tree_sha256 True demo_tree = Inr demo_source_sha"
  by (simp add: demo_frames demo_source_vector tree_sha256_def safe_files_def demo_tree_def is_link_def posix_def)

lemma repaired_tree_sha: "tree_sha256 True repaired_tree = Inr repaired_source_sha"
  by (simp add: demo_frames repaired_source_vector tree_sha256_def safe_files_def repaired_tree_def is_link_def posix_def)

lemma demo_digests: "repaired_source_sha \<noteq> demo_source_sha" "py_len demo_source_sha = 64"
  by code_simp+

lemma demo_paths: "normalize_relpath ''app.py'' = Inr [''app.py'']" "posix [''app.py''] = ''app.py''"
  by code_simp+

definition demo_coordinator :: coordinator where
  "demo_coordinator = \<lparr>co_producer_agent_id = ''repair-agent'', co_allowed_paths = [[''app.py'']]\<rparr>"

lemma demo_coordinator_made: "make_coordinator ''repair-agent'' [''app.py''] = Inr demo_coordinator"
  by (simp add: make_coordinator_def demo_paths demo_coordinator_def)

lemma demo_validate: "validate_changes [(''app.py'', ''x = 2'')] [[''app.py'']] = Inr [([''app.py''], ''x = 2'')]"
  by (simp add: validate_changes_def max_changed_files_def max_file_bytes_def demo_paths)

lemma demo_proposal:
  "\<exists>p. make_proposal release demo_source_sha agent [(''app.py'', ''x = 2'')] proposal_authority = Inr p \<and>
     rp_files p = [(''app.py'', ''x = 2'')] \<and> rp_base_source_sha256 p = demo_source_sha"
  by (simp add: make_proposal_def demo_digests Let_def)

lemma demo_materialize:
  assumes "rp_files p = [(''app.py'', ''x = 2'')]" "rp_base_source_sha256 p = demo_source_sha"
  shows "materialize_repair demo_tree False p [''app.py''] = Inr (repaired_tree, repaired_source_sha)"
proof -
  have "safe_files demo_tree = Inr [(''app.py'', ''x = 1'')]"
    by (simp add: safe_files_def demo_tree_def is_link_def posix_def)
  moreover have "write_all [([''app.py''], ''x = 2'')] demo_tree = Inr repaired_tree"
    by (simp add: write_text_def demo_tree_def repaired_tree_def make_dirs_def parents_def)
  ultimately show ?thesis
    using assms by (simp add: materialize_repair_def demo_paths demo_tree_sha repaired_tree_sha demo_validate demo_digests)
qed

section \<open>Repair\<close>

text \<open>The digest of a source tree is a commitment to the names and the contents of its files:
  two trees with one digest have the same files, unless SHA-256 collides on their framed texts.  Names
  and contents cannot run into each other, because every frame starts with its lengths.\<close>

lemma tree_digest_binds_files:
  assumes "tree_sha256 b t = Inr h" "tree_sha256 b' t' = Inr h"
  shows "mset (file_entries t) = mset (file_entries t') \<or> sha_collision (tree_text t) (tree_text t')"
  using tree_sha256_binding[OF assms] by (metis mset_sort)

lemma tree_digest_binds_files_instance:
  "mset (file_entries demo_tree) = mset (file_entries (([''lib''], DirNode) # demo_tree)) \<or>
   sha_collision (tree_text demo_tree) (tree_text (([''lib''], DirNode) # demo_tree))"
proof (rule tree_digest_binds_files[OF demo_tree_sha])
  show "tree_sha256 True (([''lib''], DirNode) # demo_tree) = Inr demo_source_sha"
    using demo_tree_sha by (simp add: tree_sha256_def safe_files_def is_link_def demo_tree_def)
qed

text \<open>Property C12. An applied repair starts from the tree its proposal was made for: a proposal of one to sixteen
  files of at most 256 KiB, each spelled as a path of the allow-list.  In the new tree every file has exactly the content
  the proposal names last for its path, and every path the proposal does not name has the file it had (or none), so
  nothing outside the allow-list changes; and the digest of the new tree is another one.\<close>

theorem repair_is_confined:
  assumes "materialize_repair src ex proposal allowed_paths = Inr (dst, h)" "map_res normalize_relpath allowed_paths = Inr allowed"
  shows "tree_sha256 True src = Inr (rp_base_source_sha256 proposal) \<and> tree_sha256 True dst = Inr h \<and>
    h \<noteq> rp_base_source_sha256 proposal \<and> rp_files proposal \<noteq> [] \<and> length (rp_files proposal) \<le> 16 \<and>
    (\<forall>raw content. (raw, content) \<in> set (rp_files proposal) \<longrightarrow>
       (\<exists>q. normalize_relpath raw = Inr q \<and> q \<in> set allowed) \<and> length content \<le> 256 * 1024) \<and>
    (\<forall>p. file_at dst p =
       (case map_of (rev (map (\<lambda>(raw, content). (normalize_relpath raw, content)) (rp_files proposal))) (Inr p) of
          Some content \<Rightarrow> Some content | None \<Rightarrow> file_at src p)) \<and>
    (\<forall>p. p \<notin> set allowed \<longrightarrow> file_at dst p = file_at src p)"
proof -
  from materialize_repair_Inr[OF assms] obtain chg where chg: "validate_changes (rp_files proposal) allowed = Inr chg"
    "tree_sha256 True src = Inr (rp_base_source_sha256 proposal)" "tree_sha256 True dst = Inr h"
    "h \<noteq> rp_base_source_sha256 proposal" "fst ` set chg \<subseteq> set allowed"
    and f: "\<forall>p. file_at dst p = (case map_of chg p of Some c \<Rightarrow> Some c | None \<Rightarrow> file_at src p)" by blast
  have "map_of chg p = None" if "p \<notin> set allowed" for p using chg(5) that by (auto simp: map_of_eq_None_iff)
  then have out: "file_at dst p = file_at src p" if "p \<notin> set allowed" for p using f that by simp
  show ?thesis
    using chg(2-4) validate_changes_Inr(1)[OF chg(1)] out f[unfolded validate_changes_Inr(2)[OF chg(1)] last_proposed_def] by blast
qed

theorem repair_is_confined_witness:
  "file_at repaired_tree [''app.py''] = Some ''x = 2'' \<and> tree_sha256 True demo_tree = Inr demo_source_sha"
proof -
  obtain p :: repair_proposal where p: "rp_files p = [(''app.py'', ''x = 2'')]" "rp_base_source_sha256 p = demo_source_sha"
    using demo_proposal[of "''r1''" "''repair-agent''"] by blast
  have "map_res normalize_relpath [''app.py''] = Inr [[''app.py'']]" by (simp add: demo_paths)
  from repair_is_confined[OF demo_materialize[OF p] this] show ?thesis
    by (simp add: p demo_paths)
qed

text \<open>Property C13. A release that is not GO and is repaired carries the verdict of a fresh evaluation of
  exactly the staged tree: the tree the repair started from still has the digest that was taken before
  the first evaluation, the staged tree differs from it in files of the allow-list only, and the
  second verdict is the evaluator's answer for the staged tree under a name that holds its digest.\<close>

theorem repaired_release_is_judged_afresh:
  assumes "make_coordinator producer ps = Inr co" "coordinator_run co evaluator remediate release sha t0 = Inr r"
    and "rr_decision (ro_before r) \<noteq> GO"
  shows "\<exists>t2 staged h after.
    tree_sha256 True t0 = Inr (ro_original_source_sha256 r) \<and> tree_sha256 True t2 = Inr (ro_original_source_sha256 r) \<and>
    tree_sha256 True staged = Inr h \<and> h \<noteq> ro_original_source_sha256 r \<and> ro_repaired_source_sha256 r = Some h \<and>
    (\<forall>p. p \<notin> set (co_allowed_paths co) \<longrightarrow> file_at staged p = file_at t2 p) \<and>
    fst (evaluator (release @ ''-repair-'' @ take 12 h) sha staged) = Inr after \<and> ro_after r = Some after \<and>
    ro_reevaluated_from_scratch r"
  by (rule coordinator_run_Inr[OF assms])

theorem repaired_release_is_judged_afresh_witness:
  "\<exists>rep r. evaluate demo_executor None local_gatekeeper [] (''id'', ''now'') demo_request demo_policy = Inr rep \<and>
     coordinator_run demo_coordinator (\<lambda>rel sha t. (Inr rep, t)) (\<lambda>c t. (Inr [(''app.py'', ''x = 2'')], t)) ''r1'' None demo_tree = Inr r \<and>
     ro_original_source_sha256 r = demo_source_sha \<and> ro_after r = Some rep"
proof -
  obtain rep where rep: "evaluate demo_executor None local_gatekeeper [] (''id'', ''now'') demo_request demo_policy = Inr rep"
    "rr_decision rep = NO_GO"
    using demo_evaluate[OF demo_advisories(1,3)] by blast
  let ?run = "coordinator_run demo_coordinator (\<lambda>rel sha t. (Inr rep, t)) (\<lambda>c t. (Inr [(''app.py'', ''x = 2'')], t)) ''r1'' None demo_tree"
  obtain p :: repair_proposal where p: "make_proposal ''r1'' demo_source_sha ''repair-agent'' [(''app.py'', ''x = 2'')] proposal_authority = Inr p"
    "rp_files p = [(''app.py'', ''x = 2'')]" "rp_base_source_sha256 p = demo_source_sha"
    using demo_proposal[of "''r1''" "''repair-agent''"] by blast
  have "\<exists>r. ?run = Inr r \<and> ro_before r = rep"
    by (simp add: coordinator_run_def demo_coordinator_def demo_tree_sha rep(2) demo_validate posix_changes_def demo_paths
        p(1) demo_materialize[OF p(2,3)])
  then obtain r where r: "?run = Inr r" "ro_before r = rep" by blast
  from repaired_release_is_judged_afresh[OF demo_coordinator_made r(1)] show ?thesis
    using rep r demo_tree_sha by auto
qed

section \<open>Rebuilt candidates\<close>

text \<open>A bundle that the writer commits becomes the workspace: the workspace started empty, all
  three pins matched, every proposed file is there with the proposed content and no other file is, and
  no file is in the control directory or outside the workspace.\<close>

lemma committed_bundle_is_the_workspace:
  assumes "writer_apply target bundle baseline ps pr pb = (Inr n, t)"
  shows "target = [] \<and> ps = rb_source_sha256 baseline \<and> pr = rb_reference_sha256 baseline \<and> pb = pb_sha256 bundle \<and>
    n = length (pb_proposals bundle) \<and>
    (\<forall>q. file_at t q = map_option fp_content (List.find (\<lambda>p. posix_parts (fp_path p) = q) (pb_proposals bundle))) \<and>
    (\<forall>q d. file_at t q = Some d \<longrightarrow> q \<noteq> [] \<and> hd q \<noteq> control_directory \<and> ''..'' \<notin> set q)"
proof -
  note c = writer_apply_Inr[OF assms]
  then have k: "distinct (map (posix_parts \<circ> fp_path) (pb_proposals bundle))"
    "\<forall>p\<in>set (pb_proposals bundle). posix_parts (fp_path p) \<noteq> [] \<and> ''..'' \<notin> set (posix_parts (fp_path p)) \<and>
      hd (posix_parts (fp_path p)) \<noteq> control_directory"
    using check_proposals_Inr[of "pb_proposals bundle" "{}"] by auto
  have f: "file_at t q = map_option fp_content (List.find (\<lambda>p. posix_parts (fp_path p) = q) (pb_proposals bundle))" for q
    using write_proposals_file_at[of "pb_proposals bundle" "[]" t q] c k(1)
    by (auto simp: file_at_def split: option.split)
  moreover have "q \<noteq> [] \<and> hd q \<noteq> control_directory \<and> ''..'' \<notin> set q" if "file_at t q = Some d" for q d
    using that k(2) unfolding f by (auto simp: find_Some_iff)
  ultimately show ?thesis using c by blast
qed

definition good_bundle :: proposal_bundle where
  "good_bundle = build_bundle [\<lparr>fp_agent = ''builder'', fp_path = ''src/main.py'', fp_content = ''print(1)'', fp_purpose = ''entry''\<rparr>]"

definition demo_baseline :: rebuild_baseline where
  "demo_baseline = \<lparr>rb_source_sha256 = ''s'', rb_reference_sha256 = ''r''\<rparr>"

lemma main_path: "posix_parts ''src/main.py'' = [''src'', ''main.py'']" "\<not> starts_with ''src/main.py'' ''/''"
  by code_simp+

lemma write_main:
  "\<exists>t. write_text [''src'', ''main.py''] content [] = Inr t"
  by (simp add: write_text_def make_dirs_def parents_def upt_rec is_file_def)

lemma committed_bundle_is_the_workspace_instance:
  "\<exists>t. writer_apply [] good_bundle demo_baseline ''s'' ''r'' (pb_sha256 good_bundle) = (Inr 1, t) \<and>
     file_at t [''src'', ''main.py''] = Some ''print(1)''"
proof -
  obtain t where w: "writer_apply [] good_bundle demo_baseline ''s'' ''r'' (pb_sha256 good_bundle) = (Inr 1, t)"
    using write_main[of "''print(1)''"]
    by (auto simp: writer_apply_def demo_baseline_def good_bundle_def build_bundle_def Let_def main_path control_directory_def)
  from committed_bundle_is_the_workspace[OF w] show ?thesis
    using w by (simp add: good_bundle_def build_bundle_def main_path)
qed

text \<open>A bundle that the writer refuses leaves the workspace as it was: every check is made before
  the first file is written.\<close>

lemma refused_bundle_writes_nothing:
  assumes "writer_apply target bundle baseline ps pr pb = (Inl e, t)" "fst e = RebuildError"
  shows "t = target"
  by (rule writer_refusal[OF assms]) (rule write_text_no_rebuild_error)

lemma refused_bundle_writes_nothing_instance:
  "\<exists>t e. writer_apply [] (build_bundle (pb_proposals good_bundle @ pb_proposals good_bundle)) demo_baseline ''s'' ''r''
     (bundle_digest (pb_proposals good_bundle @ pb_proposals good_bundle)) = (Inl e, t) \<and> fst e = RebuildError \<and> t = []"
proof -
  obtain e t where w: "writer_apply [] (build_bundle (pb_proposals good_bundle @ pb_proposals good_bundle)) demo_baseline ''s'' ''r''
      (bundle_digest (pb_proposals good_bundle @ pb_proposals good_bundle)) = (Inl e, t)" "fst e = RebuildError"
    by (simp add: writer_apply_def demo_baseline_def good_bundle_def build_bundle_def Let_def main_path control_directory_def raise_def)
  from refused_bundle_writes_nothing[OF w] show ?thesis using w by blast
qed

text \<open>The pin of a bundle is compared with the digest the bundle carries, and that is not recomputed: any
  content is committed under the pin of any other bundle.\<close>

theorem bundle_pin_is_not_recomputed:
  "\<exists>t. writer_apply []
     \<lparr>pb_proposals = [\<lparr>fp_agent = a, fp_path = ''src/main.py'', fp_content = evil, fp_purpose = u\<rparr>], pb_sha256 = pb_sha256 good_bundle\<rparr>
     demo_baseline ''s'' ''r'' (pb_sha256 good_bundle) = (Inr 1, t) \<and> file_at t [''src'', ''main.py''] = Some evil"
proof -
  obtain t where t: "write_text [''src'', ''main.py''] evil [] = Inr t" using write_main by blast
  then show ?thesis using write_text_file_at[OF t, of "[''src'', ''main.py'']"]
    by (simp add: writer_apply_def demo_baseline_def Let_def main_path control_directory_def)
qed

end
