(* ===== verification/Dual_Probe.thy ===== *)
theory Dual_Probe
  imports Gatekeeper Complex_Main
begin

text \<open>
  parity/: a rebuilt service is compared with the one it replaces.  The plan of read-only probes over
  tasks, the two probes of every scenario, the comparison and the decision to cut over.  The lemmas:
  a plan covers every scenario once and its shards differ by at most one; a cut-over is allowed only
  when every blocking scenario has equal observations; equal observations mean equal payloads; state
  is only changed on two sandboxes.
\<close>

section \<open>Model\<close>

datatype parity_category = PUBLIC_API | AUTHORIZATION | DATABASE_BEHAVIOR | ERROR_CONTRACTS | EDGE_CASES

fun category_value :: "parity_category \<Rightarrow> string" where
  "category_value PUBLIC_API = ''PUBLIC_API''"
| "category_value AUTHORIZATION = ''AUTHORIZATION''"
| "category_value DATABASE_BEHAVIOR = ''DATABASE_BEHAVIOR''"
| "category_value ERROR_CONTRACTS = ''ERROR_CONTRACTS''"
| "category_value EDGE_CASES = ''EDGE_CASES''"

record parity_scenario =
  ps_scenario_id :: string
  ps_category :: parity_category
  ps_blocking :: bool
  ps_method :: string
  ps_path :: string

record parity_observation =
  po_status :: int
  po_sha256 :: string

definition observation_from_payload :: "int \<Rightarrow> json \<Rightarrow> parity_observation" where
  "observation_from_payload status payload = \<lparr>po_status = status, po_sha256 = sha256_json payload\<rparr>"

record parity_case =
  pc_scenario_id :: string
  pc_category :: parity_category
  pc_blocking :: bool
  pc_matched :: bool
  pc_legacy_sha256 :: string
  pc_candidate_sha256 :: string
  pc_mismatch_fields :: "string list"

definition parity_blockers :: "parity_case list \<Rightarrow> parity_case list" where
  "parity_blockers cs = filter (\<lambda>c. pc_blocking c \<and> \<not> pc_matched c) cs"

definition parity_score :: "parity_case list \<Rightarrow> real" where
  "parity_score cs = (if cs = [] then 0 else real (length (filter pc_matched cs)) / real (length cs))"

definition cutover_allowed :: "parity_case list \<Rightarrow> bool" where
  "cutover_allowed cs \<longleftrightarrow> cs \<noteq> [] \<and> parity_blockers cs = []"

section \<open>Comparison\<close>

definition required_categories :: "string list" where
  "required_categories = [''AUTHORIZATION'', ''DATABASE_BEHAVIOR'', ''EDGE_CASES'', ''ERROR_CONTRACTS'', ''PUBLIC_API'']"

type_synonym observations = "string \<rightharpoonup> parity_observation"

definition compare_case :: "observations \<Rightarrow> observations \<Rightarrow> parity_scenario \<Rightarrow> parity_case res" where
  "compare_case legacy candidate s =
    (case (legacy (ps_scenario_id s), candidate (ps_scenario_id s)) of
       (Some left, Some right) \<Rightarrow>
         let mismatch = (if po_status left \<noteq> po_status right then [''status''] else []) @
                        (if po_sha256 left \<noteq> po_sha256 right then [''body_digest''] else []) in
         Inr \<lparr>pc_scenario_id = ps_scenario_id s, pc_category = ps_category s, pc_blocking = ps_blocking s,
              pc_matched = (mismatch = []), pc_legacy_sha256 = po_sha256 left, pc_candidate_sha256 = po_sha256 right,
              pc_mismatch_fields = mismatch\<rparr>
     | _ \<Rightarrow> raise ParityError (''missing observation for '' @ ps_scenario_id s))"

definition parity_compare :: "parity_scenario list \<Rightarrow> observations \<Rightarrow> observations \<Rightarrow> parity_case list res" where
  "parity_compare scenarios legacy candidate =
    (let missing = filter (\<lambda>k. k \<notin> (category_value \<circ> ps_category) ` set scenarios) required_categories in
     if missing \<noteq> []
     then raise ParityError (''parity spec missing required categories: '' @ py_repr (JList (map JStr missing)))
     else map_res (compare_case legacy candidate) scenarios)"

section \<open>The plan\<close>

record fleet_budget =
  max_scenarios :: nat
  max_tasks :: nat
  max_network_requests :: nat

definition default_budget :: fleet_budget where
  "default_budget = \<lparr>max_scenarios = 2000, max_tasks = 100, max_network_requests = 4000\<rparr>"

record fleet_plan =
  fl_tasks :: "string list list"
  fl_scenario_count :: nat
  fl_network_request_count :: nat

definition read_only_method :: "string \<Rightarrow> bool" where
  "read_only_method m \<longleftrightarrow> upper m \<in> {''GET'', ''HEAD'', ''OPTIONS''}"

text \<open>The loop \<open>shards[idx % task_count].append(...)\<close>.\<close>

fun deal :: "nat \<Rightarrow> nat \<Rightarrow> string list \<Rightarrow> string list list \<Rightarrow> string list list" where
  "deal n i [] shards = shards"
| "deal n i (x # xs) shards = deal n (i + 1) xs (shards[i mod n := shards ! (i mod n) @ [x]])"

definition plan_fleet :: "parity_scenario list \<Rightarrow> int \<Rightarrow> fleet_budget \<Rightarrow> fleet_plan res" where
  "plan_fleet scenarios requested budget =
    (if scenarios = [] then raise FleetError ''fleet requires scenarios''
     else if list_ex (\<lambda>s. \<not> read_only_method (ps_method s)) scenarios
     then raise FleetError ''async parity fleet is read-only; mutation probes use the isolated synchronous path''
     else if length scenarios > max_scenarios budget then raise FleetError ''scenario budget exceeded''
     else let task_count = min requested (int (length scenarios)) in
       if task_count < 1 \<or> task_count > int (max_tasks budget) then raise FleetError ''task budget exceeded''
       else let requests = length scenarios * 2 in
         if requests > max_network_requests budget then raise FleetError ''network request budget exceeded''
         else let n = nat task_count; ids = map ps_scenario_id scenarios;
                  shards = deal n 0 ids (replicate n []); flattened = concat shards in
           if \<not> distinct flattened \<or> set flattened \<noteq> set ids then raise FleetError ''shard coverage invariant failed''
           else Inr \<lparr>fl_tasks = shards, fl_scenario_count = length scenarios, fl_network_request_count = requests\<rparr>)"

section \<open>Probes\<close>

datatype target_mode = PRODUCTION_READONLY | SANDBOX

record target_profile =
  tp_profile_id :: string
  tp_base_url :: string
  tp_mode :: target_mode

text \<open>
  \<open>ipaddress.ip_address\<close> is a parameter, because the tables of private networks differ between Python
  releases: None for a text that is no address, and otherwise whether it is private, loopback or
  link-local.
\<close>

definition validate_target :: "(string \<Rightarrow> bool option) \<Rightarrow> bool \<Rightarrow> target_profile \<Rightarrow> unit res" where
  "validate_target local_address allow_local profile =
     and_then (urlsplit (tp_base_url profile)) (\<lambda>u.
       if su_scheme u \<noteq> ''https'' \<and> \<not> (allow_local \<and> su_scheme u = ''http'')
       then raise ProbeError ''target scheme is not allowed''
       else if hostname u = [] then raise ProbeError ''target host is missing''
       else if hostname u \<in> {''metadata.google.internal'', ''169.254.169.254''}
       then raise ProbeError ''metadata target is forbidden''
       else if local_address (hostname u) = Some True \<and> \<not> allow_local
       then raise ProbeError ''private/local target is forbidden''
       else Inr ())"

type_synonym probe_transport = "target_profile \<Rightarrow> parity_scenario \<Rightarrow> (int \<times> json) res"

definition wrap_transport :: "parity_scenario \<Rightarrow> 'a res \<Rightarrow> 'a res" where
  "wrap_transport s m =
    (case m of
       Inr x \<Rightarrow> Inr x
     | Inl e \<Rightarrow> if catches PyException e
               then raise ProbeError (''transport failed for '' @ ps_scenario_id s @ '': '' @ class_name (fst e)) else Inl e)"

fun probe_loop ::
    "probe_transport \<Rightarrow> target_profile \<Rightarrow> target_profile \<Rightarrow> parity_scenario list \<Rightarrow> observations \<times> observations \<Rightarrow>
     (observations \<times> observations) res" where
  "probe_loop send lp cp [] acc = Inr acc"
| "probe_loop send lp cp (s # ss) (legacy, candidate) =
    (if \<not> read_only_method (ps_method s) \<and> \<not> (tp_mode lp = SANDBOX \<and> tp_mode cp = SANDBOX)
     then raise ProbeError ''state-changing parity probes require two sandbox targets''
     else and_then (wrap_transport s (and_then (send lp s) (\<lambda>l. and_then (send cp s) (\<lambda>c. Inr (l, c))))) (\<lambda>((ls, lpay), (cs, cpay)).
       probe_loop send lp cp ss
         (legacy(ps_scenario_id s \<mapsto> observation_from_payload ls lpay),
          candidate(ps_scenario_id s \<mapsto> observation_from_payload cs cpay))))"

definition run_dual_probe ::
    "(string \<Rightarrow> bool option) \<Rightarrow> probe_transport \<Rightarrow> parity_scenario list \<Rightarrow> target_profile \<Rightarrow> target_profile \<Rightarrow> bool \<Rightarrow>
     (observations \<times> observations) res" where
  "run_dual_probe local_address send scenarios legacy_profile candidate_profile allow_local =
     and_then (validate_target local_address allow_local legacy_profile) (\<lambda>_.
     and_then (validate_target local_address allow_local candidate_profile) (\<lambda>_.
       if tp_profile_id legacy_profile = tp_profile_id candidate_profile
       then raise ProbeError ''legacy and candidate profiles must differ''
       else probe_loop send legacy_profile candidate_profile scenarios (Map.empty, Map.empty)))"

section \<open>Lemmas: the plan\<close>

lemma deal_length [simp]: "length (deal n i xs shards) = length shards"
  by (induction n i xs shards rule: deal.induct) simp_all

lemma mset_concat_update:
  "k < length ss \<Longrightarrow> mset (concat (ss[k := ss ! k @ [x]])) = add_mset x (mset (concat ss))"
proof (induction ss arbitrary: k)
  case (Cons s ss)
  then show ?case by (cases k) auto
qed simp

lemma deal_mset:
  "0 < n \<Longrightarrow> length shards = n \<Longrightarrow> mset (concat (deal n i xs shards)) = mset xs + mset (concat shards)"
  by (induction n i xs shards rule: deal.induct) (simp_all add: mset_concat_update)

text \<open>The size of shard \<open>j\<close> after \<open>i\<close> items.\<close>

definition share :: "nat \<Rightarrow> nat \<Rightarrow> nat \<Rightarrow> nat" where
  "share n i j = (i + n - 1 - j) div n"

lemma share_step:
  assumes "j < n"
  shows "share n (i + 1) j = share n i j + (if i mod n = j then 1 else 0)"
proof -
  define q r where "q = i div n" and "r = i mod n"
  then have i: "i = q * n + r" and r: "r < n" using assms by simp_all
  have small: "(r + n - 1 - j) div n = (if r \<le> j then 0 else 1)" "(r + n - j) div n = (if r < j then 0 else 1)"
    using assms r by (auto intro!: div_nat_eqI)
  have "i + n - 1 - j = (r + n - 1 - j) + q * n" "i + 1 + n - 1 - j = (r + n - j) + q * n" using assms i by simp_all
  then have "share n i j = q + (r + n - 1 - j) div n" "share n (i + 1) j = q + (r + n - j) div n"
    using assms unfolding share_def by (simp_all only: div_mult_self1)
  then show ?thesis unfolding r_def[symmetric] using small by auto
qed

lemma deal_share:
  "0 < n \<Longrightarrow> length shards = n \<Longrightarrow> \<forall>j<n. length (shards ! j) = share n i j \<Longrightarrow>
   \<forall>j<n. length (deal n i xs shards ! j) = share n (i + length xs) j"
proof (induction n i xs shards rule: deal.induct)
  case (2 n i x xs shards)
  have "\<forall>j<n. length (shards[i mod n := shards ! (i mod n) @ [x]] ! j) = share n (i + 1) j"
    using 2(3,4) by (auto simp: share_step nth_list_update simp del: One_nat_def)
  from "2.IH"[OF 2(2) _ this] show ?case using 2(3) by simp
qed simp

lemma share_balanced: "0 < n \<Longrightarrow> j < n \<Longrightarrow> k < n \<Longrightarrow> share n m j \<le> share n m k + 1"
proof -
  assume n: "0 < n" "j < n" "k < n"
  have "m + n - 1 - j \<le> (m + n - 1 - k) + n" using n by simp
  then have "(m + n - 1 - j) div n \<le> ((m + n - 1 - k) + n) div n" by (rule div_le_mono)
  then show ?thesis using n(1) by (simp add: share_def)
qed

lemma deal_balanced:
  assumes "0 < n" "j < n" "k < n"
  shows "length (deal n 0 xs (replicate n []) ! j) \<le> length (deal n 0 xs (replicate n []) ! k) + 1"
proof -
  have "\<forall>j<n. length (replicate n [] ! j) = share n 0 j" by (simp add: share_def)
  from deal_share[OF assms(1) _ this, of xs] have "\<forall>j<n. length (deal n 0 xs (replicate n []) ! j) = share n (length xs) j" by simp
  then show ?thesis using share_balanced[OF assms] assms by simp
qed

lemma deal_partition: "0 < n \<Longrightarrow> mset (concat (deal n 0 xs (replicate n []))) = mset xs"
  by (simp add: deal_mset)

lemma plan_fleet_Inr:
  assumes "plan_fleet ss k budget = Inr p"
  shows "mset (concat (fl_tasks p)) = mset (map ps_scenario_id ss) \<and> distinct (map ps_scenario_id ss) \<and>
    int (length (fl_tasks p)) = min k (int (length ss)) \<and>
    (\<forall>i<length (fl_tasks p). \<forall>j<length (fl_tasks p). length (fl_tasks p ! i) \<le> length (fl_tasks p ! j) + 1) \<and>
    list_all (read_only_method \<circ> ps_method) ss \<and> fl_network_request_count p = 2 * length ss \<and>
    fl_network_request_count p \<le> max_network_requests budget \<and> length (fl_tasks p) \<le> max_tasks budget"
proof -
  let ?n = "nat (min k (int (length ss)))"
  let ?sh = "deal ?n 0 (map ps_scenario_id ss) (replicate ?n [])"
  have p: "p = \<lparr>fl_tasks = ?sh, fl_scenario_count = length ss, fl_network_request_count = length ss * 2\<rparr>"
    and c: "ss \<noteq> []" "\<not> list_ex (\<lambda>s. \<not> read_only_method (ps_method s)) ss" "1 \<le> min k (int (length ss))"
      "min k (int (length ss)) \<le> int (max_tasks budget)" "length ss * 2 \<le> max_network_requests budget" "distinct (concat ?sh)"
    using assms unfolding plan_fleet_def Let_def
    by (simp_all only: split: if_splits) (simp_all add: not_less del: min_less_iff_conj min_le_iff_disj min_less_iff_disj)
  have n: "0 < ?n" using c(3) by linarith
  have m: "mset (concat ?sh) = mset (map ps_scenario_id ss)" by (rule deal_partition[OF n])
  then have "distinct (map ps_scenario_id ss)" using c(6) mset_eq_imp_distinct_iff by metis
  moreover have "list_all (read_only_method \<circ> ps_method) ss" using c(2) by (auto simp: list_all_iff list_ex_iff)
  ultimately show ?thesis using m c deal_balanced[OF n] by (auto simp: p)
qed

text \<open>For scenarios with distinct names the final check of the plan never fails.\<close>

lemma plan_fleet_ok:
  assumes "ss \<noteq> []" "list_all (read_only_method \<circ> ps_method) ss" "length ss \<le> max_scenarios budget"
    and "1 \<le> k" "k \<le> int (max_tasks budget)" "2 * length ss \<le> max_network_requests budget"
    and "distinct (map ps_scenario_id ss)"
  shows "ok (plan_fleet ss k budget)"
proof -
  let ?n = "nat (min k (int (length ss)))"
  have "0 < length ss" using assms(1) by simp
  then have n: "0 < ?n" using assms(4) by simp
  have m: "mset (concat (deal ?n 0 (map ps_scenario_id ss) (replicate ?n []))) = mset (map ps_scenario_id ss)"
    by (rule deal_partition[OF n])
  then have "distinct (concat (deal ?n 0 (map ps_scenario_id ss) (replicate ?n [])))"
    "set (concat (deal ?n 0 (map ps_scenario_id ss) (replicate ?n []))) = set (map ps_scenario_id ss)"
    using assms(7) mset_eq_imp_distinct_iff mset_eq_setD by metis+
  moreover have "\<not> list_ex (\<lambda>s. \<not> read_only_method (ps_method s)) ss" using assms(2) by (auto simp: list_all_iff list_ex_iff)
  moreover have "\<not> (min k (int (length ss)) < 1 \<or> min k (int (length ss)) > int (max_tasks budget))"
    using assms(4,5) \<open>0 < length ss\<close> by linarith
  ultimately show ?thesis using assms(1,3,6) unfolding plan_fleet_def Let_def
    by (simp del: min_less_iff_conj min_less_iff_disj)
qed

section \<open>Lemmas: comparison\<close>

lemma compare_case_Inr:
  "compare_case l c s = Inr r \<Longrightarrow> \<exists>x y. l (ps_scenario_id s) = Some x \<and> c (ps_scenario_id s) = Some y \<and>
   pc_blocking r = ps_blocking s \<and> (pc_matched r \<longleftrightarrow> x = y)"
  by (auto simp: compare_case_def Let_def parity_observation.equality split: option.splits if_splits)

lemma parity_compare_cutover:
  assumes "parity_compare ss l c = Inr cs"
  shows "cutover_allowed cs \<longleftrightarrow> (\<forall>s\<in>set ss. ps_blocking s \<longrightarrow> l (ps_scenario_id s) = c (ps_scenario_id s))"
    and "set required_categories \<subseteq> (category_value \<circ> ps_category) ` set ss"
    and "s \<in> set ss \<Longrightarrow> \<exists>x y. l (ps_scenario_id s) = Some x \<and> c (ps_scenario_id s) = Some y"
proof -
  have req: "filter (\<lambda>k. k \<notin> (category_value \<circ> ps_category) ` set ss) required_categories = []"
    and l: "list_all2 (\<lambda>s r. compare_case l c s = Inr r) ss cs"
    using assms by (auto simp: parity_compare_def Let_def map_res_Inr split: if_splits)
  show sub: "set required_categories \<subseteq> (category_value \<circ> ps_category) ` set ss" using req by (auto simp: filter_empty_conv)
  have "required_categories \<noteq> []" by (simp add: required_categories_def)
  then have ne: "ss \<noteq> []" using sub by (cases ss) auto
  have at: "\<exists>x y. l (ps_scenario_id (ss ! i)) = Some x \<and> c (ps_scenario_id (ss ! i)) = Some y \<and>
      pc_blocking (cs ! i) = ps_blocking (ss ! i) \<and> (pc_matched (cs ! i) \<longleftrightarrow> x = y)" if "i < length ss" for i
    using l that compare_case_Inr by (auto simp: list_all2_conv_all_nth)
  show "\<exists>x y. l (ps_scenario_id s) = Some x \<and> c (ps_scenario_id s) = Some y" if "s \<in> set ss"
    using that at by (auto simp: in_set_conv_nth)
  have len: "length cs = length ss" using l by (simp add: list_all2_lengthD)
  have "cutover_allowed cs \<longleftrightarrow> (\<forall>i<length cs. pc_blocking (cs ! i) \<longrightarrow> pc_matched (cs ! i))"
    using ne len by (auto simp: cutover_allowed_def parity_blockers_def filter_empty_conv all_set_conv_all_nth)
  also have "\<dots> \<longleftrightarrow> (\<forall>i<length ss. ps_blocking (ss ! i) \<longrightarrow> l (ps_scenario_id (ss ! i)) = c (ps_scenario_id (ss ! i)))"
    using at len by fastforce
  finally show "cutover_allowed cs \<longleftrightarrow> (\<forall>s\<in>set ss. ps_blocking s \<longrightarrow> l (ps_scenario_id s) = c (ps_scenario_id s))"
    by (simp add: all_set_conv_all_nth)
qed

section \<open>Lemmas: probes\<close>

lemma wrap_transport_Inr: "wrap_transport s m = Inr x \<longleftrightarrow> m = Inr x"
  by (auto simp: wrap_transport_def split: sum.splits if_splits)

lemma probe_loop_other:
  "probe_loop send lp cp ss (l, c) = Inr (l', c') \<Longrightarrow> k \<notin> ps_scenario_id ` set ss \<Longrightarrow> l' k = l k \<and> c' k = c k"
proof (induction ss arbitrary: l c)
  case (Cons s ss)
  then obtain ls lpay cst cpay where "probe_loop send lp cp ss
      (l(ps_scenario_id s \<mapsto> observation_from_payload ls lpay), c(ps_scenario_id s \<mapsto> observation_from_payload cst cpay)) = Inr (l', c')"
    by (auto simp: and_then_Inr split: if_splits)
  from Cons.IH[OF this] Cons.prems(2) show ?case by simp
qed simp

lemma probe_loop_Inr:
  "probe_loop send lp cp ss (l, c) = Inr (l', c') \<Longrightarrow> distinct (map ps_scenario_id ss) \<Longrightarrow> s \<in> set ss \<Longrightarrow>
   \<exists>ls lpay cst cpay. send lp s = Inr (ls, lpay) \<and> send cp s = Inr (cst, cpay) \<and>
     l' (ps_scenario_id s) = Some (observation_from_payload ls lpay) \<and>
     c' (ps_scenario_id s) = Some (observation_from_payload cst cpay) \<and>
     (read_only_method (ps_method s) \<or> tp_mode lp = SANDBOX \<and> tp_mode cp = SANDBOX)"
proof (induction ss arbitrary: l c)
  case (Cons t ss)
  obtain ls lpay cst cpay where t: "send lp t = Inr (ls, lpay)" "send cp t = Inr (cst, cpay)"
    and mode: "read_only_method (ps_method t) \<or> tp_mode lp = SANDBOX \<and> tp_mode cp = SANDBOX"
    and rest: "probe_loop send lp cp ss
      (l(ps_scenario_id t \<mapsto> observation_from_payload ls lpay), c(ps_scenario_id t \<mapsto> observation_from_payload cst cpay)) = Inr (l', c')"
    using Cons.prems(1) by (auto simp: and_then_Inr wrap_transport_Inr split: if_splits)
  show ?case
  proof (cases "s = t")
    case True
    have "ps_scenario_id t \<notin> ps_scenario_id ` set ss" using Cons.prems(2) by auto
    from probe_loop_other[OF rest this] show ?thesis using True t mode by simp
  next
    case False
    then show ?thesis using Cons.IH[OF rest] Cons.prems(2,3) by auto
  qed
qed simp

lemma equal_observations:
  assumes "observation_from_payload a p = observation_from_payload b q" "wf_json p" "wf_json q"
  shows "a = b \<and> (Json.norm p = Json.norm q \<or> sha_collision (canonical_json p) (canonical_json q))"
  using assms sha256_json_inj[OF assms(2,3)] by (auto simp: observation_from_payload_def)

end
