(* ===== verification/Dual_Probe_Claims.thy ===== *)
theory Dual_Probe_Claims
  imports Dual_Probe
begin

text \<open>
  The properties of the comparison of a rebuilt service with its predecessor: what a plan of probes
  covers, and what a cut-over rests on; and two inputs the checks do not catch.
\<close>

section \<open>The plan\<close>

text \<open>A plan assigns every scenario to exactly one task, uses as many tasks as were asked for
  or as there are scenarios, balances them to within one scenario, stays within the budget and only
  probes with methods that do not change state.\<close>

lemma fleet_plan_covers_once:
  assumes "plan_fleet ss k budget = Inr p"
  shows "mset (concat (fl_tasks p)) = mset (map ps_scenario_id ss) \<and> distinct (map ps_scenario_id ss) \<and>
    int (length (fl_tasks p)) = min k (int (length ss)) \<and>
    (\<forall>i<length (fl_tasks p). \<forall>j<length (fl_tasks p). length (fl_tasks p ! i) \<le> length (fl_tasks p ! j) + 1) \<and>
    list_all (read_only_method \<circ> ps_method) ss \<and> fl_network_request_count p = 2 * length ss \<and>
    fl_network_request_count p \<le> max_network_requests budget \<and> length (fl_tasks p) \<le> max_tasks budget"
  by (rule plan_fleet_Inr[OF assms])

definition probe :: "string \<Rightarrow> parity_category \<Rightarrow> parity_scenario" where
  "probe name c = \<lparr>ps_scenario_id = name, ps_category = c, ps_blocking = True, ps_method = ''GET'', ps_path = ''/''\<rparr>"

definition five_probes :: "parity_scenario list" where
  "five_probes = [probe ''a'' PUBLIC_API, probe ''b'' AUTHORIZATION, probe ''c'' DATABASE_BEHAVIOR,
     probe ''d'' ERROR_CONTRACTS, probe ''e'' EDGE_CASES]"

lemma get_read_only: "read_only_method ''GET''"
  by code_simp

lemma five_distinct: "distinct (map ps_scenario_id five_probes)"
  by (simp add: five_probes_def probe_def)

lemma fleet_plan_covers_once_instance:
  "\<exists>p. plan_fleet five_probes 2 default_budget = Inr p \<and> length (fl_tasks p) = 2 \<and>
     mset (concat (fl_tasks p)) = {#''a'', ''b'', ''c'', ''d'', ''e''#}"
proof -
  have "ok (plan_fleet five_probes 2 default_budget)"
    by (rule plan_fleet_ok) (simp_all add: five_probes_def probe_def get_read_only default_budget_def)
  then obtain p where p: "plan_fleet five_probes 2 default_budget = Inr p" unfolding ok_iff by blast
  from fleet_plan_covers_once[OF p] show ?thesis using p by (simp add: five_probes_def probe_def)
qed

section \<open>The cut-over\<close>

text \<open>When the names of the scenarios are distinct, a cut-over is allowed only if, for every
  blocking scenario, the two services answered with the same status and, unless SHA-256 collides on
  the two bodies, with the same body; and every category of behaviour was probed.\<close>

lemma cutover_rests_on_equal_answers:
  assumes "run_dual_probe la send ss lp cp allow_local = Inr (l, c)" "parity_compare ss l c = Inr cs"
    and "distinct (map ps_scenario_id ss)" "cutover_allowed cs"
    and "\<forall>t s st body. send t s = Inr (st, body) \<longrightarrow> wf_json body"
  shows "set required_categories \<subseteq> (category_value \<circ> ps_category) ` set ss \<and>
    (\<forall>s\<in>set ss. ps_blocking s \<longrightarrow> (\<exists>st p q. send lp s = Inr (st, p) \<and> send cp s = Inr (st, q) \<and>
       (Json.norm p = Json.norm q \<or> sha_collision (canonical_json p) (canonical_json q))))"
proof -
  have probes: "probe_loop send lp cp ss (Map.empty, Map.empty) = Inr (l, c)"
    using assms(1) by (auto simp: run_dual_probe_def and_then_Inr split: if_splits)
  have "\<exists>st p q. send lp s = Inr (st, p) \<and> send cp s = Inr (st, q) \<and>
      (Json.norm p = Json.norm q \<or> sha_collision (canonical_json p) (canonical_json q))" if s: "s \<in> set ss" "ps_blocking s" for s
  proof -
    obtain a p b q where a: "send lp s = Inr (a, p)" "send cp s = Inr (b, q)"
      "l (ps_scenario_id s) = Some (observation_from_payload a p)" "c (ps_scenario_id s) = Some (observation_from_payload b q)"
      using probe_loop_Inr[OF probes assms(3) s(1)] by blast
    have "l (ps_scenario_id s) = c (ps_scenario_id s)" using parity_compare_cutover(1)[OF assms(2)] assms(4) s by blast
    then have "observation_from_payload a p = observation_from_payload b q" using a by simp
    moreover have "wf_json p" "wf_json q" using assms(5) a(1,2) by blast+
    ultimately show ?thesis using equal_observations a(1,2) by blast
  qed
  then show ?thesis using parity_compare_cutover(2)[OF assms(2)] by blast
qed

definition legacy_target :: target_profile where
  "legacy_target = \<lparr>tp_profile_id = ''legacy'', tp_base_url = ''https://old.example'', tp_mode = PRODUCTION_READONLY\<rparr>"

definition candidate_target :: target_profile where
  "candidate_target = \<lparr>tp_profile_id = ''candidate'', tp_base_url = ''https://new.example'', tp_mode = PRODUCTION_READONLY\<rparr>"

lemma demo_targets:
  "validate_target (\<lambda>h. None) False legacy_target = Inr ()" "validate_target (\<lambda>h. None) False candidate_target = Inr ()"
  by code_simp+

lemma cutover_rests_on_equal_answers_instance:
  "\<exists>l c cs. run_dual_probe (\<lambda>h. None) (\<lambda>t s. Inr (200, JNull)) five_probes legacy_target candidate_target False = Inr (l, c) \<and>
     parity_compare five_probes l c = Inr cs \<and> cutover_allowed cs \<and>
     set required_categories \<subseteq> (category_value \<circ> ps_category) ` set five_probes"
proof -
  obtain l c where r: "run_dual_probe (\<lambda>h. None) (\<lambda>t s. Inr (200, JNull)) five_probes legacy_target candidate_target False = Inr (l, c)"
    and lc: "l = c" "\<forall>s\<in>set five_probes. l (ps_scenario_id s) = Some (observation_from_payload 200 JNull)"
    using demo_targets by (simp add: run_dual_probe_def five_probes_def probe_def get_read_only wrap_transport_def
        legacy_target_def candidate_target_def)
  obtain cs where cs: "parity_compare five_probes l c = Inr cs" "cutover_allowed cs"
    using lc by (simp add: parity_compare_def five_probes_def probe_def required_categories_def compare_case_def Let_def
        cutover_allowed_def parity_blockers_def)
  show ?thesis
    using cutover_rests_on_equal_answers[OF r cs(1) five_distinct cs(2)] r cs by simp
qed

section \<open>Inputs the checks do not catch\<close>

text \<open>Neither the probe nor the comparison asks for distinct names: when two scenarios share one, the
  second answer replaces the first, and a difference in the first is not seen.\<close>

definition shadowed :: parity_scenario where
  "shadowed = (probe ''a'' PUBLIC_API)\<lparr>ps_path := ''/orders''\<rparr>"

definition regressed :: probe_transport where
  "regressed t s = Inr (if tp_profile_id t = ''candidate'' \<and> ps_path s = ''/orders'' then 500 else 200, JNull)"

theorem shared_name_hides_a_difference:
  "regressed legacy_target shadowed \<noteq> regressed candidate_target shadowed \<and> ps_blocking shadowed \<and>
   (\<exists>l c cs. run_dual_probe (\<lambda>h. None) regressed (shadowed # five_probes) legacy_target candidate_target False = Inr (l, c) \<and>
      parity_compare (shadowed # five_probes) l c = Inr cs \<and> cutover_allowed cs)"
proof -
  obtain l c where r: "run_dual_probe (\<lambda>h. None) regressed (shadowed # five_probes) legacy_target candidate_target False = Inr (l, c)"
    and lc: "l = c" "\<forall>s\<in>set (shadowed # five_probes). l (ps_scenario_id s) = Some (observation_from_payload 200 JNull)"
    using demo_targets by (simp add: run_dual_probe_def five_probes_def probe_def get_read_only wrap_transport_def
        legacy_target_def candidate_target_def regressed_def shadowed_def)
  obtain cs where cs: "parity_compare (shadowed # five_probes) l c = Inr cs" "cutover_allowed cs"
    using lc by (simp add: parity_compare_def five_probes_def probe_def shadowed_def required_categories_def compare_case_def Let_def
        cutover_allowed_def parity_blockers_def)
  have "regressed legacy_target shadowed \<noteq> regressed candidate_target shadowed" "ps_blocking shadowed"
    by (simp_all add: regressed_def shadowed_def probe_def legacy_target_def candidate_target_def)
  then show ?thesis using r cs by blast
qed

text \<open>The check that a target is not local looks at literal addresses only: a name that resolves to the
  local machine passes.\<close>

theorem local_name_is_a_valid_target:
  "validate_target (\<lambda>h. if h = ''127.0.0.1'' then Some True else None) False
     \<lparr>tp_profile_id = ''legacy'', tp_base_url = ''https://localhost:8443'', tp_mode = PRODUCTION_READONLY\<rparr> = Inr () \<and>
   \<not> ok (validate_target (\<lambda>h. if h = ''127.0.0.1'' then Some True else None) False
     \<lparr>tp_profile_id = ''legacy'', tp_base_url = ''https://127.0.0.1:8443'', tp_mode = PRODUCTION_READONLY\<rparr>)"
  by code_simp

end
