(* ===== verification/Settings.thy ===== *)
theory Settings
  imports Gatekeeper
begin

text \<open>
  infrastructure/settings.py: the cloud settings read from the environment, and what a cloud proof
  requires of them.  The environment is a map from names to values.  The lemmas: settings that pass
  the check name a project, a gatekeeper and an attestor and, where signing is required, a key; an
  empty variable counts as absent for the optional settings.
\<close>

section \<open>The environment\<close>

type_synonym env_vars = "string \<rightharpoonup> string"

definition getenv :: "env_vars \<Rightarrow> string \<Rightarrow> string \<Rightarrow> string" where
  "getenv vars name default_value = (case vars name of None \<Rightarrow> default_value | Some v \<Rightarrow> v)"

text \<open>\<open>os.getenv(name) or None\<close>.\<close>

definition getenv_opt :: "env_vars \<Rightarrow> string \<Rightarrow> string option" where
  "getenv_opt vars name = (case vars name of None \<Rightarrow> None | Some v \<Rightarrow> if v = [] then None else Some v)"

section \<open>CloudSettings\<close>

record cloud_settings =
  cs_project_id :: string
  cs_location :: string
  cs_policy_database :: string
  cs_ledger_database :: string
  cs_policy_id :: string
  cs_policy_revision :: int
  cs_policy_sha256 :: "string option"
  cs_kms_key_version :: "string option"
  cs_signing_required :: bool
  cs_gatekeeper_url :: "string option"
  cs_gatekeeper_audience :: "string option"
  cs_attestor_url :: "string option"
  cs_attestor_audience :: "string option"
  cs_evidence_kms_key_version :: "string option"

definition lower :: "string \<Rightarrow> string" where
  "lower s = map ascii_lower s"

definition cloud_settings_from_env :: "env_vars \<Rightarrow> cloud_settings res" where
  "cloud_settings_from_env vars =
    (case parse_int (getenv vars ''RELEASE_SENTINEL_POLICY_REVISION'' ''1'') of
       None \<Rightarrow> raise RuntimeError ''RELEASE_SENTINEL_POLICY_REVISION must be an integer''
     | Some n \<Rightarrow> Inr
       \<lparr>cs_project_id = (case getenv_opt vars ''GOOGLE_CLOUD_PROJECT'' of
          Some p \<Rightarrow> p | None \<Rightarrow> getenv vars ''RELEASE_SENTINEL_CLOUD_PROJECT'' ''''),
        cs_location = getenv vars ''GOOGLE_CLOUD_LOCATION'' ''us-central1'',
        cs_policy_database = getenv vars ''RELEASE_SENTINEL_POLICY_DATABASE'' ''release-sentinel-policy'',
        cs_ledger_database = getenv vars ''RELEASE_SENTINEL_LEDGER_DATABASE'' ''(default)'',
        cs_policy_id = getenv vars ''RELEASE_SENTINEL_POLICY_ID'' ''demo-release-policy'',
        cs_policy_revision = n,
        cs_policy_sha256 = getenv_opt vars ''RELEASE_SENTINEL_POLICY_SHA256'',
        cs_kms_key_version = getenv_opt vars ''RELEASE_SENTINEL_KMS_KEY_VERSION'',
        cs_signing_required = (lower (getenv vars ''RELEASE_SENTINEL_PROVENANCE_SIGNING_REQUIRED'' ''false'') = ''true''),
        cs_gatekeeper_url = getenv_opt vars ''RELEASE_SENTINEL_GATEKEEPER_URL'',
        cs_gatekeeper_audience = getenv_opt vars ''RELEASE_SENTINEL_GATEKEEPER_AUDIENCE'',
        cs_attestor_url = getenv_opt vars ''RELEASE_SENTINEL_ATTESTOR_URL'',
        cs_attestor_audience = getenv_opt vars ''RELEASE_SENTINEL_ATTESTOR_AUDIENCE'',
        cs_evidence_kms_key_version = getenv_opt vars ''RELEASE_SENTINEL_EVIDENCE_KMS_KEY_VERSION''\<rparr>)"

definition require_cloud_proof :: "cloud_settings \<Rightarrow> unit res" where
  "require_cloud_proof s =
    (if cs_project_id s = [] then raise RuntimeError ''GOOGLE_CLOUD_PROJECT is required for cloud proof''
     else if cs_policy_revision s < 1 then raise RuntimeError ''policy revision must be positive''
     else if cs_signing_required s \<and> cs_kms_key_version s = None
     then raise RuntimeError ''KMS key version is required when provenance signing is mandatory''
     else if cs_gatekeeper_url s = None then raise RuntimeError ''RELEASE_SENTINEL_GATEKEEPER_URL is required for cloud proof''
     else if cs_attestor_url s = None then raise RuntimeError ''RELEASE_SENTINEL_ATTESTOR_URL is required for cloud proof''
     else Inr ())"

section \<open>Lemmas\<close>

lemma getenv_opt_nonempty: "getenv_opt vars name = Some v \<Longrightarrow> v \<noteq> []"
  by (auto simp: getenv_opt_def split: option.splits if_splits)

lemma cloud_proof_settings:
  assumes "cloud_settings_from_env vars = Inr s" "require_cloud_proof s = Inr ()"
  shows "cs_project_id s \<noteq> [] \<and> 1 \<le> cs_policy_revision s \<and>
    (\<exists>g. cs_gatekeeper_url s = Some g \<and> g \<noteq> []) \<and> (\<exists>a. cs_attestor_url s = Some a \<and> a \<noteq> []) \<and>
    (cs_signing_required s \<longrightarrow> (\<exists>k. cs_kms_key_version s = Some k \<and> k \<noteq> []))"
proof -
  have s: "cs_gatekeeper_url s = getenv_opt vars ''RELEASE_SENTINEL_GATEKEEPER_URL''"
    "cs_attestor_url s = getenv_opt vars ''RELEASE_SENTINEL_ATTESTOR_URL''"
    "cs_kms_key_version s = getenv_opt vars ''RELEASE_SENTINEL_KMS_KEY_VERSION''"
    using assms(1) by (auto simp: cloud_settings_from_env_def split: option.splits)
  have r: "cs_project_id s \<noteq> []" "1 \<le> cs_policy_revision s" "cs_gatekeeper_url s \<noteq> None" "cs_attestor_url s \<noteq> None"
    "cs_signing_required s \<longrightarrow> cs_kms_key_version s \<noteq> None"
    using assms(2) unfolding require_cloud_proof_def by (simp_all split: if_splits)
  then show ?thesis using getenv_opt_nonempty s by (metis not_None_eq)
qed

end
