(* ===== verification/Demo_Runtime.thy ===== *)
theory Demo_Runtime
  imports Settings
begin

text \<open>
  webmcp/demo_scenarios.py, webmcp/demo_runtime.py and infrastructure/attestor.py: the three
  demonstration releases, the fixtures that belong to them, the evaluation of a fixture by the engine
  and its signed form.  What the package holds on disk is a parameter (\<open>demo_package\<close>).  The lemmas:
  every fixture a scenario names is in the table of fixtures, with the exit code its name promises;
  and an evaluation is one run of the engine on the tree whose digest it returns.
\<close>

section \<open>Scenarios\<close>

datatype demo_release_id = CrossTenant | PathTraversal | EvidenceTamper

fun release_value :: "demo_release_id \<Rightarrow> string" where
  "release_value CrossTenant = ''demo-cross-tenant''"
| "release_value PathTraversal = ''demo-path-traversal''"
| "release_value EvidenceTamper = ''demo-evidence-tamper''"

definition demo_release_ids :: "demo_release_id list" where
  "demo_release_ids = [CrossTenant, PathTraversal, EvidenceTamper]"

datatype proof_id = CurrentProof | CrossTenantFixed | PathTraversalFixed | EvidenceTamperFixed

fun proof_value :: "proof_id \<Rightarrow> string" where
  "proof_value CurrentProof = ''demo-current''"
| "proof_value CrossTenantFixed = ''demo-cross-tenant-fixed''"
| "proof_value PathTraversalFixed = ''demo-path-traversal-fixed''"
| "proof_value EvidenceTamperFixed = ''demo-evidence-tamper-fixed''"

definition proof_ids :: "proof_id list" where
  "proof_ids = [CurrentProof, CrossTenantFixed, PathTraversalFixed, EvidenceTamperFixed]"

record demo_scenario =
  ds_release_id :: demo_release_id
  ds_label :: string
  ds_vulnerable_fixture :: string
  ds_fixed_fixture :: string
  ds_fixed_proof_id :: proof_id

fun scenario_of :: "demo_release_id \<Rightarrow> demo_scenario" where
  "scenario_of CrossTenant =
    \<lparr>ds_release_id = CrossTenant, ds_label = ''Cross-tenant authorization'',
     ds_vulnerable_fixture = ''cross_tenant_vulnerable'', ds_fixed_fixture = ''cross_tenant_fixed'',
     ds_fixed_proof_id = CrossTenantFixed\<rparr>"
| "scenario_of PathTraversal =
    \<lparr>ds_release_id = PathTraversal, ds_label = ''Path traversal containment'',
     ds_vulnerable_fixture = ''path_traversal_vulnerable'', ds_fixed_fixture = ''path_traversal_fixed'',
     ds_fixed_proof_id = PathTraversalFixed\<rparr>"
| "scenario_of EvidenceTamper =
    \<lparr>ds_release_id = EvidenceTamper, ds_label = ''Evidence digest binding'',
     ds_vulnerable_fixture = ''evidence_tamper_vulnerable'', ds_fixed_fixture = ''evidence_tamper_fixed'',
     ds_fixed_proof_id = EvidenceTamperFixed\<rparr>"

definition proof_to_scenario :: "proof_id \<Rightarrow> demo_scenario option" where
  "proof_to_scenario p = List.find (\<lambda>s. ds_fixed_proof_id s = p) (map scenario_of demo_release_ids)"

definition supported_release_ids :: "string list" where
  "supported_release_ids = map release_value demo_release_ids"

definition supported_proof_ids :: "string list" where
  "supported_proof_ids = map proof_value proof_ids"

definition get_scenario :: "string \<Rightarrow> demo_scenario res" where
  "get_scenario release_id =
    (case List.find (\<lambda>r. release_value r = release_id) demo_release_ids of
       None \<Rightarrow> raise KeyError release_id
     | Some r \<Rightarrow> Inr (scenario_of r))"

definition fixture_for_proof :: "string \<Rightarrow> (string \<times> demo_scenario option) res" where
  "fixture_for_proof proof =
    (case List.find (\<lambda>p. proof_value p = proof) proof_ids of
       None \<Rightarrow> raise KeyError proof
     | Some p \<Rightarrow>
         if p = CurrentProof then Inr (ds_vulnerable_fixture (scenario_of CrossTenant), None)
         else (case proof_to_scenario p of
           None \<Rightarrow> raise KeyError (proof_value p)
         | Some s \<Rightarrow> Inr (ds_fixed_fixture s, Some s)))"

section \<open>Fixtures\<close>

definition fixture_table :: "(string \<times> string \<times> int) list" where
  "fixture_table =
    [(''vulnerable'', ''repository_vulnerable'', 1),
     (''fixed'', ''repository_fixed'', 0),
     (''cross_tenant_vulnerable'', ''repository_vulnerable'', 1),
     (''cross_tenant_fixed'', ''repository_fixed'', 0),
     (''path_traversal_vulnerable'', ''repository_path_traversal_vulnerable'', 1),
     (''path_traversal_fixed'', ''repository_path_traversal_fixed'', 0),
     (''evidence_tamper_vulnerable'', ''repository_evidence_tamper_vulnerable'', 1),
     (''evidence_tamper_fixed'', ''repository_evidence_tamper_fixed'', 0)]"

text \<open>
  The package on disk: the components of \<open>demo_base()\<close>, and for every directory below it whether it
  exists, its files and its entries; and the parsed policy document.
\<close>

record demo_package =
  pk_base :: "string list"
  pk_exists :: "string \<Rightarrow> bool"
  pk_files :: "string \<Rightarrow> fixture_file list"
  pk_entries :: "string \<Rightarrow> fs_entry list"
  pk_policy :: json

definition demo_release_policy :: "demo_package \<Rightarrow> release_policy res" where
  "demo_release_policy pk = build_policy (pk_policy pk)"

definition fixture_definition :: "string \<Rightarrow> (string \<times> int) res" where
  "fixture_definition name =
    (case map_of fixture_table name of
       Some d \<Rightarrow> Inr d
     | None \<Rightarrow> raise ValueError (''unknown package-owned demo fixture: '' @ name))"

definition directory_digest :: "demo_package \<Rightarrow> string \<Rightarrow> string" where
  "directory_digest pk directory = fixture_digest (length (pk_base pk) + 1) (pk_files pk directory)"

definition fixture_source_sha :: "demo_package \<Rightarrow> string \<Rightarrow> string res" where
  "fixture_source_sha pk name =
     and_then (fixture_definition name) (\<lambda>(directory, code). Inr (directory_digest pk directory))"

text \<open>\<open>ReleaseRequest.__post_init__\<close> refuses a path that is no directory.\<close>

definition evaluate_fixture :: "demo_package \<Rightarrow> string \<times> string \<Rightarrow> string \<Rightarrow> string \<Rightarrow> (release_report \<times> string) res" where
  "evaluate_fixture pk stamp name release_id =
     and_then (fixture_definition name) (\<lambda>(directory, code).
     and_then (fixture_source_sha pk name) (\<lambda>source_sha.
       if \<not> pk_exists pk directory then raise ValueError ''repository_path must be an existing directory'' else
     and_then (demo_release_policy pk) (\<lambda>policy.
     and_then (evaluate
         (\<lambda>root command. demo_execute source_sha code (length (pk_base pk) + 1) (pk_files pk directory) command)
         None local_gatekeeper (pk_entries pk directory) stamp
         \<lparr>rq_release_id = release_id, rq_root = pk_base pk @ [directory], rq_commit_sha = None\<rparr> policy) (\<lambda>report.
       Inr (report, source_sha)))))"

section \<open>Attested fixtures\<close>

record attestor_client =
  at_base_url :: string
  at_audience :: "string option"

definition attestor_init :: "string \<Rightarrow> string option \<Rightarrow> attestor_client res" where
  "attestor_init base aud =
    (let value = rstrip_slash base in
     if \<not> starts_with value ''http://'' \<and> \<not> starts_with value ''https://'' then raise ValueError ''attestor URL must be http(s)''
     else Inr \<lparr>at_base_url = value, at_audience = aud\<rparr>)"

definition attest_fixture :: "environment \<Rightarrow> attestor_client \<Rightarrow> string \<Rightarrow> string \<Rightarrow> json res" where
  "attest_fixture env c fixture_name release_id =
     and_then (authorization_header (fetch_id_token env)
         \<lparr>base_url = at_base_url c, audience = at_audience c, protocol_version = ''''\<rparr>) (\<lambda>auth.
       let headers = (''Content-Type'', ''application/json'') #
             (case auth of None \<Rightarrow> [] | Some a \<Rightarrow> [(''Authorization'', a)]) in
     and_then (transport env (at_base_url c @ ''/v1/attest/release/'' @ fixture_name) headers
         (JObj [(''release_id'', JStr release_id)])) (\<lambda>payload.
     and_then (attr_get payload ''attested'') (\<lambda>attested.
       if \<not> truthy attested then raise RuntimeError ''evidence attestor did not produce a signed bundle''
       else Inr payload)))"

text \<open>
  What a process has around it: the package, the HTTP environment, the demo signer (or why there is
  none), the environment variables, the clock and fresh identifiers.
\<close>

record demo_world =
  dw_package :: demo_package
  dw_environment :: environment
  dw_signer :: "(bytes \<Rightarrow> (bytes \<times> string) res) res"
  dw_env :: env_vars
  dw_clock :: int
  dw_fresh :: "string \<times> string"
  dw_stamp :: "string \<times> string"

definition default_ttl_seconds :: int where
  "default_ttl_seconds = 300"

definition sign_report :: "demo_world \<Rightarrow> release_report \<Rightarrow> string \<Rightarrow> signed_bundle res" where
  "sign_report w report source_sha =
     and_then (build_evidence_bundle report source_sha None default_ttl_seconds None None (dw_clock w) (dw_fresh w)) (\<lambda>b.
     and_then (dw_signer w) (\<lambda>sign. sign_evidence_bundle sign b))"

definition signed_fixture :: "demo_world \<Rightarrow> string \<Rightarrow> string \<Rightarrow> json res" where
  "signed_fixture w fixture_name release_id =
     and_then (cloud_settings_from_env (dw_env w)) (\<lambda>settings.
       case cs_attestor_url settings of
         Some url \<Rightarrow>
           and_then (attestor_init url (Some (case cs_attestor_audience settings of Some a \<Rightarrow> a | None \<Rightarrow> url))) (\<lambda>c.
             attest_fixture (dw_environment w) c fixture_name release_id)
       | None \<Rightarrow>
           and_then (evaluate_fixture (dw_package w) (dw_stamp w) fixture_name release_id) (\<lambda>(report, source_sha).
           and_then (sign_report w report source_sha) (\<lambda>signed.
             Inr (JObj
               [(''source_sha256'', JStr source_sha),
                (''policy_sha256'', JStr (rr_policy_sha256 report)),
                (''report'', report_to_dict report),
                (''signed_evidence_bundle'', signed_to_dict signed)]))))"

text \<open>\<open>gatekeeper_from_env(require_remote=True)\<close> in this world.\<close>

definition world_gatekeeper :: "demo_world \<Rightarrow> gatekeeper res" where
  "world_gatekeeper w = gatekeeper_from_env
     (getenv (dw_env w) ''RELEASE_SENTINEL_GATEKEEPER_URL'' '''')
     (getenv (dw_env w) ''RELEASE_SENTINEL_GATEKEEPER_AUDIENCE'' '''')
     (getenv (dw_env w) ''RELEASE_SENTINEL_A2A_VERSION'' version_legacy) True"

section \<open>Lemmas\<close>

lemma scenario_fixtures:
  "\<exists>d. map_of fixture_table (ds_vulnerable_fixture (scenario_of r)) = Some (d, 1)"
  "\<exists>d. map_of fixture_table (ds_fixed_fixture (scenario_of r)) = Some (d, 0)"
  by (cases r; simp add: fixture_table_def)+

lemma get_scenario_value [simp]: "get_scenario (release_value r) = Inr (scenario_of r)"
  by (cases r) (simp_all add: get_scenario_def demo_release_ids_def)

lemma get_scenario_cases:
  "get_scenario rid = (if rid \<in> set supported_release_ids then get_scenario rid else raise KeyError rid)"
  by (simp add: get_scenario_def demo_release_ids_def supported_release_ids_def)

lemma supported_value: "rid \<in> set supported_release_ids \<Longrightarrow> \<exists>r. rid = release_value r"
  by (auto simp: supported_release_ids_def)

lemma get_scenario_Inr: "get_scenario rid = Inr s \<Longrightarrow> \<exists>r. rid = release_value r \<and> s = scenario_of r"
  using get_scenario_cases[of rid] supported_value[of rid] by (fastforce split: if_splits)

lemma get_scenario_Inl: "get_scenario rid = Inl e \<Longrightarrow> rid \<notin> set supported_release_ids"
  using supported_value[of rid] by fastforce

lemma scenario_source_sha:
  "ok (fixture_source_sha pk (ds_vulnerable_fixture (scenario_of r)))"
  "ok (fixture_source_sha pk (ds_fixed_fixture (scenario_of r)))"
  using scenario_fixtures[of r] by (auto simp: fixture_source_sha_def fixture_definition_def)

lemma scenario_of_inj: "scenario_of r = scenario_of r' \<longleftrightarrow> r = r'"
  by (cases r; cases r') simp_all

lemma evaluate_fixture_Inr:
  assumes "evaluate_fixture pk stamp name rid = Inr (report, sha)"
  shows "fixture_source_sha pk name = Inr sha \<and> rr_release_id report = rid \<and>
    rr_evidence_sha256 report = finding_set_sha256 (rr_findings report) \<and> rr_decision report = spec_decision (rr_findings report)"
proof -
  obtain d code policy where f: "fixture_definition name = Inr (d, code)" "sha = directory_digest pk d"
    "evaluate (\<lambda>root command. demo_execute sha code (length (pk_base pk) + 1) (pk_files pk d) command)
         None local_gatekeeper (pk_entries pk d) stamp
         \<lparr>rq_release_id = rid, rq_root = pk_base pk @ [d], rq_commit_sha = None\<rparr> policy = Inr report"
    using assms by (auto simp: evaluate_fixture_def fixture_source_sha_def and_then_Inr split: if_splits)
  from evaluate_Inr[OF f(3)] have "rr_decision report = spec_decision (rr_findings report)"
    "rr_evidence_sha256 report = finding_set_sha256 (rr_findings report)"
    by (auto dest: local_gate.decide_spec)
  moreover have "rr_release_id report = rid"
    using f(3) by (auto simp: evaluate_def Let_def and_then_Inr make_report_def case_prod_beta split: if_splits)
  ultimately show ?thesis using f by (simp add: fixture_source_sha_def)
qed

end
