(* ===== verification/Demo_Samples.thy ===== *)
theory Demo_Samples
  imports Samples Demo_Runtime
begin

text \<open>
  A small package of demonstration fixtures and a process around it, which the properties of the
  services over the package are instantiated at.
\<close>

definition demo_package :: demo_package where
  "demo_package = \<lparr>pk_base = [''pkg''], pk_exists = (\<lambda>d. True),
     pk_files = (\<lambda>d. [\<lparr>fx_parts = [''pkg'', d, ''app.py''], fx_bytes = d\<rparr>]), pk_entries = (\<lambda>d. []),
     pk_policy = canonical_payload demo_policy\<rparr>"

definition demo_world :: demo_world where
  "demo_world = \<lparr>dw_package = demo_package,
     dw_environment = \<lparr>transport = (\<lambda>u h p. raise OSError ''no network''), fetch_id_token = (\<lambda>a. raise OSError ''no network''),
       trace_headers = [], current_trace = None, request_ids = (''a'', ''b'')\<rparr>,
     dw_signer = raise RuntimeError ''no key'', dw_env = Map.empty, dw_clock = 7, dw_fresh = (''e'', ''n''), dw_stamp = (''id'', ''now'')\<rparr>"

lemma demo_world_sel: "dw_package demo_world = demo_package" "dw_stamp demo_world = (''id'', ''now'')" "dw_env demo_world = Map.empty"
  by (simp_all add: demo_world_def)

lemma demo_fixture_fixed:
  assumes "fixture_definition name = Inr (d, 0)"
  shows "\<exists>rep. evaluate_fixture demo_package stamp name rid = Inr (rep, directory_digest demo_package d) \<and> rr_decision rep = GO"
proof -
  let ?x = "\<lambda>root command. demo_execute (directory_digest demo_package d) 0 (Suc (Suc 0)) (pk_files demo_package d) command"
  let ?rq = "\<lparr>rq_release_id = rid, rq_root = [''pkg'', d], rq_commit_sha = None\<rparr>"
  have dd: "directory_digest demo_package d = fixture_digest (Suc (Suc 0)) (pk_files demo_package d)"
    by (simp add: directory_digest_def demo_package_def)
  then obtain r where r: "\<And>root. ?x root demo_command = Inr r" "passed r"
    by (auto simp: demo_execute_def passed_def)
  have "collect_evidence ?x [] ?rq demo_policy = Inr ([], 1)"
    using r by (simp add: collect_evidence_def demo_policy_def)
  moreover obtain v where v: "local_gatekeeper rid [] [] = Inr v" "gv_decision v = spec_decision []"
    "\<not> gv_llm_present v" "gv_agent_influence v = 0"
    using judge_decide_spec[of "[]"] by (simp add: local_gatekeeper_def case_prod_beta)
  moreover have "spec_decision [] = GO" by (simp add: spec_decision_GO)
  ultimately have "\<exists>rep. evaluate ?x None local_gatekeeper [] stamp ?rq demo_policy = Inr rep \<and> rr_decision rep = GO"
    using demo_advisories(3) by (auto simp: evaluate_def Let_def make_report_def collect_advisory_def)
  moreover have "build_policy (canonical_payload demo_policy) = Inr demo_policy"
    using build_policy_canonical demo_wf(2) by blast
  ultimately show ?thesis
    using assms by (auto simp: evaluate_fixture_def fixture_source_sha_def demo_release_policy_def dd) (auto simp: demo_package_def)
qed

text \<open>A digest is read from a file as it is.\<close>

lemma strip_hex: "strip (sha256_hex m) = sha256_hex m"
proof -
  have "visible_ascii c" if "c \<in> set (sha256_hex m)" for c
  proof -
    have "\<forall>c\<in>set ''0123456789abcdef''. visible_ascii c" by code_simp
    then show ?thesis using sha256_hex_chars[OF that] unfolding is_hex_def by (rule bspec)
  qed
  then show ?thesis using strip_kept[of "sha256_hex m"] by (cases "sha256_hex m = []") simp_all
qed

text \<open>The vulnerable fixture fails its only check.\<close>

lemma demo_vulnerable_collect:
  "\<exists>f. collect_evidence (\<lambda>root command. demo_execute (directory_digest demo_package d) 1 (Suc (Suc 0)) (pk_files demo_package d) command)
      [] \<lparr>rq_release_id = rid, rq_root = root, rq_commit_sha = None\<rparr> demo_policy = Inr ([f], 1) \<and> finding_level f = NO_GO"
proof -
  have dd: "directory_digest demo_package d = fixture_digest (Suc (Suc 0)) (pk_files demo_package d)"
    by (simp add: directory_digest_def demo_package_def)
  then obtain r where r: "demo_execute (directory_digest demo_package d) 1 (Suc (Suc 0)) (pk_files demo_package d) demo_command = Inr r" "\<not> passed r"
    by (auto simp: demo_execute_def passed_def)
  then show ?thesis
    by (intro exI[of _ "command_finding demo_policy demo_command r"])
      (simp add: collect_evidence_def demo_policy_def command_finding_level demo_command_def)
qed

end
