(* ===== verification/WebMCP.thy ===== *)
theory WebMCP
  imports Demo_Runtime
begin

text \<open>
  webmcp/errors.py and webmcp/remediation_service.py: the service error and the adapter through which
  an untrusted client asks for a repair.  The adapter keeps two tables, of proposals and of
  candidates; the three calls are functions from the tables to an answer and new tables, and
  \<open>adapter_step\<close> is one call by any client in any world.  The lemmas: a failing call changes nothing;
  every record is one the server made itself, under a name derived from its content; and a candidate
  can only be verified after its proposal was made and rebuilt.
\<close>

section \<open>Service errors\<close>

record service_error =
  se_code :: string
  se_message :: string
  se_status :: int
  se_next_action :: "string option"

definition error_payload :: "service_error \<Rightarrow> (string \<times> string) list" where
  "error_payload e = [(''code'', se_code e), (''message'', se_message e)] @
     (case se_next_action e of None \<Rightarrow> [] | Some n \<Rightarrow> if n = [] then [] else [(''next_action'', n)])"

text \<open>A call fails with a service error or with another exception.\<close>

datatype failure = Service service_error | Raised exn

type_synonym 'a svc = "failure + 'a"

definition service_fail :: "string \<Rightarrow> string \<Rightarrow> int \<Rightarrow> string option \<Rightarrow> 'a svc" where
  "service_fail code message status next_action =
     Inl (Service \<lparr>se_code = code, se_message = message, se_status = status, se_next_action = next_action\<rparr>)"

definition lift :: "'a res \<Rightarrow> 'a svc" where
  "lift m = (case m of Inl e \<Rightarrow> Inl (Raised e) | Inr x \<Rightarrow> Inr x)"

definition svc_then :: "'a svc \<Rightarrow> ('a \<Rightarrow> 'b svc) \<Rightarrow> 'b svc" where
  "svc_then m f = (case m of Inl e \<Rightarrow> Inl e | Inr x \<Rightarrow> f x)"

lemma svc_simps [simp]:
  "svc_then (Inl e) f = Inl e" "svc_then (Inr x) f = f x" "lift (Inr x) = Inr x" "lift (Inl ex) = Inl (Raised ex)"
  "service_fail c m s n \<noteq> Inr x" "lift (raise k t) = Inl (Raised (k, t))"
  by (simp_all add: svc_then_def lift_def service_fail_def raise_def)

lemma svc_then_Inr: "svc_then m f = Inr y \<longleftrightarrow> (\<exists>x. m = Inr x \<and> f x = Inr y)"
  by (cases m) auto

lemma lift_Inr: "lift m = Inr x \<longleftrightarrow> m = Inr x"
  by (cases m) auto

section \<open>The tables\<close>

record proposal_record =
  pr_proposal_id :: string
  pr_demo_release_id :: string
  pr_base_source_sha256 :: string
  pr_target_source_sha256 :: string
  pr_fixed_fixture :: string
  pr_fixed_proof_id :: string
  pr_proposal_digest :: string

record candidate_record =
  cr_candidate_id :: string
  cr_proposal_id :: string
  cr_demo_release_id :: string
  cr_old_source_sha256 :: string
  cr_new_source_sha256 :: string
  cr_fixture_name :: string
  cr_proof_id :: string

record adapter =
  ad_proposals :: "string \<rightharpoonup> proposal_record"
  ad_candidates :: "string \<rightharpoonup> candidate_record"

definition empty_adapter :: adapter where
  "empty_adapter = \<lparr>ad_proposals = Map.empty, ad_candidates = Map.empty\<rparr>"

section \<open>Proposing\<close>

definition proposal_payload :: "string \<Rightarrow> string \<Rightarrow> string \<Rightarrow> string \<Rightarrow> string \<Rightarrow> json" where
  "proposal_payload release_id base target fixed_fixture fixed_proof = JObj
    [(''demo_release_id'', JStr release_id),
     (''base_source_sha256'', JStr base),
     (''target_source_sha256'', JStr target),
     (''fixed_fixture'', JStr fixed_fixture),
     (''fixed_proof_id'', JStr fixed_proof),
     (''allowed_paths'', JList [JStr ''app.py'']),
     (''producer'', JStr ''release-sentinel-server-owned-demo-remediation''),
     (''authority'', JStr ''PROPOSAL_ONLY'')]"

definition proposal_record_of :: "demo_scenario \<Rightarrow> string \<Rightarrow> string \<Rightarrow> proposal_record" where
  "proposal_record_of s base target =
    (let release_id = release_value (ds_release_id s);
         digest = sha256_json (proposal_payload release_id base target (ds_fixed_fixture s) (proof_value (ds_fixed_proof_id s))) in
     \<lparr>pr_proposal_id = ''proposal-'' @ take 20 digest, pr_demo_release_id = release_id,
      pr_base_source_sha256 = base, pr_target_source_sha256 = target, pr_fixed_fixture = ds_fixed_fixture s,
      pr_fixed_proof_id = proof_value (ds_fixed_proof_id s), pr_proposal_digest = digest\<rparr>)"

definition proposal_answer :: "demo_scenario \<Rightarrow> proposal_record \<Rightarrow> json" where
  "proposal_answer s p = JObj
    [(''proposal_id'', JStr (pr_proposal_id p)),
     (''demo_release_id'', JStr (pr_demo_release_id p)),
     (''scenario_label'', JStr (ds_label s)),
     (''base_source_sha256'', JStr (pr_base_source_sha256 p)),
     (''target_source_sha256'', JStr (pr_target_source_sha256 p)),
     (''allowed_change_summary'',
       JStr (''Replace only app.py with the package-owned fixed fixture for '' @ ds_label s @ ''.'')),
     (''proposal_digest'', JStr (pr_proposal_digest p)),
     (''authority'', JStr ''PROPOSAL_ONLY''),
     (''approved'', JBool False)]"

definition propose_remediation :: "demo_world \<Rightarrow> string \<Rightarrow> adapter \<Rightarrow> json svc \<times> adapter" where
  "propose_remediation w demo_release_id a =
    (case get_scenario demo_release_id of
       Inl e \<Rightarrow>
         (service_fail ''UNKNOWN_DEMO_RELEASE'' ''demo release is not in the package-owned remediation allowlist'' 404
            (Some (''Call propose_remediation with one of: '' @ join_with '', '' supported_release_ids @ ''.'')), a)
     | Inr s \<Rightarrow>
         (case and_then (fixture_source_sha (dw_package w) (ds_vulnerable_fixture s)) (\<lambda>base.
               and_then (fixture_source_sha (dw_package w) (ds_fixed_fixture s)) (\<lambda>target. Inr (base, target))) of
            Inl e \<Rightarrow> (Inl (Raised e), a)
          | Inr (base, target) \<Rightarrow>
              let p = proposal_record_of s base target in
              (Inr (proposal_answer s p), a\<lparr>ad_proposals := (ad_proposals a)(pr_proposal_id p \<mapsto> p)\<rparr>)))"

section \<open>Rebuilding\<close>

definition candidate_payload :: "proposal_record \<Rightarrow> json" where
  "candidate_payload p = JObj
    [(''proposal_id'', JStr (pr_proposal_id p)),
     (''demo_release_id'', JStr (pr_demo_release_id p)),
     (''old_source_sha256'', JStr (pr_base_source_sha256 p)),
     (''new_source_sha256'', JStr (pr_target_source_sha256 p)),
     (''fixture'', JStr (pr_fixed_fixture p)),
     (''proof_id'', JStr (pr_fixed_proof_id p))]"

definition candidate_record_of :: "proposal_record \<Rightarrow> candidate_record" where
  "candidate_record_of p =
     \<lparr>cr_candidate_id = ''candidate-'' @ take 20 (sha256_json (candidate_payload p)),
      cr_proposal_id = pr_proposal_id p, cr_demo_release_id = pr_demo_release_id p,
      cr_old_source_sha256 = pr_base_source_sha256 p, cr_new_source_sha256 = pr_target_source_sha256 p,
      cr_fixture_name = pr_fixed_fixture p, cr_proof_id = pr_fixed_proof_id p\<rparr>"

definition candidate_answer :: "candidate_record \<Rightarrow> json" where
  "candidate_answer c = JObj
    [(''candidate_id'', JStr (cr_candidate_id c)),
     (''proposal_id'', JStr (cr_proposal_id c)),
     (''demo_release_id'', JStr (cr_demo_release_id c)),
     (''old_source_sha256'', JStr (cr_old_source_sha256 c)),
     (''new_source_sha256'', JStr (cr_new_source_sha256 c)),
     (''build_status'', JStr ''REBUILT_FROM_PACKAGE_OWNED_FIXTURE''),
     (''verdict'', JStr ''NOT_YET_REVERIFIED''),
     (''inherited_verdict'', JBool False),
     (''webmcp_authority'', JStr ''NO_RELEASE_AUTHORITY'')]"

definition rebuild_candidate :: "demo_world \<Rightarrow> string \<Rightarrow> string \<Rightarrow> adapter \<Rightarrow> json svc \<times> adapter" where
  "rebuild_candidate w proposal_id proposal_digest a =
    (case ad_proposals a proposal_id of
       None \<Rightarrow>
         (service_fail ''UNKNOWN_PROPOSAL'' ''proposal was not generated by this server'' 404
            (Some (''Call propose_remediation first and pass the proposal_id it returns. '' @
                   ''Proposal identifiers cannot be invented by the caller.'')), a)
     | Some p \<Rightarrow>
         if pr_proposal_digest p \<noteq> proposal_digest then
           (service_fail ''PROPOSAL_DIGEST_MISMATCH'' ''proposal digest does not match server record'' 409
              (Some ''Pass proposal_digest exactly as returned by propose_remediation.''), a)
         else (case fixture_source_sha (dw_package w) (pr_fixed_fixture p) of
             Inl e \<Rightarrow> (Inl (Raised e), a)
           | Inr actual \<Rightarrow>
               if actual \<noteq> pr_target_source_sha256 p then
                 (service_fail ''TARGET_FIXTURE_MISMATCH'' ''package-owned fixed fixture changed unexpectedly'' 409 None, a)
               else let c = candidate_record_of p in
                 (Inr (candidate_answer c), a\<lparr>ad_candidates := (ad_candidates a)(cr_candidate_id c \<mapsto> c)\<rparr>)))"

section \<open>Verifying\<close>

text \<open>The remote decision of judged mode: any ordinary exception is a service error.\<close>

definition judged_decision :: "demo_world \<Rightarrow> release_report \<Rightarrow> string \<Rightarrow> signed_bundle \<Rightarrow> verdict svc" where
  "judged_decision w report actual_sha sb =
    (case and_then (world_gatekeeper w) (\<lambda>g.
            case g of
              LocalGate \<Rightarrow> raise RuntimeError ''remote Gatekeeper required''
            | RemoteGate c \<Rightarrow>
                decide_attested (dw_environment w) c (rr_release_id report) actual_sha (rr_policy_sha256 report)
                  (signed_to_dict sb) []) of
       Inr v \<Rightarrow> Inr v
     | Inl e \<Rightarrow>
         if catches PyException e then
           service_fail ''GATEKEEPER_DEPENDENCY_UNAVAILABLE''
             (''judged-mode re-verification failed closed: '' @ class_name (fst e)) 503
             (Some (''The candidate remains unapproved. Retry reverify_candidate with the same '' @
                    ''candidate_id and new_source_sha256 once the Gatekeeper is reachable.''))
         else Inl (Raised e))"

definition verification_answer :: "candidate_record \<Rightarrow> string \<Rightarrow> release_report \<Rightarrow> decision \<Rightarrow> string \<Rightarrow> json \<Rightarrow> json" where
  "verification_answer c actual_sha report verdict authority gatekeeper = JObj
    [(''candidate_id'', JStr (cr_candidate_id c)),
     (''demo_release_id'', JStr (cr_demo_release_id c)),
     (''proof_id'', JStr (cr_proof_id c)),
     (''source_sha256'', JStr actual_sha),
     (''fresh_evidence_sha256'', JStr (rr_evidence_sha256 report)),
     (''fresh_evaluation'', JBool True),
     (''final_verdict'', JStr (decision_value verdict)),
     (''authority'', JStr authority),
     (''gatekeeper'', gatekeeper),
     (''webmcp_authority'', JStr ''NO_RELEASE_AUTHORITY'')]"

definition judged_mode :: "demo_world \<Rightarrow> bool" where
  "judged_mode w \<longleftrightarrow> strip (getenv (dw_env w) ''RELEASE_SENTINEL_WEBMCP_JUDGED_MODE'' '''') = ''1''"

definition reverify_candidate :: "demo_world \<Rightarrow> string \<Rightarrow> string \<Rightarrow> adapter \<Rightarrow> json svc" where
  "reverify_candidate w candidate_id new_source_sha256 a =
    (case ad_candidates a candidate_id of
       None \<Rightarrow>
         service_fail ''UNKNOWN_CANDIDATE'' ''candidate was not generated by this server'' 404
           (Some ''Call rebuild_candidate first and pass the candidate_id it returns.'')
     | Some c \<Rightarrow>
         if cr_new_source_sha256 c \<noteq> new_source_sha256 then
           service_fail ''SOURCE_CONTEXT_MISMATCH'' ''candidate source hash does not match rebuild context'' 409
             (Some ''Pass new_source_sha256 exactly as returned by rebuild_candidate.'')
         else
           svc_then (lift (evaluate_fixture (dw_package w) (dw_stamp w) (cr_fixture_name c)
               (''webmcp-'' @ candidate_id @ ''-reverify''))) (\<lambda>(report, actual_sha).
             if actual_sha \<noteq> cr_new_source_sha256 c then
               service_fail ''SOURCE_CONTEXT_MISMATCH'' ''fresh evaluation source hash differs from candidate context'' 409 None
             else if judged_mode w then
               svc_then (lift (sign_report w report actual_sha)) (\<lambda>sb.
               svc_then (judged_decision w report actual_sha sb) (\<lambda>v.
                 Inr (verification_answer c actual_sha report (gv_decision v) ''DETERMINISTIC_GO_GATEKEEPER'' (verdict_to_dict v))))
             else
               Inr (verification_answer c actual_sha report (rr_decision report) ''DETERMINISTIC_GATEKEEPER'' (rr_gatekeeper report))))"

section \<open>Calls\<close>

datatype adapter_call = Propose string | Rebuild string string | Reverify string string

fun perform :: "demo_world \<Rightarrow> adapter_call \<Rightarrow> adapter \<Rightarrow> json svc \<times> adapter" where
  "perform w (Propose r) a = propose_remediation w r a"
| "perform w (Rebuild p d) a = rebuild_candidate w p d a"
| "perform w (Reverify c s) a = (reverify_candidate w c s a, a)"

text \<open>A history is a list of calls, each in its own world: the package may change between calls.\<close>

fun history :: "(demo_world \<times> adapter_call) list \<Rightarrow> adapter" where
  "history [] = empty_adapter"
| "history ((w, call) # earlier) = snd (perform w call (history earlier))"

inductive reachable :: "adapter \<Rightarrow> bool" where
  initial: "reachable empty_adapter"
| call: "reachable a \<Longrightarrow> perform w c a = (r, a') \<Longrightarrow> reachable a'"

section \<open>Lemmas\<close>

text \<open>The two ways a table changes.\<close>

lemma propose_cases:
  "propose_remediation w rid a = (r, a') \<Longrightarrow>
   (\<exists>e. r = Inl e \<and> a' = a) \<or>
   (\<exists>d base target. rid = release_value d \<and>
      fixture_source_sha (dw_package w) (ds_vulnerable_fixture (scenario_of d)) = Inr base \<and>
      fixture_source_sha (dw_package w) (ds_fixed_fixture (scenario_of d)) = Inr target \<and>
      r = Inr (proposal_answer (scenario_of d) (proposal_record_of (scenario_of d) base target)) \<and>
      a' = a\<lparr>ad_proposals := (ad_proposals a)(pr_proposal_id (proposal_record_of (scenario_of d) base target) \<mapsto>
             proposal_record_of (scenario_of d) base target)\<rparr>)"
  using get_scenario_Inr[of rid]
  by (auto simp: propose_remediation_def Let_def service_fail_def and_then_Inr split: sum.splits prod.splits)

lemma rebuild_cases:
  "rebuild_candidate w pid d a = (r, a') \<Longrightarrow>
   (\<exists>e. r = Inl e \<and> a' = a) \<or>
   (\<exists>p. ad_proposals a pid = Some p \<and> pr_proposal_digest p = d \<and>
      fixture_source_sha (dw_package w) (pr_fixed_fixture p) = Inr (pr_target_source_sha256 p) \<and>
      r = Inr (candidate_answer (candidate_record_of p)) \<and>
      a' = a\<lparr>ad_candidates := (ad_candidates a)(cr_candidate_id (candidate_record_of p) \<mapsto> candidate_record_of p)\<rparr>)"
  by (auto simp: rebuild_candidate_def Let_def service_fail_def split: option.splits if_splits sum.splits)

lemma propose_keeps_candidates: "propose_remediation w rid a = (r, a') \<Longrightarrow> ad_candidates a' = ad_candidates a"
  by (auto dest!: propose_cases)

lemma rebuild_keeps_proposals: "rebuild_candidate w pid d a = (r, a') \<Longrightarrow> ad_proposals a' = ad_proposals a"
  by (auto dest!: rebuild_cases)

lemma failing_call_changes_nothing: "perform w c a = (Inl e, a') \<Longrightarrow> a' = a"
  by (cases c) (auto dest: propose_cases rebuild_cases)

lemma history_reachable: "reachable (history calls)"
proof (induction calls)
  case Nil
  then show ?case by (simp add: initial)
next
  case (Cons x calls)
  obtain w c where "x = (w, c)" by (cases x)
  then show ?case using call[OF Cons.IH, of w c] by (cases "perform w c (history calls)") simp
qed

text \<open>Every record is one the server made, filed under a name derived from its content.\<close>

definition adapter_ok :: "adapter \<Rightarrow> bool" where
  "adapter_ok a \<longleftrightarrow>
    (\<forall>pid p. ad_proposals a pid = Some p \<longrightarrow> pid = pr_proposal_id p \<and>
       (\<exists>d base target. p = proposal_record_of (scenario_of d) base target)) \<and>
    (\<forall>cid c. ad_candidates a cid = Some c \<longrightarrow> cid = cr_candidate_id c \<and> cr_proposal_id c \<in> dom (ad_proposals a) \<and>
       (\<exists>d base target. c = candidate_record_of (proposal_record_of (scenario_of d) base target)))"

lemma add_proposal_ok:
  assumes "adapter_ok a" "p = proposal_record_of (scenario_of d) base target"
  shows "adapter_ok (a\<lparr>ad_proposals := (ad_proposals a)(pr_proposal_id p \<mapsto> p)\<rparr>)"
  unfolding adapter_ok_def
proof (intro conjI allI impI)
  fix pid q
  assume "ad_proposals (a\<lparr>ad_proposals := (ad_proposals a)(pr_proposal_id p \<mapsto> p)\<rparr>) pid = Some q"
  then have "q = p \<and> pid = pr_proposal_id p \<or> ad_proposals a pid = Some q" by (auto split: if_splits)
  then show "pid = pr_proposal_id q" "\<exists>d base target. q = proposal_record_of (scenario_of d) base target"
    using assms unfolding adapter_ok_def by blast+
qed (use assms(1) in \<open>auto simp: adapter_ok_def\<close>)

lemma add_candidate_ok:
  assumes "adapter_ok a" "ad_proposals a pid = Some p" "c = candidate_record_of p"
  shows "adapter_ok (a\<lparr>ad_candidates := (ad_candidates a)(cr_candidate_id c \<mapsto> c)\<rparr>)"
  unfolding adapter_ok_def
proof (intro conjI allI impI)
  have p: "pid = pr_proposal_id p" "\<exists>d base target. p = proposal_record_of (scenario_of d) base target"
    using assms(1,2) unfolding adapter_ok_def by blast+
  have "cr_proposal_id c = pr_proposal_id p" using assms(3) by (simp add: candidate_record_of_def)
  then have c: "cr_proposal_id c \<in> dom (ad_proposals a)" using assms(2) p(1) by auto
  fix cid k
  assume "ad_candidates (a\<lparr>ad_candidates := (ad_candidates a)(cr_candidate_id c \<mapsto> c)\<rparr>) cid = Some k"
  then have k: "k = c \<and> cid = cr_candidate_id c \<or> ad_candidates a cid = Some k" by (auto split: if_splits)
  then show "cid = cr_candidate_id k" "\<exists>d base target. k = candidate_record_of (proposal_record_of (scenario_of d) base target)"
    using assms(1,3) p(2) unfolding adapter_ok_def by blast+
  show "cr_proposal_id k \<in> dom (ad_proposals (a\<lparr>ad_candidates := (ad_candidates a)(cr_candidate_id c \<mapsto> c)\<rparr>))"
    using k c assms(1) unfolding adapter_ok_def by auto
qed (use assms(1) in \<open>auto simp: adapter_ok_def\<close>)

lemma perform_ok:
  assumes "adapter_ok a" "perform w c a = (r, a')"
  shows "adapter_ok a'"
proof (cases c)
  case (Propose rid)
  then have "propose_remediation w rid a = (r, a')" using assms(2) by simp
  from propose_cases[OF this] show ?thesis using add_proposal_ok[OF assms(1)] assms(1) by blast
next
  case (Rebuild pid d)
  then have "rebuild_candidate w pid d a = (r, a')" using assms(2) by simp
  from rebuild_cases[OF this] show ?thesis using add_candidate_ok[OF assms(1)] assms(1) by blast
next
  case (Reverify cid sha)
  then show ?thesis using assms by simp
qed

lemma reachable_ok: "reachable a \<Longrightarrow> adapter_ok a"
proof (induction rule: reachable.induct)
  case initial
  then show ?case by (simp add: adapter_ok_def empty_adapter_def)
next
  case (call a w c r a')
  then show ?case using perform_ok by blast
qed

text \<open>Where a record comes from.\<close>

lemma proposal_origin:
  "ad_proposals (history calls) pid = Some p \<Longrightarrow>
   \<exists>later w d base target earlier. calls = later @ (w, Propose (release_value d)) # earlier \<and>
     p = proposal_record_of (scenario_of d) base target \<and>
     fixture_source_sha (dw_package w) (ds_vulnerable_fixture (scenario_of d)) = Inr base \<and>
     fixture_source_sha (dw_package w) (ds_fixed_fixture (scenario_of d)) = Inr target"
proof (induction calls)
  case (Cons x calls)
  obtain w c where x: "x = (w, c)" by (cases x)
  obtain r a' where a': "perform w c (history calls) = (r, a')" by (cases "perform w c (history calls)")
  show ?case
  proof (cases "ad_proposals (history calls) pid = Some p")
    case True
    then show ?thesis using Cons.IH by (metis append_Cons)
  next
    case False
    then have new: "ad_proposals a' pid = Some p" "ad_proposals (history calls) pid \<noteq> Some p" using Cons.prems x a' by simp_all
    obtain rid where c: "c = Propose rid"
      using new a' rebuild_keeps_proposals[of w _ _ "history calls" r a'] by (cases c) auto
    with new a' propose_cases[of w rid "history calls" r a'] obtain d base target where
      "rid = release_value d" "p = proposal_record_of (scenario_of d) base target"
      "fixture_source_sha (dw_package w) (ds_vulnerable_fixture (scenario_of d)) = Inr base"
      "fixture_source_sha (dw_package w) (ds_fixed_fixture (scenario_of d)) = Inr target"
      by (auto split: if_splits)
    then show ?thesis using x c by blast
  qed
qed (simp add: empty_adapter_def)

lemma candidate_origin:
  "ad_candidates (history calls) cid = Some c \<Longrightarrow>
   \<exists>later w pid p earlier. calls = later @ (w, Rebuild pid (pr_proposal_digest p)) # earlier \<and>
     ad_proposals (history earlier) pid = Some p \<and> c = candidate_record_of p \<and>
     fixture_source_sha (dw_package w) (pr_fixed_fixture p) = Inr (pr_target_source_sha256 p)"
proof (induction calls)
  case (Cons x calls)
  obtain w k where x: "x = (w, k)" by (cases x)
  obtain r a' where a': "perform w k (history calls) = (r, a')" by (cases "perform w k (history calls)")
  show ?case
  proof (cases "ad_candidates (history calls) cid = Some c")
    case True
    then show ?thesis using Cons.IH by (metis append_Cons)
  next
    case False
    then have new: "ad_candidates a' cid = Some c" "ad_candidates (history calls) cid \<noteq> Some c" using Cons.prems x a' by simp_all
    obtain pid d where k: "k = Rebuild pid d"
      using new a' propose_keeps_candidates[of w _ "history calls" r a'] by (cases k) auto
    with new a' rebuild_cases[of w pid d "history calls" r a'] obtain p where
      "ad_proposals (history calls) pid = Some p" "pr_proposal_digest p = d" "c = candidate_record_of p"
      "fixture_source_sha (dw_package w) (pr_fixed_fixture p) = Inr (pr_target_source_sha256 p)"
      by (auto split: if_splits)
    then show ?thesis using x k by blast
  qed
qed (simp add: empty_adapter_def)

text \<open>What a successful verification says.\<close>

lemma reverify_Inr:
  assumes "reverify_candidate w cid sha a = Inr answer"
  shows "\<exists>c report verdict authority gatekeeper. ad_candidates a cid = Some c \<and> cr_new_source_sha256 c = sha \<and>
    evaluate_fixture (dw_package w) (dw_stamp w) (cr_fixture_name c) (''webmcp-'' @ cid @ ''-reverify'') = Inr (report, sha) \<and>
    answer = verification_answer c sha report verdict authority gatekeeper \<and>
    (\<not> judged_mode w \<longrightarrow> verdict = rr_decision report) \<and>
    (judged_mode w \<longrightarrow> (\<exists>sb v. sign_report w report sha = Inr sb \<and> judged_decision w report sha sb = Inr v \<and>
       verdict = gv_decision v))"
proof -
  obtain c where c: "ad_candidates a cid = Some c" "cr_new_source_sha256 c = sha"
    using assms by (auto simp: reverify_candidate_def split: option.splits if_splits)
  obtain report actual where e: "evaluate_fixture (dw_package w) (dw_stamp w) (cr_fixture_name c)
      (''webmcp-'' @ cid @ ''-reverify'') = Inr (report, actual)" and actual: "actual = sha"
    using assms c by (auto simp: reverify_candidate_def svc_then_Inr lift_Inr split: if_splits)
  show ?thesis
  proof (cases "judged_mode w")
    case True
    then obtain sb v where "sign_report w report sha = Inr sb" "judged_decision w report sha sb = Inr v"
      "answer = verification_answer c sha report (gv_decision v) ''DETERMINISTIC_GO_GATEKEEPER'' (verdict_to_dict v)"
      using assms c e actual by (auto simp: reverify_candidate_def svc_then_Inr lift_Inr)
    then show ?thesis using c e actual True by blast
  next
    case False
    then have "answer = verification_answer c sha report (rr_decision report) ''DETERMINISTIC_GATEKEEPER'' (rr_gatekeeper report)"
      using assms c e actual by (simp add: reverify_candidate_def)
    then show ?thesis using c e actual False by blast
  qed
qed

lemma judged_decision_Inr:
  assumes "judged_decision w report sha sb = Inr v"
  shows "\<exists>c. world_gatekeeper w = Inr (RemoteGate c) \<and>
    decide_attested (dw_environment w) c (rr_release_id report) sha (rr_policy_sha256 report) (signed_to_dict sb) [] = Inr v"
proof -
  obtain g where g: "world_gatekeeper w = Inr g"
    using assms by (cases "world_gatekeeper w") (auto simp: judged_decision_def split: if_splits)
  show ?thesis
    using assms g by (cases g) (auto simp: judged_decision_def split: if_splits sum.splits)
qed

end
