(* ===== verification/WebMCP_Claims.thy ===== *)
theory WebMCP_Claims
  imports Demo_Samples WebMCP
begin

text \<open>
  The properties of the remediation adapter: what its tables hold, what a verification rests on, and
  what a failing call does.
\<close>

text \<open>Whatever calls were made, in whatever order and while the package changed underneath, every
  proposal and candidate on file is one the server made for one of its three demonstration releases,
  filed under the name derived from its content, and every candidate belongs to a proposal on file.\<close>

lemma adapter_holds_own_records:
  assumes "reachable a"
  shows "(\<forall>pid p. ad_proposals a pid = Some p \<longrightarrow> pid = pr_proposal_id p \<and>
       (\<exists>d base target. p = proposal_record_of (scenario_of d) base target)) \<and>
    (\<forall>cid c. ad_candidates a cid = Some c \<longrightarrow> cid = cr_candidate_id c \<and> cr_proposal_id c \<in> dom (ad_proposals a) \<and>
       (\<exists>d base target. c = candidate_record_of (proposal_record_of (scenario_of d) base target)))"
  using reachable_ok[OF assms] by (simp add: adapter_ok_def)

lemma adapter_holds_own_records_instance:
  "reachable (history [(demo_world, Propose ''demo-path-traversal'')]) \<and>
   (\<exists>pid p. ad_proposals (history [(demo_world, Propose ''demo-path-traversal'')]) pid = Some p \<and> pid = pr_proposal_id p)"
proof -
  obtain base target where "fixture_source_sha demo_package (ds_vulnerable_fixture (scenario_of PathTraversal)) = Inr base"
    "fixture_source_sha demo_package (ds_fixed_fixture (scenario_of PathTraversal)) = Inr target"
    using scenario_source_sha unfolding ok_iff by blast
  then have "ad_proposals (history [(demo_world, Propose (release_value PathTraversal))])
      (pr_proposal_id (proposal_record_of (scenario_of PathTraversal) base target)) =
      Some (proposal_record_of (scenario_of PathTraversal) base target)"
    by (simp add: propose_remediation_def demo_world_sel Let_def del: release_value.simps scenario_of.simps)
  then show ?thesis
    using adapter_holds_own_records[OF history_reachable[of "[(demo_world, Propose ''demo-path-traversal'')]"]]
      history_reachable[of "[(demo_world, Propose ''demo-path-traversal'')]"] by auto
qed

text \<open>Property C11. A candidate is only ever verified after its proposal was made and then rebuilt, in that
  order, and the verdict is fresh: the fixed fixture is evaluated anew, its digest is still the one the
  proposal announced, and outside judged mode the verdict is the strictest level of the findings of
  that evaluation.\<close>

theorem verification_needs_proposal_and_rebuild:
  assumes "reverify_candidate w cid sha (history calls) = Inr answer"
  shows "\<exists>later w2 pid dig middle w1 d earlier report verdict.
    calls = later @ (w2, Rebuild pid dig) # middle @ (w1, Propose (release_value d)) # earlier \<and>
    fixture_source_sha (dw_package w1) (ds_fixed_fixture (scenario_of d)) = Inr sha \<and>
    fixture_source_sha (dw_package w2) (ds_fixed_fixture (scenario_of d)) = Inr sha \<and>
    fixture_source_sha (dw_package w) (ds_fixed_fixture (scenario_of d)) = Inr sha \<and>
    evaluate_fixture (dw_package w) (dw_stamp w) (ds_fixed_fixture (scenario_of d)) (''webmcp-'' @ cid @ ''-reverify'') = Inr (report, sha) \<and>
    obj_get answer ''source_sha256'' = JStr sha \<and> obj_get answer ''final_verdict'' = JStr (decision_value verdict) \<and>
    obj_get answer ''webmcp_authority'' = JStr ''NO_RELEASE_AUTHORITY'' \<and>
    (\<not> judged_mode w \<longrightarrow> verdict = spec_decision (rr_findings report))"
proof -
  obtain c report verdict authority gatekeeper where c: "ad_candidates (history calls) cid = Some c" "cr_new_source_sha256 c = sha"
    "evaluate_fixture (dw_package w) (dw_stamp w) (cr_fixture_name c) (''webmcp-'' @ cid @ ''-reverify'') = Inr (report, sha)"
    "answer = verification_answer c sha report verdict authority gatekeeper" "\<not> judged_mode w \<longrightarrow> verdict = rr_decision report"
    using reverify_Inr[OF assms] by blast
  obtain later w2 pid p rest where r: "calls = later @ (w2, Rebuild pid (pr_proposal_digest p)) # rest"
    "ad_proposals (history rest) pid = Some p" "c = candidate_record_of p"
    "fixture_source_sha (dw_package w2) (pr_fixed_fixture p) = Inr (pr_target_source_sha256 p)"
    using candidate_origin[OF c(1)] by blast
  obtain middle w1 d base target earlier where p: "rest = middle @ (w1, Propose (release_value d)) # earlier"
    "p = proposal_record_of (scenario_of d) base target"
    "fixture_source_sha (dw_package w1) (ds_fixed_fixture (scenario_of d)) = Inr target"
    using proposal_origin[OF r(2)] by blast
  have f: "pr_fixed_fixture p = ds_fixed_fixture (scenario_of d)" "pr_target_source_sha256 p = target"
    by (simp_all add: p(2) proposal_record_of_def Let_def)
  have k: "cr_fixture_name c = ds_fixed_fixture (scenario_of d)" "target = sha"
    using c(2) f r(3) by (simp_all add: candidate_record_of_def)
  have "fixture_source_sha (dw_package w) (ds_fixed_fixture (scenario_of d)) = Inr sha"
    "rr_decision report = spec_decision (rr_findings report)"
    using evaluate_fixture_Inr[OF c(3)] k(1) by simp_all
  moreover have "obj_get answer ''source_sha256'' = JStr sha" "obj_get answer ''final_verdict'' = JStr (decision_value verdict)"
    "obj_get answer ''webmcp_authority'' = JStr ''NO_RELEASE_AUTHORITY''"
    by (simp_all add: c(4) verification_answer_def)
  moreover have "calls = later @ (w2, Rebuild pid (pr_proposal_digest p)) # middle @ (w1, Propose (release_value d)) # earlier"
    using r(1) p(1) by simp
  ultimately show ?thesis using c(3,5) p(3) r(4) unfolding k f by metis
qed

theorem verification_needs_proposal_and_rebuild_witness:
  "\<exists>(p :: proposal_record) (c :: candidate_record) answer. reverify_candidate demo_world (cr_candidate_id c) (cr_new_source_sha256 c)
     (history [(demo_world, Rebuild (pr_proposal_id p) (pr_proposal_digest p)), (demo_world, Propose ''demo-cross-tenant'')]) = Inr answer \<and>
     obj_get answer ''final_verdict'' = JStr ''GO'' \<and> obj_get answer ''source_sha256'' = JStr (cr_new_source_sha256 c)"
proof -
  obtain base target where sha: "fixture_source_sha demo_package (ds_vulnerable_fixture (scenario_of CrossTenant)) = Inr base"
    "fixture_source_sha demo_package (ds_fixed_fixture (scenario_of CrossTenant)) = Inr target"
    using scenario_source_sha unfolding ok_iff by blast
  define p where "p = proposal_record_of (scenario_of CrossTenant) base target"
  define c where "c = candidate_record_of p"
  have p: "pr_fixed_fixture p = ''cross_tenant_fixed''" "pr_target_source_sha256 p = target"
    by (simp_all add: p_def proposal_record_of_def Let_def)
  have c: "cr_fixture_name c = ''cross_tenant_fixed''" "cr_new_source_sha256 c = target"
    using p by (simp_all add: c_def candidate_record_of_def)
  let ?calls = "[(demo_world, Rebuild (pr_proposal_id p) (pr_proposal_digest p)), (demo_world, Propose ''demo-cross-tenant'')]"
  have "ad_proposals (history [(demo_world, Propose (release_value CrossTenant))]) (pr_proposal_id p) = Some p"
    using sha by (simp add: p_def propose_remediation_def demo_world_sel Let_def del: release_value.simps scenario_of.simps)
  then have "ad_candidates (history ?calls) (cr_candidate_id c) = Some c"
    using sha p by (simp add: rebuild_candidate_def Let_def c_def demo_world_sel)
  moreover obtain rep where "evaluate_fixture demo_package (''id'', ''now'') ''cross_tenant_fixed''
      (''webmcp-'' @ cr_candidate_id c @ ''-reverify'') = Inr (rep, directory_digest demo_package ''repository_fixed'')"
    "rr_decision rep = GO"
    using demo_fixture_fixed[of "''cross_tenant_fixed''" "''repository_fixed''" "(''id'', ''now'')"
      "''webmcp-'' @ cr_candidate_id c @ ''-reverify''"] by (auto simp: fixture_definition_def fixture_table_def)
  moreover have "target = directory_digest demo_package ''repository_fixed''"
    using sha(2) by (simp add: fixture_source_sha_def fixture_definition_def fixture_table_def)
  moreover have "\<not> judged_mode demo_world" by (simp add: judged_mode_def demo_world_sel getenv_def)
  ultimately have "\<exists>answer. reverify_candidate demo_world (cr_candidate_id c) target (history ?calls) = Inr answer \<and>
      obj_get answer ''final_verdict'' = JStr ''GO''"
    using c by (auto simp: reverify_candidate_def verification_answer_def demo_world_sel simp del: history.simps)
  then obtain answer where a: "reverify_candidate demo_world (cr_candidate_id c) target (history ?calls) = Inr answer"
    "obj_get answer ''final_verdict'' = JStr ''GO''" by blast
  have "obj_get answer ''source_sha256'' = JStr target" using verification_needs_proposal_and_rebuild[OF a(1)] by blast
  then show ?thesis using a c(2) by blast
qed

text \<open>A call that fails changes nothing, and an identifier that is not on file is refused with
  the error that names it: clients cannot invent proposals or candidates.\<close>

lemma failing_calls_change_nothing:
  "(fst (perform w c a) = Inl e \<longrightarrow> snd (perform w c a) = a) \<and>
   (ad_proposals a pid = None \<longrightarrow> (\<exists>err. fst (perform w (Rebuild pid dig) a) = Inl (Service err) \<and>
      se_code err = ''UNKNOWN_PROPOSAL'' \<and> se_status err = 404)) \<and>
   (ad_candidates a cid = None \<longrightarrow> (\<exists>err. fst (perform w (Reverify cid sha) a) = Inl (Service err) \<and>
      se_code err = ''UNKNOWN_CANDIDATE'' \<and> se_status err = 404)) \<and>
   (rid \<notin> set supported_release_ids \<longrightarrow> (\<exists>err. fst (perform w (Propose rid) a) = Inl (Service err) \<and>
      se_code err = ''UNKNOWN_DEMO_RELEASE'' \<and> se_status err = 404))"
proof -
  have "fst (perform w c a) = Inl e \<Longrightarrow> snd (perform w c a) = a"
    using failing_call_changes_nothing[of w c a e "snd (perform w c a)"] by (cases "perform w c a") simp
  moreover have "rid \<notin> set supported_release_ids \<Longrightarrow> get_scenario rid = Inl (KeyError, rid)"
    using get_scenario_cases[of rid] by (simp add: raise_def)
  ultimately show ?thesis
    by (auto simp: rebuild_candidate_def reverify_candidate_def propose_remediation_def service_fail_def)
qed

lemma failing_calls_change_nothing_instance:
  "snd (perform demo_world (Rebuild ''proposal-x'' ''d'') empty_adapter) = empty_adapter"
proof -
  have "ad_proposals empty_adapter ''proposal-x'' = None" by (simp add: empty_adapter_def)
  then obtain err where e: "fst (perform demo_world (Rebuild ''proposal-x'' ''d'') empty_adapter) = Inl (Service err)"
    using failing_calls_change_nothing[THEN conjunct2, THEN conjunct1] by blast
  show ?thesis by (rule failing_calls_change_nothing[THEN conjunct1, rule_format, OF e])
qed

end
