(* ===== verification/Agentseal.thy ===== *)
theory Agentseal
  imports Immutable
begin

text \<open>
  packages/agentseal: the sealing primitives (seal.py), the sealed stage (stage.py), the differential
  check (check.py) and its certificate (certificate.py).  A Python value is a \<open>stage_value\<close> without
  identity, but for the objects a seal lets through; a stage returns, beside its result, the caller's
  objects as it leaves them.  A pipeline under a hostile variant is a function of the repetition, because
  two runs need not agree.  The hostile variants themselves (hostile.py) are modelled in Hostile; here a
  stage is any behaviour.
  The lemmas: a sealed stage gives a result only if the fingerprint of the caller's objects is the
  same afterwards; a SEALED result means that every repetition gave the baseline artifact; and a
  certificate verifies exactly for sealed reports.
\<close>

section \<open>Sealing\<close>

text \<open>
  The shapes \<open>_plain\<close> distinguishes.  \<open>SLive\<close> is an object of a class derived from \<open>str\<close>, \<open>int\<close> or
  \<open>float\<close>, such as a member of a string enumeration: \<open>_plain\<close> takes it for a scalar and returns the object
  itself, so it has an identity (an address) beside its value; \<open>SEnum\<close> is a member of any other
  enumeration.  \<open>SHasDict\<close> is an object with \<open>to_dict\<close> and what it returns; a mapping key is a text or
  another object with its text.  Sets are of strings or of integers (in iteration order); sets of other
  elements are left out.
\<close>

datatype scalar = TextScalar string | IntScalar int | FloatScalar pyfloat

datatype stage_value =
    SNone
  | SBool bool
  | SInt int
  | SFloat pyfloat
  | SStr string
  | SEnum stage_value
  | SHasDict stage_value
  | SData "(string \<times> stage_value) list"
  | SMap "(pykey \<times> stage_value) list"
  | SStrSet "string list"
  | SIntSet "int list"
  | SBytes bytes
  | SSeq "stage_value list"
  | SOpaque string
  | SLive scalar nat

text \<open>What \<open>_plain\<close> returns.\<close>

datatype plain =
    PNull
  | PBool bool
  | PInt int
  | PFloat pyfloat
  | PStr string
  | PLive scalar nat
  | PList "plain list"
  | PDict "(string \<times> plain) list"

fun plain_of :: "stage_value \<Rightarrow> plain" where
  "plain_of SNone = PNull"
| "plain_of (SBool b) = PBool b"
| "plain_of (SInt i) = PInt i"
| "plain_of (SFloat f) = PFloat f"
| "plain_of (SStr s) = PStr s"
| "plain_of (SEnum v) = plain_of v"
| "plain_of (SHasDict v) = plain_of v"
| "plain_of (SData fs) = PDict (map (\<lambda>(k, v). (k, plain_of v)) fs)"
| "plain_of (SMap kvs) = PDict (dict_of (map (\<lambda>(k, v). (key_str k, plain_of v)) kvs))"
| "plain_of (SStrSet xs) = PList (map PStr (sort xs))"
| "plain_of (SIntSet xs) = PList (map PInt (sort xs))"
| "plain_of (SBytes bs) = PStr (hexdigest bs)"
| "plain_of (SSeq vs) = PList (map plain_of vs)"
| "plain_of (SOpaque r) = PStr r"
| "plain_of (SLive c a) = PLive c a"

text \<open>What \<open>json.dumps\<close> writes for it: a live scalar as its value.\<close>

fun scalar_json :: "scalar \<Rightarrow> json" where
  "scalar_json (TextScalar s) = JStr s"
| "scalar_json (IntScalar i) = JInt i"
| "scalar_json (FloatScalar f) = JFloat f"

fun plain_json :: "plain \<Rightarrow> json" where
  "plain_json PNull = JNull"
| "plain_json (PBool b) = JBool b"
| "plain_json (PInt i) = JInt i"
| "plain_json (PFloat f) = JFloat f"
| "plain_json (PStr s) = JStr s"
| "plain_json (PLive c a) = scalar_json c"
| "plain_json (PList xs) = JList (map plain_json xs)"
| "plain_json (PDict kvs) = JObj (map (\<lambda>(k, v). (k, plain_json v)) kvs)"

definition plain_value :: "stage_value \<Rightarrow> json" where
  "plain_value v = plain_json (plain_of v)"

lemma dict_set_map_values: "map (\<lambda>(k, v). (k, f v)) (dict_set k v d) = dict_set k (f v) (map (\<lambda>(k, v). (k, f v)) d)"
  by (induction k v d rule: dict_set.induct) auto

lemma dict_of_map_values: "map (\<lambda>(k, v). (k, f v)) (dict_of kvs) = dict_of (map (\<lambda>(k, v). (k, f v)) kvs)"
proof -
  have "map (\<lambda>(k, v). (k, f v)) (foldl (\<lambda>d (k, v). dict_set k v d) d kvs) =
      foldl (\<lambda>d (k, v). dict_set k v d) (map (\<lambda>(k, v). (k, f v)) d) (map (\<lambda>(k, v). (k, f v)) kvs)" for d
    by (induction kvs arbitrary: d) (auto simp: dict_set_map_values)
  then show ?thesis by (simp add: dict_of_def)
qed

lemma plain_value_simps [simp]:
  "plain_value SNone = JNull" "plain_value (SBool b) = JBool b" "plain_value (SInt i) = JInt i"
  "plain_value (SFloat f) = JFloat f" "plain_value (SStr s) = JStr s" "plain_value (SEnum v) = plain_value v"
  "plain_value (SHasDict v) = plain_value v" "plain_value (SData fs) = JObj (map (\<lambda>(k, v). (k, plain_value v)) fs)"
  "plain_value (SMap kvs) = JObj (dict_of (map (\<lambda>(k, v). (key_str k, plain_value v)) kvs))"
  "plain_value (SStrSet xs) = JList (map JStr (sort xs))" "plain_value (SIntSet ns) = JList (map JInt (sort ns))"
  "plain_value (SBytes bs) = JStr (hexdigest bs)" "plain_value (SSeq vs) = JList (map plain_value vs)"
  "plain_value (SOpaque r) = JStr r" "plain_value (SLive c a) = scalar_json c"
  by (simp_all add: plain_value_def dict_of_map_values) (simp_all add: comp_def case_prod_unfold)

definition canonical_value :: "stage_value \<Rightarrow> bytes" where
  "canonical_value v = canonical_json (plain_value v)"

definition fingerprint :: "stage_value \<Rightarrow> string" where
  "fingerprint v = sha256_hex (canonical_value v)"

text \<open>
  \<open>seal\<close>: the projection, deeply frozen; as a value it is the projection itself, live scalars included.
  Theory Hostile has the frozen objects on the heap.
\<close>

definition seal :: "stage_value \<Rightarrow> plain" where
  "seal v = plain_of v"

section \<open>The sealed stage\<close>

type_synonym call_args = "stage_value list \<times> (string \<times> stage_value) list"
type_synonym stage = "plain list \<Rightarrow> (string \<times> plain) list \<Rightarrow> call_args \<Rightarrow> stage_value res \<times> call_args"

definition args_value :: "call_args \<Rightarrow> stage_value" where
  "args_value c = SSeq [SSeq (fst c), SMap (map (\<lambda>(k, v). (KStr k, v)) (snd c))]"

text \<open>An exception raised in \<open>finally\<close> replaces the result or the exception of the stage.\<close>

definition sealed_stage :: "string \<Rightarrow> stage \<Rightarrow> call_args \<Rightarrow> stage_value res \<times> call_args" where
  "sealed_stage qualname func live =
    (let before = fingerprint (args_value live);
         (result, live') = func (map seal (fst live)) (map (\<lambda>(k, v). (k, seal v)) (snd live)) live in
     (if fingerprint (args_value live') \<noteq> before
      then raise SealBroken (qualname @ '' altered sealed input; no artifact was produced'')
      else result, live'))"

section \<open>Results and reports\<close>

record variant_result =
  vr_name :: string
  vr_description :: string
  vr_digest :: "string option"
  vr_influenced :: bool
  vr_error :: "string option"
  vr_blocked :: bool

definition vr_status :: "variant_result \<Rightarrow> string" where
  "vr_status r =
    (if vr_influenced r then ''INFLUENCED''
     else if vr_blocked r then ''BLOCKED''
     else if vr_error r \<noteq> None \<and> vr_error r \<noteq> Some [] then ''ERROR''
     else ''SEALED'')"

definition vr_successful :: "variant_result \<Rightarrow> bool" where
  "vr_successful r \<longleftrightarrow> vr_status r \<in> {''SEALED'', ''BLOCKED''}"

record influence_report =
  ir_baseline_digest :: string
  ir_results :: "variant_result list"

definition ir_influenced :: "influence_report \<Rightarrow> variant_result list" where
  "ir_influenced r = filter vr_influenced (ir_results r)"

definition ir_errors :: "influence_report \<Rightarrow> variant_result list" where
  "ir_errors r = filter (\<lambda>x. vr_status x = ''ERROR'') (ir_results r)"

definition ir_blocked :: "influence_report \<Rightarrow> variant_result list" where
  "ir_blocked r = filter vr_blocked (ir_results r)"

definition ir_sealed :: "influence_report \<Rightarrow> bool" where
  "ir_sealed r \<longleftrightarrow> ir_results r \<noteq> [] \<and> list_all vr_successful (ir_results r)"

text \<open>\<open>__str__\<close>: \<open>f"{s:<n}"\<close> pads to the right.\<close>

definition ljust :: "nat \<Rightarrow> string \<Rightarrow> string" where
  "ljust n s = s @ replicate (n - py_len s) CHR '' ''"

definition result_line :: "nat \<Rightarrow> variant_result \<Rightarrow> string" where
  "result_line width r =
     ''  '' @ ljust 4 (if vr_successful r then ''ok'' else ''FAIL'') @ ''  '' @ ljust width (vr_name r) @ ''  '' @
     (case vr_digest r of None \<Rightarrow> ''-'' | Some d \<Rightarrow> if d = [] then ''-'' else py_take 16 d) @ ''  '' @ vr_status r"

definition report_text :: "influence_report \<Rightarrow> string" where
  "report_text r =
    (let width = foldr max (map (py_len \<circ> vr_name) (ir_results r)) 0 in
     join_with [CHR 0x0A]
      ([''baseline artifact digest: '' @ ir_baseline_digest r, ''''] @ map (result_line width) (ir_results r) @
       ['''',
        if ir_sealed r
        then ''SEALED: '' @ nat_dec (length (ir_results r)) @ '' hostile variants; '' @ nat_dec (length (ir_blocked r)) @
             '' blocked fail-closed, artifact otherwise unchanged.''
        else ''NOT SEALED: challenge failed or was inconclusive under ['' @
             join_with '', '' (map vr_name (filter (\<lambda>x. \<not> vr_successful x) (ir_results r))) @ ''].'']))"

section \<open>The check\<close>

record variant =
  hv_name :: string
  hv_description :: string

text \<open>The state of the inner loop; \<open>st_stop\<close> is the effect of \<open>break\<close>.\<close>

record attempt_state =
  st_digest :: "string option"
  st_error :: "string option"
  st_influenced :: bool
  st_blocked :: bool
  st_completed :: bool
  st_stop :: bool

definition initial_attempt :: attempt_state where
  "initial_attempt = \<lparr>st_digest = None, st_error = None, st_influenced = False, st_blocked = False,
     st_completed = False, st_stop = False\<rparr>"

text \<open>\<open>f"{type(exc).__name__}: {exc}"\<close>; the text of a KeyError is the repr of its key.\<close>

definition error_text :: "exn \<Rightarrow> string" where
  "error_text e = class_name (fst e) @ '': '' @ (if fst e = KeyError then repr_str (snd e) else snd e)"

definition attempt :: "string \<Rightarrow> stage_value res \<Rightarrow> attempt_state \<Rightarrow> attempt_state res" where
  "attempt baseline_digest outcome s =
    (case outcome of
       Inr artifact \<Rightarrow>
         let d = fingerprint artifact in
         Inr (s\<lparr>st_digest := Some d, st_completed := True,
                st_influenced := (st_influenced s \<or> d \<noteq> baseline_digest), st_stop := (d \<noteq> baseline_digest)\<rparr>)
     | Inl e \<Rightarrow>
         if catches SealBroken e then
           Inr (s\<lparr>st_error := Some (error_text e), st_digest := None, st_blocked := True, st_completed := True, st_stop := True\<rparr>)
         else if catches PyException e then
           Inr (s\<lparr>st_error := Some (error_text e), st_digest := None\<rparr>)
         else Inl e)"

fun attempts :: "string \<Rightarrow> (nat \<Rightarrow> stage_value res) \<Rightarrow> nat \<Rightarrow> nat \<Rightarrow> attempt_state \<Rightarrow> attempt_state res" where
  "attempts base run i 0 s = Inr s"
| "attempts base run i (Suc n) s =
     and_then (attempt base (run i) s) (\<lambda>s'.
       if st_stop s' then Inr s' else attempts base run (i + 1) n s')"

definition variant_result_of :: "variant \<Rightarrow> attempt_state \<Rightarrow> variant_result" where
  "variant_result_of v s =
     \<lparr>vr_name = hv_name v, vr_description = hv_description v, vr_digest = st_digest s, vr_influenced = st_influenced s,
      vr_error = (if \<not> st_completed s \<and> st_error s = None then Some ''agentseal: hostile variant never completed''
                  else st_error s),
      vr_blocked = st_blocked s\<rparr>"

text \<open>\<open>pipeline v i\<close> is the outcome of repetition \<open>i\<close> under \<open>v\<close>, \<open>baseline_run\<close> the one under the baseline.\<close>

definition check_no_influence ::
    "stage_value res \<Rightarrow> (variant \<Rightarrow> nat \<Rightarrow> stage_value res) \<Rightarrow> variant list \<Rightarrow> int \<Rightarrow> influence_report res" where
  "check_no_influence baseline_run pipeline variants repeat =
     and_then baseline_run (\<lambda>artifact.
       let base = fingerprint artifact in
     and_then (map_res (\<lambda>v. and_then (attempts base (pipeline v) 0 (nat (max 1 repeat)) initial_attempt) (\<lambda>s.
         Inr (variant_result_of v s))) variants) (\<lambda>results.
       Inr \<lparr>ir_baseline_digest = base, ir_results = results\<rparr>))"

definition assert_no_influence ::
    "stage_value res \<Rightarrow> (variant \<Rightarrow> nat \<Rightarrow> stage_value res) \<Rightarrow> variant list \<Rightarrow> int \<Rightarrow> influence_report res" where
  "assert_no_influence baseline_run pipeline variants repeat =
     and_then (check_no_influence baseline_run pipeline variants repeat) (\<lambda>report.
       if \<not> ir_sealed report
       then raise AssertionError (''agent non-influence not established'' @ [CHR 0x0A, CHR 0x0A] @ report_text report)
       else Inr report)"

section \<open>Certificates\<close>

record certificate =
  ct_schema :: string
  ct_subject :: string
  ct_artifact_kind :: string
  ct_baseline_artifact_sha256 :: string
  ct_issued_at_unix :: int
  ct_scope :: string
  ct_interventions :: "(string \<times> json) list list"

definition certificate_schema :: string where
  "certificate_schema = ''agentseal.counterfactual-non-influence.v1''"

definition certificate_scope :: string where
  "certificate_scope = ''Differential hostile-substitution evidence for the tested pipeline and variants; '' @
     ''not a universal proof against untested environmental or infrastructure compromise.''"

definition certificate_payload :: "certificate \<Rightarrow> (string \<times> json) list" where
  "certificate_payload c =
    [(''schema'', JStr (ct_schema c)),
     (''subject'', JStr (ct_subject c)),
     (''artifact_kind'', JStr (ct_artifact_kind c)),
     (''baseline_artifact_sha256'', JStr (ct_baseline_artifact_sha256 c)),
     (''issued_at_unix'', JInt (ct_issued_at_unix c)),
     (''scope'', JStr (ct_scope c)),
     (''interventions'', JList (map JObj (ct_interventions c)))]"

definition certificate_sha256 :: "certificate \<Rightarrow> string" where
  "certificate_sha256 c = sha256_json (JObj (certificate_payload c))"

definition build_certificate :: "influence_report \<Rightarrow> string \<Rightarrow> string \<Rightarrow> int option \<Rightarrow> int \<Rightarrow> certificate" where
  "build_certificate report subject artifact_kind now_unix clock =
    \<lparr>ct_schema = certificate_schema, ct_subject = subject, ct_artifact_kind = artifact_kind,
     ct_baseline_artifact_sha256 = ir_baseline_digest report,
     ct_issued_at_unix = (case now_unix of None \<Rightarrow> clock | Some t \<Rightarrow> t), ct_scope = certificate_scope,
     ct_interventions = map (\<lambda>r.
       [(''name'', JStr (vr_name r)), (''description'', JStr (vr_description r)), (''outcome'', JStr (vr_status r)),
        (''artifact_sha256'', opt_str (vr_digest r)), (''error'', opt_str (vr_error r))]) (ir_results report)\<rparr>"

definition intervention_ok :: "string \<Rightarrow> (string \<times> json) list \<Rightarrow> bool" where
  "intervention_ok base item =
    (let outcome = obj_get (JObj item) ''outcome'' in
     if outcome = JStr ''SEALED'' then obj_get (JObj item) ''artifact_sha256'' = JStr base
     else if outcome = JStr ''BLOCKED'' then obj_get (JObj item) ''artifact_sha256'' = JNull
     else False)"

definition verify_certificate :: "certificate \<Rightarrow> bool" where
  "verify_certificate c \<longleftrightarrow>
     ct_schema c = certificate_schema \<and>
     py_len (ct_baseline_artifact_sha256 c) = 64 \<and> ct_interventions c \<noteq> [] \<and>
     list_all (intervention_ok (ct_baseline_artifact_sha256 c)) (ct_interventions c)"

definition certificate_to_dict :: "certificate \<Rightarrow> json" where
  "certificate_to_dict c = JObj (certificate_payload c @
     [(''certificate_sha256'', JStr (certificate_sha256 c)), (''verified'', JBool (verify_certificate c))])"

section \<open>Lemmas: the check\<close>

text \<open>The four ways a repetition can go.\<close>

definition unchanged :: "string \<Rightarrow> stage_value res \<Rightarrow> bool" where
  "unchanged base m \<longleftrightarrow> (case m of Inr a \<Rightarrow> fingerprint a = base | Inl e \<Rightarrow> False)"

definition moved :: "string \<Rightarrow> stage_value res \<Rightarrow> bool" where
  "moved base m \<longleftrightarrow> (case m of Inr a \<Rightarrow> fingerprint a \<noteq> base | Inl e \<Rightarrow> False)"

definition stopped_by_seal :: "stage_value res \<Rightarrow> bool" where
  "stopped_by_seal m \<longleftrightarrow> (case m of Inr a \<Rightarrow> False | Inl e \<Rightarrow> catches SealBroken e)"

definition failed :: "stage_value res \<Rightarrow> bool" where
  "failed m \<longleftrightarrow> (case m of Inr a \<Rightarrow> False | Inl e \<Rightarrow> \<not> catches SealBroken e)"

lemmas outcome_defs = unchanged_def moved_def stopped_by_seal_def failed_def

lemma error_text_nonempty [simp]: "error_text e \<noteq> []"
  by (simp add: error_text_def)

definition quiet :: "attempt_state \<Rightarrow> bool" where
  "quiet s \<longleftrightarrow> \<not> st_stop s \<and> \<not> st_influenced s \<and> \<not> st_blocked s \<and> st_error s \<noteq> Some []"

lemma attempt_cases:
  assumes "attempt base m s = Inr s'" "quiet s"
  shows "moved base m \<and> st_stop s' \<and> st_influenced s' \<or>
    stopped_by_seal m \<and> st_stop s' \<and> \<not> st_influenced s' \<and> st_blocked s' \<and> st_digest s' = None \<or>
    (unchanged base m \<or> failed m) \<and> quiet s' \<and> (st_error s' = None \<longleftrightarrow> st_error s = None \<and> unchanged base m) \<and>
      (unchanged base m \<longrightarrow> st_digest s' = Some base \<and> st_completed s')"
  using assms
  by (cases m) (auto simp: attempt_def Let_def outcome_defs quiet_def split: if_splits)

text \<open>Either some first repetition moved the artifact or broke the seal, or none did.\<close>

definition calm :: "string \<Rightarrow> (nat \<Rightarrow> stage_value res) \<Rightarrow> nat \<Rightarrow> nat \<Rightarrow> bool" where
  "calm base run i k \<longleftrightarrow> (\<forall>j. i \<le> j \<and> j < k \<longrightarrow> unchanged base (run j) \<or> failed (run j))"

lemma calm_step: "unchanged base (run i) \<or> failed (run i) \<Longrightarrow> calm base run (i + 1) k \<Longrightarrow> calm base run i k"
  unfolding calm_def by (metis Suc_eq_plus1 Suc_leI le_eq_less_or_eq)

lemma attempts_spec:
  assumes "attempts base run i n s = Inr s'" "quiet s"
  shows "(\<exists>k. i \<le> k \<and> k < i + n \<and> calm base run i k \<and>
        (moved base (run k) \<and> st_influenced s' \<or>
         stopped_by_seal (run k) \<and> \<not> st_influenced s' \<and> st_blocked s' \<and> st_digest s' = None)) \<or>
    calm base run i (i + n) \<and> quiet s' \<and>
      (st_error s' = None \<longleftrightarrow> st_error s = None \<and> (\<forall>j. i \<le> j \<and> j < i + n \<longrightarrow> unchanged base (run j))) \<and>
      (st_error s' = None \<and> 0 < n \<longrightarrow> st_digest s' = Some base \<and> st_completed s')"
  using assms
proof (induction n arbitrary: i s)
  case 0
  then show ?case by (intro disjI2) (auto simp: calm_def)
next
  case (Suc n)
  obtain t where t: "attempt base (run i) s = Inr t" "if st_stop t then s' = t else attempts base run (i + 1) n t = Inr s'"
    using Suc.prems(1) by (auto simp: and_then_Inr split: if_splits)
  have all: "(\<forall>j. i \<le> j \<and> j < i + Suc n \<longrightarrow> P j) \<longleftrightarrow> P i \<and> (\<forall>j. i + 1 \<le> j \<and> j < i + 1 + n \<longrightarrow> P j)" for P
  proof -
    have "i \<le> j \<and> j < i + Suc n \<longleftrightarrow> j = i \<or> i + 1 \<le> j \<and> j < i + 1 + n" for j by auto
    then show ?thesis by auto
  qed
  show ?case
  proof (cases "st_stop t")
    case True
    then have "calm base run i i \<and> (moved base (run i) \<and> st_influenced s' \<or>
        stopped_by_seal (run i) \<and> \<not> st_influenced s' \<and> st_blocked s' \<and> st_digest s' = None)"
      using attempt_cases[OF t(1) Suc.prems(2)] t(2) by (auto simp: quiet_def calm_def)
    then show ?thesis by (intro disjI1 exI[of _ i]) simp
  next
    case False
    then have u: "unchanged base (run i) \<or> failed (run i)" "quiet t" "st_error t = None \<longleftrightarrow> st_error s = None \<and> unchanged base (run i)"
        "unchanged base (run i) \<longrightarrow> st_digest t = Some base \<and> st_completed t"
      and a: "attempts base run (i + 1) n t = Inr s'"
      using attempt_cases[OF t(1) Suc.prems(2)] t(2) by auto
    have n0: "n = 0 \<Longrightarrow> s' = t" using a by simp
    from Suc.IH[OF a u(2)] show ?thesis
    proof (elim disjE exE)
      fix k
      assume "i + 1 \<le> k \<and> k < i + 1 + n \<and> calm base run (i + 1) k \<and> (moved base (run k) \<and> st_influenced s' \<or>
        stopped_by_seal (run k) \<and> \<not> st_influenced s' \<and> st_blocked s' \<and> st_digest s' = None)"
      then show ?thesis using calm_step[of base run i k, OF u(1)] by (intro disjI1 exI[of _ k]) auto
    next
      assume k: "calm base run (i + 1) (i + 1 + n) \<and> quiet s' \<and>
        (st_error s' = None \<longleftrightarrow> st_error t = None \<and> (\<forall>j. i + 1 \<le> j \<and> j < i + 1 + n \<longrightarrow> unchanged base (run j))) \<and>
        (st_error s' = None \<and> 0 < n \<longrightarrow> st_digest s' = Some base \<and> st_completed s')"
      then have "calm base run i (i + Suc n)" using calm_step[of base run i "i + Suc n", OF u(1)] by simp
      moreover have "st_error s' = None \<longrightarrow> st_digest s' = Some base \<and> st_completed s'" using k u(3,4) n0 by (cases n) auto
      ultimately show ?thesis using k u(3) unfolding all by (intro disjI2) auto
    qed
  qed
qed

lemma catches_exclusive: "failed m \<Longrightarrow> \<not> unchanged base m" "moved base m \<Longrightarrow> \<not> unchanged base m \<and> \<not> failed m"
  "stopped_by_seal m \<Longrightarrow> \<not> unchanged base m \<and> \<not> failed m \<and> \<not> moved base m"
  by (auto simp: outcome_defs split: sum.splits)

text \<open>When a variant counts as a success.\<close>

definition contained_variant :: "string \<Rightarrow> (nat \<Rightarrow> stage_value res) \<Rightarrow> nat \<Rightarrow> bool" where
  "contained_variant base run n \<longleftrightarrow>
     (\<forall>j<n. unchanged base (run j)) \<or> (\<exists>k<n. stopped_by_seal (run k) \<and> calm base run 0 k)"

lemma variant_status:
  assumes "attempts base run 0 n initial_attempt = Inr s" "0 < n"
  shows "vr_successful (variant_result_of v s) \<longleftrightarrow> contained_variant base run n"
    and "vr_status (variant_result_of v s) = ''SEALED'' \<longleftrightarrow> (\<forall>j<n. unchanged base (run j))"
    and "vr_status (variant_result_of v s) = ''SEALED'' \<Longrightarrow> vr_digest (variant_result_of v s) = Some base"
    and "vr_status (variant_result_of v s) = ''BLOCKED'' \<Longrightarrow> vr_digest (variant_result_of v s) = None"
proof -
  have q: "quiet initial_attempt" "st_error initial_attempt = None" by (simp_all add: quiet_def initial_attempt_def)
  consider (moved) k where "k < n" "calm base run 0 k" "moved base (run k)" "st_influenced s"
    | (blocked) k where "k < n" "calm base run 0 k" "stopped_by_seal (run k)" "\<not> st_influenced s" "st_blocked s" "st_digest s = None"
    | (quiet) "calm base run 0 n" "quiet s" "st_error s = None \<longleftrightarrow> (\<forall>j<n. unchanged base (run j))"
        "st_error s = None \<longrightarrow> st_digest s = Some base \<and> st_completed s"
    using attempts_spec[OF assms(1) q(1)] assms(2) by (simp add: q(2)) blast
  then have "(vr_successful (variant_result_of v s) \<longleftrightarrow> contained_variant base run n) \<and>
    (vr_status (variant_result_of v s) = ''SEALED'' \<longleftrightarrow> (\<forall>j<n. unchanged base (run j))) \<and>
    (vr_status (variant_result_of v s) = ''SEALED'' \<longrightarrow> vr_digest (variant_result_of v s) = Some base) \<and>
    (vr_status (variant_result_of v s) = ''BLOCKED'' \<longrightarrow> vr_digest (variant_result_of v s) = None)"
  proof cases
    case moved
    have "\<not> contained_variant base run n"
    proof
      assume "contained_variant base run n"
      then consider "unchanged base (run k)" | m where "stopped_by_seal (run m)" "calm base run 0 m"
        using moved(1) by (auto simp: contained_variant_def)
      then show False
      proof cases
        case 1
        then show False using catches_exclusive(2) moved(3) by blast
      next
        case 2
        then have "m < k \<or> m = k \<or> k < m" by auto
        then show False using 2 moved catches_exclusive by (auto simp: calm_def)
      qed
    qed
    then show ?thesis using moved catches_exclusive(2)
      by (auto simp: vr_successful_def vr_status_def variant_result_of_def)
  next
    case blocked
    then show ?thesis using catches_exclusive(3)
      by (auto simp: vr_successful_def vr_status_def variant_result_of_def contained_variant_def)
  next
    case quiet
    have "contained_variant base run n \<longleftrightarrow> (\<forall>j<n. unchanged base (run j))"
      using quiet(1) catches_exclusive(3) by (auto simp: contained_variant_def calm_def)
    then show ?thesis using quiet
      by (auto simp: vr_successful_def vr_status_def variant_result_of_def quiet_def)
  qed
  then show "vr_successful (variant_result_of v s) \<longleftrightarrow> contained_variant base run n"
    "vr_status (variant_result_of v s) = ''SEALED'' \<longleftrightarrow> (\<forall>j<n. unchanged base (run j))"
    "vr_status (variant_result_of v s) = ''SEALED'' \<Longrightarrow> vr_digest (variant_result_of v s) = Some base"
    "vr_status (variant_result_of v s) = ''BLOCKED'' \<Longrightarrow> vr_digest (variant_result_of v s) = None" by blast+
qed

section \<open>Lemmas: the projection a stage sees\<close>

fun json_value :: "json \<Rightarrow> stage_value" where
  "json_value JNull = SNone"
| "json_value (JBool b) = SBool b"
| "json_value (JInt i) = SInt i"
| "json_value (JFloat f) = SFloat f"
| "json_value (JStr s) = SStr s"
| "json_value (JList js) = SSeq (map json_value js)"
| "json_value (JObj kvs) = SMap (map (\<lambda>(k, v). (KStr k, json_value v)) kvs)"

text \<open>Field names of a class are distinct; the keys of a mapping need not be distinct as texts.\<close>

fun fields_ok :: "stage_value \<Rightarrow> bool" where
  "fields_ok (SEnum v) = fields_ok v"
| "fields_ok (SHasDict v) = fields_ok v"
| "fields_ok (SData fs) = (distinct (map fst fs) \<and> list_all (\<lambda>(k, v). fields_ok v) fs)"
| "fields_ok (SMap kvs) = list_all (\<lambda>(k, v). fields_ok v) kvs"
| "fields_ok (SSeq vs) = list_all fields_ok vs"
| "fields_ok v = True"

lemma dict_of_keys: "distinct (map fst (dict_of kvs))"
proof -
  have "distinct (map fst d) \<Longrightarrow> distinct (map fst (foldl (\<lambda>d (k, v). dict_set k v d) d kvs))" for d :: "('a \<times> 'b) list"
    by (induction kvs arbitrary: d) (auto simp: distinct_dict_set)
  then show ?thesis by (simp add: dict_of_def)
qed

lemma dict_of_values: "set (dict_of kvs) \<subseteq> set kvs"
proof -
  have "set (foldl (\<lambda>d (k, v). dict_set k v d) d kvs) \<subseteq> set d \<union> set kvs" for d :: "('a \<times> 'b) list"
  proof (induction kvs arbitrary: d)
    case (Cons x kvs)
    have "set (dict_set (fst x) (snd x) d) \<subseteq> insert x (set d)"
      by (induction d) (auto split: if_splits)
    then show ?case using Cons[of "dict_set (fst x) (snd x) d"] by (auto simp: case_prod_beta)
  qed simp
  from this[of "[]"] show ?thesis by (simp add: dict_of_def)
qed

lemma plain_value_keys: "fields_ok v \<Longrightarrow> keys_ok (plain_value v)"
proof (induction v rule: plain_of.induct)
  case (8 fs)
  then show ?case by (auto simp: list_all_iff case_prod_beta comp_def)
next
  case (9 kvs)
  let ?m = "map (\<lambda>(k, v). (key_str k, plain_value v)) kvs"
  have "list_all (\<lambda>(k, v). keys_ok v) ?m" using 9 by (auto simp: list_all_iff case_prod_beta)
  then have "list_all (\<lambda>(k, v). keys_ok v) (dict_of ?m)" using dict_of_values[of ?m] by (auto simp: list_all_iff)
  then show ?case using dict_of_keys by simp
next
  case (15 c a)
  then show ?case by (cases c) simp_all
qed (auto simp: list_all_iff)

lemma plain_json_value: "keys_ok j \<Longrightarrow> plain_value (json_value j) = j"
proof (induction j rule: json_value.induct)
  case (6 js)
  then show ?case by (auto simp: list_all_iff intro!: map_idI)
next
  case (7 kvs)
  have "map (\<lambda>x. (fst x, plain_value (json_value (snd x)))) kvs = kvs"
    using 7 by (auto simp: list_all_iff case_prod_beta intro!: map_idI)
  then show ?case using 7(2) dict_of_distinct[of kvs] by (simp add: case_prod_beta comp_def)
qed simp_all

text \<open>What the stage is handed has the fingerprint of what the caller holds.\<close>

lemma fingerprint_seal: "fields_ok v \<Longrightarrow> fingerprint (json_value (plain_json (seal v))) = fingerprint v"
  by (simp add: fingerprint_def canonical_value_def seal_def plain_json_value plain_value_keys flip: plain_value_def)

section \<open>Lemmas: the sealed stage\<close>

lemma sealed_stage_cases:
  assumes "sealed_stage q f live = (r, live')"
  shows "live' = snd (f (map seal (fst live)) (map (\<lambda>(k, v). (k, seal v)) (snd live)) live) \<and>
    (if fingerprint (args_value live') = fingerprint (args_value live)
     then r = fst (f (map seal (fst live)) (map (\<lambda>(k, v). (k, seal v)) (snd live)) live)
     else r = raise SealBroken (q @ '' altered sealed input; no artifact was produced''))"
  using assms by (auto simp: sealed_stage_def Let_def case_prod_beta split: if_splits)

lemma fingerprint_eq:
  "fingerprint v = fingerprint w \<Longrightarrow> canonical_value v = canonical_value w \<or> sha_collision (canonical_value v) (canonical_value w)"
  using sha256_hex_inj by (simp add: fingerprint_def)

lemma py_len_fingerprint [simp]: "py_len (fingerprint v) = 64"
  by (simp add: fingerprint_def)

section \<open>Lemmas: reports and certificates\<close>

lemma check_Inr:
  assumes "check_no_influence b pipeline vs n = Inr r"
  shows "\<exists>artifact. b = Inr artifact \<and> ir_baseline_digest r = fingerprint artifact \<and>
    list_all2 (\<lambda>v x. \<exists>s. attempts (fingerprint artifact) (pipeline v) 0 (nat (max 1 n)) initial_attempt = Inr s \<and>
      x = variant_result_of v s) vs (ir_results r)"
  using assms by (auto simp: check_no_influence_def Let_def and_then_Inr map_res_Inr elim!: list_all2_mono)

lemma intervention_status:
  assumes "attempts base run 0 n initial_attempt = Inr s" "0 < n"
  shows "intervention_ok base
      [(''name'', JStr a), (''description'', JStr d), (''outcome'', JStr (vr_status (variant_result_of v s))),
       (''artifact_sha256'', opt_str (vr_digest (variant_result_of v s))), (''error'', e)] \<longleftrightarrow>
    vr_successful (variant_result_of v s)"
  using variant_status(3,4)[OF assms, of v] by (auto simp: intervention_ok_def vr_successful_def opt_str_def)

lemma certificate_checks:
  assumes "check_no_influence b pipeline vs n = Inr r"
  shows "verify_certificate (build_certificate r subject kind now clock) \<longleftrightarrow> ir_sealed r"
    and "ir_sealed r \<longleftrightarrow> vs \<noteq> [] \<and> (\<forall>v\<in>set vs. contained_variant (ir_baseline_digest r) (pipeline v) (nat (max 1 n)))"
proof -
  have pos: "0 < nat (max 1 n)" by simp
  obtain a where a: "ir_baseline_digest r = fingerprint a"
    and all: "list_all2 (\<lambda>v x. \<exists>s. attempts (fingerprint a) (pipeline v) 0 (nat (max 1 n)) initial_attempt = Inr s \<and>
      x = variant_result_of v s) vs (ir_results r)"
    using check_Inr[OF assms] by blast
  have ne: "ir_results r = [] \<longleftrightarrow> vs = []" using all by (auto simp: list_all2_Nil2)
  have "list_all (intervention_ok (fingerprint a)) (map (\<lambda>x.
       [(''name'', JStr (vr_name x)), (''description'', JStr (vr_description x)), (''outcome'', JStr (vr_status x)),
        (''artifact_sha256'', opt_str (vr_digest x)), (''error'', opt_str (vr_error x))]) (ir_results r)) \<longleftrightarrow>
      list_all vr_successful (ir_results r)"
    using all intervention_status[OF _ pos] by (induction rule: list_all2_induct) auto
  then show "verify_certificate (build_certificate r subject kind now clock) \<longleftrightarrow> ir_sealed r"
    by (auto simp: verify_certificate_def build_certificate_def ir_sealed_def a)
  have "list_all vr_successful (ir_results r) \<longleftrightarrow> (\<forall>v\<in>set vs. contained_variant (fingerprint a) (pipeline v) (nat (max 1 n)))"
    using all variant_status(1)[OF _ pos] by (induction rule: list_all2_induct) auto
  then show "ir_sealed r \<longleftrightarrow> vs \<noteq> [] \<and> (\<forall>v\<in>set vs. contained_variant (ir_baseline_digest r) (pipeline v) (nat (max 1 n)))"
    by (simp add: ir_sealed_def ne a)
qed

end
