(* ===== verification/Agentseal_Claims.thy ===== *)
theory Agentseal_Claims
  imports Agentseal
begin

text \<open>
  The properties of the sealed stage and of the differential check: what a certificate that verifies
  says of the pipeline, what a sealed stage lets through, and why a pipeline that uses a sealed stage
  and then only its own data is certified.
\<close>

section \<open>What a certificate says\<close>

text \<open>Property C26. A certificate built from the report of a check verifies exactly if there was a variant at
  all and every variant was contained: all its repetitions gave the artifact of the baseline, or the
  seal stopped one of them before any repetition had given another artifact.\<close>

theorem certificate_verifies_iff_contained:
  assumes "check_no_influence baseline_run pipeline variants repeat = Inr report"
  shows "(\<exists>artifact. baseline_run = Inr artifact \<and> ir_baseline_digest report = fingerprint artifact) \<and>
    (verify_certificate (build_certificate report subject kind now clock) \<longleftrightarrow>
      variants \<noteq> [] \<and> (\<forall>v\<in>set variants. contained_variant (ir_baseline_digest report) (pipeline v) (nat (max 1 repeat))))"
  using check_Inr[OF assms] certificate_checks(1)[OF assms, of subject kind now clock] certificate_checks(2)[OF assms] by blast

definition variant_a :: variant where
  "variant_a = \<lparr>hv_name = ''silent'', hv_description = ''returns nothing''\<rparr>"

theorem certificate_verifies_iff_contained_witness:
  "\<exists>report. check_no_influence (Inr (SInt 1)) (\<lambda>v i. if i = 1 then raise SealBroken ''moved'' else Inr (SInt 1)) [variant_a] 3 = Inr report \<and>
     verify_certificate (build_certificate report ''s'' ''k'' (Some 7) 0)"
proof -
  let ?p = "\<lambda>(v :: variant) i :: nat. if i = 1 then raise SealBroken ''moved'' else Inr (SInt 1)"
  obtain report where r: "check_no_influence (Inr (SInt 1)) ?p [variant_a] 3 = Inr report"
    by (simp add: check_no_influence_def numeral_3_eq_3 attempt_def catches_def raise_def initial_attempt_def Let_def)
  have b: "ir_baseline_digest report = fingerprint (SInt 1)"
    using certificate_verifies_iff_contained[OF r] by auto
  have "contained_variant (fingerprint (SInt 1)) (?p variant_a) 3"
    unfolding contained_variant_def
    by (intro disjI2 exI[of _ "1 :: nat"]) (simp add: stopped_by_seal_def calm_def unchanged_def catches_def raise_def)
  then have "verify_certificate (build_certificate report ''s'' ''k'' (Some 7) 0)"
    using certificate_verifies_iff_contained[OF r, of "''s''" "''k''" "Some 7" 0] by (simp add: b)
  then show ?thesis using r by blast
qed

section \<open>What a sealed stage lets through\<close>

text \<open>A sealed stage hands its function only the projections of the arguments, and if the caller's
  objects have another fingerprint afterwards it raises SealBroken, whether the function returned or
  raised.  Whenever it returns, the canonical form of the caller's objects is the one before the call,
  unless these two texts collide under SHA-256.\<close>

lemma sealed_stage_fails_closed:
  assumes "sealed_stage name func live = (r, live')"
  shows "live' = snd (func (map seal (fst live)) (map (\<lambda>(k, v). (k, seal v)) (snd live)) live) \<and>
    (fingerprint (args_value live') \<noteq> fingerprint (args_value live) \<longrightarrow>
      r = Inl (SealBroken, name @ '' altered sealed input; no artifact was produced'')) \<and>
    (\<forall>result. r = Inr result \<longrightarrow> canonical_value (args_value live') = canonical_value (args_value live) \<or>
      sha_collision (canonical_value (args_value live')) (canonical_value (args_value live)))"
  using sealed_stage_cases[OF assms] fingerprint_eq[of "args_value live'" "args_value live"]
  by (auto simp: raise_def split: if_splits)

definition reader :: stage where
  "reader args kwargs live = (Inr (SInt (int (length args))), live)"

lemma sealed_stage_fails_closed_instance:
  "\<exists>r live'. sealed_stage ''review'' reader ([SStr ''evidence''], []) = (r, live') \<and> live' = ([SStr ''evidence''], []) \<and> r = Inr (SInt 1)"
proof -
  obtain r live' where s: "sealed_stage ''review'' reader ([SStr ''evidence''], []) = (r, live')" by (rule prod.exhaust)
  then have "live' = ([SStr ''evidence''], [])" using sealed_stage_fails_closed[OF s] by (simp add: reader_def)
  then show ?thesis using s by (auto simp: sealed_stage_def reader_def)
qed

section \<open>Why sealed pipelines are certified\<close>

text \<open>
  The pipeline the package's documentation asks for: call the stage through its seal, drop its result,
  and build the artifact from the caller's own objects.
\<close>

definition sealed_pipeline :: "string \<Rightarrow> (call_args \<Rightarrow> stage_value) \<Rightarrow> call_args \<Rightarrow> stage \<Rightarrow> stage_value res" where
  "sealed_pipeline name artifact live stage =
    (case sealed_stage name stage live of (Inl e, live') \<Rightarrow> Inl e | (Inr _, live') \<Rightarrow> Inr (artifact live'))"

definition stage_effect :: "call_args \<Rightarrow> stage \<Rightarrow> call_args" where
  "stage_effect live stage = snd (stage (map seal (fst live)) (map (\<lambda>(k, v). (k, seal v)) (snd live)) live)"

definition stage_raises_only_seal :: "call_args \<Rightarrow> stage \<Rightarrow> bool" where
  "stage_raises_only_seal live stage \<longleftrightarrow>
    \<not> failed (fst (stage (map seal (fst live)) (map (\<lambda>(k, v). (k, seal v)) (snd live)) live))"

lemma sealed_pipeline_outcome:
  assumes resp: "\<And>l. canonical_value (args_value l) = canonical_value (args_value live) \<Longrightarrow> fingerprint (artifact l) = fingerprint (artifact live)"
    and nc: "\<not> sha_collision (canonical_value (args_value (stage_effect live stage))) (canonical_value (args_value live))"
    and raises: "stage_raises_only_seal live stage"
  shows "unchanged (fingerprint (artifact live)) (sealed_pipeline name artifact live stage) \<or>
    stopped_by_seal (sealed_pipeline name artifact live stage)"
proof -
  obtain r live' where s: "sealed_stage name stage live = (r, live')" by (rule prod.exhaust)
  have e: "live' = stage_effect live stage" using sealed_stage_cases[OF s] by (simp add: stage_effect_def)
  show ?thesis
  proof (cases r)
    case (Inl x)
    then have "catches SealBroken x"
      using sealed_stage_cases[OF s] raises
      by (auto simp: stage_raises_only_seal_def failed_def raise_def catches_def split: if_splits)
    then show ?thesis using s Inl by (simp add: sealed_pipeline_def stopped_by_seal_def)
  next
    case (Inr x)
    then have "fingerprint (args_value live') = fingerprint (args_value live)"
      using sealed_stage_cases[OF s] by (auto simp: raise_def split: if_splits)
    then have "fingerprint (artifact live') = fingerprint (artifact live)"
      using fingerprint_eq nc resp unfolding e by blast
    then show ?thesis using s Inr by (simp add: sealed_pipeline_def unchanged_def)
  qed
qed

lemma contained_by_outcomes:
  assumes "\<And>i. unchanged base (run i) \<or> stopped_by_seal (run i)"
  shows "contained_variant base run n"
proof (cases "\<exists>k<n. stopped_by_seal (run k)")
  case True
  define k where "k = (LEAST k. k < n \<and> stopped_by_seal (run k))"
  have k: "k < n \<and> stopped_by_seal (run k)" unfolding k_def by (rule LeastI_ex) (use True in blast)
  have "calm base run 0 k"
    unfolding calm_def using assms not_less_Least[of _ "\<lambda>k. k < n \<and> stopped_by_seal (run k)"] k
    unfolding k_def by (meson less_trans)
  then show ?thesis using k by (auto simp: contained_variant_def)
next
  case False
  then show ?thesis using assms by (auto simp: contained_variant_def)
qed

text \<open>A pipeline that calls the stage through its seal, drops the result and builds the artifact from
  its own objects, by a function of their canonical form, is certified against any hostile stages that
  return or break the seal, however they alter the objects they can reach, unless the canonical forms
  of the objects before and after a stage collide under SHA-256.\<close>

lemma sealed_pipeline_is_certified:
  assumes "check_no_influence (sealed_pipeline name artifact live honest)
      (\<lambda>v i. sealed_pipeline name artifact live (hostile v i)) variants repeat = Inr report"
    and "variants \<noteq> []"
    and "\<And>l. canonical_value (args_value l) = canonical_value (args_value live) \<Longrightarrow> fingerprint (artifact l) = fingerprint (artifact live)"
    and "\<And>v i. stage_raises_only_seal live (hostile v i)"
    and "\<And>stage. stage = honest \<or> (\<exists>v i. stage = hostile v i) \<Longrightarrow>
      \<not> sha_collision (canonical_value (args_value (stage_effect live stage))) (canonical_value (args_value live))"
  shows "verify_certificate (build_certificate report subject kind now clock) \<and> ir_baseline_digest report = fingerprint (artifact live)"
proof -
  obtain a where a: "sealed_pipeline name artifact live honest = Inr a" "ir_baseline_digest report = fingerprint a"
    using check_Inr[OF assms(1)] by blast
  obtain r live' where s: "sealed_stage name honest live = (r, live')" by (rule prod.exhaust)
  have e: "live' = stage_effect live honest" using sealed_stage_cases[OF s] by (simp add: stage_effect_def)
  from a(1) s obtain x where x: "r = Inr x" "a = artifact live'" by (auto simp: sealed_pipeline_def split: sum.splits)
  then have "fingerprint (args_value live') = fingerprint (args_value live)"
    using sealed_stage_cases[OF s] by (auto simp: raise_def split: if_splits)
  then have base: "ir_baseline_digest report = fingerprint (artifact live)"
    using fingerprint_eq assms(3) assms(5)[of honest] a(2) x(2) unfolding e by metis
  have "contained_variant (fingerprint (artifact live)) (\<lambda>i. sealed_pipeline name artifact live (hostile v i)) n" for v n
    by (rule contained_by_outcomes, rule sealed_pipeline_outcome) (use assms(3-5) in blast)+
  then show ?thesis using certificate_checks(1)[OF assms(1), of subject kind now clock] certificate_checks(2)[OF assms(1)] base assms(2) by simp
qed

text \<open>A stage that empties the caller's arguments on its first call is stopped by the seal.\<close>

definition vandal :: "variant \<Rightarrow> nat \<Rightarrow> stage" where
  "vandal v i args kwargs live = (Inr SNone, (if i = 0 then ([], []) else live))"

lemma vandal_breaks_seal:
  "sealed_stage ''review'' (vandal v 0) ([SStr ''evidence''], []) = (raise SealBroken ''review altered sealed input; no artifact was produced'', ([], [])) \<or>
   sha_collision (canonical_value (args_value ([], []))) (canonical_value (args_value ([SStr ''evidence''], [])))"
proof (cases "fingerprint (args_value ([], [])) = fingerprint (args_value ([SStr ''evidence''], []))")
  case True
  moreover have "canonical_value (args_value ([], [])) \<noteq> canonical_value (args_value ([SStr ''evidence''], []))"
    unfolding canonical_value_def by (subst canonical_inj) (simp_all add: args_value_def dict_of_def)
  ultimately show ?thesis using fingerprint_eq by blast
qed (simp add: sealed_stage_def vandal_def Let_def)

lemma sealed_pipeline_is_certified_instance:
  "\<exists>report. check_no_influence (sealed_pipeline ''review'' (\<lambda>l. args_value l) ([SStr ''evidence''], []) reader)
      (\<lambda>v i. sealed_pipeline ''review'' (\<lambda>l. args_value l) ([SStr ''evidence''], []) reader) [variant_a] 1 = Inr report \<and>
    verify_certificate (build_certificate report ''s'' ''k'' None 0)"
proof -
  let ?l = "([SStr ''evidence''], []) :: call_args"
  let ?p = "sealed_pipeline ''review'' (\<lambda>l. args_value l) ?l reader"
  have p: "?p = Inr (args_value ?l)" by (simp add: sealed_pipeline_def sealed_stage_def reader_def)
  obtain report where r: "check_no_influence ?p (\<lambda>v i. ?p) [variant_a] 1 = Inr report"
    unfolding p by (simp add: check_no_influence_def attempt_def Let_def initial_attempt_def)
  have eff: "stage_effect ?l reader = ?l" by (simp add: stage_effect_def reader_def)
  have "verify_certificate (build_certificate report ''s'' ''k'' None 0) \<and> ir_baseline_digest report = fingerprint (args_value ?l)"
  proof (rule sealed_pipeline_is_certified[where hostile = "\<lambda>v i. reader", OF r])
    fix l
    assume "canonical_value (args_value l) = canonical_value (args_value ?l)"
    then show "fingerprint (args_value l) = fingerprint (args_value ?l)" by (simp add: fingerprint_def)
  next
    fix stage
    assume "stage = reader \<or> (\<exists>(v :: variant) (i :: nat). stage = reader)"
    then show "\<not> sha_collision (canonical_value (args_value (stage_effect ?l stage))) (canonical_value (args_value ?l))"
      by (auto simp: eff sha_collision_def)
  qed (simp_all add: stage_raises_only_seal_def failed_def reader_def)
  then show ?thesis using r by blast
qed

section \<open>A retry does not clear an error\<close>

text \<open>
  The comment in the check says that a variant stays an error if every run errors.  The error of a
  failed run is kept when a later run succeeds, so one failed run is enough.
\<close>

lemma recovered_variant_stays_an_error:
  assumes "attempts base run 0 n initial_attempt = Inr s" "k < n" "failed (run k)"
    "\<And>j. j < n \<Longrightarrow> unchanged base (run j) \<or> failed (run j)"
  shows "vr_status (variant_result_of v s) = ''ERROR''"
proof -
  have "0 < n" using assms(2) by simp
  have q: "quiet initial_attempt" "st_error initial_attempt = None" by (simp_all add: quiet_def initial_attempt_def)
  have nope: "\<not> (\<exists>k<n. moved base (run k) \<or> stopped_by_seal (run k))"
    using assms(4) catches_exclusive by blast
  have "quiet s" "st_error s = None \<longleftrightarrow> (\<forall>j<n. unchanged base (run j))"
    using attempts_spec[OF assms(1) q(1)] nope by (auto simp: q(2))
  moreover have "\<not> unchanged base (run k)" using assms(3) catches_exclusive(1) by blast
  ultimately show ?thesis using assms(2) by (auto simp: vr_status_def variant_result_of_def quiet_def)
qed

lemma recovered_variant_stays_an_error_instance:
  "\<exists>s. attempts (fingerprint (SInt 1)) (\<lambda>i. if i = 0 then raise RuntimeError ''slow'' else Inr (SInt 1)) 0 2 initial_attempt = Inr s \<and>
     vr_status (variant_result_of variant_a s) = ''ERROR'' \<and> vr_digest (variant_result_of variant_a s) = Some (fingerprint (SInt 1))"
proof -
  let ?run = "\<lambda>i. if i = (0 :: nat) then raise RuntimeError ''slow'' else Inr (SInt 1)"
  obtain s where s: "attempts (fingerprint (SInt 1)) ?run 0 2 initial_attempt = Inr s" "st_digest s = Some (fingerprint (SInt 1))"
    by (simp add: numeral_2_eq_2 attempt_def catches_def raise_def initial_attempt_def Let_def)
  have "vr_status (variant_result_of variant_a s) = ''ERROR''"
    by (rule recovered_variant_stays_an_error[OF s(1), of 0])
      (simp_all add: unchanged_def failed_def catches_def raise_def)
  then show ?thesis using s by (auto simp: variant_result_of_def)
qed

end
