(* ===== verification/Agents.thy ===== *)
theory Agents
  imports Gatekeeper
begin

text \<open>
  agents/registry.py, agents/advisory.py and agents/memory.py: the registry of agents and the authority
  of its records, the two advisors that run offline, and the advisor that adds a bounded summary of
  earlier releases.  The tracing spans of the advisors have no result.  The lemmas: a registry keeps
  the deterministic agents of its trusted records through any registrations; the summary of a
  summary is that summary, so the context of the dissent reviewer never fails; and an advisor with
  memory gives the advice of the advisor it wraps.
\<close>

section \<open>AgentRecord\<close>

datatype decision_authority = AdvisoryAuthority | DeterministicAuthority

fun agent_authority_value :: "decision_authority \<Rightarrow> string" where
  "agent_authority_value AdvisoryAuthority = ''ADVISORY''"
| "agent_authority_value DeterministicAuthority = ''DETERMINISTIC''"

definition agent_authority_of :: "json \<Rightarrow> decision_authority option" where
  "agent_authority_of j =
     (if j = JStr ''ADVISORY'' then Some AdvisoryAuthority
      else if j = JStr ''DETERMINISTIC'' then Some DeterministicAuthority else None)"

definition allowed_status :: "string list" where
  "allowed_status = [''ACTIVE'', ''DEGRADED'', ''DISABLED'']"

record agent_record =
  ar_agent_id :: string
  ar_version :: string
  ar_runtime :: string
  ar_skill_tags :: "string list"
  ar_authority :: decision_authority
  ar_transport :: string
  ar_status :: string
  ar_registered_at :: string

text \<open>\<open>str(raw.get(k) or "")[:n]\<close>.\<close>

definition str_field :: "nat \<Rightarrow> json \<Rightarrow> string \<Rightarrow> string" where
  "str_field n raw k = py_take n (py_str (or_else (obj_get raw k) (JStr '''')))"

definition agent_from_mapping :: "(string \<times> json) list \<Rightarrow> agent_record res" where
  "agent_from_mapping kvs =
    (let raw = JObj kvs; text = (\<lambda>k. py_str (or_else (obj_get raw k) (JStr ''''))) in
     case agent_authority_of (obj_get raw ''decision_authority'') of
       None \<Rightarrow> raise ValueError ''unknown decision_authority''
     | Some auth \<Rightarrow>
         if text ''status'' \<notin> set allowed_status then raise ValueError ''unknown agent status'' else
         let agent_id = strip (text ''agent_id'') in
         if agent_id = [] \<or> py_len agent_id > 64 then raise ValueError ''invalid agent_id'' else
         and_then (py_list (or_else (obj_get raw ''skill_tags'') (JList []))) (\<lambda>tags.
           Inr \<lparr>ar_agent_id = agent_id, ar_version = str_field 32 raw ''version'', ar_runtime = str_field 64 raw ''runtime'',
             ar_skill_tags = map (\<lambda>t. py_take 48 (py_str t)) tags, ar_authority = auth,
             ar_transport = str_field 64 raw ''transport'', ar_status = text ''status'',
             ar_registered_at = str_field 64 raw ''registered_at''\<rparr>))"

definition agent_to_dict :: "agent_record \<Rightarrow> json" where
  "agent_to_dict r = JObj
    [(''agent_id'', JStr (ar_agent_id r)), (''version'', JStr (ar_version r)), (''runtime'', JStr (ar_runtime r)),
     (''skill_tags'', JList (map JStr (ar_skill_tags r))), (''decision_authority'', JStr (agent_authority_value (ar_authority r))),
     (''transport'', JStr (ar_transport r)), (''status'', JStr (ar_status r)), (''registered_at'', JStr (ar_registered_at r))]"

section \<open>AgentRegistry\<close>

type_synonym registry = "(string \<times> agent_record) list"

fun registry_init :: "agent_record list \<Rightarrow> registry \<Rightarrow> registry res" where
  "registry_init [] reg = Inr reg"
| "registry_init (r # rs) reg =
     (if ar_agent_id r \<in> fst ` set reg then raise ValueError ''duplicate agent_id''
      else registry_init rs (dict_set (ar_agent_id r) r reg))"

definition registry_list :: "registry \<Rightarrow> agent_record list" where
  "registry_list reg = map snd (sort_key fst reg)"

definition registry_get :: "registry \<Rightarrow> string \<Rightarrow> agent_record res" where
  "registry_get reg agent_id = (case map_of reg agent_id of None \<Rightarrow> raise KeyError agent_id | Some r \<Rightarrow> Inr r)"

definition advisory_agents :: "registry \<Rightarrow> agent_record list" where
  "advisory_agents reg = filter (\<lambda>r. ar_status r = ''ACTIVE'' \<and> ar_authority r = AdvisoryAuthority) (registry_list reg)"

definition deterministic_agents :: "registry \<Rightarrow> agent_record list" where
  "deterministic_agents reg = filter (\<lambda>r. ar_status r = ''ACTIVE'' \<and> ar_authority r = DeterministicAuthority) (registry_list reg)"

definition register_advisory :: "(string \<times> json) list \<Rightarrow> registry \<Rightarrow> agent_record res \<times> registry" where
  "register_advisory raw reg =
    (case agent_from_mapping raw of
       Inl e \<Rightarrow> (Inl e, reg)
     | Inr r \<Rightarrow>
         if ar_authority r \<noteq> AdvisoryAuthority
         then (raise PermissionError ''runtime self-registration cannot acquire deterministic authority'', reg)
         else if ar_agent_id r \<in> fst ` set reg then (raise ValueError ''agent_id already registered'', reg)
         else (Inr r, dict_set (ar_agent_id r) r reg))"

definition registry_snapshot :: "registry \<Rightarrow> json list" where
  "registry_snapshot reg = map agent_to_dict (registry_list reg)"

definition trusted_agent :: "string \<Rightarrow> string \<Rightarrow> string list \<Rightarrow> decision_authority \<Rightarrow> string \<Rightarrow> agent_record" where
  "trusted_agent agent_id runtime tags auth link =
    \<lparr>ar_agent_id = agent_id, ar_version = ''2.3.0'', ar_runtime = runtime, ar_skill_tags = tags, ar_authority = auth,
     ar_transport = link, ar_status = ''ACTIVE'', ar_registered_at = ''2026-08-19T00:00:00Z''\<rparr>"

definition trusted_records :: "agent_record list" where
  "trusted_records =
    [trusted_agent ''security_reviewer'' ''python-adk'' [''security'', ''challenge''] AdvisoryAuthority ''ADK'',
     trusted_agent ''test_reviewer'' ''python-adk'' [''testing'', ''evidence''] AdvisoryAuthority ''ADK'',
     trusted_agent ''dissent_reviewer'' ''python-adk'' [''dissent'', ''history''] AdvisoryAuthority ''ADK'',
     trusted_agent ''evidence_explainer'' ''python-adk'' [''evidence'', ''explanation''] AdvisoryAuthority ''ADK'',
     trusted_agent ''go-gatekeeper'' ''go'' [''policy'', ''signed-evidence'', ''verdict''] DeterministicAuthority ''A2A_JSONRPC'']"

definition default_registry :: "registry res" where
  "default_registry = registry_init trusted_records []"

section \<open>The offline advisors\<close>

definition opinions :: "string \<Rightarrow> string \<Rightarrow> registry \<Rightarrow> json list" where
  "opinions vote note reg =
     map (\<lambda>r. JObj [(''agent'', JStr (ar_agent_id r)), (''vote'', JStr vote), (''note'', JStr note)]) (advisory_agents reg)"

definition fleet_advice :: "release_request \<Rightarrow> 'a list \<Rightarrow> string \<Rightarrow> json list \<Rightarrow> string \<Rightarrow> json" where
  "fleet_advice request findings instruction ops simulation = JObj
    [(''role'', JStr ''advisory_fleet''), (''release_id'', JStr (rq_release_id request)),
     (''finding_count'', JInt (int (length findings))), (''authority'', JStr ''NONE''),
     (''decision_authority'', JStr ''ADVISORY''), (''instruction'', JStr instruction),
     (''opinions'', JList ops), (''simulation'', JStr simulation)]"

definition deterministic_advisory :: "registry \<Rightarrow> release_request \<Rightarrow> 'a list \<Rightarrow> json" where
  "deterministic_advisory reg request findings =
     fleet_advice request findings ''challenge evidence coverage; do not decide''
       (opinions (if findings \<noteq> [] then ''NO_GO'' else ''GO'') ''advisory recommendation only'' reg) ''NONE''"

definition compromised_agent_simulation :: "registry \<Rightarrow> release_request \<Rightarrow> 'a list \<Rightarrow> json" where
  "compromised_agent_simulation reg request findings =
     fleet_advice request findings ''counterfactual compromised-agent simulation''
       (opinions ''GO'' ''SIMULATED_COMPROMISE: forced GO opinion'' reg) ''COMPROMISED_AGENTS_ALL_GO''"

section \<open>Release memory\<close>

text \<open>\<open>dict(x)\<close> of a document: an object, or a sequence of pairs.\<close>

definition pair_item :: "nat \<Rightarrow> json \<Rightarrow> (string \<times> json) option res" where
  "pair_item i item =
    (if \<not> ok (py_list item) then raise TypeError (''cannot convert dictionary update sequence element #'' @ nat_dec i @ '' to a sequence'')
     else and_then (py_list item) (\<lambda>xs. case xs of
       [k, v] \<Rightarrow> (case k of
           JStr s \<Rightarrow> Inr (Some (s, v))
         | JList _ \<Rightarrow> raise TypeError ''unhashable type''
         | JObj _ \<Rightarrow> raise TypeError ''unhashable type''
         | _ \<Rightarrow> Inr None)
     | _ \<Rightarrow> raise ValueError (''dictionary update sequence element #'' @ nat_dec i @ '' has length '' @ nat_dec (length xs) @ ''; 2 is required'')))"

fun pair_items :: "nat \<Rightarrow> json list \<Rightarrow> (string \<times> json) list \<Rightarrow> json res" where
  "pair_items i [] acc = Inr (JObj acc)"
| "pair_items i (x # xs) acc =
     and_then (pair_item i x) (\<lambda>p. pair_items (i + 1) xs (case p of None \<Rightarrow> acc | Some (k, v) \<Rightarrow> dict_set k v acc))"

fun py_dict :: "json \<Rightarrow> json res" where
  "py_dict (JObj kvs) = Inr (JObj kvs)"
| "py_dict j = and_then (py_list j) (\<lambda>xs. pair_items 0 xs [])"

definition finding_summary :: "json \<Rightarrow> json res" where
  "finding_summary f =
    (if \<not> is_obj f then raise AttributeError ''object has no attribute get'' else
     Inr (JObj [(''finding_id'', JStr (str_field 96 f ''finding_id'')), (''title'', JStr (str_field 160 f ''title'')),
       (''severity'', JStr (str_field 24 f ''severity'')), (''source'', JStr (str_field 64 f ''source''))]))"

definition int_field :: "json \<Rightarrow> string \<Rightarrow> int res" where
  "int_field raw k = py_int (or_else (obj_get raw k) (JInt 0))"

definition safe_report_summary :: "json \<Rightarrow> json res" where
  "safe_report_summary document =
    and_then (attr_get document ''report'') (\<lambda>inner.
    and_then (py_dict (or_else inner document)) (\<lambda>report.
    and_then (py_list (or_else (obj_get report ''findings'') (JList []))) (\<lambda>fs.
    and_then (map_res finding_summary (take 12 fs)) (\<lambda>findings.
    and_then (int_field report ''policy_revision'') (\<lambda>revision.
    and_then (int_field report ''execution_count'') (\<lambda>executions.
      Inr (JObj
       [(''report_id'', JStr (str_field 96 report ''report_id'')),
        (''release_id'', JStr (str_field 96 report ''release_id'')),
        (''decision'', JStr (str_field 32 report ''decision'')),
        (''policy_id'', JStr (str_field 96 report ''policy_id'')),
        (''policy_revision'', JInt revision),
        (''execution_count'', JInt executions),
        (''created_at'', JStr (str_field 64 report ''created_at'')),
        (''findings'', JList findings)])))))))"

definition bounded_history_json :: "json list \<Rightarrow> string res" where
  "bounded_history_json history =
     and_then (map_res safe_report_summary (take 5 history)) (\<lambda>safe. Inr (py_take 8000 (canonical_json (JList safe))))"

text \<open>\<open>recent\<close> is what the memory answers for the release; \<open>result[k] = v\<close> on the advisor's result.\<close>

definition set_item :: "string \<Rightarrow> json \<Rightarrow> json \<Rightarrow> json res" where
  "set_item k v j = (case j of JObj kvs \<Rightarrow> Inr (JObj (dict_set k v kvs)) | _ \<Rightarrow> raise TypeError ''object does not support item assignment'')"

text \<open>\<open>d[k]\<close> on a document.\<close>

definition get_item :: "string \<Rightarrow> json \<Rightarrow> json res" where
  "get_item k j =
    (case j of
       JObj kvs \<Rightarrow> (case map_of kvs k of None \<Rightarrow> raise KeyError k | Some v \<Rightarrow> Inr v)
     | _ \<Rightarrow> raise TypeError ''indices must be integers or slices, not str'')"

definition memory_context :: "(string \<Rightarrow> json list res) \<Rightarrow> string \<Rightarrow> (json list \<times> string) res" where
  "memory_context recent release_id =
    (case and_then (recent release_id) (\<lambda>history. map_res safe_report_summary (take 5 history)) of
       Inr safe \<Rightarrow> Inr (safe, ''AVAILABLE'')
     | Inl e \<Rightarrow> if catches PyException e then Inr ([], ''UNAVAILABLE'') else Inl e)"

definition memory_aware_advisor :: "(string \<Rightarrow> json list res) \<Rightarrow> advisor \<Rightarrow> advisor" where
  "memory_aware_advisor recent inner request projection live =
    (case memory_context recent (rq_release_id request) of
       Inl e \<Rightarrow> (Inl e, live)
     | Inr (safe, status) \<Rightarrow>
         (case inner request projection live of (advice, live') \<Rightarrow>
           (and_then advice (\<lambda>result.
            and_then (set_item ''safe_prior_release_context'' (JList safe) result) (\<lambda>r1.
            and_then (bounded_history_json safe) (\<lambda>text.
            and_then (set_item ''dissent_reviewer_context'' (JStr text) r1) (\<lambda>r2.
              set_item ''memory_status'' (JStr status) r2)))), live')))"

section \<open>Lemmas: the registry\<close>

definition registry_ok :: "registry \<Rightarrow> bool" where
  "registry_ok reg \<longleftrightarrow> distinct (map fst reg) \<and> (\<forall>(k, r) \<in> set reg. k = ar_agent_id r)"

lemma dict_set_fresh_append: "k \<notin> fst ` set d \<Longrightarrow> dict_set k v d = d @ [(k, v)]"
  by (induction d) auto

lemma registry_init_ok: "registry_init rs reg = Inr reg' \<Longrightarrow> registry_ok reg \<Longrightarrow> registry_ok reg'"
proof (induction rs arbitrary: reg)
  case (Cons r rs)
  then have "ar_agent_id r \<notin> fst ` set reg" by (auto split: if_splits)
  then have "registry_ok (dict_set (ar_agent_id r) r reg)"
    using Cons.prems(2) by (auto simp: registry_ok_def dict_set_fresh_append)
  then show ?case using Cons by (auto split: if_splits)
qed simp

lemma register_advisory_cases:
  assumes "register_advisory raw reg = (res, reg')"
  shows "(\<exists>e. res = Inl e) \<and> reg' = reg \<or>
    (\<exists>r. res = Inr r \<and> agent_from_mapping raw = Inr r \<and> ar_authority r = AdvisoryAuthority \<and>
       ar_agent_id r \<notin> fst ` set reg \<and> reg' = reg @ [(ar_agent_id r, r)])"
proof (cases "agent_from_mapping raw")
  case (Inl e)
  then have "res = Inl e" "reg' = reg" using assms by (simp_all add: register_advisory_def)
  then show ?thesis by blast
next
  case (Inr r)
  then show ?thesis using assms by (auto simp: register_advisory_def raise_def dict_set_fresh_append split: if_splits)
qed

lemma register_advisory_ok: "registry_ok reg \<Longrightarrow> registry_ok (snd (register_advisory raw reg))"
  using register_advisory_cases[of raw reg] by (cases "register_advisory raw reg") (auto simp: registry_ok_def)

lemma set_registry_list: "set (registry_list reg) = snd ` set reg"
  by (simp add: registry_list_def)

lemma filter_sorted_append:
  assumes "distinct (map fst (reg @ [(k, r)]))" "\<not> P r"
  shows "filter P (map snd (sort_key fst (reg @ [(k, r)]))) = filter P (map snd (sort_key fst (reg :: (string \<times> 'r) list)))"
proof -
  have "sort_key fst (reg @ [(k, r)]) = insort_key fst (k, r) (sort_key fst reg)"
  proof (rule map_sorted_distinct_set_unique[of fst])
    show "inj_on fst (set (sort_key fst (reg @ [(k, r)])) \<union> set (insort_key fst (k, r) (sort_key fst reg)))"
      using assms(1) by (auto simp: distinct_map set_insort_key inj_on_def)
    show "distinct (map fst (sort_key fst (reg @ [(k, r)])))" using assms(1) by (auto simp: distinct_map inj_on_def) force
    show "distinct (map fst (insort_key fst (k, r) (sort_key fst reg)))"
      using assms(1) by (auto simp: distinct_map distinct_insort set_insort_key inj_on_def) force
  qed (auto simp: sorted_insort_key set_insort_key)
  moreover have "filter P (map snd (insort_key fst (k, r) xs)) = filter P (map snd xs)" for xs :: "(string \<times> 'r) list"
    using assms(2) by (induction xs) auto
  ultimately show ?thesis by simp
qed

text \<open>Any number of runtime registrations.\<close>

definition registrations :: "(string \<times> json) list list \<Rightarrow> registry \<Rightarrow> registry" where
  "registrations raws reg = foldl (\<lambda>reg raw. snd (register_advisory raw reg)) reg raws"

lemma register_keeps:
  assumes "registry_ok reg"
  shows "deterministic_agents (snd (register_advisory raw reg)) = deterministic_agents reg"
    and "map_of reg k = Some r \<Longrightarrow> map_of (snd (register_advisory raw reg)) k = Some r"
proof -
  obtain res reg' where u: "register_advisory raw reg = (res, reg')" by (rule prod.exhaust)
  note c = register_advisory_cases[OF u]
  show "deterministic_agents (snd (register_advisory raw reg)) = deterministic_agents reg"
    using c assms filter_sorted_append[of reg _ _ "\<lambda>r. ar_status r = ''ACTIVE'' \<and> ar_authority r = DeterministicAuthority"] u
    by (auto simp: deterministic_agents_def registry_list_def registry_ok_def)
  show "map_of reg k = Some r \<Longrightarrow> map_of (snd (register_advisory raw reg)) k = Some r"
    using c u by (auto simp: map_add_def split: option.splits dest: map_of_SomeD intro!: rev_image_eqI)
qed

lemma registrations_keep:
  "registry_ok reg \<Longrightarrow> registry_ok (registrations raws reg) \<and>
   deterministic_agents (registrations raws reg) = deterministic_agents reg \<and>
   (map_of reg k = Some r \<longrightarrow> map_of (registrations raws reg) k = Some r)"
proof (induction raws arbitrary: reg)
  case (Cons raw raws)
  then show ?case
    using Cons.IH[OF register_advisory_ok[OF Cons.prems, of raw]] register_keeps(1)[OF Cons.prems, of raw] register_keeps(2)[OF Cons.prems, of k r raw]
    by (auto simp: registrations_def)
qed (simp add: registrations_def)

lemma default_registry_value: "default_registry = Inr (map (\<lambda>r. (ar_agent_id r, r)) trusted_records)"
  by code_simp

lemma default_registry_ok: "\<exists>reg. default_registry = Inr reg \<and> registry_ok reg \<and> map ar_agent_id (deterministic_agents reg) = [''go-gatekeeper'']"
proof -
  let ?P = "\<lambda>r. ar_status r = ''ACTIVE'' \<and> ar_authority r = DeterministicAuthority"
  have "mset (deterministic_agents reg) = mset (filter ?P (map snd reg))" for reg
    by (simp add: deterministic_agents_def registry_list_def mset_filter)
  then have "mset (deterministic_agents (map (\<lambda>r. (ar_agent_id r, r)) trusted_records)) = mset (filter ?P trusted_records)"
    by (simp only: map_map comp_def snd_conv map_ident)
  also have "filter ?P trusted_records = [trusted_agent ''go-gatekeeper'' ''go'' [''policy'', ''signed-evidence'', ''verdict''] DeterministicAuthority ''A2A_JSONRPC'']"
    by (simp add: trusted_records_def trusted_agent_def)
  finally have "map ar_agent_id (deterministic_agents (map (\<lambda>r. (ar_agent_id r, r)) trusted_records)) = [''go-gatekeeper'']"
    by (simp add: trusted_agent_def)
  moreover have "distinct (map ar_agent_id trusted_records)"
    unfolding trusted_records_def trusted_agent_def list.map agent_record.select_convs by simp
  then have "registry_ok (map (\<lambda>r. (ar_agent_id r, r)) trusted_records)"
    unfolding registry_ok_def map_map comp_def fst_conv by auto
  ultimately show ?thesis by (intro exI conjI) (rule default_registry_value)
qed

section \<open>Lemmas: memory\<close>

lemma py_take_idem [simp]: "py_take n (py_take n s) = py_take n s"
  by (induction n s rule: py_take.induct) auto

lemma str_field_bound: "py_len (str_field n raw k) \<le> n"
  by (simp add: str_field_def py_take_length)

lemma str_field_again: "obj_get raw k = JStr (py_take n s) \<Longrightarrow> str_field n raw k = py_take n s"
  by (simp add: str_field_def or_else_def)

lemma or_empty [simp]: "py_str (or_else (JStr s) (JStr [])) = s"
  by (simp add: or_else_def)

lemma or_zero [simp]: "or_else (JInt i) (JInt 0) = JInt i"
  by (simp add: or_else_def)

lemma or_nil [simp]: "py_list (or_else (JList xs) (JList [])) = Inr xs"
  by (simp add: or_else_def)

lemma finding_summary_again: "finding_summary f = Inr s \<Longrightarrow> finding_summary s = Inr s"
  by (auto simp: finding_summary_def str_field_def split: if_splits)

lemma map_res_again: "map_res f xs = Inr ys \<Longrightarrow> (\<And>x y. f x = Inr y \<Longrightarrow> f y = Inr y) \<Longrightarrow> map_res f ys = Inr ys \<and> length ys = length xs"
  by (auto simp: map_res_Inr list_all2_conv_all_nth)

lemma safe_summary_shape:
  assumes "safe_report_summary d = Inr s"
  shows "\<exists>a b c e p n t ss. s = JObj
    [(''report_id'', JStr (py_take 96 a)), (''release_id'', JStr (py_take 96 b)), (''decision'', JStr (py_take 32 c)),
     (''policy_id'', JStr (py_take 96 e)), (''policy_revision'', JInt p), (''execution_count'', JInt n),
     (''created_at'', JStr (py_take 64 t)), (''findings'', JList ss)] \<and>
    length ss \<le> 12 \<and> map_res finding_summary ss = Inr ss"
proof -
  obtain report fs ss p n where f: "map_res finding_summary (take 12 fs) = Inr ss" and s: "s = JObj
    [(''report_id'', JStr (str_field 96 report ''report_id'')), (''release_id'', JStr (str_field 96 report ''release_id'')),
     (''decision'', JStr (str_field 32 report ''decision'')), (''policy_id'', JStr (str_field 96 report ''policy_id'')),
     (''policy_revision'', JInt p), (''execution_count'', JInt n), (''created_at'', JStr (str_field 64 report ''created_at'')),
     (''findings'', JList ss)]"
    using assms unfolding safe_report_summary_def and_then_Inr by blast
  have "map_res finding_summary ss = Inr ss \<and> length ss \<le> 12"
    using map_res_again[OF f finding_summary_again] by simp
  then show ?thesis using s unfolding str_field_def by blast
qed

lemma safe_summary_again:
  assumes "safe_report_summary d = Inr s"
  shows "safe_report_summary s = Inr s"
proof -
  obtain a b c e p n t ss where s: "s = JObj
    [(''report_id'', JStr (py_take 96 a)), (''release_id'', JStr (py_take 96 b)), (''decision'', JStr (py_take 32 c)),
     (''policy_id'', JStr (py_take 96 e)), (''policy_revision'', JInt p), (''execution_count'', JInt n),
     (''created_at'', JStr (py_take 64 t)), (''findings'', JList ss)]"
    and l: "length ss \<le> 12" and f: "map_res finding_summary ss = Inr ss"
    using safe_summary_shape[OF assms] by blast
  have "or_else JNull s = s" by (simp add: or_else_def)
  then show ?thesis
    using l f unfolding s by (simp add: safe_report_summary_def attr_get_def str_field_def int_field_def)
qed

lemma summaries_bounded:
  assumes "map_res safe_report_summary (take 5 ds) = Inr safe"
  shows "map_res safe_report_summary (take 5 safe) = Inr safe"
  using map_res_again[OF assms safe_summary_again] by simp

lemma memory_context_text: "memory_context recent rid = Inr (safe, status) \<Longrightarrow> \<exists>text. bounded_history_json safe = Inr text \<and> py_len text \<le> 8000"
  using summaries_bounded
  by (auto simp: memory_context_def bounded_history_json_def and_then_Inr py_take_length split: sum.splits if_splits)

lemma map_of_dict_sets:
  "k \<notin> {a, b, c} \<Longrightarrow> obj_get (JObj (dict_set a u (dict_set b v (dict_set c w kvs)))) k = obj_get (JObj kvs) k"
  by auto

text \<open>What the memory adds to the advice, and that it adds nothing else.\<close>

lemma memory_aware_object:
  assumes "memory_context recent (rq_release_id request) = Inr (safe, status)"
    and "inner request projection live = (Inr (JObj kvs), live')"
  shows "\<exists>advice. memory_aware_advisor recent inner request projection live = (Inr advice, live') \<and> is_obj advice \<and>
    obj_get advice ''safe_prior_release_context'' = JList safe \<and> obj_get advice ''memory_status'' = JStr status \<and>
    (\<forall>k. k \<notin> {''safe_prior_release_context'', ''dissent_reviewer_context'', ''memory_status''} \<longrightarrow>
       obj_get advice k = obj_get (JObj kvs) k)"
proof -
  obtain ctx where "bounded_history_json safe = Inr ctx" using memory_context_text[OF assms(1)] by blast
  then show ?thesis using assms by (simp add: memory_aware_advisor_def set_item_def)
qed

text \<open>No summary of a memory's answer raises anything but a plain exception.\<close>

definition plain_error :: "'a res \<Rightarrow> bool" where
  "plain_error m \<longleftrightarrow> (\<forall>e. m = Inl e \<longrightarrow> catches PyException e)"

lemma plain_Inr [simp]: "plain_error (Inr x)"
  by (simp add: plain_error_def)

lemma plain_raise [simp]: "plain_error (raise c msg) \<longleftrightarrow> c \<noteq> BaseException"
  by (cases c) (simp_all add: plain_error_def raise_def catches_def)

lemma plain_and_then [intro]: "plain_error m \<Longrightarrow> (\<And>x. plain_error (f x)) \<Longrightarrow> plain_error (and_then m f)"
  by (auto simp: plain_error_def and_then_Inl)

lemma plain_map_res [intro]: "(\<And>x. plain_error (g x)) \<Longrightarrow> plain_error (map_res g xs)"
  by (induction xs) (auto intro!: plain_and_then)

lemma plain_conversions [simp]: "plain_error (py_list j)" "plain_error (py_int j)" "plain_error (attr_get j k)"
  proof -
  show "plain_error (py_list j)" by (cases j) simp_all
  show "plain_error (py_int j)" by (cases j rule: py_int.cases) (simp_all split: option.splits)
  show "plain_error (attr_get j k)" by (simp add: attr_get_def)
qed

lemma plain_pair_item [simp]: "plain_error (pair_item i j)"
  by (auto simp: pair_item_def intro!: plain_and_then split: list.splits json.splits)

lemma plain_pair_items [simp]: "plain_error (pair_items i xs acc)"
  by (induction i xs acc rule: pair_items.induct) (auto intro!: plain_and_then)

lemma plain_py_dict [simp]: "plain_error (py_dict j)"
  by (cases j) (auto intro!: plain_and_then)

lemma plain_summary [simp]: "plain_error (safe_report_summary d)"
  unfolding safe_report_summary_def int_field_def
  by (intro plain_and_then plain_map_res) (simp_all add: finding_summary_def)

lemma memory_context_total:
  assumes "plain_error (recent rid)"
  shows "\<exists>safe status. memory_context recent rid = Inr (safe, status)"
proof -
  have "plain_error (and_then (recent rid) (\<lambda>history. map_res safe_report_summary (take 5 history)))"
    using assms by (auto intro!: plain_and_then)
  then show ?thesis by (auto simp: memory_context_def plain_error_def split: sum.splits)
qed

lemma opinions_of_obj: "is_obj a \<Longrightarrow> opinions_of a = py_list (or_else (obj_get a ''opinions'') (JList []))"
  by (cases a) (auto simp: opinions_of_def or_else_def)

text \<open>The report of an evaluation with memory differs from the one without it in the advisory only.\<close>

lemma memory_keeps_report:
  assumes "evaluate execute (Some inner) decide entries stamp request policy = Inr rep"
    and "plain_error (recent (rq_release_id request))"
    and "\<And>p live e live'. inner request p live = (Inl e, live') \<Longrightarrow> False"
    and "\<And>p live a live'. inner request p live = (Inr a, live') \<Longrightarrow> is_obj a"
  shows "\<exists>rep'. evaluate execute (Some (memory_aware_advisor recent inner)) decide entries stamp request policy = Inr rep' \<and>
    (\<exists>a. rep' = rep\<lparr>rr_advisory := a\<rparr>)"
proof -
  obtain fs n where c: "collect_evidence execute entries request policy = Inr (fs, n)"
    using evaluate_Inr[OF assms(1)] by blast
  obtain kvs sealed where i: "inner request (advisory_projection fs) fs = (Inr (JObj kvs), sealed)"
  proof -
    obtain a sealed where "inner request (advisory_projection fs) fs = (a, sealed)" by (rule prod.exhaust)
    then show thesis using assms(3,4) that by (cases a; cases "projr a") (fastforce+)
  qed
  obtain safe status where m: "memory_context recent (rq_release_id request) = Inr (safe, status)"
    using memory_context_total[of recent "rq_release_id request", OF assms(2)] by blast
  from memory_aware_object[of recent request safe status inner, OF m i] obtain advice
    where a: "memory_aware_advisor recent inner request (advisory_projection fs) fs = (Inr advice, sealed)" "is_obj advice"
    and keep: "\<forall>k. k \<notin> {''safe_prior_release_context'', ''dissent_reviewer_context'', ''memory_status''} \<longrightarrow>
       obj_get advice k = obj_get (JObj kvs) k"
    by (elim exE conjE)
  have ops: "obj_get advice ''opinions'' = obj_get (JObj kvs) ''opinions''"
    by (rule keep[rule_format]) simp
  have o: "opinions_of advice = opinions_of (JObj kvs)"
    using a(2) ops by (simp add: opinions_of_obj)
  have "collect_advisory (Some inner) request fs = (Inr (JObj kvs), sealed)"
    "collect_advisory (Some (memory_aware_advisor recent inner)) request fs = (Inr advice, sealed)"
    using i a(1) by (simp_all add: collect_advisory_def)
  then show ?thesis
    using assms(1) c o by (auto simp: evaluate_def Let_def and_then_Inr make_report_def split: if_splits)
qed

end
