(* ===== verification/Agents_Claims.thy ===== *)
theory Agents_Claims
  imports Samples Agents
begin

text \<open>
  The properties of the agent registry and of the advisor with memory: who may decide, and what an
  advisor adds to a report.
\<close>

text \<open>Property C39. Whatever documents agents register themselves with at run time, and in whatever order, the
  active agents with deterministic authority stay the Go gatekeeper alone, and every record of the
  trusted registry stays what it is.\<close>

theorem registration_never_gains_authority:
  "\<exists>reg. default_registry = Inr reg \<and> map ar_agent_id (deterministic_agents (registrations raws reg)) = [''go-gatekeeper''] \<and>
    (\<forall>k r. map_of reg k = Some r \<longrightarrow> map_of (registrations raws reg) k = Some r)"
proof -
  from default_registry_ok obtain reg where r: "default_registry = Inr reg" "registry_ok reg"
    and d: "map ar_agent_id (deterministic_agents reg) = [''go-gatekeeper'']"
    by (elim exE conjE)
  have "deterministic_agents (registrations raws reg) = deterministic_agents reg"
    using registrations_keep[OF r(2), of raws] by blast
  then show ?thesis using r(1) d registrations_keep[OF r(2), of raws] by (intro exI[of _ reg]) simp
qed

definition forged_agent :: "(string \<times> json) list" where
  "forged_agent = [(''agent_id'', JStr ''go-gatekeeper-2''), (''status'', JStr ''ACTIVE''), (''decision_authority'', JStr ''DETERMINISTIC'')]"

theorem registration_never_gains_authority_witness:
  "\<exists>reg. default_registry = Inr reg \<and> map ar_agent_id (deterministic_agents (registrations [forged_agent] reg)) = [''go-gatekeeper''] \<and>
    (\<exists>e. register_advisory forged_agent reg = (Inl (PermissionError, e), reg))"
proof -
  have "\<exists>e. register_advisory forged_agent reg = (Inl (PermissionError, e), reg)" for reg
    by (simp add: register_advisory_def agent_from_mapping_def forged_agent_def agent_authority_of_def allowed_status_def
        or_else_def strip_kept visible_ascii_def is_space_def py_len_def utf8_cont_def raise_def Let_def)
  moreover from registration_never_gains_authority[of "[forged_agent]"] obtain reg where "default_registry = Inr reg"
    "map ar_agent_id (deterministic_agents (registrations [forged_agent] reg)) = [''go-gatekeeper'']"
    by (elim exE conjE)
  ultimately show ?thesis by (intro exI[of _ reg] conjI)
qed

text \<open>Release memory is harmless to a release: whatever documents the ledger holds for it, and also if
  the ledger cannot be read, an evaluation whose advisor is given the bounded summary of earlier
  releases yields the report of the evaluation without it, except for the advisory itself.\<close>

lemma memory_keeps_the_report:
  assumes "evaluate execute (Some inner) decide entries stamp request policy = Inr rep"
    and "plain_error (recent (rq_release_id request))"
    and "\<And>p live e live'. inner request p live \<noteq> (Inl e, live')"
    and "\<And>p live a live'. inner request p live = (Inr a, live') \<Longrightarrow> is_obj a"
  shows "\<exists>a. evaluate execute (Some (memory_aware_advisor recent inner)) decide entries stamp request policy =
    Inr (rep\<lparr>rr_advisory := a\<rparr>)"
  using memory_keeps_report[OF assms(1), of recent] assms(2-4) by blast

lemma memory_keeps_the_report_instance:
  "\<exists>rep a. evaluate demo_executor (Some (memory_aware_advisor (\<lambda>r. raise OSError ''ledger is down'') voting_advisor))
      local_gatekeeper [] (''id'', ''now'') demo_request demo_policy = Inr (rep\<lparr>rr_advisory := a\<rparr>) \<and> rr_decision rep = NO_GO"
proof -
  obtain rep where r: "evaluate demo_executor (Some voting_advisor) local_gatekeeper [] (''id'', ''now'') demo_request demo_policy = Inr rep"
    "rr_decision rep = NO_GO"
    using demo_evaluate[OF demo_advisories(2,4)] by blast
  have "\<exists>a. evaluate demo_executor (Some (memory_aware_advisor (\<lambda>r. raise OSError ''ledger is down'') voting_advisor))
      local_gatekeeper [] (''id'', ''now'') demo_request demo_policy = Inr (rep\<lparr>rr_advisory := a\<rparr>)"
    by (rule memory_keeps_the_report[OF r(1)]) (auto simp: voting_advisor_def)
  then show ?thesis using r(2) by blast
qed

text \<open>What reaches a model of earlier releases is bounded: the context made from a ledger's answer is
  the canonical text of at most five summaries cut to 8000 characters, and summarising the summaries
  again gives them back, so building the context never fails.\<close>

lemma release_context_is_bounded:
  assumes "memory_context recent release_id = Inr (safe, status)"
  shows "length safe \<le> 5 \<and> map_res safe_report_summary safe = Inr safe \<and>
    (\<exists>ctx. bounded_history_json safe = Inr ctx \<and> py_len ctx \<le> 8000 \<and> ctx = py_take 8000 (canonical_json (JList safe)))"
proof -
  have "length safe \<le> 5 \<and> map_res safe_report_summary safe = Inr safe"
  proof (cases "and_then (recent release_id) (\<lambda>history. map_res safe_report_summary (take 5 history))")
    case (Inl e)
    then show ?thesis using assms by (auto simp: memory_context_def split: if_splits)
  next
    case (Inr ss)
    then obtain history where h: "map_res safe_report_summary (take 5 history) = Inr ss" by (auto simp: and_then_Inr)
    then show ?thesis
      using map_res_again[OF h safe_summary_again] assms Inr by (auto simp: memory_context_def)
  qed
  then show ?thesis by (simp add: bounded_history_json_def py_take_length)
qed

lemma release_context_is_bounded_instance:
  "\<exists>safe status. memory_context (\<lambda>r. Inr (replicate 9 (JObj []))) ''r1'' = Inr (safe, status) \<and> length safe \<le> 5"
proof -
  obtain safe status where m: "memory_context (\<lambda>r. Inr (replicate 9 (JObj []))) ''r1'' = Inr (safe, status)"
    using memory_context_total[of "\<lambda>r. Inr (replicate 9 (JObj []))" "''r1''"] by auto
  show ?thesis using release_context_is_bounded[OF m] m by blast
qed

end
