(* ===== verification/Json_Parse.thy ===== *)
theory Json_Parse
  imports Gatekeeper
begin

text \<open>
  \<open>json.loads\<close> on text: the grammar and the escapes of the standard library's scanner, with NaN and
  the infinities it accepts, and the last of several equal keys.  The conversion of a float literal
  to the nearest double is a parameter, because the model holds floats as their printed text.  A
  lone surrogate becomes the three bytes of its code point.  The parser runs on fuel, one unit per
  character; the lemmas: more fuel changes nothing, and the parser inverts the printer of theory
  Json on documents with distinct keys, so what the program writes it reads back.
\<close>

section \<open>Strings\<close>

definition hex_value :: "char \<Rightarrow> nat option" where
  "hex_value c =
     (if is_digit c then Some (of_char c - 48)
      else if CHR ''a'' \<le> c \<and> c \<le> CHR ''f'' then Some (of_char c - 87)
      else if CHR ''A'' \<le> c \<and> c \<le> CHR ''F'' then Some (of_char c - 55) else None)"

definition hex4 :: "string \<Rightarrow> (nat \<times> string) option" where
  "hex4 s =
    (case s of
       a # b # c # d # r \<Rightarrow>
         (case (hex_value a, hex_value b, hex_value c, hex_value d) of
            (Some i, Some j, Some k, Some l) \<Rightarrow> Some (4096 * i + 256 * j + 16 * k + l, r)
          | _ \<Rightarrow> None)
     | _ \<Rightarrow> None)"

definition utf8_encode :: "nat \<Rightarrow> string" where
  "utf8_encode u =
    (if u < 0x80 then [char_of u]
     else if u < 0x800 then [char_of (0xC0 + u div 64), char_of (0x80 + u mod 64)]
     else if u < 0x10000 then [char_of (0xE0 + u div 4096), char_of (0x80 + u div 64 mod 64), char_of (0x80 + u mod 64)]
     else [char_of (0xF0 + u div 262144), char_of (0x80 + u div 4096 mod 64), char_of (0x80 + u div 64 mod 64),
           char_of (0x80 + u mod 64)])"

definition simple_escapes :: "(char \<times> char) list" where
  "simple_escapes =
    [(CHR 0x22, CHR 0x22), (CHR 0x5C, CHR 0x5C), (CHR ''/'', CHR ''/''), (CHR ''b'', CHR 0x08), (CHR ''f'', CHR 0x0C),
     (CHR ''n'', CHR 0x0A), (CHR ''r'', CHR 0x0D), (CHR ''t'', CHR 0x09)]"

text \<open>What follows a backslash: the bytes it stands for and the rest.\<close>

definition scan_escape :: "string \<Rightarrow> (string \<times> string) option" where
  "scan_escape s =
    (case s of
       [] \<Rightarrow> None
     | e # r \<Rightarrow>
       if e \<noteq> CHR ''u'' then map_option (\<lambda>c. ([c], r)) (map_of simple_escapes e) else
       (case hex4 r of
          None \<Rightarrow> None
        | Some (u, r1) \<Rightarrow>
          if 0xD800 \<le> u \<and> u \<le> 0xDBFF \<and> starts_with r1 [CHR 0x5C, CHR ''u''] then
            (case hex4 (drop 2 r1) of
               None \<Rightarrow> None
             | Some (l, r2) \<Rightarrow>
                 if 0xDC00 \<le> l \<and> l \<le> 0xDFFF then Some (utf8_encode (0x10000 + 1024 * (u - 0xD800) + (l - 0xDC00)), r2)
                 else Some (utf8_encode u, r1))
          else Some (utf8_encode u, r1)))"

lemma hex4_length: "hex4 s = Some (u, r) \<Longrightarrow> length r < length s"
  by (auto simp: hex4_def split: list.splits option.splits)

lemma scan_escape_length: "scan_escape s = Some (t, r) \<Longrightarrow> length r < length s"
  by (auto simp: scan_escape_def split: list.splits option.splits if_splits dest!: hex4_length)

function scan_string :: "string \<Rightarrow> (string \<times> string) option" where
  "scan_string s =
    (case s of
       [] \<Rightarrow> None
     | c # r \<Rightarrow>
       if c = CHR 0x22 then Some ([], r)
       else if c = CHR 0x5C then
         (case scan_escape r of
            None \<Rightarrow> None
          | Some (t, r1) \<Rightarrow> map_option (\<lambda>(u, r2). (t @ u, r2)) (scan_string r1))
       else if (of_char c :: nat) < 32 then None
       else map_option (\<lambda>(u, r1). (c # u, r1)) (scan_string r))"
  by pat_completeness auto
termination
  by (relation "measure length") (auto dest!: scan_escape_length)

declare scan_string.simps [simp del]

section \<open>Numbers\<close>

definition int_part :: "string \<Rightarrow> (string \<times> string) option" where
  "int_part s =
    (case s of
       [] \<Rightarrow> None
     | c # r \<Rightarrow>
         if c = CHR ''0'' then Some (''0'', r)
         else if is_digit c then Some (takeWhile is_digit s, dropWhile is_digit s) else None)"

definition frac_part :: "string \<Rightarrow> string \<times> string" where
  "frac_part s =
    (case s of
       [] \<Rightarrow> ([], s)
     | c # r \<Rightarrow>
         if c = CHR ''.'' \<and> takeWhile is_digit r \<noteq> [] then (c # takeWhile is_digit r, dropWhile is_digit r) else ([], s))"

definition sign_part :: "string \<Rightarrow> string \<times> string" where
  "sign_part s = (case s of [] \<Rightarrow> ([], s) | c # r \<Rightarrow> if c = CHR ''+'' \<or> c = CHR ''-'' then ([c], r) else ([], s))"

definition exp_part :: "string \<Rightarrow> string \<times> string" where
  "exp_part s =
    (case s of
       [] \<Rightarrow> ([], s)
     | c # r \<Rightarrow>
         let (sg, r1) = sign_part r in
         if (c = CHR ''e'' \<or> c = CHR ''E'') \<and> takeWhile is_digit r1 \<noteq> []
         then (c # sg @ takeWhile is_digit r1, dropWhile is_digit r1) else ([], s))"

text \<open>The text of the integer part, the text after it, and the rest.\<close>

definition split_number :: "string \<Rightarrow> (string \<times> string \<times> string) option" where
  "split_number s =
    (let (sg, s1) = (if starts_with s ''-'' then (''-'', tl s) else ([], s)) in
     case int_part s1 of
       None \<Rightarrow> None
     | Some (i, s2) \<Rightarrow>
         let (f, s3) = frac_part s2; (e, s4) = exp_part s3 in Some (sg @ i, f @ e, s4))"

definition int_value :: "string \<Rightarrow> int" where
  "int_value s = (if starts_with s ''-'' then - digits_int (tl s) else digits_int s)"

section \<open>Documents\<close>

definition is_ws :: "char \<Rightarrow> bool" where
  "is_ws c \<longleftrightarrow> c \<in> {CHR '' '', CHR 0x09, CHR 0x0A, CHR 0x0D}"

definition skip_ws :: "string \<Rightarrow> string" where
  "skip_ws s = dropWhile is_ws s"

definition parse_atom :: "(string \<Rightarrow> pyfloat) \<Rightarrow> string \<Rightarrow> (json \<times> string) option" where
  "parse_atom to_float s =
    (if starts_with s ''null'' then Some (JNull, drop 4 s)
     else if starts_with s ''true'' then Some (JBool True, drop 4 s)
     else if starts_with s ''false'' then Some (JBool False, drop 5 s)
     else case split_number s of
       Some (i, f, r) \<Rightarrow> Some (if f = [] then JInt (int_value i) else JFloat (to_float (i @ f)), r)
     | None \<Rightarrow>
         if starts_with s ''NaN'' then Some (JFloat FNan, drop 3 s)
         else if starts_with s ''Infinity'' then Some (JFloat FInf, drop 8 s)
         else if starts_with s ''-Infinity'' then Some (JFloat FNegInf, drop 9 s)
         else None)"

fun parse_value :: "(string \<Rightarrow> pyfloat) \<Rightarrow> nat \<Rightarrow> string \<Rightarrow> (json \<times> string) option"
  and parse_items :: "(string \<Rightarrow> pyfloat) \<Rightarrow> nat \<Rightarrow> string \<Rightarrow> json list \<Rightarrow> (json \<times> string) option"
  and parse_members :: "(string \<Rightarrow> pyfloat) \<Rightarrow> nat \<Rightarrow> string \<Rightarrow> (string \<times> json) list \<Rightarrow> (json \<times> string) option" where
  "parse_value fl 0 s = None"
| "parse_value fl (Suc n) s =
    (if starts_with s [CHR 0x22] then map_option (\<lambda>(t, r). (JStr t, r)) (scan_string (tl s))
     else if starts_with s ''['' then
       (let r = skip_ws (tl s) in if starts_with r '']'' then Some (JList [], tl r) else parse_items fl n r [])
     else if starts_with s ''{'' then
       (let r = skip_ws (tl s) in if starts_with r ''}'' then Some (JObj [], tl r) else parse_members fl n r [])
     else parse_atom fl s)"
| "parse_items fl 0 s acc = None"
| "parse_items fl (Suc n) s acc =
    (case parse_value fl n s of
       None \<Rightarrow> None
     | Some (v, r) \<Rightarrow>
         let r1 = skip_ws r in
         if starts_with r1 '']'' then Some (JList (acc @ [v]), tl r1)
         else if starts_with r1 '','' then parse_items fl n (skip_ws (tl r1)) (acc @ [v])
         else None)"
| "parse_members fl 0 s acc = None"
| "parse_members fl (Suc n) s acc =
    (if \<not> starts_with s [CHR 0x22] then None else
     case scan_string (tl s) of
       None \<Rightarrow> None
     | Some (k, r) \<Rightarrow>
         let r1 = skip_ws r in
         if \<not> starts_with r1 '':'' then None else
         (case parse_value fl n (skip_ws (tl r1)) of
            None \<Rightarrow> None
          | Some (v, r2) \<Rightarrow>
              let r3 = skip_ws r2 in
              if starts_with r3 ''}'' then Some (JObj (dict_set k v acc), tl r3)
              else if starts_with r3 '','' then parse_members fl n (skip_ws (tl r3)) (dict_set k v acc)
              else None))"

definition loads :: "(string \<Rightarrow> pyfloat) \<Rightarrow> string \<Rightarrow> json res" where
  "loads fl s =
    (case parse_value fl (length s + 1) (skip_ws s) of
       None \<Rightarrow> raise ValueError ''not a JSON document''
     | Some (j, r) \<Rightarrow> if skip_ws r = [] then Inr j else raise ValueError ''Extra data'')"

section \<open>Lemmas: strings and numbers\<close>

lemma hex_value_digit: "n < 16 \<Longrightarrow> hex_value (hexdigit n) = Some n"
proof -
  have "\<forall>n\<in>{0..<16}. hex_value (hexdigit n) = Some n" by code_simp
  then show "n < 16 \<Longrightarrow> ?thesis" by simp
qed

lemma hex4_byte: "hex4 (''00'' @ hex_byte c @ r) = Some (of_char c, r)"
proof -
  have "hex_byte c = [hexdigit (of_char c div 16), hexdigit (of_char c mod 16)]" by (simp add: hex_byte_def Let_def)
  moreover have "(of_char c :: nat) div 16 < 16" "(of_char c :: nat) mod 16 < 16"
    using nat_of_char_less_256[of c] by (simp_all add: less_mult_imp_div_less)
  moreover have "hex_value CHR ''0'' = Some 0" by code_simp
  ultimately show ?thesis by (simp add: hex4_def hex_value_digit)
qed

lemma of_char_small: "(of_char c :: nat) < 32 \<Longrightarrow> utf8_encode (of_char c) = [c]"
  by (simp add: utf8_encode_def)

lemma esc_char_kind:
  "(\<exists>e. esc_char c = [CHR 0x5C, e] \<and> e \<noteq> CHR ''u'' \<and> map_of simple_escapes e = Some c) \<or>
   (esc_char c = [CHR 0x5C, CHR ''u'', CHR ''0'', CHR ''0''] @ hex_byte c \<and> (of_char c :: nat) < 32) \<or>
   (esc_char c = [c] \<and> c \<noteq> CHR 0x22 \<and> c \<noteq> CHR 0x5C \<and> \<not> (of_char c :: nat) < 32)"
  by (auto simp: esc_char_def simple_escapes_def)

lemma scan_esc_char: "scan_string (esc_char c @ s) = map_option (\<lambda>(u, r). (c # u, r)) (scan_string s)"
  using esc_char_kind[of c]
proof (elim disjE exE conjE)
  fix e
  assume "esc_char c = [CHR 0x5C, e]" "e \<noteq> CHR ''u''" "map_of simple_escapes e = Some c"
  then show ?thesis by (simp add: scan_string.simps[of "CHR 0x5C # _"] scan_escape_def)
next
  assume e: "esc_char c = [CHR 0x5C, CHR ''u'', CHR ''0'', CHR ''0''] @ hex_byte c" "(of_char c :: nat) < 32"
  have "scan_escape (CHR ''u'' # ''00'' @ hex_byte c @ s) = Some ([c], s)"
    using hex4_byte[of c s] e(2) of_char_small[OF e(2)] by (simp add: scan_escape_def)
  then show ?thesis using e(1) by (simp add: scan_string.simps[of "CHR 0x5C # _"])
next
  assume "esc_char c = [c]" "c \<noteq> CHR 0x22" "c \<noteq> CHR 0x5C" "\<not> (of_char c :: nat) < 32"
  then show ?thesis by (simp add: scan_string.simps[of "c # _"])
qed

lemma scan_render: "scan_string (concat (map esc_char s) @ CHR 0x22 # r) = Some (s, r)"
  by (induction s) (simp_all add: scan_esc_char, simp add: scan_string.simps)

lemma digits_before:
  assumes "delimited r"
  shows "takeWhile is_digit (s @ r) = takeWhile is_digit s" "dropWhile is_digit (s @ r) = dropWhile is_digit s @ r"
proof -
  have "r = [] \<or> \<not> is_digit (hd r)" using assms by (auto simp: delimited_def is_digit_def)
  then have "takeWhile is_digit r = []" "dropWhile is_digit r = r" by (cases r; simp)+
  then show "takeWhile is_digit (s @ r) = takeWhile is_digit s" "dropWhile is_digit (s @ r) = dropWhile is_digit s @ r"
    by (induction s) simp_all
qed

lemma int_part_append: "delimited r \<Longrightarrow> int_part s = Some (i, t) \<Longrightarrow> int_part (s @ r) = Some (i, t @ r)"
  using digits_before[of r s] by (cases s) (auto simp: int_part_def split: if_splits)

lemma frac_part_append: "delimited r \<Longrightarrow> frac_part s = (f, t) \<Longrightarrow> frac_part (s @ r) = (f, t @ r)"
  using digits_before[of r "tl s"] by (cases s; cases r) (auto simp: frac_part_def delimited_def split: if_splits)

lemma sign_part_append: "delimited r \<Longrightarrow> sign_part s = (f, t) \<Longrightarrow> sign_part (s @ r) = (f, t @ r)"
  by (cases s; cases r) (auto simp: sign_part_def delimited_def split: if_splits)

lemma exp_part_append:
  assumes "delimited r" "exp_part s = (f, t)"
  shows "exp_part (s @ r) = (f, t @ r)"
proof (cases s)
  case Nil
  then show ?thesis using assms by (cases r) (auto simp: exp_part_def delimited_def Let_def split: prod.splits)
next
  case (Cons c u)
  obtain sg v where u: "sign_part u = (sg, v)" by (rule prod.exhaust)
  then have "sign_part (u @ r) = (sg, v @ r)" using sign_part_append assms(1) by blast
  then show ?thesis using Cons u assms digits_before[OF assms(1), of v] by (auto simp: exp_part_def Let_def split: if_splits)
qed

lemma split_number_append:
  assumes "delimited r" "split_number s = Some (i, f, t)"
  shows "split_number (s @ r) = Some (i, f, t @ r)"
proof -
  define sg s1 where "sg = (if starts_with s ''-'' then ''-'' else [])" "s1 = (if starts_with s ''-'' then tl s else s)"
  obtain i1 s2 where i: "int_part s1 = Some (i1, s2)"
    using assms(2) by (cases "int_part s1") (auto simp: split_number_def sg_s1_def split: if_splits)
  obtain f1 s3 where f: "frac_part s2 = (f1, s3)" by (rule prod.exhaust)
  obtain e1 s4 where e: "exp_part s3 = (e1, s4)" by (rule prod.exhaust)
  have s: "starts_with (s @ r) ''-'' = starts_with s ''-''" "starts_with s ''-'' \<longrightarrow> tl (s @ r) = tl s @ r"
    using i by (cases s; auto simp: sg_s1_def int_part_def)+
  have "int_part (s1 @ r) = Some (i1, s2 @ r)" "frac_part (s2 @ r) = (f1, s3 @ r)" "exp_part (s3 @ r) = (e1, s4 @ r)"
    using int_part_append frac_part_append exp_part_append assms(1) i f e by blast+
  then show ?thesis using assms(2) i f e s by (auto simp: split_number_def sg_s1_def split: if_splits)
qed

lemma digit_value_char: "n < 10 \<Longrightarrow> digit_value (digit_char n) = int n"
proof -
  have "\<forall>n\<in>{0..<10}. digit_value (digit_char n) = int n" by code_simp
  then show "n < 10 \<Longrightarrow> ?thesis" by simp
qed

lemma digits_int_nat_dec: "digits_int (nat_dec n) = int n"
proof (induction n rule: nat_dec.induct)
  case (1 n)
  show ?case
  proof (cases "n < 10")
    case True
    then show ?thesis by (simp add: nat_dec.simps[of n] digits_int_def digit_char_digit digit_value_char)
  next
    case False
    then have "digits_int (nat_dec n) = 10 * digits_int (nat_dec (n div 10)) + int (n mod 10)"
      by (simp add: nat_dec.simps[of n] digits_int_def digit_char_digit digit_value_char)
    moreover have "digits_int (nat_dec (n div 10)) = int (n div 10)" using 1 False by simp
    ultimately show ?thesis by (simp add: zdiv_int zmod_int)
  qed
qed

lemma nat_dec_hd: "0 < n \<Longrightarrow> hd (nat_dec n) \<noteq> CHR ''0''"
proof (induction n rule: nat_dec.induct)
  case (1 n)
  show ?case
  proof (cases "n < 10")
    case True
    have "\<forall>n\<in>{1..<10}. digit_char n \<noteq> CHR ''0''" by code_simp
    then show ?thesis using True 1(2) by (simp add: nat_dec.simps[of n])
  next
    case False
    then show ?thesis using 1 by (simp add: nat_dec.simps[of n] hd_append)
  qed
qed

lemma int_part_nat_dec: "int_part (nat_dec n) = Some (nat_dec n, [])"
proof (cases "n = 0")
  case True
  then show ?thesis by (simp add: nat_dec.simps[of 0] int_part_def digit_char_def)
next
  case False
  obtain c r where c: "nat_dec n = c # r" by (cases "nat_dec n") simp_all
  then have "c \<noteq> CHR ''0''" using nat_dec_hd[of n] False by simp
  moreover have "\<forall>d\<in>set (nat_dec n). is_digit d" using nat_dec_digits by blast
  ultimately show ?thesis unfolding int_part_def c by (simp add: c takeWhile_eq_all_conv[THEN iffD2] dropWhile_eq_Nil_conv[THEN iffD2])
qed

lemma nat_dec_dash: "\<not> starts_with (nat_dec n) ''-''"
  using nat_dec_digits[of "hd (nat_dec n)" n] by (cases "nat_dec n") (auto simp: is_digit_def)

lemma split_number_int: "split_number (int_dec i) = Some (int_dec i, [], [])"
  using int_part_nat_dec nat_dec_dash
  by (simp add: split_number_def int_dec_def frac_part_def exp_part_def Let_def)

lemma int_value_int_dec: "int_value (int_dec i) = i"
  using digits_int_nat_dec nat_dec_dash by (simp add: int_value_def int_dec_def)

section \<open>Lemmas: the parser inverts the printer\<close>

text \<open>The float literals of a document read back as the floats they print.\<close>

fun floats_ok :: "(string \<Rightarrow> pyfloat) \<Rightarrow> json \<Rightarrow> bool" where
  "floats_ok fl (JFloat (FRepr s)) = (\<exists>a b. split_number s = Some (a, b, []) \<and> b \<noteq> [] \<and> s = a @ b \<and> fl s = FRepr s)"
| "floats_ok fl (JList xs) = list_all (floats_ok fl) xs"
| "floats_ok fl (JObj kvs) = list_all (\<lambda>(k, v). floats_ok fl v) kvs"
| "floats_ok fl j = True"

lemma split_number_hd: "split_number s = Some x \<Longrightarrow> \<exists>c r. s = c # r \<and> (c = CHR ''-'' \<or> is_digit c)"
  by (cases s) (auto simp: split_number_def int_part_def is_digit_def split: option.splits list.splits if_splits)

lemma number_keyword:
  "split_number s = Some x \<Longrightarrow> \<not> starts_with s ''null'' \<and> \<not> starts_with s ''true'' \<and> \<not> starts_with s ''false''"
  using split_number_hd[of s x] by (auto simp: is_digit_def)

lemma no_number: "split_number (''NaN'' @ r) = None" "split_number (''Infinity'' @ r) = None" "split_number (''-Infinity'' @ r) = None"
  by (simp_all add: split_number_def int_part_def is_digit_def)

lemma parse_atom_render:
  assumes "is_atom j" "floats_ok fl j" "delimited r"
  shows "parse_atom fl (render j @ r) = Some (j, r)"
proof (cases j)
  case (JInt i)
  have "split_number (int_dec i @ r) = Some (int_dec i, [], r)"
    using split_number_append[OF assms(3) split_number_int[of i]] by simp
  then show ?thesis using JInt number_keyword[of "int_dec i @ r"] by (simp add: parse_atom_def int_value_int_dec)
next
  case (JFloat f)
  show ?thesis
  proof (cases f)
    case (FRepr s)
    then obtain a b where s: "split_number s = Some (a, b, [])" "b \<noteq> []" "s = a @ b" "fl s = FRepr s"
      using assms(2) JFloat by auto
    have "split_number (s @ r) = Some (a, b, r)" using split_number_append[OF assms(3) s(1)] by simp
    then show ?thesis using JFloat FRepr s number_keyword[of "s @ r"] by (simp add: parse_atom_def)
  qed (use JFloat no_number in \<open>simp_all add: parse_atom_def\<close>)
qed (use assms(1) in \<open>auto simp: parse_atom_def\<close>)

text \<open>How the text of a document starts.\<close>

lemma atom_start:
  assumes "is_atom j" "floats_ok fl j"
  shows "\<exists>c u. render j = c # u \<and> \<not> is_ws c \<and> c \<notin> {CHR 0x22, CHR ''['', CHR ''{'', CHR '']''}"
proof (cases j)
  case (JInt i)
  then show ?thesis using split_number_hd[OF split_number_int[of i]] by (auto simp: is_ws_def is_digit_def)
next
  case (JFloat f)
  show ?thesis
  proof (cases f)
    case (FRepr s)
    then obtain a b where "split_number s = Some (a, b, [])" using assms(2) JFloat by auto
    then show ?thesis using split_number_hd[of s] JFloat FRepr by (auto simp: is_ws_def is_digit_def)
  qed (use JFloat in \<open>simp_all add: is_ws_def\<close>)
qed (use assms(1) in \<open>auto simp: is_ws_def\<close>)

lemma skip_render: "floats_ok fl j \<Longrightarrow> skip_ws (render j @ r) = render j @ r"
proof (cases "is_atom j")
  case True
  then show "floats_ok fl j \<Longrightarrow> ?thesis" using atom_start[of j fl] by (auto simp: skip_ws_def)
next
  case False
  then show ?thesis by (cases j) (simp_all add: skip_ws_def is_ws_def render_str_def)
qed

lemma skip_punct: "c \<in> {CHR '','', CHR '']'', CHR ''}'', CHR '':'', CHR 0x22} \<Longrightarrow> skip_ws (c # r) = c # r"
  by (auto simp: skip_ws_def is_ws_def)

lemma delimited_punct: "c \<in> {CHR '','', CHR '']'', CHR ''}''} \<Longrightarrow> delimited (c # r)"
  by (auto simp: delimited_def)

lemma render_start: "floats_ok fl j \<Longrightarrow> \<not> starts_with (render j @ r) '']''"
proof (cases "is_atom j")
  case True
  then show "floats_ok fl j \<Longrightarrow> ?thesis" using atom_start[of j fl] by auto
qed (cases j; simp add: render_str_def)+

lemma skip_renders:
  assumes "list_all (floats_ok fl) xs" "xs \<noteq> []"
  shows "skip_ws (join_with '','' (map render xs) @ r) = join_with '','' (map render xs) @ r"
proof -
  obtain y ys where "xs = y # ys" using assms(2) by (cases xs) auto
  then show ?thesis using assms(1) skip_render[of fl y] by (simp add: join_with_Cons)
qed

lemma parse_items_render:
  assumes "\<And>x n r. x \<in> set xs \<Longrightarrow> delimited r \<Longrightarrow> length (render x) \<le> n \<Longrightarrow> parse_value fl n (render x @ r) = Some (x, r)"
    and "list_all (floats_ok fl) xs" "xs \<noteq> []" "length (join_with '','' (map render xs)) < n"
  shows "parse_items fl n (join_with '','' (map render xs) @ CHR '']'' # r) acc = Some (JList (acc @ xs), r)"
  using assms
proof (induction xs arbitrary: n acc)
  case (Cons x xs)
  obtain m where n: "n = Suc m" using Cons.prems(4) by (cases n) auto
  let ?rest = "if xs = [] then CHR '']'' # r else CHR '','' # join_with '','' (map render xs) @ CHR '']'' # r"
  have shape: "join_with '','' (map render (x # xs)) @ CHR '']'' # r = render x @ ?rest" by (simp add: join_with_Cons)
  have v: "parse_value fl m (render x @ ?rest) = Some (x, ?rest)"
    using Cons.prems(4) by (intro Cons.prems(1)) (auto simp: delimited_def n join_with_Cons split: if_splits)
  show ?case
  proof (cases "xs = []")
    case True
    then show ?thesis using v unfolding shape n by (simp add: skip_punct)
  next
    case False
    then have "parse_items fl m (join_with '','' (map render xs) @ CHR '']'' # r) (acc @ [x]) = Some (JList ((acc @ [x]) @ xs), r)"
      using Cons.prems by (intro Cons.IH) (auto simp: n join_with_Cons)
    moreover have "skip_ws (join_with '','' (map render xs) @ CHR '']'' # r) = join_with '','' (map render xs) @ CHR '']'' # r"
      using Cons.prems(2) False by (intro skip_renders) auto
    ultimately show ?thesis using v False unfolding shape n by (simp add: skip_punct)
  qed
qed simp

definition member :: "string \<times> json \<Rightarrow> string" where
  "member p = render_str (fst p) @ CHR '':'' # render (snd p)"

lemma parse_members_render:
  assumes "\<And>x n r. x \<in> snd ` set kvs \<Longrightarrow> delimited r \<Longrightarrow> length (render x) \<le> n \<Longrightarrow> parse_value fl n (render x @ r) = Some (x, r)"
    and "\<forall>p\<in>set kvs. floats_ok fl (snd p)" "kvs \<noteq> []" "length (join_with '','' (map member kvs)) < n"
    and "distinct (map fst (acc @ kvs))"
  shows "parse_members fl n (join_with '','' (map member kvs) @ CHR ''}'' # r) acc = Some (JObj (acc @ kvs), r)"
  using assms
proof (induction kvs arbitrary: n acc)
  case (Cons p kvs)
  obtain k v where p: "p = (k, v)" by (rule prod.exhaust)
  obtain m where n: "n = Suc m" using Cons.prems(4) by (cases n) auto
  let ?rest = "if kvs = [] then CHR ''}'' # r else CHR '','' # join_with '','' (map member kvs) @ CHR ''}'' # r"
  have shape: "join_with '','' (map member (p # kvs)) @ CHR ''}'' # r = render_str k @ CHR '':'' # render v @ ?rest"
    by (simp add: join_with_Cons member_def p)
  have v: "parse_value fl m (render v @ ?rest) = Some (v, ?rest)"
    using Cons.prems(4) by (intro Cons.prems(1)) (auto simp: delimited_def n p member_def join_with_Cons split: if_splits)
  have k: "scan_string (tl (render_str k @ CHR '':'' # render v @ ?rest)) = Some (k, CHR '':'' # render v @ ?rest)"
    "starts_with (render_str k @ CHR '':'' # render v @ ?rest) [CHR 0x22]"
    using scan_render[of k] by (simp_all add: render_str_def)
  have w: "skip_ws (render v @ ?rest) = render v @ ?rest" using Cons.prems(2) p by (intro skip_render[of fl v]) simp
  have d: "dict_set k v acc = acc @ [p]"
    using Cons.prems(5) by (simp add: p dict_set_fresh)
  show ?case
  proof (cases "kvs = []")
    case True
    then show ?thesis using v k w d unfolding shape n by (simp add: skip_punct)
  next
    case False
    then have "parse_members fl m (join_with '','' (map member kvs) @ CHR ''}'' # r) (acc @ [p]) = Some (JObj ((acc @ [p]) @ kvs), r)"
      using Cons.prems by (intro Cons.IH) (auto simp: n join_with_Cons)
    moreover have "skip_ws (join_with '','' (map member kvs) @ CHR ''}'' # r) = join_with '','' (map member kvs) @ CHR ''}'' # r"
      using False by (cases kvs) (simp_all add: join_with_Cons member_def render_str_def skip_punct)
    ultimately show ?thesis using v k w d False unfolding shape n by (simp add: skip_punct)
  qed
qed simp

lemma parse_value_atom:
  assumes "is_atom j" "floats_ok fl j" "delimited r" "length (render j) \<le> n"
  shows "parse_value fl n (render j @ r) = Some (j, r)"
proof -
  obtain c u where c: "render j = c # u" "c \<notin> {CHR 0x22, CHR ''['', CHR ''{''}" using atom_start[OF assms(1,2)] by auto
  then obtain m where "n = Suc m" using assms(4) by (cases n) auto
  then show ?thesis using c parse_atom_render[OF assms(1-3)] by simp
qed

theorem parse_render:
  assumes "floats_ok fl j" "keys_ok j" "delimited r" "length (render j) \<le> n"
  shows "parse_value fl n (render j @ r) = Some (j, r)"
  using assms
proof (induction j arbitrary: n r)
  case (JStr s)
  then obtain m where n: "n = Suc m" by (cases n) (auto simp: render_str_def)
  then show ?case using scan_render[of s r] by (simp add: render_str_def)
next
  case (JList xs)
  then obtain m where n: "n = Suc m" by (cases n) auto
  show ?case
  proof (cases "xs = []")
    case True
    then show ?thesis by (simp add: n skip_punct)
  next
    case False
    have f: "list_all (floats_ok fl) xs" using JList.prems(1) by simp
    have "parse_items fl m (join_with '','' (map render xs) @ CHR '']'' # r) [] = Some (JList ([] @ xs), r)"
      using JList f False by (intro parse_items_render) (auto simp: n list_all_iff)
    moreover have "\<not> starts_with (join_with '','' (map render xs) @ CHR '']'' # r) '']''"
      using f False render_start[of fl "hd xs"] by (cases xs) (simp_all add: join_with_Cons)
    ultimately show ?thesis using skip_renders[OF f False] by (simp add: n)
  qed
next
  case (JObj kvs)
  then obtain m where n: "n = Suc m" by (cases n) auto
  have shape: "map (\<lambda>(k, v). render_str k @ CHR '':'' # render v) kvs = map member kvs"
    by (simp add: member_def case_prod_beta)
  show ?case
  proof (cases "kvs = []")
    case True
    then show ?thesis by (simp add: n skip_punct)
  next
    case False
    have "parse_members fl m (join_with '','' (map member kvs) @ CHR ''}'' # r) [] = Some (JObj ([] @ kvs), r)"
    proof (rule parse_members_render)
      fix x n r
      assume "x \<in> snd ` set kvs" "delimited r" "length (render x) \<le> n"
      then show "parse_value fl n (render x @ r) = Some (x, r)"
        using JObj.IH JObj.prems(1,2) by (fastforce simp: list_all_iff case_prod_beta)
    next
      show "length (join_with '','' (map member kvs)) < m" using JObj.prems(4) unfolding n render.simps shape by simp
    qed (use JObj.prems(1,2) False in \<open>auto simp: list_all_iff case_prod_beta\<close>)
    moreover obtain u where "join_with '','' (map member kvs) @ CHR ''}'' # r = CHR 0x22 # u"
      using False by (cases kvs) (simp_all add: join_with_Cons member_def render_str_def)
    ultimately show ?thesis unfolding render.simps shape by (simp add: n skip_punct)
  qed
qed (rule parse_value_atom; simp)+

lemma norm_readable: "keys_ok (norm j) = keys_ok j" "floats_ok fl (norm j) = floats_ok fl j"
proof -
  have "mset (map fst (sort_key fst xs)) = mset (map fst xs)" for xs :: "(string \<times> json) list" by simp
  then have keys: "distinct (map fst (sort_key fst xs)) = distinct (map fst xs)" for xs :: "(string \<times> json) list"
    by (metis mset_eq_imp_distinct_iff)
  show "keys_ok (norm j) = keys_ok j"
  proof (induction j)
    case (JObj kvs)
    then show ?case by (auto simp: keys case_prod_beta comp_def list_all_iff snds.simps)
  qed (auto simp: list_all_iff)
  show "floats_ok fl (norm j) = floats_ok fl j"
  proof (induction j)
    case (JFloat f)
    then show ?case by (cases f) simp_all
  qed (auto simp: list_all_iff case_prod_beta snds.simps)
qed

text \<open>What \<open>json.dumps\<close> writes, \<open>json.loads\<close> reads back.\<close>

theorem loads_render:
  assumes "floats_ok fl j" "keys_ok j"
  shows "loads fl (render j) = Inr j"
  using parse_render[OF assms, of "[]" "length (render j) + 1"] skip_render[OF assms(1), of "[]"]
  by (simp add: loads_def delimited_def skip_ws_def)

corollary loads_canonical: "floats_ok fl j \<Longrightarrow> keys_ok j \<Longrightarrow> loads fl (canonical_json j) = Inr (norm j)"
  unfolding canonical_json_def by (rule loads_render) (simp_all add: norm_readable)

section \<open>Lemmas: fuel\<close>

lemma scan_string_length: "scan_string s = Some (t, r) \<Longrightarrow> length r < length s"
proof (induction s arbitrary: t r rule: scan_string.induct)
  case (1 s)
  then show ?case
    by (subst (asm) (3) scan_string.simps) (fastforce split: list.splits if_splits option.splits dest: scan_escape_length)
qed

lemma drop_prefix_length: "starts_with s p \<Longrightarrow> p \<noteq> [] \<Longrightarrow> length (drop (length p) s) < length s"
  by (auto simp: starts_with_iff)

lemma skip_ws_length: "length (skip_ws s) \<le> length s"
  by (simp add: skip_ws_def length_dropWhile_le)

lemma int_part_length: "int_part s = Some (i, t) \<Longrightarrow> length t < length s"
  by (cases s) (auto simp: int_part_def length_dropWhile_le less_Suc_eq_le split: if_splits)

lemma frac_part_length: "frac_part s = (f, t) \<Longrightarrow> length t \<le> length s"
  by (cases s) (auto simp: frac_part_def length_dropWhile_le le_SucI split: if_splits)

lemma sign_part_length: "sign_part s = (f, t) \<Longrightarrow> length t \<le> length s"
  by (cases s) (auto simp: sign_part_def split: if_splits)

lemma exp_part_length: "exp_part s = (f, t) \<Longrightarrow> length t \<le> length s"
  by (cases s) (auto simp: exp_part_def Let_def split: if_splits prod.splits dest!: sign_part_length
    intro: le_SucI order_trans[OF length_dropWhile_le])

lemma split_number_length: "split_number s = Some (i, f, r) \<Longrightarrow> length r < length s"
  by (cases s) (auto simp: split_number_def Let_def split: if_splits prod.splits option.splits
    dest!: int_part_length frac_part_length exp_part_length)

lemma parse_atom_length: "parse_atom fl s = Some (j, r) \<Longrightarrow> length r < length s"
  using drop_prefix_length[of s "''null''"] drop_prefix_length[of s "''true''"] drop_prefix_length[of s "''false''"]
    drop_prefix_length[of s "''NaN''"] drop_prefix_length[of s "''Infinity''"] drop_prefix_length[of s "''-Infinity''"]
  by (auto simp: parse_atom_def split: if_splits option.splits dest!: split_number_length)

text \<open>An answer needs no more fuel than the text it reads has characters, and never changes with more.\<close>

lemma parse_fuel:
  "parse_value fl n s = Some (j, r) \<Longrightarrow>
     length r < length s \<and> (\<forall>m. length s - length r \<le> m \<longrightarrow> parse_value fl m s = Some (j, r))"
  "parse_items fl n s js = Some (j, r) \<Longrightarrow>
     length r < length s \<and> (\<forall>m. length s - length r \<le> m \<longrightarrow> parse_items fl m s js = Some (j, r))"
  "parse_members fl n s kvs = Some (j, r) \<Longrightarrow>
     length r < length s \<and> (\<forall>m. length s - length r \<le> m \<longrightarrow> parse_members fl m s kvs = Some (j, r))"
proof (induction fl n s and fl n s js and fl n s kvs arbitrary: j r and j r and j r
    rule: parse_value_parse_items_parse_members.induct)
  case (2 fl n s)
  have w: "length (skip_ws (tl s)) \<le> length (tl s)" by (rule skip_ws_length)
  have container: "length r < length s \<and> (\<forall>m. length s - length r \<le> m \<longrightarrow> parse_value fl m s = Some (j, r))"
    if val: "\<And>m. parse_value fl (Suc m) s = (if starts_with (skip_ws (tl s)) close then Some (e, tl (skip_ws (tl s))) else p m)"
      and sub: "\<not> starts_with (skip_ws (tl s)) close \<Longrightarrow> length r < length (skip_ws (tl s)) \<and>
        (\<forall>m. length (skip_ws (tl s)) - length r \<le> m \<longrightarrow> p m = Some (j, r))"
      and ne: "s \<noteq> []" "close \<noteq> []" for close e p
  proof -
    have r: "length r < length (skip_ws (tl s))"
      using sub 2(3) ne(2) unfolding val by (cases "skip_ws (tl s)"; cases close) (auto split: if_splits)
    show ?thesis
    proof (intro conjI allI impI)
      show "length r < length s" using r w by simp
      fix m
      assume "length s - length r \<le> m"
      then obtain k where k: "m = Suc k" "length (skip_ws (tl s)) - length r \<le> k"
        using r w ne(1) by (cases m) auto
      then show "parse_value fl m s = Some (j, r)" using sub 2(3) unfolding k(1) val by (auto split: if_splits)
    qed
  qed
  consider (str) "starts_with s [CHR 0x22]" | (list) "starts_with s ''[''" | (obj) "starts_with s ''{''"
    | (atom) "\<not> starts_with s [CHR 0x22]" "\<not> starts_with s ''[''" "\<not> starts_with s ''{''" by blast
  then show ?case
  proof cases
    case str
    then obtain x where x: "scan_string (tl s) = Some (x, r)" "j = JStr x" using 2(3) by auto
    then have l: "length r < length (tl s)" using scan_string_length by blast
    have "parse_value fl m s = Some (j, r)" if "length s - length r \<le> m" for m
      using that l str x by (cases m) simp_all
    then show ?thesis using l by simp
  next
    case list
    then have n: "\<not> starts_with s [CHR 0x22]" "s \<noteq> []" by (auto simp: starts_with_iff)
    show ?thesis
    proof (rule container[where close = "'']''" and e = "JList []" and p = "\<lambda>m. parse_items fl m (skip_ws (tl s)) []"])
      show val: "parse_value fl (Suc m) s = (if starts_with (skip_ws (tl s)) '']'' then Some (JList [], tl (skip_ws (tl s)))
          else parse_items fl m (skip_ws (tl s)) [])" for m
        using n list by (simp add: Let_def)
      assume c: "\<not> starts_with (skip_ws (tl s)) '']''"
      show "length r < length (skip_ws (tl s)) \<and> (\<forall>m. length (skip_ws (tl s)) - length r \<le> m \<longrightarrow>
          parse_items fl m (skip_ws (tl s)) [] = Some (j, r))"
        by (rule 2(1)[OF n(1) list refl c]) (use 2(3) val c in simp)
    qed (use n in simp_all)
  next
    case obj
    then have n: "\<not> starts_with s [CHR 0x22]" "\<not> starts_with s ''[''" "s \<noteq> []" by (auto simp: starts_with_iff)
    show ?thesis
    proof (rule container[where close = "''}''" and e = "JObj []" and p = "\<lambda>m. parse_members fl m (skip_ws (tl s)) []"])
      show val: "parse_value fl (Suc m) s = (if starts_with (skip_ws (tl s)) ''}'' then Some (JObj [], tl (skip_ws (tl s)))
          else parse_members fl m (skip_ws (tl s)) [])" for m
        using n obj by (simp add: Let_def)
      assume c: "\<not> starts_with (skip_ws (tl s)) ''}''"
      show "length r < length (skip_ws (tl s)) \<and> (\<forall>m. length (skip_ws (tl s)) - length r \<le> m \<longrightarrow>
          parse_members fl m (skip_ws (tl s)) [] = Some (j, r))"
        by (rule 2(2)[OF n(1,2) obj refl c]) (use 2(3) val c in simp)
    qed (use n in simp_all)
  next
    case atom
    then have a: "parse_atom fl s = Some (j, r)" using 2(3) by simp
    have "parse_value fl m s = Some (j, r)" if "length s - length r \<le> m" for m
      using a atom that parse_atom_length[OF a] by (cases m) auto
    then show ?thesis using parse_atom_length[OF a] by blast
  qed
next
  case (4 fl n s acc)
  obtain v r0 where v: "parse_value fl n s = Some (v, r0)"
    using 4(3) by (cases "parse_value fl n s") (simp_all, metis surj_pair)
  note iv = 4(1)[OF v]
  define r1 where "r1 = skip_ws r0"
  have w: "length r1 \<le> length r0" unfolding r1_def by (rule skip_ws_length)
  have step: "(if starts_with r1 '']'' then Some (JList (acc @ [v]), tl r1)
      else if starts_with r1 '','' then parse_items fl n (skip_ws (tl r1)) (acc @ [v]) else None) = Some (j, r)"
    using 4(3) v unfolding r1_def by (simp add: Let_def split del: if_split)
  note ii = 4(2)[OF v refl r1_def]
  have w2: "length (skip_ws (tl r1)) \<le> length (tl r1)" by (rule skip_ws_length)
  have more: "starts_with r1 '','' \<and> parse_items fl n (skip_ws (tl r1)) (acc @ [v]) = Some (j, r)" if "\<not> starts_with r1 '']''"
    using step that by (cases "starts_with r1 '',''") simp_all
  have last: "tl r1 = r \<and> r1 \<noteq> []" if "starts_with r1 '']''"
    using step that by (cases r1) simp_all
  have len: "length r < length r1"
  proof (cases "starts_with r1 '']''")
    case True
    then show ?thesis using last by (cases r1) auto
  next
    case False
    then show ?thesis using ii[OF False] more[OF False] w2 by (cases r1) simp_all
  qed
  show ?case
  proof (intro conjI allI impI)
    show "length r < length s" using len w iv by simp
    fix m
    assume m: "length s - length r \<le> m"
    then obtain k where k: "m = Suc k" using len w iv by (cases m) auto
    have "parse_value fl k s = Some (v, r0)" using iv m k len w by auto
    moreover have "parse_items fl k (skip_ws (tl r1)) (acc @ [v]) = Some (j, r)" if f: "\<not> starts_with r1 '']''"
    proof -
      have "length (skip_ws (tl r1)) - length r \<le> k" using m k w w2[unfolded length_tl] conjunct1[OF iv] by linarith
      then show ?thesis using ii[OF f] more[OF f] by blast
    qed
    ultimately show "parse_items fl m s acc = Some (j, r)"
      using step more by (cases "starts_with r1 '']''") (simp_all add: k r1_def[symmetric] Let_def)
  qed
next
  case (6 fl n s acc)
  have q: "starts_with s [CHR 0x22]" using 6(3) by (rule contrapos_pp) simp
  obtain k r0 where k: "scan_string (tl s) = Some (k, r0)"
    using 6(3) q by (cases "scan_string (tl s)") (simp_all, metis surj_pair)
  define r1 where "r1 = skip_ws r0"
  have c: "starts_with r1 '':''" using 6(3) by (rule contrapos_pp) (simp add: q k r1_def)
  obtain v r2 where v: "parse_value fl n (skip_ws (tl r1)) = Some (v, r2)"
    using 6(3) q k c by (cases "parse_value fl n (skip_ws (tl r1))") (simp_all add: r1_def, metis surj_pair)
  define r3 where "r3 = skip_ws r2"
  have step: "(if starts_with r3 ''}'' then Some (JObj (dict_set k v acc), tl r3)
      else if starts_with r3 '','' then parse_members fl n (skip_ws (tl r3)) (dict_set k v acc) else None) = Some (j, r)"
    using 6(3) q k c v unfolding r3_def r1_def by (simp add: Let_def split del: if_split)
  note q' = q[THEN not_not[THEN iffD2]] and c' = c[THEN not_not[THEN iffD2]]
  have iv: "length r2 < length (skip_ws (tl r1)) \<and>
      (\<forall>m. length (skip_ws (tl r1)) - length r2 \<le> m \<longrightarrow> parse_value fl m (skip_ws (tl r1)) = Some (v, r2))"
    by (rule 6(1)[OF q' k refl r1_def c' v])
  have ii: "length r < length (skip_ws (tl r3)) \<and>
      (\<forall>m. length (skip_ws (tl r3)) - length r \<le> m \<longrightarrow> parse_members fl m (skip_ws (tl r3)) (dict_set k v acc) = Some (j, r))"
    if f: "\<not> starts_with r3 ''}''" "starts_with r3 '',''" "parse_members fl n (skip_ws (tl r3)) (dict_set k v acc) = Some (j, r)"
    by (rule 6(2)[OF q' k refl r1_def c' v refl r3_def f])
  have w: "length r1 \<le> length r0" "length r3 \<le> length r2" "length (skip_ws (tl r1)) \<le> length (tl r1)"
    "length (skip_ws (tl r3)) \<le> length (tl r3)" "length r0 < length (tl s)"
    unfolding r1_def r3_def using scan_string_length[OF k] by (simp_all only: skip_ws_length)
  have more: "starts_with r3 '','' \<and> parse_members fl n (skip_ws (tl r3)) (dict_set k v acc) = Some (j, r)" if "\<not> starts_with r3 ''}''"
    using step that by (cases "starts_with r3 '',''") simp_all
  have len: "length r < length r3"
  proof (cases "starts_with r3 ''}''")
    case True
    then show ?thesis using step by (cases r3) auto
  next
    case False
    then show ?thesis using ii[OF False conjunct1[OF more[OF False]] conjunct2[OF more[OF False]]] more[OF False] w(4) by (cases r3) simp_all
  qed
  show ?case
  proof (intro conjI allI impI)
    note chain = len w[unfolded length_tl] conjunct1[OF iv]
    show "length r < length s" using chain by linarith
    fix m
    assume m: "length s - length r \<le> m"
    moreover have "0 < length s - length r" using chain by linarith
    ultimately obtain l where l: "m = Suc l" by (cases m) simp_all
    have "length (skip_ws (tl r1)) - length r2 \<le> l" using chain m l by linarith
    then have "parse_value fl l (skip_ws (tl r1)) = Some (v, r2)" using iv by blast
    moreover have "parse_members fl l (skip_ws (tl r3)) (dict_set k v acc) = Some (j, r)" if f: "\<not> starts_with r3 ''}''"
    proof -
      have "length (skip_ws (tl r3)) - length r \<le> l" using m l chain by linarith
      then show ?thesis using ii[OF f conjunct1[OF more[OF f]] conjunct2[OF more[OF f]]] by blast
    qed
    ultimately show "parse_members fl m s acc = Some (j, r)"
      using step more q k c by (cases "starts_with r3 ''}''") (simp_all add: l r1_def[symmetric] r3_def[symmetric] Let_def)
  qed
qed simp_all

text \<open>So the fuel of \<open>loads\<close> is enough: no larger amount finds a document it misses.\<close>

theorem loads_needs_no_more_fuel:
  assumes "parse_value fl n (skip_ws s) = Some (j, r)" "skip_ws r = []"
  shows "loads fl s = Inr j"
proof -
  have "length (skip_ws s) - length r \<le> length s + 1" using skip_ws_length[of s] by simp
  then have "parse_value fl (length s + 1) (skip_ws s) = Some (j, r)" using parse_fuel(1)[OF assms(1)] by blast
  then show ?thesis using assms(2) by (simp add: loads_def)
qed

end
