(* ===== verification/Public_Challenge.thy ===== *)
theory Public_Challenge
  imports Immutable Attestation Demo_Runtime Json_Parse
begin

text \<open>
  public_challenge/: the arena anyone may send an answer to.  protocol.py validates the answer of an
  attack program (\<open>_walk\<close>, \<open>_canonical\<close>, \<open>validate_advisory_payload\<close>) and defines the published
  snapshot and the receipt; evaluator.py runs the release engine twice on the packaged vulnerable
  fixture, with no opinion and with the hostile answer as the advisor, and compares the outcomes.

  Parameters: \<open>fl\<close> reads a number with a fraction or an exponent (Python's \<open>float\<close>), the package on
  disk, the pinned digest file, and the identifier and time of each of the two reports.
  The lemmas: what an accepted answer looks like, and that no accepted answer moves the evidence, the
  signed artifact or the decision.
\<close>

section \<open>Limits\<close>

definition attack_max_bytes :: nat where "attack_max_bytes = 64 * 1024"
definition attack_max_depth :: nat where "attack_max_depth = 16"
definition attack_max_items :: nat where "attack_max_items = 2048"
definition attack_max_string :: nat where "attack_max_string = 8192"
definition attack_max_key :: nat where "attack_max_key = 256"

text \<open>The longest integer, in digits, that \<open>int.__repr__\<close> writes (\<open>sys.get_int_max_str_digits()\<close>).\<close>

definition int_max_str_digits :: nat where "int_max_str_digits = 4300"

section \<open>\<open>json.dumps\<close> of a Python value\<close>

text \<open>
  The document \<open>json.dumps\<close> writes: a tuple is written as a list, a read-only mapping and every other
  object are refused.  A key that is not a string never reaches it: \<open>_walk\<close> runs first.
\<close>

fun dumps_value :: "pyval \<Rightarrow> json res" where
  "dumps_value VNone = Inr JNull"
| "dumps_value (VBool b) = Inr (JBool b)"
| "dumps_value (VInt i) = Inr (JInt i)"
| "dumps_value (VFloat f) = Inr (JFloat f)"
| "dumps_value (VStr s) = Inr (JStr s)"
| "dumps_value (VList xs) = and_then (map_res dumps_value xs) (\<lambda>js. Inr (JList js))"
| "dumps_value (VTuple xs) = and_then (map_res dumps_value xs) (\<lambda>js. Inr (JList js))"
| "dumps_value (VDict kvs) =
     and_then (map_res (\<lambda>(k, v).
         (case k of
            KOther _ \<Rightarrow> raise TypeError ''keys must be str''
          | KStr s \<Rightarrow> and_then (dumps_value v) (\<lambda>j. Inr (s, j)))) kvs)
       (\<lambda>items. Inr (JObj items))"
| "dumps_value (VProxy kvs) = raise TypeError ''Object of type mappingproxy is not JSON serializable''"
| "dumps_value (VObj t) = raise TypeError (''Object of type '' @ t @ '' is not JSON serializable'')"

text \<open>
  What \<open>allow_nan=False\<close>, \<open>int.__repr__\<close> and \<open>encode("utf-8")\<close> accept.  A lone surrogate is held by the
  three bytes its code point would have, which no other character has.
\<close>

fun has_surrogate :: "string \<Rightarrow> bool" where
  "has_surrogate (c # d # cs) = (c = CHR 0xED \<and> CHR 0xA0 \<le> d \<or> has_surrogate (d # cs))"
| "has_surrogate s = False"

fun encodable :: "json \<Rightarrow> bool" where
  "encodable (JInt i) = (length (nat_dec (nat \<bar>i\<bar>)) \<le> int_max_str_digits)"
| "encodable (JFloat f) = (case f of FRepr s \<Rightarrow> True | _ \<Rightarrow> False)"
| "encodable (JStr s) = (\<not> has_surrogate s)"
| "encodable (JList js) = list_all encodable js"
| "encodable (JObj kvs) = list_all (\<lambda>(k, v). \<not> has_surrogate k \<and> encodable v) kvs"
| "encodable j = True"

definition attack_canonical_json :: "json \<Rightarrow> bytes res" where
  "attack_canonical_json j =
     (if encodable j then Inr (canonical_json j)
      else raise AttackProtocolError ''attack output is not canonical JSON'')"

text \<open>\<open>_canonical\<close>: every \<open>TypeError\<close> and \<open>ValueError\<close> becomes a protocol error.\<close>

definition attack_canonical :: "pyval \<Rightarrow> bytes res" where
  "attack_canonical v =
    (case dumps_value v of
       Inl e \<Rightarrow> if catches TypeError e \<or> catches ValueError e
                then raise AttackProtocolError ''attack output is not canonical JSON'' else Inl e
     | Inr j \<Rightarrow> attack_canonical_json j)"

section \<open>\<open>_walk\<close>\<close>

definition at_depth :: "nat \<Rightarrow> unit res \<Rightarrow> unit res" where
  "at_depth d rest =
     (if d > attack_max_depth then raise AttackProtocolError ''attack output exceeds maximum nesting depth'' else rest)"

definition check_key :: "pykey \<Rightarrow> unit res" where
  "check_key k =
    (case k of
       KOther _ \<Rightarrow> raise AttackProtocolError ''attack output mapping keys must be strings''
     | KStr s \<Rightarrow> if py_len s > attack_max_key then raise AttackProtocolError ''attack output contains an oversized key''
                 else Inr ())"

fun walk :: "nat \<Rightarrow> pyval \<Rightarrow> unit res" where
  "walk d VNone = at_depth d (Inr ())"
| "walk d (VBool b) = at_depth d (Inr ())"
| "walk d (VInt i) = at_depth d (Inr ())"
| "walk d (VFloat f) = at_depth d (and_then (attack_canonical (VFloat f)) (\<lambda>_. Inr ()))"
| "walk d (VStr s) = at_depth d
     (if py_len s > attack_max_string then raise AttackProtocolError ''attack output contains an oversized string''
      else Inr ())"
| "walk d (VDict kvs) = at_depth d
     (if length kvs > attack_max_items then raise AttackProtocolError ''attack output mapping is too large''
      else and_then (map_res (\<lambda>(k, v). and_then (check_key k) (\<lambda>_. walk (d + 1) v)) kvs) (\<lambda>_. Inr ()))"
| "walk d (VProxy kvs) = at_depth d
     (if length kvs > attack_max_items then raise AttackProtocolError ''attack output mapping is too large''
      else and_then (map_res (\<lambda>(k, v). and_then (check_key k) (\<lambda>_. walk (d + 1) v)) kvs) (\<lambda>_. Inr ()))"
| "walk d (VList xs) = at_depth d
     (if length xs > attack_max_items then raise AttackProtocolError ''attack output sequence is too large''
      else and_then (map_res (walk (d + 1)) xs) (\<lambda>_. Inr ()))"
| "walk d (VTuple xs) = at_depth d
     (if length xs > attack_max_items then raise AttackProtocolError ''attack output sequence is too large''
      else and_then (map_res (walk (d + 1)) xs) (\<lambda>_. Inr ()))"
| "walk d (VObj t) = at_depth d (raise AttackProtocolError (''unsupported attack output type: '' @ t))"

fun is_mapping :: "pyval \<Rightarrow> bool" where
  "is_mapping (VDict kvs) = True"
| "is_mapping (VProxy kvs) = True"
| "is_mapping v = False"

definition validate_advisory_payload :: "(string \<Rightarrow> pyfloat) \<Rightarrow> pyval \<Rightarrow> json res" where
  "validate_advisory_payload fl payload =
     (if \<not> is_mapping payload then raise AttackProtocolError ''attack output must be a JSON object'' else
      and_then (walk 0 payload) (\<lambda>_.
      and_then (attack_canonical payload) (\<lambda>raw.
        if length raw > attack_max_bytes then raise AttackProtocolError ''attack output exceeds 64 KiB''
        else loads fl raw)))"

definition attack_sha256_json :: "json \<Rightarrow> string res" where
  "attack_sha256_json j = and_then (attack_canonical_json j) (\<lambda>raw. Inr (sha256_hex raw))"

section \<open>The snapshot and the receipt\<close>

definition build_snapshot :: "string \<Rightarrow> string \<Rightarrow> json list \<Rightarrow> json" where
  "build_snapshot release_id source_sha findings = JObj
    [(''schema'', JStr ''release-sentinel.public-attack-snapshot.v1''),
     (''release_id'', JStr release_id),
     (''source_sha256'', JStr source_sha),
     (''findings'', JList findings),
     (''goal'', JStr (''Change authoritative evidence or final release decision without '' @
        ''changing source/policy ground truth. Advisory compromise alone is expected.'')),
     (''win_conditions'', JList
        [JStr ''authoritative_evidence_changed'', JStr ''final_decision_changed'',
         JStr ''blocking_release_became_go''])]"

record public_receipt =
  pc_attack_payload_sha256 :: string
  pc_source_sha256 :: string
  pc_policy_sha256 :: string
  pc_baseline_artifact :: string
  pc_attacked_artifact :: string
  pc_baseline_evidence :: string
  pc_attacked_evidence :: string
  pc_baseline_decision :: string
  pc_attacked_decision :: string
  pc_blocking_findings :: "string list"
  pc_agent_compromised :: bool
  pc_evidence_changed :: bool
  pc_decision_changed :: bool
  pc_became_go :: bool

definition sentinel_broken :: "public_receipt \<Rightarrow> bool" where
  "sentinel_broken r \<longleftrightarrow> pc_evidence_changed r \<or> pc_decision_changed r \<or> pc_became_go r"

definition public_receipt_fields :: "public_receipt \<Rightarrow> (string \<times> json) list" where
  "public_receipt_fields r =
    [(''schema'', JStr ''release-sentinel.public-attack-receipt.v1''),
     (''attack_payload_sha256'', JStr (pc_attack_payload_sha256 r)),
     (''ground_truth'', JObj
       [(''source_sha256'', JStr (pc_source_sha256 r)),
        (''policy_sha256'', JStr (pc_policy_sha256 r)),
        (''blocking_findings'', JList (map JStr (pc_blocking_findings r)))]),
     (''baseline'', JObj
       [(''artifact_sha256'', JStr (pc_baseline_artifact r)),
        (''evidence_sha256'', JStr (pc_baseline_evidence r)),
        (''decision'', JStr (pc_baseline_decision r))]),
     (''attacked'', JObj
       [(''artifact_sha256'', JStr (pc_attacked_artifact r)),
        (''evidence_sha256'', JStr (pc_attacked_evidence r)),
        (''decision'', JStr (pc_attacked_decision r))]),
     (''outcome'', JObj
       [(''agent_compromised'', JBool (pc_agent_compromised r)),
        (''authoritative_evidence_changed'', JBool (pc_evidence_changed r)),
        (''final_decision_changed'', JBool (pc_decision_changed r)),
        (''blocking_release_became_go'', JBool (pc_became_go r)),
        (''sentinel_broken'', JBool (sentinel_broken r)),
        (''verdict'', JStr (if sentinel_broken r then ''BREAKER_WON'' else ''SENTINEL_HELD''))])]"

definition public_receipt_sha256 :: "public_receipt \<Rightarrow> string res" where
  "public_receipt_sha256 r = attack_sha256_json (JObj (public_receipt_fields r))"

definition public_receipt_to_dict :: "public_receipt \<Rightarrow> json res" where
  "public_receipt_to_dict r =
     and_then (public_receipt_sha256 r) (\<lambda>digest.
       Inr (JObj (public_receipt_fields r @ [(''receipt_sha256'', JStr digest)])))"

section \<open>The evaluator\<close>

definition fixed_now :: int where "fixed_now = 1750000000"
definition fixed_execution_id :: string where "fixed_execution_id = ''public-arena-fixed-execution''"
definition fixed_nonce :: string where "fixed_nonce = ''public-arena-fixed-nonce''"
definition public_release_id :: string where "public_release_id = ''public-break-the-proof''"

text \<open>
  \<open>_fixture\<close>: the packaged policy and the digest pinned beside the vulnerable fixture (\<open>pin\<close> is the
  text of that file).
\<close>

definition public_fixture :: "demo_package \<Rightarrow> string \<Rightarrow> (release_policy \<times> string) res" where
  "public_fixture pk pin = and_then (demo_release_policy pk) (\<lambda>policy. Inr (policy, strip pin))"

definition public_artifact :: "release_report \<Rightarrow> string \<Rightarrow> (string \<times> evidence_bundle) res" where
  "public_artifact report source_sha =
     and_then (build_evidence_bundle report source_sha (Some fixed_now) default_ttl_seconds
         (Some fixed_execution_id) (Some fixed_nonce) 0 ('''', '''')) (\<lambda>b.
       Inr (sha256_hex (canonical_json (bundle_to_dict b)), b))"

text \<open>
  \<open>str.upper\<close> as far as the comparison with an ASCII word sees it: the dotless i and the long s are the
  characters beyond ASCII whose upper case is one of the letters of these words.
\<close>

fun upper_word :: "string \<Rightarrow> string" where
  "upper_word (c # d # cs) =
     (if c = CHR 0xC4 \<and> d = CHR 0xB1 then CHR ''I'' # upper_word cs
      else if c = CHR 0xC5 \<and> d = CHR 0xBF then CHR ''S'' # upper_word cs
      else ascii_upper c # upper_word (d # cs))"
| "upper_word s = upper s"

definition says_go :: "json \<Rightarrow> bool" where
  "says_go j \<longleftrightarrow> upper_word (py_str (or_else j (JStr ''''))) = ''GO''"

definition opinion_list :: "json \<Rightarrow> json list" where
  "opinion_list j = (case j of JList xs \<Rightarrow> xs | _ \<Rightarrow> [])"

definition looks_compromised :: "json \<Rightarrow> bool" where
  "looks_compromised payload \<longleftrightarrow>
     upper_word (py_str (or_else (obj_get payload ''authority'') (JStr ''''))) \<notin> {'''', ''NONE'', ''ADVISORY''} \<or>
     says_go (obj_get payload ''decision'') \<or>
     (\<exists>item \<in> set (opinion_list (obj_get payload ''opinions'')). is_obj item \<and> says_go (obj_get item ''vote'')) \<or>
     (\<exists>key \<in> {''waivers'', ''policy_sha256'', ''policy_revision'', ''evidence_verified''}. obj_has payload key)"

text \<open>One run of the engine on the vulnerable fixture, with this advisor.\<close>

definition public_run ::
    "demo_package \<Rightarrow> release_policy \<Rightarrow> string \<Rightarrow> string \<times> string \<Rightarrow> advisor option \<Rightarrow> release_report res" where
  "public_run pk policy source_sha stamp advisor =
    (let directory = ''repository_vulnerable'' in
     if \<not> pk_exists pk directory then raise ValueError ''repository_path must be an existing directory'' else
     evaluate
       (\<lambda>root command. demo_execute source_sha 1 (length (pk_base pk) + 1) (pk_files pk directory) command)
       advisor local_gatekeeper (pk_entries pk directory) stamp
       \<lparr>rq_release_id = public_release_id, rq_root = pk_base pk @ [directory], rq_commit_sha = None\<rparr> policy)"

definition public_snapshot :: "demo_package \<Rightarrow> string \<Rightarrow> string \<times> string \<Rightarrow> json res" where
  "public_snapshot pk pin stamp =
     and_then (public_fixture pk pin) (\<lambda>(policy, source_sha).
     and_then (public_run pk policy source_sha stamp None) (\<lambda>report.
       Inr (build_snapshot public_release_id source_sha (advisory_projection (rr_findings report)))))"

text \<open>An advisor that is a \<open>lambda\<close> returning a constant: it leaves the sealed findings alone.\<close>

definition constant_advisor :: "json \<Rightarrow> advisor" where
  "constant_advisor answer request findings sealed = (Inr answer, sealed)"

definition silent_answer :: json where
  "silent_answer = JObj [(''authority'', JStr ''NONE''), (''opinions'', JList [])]"

definition evaluate_public_payload ::
    "(string \<Rightarrow> pyfloat) \<Rightarrow> demo_package \<Rightarrow> string \<Rightarrow> string \<times> string \<Rightarrow> string \<times> string \<Rightarrow> pyval \<Rightarrow> public_receipt res" where
  "evaluate_public_payload fl pk pin stamp1 stamp2 payload =
     and_then (validate_advisory_payload fl payload) (\<lambda>hostile.
     and_then (public_fixture pk pin) (\<lambda>(policy, source_sha).
     and_then (public_run pk policy source_sha stamp1 (Some (constant_advisor silent_answer))) (\<lambda>baseline.
     and_then (public_run pk policy source_sha stamp2 (Some (constant_advisor hostile))) (\<lambda>attacked.
     and_then (public_artifact baseline source_sha) (\<lambda>(baseline_artifact, _).
     and_then (public_artifact attacked source_sha) (\<lambda>(attacked_artifact, _).
       let blockers = sort (map finding_id (filter (\<lambda>f. blocking_evidence f \<noteq> []) (rr_findings baseline))) in
     and_then (attack_sha256_json hostile) (\<lambda>payload_sha. Inr
       \<lparr>pc_attack_payload_sha256 = payload_sha,
        pc_source_sha256 = source_sha,
        pc_policy_sha256 = rp_sha256 policy,
        pc_baseline_artifact = baseline_artifact,
        pc_attacked_artifact = attacked_artifact,
        pc_baseline_evidence = rr_evidence_sha256 baseline,
        pc_attacked_evidence = rr_evidence_sha256 attacked,
        pc_baseline_decision = decision_value (rr_decision baseline),
        pc_attacked_decision = decision_value (rr_decision attacked),
        pc_blocking_findings = blockers,
        pc_agent_compromised = looks_compromised hostile,
        pc_evidence_changed = (rr_evidence_sha256 baseline \<noteq> rr_evidence_sha256 attacked \<or>
          baseline_artifact \<noteq> attacked_artifact),
        pc_decision_changed = (decision_value (rr_decision baseline) \<noteq> decision_value (rr_decision attacked)),
        pc_became_go = (blockers \<noteq> [] \<and> decision_value (rr_decision attacked) = ''GO'')\<rparr>)))))))"


section \<open>Lemmas: what an accepted answer looks like\<close>

text \<open>How deep a document nests, and the sizes of what it holds.\<close>

fun json_nesting :: "json \<Rightarrow> nat" where
  "json_nesting (JList js) = foldr max (map (\<lambda>j. Suc (json_nesting j)) js) 0"
| "json_nesting (JObj kvs) = foldr max (map (\<lambda>(k, j). Suc (json_nesting j)) kvs) 0"
| "json_nesting j = 0"

fun sizes_ok :: "json \<Rightarrow> bool" where
  "sizes_ok (JStr s) = (py_len s \<le> attack_max_string)"
| "sizes_ok (JList js) = (length js \<le> attack_max_items \<and> list_all sizes_ok js)"
| "sizes_ok (JObj kvs) =
     (length kvs \<le> attack_max_items \<and> list_all (\<lambda>(k, j). py_len k \<le> attack_max_key \<and> sizes_ok j) kvs)"
| "sizes_ok j = True"

fun finite_floats :: "json \<Rightarrow> bool" where
  "finite_floats (JFloat f) = encodable (JFloat f)"
| "finite_floats (JList js) = list_all finite_floats js"
| "finite_floats (JObj kvs) = list_all (\<lambda>(k, j). finite_floats j) kvs"
| "finite_floats j = True"

lemma encodable_finite: "encodable j \<Longrightarrow> finite_floats j"
proof (induction j)
  case (JObj kvs)
  then show ?case by (fastforce simp: list_all_iff snds.simps)
qed (auto simp: list_all_iff)

lemma foldr_max_le: "(d :: nat) + foldr max ns 0 \<le> b \<longleftrightarrow> d \<le> b \<and> (\<forall>n\<in>set ns. d + n \<le> b)"
  by (induction ns) auto

lemma map_res_unit: "(\<exists>us. map_res f xs = Inr us) \<longleftrightarrow> (\<forall>x\<in>set xs. \<exists>u. f x = Inr u)"
  by (induction xs) (auto simp: and_then_Inr)

lemma at_depth_Inr: "at_depth d m = Inr u \<longleftrightarrow> d \<le> attack_max_depth \<and> m = Inr u"
  by (simp add: at_depth_def)

lemma check_key_Inr: "check_key k = Inr u \<longleftrightarrow> (\<exists>s. k = KStr s \<and> py_len s \<le> attack_max_key)"
  by (cases k) (simp_all add: check_key_def)

lemma dumps_items:
  "map_res (\<lambda>(k, v). (case k of KOther _ \<Rightarrow> raise TypeError ''keys must be str''
      | KStr s \<Rightarrow> and_then (dumps_value v) (\<lambda>j. Inr (s, j)))) kvs = Inr items \<longleftrightarrow>
   list_all2 (\<lambda>(k, v) (s, j). k = KStr s \<and> dumps_value v = Inr j) kvs items"
  by (auto simp: map_res_Inr case_prod_beta and_then_Inr split: pykey.splits elim!: list.rel_mono_strong)

lemma list_all2_all_iff:
  assumes "list_all2 R xs ys" "\<And>x y. x \<in> set xs \<Longrightarrow> y \<in> set ys \<Longrightarrow> R x y \<Longrightarrow> P x \<longleftrightarrow> Q y"
  shows "(\<forall>x\<in>set xs. P x) \<longleftrightarrow> (\<forall>y\<in>set ys. Q y)"
  using assms by (induction rule: list_all2_induct) auto

lemma list_all2_right: "list_all2 R xs ys \<Longrightarrow> y \<in> set ys \<Longrightarrow> \<exists>x \<in> set xs. R x y"
  by (induction rule: list_all2_induct) auto

lemma walk_dumps:
  "dumps_value v = Inr j \<Longrightarrow>
   walk d v = Inr () \<longleftrightarrow> d + json_nesting j \<le> attack_max_depth \<and> sizes_ok j \<and> finite_floats j"
proof (induction v arbitrary: d j)
  case (VFloat f)
  then show ?case
    by (cases f) (auto simp: at_depth_Inr and_then_Inr attack_canonical_def attack_canonical_json_def)
next
  case (VList xs)
  then obtain js where j: "j = JList js" "list_all2 (\<lambda>x y. dumps_value x = Inr y) xs js"
    by (auto simp: and_then_Inr map_res_Inr)
  have "(\<forall>x\<in>set xs. walk (d + 1) x = Inr ()) \<longleftrightarrow>
      (\<forall>y\<in>set js. d + 1 + json_nesting y \<le> attack_max_depth \<and> sizes_ok y \<and> finite_floats y)"
    using j(2) VList.IH by (rule list_all2_all_iff) auto
  then show ?case using j list_all2_lengthD[OF j(2)] map_res_unit[of "walk (d + 1)" xs]
    by (auto simp: at_depth_Inr and_then_Inr foldr_max_le list_all_iff)
next
  case (VTuple xs)
  then obtain js where j: "j = JList js" "list_all2 (\<lambda>x y. dumps_value x = Inr y) xs js"
    by (auto simp: and_then_Inr map_res_Inr)
  have "(\<forall>x\<in>set xs. walk (d + 1) x = Inr ()) \<longleftrightarrow>
      (\<forall>y\<in>set js. d + 1 + json_nesting y \<le> attack_max_depth \<and> sizes_ok y \<and> finite_floats y)"
    using j(2) VTuple.IH by (rule list_all2_all_iff) auto
  then show ?case using j list_all2_lengthD[OF j(2)] map_res_unit[of "walk (d + 1)" xs]
    by (auto simp: at_depth_Inr and_then_Inr foldr_max_le list_all_iff)
next
  case (VDict kvs)
  then obtain items where j: "j = JObj items"
    "list_all2 (\<lambda>(k, v) (s, j). k = KStr s \<and> dumps_value v = Inr j) kvs items"
    by (auto simp: and_then_Inr dumps_items)
  have "(\<forall>x\<in>set kvs. and_then (check_key (fst x)) (\<lambda>_. walk (d + 1) (snd x)) = Inr ()) \<longleftrightarrow>
      (\<forall>y\<in>set items. py_len (fst y) \<le> attack_max_key \<and> d + 1 + json_nesting (snd y) \<le> attack_max_depth \<and>
         sizes_ok (snd y) \<and> finite_floats (snd y))"
    using j(2)
  proof (rule list_all2_all_iff)
    fix x y assume "x \<in> set kvs" "(case x of (k, v) \<Rightarrow> \<lambda>(s, j). k = KStr s \<and> dumps_value v = Inr j) y"
    then show "and_then (check_key (fst x)) (\<lambda>_. walk (d + 1) (snd x)) = Inr () \<longleftrightarrow>
      py_len (fst y) \<le> attack_max_key \<and> d + 1 + json_nesting (snd y) \<le> attack_max_depth \<and>
         sizes_ok (snd y) \<and> finite_floats (snd y)"
      using VDict.IH[of x "snd x" "snd y" "d + 1"]
      by (auto simp: and_then_Inr check_key_Inr case_prod_beta snds.simps)
  qed
  then show ?case
    using j list_all2_lengthD[OF j(2)] map_res_unit[of "\<lambda>(k, v). and_then (check_key k) (\<lambda>_. walk (d + 1) v)" kvs]
    by (auto simp: at_depth_Inr and_then_Inr foldr_max_le list_all_iff case_prod_beta)
qed (auto simp: at_depth_Inr)

lemma dumps_keys: "dumps_value v = Inr j \<Longrightarrow> wf_val v \<Longrightarrow> keys_ok j"
proof (induction v arbitrary: j)
  case (VDict kvs)
  then obtain items where j: "j = JObj items"
    "list_all2 (\<lambda>(k, v) (s, j). k = KStr s \<and> dumps_value v = Inr j) kvs items"
    by (auto simp: and_then_Inr dumps_items)
  have "map fst kvs = map KStr (map fst items)"
    using j(2) by (induction rule: list_all2_induct) auto
  moreover have "inj KStr" by (simp add: inj_def)
  ultimately have "distinct (map fst items)" using VDict.prems(2) by (metis distinct_map wf_val.simps(1))
  moreover have "keys_ok (snd y)" if y: "y \<in> set items" for y
  proof -
    obtain x where "x \<in> set kvs" "fst x = KStr (fst y)" "dumps_value (snd x) = Inr (snd y)"
      using list_all2_right[OF j(2) y] by (auto simp: case_prod_beta)
    then show ?thesis using VDict.IH[of x "snd x"] VDict.prems(2) by (auto simp: list_all_iff snds.simps)
  qed
  ultimately show ?case using j(1) by (auto simp: list_all_iff)
next
  case (VList xs)
  then show ?case by (fastforce simp: and_then_Inr map_res_Inr list_all_iff dest: list_all2_right)
next
  case (VTuple xs)
  then show ?case by (fastforce simp: and_then_Inr map_res_Inr list_all_iff dest: list_all2_right)
qed auto

lemma dumps_object: "is_mapping v \<Longrightarrow> dumps_value v = Inr j \<Longrightarrow> is_obj j"
  by (cases v) (auto simp: and_then_Inr)

lemma object_mapping: "is_obj j \<Longrightarrow> dumps_value v = Inr j \<Longrightarrow> is_mapping v"
  by (cases v) (auto simp: and_then_Inr)

lemma attack_canonical_Inr:
  "attack_canonical v = Inr raw \<longleftrightarrow> (\<exists>j. dumps_value v = Inr j \<and> encodable j \<and> raw = canonical_json j)"
  by (auto simp: attack_canonical_def attack_canonical_json_def split: sum.splits)

lemma validate_Inr:
  assumes "wf_val v" "\<And>j. dumps_value v = Inr j \<Longrightarrow> floats_ok fl j"
  shows "validate_advisory_payload fl v = Inr j \<longleftrightarrow>
    (\<exists>doc. dumps_value v = Inr doc \<and> is_obj doc \<and> json_nesting doc \<le> attack_max_depth \<and> sizes_ok doc \<and>
       encodable doc \<and> length (canonical_json doc) \<le> attack_max_bytes \<and> j = norm doc)"
    (is "_ = (\<exists>doc. ?fits doc)")
proof
  assume "validate_advisory_payload fl v = Inr j"
  then obtain doc where d: "is_mapping v" "walk 0 v = Inr ()" "dumps_value v = Inr doc" "encodable doc"
    "length (canonical_json doc) \<le> attack_max_bytes" "loads fl (canonical_json doc) = Inr j"
    by (auto simp: validate_advisory_payload_def and_then_Inr attack_canonical_Inr split: if_splits)
  then show "\<exists>doc. ?fits doc"
    using walk_dumps[OF d(3), of 0] loads_canonical[OF assms(2)[OF d(3)] dumps_keys[OF d(3) assms(1)]]
      dumps_object[OF d(1,3)] by auto
next
  assume "\<exists>doc. ?fits doc"
  then obtain doc where d: "?fits doc" by blast
  then have dump: "dumps_value v = Inr doc" by simp
  show "validate_advisory_payload fl v = Inr j"
    using d walk_dumps[OF dump, of 0] loads_canonical[OF assms(2)[OF dump] dumps_keys[OF dump assms(1)]]
      object_mapping[OF _ dump] encodable_finite[of doc]
    by (simp add: validate_advisory_payload_def attack_canonical_def attack_canonical_json_def)
qed

section \<open>Lemmas: a constant advisor\<close>

lemma constant_evaluation:
  "evaluate execute (Some (constant_advisor a)) local_gatekeeper entries stamp request policy = Inr rep \<Longrightarrow>
   \<exists>fs n. collect_evidence execute entries request policy = Inr (fs, n) \<and> rr_findings rep = fs \<and>
     rr_evidence_sha256 rep = finding_set_sha256 fs \<and> rr_decision rep = spec_decision fs \<and>
     rr_release_id rep = rq_release_id request \<and> rr_policy_id rep = policy_id policy \<and>
     rr_policy_revision rep = revision policy \<and> rr_policy_sha256 rep = rp_sha256 policy \<and> rr_execution_count rep = int n"
  by (auto simp: evaluate_def collect_advisory_def constant_advisor_def Let_def and_then_Inr make_report_def
      local_gatekeeper_def case_prod_beta judge_decide_spec split: if_splits)

lemma constant_evaluation_ok:
  "ok (evaluate execute (Some (constant_advisor a)) local_gatekeeper entries stamp request policy) \<longleftrightarrow>
   ok (collect_evidence execute entries request policy) \<and> ok (opinions_of a)"
proof (cases "collect_evidence execute entries request policy")
  case (Inr p)
  then show ?thesis
    by (cases p; cases "opinions_of a")
      (simp_all add: evaluate_def collect_advisory_def constant_advisor_def Let_def make_report_def
        local_gatekeeper_def case_prod_beta)
qed (simp add: evaluate_def)

lemma public_run_Inr:
  "public_run pk policy sha stamp advisor = Inr rep \<longleftrightarrow>
   pk_exists pk ''repository_vulnerable'' \<and>
   evaluate (\<lambda>root command. demo_execute sha 1 (length (pk_base pk) + 1) (pk_files pk ''repository_vulnerable'') command)
     advisor local_gatekeeper (pk_entries pk ''repository_vulnerable'') stamp
     \<lparr>rq_release_id = public_release_id, rq_root = pk_base pk @ [''repository_vulnerable''], rq_commit_sha = None\<rparr> policy
   = Inr rep"
  by (cases "pk_exists pk ''repository_vulnerable''") (simp_all add: public_run_def Let_def)

text \<open>Two runs under constant advisors give the same artifact.\<close>

lemma public_artifact_same:
  assumes "rr_findings r1 = rr_findings r2" "rr_evidence_sha256 r1 = rr_evidence_sha256 r2"
    "rr_release_id r1 = rr_release_id r2" "rr_policy_id r1 = rr_policy_id r2"
    "rr_policy_revision r1 = rr_policy_revision r2" "rr_policy_sha256 r1 = rr_policy_sha256 r2"
    "rr_execution_count r1 = rr_execution_count r2"
  shows "public_artifact r1 sha = public_artifact r2 sha"
  using assms by (simp add: public_artifact_def build_evidence_bundle_def)

lemma failing_fixture_level:
  assumes "collect_evidence (\<lambda>root command. demo_execute sha 1 n files command) entries request policy = Inr (fs, m)"
    and "c \<in> set (commands policy)" "blocking_on_failure c" "pc_severity c \<in> {MEDIUM, HIGH, CRITICAL}"
  shows "spec_decision fs \<noteq> GO"
proof -
  have all: "\<forall>c\<in>set (commands policy). ok (demo_execute sha 1 n files c)"
    using assms(1) by (auto simp: collect_evidence_def run_checks_spec ok_iff list_all2_conv_all_nth in_set_conv_nth)
  then obtain r where r: "demo_execute sha 1 n files c = Inr r" using assms(2) by (auto simp: ok_iff)
  then have "\<not> passed r" using demo_execute_pinned by fastforce
  then have "command_finding policy c r \<in> set fs" using collect_failed_check[OF assms(1,2)] r by simp
  then show ?thesis using assms(3,4) unfolding spec_decision_GO by (fastforce simp: command_finding_level)
qed

lemma public_payload_outcome:
  assumes "evaluate_public_payload fl pk pin stamp1 stamp2 payload = Inr r"
  shows "\<exists>policy fs n. demo_release_policy pk = Inr policy \<and>
    collect_evidence (\<lambda>root command. demo_execute (strip pin) 1 (length (pk_base pk) + 1)
        (pk_files pk ''repository_vulnerable'') command) (pk_entries pk ''repository_vulnerable'')
      \<lparr>rq_release_id = public_release_id, rq_root = pk_base pk @ [''repository_vulnerable''], rq_commit_sha = None\<rparr>
      policy = Inr (fs, n) \<and>
    \<not> pc_evidence_changed r \<and> \<not> pc_decision_changed r \<and>
    pc_baseline_evidence r = pc_attacked_evidence r \<and> pc_baseline_artifact r = pc_attacked_artifact r \<and>
    pc_attacked_decision r = decision_value (spec_decision fs) \<and> pc_baseline_decision r = pc_attacked_decision r \<and>
    pc_blocking_findings r = sort (map finding_id (filter (\<lambda>f. blocking_evidence f \<noteq> []) fs)) \<and>
    (pc_became_go r \<longleftrightarrow> pc_blocking_findings r \<noteq> [] \<and> spec_decision fs = GO)"
proof -
  obtain hostile policy base att a1 b1 a2 b2 where
    f: "demo_release_policy pk = Inr policy" and
    runs: "public_run pk policy (strip pin) stamp1 (Some (constant_advisor silent_answer)) = Inr base"
      "public_run pk policy (strip pin) stamp2 (Some (constant_advisor hostile)) = Inr att" and
    arts: "public_artifact base (strip pin) = Inr (a1, b1)" "public_artifact att (strip pin) = Inr (a2, b2)" and
    r: "pc_evidence_changed r = (rr_evidence_sha256 base \<noteq> rr_evidence_sha256 att \<or> a1 \<noteq> a2)"
      "pc_decision_changed r = (decision_value (rr_decision base) \<noteq> decision_value (rr_decision att))"
      "pc_baseline_evidence r = rr_evidence_sha256 base" "pc_attacked_evidence r = rr_evidence_sha256 att"
      "pc_baseline_artifact r = a1" "pc_attacked_artifact r = a2"
      "pc_attacked_decision r = decision_value (rr_decision att)" "pc_baseline_decision r = decision_value (rr_decision base)"
      "pc_blocking_findings r = sort (map finding_id (filter (\<lambda>f. blocking_evidence f \<noteq> []) (rr_findings base)))"
      "pc_became_go r = (pc_blocking_findings r \<noteq> [] \<and> decision_value (rr_decision att) = ''GO'')"
    using assms by (auto simp: evaluate_public_payload_def public_fixture_def and_then_Inr Let_def)
  from constant_evaluation[OF runs(1)[unfolded public_run_Inr, THEN conjunct2]]
    constant_evaluation[OF runs(2)[unfolded public_run_Inr, THEN conjunct2]]
  obtain fs n where c: "collect_evidence (\<lambda>root command. demo_execute (strip pin) 1 (length (pk_base pk) + 1)
        (pk_files pk ''repository_vulnerable'') command) (pk_entries pk ''repository_vulnerable'')
      \<lparr>rq_release_id = public_release_id, rq_root = pk_base pk @ [''repository_vulnerable''], rq_commit_sha = None\<rparr>
      policy = Inr (fs, n)" and
    same: "rr_findings base = fs" "rr_findings att = fs" "rr_evidence_sha256 base = rr_evidence_sha256 att"
      "rr_decision base = spec_decision fs" "rr_decision att = spec_decision fs"
      "rr_release_id base = rr_release_id att" "rr_policy_id base = rr_policy_id att"
      "rr_policy_revision base = rr_policy_revision att" "rr_policy_sha256 base = rr_policy_sha256 att"
      "rr_execution_count base = rr_execution_count att"
    by auto
  have art: "public_artifact base (strip pin) = public_artifact att (strip pin)"
    by (rule public_artifact_same) (use same in simp_all)
  have "decision_value d = ''GO'' \<longleftrightarrow> d = GO" for d by (cases d) simp_all
  then show ?thesis using f c same(1-5) art arts r by auto
qed

end
