(* ===== verification/Challenge_Worker.thy ===== *)
theory Challenge_Worker
  imports Immutable Scanner Json_Parse
begin

text \<open>
  challenge/runtime/worker.py: the program inside the arena container.  It checks, from inside the
  process, that the confinement it expects is in force (\<open>assert_arena_confinement\<close>), and only then
  loads the contestant's attack.py, hands it the snapshot and prints what it returns.

  Parameters: what the operating system shows (\<open>arena_view\<close>), how \<open>json.loads\<close> decodes its bytes, the
  contestant's module and \<open>json.dumps\<close> of the object it returns.  A contestant that writes to the
  process behind Python's back is outside this model; the container is what holds it.
  The lemmas: contestant code runs exactly under the conditions listed in \<open>confined\<close>, and the output
  is bounded and holds no text of the contestant's errors but a class name.
\<close>

section \<open>What the process sees\<close>

record arena_view =
  av_environ :: "string \<Rightarrow> string option"
  av_euid :: int
  av_dockerenv :: bool
  av_mountinfo :: "string res"
  av_status :: "string res"
  av_interfaces :: "(int \<times> string) list res"
  av_nofile :: "int \<times> int"
  av_attack_symlink :: bool
  av_attack_file :: bool

definition max_input :: nat where "max_input = 128 * 1024"
definition max_output :: nat where "max_output = 64 * 1024"
definition arena_uid :: int where "arena_uid = 10001"
definition arena_env :: string where "arena_env = ''RELEASE_SENTINEL_ARENA_CONTAINER''"

text \<open>\<open>str.split()\<close>: the maximal runs without white space.\<close>

fun words_from :: "string \<Rightarrow> string \<Rightarrow> string list" where
  "words_from acc [] = (if acc = [] then [] else [rev acc])"
| "words_from acc (c # cs) =
     (if is_space c then (if acc = [] then words_from [] cs else rev acc # words_from [] cs)
      else words_from (c # acc) cs)"

definition words :: "string \<Rightarrow> string list" where
  "words s = words_from [] s"

text \<open>\<open>except OSError\<close> around reading a file of /proc.\<close>

definition read_proc :: "string res \<Rightarrow> string \<Rightarrow> string list res" where
  "read_proc text message =
    (case text of
       Inl e \<Rightarrow> if catches OSError e then raise ConfinementError message else Inl e
     | Inr t \<Rightarrow> Inr (splitlines t))"

fun find_mount :: "string \<Rightarrow> string list \<Rightarrow> string list res" where
  "find_mount mountpoint [] = raise ConfinementError (''required mountpoint missing: '' @ mountpoint)"
| "find_mount mountpoint (line # lines) =
     (let fields = words line in
      if length fields \<ge> 6 \<and> fields ! 4 = mountpoint then Inr (split_on CHR '','' (fields ! 5))
      else find_mount mountpoint lines)"

definition mount_options :: "arena_view \<Rightarrow> string \<Rightarrow> string list res" where
  "mount_options a mountpoint =
     and_then (read_proc (av_mountinfo a) ''cannot inspect mount namespace'') (find_mount mountpoint)"

definition status_line :: "string \<Rightarrow> (string \<times> string) option" where
  "status_line line =
     (let key = takeWhile (\<lambda>c. c \<noteq> CHR '':'') line in
      if CHR '':'' \<in> set line then Some (key, strip (drop (length key + 1) line)) else None)"

fun status_fields :: "string list \<Rightarrow> (string \<times> string) list \<Rightarrow> (string \<times> string) list" where
  "status_fields [] acc = acc"
| "status_fields (line # lines) acc =
     (case status_line line of
        None \<Rightarrow> status_fields lines acc
      | Some (k, v) \<Rightarrow> status_fields lines (dict_set k v acc))"

definition proc_status :: "arena_view \<Rightarrow> (string \<times> string) list res" where
  "proc_status a =
     and_then (read_proc (av_status a) ''cannot inspect process security status'') (\<lambda>lines. Inr (status_fields lines []))"

text \<open>\<open>status.get("CapEff", "").strip("0")\<close> is empty.\<close>

definition capabilities_empty :: "(string \<times> string) list \<Rightarrow> bool" where
  "capabilities_empty status \<longleftrightarrow>
     (case map_of status ''CapEff'' of None \<Rightarrow> True | Some v \<Rightarrow> list_all (\<lambda>c. c = CHR ''0'') v)"

definition require :: "bool \<Rightarrow> string \<Rightarrow> unit res" where
  "require b message = (if b then Inr () else raise ConfinementError message)"

definition assert_arena_confinement :: "arena_view \<Rightarrow> unit res" where
  "assert_arena_confinement a =
     and_then (require (av_environ a arena_env = Some ''1'') ''arena marker missing'') (\<lambda>_.
     and_then (require (av_euid a = arena_uid) ''unexpected worker uid'') (\<lambda>_.
     and_then (require (av_dockerenv a) ''container marker missing'') (\<lambda>_.
     and_then (mount_options a ''/'') (\<lambda>root.
     and_then (require (''ro'' \<in> set root \<and> ''rw'' \<notin> set root) ''root filesystem is not read-only'') (\<lambda>_.
     and_then (mount_options a ''/submission'') (\<lambda>submission.
     and_then (require (''ro'' \<in> set submission \<and> ''rw'' \<notin> set submission) ''submission mount is not read-only'') (\<lambda>_.
     and_then (mount_options a ''/tmp'') (\<lambda>tmp.
     and_then (require ({''rw'', ''nosuid'', ''nodev'', ''noexec''} \<subseteq> set tmp) ''tmpfs hardening options are incomplete'') (\<lambda>_.
     and_then (proc_status a) (\<lambda>status.
     and_then (require (map_of status ''NoNewPrivs'' = Some ''1'') ''no-new-privileges is not active'') (\<lambda>_.
     and_then (require (capabilities_empty status) ''effective capabilities are not empty'') (\<lambda>_.
     and_then (require (map_of status ''Seccomp'' = Some ''2'') ''seccomp filter is not active'') (\<lambda>_.
     and_then (av_interfaces a) (\<lambda>interfaces.
     and_then (require (snd ` set interfaces = {''lo''}) ''network namespace is not isolated'') (\<lambda>_.
     and_then (require (\<not> (fst (av_nofile a) > 64 \<or> snd (av_nofile a) > 64)) ''file-descriptor limit is too permissive'') (\<lambda>_.
       require (\<not> (av_attack_symlink a \<or> \<not> av_attack_file a)) ''submission must contain a regular attack.py''))))))))))))))))"

section \<open>\<open>main\<close>\<close>

text \<open>
  \<open>json.dumps\<close> of a string with \<open>ensure_ascii\<close>: printable ASCII is kept, every other character is an
  escape of its UTF-16 code units.
\<close>

function code_points :: "string \<Rightarrow> nat list" where
  "code_points [] = []"
| "code_points (c # cs) =
     (let n = of_char c :: nat; rest = takeWhile utf8_cont cs in
      foldl (\<lambda>u d. 64 * u + of_char d mod 64) (if n < 0x80 then n else if n < 0xE0 then n mod 32 else if n < 0xF0 then n mod 16 else n mod 8) rest
      # code_points (dropWhile utf8_cont cs))"
  by pat_completeness auto
termination
  by (relation "measure length") (auto simp: less_Suc_eq_le length_dropWhile_le)

definition hex4_text :: "nat \<Rightarrow> string" where
  "hex4_text n = [CHR 0x5C, CHR ''u'', hexdigit (n div 4096 mod 16), hexdigit (n div 256 mod 16),
     hexdigit (n div 16 mod 16), hexdigit (n mod 16)]"

definition ascii_char :: "nat \<Rightarrow> string" where
  "ascii_char u =
    (if 32 \<le> u \<and> u \<le> 126 \<or> u \<in> {8, 9, 10, 12, 13} then esc_char (char_of u)
     else if u < 0x10000 then hex4_text u
     else hex4_text (0xD800 + (u - 0x10000) div 1024) @ hex4_text (0xDC00 + (u - 0x10000) mod 1024))"

definition ascii_str :: "string \<Rightarrow> string" where
  "ascii_str s = CHR 0x22 # concat (map ascii_char (code_points s)) @ [CHR 0x22]"

text \<open>How the worker ends: its exit code, what it wrote, and the snapshot contestant code was given.\<close>

record worker_result =
  wr_exit :: int
  wr_stdout :: bytes
  wr_handed :: "json option"

definition worker_fail :: "string \<Rightarrow> int \<Rightarrow> json option \<Rightarrow> worker_result" where
  "worker_fail message code handed =
     \<lparr>wr_exit = code, wr_stdout = take max_output (CHR ''{'' # render_str ''arena_error'' @ CHR '':'' # ascii_str message @ ''}''),
      wr_handed = handed\<rparr>"

text \<open>
  The contestant's file: \<open>None\<close> if no loader is found; executing the module raises or gives its \<open>attack\<close>
  (\<open>None\<close> if it is missing or not callable), which raises or returns an object.
\<close>

type_synonym contestant = "(json \<Rightarrow> pyval res) option res option"

fun is_dict :: "pyval \<Rightarrow> bool" where
  "is_dict (VDict kvs) = True"
| "is_dict v = False"

definition run_contestant :: "(json \<Rightarrow> pyval res) option res \<Rightarrow> json \<Rightarrow> pyval res" where
  "run_contestant module snapshot =
     and_then module (\<lambda>fn.
       case fn of None \<Rightarrow> raise RuntimeError ''attack.py must define attack(snapshot)'' | Some attack \<Rightarrow> attack snapshot)"

definition worker_main ::
    "(string \<Rightarrow> pyfloat) \<Rightarrow> (bytes \<Rightarrow> string res) \<Rightarrow> (pyval \<Rightarrow> bytes res) \<Rightarrow> arena_view \<Rightarrow> bytes \<Rightarrow> contestant \<Rightarrow> worker_result res" where
  "worker_main fl decode dumps a stdin attacker =
    (case assert_arena_confinement a of
       Inl e \<Rightarrow> if catches ConfinementError e
                then Inr (worker_fail (''arena confinement check failed: '' @ snd e) 78 None) else Inl e
     | Inr _ \<Rightarrow>
       let raw = take (max_input + 1) stdin in
       if length raw > max_input then Inr (worker_fail ''snapshot too large'' 2 None) else
       (case and_then (decode raw) (loads fl) of
          Inl e \<Rightarrow> if catches PyException e then Inr (worker_fail ''snapshot is not valid JSON'' 2 None) else Inl e
        | Inr snapshot \<Rightarrow>
          (case attacker of
             None \<Rightarrow> Inr (worker_fail ''could not load attack.py'' 2 None)
           | Some module \<Rightarrow>
             let failed = (\<lambda>e. worker_fail (''attack execution failed: '' @ class_name (fst e)) 2 (Some snapshot)) in
             (case run_contestant module snapshot of
                Inl e \<Rightarrow> Inr (failed e)
              | Inr output \<Rightarrow>
                if \<not> is_dict output then Inr (worker_fail ''attack(snapshot) must return a dict'' 2 (Some snapshot)) else
                (case dumps output of
                   Inl e \<Rightarrow> Inr (failed e)
                 | Inr encoded \<Rightarrow>
                   if length encoded > max_output then Inr (worker_fail ''attack output exceeds 64 KiB'' 2 (Some snapshot))
                   else Inr \<lparr>wr_exit = 0, wr_stdout = encoded, wr_handed = Some snapshot\<rparr>)))))"

section \<open>Lemmas\<close>

text \<open>The conditions, one by one.  A mount point counts with its first entry in mountinfo.\<close>

definition read_only :: "arena_view \<Rightarrow> string \<Rightarrow> bool" where
  "read_only a mountpoint \<longleftrightarrow> (\<exists>opts. mount_options a mountpoint = Inr opts \<and> ''ro'' \<in> set opts \<and> ''rw'' \<notin> set opts)"

definition confined :: "arena_view \<Rightarrow> bool" where
  "confined a \<longleftrightarrow>
     av_environ a arena_env = Some ''1'' \<and> av_euid a = arena_uid \<and> av_dockerenv a \<and>
     read_only a ''/'' \<and> read_only a ''/submission'' \<and>
     (\<exists>tmp. mount_options a ''/tmp'' = Inr tmp \<and> {''rw'', ''nosuid'', ''nodev'', ''noexec''} \<subseteq> set tmp) \<and>
     (\<exists>status. proc_status a = Inr status \<and> map_of status ''NoNewPrivs'' = Some ''1'' \<and>
        capabilities_empty status \<and> map_of status ''Seccomp'' = Some ''2'') \<and>
     (\<exists>interfaces. av_interfaces a = Inr interfaces \<and> snd ` set interfaces = {''lo''}) \<and>
     fst (av_nofile a) \<le> 64 \<and> snd (av_nofile a) \<le> 64 \<and> av_attack_file a \<and> \<not> av_attack_symlink a"

lemma require_Inr [simp]: "require b m = Inr u \<longleftrightarrow> b"
  by (simp add: require_def)

lemma assert_confined: "assert_arena_confinement a = Inr u \<longleftrightarrow> confined a"
proof
  assume "assert_arena_confinement a = Inr u"
  then show "confined a"
    unfolding assert_arena_confinement_def confined_def read_only_def and_then_Inr require_Inr not_less de_Morgan_disj not_not
    by (elim exE conjE) (intro conjI exI; assumption)
next
  assume "confined a"
  then show "assert_arena_confinement a = Inr u"
    unfolding assert_arena_confinement_def confined_def read_only_def and_then_Inr require_Inr not_less de_Morgan_disj not_not
    by (elim exE conjE) (intro conjI exI; assumption)
qed

text \<open>What \<open>find_mount\<close> finds: the first line of the mount point.\<close>

definition is_mount_line :: "string \<Rightarrow> string \<Rightarrow> bool" where
  "is_mount_line mountpoint line \<longleftrightarrow> length (words line) \<ge> 6 \<and> words line ! 4 = mountpoint"

definition first_with :: "('a \<Rightarrow> bool) \<Rightarrow> 'a \<Rightarrow> 'a list \<Rightarrow> bool" where
  "first_with P x xs \<longleftrightarrow> (\<exists>before after. xs = before @ x # after \<and> (\<forall>y\<in>set before. \<not> P y)) \<and> P x"

lemma first_with_Nil [simp]: "\<not> first_with P x []"
  by (simp add: first_with_def)

lemma first_with_Cons [simp]: "first_with P x (y # xs) \<longleftrightarrow> (if P y then x = y else first_with P x xs)"
proof (cases "P y")
  case True
  then have "y # xs = before @ x # after \<and> (\<forall>z\<in>set before. \<not> P z) \<longleftrightarrow> before = [] \<and> x = y \<and> after = xs" for before after
    by (cases before) auto
  then show ?thesis using True by (auto simp: first_with_def)
next
  case False
  have "first_with P x (y # xs) = first_with P x xs"
  proof
    assume "first_with P x (y # xs)"
    then obtain before after where f: "y # xs = before @ x # after" "\<forall>z\<in>set before. \<not> P z" "P x"
      by (auto simp: first_with_def)
    with False obtain b where "before = y # b" by (cases before) auto
    with f show "first_with P x xs" by (auto simp: first_with_def)
  next
    assume "first_with P x xs"
    then obtain before after where f: "xs = before @ x # after" "\<forall>z\<in>set before. \<not> P z" "P x"
      by (auto simp: first_with_def)
    with False have "y # xs = (y # before) @ x # after" "\<forall>z\<in>set (y # before). \<not> P z" by simp_all
    with f(3) show "first_with P x (y # xs)" unfolding first_with_def by blast
  qed
  with False show ?thesis by simp
qed

lemma find_mount_first:
  "find_mount m lines = Inr opts \<longleftrightarrow>
   (\<exists>line. first_with (is_mount_line m) line lines \<and> opts = split_on CHR '','' (words line ! 5))"
proof (induction lines)
  case (Cons l lines)
  have "find_mount m (l # lines) = (if is_mount_line m l then Inr (split_on CHR '','' (words l ! 5)) else find_mount m lines)"
    by (simp add: is_mount_line_def Let_def)
  then show ?case using Cons.IH by auto
qed simp

lemma read_only_line:
  assumes "read_only a m"
  shows "\<exists>info line. av_mountinfo a = Inr info \<and> first_with (is_mount_line m) line (splitlines info) \<and>
    ''ro'' \<in> set (split_on CHR '','' (words line ! 5)) \<and> ''rw'' \<notin> set (split_on CHR '','' (words line ! 5))"
proof -
  obtain opts where o: "mount_options a m = Inr opts" "''ro'' \<in> set opts" "''rw'' \<notin> set opts"
    using assms unfolding read_only_def by (elim exE conjE)
  then obtain info where t: "av_mountinfo a = Inr info" "find_mount m (splitlines info) = Inr opts"
    by (auto simp: mount_options_def and_then_Inr read_proc_def split: sum.splits if_splits)
  then show ?thesis using o(2,3) unfolding find_mount_first by (elim exE conjE) (intro exI conjI; simp)
qed

lemma worker_runs_confined:
  assumes "worker_main fl decode dumps a stdin attacker = Inr r" "wr_handed r = Some snapshot"
  shows "confined a \<and> length stdin \<le> max_input \<and> and_then (decode stdin) (loads fl) = Inr snapshot"
  using assms assert_confined[of a]
  by (auto simp: worker_main_def worker_fail_def Let_def split: sum.splits if_splits option.splits)

lemma worker_bounded:
  assumes "worker_main fl decode dumps a stdin attacker = Inr r"
  shows "length (wr_stdout r) \<le> max_output \<and> wr_exit r \<in> {0, 2, 78}"
  using assms
  by (auto simp: worker_main_def worker_fail_def Let_def split: sum.splits if_splits option.splits)

lemma worker_succeeds:
  assumes "worker_main fl decode dumps a stdin attacker = Inr r"
  shows "wr_exit r = 0 \<longleftrightarrow> (\<exists>snapshot module output. confined a \<and> length stdin \<le> max_input \<and>
    and_then (decode stdin) (loads fl) = Inr snapshot \<and> attacker = Some module \<and>
    run_contestant module snapshot = Inr output \<and> is_dict output \<and>
    dumps output = Inr (wr_stdout r) \<and> length (wr_stdout r) \<le> max_output)"
  using assms assert_confined[of a]
  by (auto simp: worker_main_def worker_fail_def Let_def split: sum.splits if_splits option.splits)

lemma worker_unconfined:
  assumes "\<not> confined a"
  shows "worker_main fl decode dumps a stdin attacker = worker_main fl' decode' dumps' a stdin' attacker'"
  using assms assert_confined[of a] by (cases "assert_arena_confinement a") (auto simp: worker_main_def)

end
