(* ===== verification/Challenge_Claims.thy ===== *)
theory Challenge_Claims
  imports Demo_Samples Public_Challenge Challenge_Worker
begin

text \<open>
  The properties of the public challenge: which answers are accepted, what an accepted answer can do
  to a release, and when contestant code runs at all.
\<close>

text \<open>Property C32. The validation of an answer is exact.  A Python object is accepted if and only if it is a
  mapping that JSON can write, nests at most 16 deep, holds no string above 8192 characters, no key above
  256, no container above 2048 items and no number JSON cannot write, and is at most 64 KiB of canonical
  text; what enters the application is then a plain JSON document of its own, with the content of the
  object and its keys in order.  The two conditions say that a dictionary has each key once and that
  reading the text of a float gives the float back.\<close>

theorem accepted_answers_are_exact:
  assumes "wf_val v" "\<And>doc. dumps_value v = Inr doc \<Longrightarrow> floats_ok fl doc"
  shows "validate_advisory_payload fl v = Inr j \<longleftrightarrow>
    (\<exists>doc. dumps_value v = Inr doc \<and> is_obj doc \<and> json_nesting doc \<le> attack_max_depth \<and> sizes_ok doc \<and>
       encodable doc \<and> length (canonical_json doc) \<le> attack_max_bytes \<and> j = norm doc)"
  using assms by (rule validate_Inr)

definition sample_answer :: pyval where
  "sample_answer = VDict [(KStr ''vote'', VStr ''GO''), (KStr ''path'', VTuple [VInt 7, VNone])]"

lemma sample_answer_dumps:
  "dumps_value sample_answer = Inr (JObj [(''vote'', JStr ''GO''), (''path'', JList [JInt 7, JNull])])"
  by (simp add: sample_answer_def)

lemma sample_answer_text:
  "canonical_json (JObj [(''vote'', JStr ''GO''), (''path'', JList [JInt 7, JNull])]) =
     ''{'' @ render_str ''path'' @ '':[7,null],'' @ render_str ''vote'' @ '':'' @ render_str ''GO'' @ ''}''"
  by code_simp

lemma sample_conditions: "wf_val sample_answer" "dumps_value sample_answer = Inr doc \<Longrightarrow> floats_ok FRepr doc"
  using sample_answer_dumps by (auto simp: sample_answer_def)

lemma sample_fits:
  "\<exists>doc. dumps_value sample_answer = Inr doc \<and> is_obj doc \<and> json_nesting doc \<le> attack_max_depth \<and> sizes_ok doc \<and>
     encodable doc \<and> length (canonical_json doc) \<le> attack_max_bytes \<and>
     JObj [(''path'', JList [JInt 7, JNull]), (''vote'', JStr ''GO'')] = norm doc"
proof -
  have "py_len ''GO'' = 2" "py_len ''vote'' = 4" "py_len ''path'' = 4" "nat_dec 7 = ''7''" by code_simp+
  moreover have "norm (JObj [(''vote'', JStr ''GO''), (''path'', JList [JInt 7, JNull])]) =
      JObj [(''path'', JList [JInt 7, JNull]), (''vote'', JStr ''GO'')]" by code_simp
  ultimately show ?thesis
    using sample_answer_dumps sample_answer_text
    by (simp add: attack_max_depth_def attack_max_items_def attack_max_string_def attack_max_key_def attack_max_bytes_def
        int_max_str_digits_def render_str_def esc_char_def)
qed

lemma sample_accepted:
  "validate_advisory_payload FRepr sample_answer = Inr (JObj [(''path'', JList [JInt 7, JNull]), (''vote'', JStr ''GO'')])"
  using validate_Inr[OF sample_conditions] sample_fits by simp

theorem accepted_answers_are_exact_witness:
  "validate_advisory_payload FRepr sample_answer = Inr (JObj [(''path'', JList [JInt 7, JNull]), (''vote'', JStr ''GO'')])"
  by (rule accepted_answers_are_exact[OF sample_conditions, THEN iffD2, OF _ sample_fits])

text \<open>Property C33. No answer moves a release.  Whenever an answer of an attack program is evaluated, the
  sealed evidence, the signed artifact and the decision are those of the run without it, the decision is
  the strictest level of the collected findings, and with one blocking check of at least medium severity
  in the policy the receipt says that the sentinel held.  The sentinel counts as broken only where the
  collected evidence itself blocks nothing and yet contains a blocking finding of low severity.\<close>

theorem public_payload_never_breaks:
  assumes "evaluate_public_payload fl pk pin stamp1 stamp2 payload = Inr r"
  shows "\<exists>policy fs n. demo_release_policy pk = Inr policy \<and>
    collect_evidence (\<lambda>root command. demo_execute (strip pin) 1 (length (pk_base pk) + 1)
        (pk_files pk ''repository_vulnerable'') command) (pk_entries pk ''repository_vulnerable'')
      \<lparr>rq_release_id = public_release_id, rq_root = pk_base pk @ [''repository_vulnerable''], rq_commit_sha = None\<rparr>
      policy = Inr (fs, n) \<and>
    pc_baseline_evidence r = pc_attacked_evidence r \<and> pc_baseline_artifact r = pc_attacked_artifact r \<and>
    pc_baseline_decision r = pc_attacked_decision r \<and>
    pc_attacked_decision r = decision_value (spec_decision fs) \<and>
    (sentinel_broken r \<longleftrightarrow> spec_decision fs = GO \<and> (\<exists>f\<in>set fs. blocking_evidence f \<noteq> [])) \<and>
    ((\<exists>c\<in>set (commands policy). blocking_on_failure c \<and> pc_severity c \<in> {MEDIUM, HIGH, CRITICAL}) \<longrightarrow>
       \<not> sentinel_broken r)"
proof -
  let ?x = "\<lambda>root command. demo_execute (strip pin) 1 (length (pk_base pk) + 1) (pk_files pk ''repository_vulnerable'') command"
  let ?rq = "\<lparr>rq_release_id = public_release_id, rq_root = pk_base pk @ [''repository_vulnerable''], rq_commit_sha = None\<rparr>"
  obtain policy fs n where o: "demo_release_policy pk = Inr policy"
    and c: "collect_evidence ?x (pk_entries pk ''repository_vulnerable'') ?rq policy = Inr (fs, n)"
    and r: "\<not> pc_evidence_changed r" "\<not> pc_decision_changed r" "pc_baseline_evidence r = pc_attacked_evidence r"
      "pc_baseline_artifact r = pc_attacked_artifact r" "pc_attacked_decision r = decision_value (spec_decision fs)"
      "pc_baseline_decision r = pc_attacked_decision r"
      "pc_blocking_findings r = sort (map finding_id (filter (\<lambda>f. blocking_evidence f \<noteq> []) fs))"
      "pc_became_go r \<longleftrightarrow> pc_blocking_findings r \<noteq> [] \<and> spec_decision fs = GO"
    using public_payload_outcome[OF assms] by blast
  have "pc_blocking_findings r \<noteq> [] \<longleftrightarrow> (\<exists>f\<in>set fs. blocking_evidence f \<noteq> [])"
    by (simp add: r(7) filter_empty_conv flip: set_empty) (auto simp: filter_empty_conv)
  then have b: "sentinel_broken r \<longleftrightarrow> spec_decision fs = GO \<and> (\<exists>f\<in>set fs. blocking_evidence f \<noteq> [])"
    using r(1,2,8) by (auto simp: sentinel_broken_def)
  have "\<not> sentinel_broken r"
    if "\<exists>k\<in>set (commands policy). blocking_on_failure k \<and> pc_severity k \<in> {MEDIUM, HIGH, CRITICAL}"
    using that failing_fixture_level[OF c] b by blast
  then show ?thesis using o c r(3-6) b by blast
qed

theorem public_payload_never_breaks_witness:
  "\<exists>r. evaluate_public_payload FRepr demo_package (directory_digest demo_package ''repository_vulnerable'') (''id1'', ''t1'')
      (''id2'', ''t2'') sample_answer = Inr r \<and> \<not> sentinel_broken r \<and> pc_attacked_decision r = ''NO_GO''"
proof -
  let ?pin = "directory_digest demo_package ''repository_vulnerable''"
  let ?x = "\<lambda>root command. demo_execute ?pin 1 (Suc (Suc 0)) (pk_files demo_package ''repository_vulnerable'') command"
  let ?rq = "\<lparr>rq_release_id = public_release_id, rq_root = [''pkg'', ''repository_vulnerable''], rq_commit_sha = None\<rparr>"
  have pk: "pk_base demo_package = [''pkg'']" "pk_exists demo_package d" "pk_entries demo_package d = []"
    "pk_policy demo_package = canonical_payload demo_policy" for d by (simp_all add: demo_package_def)
  have pin: "strip ?pin = ?pin" "py_len ?pin = 64" by (simp_all add: directory_digest_def fixture_digest_def strip_hex)
  have pol: "demo_release_policy demo_package = Inr demo_policy"
    using build_policy_canonical demo_wf(2) pk(4) by (simp add: demo_release_policy_def)
  obtain f where col: "collect_evidence ?x [] ?rq demo_policy = Inr ([f], 1)" and lev: "finding_level f = NO_GO"
    using demo_vulnerable_collect by blast
  let ?out = "JObj [(''path'', JList [JInt 7, JNull]), (''vote'', JStr ''GO'')]"
  have run: "\<exists>rep. public_run demo_package demo_policy ?pin stamp (Some (constant_advisor a)) = Inr rep"
    if "ok (opinions_of a)" for a stamp
    using constant_evaluation_ok[of ?x a "[]" stamp ?rq demo_policy] that col
    by (simp add: public_run_def Let_def pk ok_iff)
  have "ok (opinions_of silent_answer)" "ok (opinions_of ?out)"
    by (simp_all add: opinions_of_def silent_answer_def or_else_def)
  then obtain rep1 rep2 where reps: "public_run demo_package demo_policy ?pin (''id1'', ''t1'') (Some (constant_advisor silent_answer)) = Inr rep1"
    "public_run demo_package demo_policy ?pin (''id2'', ''t2'') (Some (constant_advisor ?out)) = Inr rep2"
    using run by blast
  have art: "ok (public_artifact rep ?pin)"
    if "public_run demo_package demo_policy ?pin stamp (Some (constant_advisor a)) = Inr rep" for rep stamp a
  proof -
    from constant_evaluation[OF that[unfolded public_run_Inr, THEN conjunct2]]
    have "rr_evidence_sha256 rep = finding_set_sha256 (rr_findings rep)" by auto
    then show ?thesis
      using pin(2) by (simp add: public_artifact_def build_evidence_bundle_def default_ttl_seconds_def)
  qed
  obtain a1 b1 a2 b2 where arts: "public_artifact rep1 ?pin = Inr (a1, b1)" "public_artifact rep2 ?pin = Inr (a2, b2)"
    using art[OF reps(1)] art[OF reps(2)] by (auto simp: ok_iff)
  have "nat_dec 7 = ''7''" by code_simp
  then have "attack_sha256_json ?out = Inr (sha256_hex (canonical_json ?out))"
    by (simp add: attack_sha256_json_def attack_canonical_json_def int_max_str_digits_def)
  then obtain r where r: "evaluate_public_payload FRepr demo_package ?pin (''id1'', ''t1'') (''id2'', ''t2'') sample_answer = Inr r"
    using sample_accepted pol pin(1) reps arts
    by (auto simp: evaluate_public_payload_def public_fixture_def Let_def)
  from public_payload_never_breaks[OF r] obtain policy fs n where
    p: "demo_release_policy demo_package = Inr policy"
      "collect_evidence ?x [] ?rq policy = Inr (fs, n)"
      "pc_attacked_decision r = decision_value (spec_decision fs)"
      "sentinel_broken r \<longleftrightarrow> spec_decision fs = GO \<and> (\<exists>f\<in>set fs. blocking_evidence f \<noteq> [])"
    using pin(1) by (auto simp: pk)
  have "fs = [f]" using p(1,2) pol col by simp
  then have "spec_decision fs = NO_GO" using lev by (simp add: spec_decision_NO_GO)
  then show ?thesis using r p(3,4) by simp
qed

text \<open>Property C34. Contestant code runs under confinement only.  If the worker hands a snapshot to a
  submission, then the arena marker, the user, the container marker, the first mount entries of the root
  and the submission directory (read only) and of the temporary directory, the process status, the
  network interfaces, the descriptor limit and the regular attack file were all as required, and the
  snapshot is what the bounded input spells; outside, the outcome does not depend on the submission at
  all.  Every outcome has a defined exit code and at most 64 KiB of output.\<close>

theorem contestants_run_confined:
  assumes "worker_main fl decode dumps a stdin attacker = Inr r"
  shows "(wr_handed r \<noteq> None \<longrightarrow> confined a \<and> length stdin \<le> max_input \<and> and_then (decode stdin) (loads fl) = Inr (the (wr_handed r)) \<and>
      (\<exists>info line. av_mountinfo a = Inr info \<and> first_with (is_mount_line ''/'') line (splitlines info) \<and>
         ''ro'' \<in> set (split_on CHR '','' (words line ! 5)) \<and> ''rw'' \<notin> set (split_on CHR '','' (words line ! 5)))) \<and>
    (\<not> confined a \<longrightarrow> (\<forall>stdin' attacker'. worker_main fl decode dumps a stdin' attacker' = Inr r)) \<and>
    length (wr_stdout r) \<le> max_output \<and> wr_exit r \<in> {0, 2, 78}"
proof (intro conjI impI allI)
  assume "wr_handed r \<noteq> None"
  then have h: "wr_handed r = Some (the (wr_handed r))" by simp
  note c = worker_runs_confined[OF assms h]
  show "confined a" "length stdin \<le> max_input" "and_then (decode stdin) (loads fl) = Inr (the (wr_handed r))"
    using c by simp_all
  have "read_only a ''/''" using c by (simp add: confined_def)
  then show "\<exists>info line. av_mountinfo a = Inr info \<and> first_with (is_mount_line ''/'') line (splitlines info) \<and>
         ''ro'' \<in> set (split_on CHR '','' (words line ! 5)) \<and> ''rw'' \<notin> set (split_on CHR '','' (words line ! 5))"
    by (rule read_only_line)
next
  fix stdin' attacker' assume "\<not> confined a"
  from worker_unconfined[OF this] show "worker_main fl decode dumps a stdin' attacker' = Inr r" using assms by metis
qed (use worker_bounded[OF assms] in simp_all)

definition sample_arena :: arena_view where
  "sample_arena = \<lparr>av_environ = [arena_env \<mapsto> ''1''], av_euid = 10001, av_dockerenv = True,
     av_mountinfo = Inr (''1 0 8:1 / / ro,nosuid - ext4'' @ [CHR 0x0A] @ ''2 1 8:2 / /submission ro - ext4'' @ [CHR 0x0A] @
       ''3 1 8:3 / /tmp rw,nosuid,nodev,noexec - tmpfs''),
     av_status = Inr (''NoNewPrivs: 1'' @ [CHR 0x0A] @ ''CapEff: 0000'' @ [CHR 0x0A] @ ''Seccomp: 2''),
     av_interfaces = Inr [(1, ''lo'')], av_nofile = (64, 64), av_attack_symlink = False, av_attack_file = True\<rparr>"

lemma sample_arena_confined: "assert_arena_confinement sample_arena = Inr ()"
  by code_simp

theorem contestants_run_confined_witness:
  "\<exists>r. worker_main FRepr Inr (\<lambda>v. Inr ''{}'') sample_arena ''7'' (Some (Inr (Some (\<lambda>snapshot. Inr (VDict []))))) = Inr r \<and>
     wr_exit r = 0 \<and> wr_stdout r = ''{}'' \<and> confined sample_arena"
proof -
  let ?r = "\<lparr>wr_exit = 0, wr_stdout = ''{}'', wr_handed = Some (JInt 7)\<rparr>"
  have seven: "loads FRepr ''7'' = Inr (JInt 7)" by code_simp
  have r: "worker_main FRepr Inr (\<lambda>v. Inr ''{}'') sample_arena ''7'' (Some (Inr (Some (\<lambda>snapshot. Inr (VDict []))))) = Inr ?r"
    by (simp add: worker_main_def sample_arena_confined Let_def seven max_input_def max_output_def run_contestant_def)
  show ?thesis using r contestants_run_confined[OF r] by auto
qed

end
