(* ===== verification/Comparison.thy ===== *)
theory Comparison
  imports Arena
begin

text \<open>
  coverage/comparison.py: the three revisions of a reference policy on one benchmark.  Each revision
  runs its arena; the runs must share their scope; the classifications are compared pairwise by exact
  McNemar tests, corrected by Holm's procedure, and the whole is signed.

  The two arenas (\<open>run_reference_cross_tenant_arena\<close>, \<open>run_reference_path_traversal_arena\<close>) are
  arguments: for the properties they are runs of theory Arena.  The lemmas: with three arena runs of one
  challenge the comparison never fails, its figures are those of the runs and its receipt verifies.
\<close>

section \<open>The runs\<close>

definition runner_for :: "string \<Rightarrow> (int \<Rightarrow> arena_run res) \<Rightarrow> (int \<Rightarrow> arena_run res) \<Rightarrow> (string \<times> (int \<Rightarrow> arena_run res)) res" where
  "runner_for challenge tenant path =
    (if challenge = ''cross-tenant'' then Inr (''cross-tenant-authorization'', tenant)
     else if challenge = ''path-traversal'' then Inr (''path-traversal-containment'', path)
     else raise ValueError (''unsupported coverage challenge: '' @ challenge))"

definition run_scope :: "arena_run \<Rightarrow> coverage_scope" where
  "run_scope run = cr_scope (sr_receipt (ar_signed_receipt run))"

definition signed_receipt_to_dict :: "(real \<Rightarrow> pyfloat) \<Rightarrow> signed_receipt \<Rightarrow> json res" where
  "signed_receipt_to_dict fl s =
     and_then (receipt_to_dict fl (sr_receipt s)) (\<lambda>receipt.
       Inr (JObj [(''receipt'', receipt), (''signature'', envelope_to_dict (sr_signature s))]))"

text \<open>One revision: its number, its run and the entry of the published list.\<close>

definition compared_run :: "(real \<Rightarrow> pyfloat) \<Rightarrow> (int \<Rightarrow> arena_run res) \<Rightarrow> int \<Rightarrow> (int \<times> arena_run \<times> json) res" where
  "compared_run fl runner policy_revision =
     and_then (runner policy_revision) (\<lambda>run.
     and_then (counts_to_dict fl (ar_counts run)) (\<lambda>counts.
     and_then (signed_receipt_to_dict fl (ar_signed_receipt run)) (\<lambda>sr.
       Inr (policy_revision, run, JObj
         [(''policy_revision'', JInt policy_revision),
          (''policy_sha256'', JStr (sc_policy_sha256 (run_scope run))),
          (''benchmark_manifest_sha256'', JStr (bm_sha256 (bs_manifest (ar_benchmark run)))),
          (''counts'', counts),
          (''signed_receipt'', sr)]))))"

definition common_scope_keys :: "string list" where
  "common_scope_keys =
    [''challenge_sha256'', ''fixture_sha256'', ''benchmark_manifest_sha256'', ''oracle_digest'', ''runner_digest'',
     ''oracle_qualification_manifest_sha256'', ''oracle_selftest_sha256'', ''tested'', ''not_tested'']"

definition common_scope :: "arena_run \<Rightarrow> json" where
  "common_scope run = JObj (map (\<lambda>k. (k, obj_get (scope_to_dict (run_scope run)) k)) common_scope_keys)"

definition same_scope :: "arena_run \<Rightarrow> arena_run \<Rightarrow> bool" where
  "same_scope a b \<longleftrightarrow> list_all (\<lambda>k. obj_get (scope_to_dict (run_scope b)) k = obj_get (scope_to_dict (run_scope a)) k)
     common_scope_keys"

definition comparison_point :: "int \<times> arena_run \<times> json \<Rightarrow> json" where
  "comparison_point p =
    (let (policy_revision, run, entry) = p; counts = obj_get entry ''counts'' in JObj
     [(''policy_revision'', JInt policy_revision),
      (''policy_sha256'', JStr (sc_policy_sha256 (run_scope run))),
      (''escapes'', obj_get counts ''escapes''),
      (''overblocks'', obj_get counts ''overblocks''),
      (''escape_rate'', obj_get counts ''escape_rate''),
      (''overblock_rate'', obj_get counts ''overblock_rate'')])"

section \<open>The paired comparisons\<close>

text \<open>A dictionary comprehension: a later entry with the same key replaces the value.\<close>

definition event_map :: "oracle_verdict \<Rightarrow> classification \<Rightarrow> arena_run \<Rightarrow> (string \<times> bool) list" where
  "event_map verdict event run =
     foldl (\<lambda>d m. dict_set (rm_candidate_id m) (rm_classification m = event) d) []
       (filter (\<lambda>m. rm_oracle_verdict m = verdict) (ar_measurements run))"

definition metric_specs :: "(string \<times> oracle_verdict \<times> classification) list" where
  "metric_specs = [(''escape'', UNSAFE, ESCAPE), (''overblock'', SAFE, OVERBLOCK)]"

definition pair_specs :: "(nat \<times> nat) list" where
  "pair_specs = [(0, 1), (1, 2), (0, 2)]"

record comparison_row =
  cw_metric :: string
  cw_from :: "int \<times> arena_run"
  cw_to :: "int \<times> arena_run"
  cw_result :: mcnemar_result

definition compare_pair :: "(int \<times> arena_run) list \<Rightarrow> string \<times> oracle_verdict \<times> classification \<Rightarrow> nat \<times> nat \<Rightarrow> comparison_row res" where
  "compare_pair runs metric pair =
    (let (name, verdict, event) = metric; a = runs ! fst pair; b = runs ! snd pair in
     and_then (paired_mcnemar_exact (event_map verdict event (snd a)) (event_map verdict event (snd b))) (\<lambda>result.
       Inr \<lparr>cw_metric = name, cw_from = a, cw_to = b, cw_result = result\<rparr>))"

definition comparison_rows :: "(int \<times> arena_run) list \<Rightarrow> comparison_row list res" where
  "comparison_rows runs =
     map_res (\<lambda>(metric, pair). compare_pair runs metric pair) (List.product metric_specs pair_specs)"

text \<open>A row as it is published, with its correction.\<close>

definition row_to_dict :: "(real \<Rightarrow> pyfloat) \<Rightarrow> comparison_row \<Rightarrow> holm_entry \<Rightarrow> json" where
  "row_to_dict fl r h = JObj
    [(''metric'', JStr (cw_metric r)),
     (''policy_revision_from'', JInt (fst (cw_from r))),
     (''policy_revision_to'', JInt (fst (cw_to r))),
     (''policy_sha256_from'', JStr (sc_policy_sha256 (run_scope (snd (cw_from r))))),
     (''policy_sha256_to'', JStr (sc_policy_sha256 (run_scope (snd (cw_to r))))),
     (''total_pairs'', JInt (int (total_pairs (cw_result r)))),
     (''only_from'', JInt (int (only_first (cw_result r)))),
     (''only_to'', JInt (int (only_second (cw_result r)))),
     (''discordant_pairs'', JInt (int (discordant_pairs (cw_result r)))),
     (''exact_p_value'', JFloat (fl (exact_p_value (cw_result r)))),
     (''reject_null_at_alpha'', JBool (exact_p_value (cw_result r) < 1 / 20)),
     (''raw_p_value'', JFloat (fl (raw_p_value h))),
     (''holm_rank'', JInt (int (holm_rank h))),
     (''adjusted_alpha'', JFloat (fl (adjusted_alpha h))),
     (''reject_null_after_correction'', JBool (reject_null h))]"

definition mcnemar_payload :: "(real \<Rightarrow> pyfloat) \<Rightarrow> json list \<Rightarrow> json" where
  "mcnemar_payload fl comparisons = JObj
    [(''method'', JStr ''EXACT_TWO_SIDED_BINOMIAL_P_0_5''),
     (''paired_by'', JStr ''candidate_id''),
     (''alpha'', JFloat (fl (1 / 20))),
     (''family_wise_correction'', JStr ''HOLM_BONFERRONI''),
     (''family_size'', JInt (int (length comparisons))),
     (''null_hypothesis'', JStr ''DISCORDANT_DIRECTION_PROBABILITY_EQUALS_0_5''),
     (''inference_scope'', JStr ''FIXED_HASH_BOUND_BENCHMARK_ONLY''),
     (''interpretation'', JStr (''Exact paired comparisons over this fixed hash-bound benchmark corpus; '' @
        ''p-values are scoped diagnostics, not population-wide security significance.'')),
     (''comparisons'', JList comparisons)]"

section \<open>The payload\<close>

definition comparison_secret :: bytes where "comparison_secret = ''release-sentinel-reference-comparison-v1''"
definition comparison_key :: string where "comparison_key = ''reference-comparison-test-key''"

definition signed_comparison_to_dict :: "signed_comparison \<Rightarrow> json" where
  "signed_comparison_to_dict s =
     JObj [(''receipt'', comparison_to_dict (sm_receipt s)), (''signature'', envelope_to_dict (sm_signature s))]"

definition demo_payload_dict :: "string \<Rightarrow> bool \<Rightarrow> json list \<Rightarrow> comparison_receipt \<Rightarrow> signed_comparison \<Rightarrow> json" where
  "demo_payload_dict challenge_id qualified runs receipt sm = JObj
    [(''mode'', JStr ''REFERENCE_OFFLINE''),
     (''challenge_id'', JStr challenge_id),
     (''interpretation'', JStr (''This measures intentionally simplified demo policies; Coverage Arena is the measurement instrument, '' @
        ''not a claim that any demo policy is production-complete.'')),
     (''claim'', JStr ''SCOPED_GATE_GAP_MEASUREMENT''),
     (''oracle_qualified'', JBool qualified),
     (''agent_authority'', JStr ''NONE''),
     (''production_release_authority'', JStr ''UNCHANGED''),
     (''policy_comparison'', JList runs),
     (''tradeoff'', JObj
       [(''comparison_scope_sha256'', JStr (cm_scope_sha256 receipt)),
        (''benchmark_manifest_sha256'', JStr (cm_benchmark_manifest_sha256 receipt)),
        (''points'', JList (cm_points receipt)),
        (''mcnemar'', cm_mcnemar receipt),
        (''signed_comparison_receipt'', signed_comparison_to_dict sm)])]"

definition build_reference_demo_payload ::
    "(real \<Rightarrow> pyfloat) \<Rightarrow> (int \<Rightarrow> arena_run res) \<Rightarrow> (int \<Rightarrow> arena_run res) \<Rightarrow> string \<Rightarrow> json res" where
  "build_reference_demo_payload fl tenant path challenge =
     and_then (runner_for challenge tenant path) (\<lambda>(challenge_id, runner).
     and_then (map_res (compared_run fl runner) [1, 2, 3]) (\<lambda>entries.
       let runs = map (\<lambda>(n, run, entry). (n, run)) entries; first = snd (hd runs) in
       if \<not> list_all (\<lambda>(n, run). same_scope first run) (tl runs)
       then raise RuntimeError ''reference policy comparison scope mismatch'' else
     and_then (comparison_rows runs) (\<lambda>rows.
     and_then (holm_bonferroni (map (\<lambda>r. exact_p_value (cw_result r)) rows) (1 / 20)) (\<lambda>corrections.
       if length corrections \<noteq> length rows then raise ValueError ''zip() arguments have different lengths'' else
     and_then (build_coverage_comparison_receipt (sha256_json (common_scope first))
         (bm_sha256 (bs_manifest (ar_benchmark first))) (map comparison_point entries)
         (mcnemar_payload fl (map2 (row_to_dict fl) rows corrections))) (\<lambda>receipt.
     and_then (hmac_signer comparison_secret comparison_key) (\<lambda>authority.
     and_then (sign_coverage_comparison_receipt receipt authority) (\<lambda>sm.
       Inr (demo_payload_dict challenge_id (list_all (\<lambda>(n, run). q_passed (ar_qualification run)) runs)
         (map (\<lambda>(n, run, entry). entry) entries) receipt sm))))))))"

section \<open>Lemmas: runs of one challenge agree on their candidates\<close>

text \<open>The candidates the oracle gave a verdict, whatever the revision of the gate.\<close>

definition judged :: "(string \<Rightarrow> (string \<Rightarrow> 'c option) res) \<Rightarrow> 'c challenge_definition \<Rightarrow> oracle_verdict \<Rightarrow> benchmark_candidate \<Rightarrow> bool" where
  "judged exec_source d verdict c \<longleftrightarrow>
     (\<exists>g e. load_candidate exec_source (cd_symbol d) c = Inr g \<and> evaluate_callable (cd_oracle d) g = Inr e \<and> oe_verdict e = verdict)"

lemma keys_event_map:
  "fst ` set (event_map v k run) = rm_candidate_id ` set (filter (\<lambda>m. rm_oracle_verdict m = v) (ar_measurements run))"
proof -
  have "fst ` set (foldl (\<lambda>d m. dict_set (rm_candidate_id m) (rm_classification m = k) d) acc ms) =
      fst ` set acc \<union> rm_candidate_id ` set ms" for acc and ms :: "reference_measurement list"
    by (induction ms arbitrary: acc) auto
  from this[of "[]"] show ?thesis by (simp add: event_map_def)
qed

lemma measure_candidate_judged:
  assumes "measure_candidate exec_source d q f rv c = Inr (ob, m)"
  shows "judged exec_source d v c \<longleftrightarrow> (\<exists>x. m = Some x \<and> rm_oracle_verdict x = v)" "m = Some x \<Longrightarrow> rm_candidate_id x = bc_candidate_id c"
proof -
  show "judged exec_source d v c \<longleftrightarrow> (\<exists>x. m = Some x \<and> rm_oracle_verdict x = v)"
  proof (cases "load_candidate exec_source (cd_symbol d) c")
    case (Inl e)
    then show ?thesis using assms by (auto simp: measure_candidate_def judged_def split: if_splits)
  next
    case (Inr g)
    obtain sg so where so: "evaluate_after_gate_snapshot sg (candidate_context f c) g (cd_oracle d) q
        (reference_verifier ''gate'') (reference_signer ''oracle'') = Inr so"
      and m: "\<exists>x. m = Some x \<and> rm_oracle_verdict x = or_verdict (so_result so)"
      using assms Inr by (auto simp: measure_candidate_def Let_def and_then_Inr)
    obtain e where "evaluate_callable (cd_oracle d) g = Inr e" "or_verdict (so_result so) = oe_verdict e"
      using evaluate_after_Inr(4)[OF so] by blast
    then show ?thesis using Inr m by (auto simp: judged_def)
  qed
  show "m = Some x \<Longrightarrow> rm_candidate_id x = bc_candidate_id c"
    using measure_candidate_Inr(2)[OF assms] by (simp add: good_measurement_def)
qed

lemma event_keys:
  assumes "run_reference_arena fl exec_source d rv = Inr r"
  shows "fst ` set (event_map v k r) = bc_candidate_id ` {c \<in> set (bs_candidates (ar_benchmark r)). judged exec_source d v c}"
proof -
  from arena_Inr[OF assms] obtain q f measured where
    l: "list_all2 (\<lambda>c x. measure_candidate exec_source d q f rv c = Inr x) (bs_candidates (ar_benchmark r)) measured"
    and ms: "ar_measurements r = List.map_filter snd measured" by (auto simp: map_res_Inr)
  have mem: "set (ar_measurements r) = {x. \<exists>ob. (ob, Some x) \<in> set measured}"
    unfolding ms by (force simp: List.map_filter_def)
  have "rm_candidate_id ` {x. (\<exists>ob. (ob, Some x) \<in> set measured) \<and> rm_oracle_verdict x = v} =
      bc_candidate_id ` {c \<in> set (bs_candidates (ar_benchmark r)). judged exec_source d v c}"
    using l
  proof (induction rule: list_all2_induct)
    case (Cons c cs p ps)
    obtain ob m where p: "p = (ob, m)" by (cases p)
    have c: "measure_candidate exec_source d q f rv c = Inr (ob, m)" using Cons(1) p by simp
    have split: "{x. (\<exists>ob. (ob, Some x) \<in> set (p # ps)) \<and> rm_oracle_verdict x = v} =
        {x. m = Some x \<and> rm_oracle_verdict x = v} \<union> {x. (\<exists>ob. (ob, Some x) \<in> set ps) \<and> rm_oracle_verdict x = v}"
      by (auto simp: p)
    have head: "rm_candidate_id ` {x. m = Some x \<and> rm_oracle_verdict x = v} = (if judged exec_source d v c then {bc_candidate_id c} else {})"
      using measure_candidate_judged[OF c] by (cases m) (auto simp: image_def)
    have "{y \<in> set (c # cs). judged exec_source d v y} =
        (if judged exec_source d v c then {c} else {}) \<union> {y \<in> set cs. judged exec_source d v y}" by auto
    then show ?case using Cons.IH unfolding split image_Un head by simp
  qed simp
  then show ?thesis by (simp add: keys_event_map mem)
qed


section \<open>Lemmas: the comparison completes\<close>

lemma arena_scope_of:
  assumes "run_reference_arena fl exec_source d rv = Inr r"
  shows "\<exists>q challenge policy. cd_qualify d (cd_fixed d) (cd_vulnerable d) = Inr q \<and> cd_challenge d = Inr challenge \<and>
    cd_policy_document d rv = Inr policy \<and> cd_benchmark d = Inr (ar_benchmark r) \<and> q_passed (ar_qualification r) \<and>
    arena_scope (arena_frame_of d (ar_benchmark r) q challenge policy rv) q challenge = Inr (run_scope r)"
  using assms
  by (auto simp: run_reference_arena_def Let_def and_then_Inr run_scope_def build_coverage_receipt_def
      sign_coverage_receipt_def split: if_splits)

lemma arena_scope_fields:
  assumes "arena_scope (arena_frame_of d bench q challenge policy rv) q challenge = Inr s"
  shows "\<exists>ts ns. scope_texts (obj_get challenge ''scope'') ''tested'' = Inr ts \<and>
    scope_texts (obj_get challenge ''scope'') ''not_tested'' = Inr ns \<and>
    s = \<lparr>sc_challenge_sha256 = sha256_json challenge, sc_fixture_sha256 = bm_base_fixture_sha256 (bs_manifest bench),
         sc_policy_sha256 = sha256_json policy, sc_benchmark_manifest_sha256 = bm_sha256 (bs_manifest bench),
         sc_oracle_digest = sha256_json (JObj [(''revision'', JStr (cd_oracle_revision d)),
            (''qualification_manifest_sha256'', JStr (manifest_sha256 q))]),
         sc_gatekeeper_digest = sha256_json (JObj [(''component'', JStr (cd_gate_component d)), (''revision'', JInt rv)]),
         sc_runner_digest = sha256_json (JObj [(''component'', JStr ''package-owned-reference-runner''), (''revision'', JInt 2)]),
         sc_qualification_manifest_sha256 = manifest_sha256 q, sc_selftest_sha256 = selftest_sha256 q,
         sc_tested = ts, sc_not_tested = ns\<rparr>"
  using assms by (auto simp: arena_scope_def arena_frame_of_def and_then_Inr make_scope_def split: if_splits)

lemma runs_share_scope:
  assumes "run_reference_arena fl exec_source d rv = Inr r" "run_reference_arena fl exec_source d rv' = Inr r'"
  shows "same_scope r r'" "is_sha256 (sc_policy_sha256 (run_scope r))" "ar_benchmark r' = ar_benchmark r"
proof -
  from arena_scope_of[OF assms(1)] arena_scope_of[OF assms(2)] obtain q challenge policy policy' where
    s: "arena_scope (arena_frame_of d (ar_benchmark r) q challenge policy rv) q challenge = Inr (run_scope r)"
      "arena_scope (arena_frame_of d (ar_benchmark r) q challenge policy' rv') q challenge = Inr (run_scope r')"
    and b: "ar_benchmark r' = ar_benchmark r" by auto
  from arena_scope_fields[OF s(1)] arena_scope_fields[OF s(2)] show "same_scope r r'" "is_sha256 (sc_policy_sha256 (run_scope r))"
    by (auto simp: same_scope_def common_scope_keys_def scope_to_dict_def scope_digests_def)
  show "ar_benchmark r' = ar_benchmark r" by (rule b)
qed

lemma compared_run_arena:
  assumes "run_reference_arena fl exec_source d rv = Inr r"
  shows "\<exists>entry. compared_run fl (run_reference_arena fl exec_source d) rv = Inr (rv, r, entry) \<and>
    obj_get (obj_get entry ''counts'') ''escapes'' = JInt (escapes (ar_counts r)) \<and>
    obj_get (obj_get entry ''counts'') ''overblocks'' = JInt (overblocks (ar_counts r))"
proof -
  obtain receipt where receipt: "receipt_to_dict fl (sr_receipt (ar_signed_receipt r)) = Inr receipt"
    using arena_receipt(1)[OF assms] by (auto simp: verify_signed_coverage_receipt_def and_then_Inr split: if_splits)
  then obtain counts where counts: "counts_to_dict fl (ar_counts r) = Inr counts"
    using arena_receipt(2)[OF assms] by (auto simp: receipt_to_dict_def and_then_Inr)
  then have "obj_get counts ''escapes'' = JInt (escapes (ar_counts r))" "obj_get counts ''overblocks'' = JInt (overblocks (ar_counts r))"
    by (auto simp: counts_to_dict_def and_then_Inr)
  then show ?thesis using assms receipt counts by (simp add: compared_run_def signed_receipt_to_dict_def)
qed

lemma paired_runs:
  assumes "run_reference_arena fl exec_source d rv = Inr r" "run_reference_arena fl exec_source d rv' = Inr r'"
  shows "\<exists>m. paired_mcnemar_exact (event_map v k r) (event_map v k r') = Inr m \<and> 0 \<le> exact_p_value m \<and> exact_p_value m \<le> 1"
proof -
  have "set (map fst (event_map v k r)) = set (map fst (event_map v k r'))"
    using event_keys[OF assms(1), of v k] event_keys[OF assms(2), of v k] runs_share_scope(3)[OF assms] by simp
  then obtain m where m: "paired_mcnemar_exact (event_map v k r) (event_map v k r') = Inr m"
    by (auto simp: paired_mcnemar_exact_def Let_def)
  then show ?thesis using mcnemar_p_value[OF m] mcnemar_p_range[of "only_first m" "only_second m"] by simp
qed

lemma rows_of_runs:
  assumes "\<And>n r. (n, r) \<in> set runs \<Longrightarrow> run_reference_arena fl exec_source d n = Inr r" "length runs = 3"
  shows "\<exists>rows. comparison_rows runs = Inr rows \<and> (\<forall>r\<in>set rows. 0 \<le> exact_p_value (cw_result r) \<and> exact_p_value (cw_result r) \<le> 1)"
proof -
  have one: "\<exists>row. compare_pair runs metric pair = Inr row \<and> 0 \<le> exact_p_value (cw_result row) \<and> exact_p_value (cw_result row) \<le> 1"
    if "pair \<in> set pair_specs" for metric pair
  proof -
    have "fst pair < length runs" "snd pair < length runs" using that assms(2) by (auto simp: pair_specs_def)
    then have "runs ! fst pair \<in> set runs" "runs ! snd pair \<in> set runs" by simp_all
    then have "run_reference_arena fl exec_source d (fst (runs ! fst pair)) = Inr (snd (runs ! fst pair))"
      "run_reference_arena fl exec_source d (fst (runs ! snd pair)) = Inr (snd (runs ! snd pair))"
      using assms(1) by (metis prod.collapse)+
    from paired_runs[OF this, of "fst (snd metric)" "snd (snd metric)"] show ?thesis
      by (auto simp: compare_pair_def case_prod_beta Let_def)
  qed
  have "\<exists>rows. map_res (\<lambda>(metric, pair). compare_pair runs metric pair) l = Inr rows \<and>
      (\<forall>r\<in>set rows. 0 \<le> exact_p_value (cw_result r) \<and> exact_p_value (cw_result r) \<le> 1)"
    if "snd ` set l \<subseteq> set pair_specs" for l
    using that
  proof (induction l)
    case (Cons x l)
    obtain metric pair where x: "x = (metric, pair)" by (cases x)
    with one[of pair metric] Cons show ?case by auto
  qed simp
  from this[of "List.product metric_specs pair_specs"] show ?thesis
    by (force simp: comparison_rows_def)
qed

lemma comparison_completes:
  assumes runs: "run_reference_arena fl exec_source d 1 = Inr r1" "run_reference_arena fl exec_source d 2 = Inr r2"
      "run_reference_arena fl exec_source d 3 = Inr r3"
    and runner: "runner_for challenge tenant path = Inr (cid, run_reference_arena fl exec_source d)"
  shows "\<exists>payload sm. build_reference_demo_payload fl tenant path challenge = Inr payload \<and>
    obj_get payload ''challenge_id'' = JStr cid \<and> obj_get payload ''oracle_qualified'' = JBool True \<and>
    obj_get (obj_get payload ''tradeoff'') ''signed_comparison_receipt'' = signed_comparison_to_dict sm \<and>
    obj_get (obj_get payload ''tradeoff'') ''points'' = JList (cm_points (sm_receipt sm)) \<and>
    verify_signed_coverage_comparison_receipt sm (hmac_verify comparison_secret comparison_key) = Inr () \<and>
    list_all2 (\<lambda>r p. obj_get p ''policy_sha256'' = JStr (sc_policy_sha256 (run_scope r)) \<and>
      obj_get p ''escapes'' = JInt (escapes (ar_counts r)) \<and> obj_get p ''overblocks'' = JInt (overblocks (ar_counts r)))
      [r1, r2, r3] (cm_points (sm_receipt sm))"
proof -
  let ?runs = "[(1, r1), (2, r2), (3, r3)]"
  from compared_run_arena[OF runs(1)] compared_run_arena[OF runs(2)] compared_run_arena[OF runs(3)]
  obtain e1 e2 e3 where
    c: "compared_run fl (run_reference_arena fl exec_source d) 1 = Inr (1, r1, e1)"
      "compared_run fl (run_reference_arena fl exec_source d) 2 = Inr (2, r2, e2)"
      "compared_run fl (run_reference_arena fl exec_source d) 3 = Inr (3, r3, e3)"
    and figures: "obj_get (obj_get e1 ''counts'') ''escapes'' = JInt (escapes (ar_counts r1))"
      "obj_get (obj_get e1 ''counts'') ''overblocks'' = JInt (overblocks (ar_counts r1))"
      "obj_get (obj_get e2 ''counts'') ''escapes'' = JInt (escapes (ar_counts r2))"
      "obj_get (obj_get e2 ''counts'') ''overblocks'' = JInt (overblocks (ar_counts r2))"
      "obj_get (obj_get e3 ''counts'') ''escapes'' = JInt (escapes (ar_counts r3))"
      "obj_get (obj_get e3 ''counts'') ''overblocks'' = JInt (overblocks (ar_counts r3))" by blast
  let ?entries = "[(1, r1, e1), (2, r2, e2), (3, r3, e3)]"
  have scopes: "same_scope r1 r2" "same_scope r1 r3"
    using runs_share_scope(1)[OF runs(1) runs(2)] runs_share_scope(1)[OF runs(1) runs(3)] .
  have "\<And>n r. (n, r) \<in> set ?runs \<Longrightarrow> run_reference_arena fl exec_source d n = Inr r" using runs by auto
  then have "\<exists>rows. comparison_rows ?runs = Inr rows \<and>
      (\<forall>r\<in>set rows. 0 \<le> exact_p_value (cw_result r) \<and> exact_p_value (cw_result r) \<le> 1)"
    by (rule rows_of_runs) simp_all
  then obtain rows where rows: "comparison_rows ?runs = Inr rows"
    and p: "\<forall>r\<in>set rows. 0 \<le> exact_p_value (cw_result r) \<and> exact_p_value (cw_result r) \<le> 1" by blast
  let ?ps = "map (\<lambda>r. exact_p_value (cw_result r)) rows"
  have "\<not> list_ex (\<lambda>v. v < 0 \<or> v > 1) ?ps" using p by (auto simp: list_ex_iff not_less)
  then have "ok (holm_bonferroni ?ps (1 / 20))" by (simp add: holm_bonferroni_def)
  then obtain hs where hs: "holm_bonferroni ?ps (1 / 20) = Inr hs" by (auto simp: ok_iff)
  then have len: "length hs = length rows" using holm_bonferroni_Inr(1) by fastforce
  let ?receipt = "\<lparr>cm_schema = ''release-sentinel.coverage-comparison-receipt.v1'',
     cm_claim = ''SCOPED_PAIRED_POLICY_TRADEOFF'',
     cm_scope_sha256 = sha256_json (common_scope r1), cm_benchmark_manifest_sha256 = bm_sha256 (bs_manifest (ar_benchmark r1)),
     cm_points = map comparison_point ?entries, cm_mcnemar = mcnemar_payload fl (map2 (row_to_dict fl) rows hs),
     cm_agent_authority = ''NONE''\<rparr>"
  have shas: "is_sha256 (sc_policy_sha256 (run_scope r1))" "is_sha256 (sc_policy_sha256 (run_scope r2))"
    "is_sha256 (sc_policy_sha256 (run_scope r3))"
    using runs_share_scope(2)[OF runs(1) runs(1)] runs_share_scope(2)[OF runs(2) runs(2)] runs_share_scope(2)[OF runs(3) runs(3)] .
  have receipt: "build_coverage_comparison_receipt (sha256_json (common_scope r1)) (bm_sha256 (bs_manifest (ar_benchmark r1)))
      (map comparison_point ?entries) (mcnemar_payload fl (map2 (row_to_dict fl) rows hs)) = Inr ?receipt"
    using shas by (simp add: build_coverage_comparison_receipt_def make_comparison_receipt_def require_sha256_def bm_sha256_def
        comparison_point_def obj_get_def_def mcnemar_payload_def Let_def)
  let ?authority = "\<lparr>sg_key_id = comparison_key, sg_algorithm = hmac_algorithm,
      sg_sign = (\<lambda>payload. Inr (hmac_sha256 comparison_secret payload))\<rparr>"
  have auth: "hmac_signer comparison_secret comparison_key = Inr ?authority"
    by (simp add: hmac_signer_def comparison_secret_def comparison_key_def)
  obtain sm where sm: "sign_coverage_comparison_receipt ?receipt ?authority = Inr sm"
    by (simp add: sign_coverage_comparison_receipt_def sign_json_def Let_def)
  then have smr: "sm_receipt sm = ?receipt" by (auto simp: sign_coverage_comparison_receipt_def and_then_Inr)
  have ver: "verify_signed_coverage_comparison_receipt sm (hmac_verify comparison_secret comparison_key) = Inr ()"
    by (rule hmac_scheme.signed_comparison_verifies[OF sm])
  have q: "q_passed (ar_qualification r1)" "q_passed (ar_qualification r2)" "q_passed (ar_qualification r3)"
    using arena_scope_of[OF runs(1)] arena_scope_of[OF runs(2)] arena_scope_of[OF runs(3)] by blast+
  define published where "published = ?receipt"
  have entries: "map_res (compared_run fl (run_reference_arena fl exec_source d)) [1, 2, 3] = Inr ?entries" by (simp add: c)
  have "build_reference_demo_payload fl tenant path challenge =
      Inr (demo_payload_dict cid True [e1, e2, e3] published sm)"
    unfolding build_reference_demo_payload_def runner entries and_then_simps prod.case Let_def
    using scopes rows hs len receipt[folded published_def] auth sm[folded published_def] q by simp
  moreover have "cm_points published = map comparison_point ?entries" by (simp add: published_def)
  ultimately show ?thesis
    using ver smr[folded published_def] figures by (intro exI[of _ sm] exI conjI) (auto simp: demo_payload_dict_def comparison_point_def Let_def)
qed

end
