(* ===== verification/Coverage_Service.thy ===== *)
theory Coverage_Service
  imports Comparison Minimizer WebMCP
begin

text \<open>
  webmcp/coverage_service.py: the measurements of the coverage arena as answers for an untrusted
  client.  The two arenas are those of theory Arena over the package's documents; \<open>lru_cache\<close> only
  saves repeating a run and is left out.  The lemmas: a comparison always carries a verified receipt,
  the counterexamples are the escapes of the run, and a minimized counterexample still escapes.
\<close>

section \<open>The package behind the service\<close>

text \<open>
  The documents of the two challenges (challenge, safe cases, unsafe cases), the syntax tree walker,
  what executing a source defines, how floats print, and which clock readings are past two seconds.
\<close>

record coverage_world =
  cv_float :: "real \<Rightarrow> pyfloat"
  cv_tenant_docs :: "json \<times> json \<times> json"
  cv_path_docs :: "json \<times> json \<times> json"
  cv_walk :: walker
  cv_exec_tenant :: "string \<Rightarrow> (string \<Rightarrow> tenant_candidate option) res"
  cv_exec_path :: "string \<Rightarrow> (string \<Rightarrow> path_candidate option) res"
  cv_late :: "nat \<Rightarrow> bool"

definition tenant_of :: "coverage_world \<Rightarrow> tenant_candidate challenge_definition" where
  "tenant_of w = (let (challenge, safe, unsafe) = cv_tenant_docs w in cross_tenant challenge safe unsafe (cv_walk w))"

definition path_of :: "coverage_world \<Rightarrow> path_candidate challenge_definition" where
  "path_of w = (let (challenge, safe, unsafe) = cv_path_docs w in path_traversal challenge safe unsafe (cv_walk w))"

definition tenant_arena :: "coverage_world \<Rightarrow> int \<Rightarrow> arena_run res" where
  "tenant_arena w = run_reference_arena (cv_float w) (cv_exec_tenant w) (tenant_of w)"

definition path_arena :: "coverage_world \<Rightarrow> int \<Rightarrow> arena_run res" where
  "path_arena w = run_reference_arena (cv_float w) (cv_exec_path w) (path_of w)"

section \<open>Scopes\<close>

datatype challenge_id = CrossTenantChallenge | PathTraversalChallenge

fun challenge_value :: "challenge_id \<Rightarrow> string" where
  "challenge_value CrossTenantChallenge = ''cross-tenant''"
| "challenge_value PathTraversalChallenge = ''path-traversal''"

definition challenge_of :: "string \<Rightarrow> challenge_id option" where
  "challenge_of s = List.find (\<lambda>c. challenge_value c = s) [CrossTenantChallenge, PathTraversalChallenge]"

definition policy_revisions :: "int list" where "policy_revisions = [1, 2, 3]"

definition invalid_scope :: "string \<Rightarrow> 'a svc" where
  "invalid_scope message = service_fail ''INVALID_COVERAGE_SCOPE'' message 422 None"

definition coverage_scope_of :: "string \<Rightarrow> int \<Rightarrow> (challenge_id \<times> int) svc" where
  "coverage_scope_of challenge rn =
    (case challenge_of challenge of
       None \<Rightarrow> invalid_scope ''unsupported challenge or policy revision''
     | Some c \<Rightarrow> if rn \<in> set policy_revisions then Inr (c, rn)
                 else invalid_scope ''unsupported challenge or policy revision'')"

definition coverage_run :: "coverage_world \<Rightarrow> challenge_id \<Rightarrow> int \<Rightarrow> arena_run res" where
  "coverage_run w c rn =
    (case c of CrossTenantChallenge \<Rightarrow> tenant_arena w rn | PathTraversalChallenge \<Rightarrow> path_arena w rn)"

section \<open>The four calls\<close>

definition inspect_coverage :: "coverage_world \<Rightarrow> string \<Rightarrow> int \<Rightarrow> json svc" where
  "inspect_coverage w challenge rn =
     svc_then (coverage_scope_of challenge rn) (\<lambda>(c, rv). lift (
       and_then (coverage_run w c rv) (\<lambda>run.
       and_then (hmac_signer ''release-sentinel-reference-receipt-v1'' ''reference-receipt-test-key'') (\<lambda>_.
       and_then (verify_signed_coverage_receipt (cv_float w) (ar_signed_receipt run)
           (hmac_verify ''release-sentinel-reference-receipt-v1'' ''reference-receipt-test-key'')) (\<lambda>_.
       and_then (counts_to_dict (cv_float w) (ar_counts run)) (\<lambda>counts.
       and_then (receipt_to_dict (cv_float w) (sr_receipt (ar_signed_receipt run))) (\<lambda>receipt.
       let scope = run_scope run in Inr (JObj
        [(''challenge'', JStr (challenge_value c)),
         (''challenge_id'', JStr (bm_challenge_id (bs_manifest (ar_benchmark run)))),
         (''revision'', JInt rv),
         (''oracle_qualified'', JBool (q_passed (ar_qualification run))),
         (''benchmark_manifest_sha256'', JStr (bm_sha256 (bs_manifest (ar_benchmark run)))),
         (''policy_sha256'', JStr (sc_policy_sha256 scope)),
         (''counts'', counts),
         (''receipt_sha256'', JStr (sha256_json receipt)),
         (''receipt_verified'', JBool True),
         (''tested_scope'', JList (map JStr (sc_tested scope))),
         (''not_tested_scope'', JList (map JStr (sc_not_tested scope))),
         (''claim'', JStr ''SCOPED_GATE_GAP_MEASUREMENT''),
         (''authority'', JStr ''MEASUREMENT_ONLY'')]))))))))"

text \<open>\<open>SignatureEnvelope(**d)\<close> for a dictionary of four texts.\<close>

definition envelope_of_dict :: "json \<Rightarrow> signature_envelope" where
  "envelope_of_dict d =
    \<lparr>payload_sha256 = py_str (obj_get d ''payload_sha256''), signature_b64 = py_str (obj_get d ''signature_b64''),
     env_key_id = py_str (obj_get d ''key_id''), env_algorithm = py_str (obj_get d ''algorithm'')\<rparr>"

definition revision_point :: "json \<Rightarrow> json" where
  "revision_point p = JObj
    [(''revision'', obj_get p ''policy_revision''), (''policy_sha256'', obj_get p ''policy_sha256''),
     (''escapes'', obj_get p ''escapes''), (''overblocks'', obj_get p ''overblocks''),
     (''escape_rate'', obj_get p ''escape_rate''), (''overblock_rate'', obj_get p ''overblock_rate'')]"

definition signature_matches :: "json \<Rightarrow> signature_envelope \<Rightarrow> verifier \<Rightarrow> bool res" where
  "signature_matches receipt e verify =
    (let raw = canonical_json receipt in
     if sha256_hex raw \<noteq> payload_sha256 e then Inr False else
     case b64decode (signature_b64 e) of
       None \<Rightarrow> raise ValueError ''Invalid base64-encoded string''
     | Some signature \<Rightarrow> verify raw signature (env_key_id e) (env_algorithm e))"

definition compare_gate_revisions :: "coverage_world \<Rightarrow> string \<Rightarrow> json svc" where
  "compare_gate_revisions w challenge =
    (case challenge_of challenge of
       None \<Rightarrow> invalid_scope ''unsupported challenge''
     | Some c \<Rightarrow>
       svc_then (lift (build_reference_demo_payload (cv_float w) (tenant_arena w) (path_arena w) (challenge_value c))) (\<lambda>payload.
       let tradeoff = obj_get payload ''tradeoff''; sm = obj_get tradeoff ''signed_comparison_receipt'' in
       svc_then (lift (and_then (hmac_signer comparison_secret comparison_key) (\<lambda>_.
         signature_matches (obj_get sm ''receipt'') (envelope_of_dict (obj_get sm ''signature''))
           (hmac_verify comparison_secret comparison_key)))) (\<lambda>verified.
       if \<not> verified then service_fail ''COMPARISON_RECEIPT_INVALID'' ''coverage comparison receipt verification failed'' 409 None
       else svc_then (lift (py_list (obj_get tradeoff ''points''))) (\<lambda>points. Inr (JObj
        [(''challenge'', JStr (challenge_value c)),
         (''challenge_id'', obj_get payload ''challenge_id''),
         (''oracle_qualified'', obj_get payload ''oracle_qualified''),
         (''revisions'', JList (map revision_point points)),
         (''paired_diagnostics'', obj_get tradeoff ''mcnemar''),
         (''comparison_scope_sha256'', obj_get tradeoff ''comparison_scope_sha256''),
         (''comparison_receipt_verified'', JBool True),
         (''scope_warning'', JStr ''0 observed escapes is scoped to this fixed benchmark corpus.''),
         (''authority'', JStr ''MEASUREMENT_ONLY'')])))))"

definition counterexample_row :: "int \<Rightarrow> reference_measurement \<Rightarrow> json" where
  "counterexample_row rv m = JObj
    [(''candidate_id'', JStr (rm_candidate_id m)),
     (''candidate_sha256'', JStr (rm_candidate_sha256 m)),
     (''classification'', JStr (classification_value (rm_classification m))),
     (''gate_decision'', JStr (decision_value (rm_gate_decision m))),
     (''oracle_verdict'', JStr (verdict_value (rm_oracle_verdict m))),
     (''policy_revision'', JInt rv)]"

definition find_counterexamples :: "coverage_world \<Rightarrow> string \<Rightarrow> int \<Rightarrow> json svc" where
  "find_counterexamples w challenge rn =
     svc_then (coverage_scope_of challenge rn) (\<lambda>(c, rv).
     svc_then (lift (coverage_run w c rv)) (\<lambda>run. Inr (JObj
      [(''challenge'', JStr (challenge_value c)),
       (''revision'', JInt rv),
       (''counterexamples'', JList (map (counterexample_row rv) (filter (\<lambda>m. rm_classification m = ESCAPE) (ar_measurements run)))),
       (''source_exposure'', JStr ''IDENTITY_ONLY''),
       (''authority'', JStr ''MEASUREMENT_ONLY'')])))"

text \<open>\<open>_escape_predicate\<close>: what the source defines must pass the gate and fail the oracle.\<close>

definition escape_predicate ::
    "(string \<Rightarrow> (string \<Rightarrow> 'c option) res) \<Rightarrow> 'c challenge_definition \<Rightarrow> int \<Rightarrow> string \<Rightarrow> bool res" where
  "escape_predicate exec_source d rn source =
    (case exec_source source of
       Inl e \<Rightarrow> if catches PyException e then Inr False else Inl e
     | Inr namespace \<Rightarrow>
       (case namespace (cd_symbol d) of
          None \<Rightarrow> Inr False
        | Some candidate \<Rightarrow>
            and_then (cd_gate d candidate source rn) (\<lambda>(gate, _).
            and_then (evaluate_callable (cd_oracle d) candidate) (\<lambda>e.
              Inr (gate = GO \<and> oe_verdict e = UNSAFE)))))"

definition escape_of :: "coverage_world \<Rightarrow> challenge_id \<Rightarrow> int \<Rightarrow> string \<Rightarrow> bool res" where
  "escape_of w c =
    (case c of CrossTenantChallenge \<Rightarrow> escape_predicate (cv_exec_tenant w) (tenant_of w)
     | PathTraversalChallenge \<Rightarrow> escape_predicate (cv_exec_path w) (path_of w))"

text \<open>The first revision whose run lets the candidate escape.\<close>

definition escape_ids :: "arena_run \<Rightarrow> string set" where
  "escape_ids run = rm_candidate_id ` set (filter (\<lambda>m. rm_classification m = ESCAPE) (ar_measurements run))"

fun select_escape :: "(int \<Rightarrow> arena_run res) \<Rightarrow> string \<Rightarrow> int list \<Rightarrow> (int \<times> string) option res" where
  "select_escape runs candidate_id [] = Inr None"
| "select_escape runs candidate_id (rv # rvs) =
     and_then (runs rv) (\<lambda>run.
       if candidate_id \<notin> escape_ids run then select_escape runs candidate_id rvs
       else case List.find (\<lambda>c. bc_candidate_id c = candidate_id) (bs_candidates (ar_benchmark run)) of
              Some c \<Rightarrow> Inr (Some (rv, bc_source c))
            | None \<Rightarrow> select_escape runs candidate_id rvs)"

text \<open>
  A piece of a source that exits the interpreter ends the whole call: the predicate catches \<open>Exception\<close>
  around the execution only.
\<close>

definition minimize_counterexample :: "coverage_world \<Rightarrow> string \<Rightarrow> string \<Rightarrow> json svc" where
  "minimize_counterexample w challenge candidate_id =
    (case challenge_of challenge of
       None \<Rightarrow> invalid_scope ''unsupported challenge''
     | Some c \<Rightarrow>
       svc_then (lift (select_escape (coverage_run w c) candidate_id policy_revisions)) (\<lambda>selected.
         case selected of
           None \<Rightarrow> service_fail ''UNKNOWN_COUNTEREXAMPLE'' ''counterexample is not a package-owned observed escape'' 404 None
         | Some (rn, source) \<Rightarrow>
           let predicate = escape_of w c rn in
           svc_then (lift (and_then (make_budget (JInt 128) True) (\<lambda>m. minimize_lines m (cv_late w) source predicate))) (\<lambda>result.
           svc_then (lift (predicate (mr_source result))) (\<lambda>escapes.
             if \<not> escapes
             then service_fail ''MINIMIZATION_VERIFICATION_FAILED'' ''minimized source no longer reproduces the escape'' 409 None
             else Inr (JObj
              [(''challenge'', JStr (challenge_value c)),
               (''candidate_id'', JStr candidate_id),
               (''policy_revision'', JInt rn),
               (''original_sha256'', JStr (sha256_hex source)),
               (''minimized_sha256'', JStr (sha256_hex (mr_source result))),
               (''minimized_source'', JStr (mr_source result)),
               (''status'', JStr (case mr_status result of
                  MINIMAL_UNDER_CONFIGURED_GRANULARITY \<Rightarrow> ''MINIMAL_UNDER_CONFIGURED_GRANULARITY''
                | REDUCED_COUNTEREXAMPLE \<Rightarrow> ''REDUCED_COUNTEREXAMPLE'')),
               (''evaluations'', JInt (int (mr_evaluations result))),
               (''removed_lines'', JInt (int (mr_removed_lines result))),
               (''verified_escape'', JBool True),
               (''authority'', JStr ''MEASUREMENT_ONLY'')])))))"

section \<open>Lemmas: the comparison\<close>

lemma signature_of_signed:
  assumes "verify_signed_coverage_comparison_receipt sm verify = Inr ()"
  shows "signature_matches (comparison_to_dict (sm_receipt sm)) (envelope_of_dict (envelope_to_dict (sm_signature sm))) verify = Inr True"
proof -
  have "envelope_of_dict (envelope_to_dict e) = e" for e by (simp add: envelope_of_dict_def envelope_to_dict_def)
  moreover have "verify_json (comparison_to_dict (sm_receipt sm)) (sm_signature sm) verify = Inr True"
    using assms by (auto simp: verify_signed_coverage_comparison_receipt_def and_then_Inr split: if_splits)
  ultimately show ?thesis
    by (auto simp: verify_json_def signature_matches_def Let_def and_then_Inr compare_digest_def split: if_splits option.splits)
qed

lemma runner_for_value:
  "runner_for (challenge_value c) tenant path =
     Inr (case c of CrossTenantChallenge \<Rightarrow> (''cross-tenant-authorization'', tenant)
          | PathTraversalChallenge \<Rightarrow> (''path-traversal-containment'', path))"
  by (cases c) (simp_all add: runner_for_def)

lemma comparison_of_runs:
  assumes "coverage_run w c 1 = Inr r1" "coverage_run w c 2 = Inr r2" "coverage_run w c 3 = Inr r3"
  shows "\<exists>payload sm. build_reference_demo_payload (cv_float w) (tenant_arena w) (path_arena w) (challenge_value c) = Inr payload \<and>
    obj_get payload ''oracle_qualified'' = JBool True \<and>
    obj_get (obj_get payload ''tradeoff'') ''signed_comparison_receipt'' = signed_comparison_to_dict sm \<and>
    obj_get (obj_get payload ''tradeoff'') ''points'' = JList (cm_points (sm_receipt sm)) \<and>
    verify_signed_coverage_comparison_receipt sm (hmac_verify comparison_secret comparison_key) = Inr () \<and>
    list_all2 (\<lambda>r p. obj_get p ''policy_sha256'' = JStr (sc_policy_sha256 (run_scope r)) \<and>
      obj_get p ''escapes'' = JInt (escapes (ar_counts r)) \<and> obj_get p ''overblocks'' = JInt (overblocks (ar_counts r)))
      [r1, r2, r3] (cm_points (sm_receipt sm))"
proof (cases c)
  case CrossTenantChallenge
  have r: "runner_for (challenge_value c) (tenant_arena w) (path_arena w) =
      Inr (''cross-tenant-authorization'', run_reference_arena (cv_float w) (cv_exec_tenant w) (tenant_of w))"
    unfolding runner_for_value by (simp add: CrossTenantChallenge tenant_arena_def)
  have a: "run_reference_arena (cv_float w) (cv_exec_tenant w) (tenant_of w) 1 = Inr r1"
    "run_reference_arena (cv_float w) (cv_exec_tenant w) (tenant_of w) 2 = Inr r2"
    "run_reference_arena (cv_float w) (cv_exec_tenant w) (tenant_of w) 3 = Inr r3"
    using assms by (simp_all add: coverage_run_def CrossTenantChallenge tenant_arena_def)
  from comparison_completes[OF a r] show ?thesis by blast
next
  case PathTraversalChallenge
  have r: "runner_for (challenge_value c) (tenant_arena w) (path_arena w) =
      Inr (''path-traversal-containment'', run_reference_arena (cv_float w) (cv_exec_path w) (path_of w))"
    unfolding runner_for_value by (simp add: PathTraversalChallenge path_arena_def)
  have a: "run_reference_arena (cv_float w) (cv_exec_path w) (path_of w) 1 = Inr r1"
    "run_reference_arena (cv_float w) (cv_exec_path w) (path_of w) 2 = Inr r2"
    "run_reference_arena (cv_float w) (cv_exec_path w) (path_of w) 3 = Inr r3"
    using assms by (simp_all add: coverage_run_def PathTraversalChallenge path_arena_def)
  from comparison_completes[OF a r] show ?thesis by blast
qed

lemma challenge_of_value [simp]: "challenge_of (challenge_value c) = Some c"
  by (cases c) (simp_all add: challenge_of_def)

lemma challenge_of_Some: "challenge_of s = Some c \<Longrightarrow> s = challenge_value c"
  by (auto simp: challenge_of_def split: if_splits)

lemma compare_revisions_answers:
  assumes "coverage_run w c 1 = Inr r1" "coverage_run w c 2 = Inr r2" "coverage_run w c 3 = Inr r3"
  shows "\<exists>answer points. compare_gate_revisions w (challenge_value c) = Inr answer \<and>
    obj_get answer ''comparison_receipt_verified'' = JBool True \<and> obj_get answer ''oracle_qualified'' = JBool True \<and>
    obj_get answer ''authority'' = JStr ''MEASUREMENT_ONLY'' \<and> obj_get answer ''revisions'' = JList points \<and>
    list_all2 (\<lambda>r p. obj_get p ''policy_sha256'' = JStr (sc_policy_sha256 (run_scope r)) \<and>
      obj_get p ''escapes'' = JInt (escapes (ar_counts r)) \<and> obj_get p ''overblocks'' = JInt (overblocks (ar_counts r)))
      [r1, r2, r3] points"
proof -
  from comparison_of_runs[OF assms] obtain payload sm where p:
    "build_reference_demo_payload (cv_float w) (tenant_arena w) (path_arena w) (challenge_value c) = Inr payload"
    "obj_get payload ''oracle_qualified'' = JBool True"
    "obj_get (obj_get payload ''tradeoff'') ''signed_comparison_receipt'' = signed_comparison_to_dict sm"
    "obj_get (obj_get payload ''tradeoff'') ''points'' = JList (cm_points (sm_receipt sm))"
    "verify_signed_coverage_comparison_receipt sm (hmac_verify comparison_secret comparison_key) = Inr ()"
    "list_all2 (\<lambda>r p. obj_get p ''policy_sha256'' = JStr (sc_policy_sha256 (run_scope r)) \<and>
      obj_get p ''escapes'' = JInt (escapes (ar_counts r)) \<and> obj_get p ''overblocks'' = JInt (overblocks (ar_counts r)))
      [r1, r2, r3] (cm_points (sm_receipt sm))" by blast
  have key: "ok (hmac_signer comparison_secret comparison_key)"
    by (simp add: hmac_signer_def comparison_secret_def comparison_key_def)
  have match: "and_then (hmac_signer comparison_secret comparison_key) (\<lambda>_.
      signature_matches (comparison_to_dict (sm_receipt sm)) (envelope_of_dict (envelope_to_dict (sm_signature sm)))
        (hmac_verify comparison_secret comparison_key)) = Inr True"
    using key signature_of_signed[OF p(5)] by (auto simp: ok_iff)
  have sm: "obj_get (signed_comparison_to_dict sm) ''receipt'' = comparison_to_dict (sm_receipt sm)"
    "obj_get (signed_comparison_to_dict sm) ''signature'' = envelope_to_dict (sm_signature sm)"
    by (simp_all add: signed_comparison_to_dict_def)
  let ?points = "map revision_point (cm_points (sm_receipt sm))"
  have "list_all2 (\<lambda>r p. obj_get p ''policy_sha256'' = JStr (sc_policy_sha256 (run_scope r)) \<and>
      obj_get p ''escapes'' = JInt (escapes (ar_counts r)) \<and> obj_get p ''overblocks'' = JInt (overblocks (ar_counts r)))
      [r1, r2, r3] ?points"
    unfolding list_all2_map2 by (rule list_all2_mono[OF p(6)]) (simp add: revision_point_def)
  moreover have "\<exists>answer. compare_gate_revisions w (challenge_value c) = Inr answer \<and>
      obj_get answer ''comparison_receipt_verified'' = JBool True \<and> obj_get answer ''oracle_qualified'' = JBool True \<and>
      obj_get answer ''authority'' = JStr ''MEASUREMENT_ONLY'' \<and> obj_get answer ''revisions'' = JList ?points"
    unfolding compare_gate_revisions_def challenge_of_value option.case p(1) svc_simps Let_def p(3) sm match p(4)
    by (simp add: p(2))
  ultimately show ?thesis by blast
qed


section \<open>Lemmas: counterexamples\<close>

text \<open>The candidates of a suite have distinct identifiers.\<close>

lemma map_lower_kind [simp]: "map ascii_lower (kind_text SafeKind) = ''safe''" "map ascii_lower (kind_text UnsafeKind) = ''unsafe''"
  by code_simp+

lemma candidate_id_inj:
  assumes "bc_candidate_id (make_candidate p k x) = bc_candidate_id (make_candidate p k' y)"
  shows "k = k' \<and> fst x = fst y"
proof -
  have id: "bc_candidate_id (make_candidate p k x) =
      p @ (map ascii_lower (kind_text k) @ ''-'' @ fst x) @ (''-'' @ take 12 (sha256_hex (snd x)))" for k and x :: "string \<times> string"
    by (simp add: make_candidate_def case_prod_beta Let_def)
  let ?head = "\<lambda>k x :: string \<times> string. map ascii_lower (kind_text k) @ ''-'' @ fst x"
  let ?tail = "\<lambda>x :: string \<times> string. ''-'' @ take 12 (sha256_hex (snd x))"
  have "?head k x @ ?tail x = ?head k' y @ ?tail y" using assms unfolding id by (rule same_append_eq[THEN iffD1])
  moreover have "length (?tail x) = length (?tail y)" by simp
  ultimately have "?head k x = ?head k' y" using append_eq_append_conv[of "?head k x" "?head k' y" "?tail x" "?tail y"] by blast
  then show ?thesis by (cases k; cases k') (simp_all del: kind_text.simps)
qed

lemma suite_ids_distinct:
  assumes "distinct (map fst safe)" "distinct (map fst unsafe)"
  shows "distinct (map bc_candidate_id (bs_candidates (make_suite ch g b p safe unsafe)))"
proof -
  have "distinct (map (\<lambda>x. bc_candidate_id (make_candidate p k x)) xs)" if "distinct (map fst xs)" for k xs
    using that by (induction xs) (auto dest: candidate_id_inj)
  then show ?thesis
    using assms by (auto simp: make_suite_def Let_def comp_def dest: candidate_id_inj)
qed

lemma world_ids_distinct:
  assumes "coverage_run w c rv = Inr run"
  shows "distinct (map bc_candidate_id (bs_candidates (ar_benchmark run)))"
proof (cases c)
  case CrossTenantChallenge
  then have "run_reference_arena (cv_float w) (cv_exec_tenant w) (tenant_of w) rv = Inr run"
    using assms by (simp add: coverage_run_def tenant_arena_def)
  from arena_scope_of[OF this] have "cd_benchmark (tenant_of w) = Inr (ar_benchmark run)" by blast
  then obtain safe unsafe where "distinct (map fst safe)" "distinct (map fst unsafe)"
    "ar_benchmark run = make_suite ''cross-tenant-authorization'' ''cross-tenant-benchmark-v3'' tenant_base_fixed ''candidate-'' safe unsafe"
    by (auto simp: tenant_of_def cross_tenant_def case_prod_beta generate_cross_tenant_benchmark_def and_then_Inr
        load_tenant_cases_def dest!: load_case_file_Inr)
  then show ?thesis by (simp only: suite_ids_distinct)
next
  case PathTraversalChallenge
  then have "run_reference_arena (cv_float w) (cv_exec_path w) (path_of w) rv = Inr run"
    using assms by (simp add: coverage_run_def path_arena_def)
  from arena_scope_of[OF this] have "cd_benchmark (path_of w) = Inr (ar_benchmark run)" by blast
  then obtain safe unsafe where "distinct (map fst safe)" "distinct (map fst unsafe)"
    "ar_benchmark run = make_suite ''path-traversal-containment'' ''path-traversal-benchmark-v1'' path_base_fixed ''candidate-path-'' safe unsafe"
    by (auto simp: path_of_def path_traversal_def case_prod_beta generate_path_traversal_benchmark_def and_then_Inr
        load_path_cases_def dest!: load_case_file_Inr)
  then show ?thesis by (simp only: suite_ids_distinct)
qed

text \<open>An escape of a run is an escape of the predicate on the candidate's source.\<close>

lemma arena_escape:
  assumes "run_reference_arena fl exec_source d rv = Inr run" "cid \<in> escape_ids run"
  shows "\<exists>c\<in>set (bs_candidates (ar_benchmark run)). bc_candidate_id c = cid \<and> escape_predicate exec_source d rv (bc_source c) = Inr True"
proof -
  obtain m where m: "m \<in> set (ar_measurements run)" "rm_classification m = ESCAPE" "rm_candidate_id m = cid"
    using assms(2) by (auto simp: escape_ids_def)
  from arena_measurements[OF assms(1) m(1)] obtain f c where
    c: "c \<in> set (bs_candidates (ar_benchmark run))" "good_measurement exec_source d rv f c m" by blast
  then have cls: "candidate_class exec_source d rv c ESCAPE" and id: "bc_candidate_id c = cid"
    using m by (auto simp: good_measurement_def)
  obtain g where g: "load_candidate exec_source (cd_symbol d) c = Inr g"
    using cls by (cases "load_candidate exec_source (cd_symbol d) c") (auto simp: candidate_class_def)
  then obtain gd h e where k: "cd_gate d g (bc_source c) rv = Inr (gd, h)" "evaluate_callable (cd_oracle d) g = Inr e"
    "classify_observation VALID (Some gd) (Some (oe_verdict e)) = Inr ESCAPE"
    using cls by (auto simp: candidate_class_def)
  then have "gd = GO" "oe_verdict e = UNSAFE"
    by (cases gd; cases "oe_verdict e"; simp add: classify_observation_def)+
  moreover obtain namespace where "exec_source (bc_source c) = Inr namespace" "namespace (cd_symbol d) = Some g"
    using g by (auto simp: load_candidate_def and_then_Inr split: option.splits)
  ultimately have "escape_predicate exec_source d rv (bc_source c) = Inr True"
    using k by (simp add: escape_predicate_def)
  then show ?thesis using c(1) id by blast
qed

lemma escape_predicate_True:
  "escape_predicate exec_source d rv (bc_source c) = Inr True \<longleftrightarrow>
   (\<exists>g h e. load_candidate exec_source (cd_symbol d) c = Inr g \<and> cd_gate d g (bc_source c) rv = Inr (GO, h) \<and>
      evaluate_callable (cd_oracle d) g = Inr e \<and> oe_verdict e = UNSAFE)"
  by (auto simp: escape_predicate_def load_candidate_def and_then_Inr split: sum.splits option.splits if_splits)

lemma arena_escape_ids:
  assumes "run_reference_arena fl exec_source d rv = Inr run"
  shows "escape_ids run = bc_candidate_id `
    {c \<in> set (bs_candidates (ar_benchmark run)). escape_predicate exec_source d rv (bc_source c) = Inr True}"
proof
  show "escape_ids run \<subseteq> bc_candidate_id `
      {c \<in> set (bs_candidates (ar_benchmark run)). escape_predicate exec_source d rv (bc_source c) = Inr True}"
    using arena_escape[OF assms] by blast
  have "bc_candidate_id c \<in> escape_ids run"
    if c: "c \<in> set (bs_candidates (ar_benchmark run))" and p: "escape_predicate exec_source d rv (bc_source c) = Inr True" for c
  proof -
    from p obtain g h e where g: "load_candidate exec_source (cd_symbol d) c = Inr g" "cd_gate d g (bc_source c) rv = Inr (GO, h)"
      "evaluate_callable (cd_oracle d) g = Inr e" "oe_verdict e = UNSAFE" unfolding escape_predicate_True by blast
    from arena_Inr[OF assms] obtain q f measured where
      l: "list_all2 (\<lambda>c x. measure_candidate exec_source d q f rv c = Inr x) (bs_candidates (ar_benchmark run)) measured"
      and ms: "ar_measurements run = List.map_filter snd measured" by (auto simp: map_res_Inr)
    obtain i where i: "i < length (bs_candidates (ar_benchmark run))" "bs_candidates (ar_benchmark run) ! i = c"
      using c by (auto simp: in_set_conv_nth)
    obtain ob m where om: "measured ! i = (ob, m)" by (cases "measured ! i")
    have "measure_candidate exec_source d q f rv c = Inr (ob, m)" "i < length measured"
      using l i om by (auto simp: list_all2_conv_all_nth)
    moreover from this(1) g(1) obtain x where x: "m = Some x" by (auto simp: measure_candidate_def Let_def and_then_Inr)
    ultimately have good: "good_measurement exec_source d rv f c x" using measure_candidate_Inr(2) by blast
    have "rm_classification x = ESCAPE"
      using good g by (auto simp: good_measurement_def candidate_class_def classify_observation_def)
    moreover have "x \<in> set (ar_measurements run)"
      using nth_mem[OF \<open>i < length measured\<close>] om x unfolding ms by (force simp: List.map_filter_def)
    ultimately show ?thesis using good by (force simp: escape_ids_def good_measurement_def)
  qed
  then show "bc_candidate_id ` {c \<in> set (bs_candidates (ar_benchmark run)). escape_predicate exec_source d rv (bc_source c) = Inr True}
      \<subseteq> escape_ids run" by blast
qed

lemma world_escape_ids:
  assumes "coverage_run w c rv = Inr run"
  shows "escape_ids run = bc_candidate_id ` {b \<in> set (bs_candidates (ar_benchmark run)). escape_of w c rv (bc_source b) = Inr True}"
proof (cases c)
  case CrossTenantChallenge
  then have "run_reference_arena (cv_float w) (cv_exec_tenant w) (tenant_of w) rv = Inr run"
    using assms(1) by (simp add: coverage_run_def tenant_arena_def)
  from arena_escape_ids[OF this] show ?thesis by (simp add: CrossTenantChallenge escape_of_def)
next
  case PathTraversalChallenge
  then have "run_reference_arena (cv_float w) (cv_exec_path w) (path_of w) rv = Inr run"
    using assms(1) by (simp add: coverage_run_def path_arena_def)
  from arena_escape_ids[OF this] show ?thesis by (simp add: PathTraversalChallenge escape_of_def)
qed

lemma world_escape:
  assumes "coverage_run w c rv = Inr run" "cid \<in> escape_ids run"
  shows "\<exists>b\<in>set (bs_candidates (ar_benchmark run)). bc_candidate_id b = cid \<and> escape_of w c rv (bc_source b) = Inr True"
  using world_escape_ids[OF assms(1)] assms(2) by auto

lemma find_candidate:
  assumes "distinct (map bc_candidate_id cs)" "b \<in> set cs" "bc_candidate_id b = cid"
  shows "List.find (\<lambda>c. bc_candidate_id c = cid) cs = Some b"
  using assms by (induction cs) (auto simp: image_iff)

lemma same_benchmark:
  assumes "coverage_run w c rv = Inr run" "coverage_run w c rv' = Inr run'"
  shows "ar_benchmark run' = ar_benchmark run"
proof (cases c)
  case CrossTenantChallenge
  then have "run_reference_arena (cv_float w) (cv_exec_tenant w) (tenant_of w) rv = Inr run"
    "run_reference_arena (cv_float w) (cv_exec_tenant w) (tenant_of w) rv' = Inr run'"
    using assms by (simp_all add: coverage_run_def tenant_arena_def)
  then show ?thesis by (rule runs_share_scope(3))
next
  case PathTraversalChallenge
  then have "run_reference_arena (cv_float w) (cv_exec_path w) (path_of w) rv = Inr run"
    "run_reference_arena (cv_float w) (cv_exec_path w) (path_of w) rv' = Inr run'"
    using assms by (simp_all add: coverage_run_def path_arena_def)
  then show ?thesis by (rule runs_share_scope(3))
qed

text \<open>What is selected: the first revision under which the candidate escapes, with its source.\<close>

lemma select_escape_Some:
  assumes "select_escape (coverage_run w c) cid rvs = Inr (Some (rv, src))"
  shows "rv \<in> set rvs \<and> escape_of w c rv src = Inr True \<and>
    (\<exists>run b. coverage_run w c rv = Inr run \<and> cid \<in> escape_ids run \<and> b \<in> set (bs_candidates (ar_benchmark run)) \<and>
       bc_candidate_id b = cid \<and> bc_source b = src)"
  using assms
proof (induction rvs)
  case (Cons n rvs)
  then obtain run where run: "coverage_run w c n = Inr run" by (auto simp: and_then_Inr)
  show ?case
  proof (cases "cid \<in> escape_ids run")
    case True
    from world_escape[OF run True] obtain b where b: "b \<in> set (bs_candidates (ar_benchmark run))" "bc_candidate_id b = cid"
      "escape_of w c n (bc_source b) = Inr True" by blast
    have "List.find (\<lambda>x. bc_candidate_id x = cid) (bs_candidates (ar_benchmark run)) = Some b"
      by (rule find_candidate[OF world_ids_distinct[OF run] b(1,2)])
    then have "rv = n" "src = bc_source b" using Cons.prems run True by simp_all
    then show ?thesis using run True b by auto
  next
    case False
    then show ?thesis using Cons run by auto
  qed
qed simp

lemma select_escape_found:
  assumes "coverage_run w c rv = Inr run" "cid \<in> escape_ids run" "rv \<in> set rvs" "\<forall>n\<in>set rvs. ok (coverage_run w c n)"
  shows "\<exists>x. select_escape (coverage_run w c) cid rvs = Inr (Some x)"
  using assms(3,4)
proof (induction rvs)
  case (Cons n rvs)
  obtain r where r: "coverage_run w c n = Inr r" using Cons.prems(2) by (auto simp: ok_iff)
  show ?case
  proof (cases "cid \<in> escape_ids r")
    case True
    from world_escape[OF r True] obtain b where b: "b \<in> set (bs_candidates (ar_benchmark r))" "bc_candidate_id b = cid" by blast
    then show ?thesis using r True find_candidate[OF world_ids_distinct[OF r] b] by simp
  next
    case False
    then have "n \<noteq> rv" using r assms(1,2) by auto
    then show ?thesis using Cons r False by simp
  qed
qed simp

lemma minimize_counterexample_Inr:
  assumes "minimize_counterexample w challenge cid = Inr answer"
  shows "\<exists>c rv run b ls. challenge = challenge_value c \<and> rv \<in> {1, 2, 3} \<and> coverage_run w c rv = Inr run \<and> cid \<in> escape_ids run \<and>
    b \<in> set (bs_candidates (ar_benchmark run)) \<and> bc_candidate_id b = cid \<and>
    obj_get answer ''policy_revision'' = JInt rv \<and> obj_get answer ''minimized_source'' = JStr (concat ls) \<and>
    subseq ls (lines_keep (bc_source b)) \<and> escape_of w c rv (concat ls) = Inr True \<and>
    (\<exists>n \<le> 128. obj_get answer ''evaluations'' = JInt n)"
proof -
  obtain c rv src r where c: "challenge_of challenge = Some c"
    and s: "select_escape (coverage_run w c) cid policy_revisions = Inr (Some (rv, src))"
    and r: "minimize_lines 128 (cv_late w) src (escape_of w c rv) = Inr r"
    and a: "obj_get answer ''policy_revision'' = JInt rv" "obj_get answer ''minimized_source'' = JStr (mr_source r)"
      "obj_get answer ''evaluations'' = JInt (int (mr_evaluations r))"
    using assms
    by (auto simp: minimize_counterexample_def invalid_scope_def svc_then_Inr lift_Inr and_then_Inr make_budget_def Let_def
        split: option.splits if_splits)
  from minimize_lines_Inr[OF r] obtain ls where ls: "mr_source r = concat ls" "subseq ls (lines_keep src)"
    "escape_of w c rv (mr_source r) = Inr True" "mr_evaluations r \<le> 128" by blast
  from select_escape_Some[OF s] obtain run b where sel: "rv \<in> {1, 2, 3}" "coverage_run w c rv = Inr run" "cid \<in> escape_ids run"
    "b \<in> set (bs_candidates (ar_benchmark run))" "bc_candidate_id b = cid" "bc_source b = src"
    by (auto simp: policy_revisions_def)
  show ?thesis
    using challenge_of_Some[OF c] sel a ls
    by (intro exI[of _ c] exI[of _ rv] exI[of _ run] exI[of _ b] exI[of _ ls] conjI exI[of _ "int (mr_evaluations r)"]) simp_all
qed

text \<open>A listed escape is minimized, unless the predicate raises on a part of the candidate.\<close>

lemma minimize_counterexample_outcome:
  assumes "coverage_run w c rv = Inr run" "cid \<in> escape_ids run" "rv \<in> {1, 2, 3}" "\<forall>n\<in>{1, 2, 3}. ok (coverage_run w c n)"
    and "\<not> cv_late w 0"
  shows "(\<exists>answer. minimize_counterexample w (challenge_value c) cid = Inr answer) \<or>
    (\<exists>e n run b ls. minimize_counterexample w (challenge_value c) cid = Inl (Raised e) \<and> n \<in> {1, 2, 3} \<and> coverage_run w c n = Inr run \<and>
       b \<in> set (bs_candidates (ar_benchmark run)) \<and> bc_candidate_id b = cid \<and> subseq ls (lines_keep (bc_source b)) \<and>
       escape_of w c n (concat ls) = Inl e)"
proof -
  obtain n src where s: "select_escape (coverage_run w c) cid policy_revisions = Inr (Some (n, src))"
    using select_escape_found[OF assms(1,2), of policy_revisions] assms(3,4) by (auto simp: policy_revisions_def)
  from select_escape_Some[OF s] obtain run' b where sel: "n \<in> {1, 2, 3}" "coverage_run w c n = Inr run'"
    "b \<in> set (bs_candidates (ar_benchmark run'))" "bc_candidate_id b = cid" "bc_source b = src" "escape_of w c n src = Inr True"
    by (auto simp: policy_revisions_def)
  show ?thesis
  proof (cases "minimize_lines 128 (cv_late w) src (escape_of w c n)")
    case (Inl e)
    then obtain ls where ls: "subseq ls (lines_keep src)" "escape_of w c n (concat ls) = Inl e"
      using minimize_lines_outcome[of 128 "cv_late w" "escape_of w c n" src] assms(5) sel(6) by (auto simp: ok_iff)
    have "minimize_counterexample w (challenge_value c) cid = Inl (Raised e)"
      using s Inl by (simp add: minimize_counterexample_def make_budget_def svc_then_def lift_def Let_def)
    then show ?thesis using sel ls by blast
  next
    case (Inr r)
    then have "escape_of w c n (mr_source r) = Inr True" using minimize_lines_Inr by blast
    then show ?thesis using s Inr by (simp add: minimize_counterexample_def make_budget_def Let_def)
  qed
qed

text \<open>The listed counterexamples are the escapes of the run.\<close>

lemma find_counterexamples_Inr:
  assumes "find_counterexamples w challenge rv = Inr answer"
  shows "\<exists>c run rows. challenge = challenge_value c \<and> rv \<in> {1, 2, 3} \<and> coverage_run w c rv = Inr run \<and>
    obj_get answer ''counterexamples'' = JList rows \<and>
    (\<lambda>r. obj_get r ''candidate_id'') ` set rows = JStr ` escape_ids run"
proof -
  obtain c run where c: "challenge_of challenge = Some c" "rv \<in> {1, 2, 3}" "coverage_run w c rv = Inr run"
    and a: "obj_get answer ''counterexamples'' = JList (map (counterexample_row rv) (filter (\<lambda>m. rm_classification m = ESCAPE) (ar_measurements run)))"
    using assms by (auto simp: find_counterexamples_def coverage_scope_of_def invalid_scope_def policy_revisions_def svc_then_Inr lift_Inr
        split: option.splits if_splits)
  have "(\<lambda>r. obj_get r ''candidate_id'') ` set (map (counterexample_row rv) (filter (\<lambda>m. rm_classification m = ESCAPE) (ar_measurements run))) =
      JStr ` escape_ids run"
    by (auto simp: counterexample_row_def escape_ids_def image_image)
  then show ?thesis using challenge_of_Some[OF c(1)] c(2,3) a by blast
qed

end
