(* ===== verification/Coverage_Service_Claims.thy ===== *)
theory Coverage_Service_Claims
  imports Arena_Claims Coverage_Claims Coverage_Service
begin

text \<open>
  The properties of the coverage service: its comparison is always a verified one, and its
  counterexamples are exactly the escapes and can be minimized.
\<close>

section \<open>A sample world\<close>

definition demo_coverage :: coverage_world where
  "demo_coverage = \<lparr>cv_float = (\<lambda>x. FRepr ''0.5''),
     cv_tenant_docs = (demo_challenge, one_case ''s'' ''def can_read(): safe'', one_case ''u'' ''def can_read(): prefix''),
     cv_path_docs = (JNull, JNull, JNull), cv_walk = (\<lambda>s. Inr []), cv_exec_tenant = demo_exec,
     cv_exec_path = (\<lambda>s. raise ValueError ''no path candidates''), cv_late = (\<lambda>t. False)\<rparr>"

lemma demo_coverage_run: "coverage_run demo_coverage CrossTenantChallenge rv = run_reference_arena (\<lambda>x. FRepr ''0.5'') demo_exec demo_arena rv"
  by (simp add: coverage_run_def tenant_arena_def tenant_of_def demo_coverage_def demo_arena_def)

lemma demo_coverage_runs: "rv \<in> {1, 2, 3} \<Longrightarrow> ok (coverage_run demo_coverage CrossTenantChallenge rv)"
  using demo_run by (auto simp: demo_coverage_run ok_iff)

text \<open>The comparison of the revisions is whole.  Whenever the arena of a challenge runs at its three
  revisions, the comparison is answered: the scopes agree, the paired tests and their correction are
  defined, the receipt is built, signed and verified again from its published form, and the answer
  lists for each revision the policy, the escapes and the overblocks of its run.\<close>

lemma comparison_is_answered:
  assumes "coverage_run w c 1 = Inr r1" "coverage_run w c 2 = Inr r2" "coverage_run w c 3 = Inr r3"
  shows "\<exists>answer points. compare_gate_revisions w (challenge_value c) = Inr answer \<and>
    obj_get answer ''comparison_receipt_verified'' = JBool True \<and> obj_get answer ''oracle_qualified'' = JBool True \<and>
    obj_get answer ''authority'' = JStr ''MEASUREMENT_ONLY'' \<and> obj_get answer ''revisions'' = JList points \<and>
    list_all2 (\<lambda>r p. obj_get p ''policy_sha256'' = JStr (sc_policy_sha256 (run_scope r)) \<and>
      obj_get p ''escapes'' = JInt (escapes (ar_counts r)) \<and> obj_get p ''overblocks'' = JInt (overblocks (ar_counts r)))
      [r1, r2, r3] points"
  using assms by (rule compare_revisions_answers)

lemma comparison_is_answered_instance:
  "\<exists>answer. compare_gate_revisions demo_coverage ''cross-tenant'' = Inr answer \<and>
     obj_get answer ''comparison_receipt_verified'' = JBool True"
proof -
  obtain r1 r2 r3 where "coverage_run demo_coverage CrossTenantChallenge 1 = Inr r1"
    "coverage_run demo_coverage CrossTenantChallenge 2 = Inr r2" "coverage_run demo_coverage CrossTenantChallenge 3 = Inr r3"
    using demo_coverage_runs[of 1] demo_coverage_runs[of 2] demo_coverage_runs[of 3] by (auto simp: ok_iff)
  from comparison_is_answered[OF this] show ?thesis unfolding challenge_value.simps by blast
qed

text \<open>How a request to minimize a listed candidate ends.\<close>

definition minimized :: "coverage_world \<Rightarrow> challenge_id \<Rightarrow> arena_run \<Rightarrow> string \<Rightarrow> bool" where
  "minimized w c run cid \<longleftrightarrow>
    (\<exists>n b ls. n \<in> {1, 2, 3} \<and> b \<in> set (bs_candidates (ar_benchmark run)) \<and> bc_candidate_id b = cid \<and>
       subseq ls (lines_keep (bc_source b)) \<and>
       ((\<exists>answer. minimize_counterexample w (challenge_value c) cid = Inr answer \<and>
           obj_get answer ''policy_revision'' = JInt n \<and> obj_get answer ''minimized_source'' = JStr (concat ls) \<and>
           escape_of w c n (concat ls) = Inr True \<and> (\<exists>k \<le> 128. obj_get answer ''evaluations'' = JInt k)) \<or>
        (\<exists>e. minimize_counterexample w (challenge_value c) cid = Inl (Raised e) \<and> escape_of w c n (concat ls) = Inl e)))"

lemma escape_is_minimized:
  assumes "\<And>n. n \<in> {1, 2, 3} \<Longrightarrow> ok (coverage_run w c n)" "coverage_run w c rv = Inr run" "cid \<in> escape_ids run"
    and "rv \<in> {1, 2, 3}" "\<not> cv_late w 0"
  shows "minimized w c run cid"
proof -
  from minimize_counterexample_outcome[OF assms(2,3,4) _ assms(5)] assms(1)
  consider (answered) m where "minimize_counterexample w (challenge_value c) cid = Inr m"
    | (failed) e n run' b ls where "minimize_counterexample w (challenge_value c) cid = Inl (Raised e)" "n \<in> {1, 2, 3}"
        "coverage_run w c n = Inr run'" "b \<in> set (bs_candidates (ar_benchmark run'))" "bc_candidate_id b = cid"
        "subseq ls (lines_keep (bc_source b))" "escape_of w c n (concat ls) = Inl e"
    by blast
  then show ?thesis
  proof cases
    case answered
    from minimize_counterexample_Inr[OF answered] obtain c' n run' b ls where
      x: "challenge_value c = challenge_value c'" "n \<in> {1, 2, 3}" "coverage_run w c' n = Inr run'"
      and y: "b \<in> set (bs_candidates (ar_benchmark run'))" "bc_candidate_id b = cid"
        "obj_get m ''policy_revision'' = JInt n" "obj_get m ''minimized_source'' = JStr (concat ls)"
        "subseq ls (lines_keep (bc_source b))" "escape_of w c' n (concat ls) = Inr True"
        "\<exists>k \<le> 128. obj_get m ''evaluations'' = JInt k" by blast
    have c': "c' = c" using x(1) by (cases c; cases c') simp_all
    have bench: "ar_benchmark run' = ar_benchmark run" using same_benchmark[OF assms(2)] x(3) unfolding c' by blast
    show ?thesis
      unfolding minimized_def
      by (rule exI[of _ n], rule exI[of _ b], rule exI[of _ ls], use answered x(2) y in \<open>simp add: bench c'\<close>)
  next
    case failed
    have bench: "ar_benchmark run' = ar_benchmark run" using same_benchmark[OF assms(2)] failed(3) by blast
    show ?thesis
      unfolding minimized_def
      by (rule exI[of _ n], rule exI[of _ b], rule exI[of _ ls], use failed in \<open>simp add: bench\<close>)
  qed
qed

text \<open>Property C30. Counterexamples are exact and minimizable.  If the arena of a challenge runs at its three
  revisions, the identifiers listed for a revision are those of the benchmark candidates that this gate
  lets through and the oracle holds for unsafe.  A request to minimize one of them, the clock being inside the
  time limit at its first reading, ends in one of two ways: with an answer, which names a revision and a source
  obtained from the candidate's by deleting lines that still passes that gate and fails the oracle, after at most
  128 evaluations; or with the exception that the escape test raised on such a part of the candidate, as on one
  that exits the interpreter.\<close>

theorem counterexamples_are_exact_and_minimizable:
  assumes "\<And>n. n \<in> {1, 2, 3} \<Longrightarrow> ok (coverage_run w c n)" "rv \<in> {1, 2, 3}" "\<not> cv_late w 0"
  shows "\<exists>answer run rows. find_counterexamples w (challenge_value c) rv = Inr answer \<and> coverage_run w c rv = Inr run \<and>
    obj_get answer ''counterexamples'' = JList rows \<and>
    (\<lambda>r. obj_get r ''candidate_id'') ` set rows =
      (\<lambda>b. JStr (bc_candidate_id b)) ` {b \<in> set (bs_candidates (ar_benchmark run)). escape_of w c rv (bc_source b) = Inr True} \<and>
    (\<forall>r\<in>set rows. \<forall>cid. obj_get r ''candidate_id'' = JStr cid \<longrightarrow>
       (\<exists>n b ls. n \<in> {1, 2, 3} \<and> b \<in> set (bs_candidates (ar_benchmark run)) \<and> bc_candidate_id b = cid \<and>
          subseq ls (lines_keep (bc_source b)) \<and>
          ((\<exists>answer. minimize_counterexample w (challenge_value c) cid = Inr answer \<and>
              obj_get answer ''policy_revision'' = JInt n \<and> obj_get answer ''minimized_source'' = JStr (concat ls) \<and>
              escape_of w c n (concat ls) = Inr True \<and> (\<exists>k \<le> 128. obj_get answer ''evaluations'' = JInt k)) \<or>
           (\<exists>e. minimize_counterexample w (challenge_value c) cid = Inl (Raised e) \<and> escape_of w c n (concat ls) = Inl e))))"
proof -
  obtain run where run: "coverage_run w c rv = Inr run" using assms(1,2) by (auto simp: ok_iff)
  then have "\<exists>answer. find_counterexamples w (challenge_value c) rv = Inr answer"
    using assms(2) by (auto simp: find_counterexamples_def coverage_scope_of_def policy_revisions_def)
  then obtain answer where a: "find_counterexamples w (challenge_value c) rv = Inr answer" by blast
  from find_counterexamples_Inr[OF a] run obtain rows where rows: "obj_get answer ''counterexamples'' = JList rows"
    "(\<lambda>r. obj_get r ''candidate_id'') ` set rows = JStr ` escape_ids run"
    by (metis Inr_inject challenge_of_value option.inject)
  have "JStr ` escape_ids run =
      (\<lambda>b. JStr (bc_candidate_id b)) ` {b \<in> set (bs_candidates (ar_benchmark run)). escape_of w c rv (bc_source b) = Inr True}"
    unfolding world_escape_ids[OF run] by (simp add: image_image)
  moreover have mem: "cid \<in> escape_ids run" if "r \<in> set rows" "obj_get r ''candidate_id'' = JStr cid" for r cid
    using rows(2) that by (metis (no_types, lifting) image_iff json.inject(4))
  moreover have "\<forall>r\<in>set rows. \<forall>cid. obj_get r ''candidate_id'' = JStr cid \<longrightarrow> minimized w c run cid"
    by (intro ballI allI impI) (rule escape_is_minimized[OF assms(1) run mem assms(2,3)])
  ultimately show ?thesis
    using a run rows unfolding minimized_def by (intro exI[of _ answer] exI[of _ run] exI[of _ rows] conjI) simp_all
qed

theorem counterexamples_are_exact_and_minimizable_witness:
  "\<exists>answer rows. find_counterexamples demo_coverage ''cross-tenant'' 1 = Inr answer \<and>
     obj_get answer ''counterexamples'' = JList rows \<and> rows \<noteq> []"
proof -
  obtain run where run: "coverage_run demo_coverage CrossTenantChallenge 1 = Inr run"
    using demo_coverage_runs[of 1] by (auto simp: ok_iff)
  have late: "\<not> cv_late demo_coverage 0" by (simp add: demo_coverage_def)
  from counterexamples_are_exact_and_minimizable[of demo_coverage CrossTenantChallenge 1, OF demo_coverage_runs _ late] run
  obtain answer rows where a: "find_counterexamples demo_coverage ''cross-tenant'' 1 = Inr answer"
    "obj_get answer ''counterexamples'' = JList rows"
    "(\<lambda>r. obj_get r ''candidate_id'') ` set rows = (\<lambda>b. JStr (bc_candidate_id b)) ` {b \<in> set (bs_candidates (ar_benchmark run)).
       escape_of demo_coverage CrossTenantChallenge 1 (bc_source b) = Inr True}"
    by auto
  obtain h e where g: "evaluate_reference_gate (\<lambda>s. Inr []) prefix_candidate ''def can_read(): prefix'' 1 = Inr (GO, h)"
    "tenant_evaluate prefix_candidate = Inr e" "oe_verdict e = UNSAFE"
  proof -
    obtain e where e: "tenant_evaluate prefix_candidate = Inr e"
      using tenant_returns_evaluates unfolding prefix_candidate_def by blast
    then show ?thesis using that prefix_candidate_gap(1)[of "\<lambda>s. Inr []" "''def can_read(): prefix''"] prefix_candidate_gap(2)[OF e] by blast
  qed
  have "escape_of demo_coverage CrossTenantChallenge 1 ''def can_read(): prefix'' = Inr True"
    using g by (simp add: escape_of_def escape_predicate_def demo_coverage_def tenant_of_def cross_tenant_def demo_exec_def)
  moreover obtain b where "b \<in> set (bs_candidates (ar_benchmark run))" "bc_source b = ''def can_read(): prefix''"
  proof -
    have "\<exists>b\<in>set (bs_candidates (ar_benchmark run)). bc_source b = ''def can_read(): prefix''"
    proof -
      have "run_reference_arena (\<lambda>x. FRepr ''0.5'') demo_exec demo_arena 1 = Inr run" using run by (simp add: demo_coverage_run)
      from arena_scope_of[OF this] have "cd_benchmark demo_arena = Inr (ar_benchmark run)" by blast
      then have "make_suite ''cross-tenant-authorization'' ''cross-tenant-benchmark-v3'' tenant_base_fixed ''candidate-''
          [(''s'', ''def can_read(): safe'')] [(''u'', ''def can_read(): prefix'')] = ar_benchmark run"
        by (simp add: demo_arena_def cross_tenant_def generate_cross_tenant_benchmark_def demo_cases)
      from this[symmetric] show ?thesis by (simp add: make_suite_def make_candidate_def Let_def)
    qed
    then show ?thesis by (elim bexE) (rule that)
  qed
  ultimately have "b \<in> {b \<in> set (bs_candidates (ar_benchmark run)). escape_of demo_coverage CrossTenantChallenge 1 (bc_source b) = Inr True}"
    by simp
  from imageI[OF this, of "\<lambda>b. JStr (bc_candidate_id b)", folded a(3)] have "rows \<noteq> []" by (elim imageE) (cases rows; simp)
  then show ?thesis using a(1,2) by (intro exI[of _ answer] exI[of _ rows] conjI)
qed

end
