(* ===== verification/WebMCP_Service.thy ===== *)
theory WebMCP_Service
  imports WebMCP Coverage_Service Agents
begin

text \<open>
  webmcp/attacks.py and webmcp/service.py: the bounded attacks an untrusted client may start against
  the remote gatekeeper, and the facade that answers its calls.  An attack takes a freshly signed
  bundle of the vulnerable fixture, changes it or not, and submits it with the opinions of compromised
  agents; \<open>attack_submission\<close> is what is submitted.  \<open>copy.deepcopy\<close> is the identity on values.

  The lemmas: what each attack submits, and that a changed bundle no longer has the digest that was
  signed; how every failure is reported; and what a verified proof says.
\<close>

section \<open>Attacks\<close>

definition attack_names :: "string list" where
  "attack_names =
    [''force_agents_go'', ''forged_repo_go'', ''prompt_injection'', ''downgrade_severity'', ''delete_blocker'',
     ''forge_authority'', ''replay_previous_go'', ''tamper_evidence_digest'']"

text \<open>\<open>d["bundle"]["results"][0][k] = v\<close> on a document.\<close>

definition change_item :: "string \<Rightarrow> (json \<Rightarrow> json res) \<Rightarrow> json \<Rightarrow> json res" where
  "change_item k f j = and_then (get_item k j) (\<lambda>v. and_then (f v) (\<lambda>v'. set_item k v' j))"

definition change_first :: "(json \<Rightarrow> json res) \<Rightarrow> json \<Rightarrow> json res" where
  "change_first f j =
    (case j of
       JList [] \<Rightarrow> raise IndexError ''list index out of range''
     | JList (x # xs) \<Rightarrow> and_then (f x) (\<lambda>x'. Inr (JList (x' # xs)))
     | JObj kvs \<Rightarrow> raise KeyError ''0''
     | _ \<Rightarrow> raise TypeError ''object is not subscriptable'')"

definition attack_release :: string where "attack_release = ''webmcp-judge-attack-current''"
definition previous_release :: string where "previous_release = ''webmcp-previous-go-release''"

text \<open>The mutation of an attack; \<open>previous\<close> is the attested fixture a replay takes its bundle from.\<close>

definition mutate_with :: "json res \<Rightarrow> string \<Rightarrow> json \<Rightarrow> (json \<times> string) res" where
  "mutate_with previous_fixture attack_name sb =
    (let mutated = (\<lambda>m text. and_then m (\<lambda>s. Inr (s, text))) in
     if attack_name = ''downgrade_severity'' then
       mutated (change_item ''bundle'' (change_item ''results'' (change_first (set_item ''severity'' (JStr ''INFO'')))) sb)
         ''SIGNED_PAYLOAD_MUTATED''
     else if attack_name = ''delete_blocker'' then
       mutated (change_item ''bundle'' (set_item ''results'' (JList [])) sb) ''SIGNED_PAYLOAD_MUTATED''
     else if attack_name = ''tamper_evidence_digest'' then
       mutated (change_item ''bundle'' (change_item ''results''
           (change_first (set_item ''evidence_digest_sha256'' (JStr (replicate 64 CHR ''0''))))) sb)
         ''SIGNED_PAYLOAD_MUTATED''
     else if attack_name = ''forge_authority'' then
       mutated (change_item ''bundle'' (set_item ''authority'' (JStr ''ORGANIZATION_POLICY'')) sb) ''UNTRUSTED_FIELD_INJECTED''
     else if attack_name = ''replay_previous_go'' then
       and_then previous_fixture (\<lambda>previous.
       and_then (get_item ''signed_evidence_bundle'' previous) (\<lambda>s. Inr (s, ''VALID_OLD_GO_BUNDLE_REPLAYED'')))
     else if attack_name \<in> {''forged_repo_go'', ''prompt_injection''} then Inr (sb, ''UNTRUSTED_REPOSITORY_DATA_ONLY'')
     else if attack_name = ''force_agents_go'' then Inr (sb, ''AGENT_OPINIONS_ONLY'')
     else Inr (sb, ''NONE''))"

definition mutate_bundle :: "demo_world \<Rightarrow> string \<Rightarrow> json \<Rightarrow> (json \<times> string) res" where
  "mutate_bundle w = mutate_with (signed_fixture w ''fixed'' previous_release)"

record submission =
  sub_source_sha256 :: json
  sub_policy_sha256 :: json
  sub_opinions :: "json list"
  sub_bundle :: json
  sub_mutation :: string

text \<open>\<open>attack_raw\<close> on whatever values the attested fixture holds for its digests.\<close>

definition submit_raw :: "environment \<Rightarrow> a2a_client \<Rightarrow> string \<Rightarrow> json \<Rightarrow> json \<Rightarrow> json \<Rightarrow> json list \<Rightarrow> json res" where
  "submit_raw env c release_id source policy bundle ops =
     and_then (a2a_post env c (rpc_payload c (request_ids env) (JObj
       [(''release_id'', JStr release_id), (''source_sha256'', source), (''policy_sha256'', policy),
        (''signed_evidence_bundle'', bundle), (''agent_opinions'', JList ops)]))) extract_verdict"

lemma submit_raw_text: "submit_raw env c rid (JStr source) (JStr policy) bundle ops = attack_raw env c rid source policy bundle ops"
  by (simp add: submit_raw_def attack_raw_def decision_input_def)

definition attack_submission :: "demo_world \<Rightarrow> string \<Rightarrow> submission res" where
  "attack_submission w attack_name =
     and_then (signed_fixture w ''vulnerable'' attack_release) (\<lambda>current.
     and_then (get_item ''signed_evidence_bundle'' current) (\<lambda>sb.
     and_then (get_item ''source_sha256'' current) (\<lambda>source.
     and_then (and_then (get_item ''bundle'' sb) (get_item ''policy_sha256'')) (\<lambda>policy.
     and_then default_registry (\<lambda>reg.
     and_then (py_list (or_else (obj_get (compromised_agent_simulation reg
         \<lparr>rq_release_id = attack_release, rq_root = [], rq_commit_sha = None\<rparr> ([] :: json list)) ''opinions'') (JList []))) (\<lambda>ops.
     and_then (mutate_bundle w attack_name sb) (\<lambda>(sb', mutation). Inr
       \<lparr>sub_source_sha256 = source, sub_policy_sha256 = policy, sub_opinions = ops,
        sub_bundle = sb', sub_mutation = mutation\<rparr>)))))))"

definition attack_report :: "string \<Rightarrow> submission \<Rightarrow> json \<Rightarrow> json res" where
  "attack_report attack_name s raw =
     and_then (attr_get raw ''accepted'') (\<lambda>acc.
       let accepted = truthy acc;
           final_verdict = (if accepted then obj_get raw ''decision'' else JNull);
           rejection = obj_get raw ''rejection_code'' in
       Inr (JObj
        [(''attack'', JStr attack_name),
         (''mutation'', JStr (sub_mutation s)),
         (''payload_reached_gatekeeper'', JBool True),
         (''gatekeeper_accepted_evidence'', JBool accepted),
         (''rejection_code'', rejection),
         (''result_code'', or_else rejection
            (JStr (if attack_name = ''forge_authority'' then ''IGNORED_NOT_IN_TRUST_SCHEMA'' else ''VERDICT_UNCHANGED''))),
         (''final_verdict'', final_verdict),
         (''attack_blocked'', JBool (\<not> accepted \<or> final_verdict = JStr ''NO_GO'')),
         (''agent_go_count'', JInt (int (length (filter (\<lambda>i. obj_get i ''vote'' = JStr ''GO'') (sub_opinions s))))),
         (''agent_count'', JInt (int (length (sub_opinions s)))),
         (''agent_influence'', obj_get_def raw ''agent_influence'' (JInt 0)),
         (''evidence_verified'', obj_get_def raw ''evidence_verified'' (JBool False)),
         (''gatekeeper'', raw)]))"

definition run_remote_attack :: "demo_world \<Rightarrow> string \<Rightarrow> json res" where
  "run_remote_attack w attack_name =
     and_then (attack_submission w attack_name) (\<lambda>s.
     and_then (world_gatekeeper w) (\<lambda>gate.
     case gate of
       LocalGate \<Rightarrow> raise RuntimeError ''remote A2A Gatekeeper is required''
     | RemoteGate client \<Rightarrow>
         and_then (submit_raw (dw_environment w) client attack_release (sub_source_sha256 s) (sub_policy_sha256 s)
             (sub_bundle s) (sub_opinions s)) (attack_report attack_name s)))"

section \<open>The service\<close>

definition inspect_release :: "demo_world \<Rightarrow> json res" where
  "inspect_release w =
     and_then (evaluate_fixture (dw_package w) (dw_stamp w) ''vulnerable'' ''webmcp-demo-current'') (\<lambda>(report, source_sha). Inr (JObj
      [(''release_id'', JStr (rr_release_id report)),
       (''source_sha256'', JStr source_sha),
       (''policy_sha256'', JStr (rr_policy_sha256 report)),
       (''current_verdict'', JStr (decision_value (rr_decision report))),
       (''blocking_findings'', JList (map (\<lambda>f. JObj
          [(''finding_id'', JStr (finding_id f)), (''severity'', JStr (severity_value (fd_severity f))), (''title'', JStr (fd_title f))])
          (filter (\<lambda>f. blocking_evidence f \<noteq> []) (rr_findings report)))),
       (''proof_available'', JBool True),
       (''authority'', JStr ''DETERMINISTIC_GATEKEEPER''),
       (''webmcp_authority'', JStr ''NO_RELEASE_AUTHORITY'')]))"

definition inspect_trust_boundary :: json where
  "inspect_trust_boundary = JObj
    [(''repository_text_authority'', JStr ''NONE''),
     (''model_authority'', JStr ''ADVISORY_ONLY''),
     (''webmcp_authority'', JStr ''NO_RELEASE_AUTHORITY''),
     (''blocking_authorities'', JList [JStr ''PLATFORM'', JStr ''ORGANIZATION_POLICY'']),
     (''decision_authority'', JStr ''DETERMINISTIC_GATEKEEPER''),
     (''production_gatekeeper'', JStr ''GO_A2A_SERVICE''),
     (''authority_chain'', JList
        [JStr ''AI_AGENT'', JStr ''WEBMCP_CAPABILITY'', JStr ''RELEASE_SENTINEL_API'', JStr ''SIGNED_EVIDENCE'',
         JStr ''DETERMINISTIC_GATEKEEPER''])]"

text \<open>
  \<open>run_attack\<close> with the service's runner; a runner fails with a service error or with another exception.
  An exception outside \<open>Exception\<close> passes.
\<close>

definition gate_unavailable :: "exn \<Rightarrow> 'a svc" where
  "gate_unavailable e = service_fail ''GATEKEEPER_DEPENDENCY_UNAVAILABLE''
     (''attack requires the deterministic remote Gatekeeper: '' @ class_name (fst e)) 503
     (Some (''The Gatekeeper is unreachable, so the attack cannot be scored. '' @
        ''The gate remains fail-closed; continue with find_counterexamples or retry later.''))"

definition run_attack :: "(string \<Rightarrow> json svc) \<Rightarrow> string \<Rightarrow> json svc" where
  "run_attack runner attack_name =
    (if attack_name \<notin> set attack_names
     then service_fail ''UNKNOWN_ATTACK'' ''unknown bounded attack scenario'' 422
       (Some (''Retry run_attack with one of: '' @ join_with '', '' attack_names @ ''.''))
     else case svc_then (runner attack_name) (\<lambda>r. lift (py_dict r)) of
       Inl (Service e) \<Rightarrow> Inl (Service e)
     | Inl (Raised e) \<Rightarrow> if catches PyException e then gate_unavailable e else Inl (Raised e)
     | Inr result \<Rightarrow> lift (set_item ''webmcp_authority'' (JStr ''NO_RELEASE_AUTHORITY'') result))"

definition verify_proof :: "demo_world \<Rightarrow> string \<Rightarrow> json svc" where
  "verify_proof w proof_id =
    (case fixture_for_proof proof_id of
       Inl e \<Rightarrow>
         if catches KeyError e \<or> catches ValueError e
         then service_fail ''UNKNOWN_PROOF'' ''unsupported proof identity'' 404
           (Some (''Supported proof_id values are: '' @ join_with '', '' supported_proof_ids @ ''.''))
         else Inl (Raised e)
     | Inr (fixture, _) \<Rightarrow> lift (
         and_then (evaluate_fixture (dw_package w) (dw_stamp w) fixture (''webmcp-proof-'' @ proof_id)) (\<lambda>(report, source_sha).
           let evidence_ok = (finding_set_sha256 (rr_findings report) = rr_evidence_sha256 report) in
         and_then (fixture_source_sha (dw_package w) fixture) (\<lambda>sha.
           let source_ok = (source_sha = sha) in Inr (JObj
          [(''proof_id'', JStr proof_id),
           (''source_sha256'', JStr source_sha),
           (''policy_sha256'', JStr (rr_policy_sha256 report)),
           (''evidence_sha256'', JStr (rr_evidence_sha256 report)),
           (''evidence_integrity_verified'', JBool evidence_ok),
           (''context_bound'', JBool (source_ok \<and> evidence_ok)),
           (''signature_status'', JStr ''LOCAL_DETERMINISTIC_PROOF_CONTEXT''),
           (''verdict'', JStr (decision_value (rr_decision report))),
           (''authority'', JStr ''DETERMINISTIC_GATEKEEPER''),
           (''replay_context_mismatch'', JBool False)])))))"

section \<open>Lemmas: what an attack submits\<close>


text \<open>A bundle signed in this process.\<close>

definition signs_locally :: "demo_world \<Rightarrow> bool" where
  "signs_locally w \<longleftrightarrow> (\<exists>settings. cloud_settings_from_env (dw_env w) = Inr settings \<and> cs_attestor_url settings = None)"

lemma signed_fixture_local:
  assumes "signed_fixture w name rid = Inr current" "signs_locally w"
  shows "\<exists>report sha sign b s. evaluate_fixture (dw_package w) (dw_stamp w) name rid = Inr (report, sha) \<and>
    dw_signer w = Inr sign \<and> build_evidence_bundle report sha None default_ttl_seconds None None (dw_clock w) (dw_fresh w) = Inr b \<and>
    sign_evidence_bundle sign b = Inr s \<and> eb_release_id b = rid \<and>
    current = JObj [(''source_sha256'', JStr sha), (''policy_sha256'', JStr (rr_policy_sha256 report)),
      (''report'', report_to_dict report), (''signed_evidence_bundle'', signed_to_dict s)]"
proof -
  obtain report sha sign b s where
    r: "evaluate_fixture (dw_package w) (dw_stamp w) name rid = Inr (report, sha)" "dw_signer w = Inr sign"
      "build_evidence_bundle report sha None default_ttl_seconds None None (dw_clock w) (dw_fresh w) = Inr b"
      "sign_evidence_bundle sign b = Inr s"
      "current = JObj [(''source_sha256'', JStr sha), (''policy_sha256'', JStr (rr_policy_sha256 report)),
        (''report'', report_to_dict report), (''signed_evidence_bundle'', signed_to_dict s)]"
    using assms by (auto simp: signed_fixture_def signs_locally_def and_then_Inr sign_report_def)
  moreover have "eb_release_id b = rid"
    using build_bundle_Inr(7)[OF r(3)] evaluate_fixture_Inr[OF r(1)] by simp
  ultimately show ?thesis by blast
qed

text \<open>The signed document with another bundle in it.\<close>

lemma change_bundle:
  "change_item ''bundle'' f (signed_to_dict s) = and_then (f (sb_bundle s)) (\<lambda>b'. Inr (signed_to_dict (s\<lparr>sb_bundle := b'\<rparr>)))"
  by (cases "f (sb_bundle s)") (simp_all add: change_item_def get_item_def signed_to_dict_def set_item_def)

lemma change_results:
  "change_item ''results'' f (bundle_to_dict b) =
     (case f (JList (eb_results b)) of Inl e \<Rightarrow> Inl e
      | Inr r \<Rightarrow> set_item ''results'' r (bundle_to_dict b))"
  by (cases "f (JList (eb_results b))") (simp_all add: change_item_def get_item_def bundle_to_dict_def)

lemma set_results: "set_item ''results'' (JList rs) (bundle_to_dict b) = Inr (bundle_to_dict (b\<lparr>eb_results := rs\<rparr>))"
  by (simp add: set_item_def bundle_to_dict_def)

lemma set_result_field:
  "set_item ''severity'' v (bundle_result f) = Inr (JObj
    [(''finding_id'', JStr (finding_id f)), (''severity'', v), (''failed'', JBool True),
     (''blocking_eligible'', JBool (blocking_evidence f \<noteq> [])), (''evidence_digest_sha256'', JStr (evidence_digest f))])"
  "set_item ''evidence_digest_sha256'' v (bundle_result f) = Inr (JObj
    [(''finding_id'', JStr (finding_id f)), (''severity'', JStr (severity_value (fd_severity f))), (''failed'', JBool True),
     (''blocking_eligible'', JBool (blocking_evidence f \<noteq> [])), (''evidence_digest_sha256'', v)])"
  by (simp_all add: set_item_def bundle_result_def)

lemma wf_bundle_dict: "list_all wf_json (eb_results b) \<Longrightarrow> wf_json (bundle_to_dict b)"
  by (simp add: bundle_to_dict_def)

lemma norm_results: "Json.norm (bundle_to_dict (b\<lparr>eb_results := rs\<rparr>)) = Json.norm (bundle_to_dict b) \<longleftrightarrow> map Json.norm rs = map Json.norm (eb_results b)"
  by (subst bundle_dict_norm) simp

lemma norm_obj_length: "Json.norm (JObj xs) = Json.norm (JObj ys) \<Longrightarrow> length xs = length ys"
proof -
  assume "Json.norm (JObj xs) = Json.norm (JObj ys)"
  then have "sort_key fst (map (\<lambda>(k, v). (k, Json.norm v)) xs) = sort_key fst (map (\<lambda>(k, v). (k, Json.norm v)) ys)" by simp
  from arg_cong[OF this, of length] show ?thesis by simp
qed

text \<open>A changed bundle: well formed, and with another canonical text.\<close>

definition altered :: "json \<Rightarrow> json \<Rightarrow> bool" where
  "altered b b' \<longleftrightarrow> wf_json b \<and> wf_json b' \<and> (b' \<noteq> b \<longrightarrow> Json.norm b' \<noteq> Json.norm b)"

lemma altered_digest: "altered b b' \<Longrightarrow> b' \<noteq> b \<Longrightarrow> sha256_json b' \<noteq> sha256_json b \<or> sha_collision (canonical_json b') (canonical_json b)"
  using sha256_json_inj[of b' b] by (auto simp: altered_def)

lemma altered_results:
  assumes "list_all wf_json (eb_results b)" "list_all wf_json rs" "map Json.norm rs = map Json.norm (eb_results b) \<Longrightarrow> rs = eb_results b"
  shows "altered (bundle_to_dict b) (bundle_to_dict (b\<lparr>eb_results := rs\<rparr>))"
  using assms norm_results[of rs b] by (auto simp: altered_def wf_bundle_dict)

definition tampering :: "string list" where
  "tampering = [''downgrade_severity'', ''delete_blocker'', ''tamper_evidence_digest'', ''forge_authority'']"

lemma mutate_tampering:
  assumes "mutate_bundle w name (signed_to_dict s) = Inr (sb', how)" "name \<in> set tampering"
    and "sb_bundle s = bundle_to_dict b" "eb_results b = map bundle_result fs"
  shows "\<exists>b'. sb' = signed_to_dict (s\<lparr>sb_bundle := b'\<rparr>) \<and> altered (sb_bundle s) b' \<and>
    (name = ''forge_authority'' \<longrightarrow> b' \<noteq> sb_bundle s)"
proof -
  have wf: "list_all wf_json (eb_results b)" by (simp add: assms(4) list_all_iff)
  have first: "\<exists>b'. sb' = signed_to_dict (s\<lparr>sb_bundle := b'\<rparr>) \<and> altered (sb_bundle s) b'"
    if m: "mutate_bundle w name (signed_to_dict s) =
        and_then (change_item ''bundle'' (change_item ''results'' (change_first g)) (signed_to_dict s)) (\<lambda>s. Inr (s, x))"
      and g: "\<And>f r. g (bundle_result f) = Inr r \<Longrightarrow> wf_json r \<and> (Json.norm r = Json.norm (bundle_result f) \<longrightarrow> r = bundle_result f)" for g x
  proof -
    have "and_then (change_item ''bundle'' (change_item ''results'' (change_first g)) (signed_to_dict s)) (\<lambda>s. Inr (s, x)) = Inr (sb', how)"
      using assms(1) unfolding m .
    then obtain f fs' r where fs: "fs = f # fs'" "g (bundle_result f) = Inr r"
      and sb: "sb' = signed_to_dict (s\<lparr>sb_bundle := bundle_to_dict (b\<lparr>eb_results := r # map bundle_result fs'\<rparr>)\<rparr>)"
      by (cases fs)
        (auto simp: change_bundle change_results change_first_def assms(3,4) and_then_Inr set_results split: sum.splits)
    have "altered (bundle_to_dict b) (bundle_to_dict (b\<lparr>eb_results := r # map bundle_result fs'\<rparr>))"
      by (rule altered_results[OF wf]) (use g[OF fs(2)] in \<open>auto simp: assms(4) fs(1) list_all_iff\<close>)
    with sb show ?thesis unfolding assms(3) by (intro exI conjI)
  qed
  consider (down) "name = ''downgrade_severity''" | (del) "name = ''delete_blocker''" | (tamper) "name = ''tamper_evidence_digest''"
    | (forge) "name = ''forge_authority''"
    using assms(2) unfolding tampering_def list.set insert_iff empty_iff by (elim disjE FalseE)
  then show ?thesis
  proof cases
    case down
    have "\<exists>b'. sb' = signed_to_dict (s\<lparr>sb_bundle := b'\<rparr>) \<and> altered (sb_bundle s) b'"
    proof (rule first)
      show "mutate_bundle w name (signed_to_dict s) = and_then (change_item ''bundle'' (change_item ''results''
          (change_first (set_item ''severity'' (JStr ''INFO'')))) (signed_to_dict s)) (\<lambda>s. Inr (s, ''SIGNED_PAYLOAD_MUTATED''))"
        by (simp add: mutate_bundle_def mutate_with_def down)
      show "wf_json r \<and> (Json.norm r = Json.norm (bundle_result f) \<longrightarrow> r = bundle_result f)"
        if "set_item ''severity'' (JStr ''INFO'') (bundle_result f) = Inr r" for f r
        using that unfolding set_result_field by (auto simp: bundle_result_def norm_obj_inj simp del: Json.norm.simps(2))
    qed
    then show ?thesis by (auto simp: down)
  next
    case tamper
    have "\<exists>b'. sb' = signed_to_dict (s\<lparr>sb_bundle := b'\<rparr>) \<and> altered (sb_bundle s) b'"
    proof (rule first)
      show "mutate_bundle w name (signed_to_dict s) = and_then (change_item ''bundle'' (change_item ''results''
          (change_first (set_item ''evidence_digest_sha256'' (JStr (replicate 64 CHR ''0''))))) (signed_to_dict s))
          (\<lambda>s. Inr (s, ''SIGNED_PAYLOAD_MUTATED''))"
        by (simp add: mutate_bundle_def mutate_with_def tamper)
      show "wf_json r \<and> (Json.norm r = Json.norm (bundle_result f) \<longrightarrow> r = bundle_result f)"
        if "set_item ''evidence_digest_sha256'' (JStr (replicate 64 CHR ''0'')) (bundle_result f) = Inr r" for f r
        using that unfolding set_result_field by (auto simp: bundle_result_def norm_obj_inj simp del: Json.norm.simps(2))
    qed
    then show ?thesis by (auto simp: tamper)
  next
    case del
    have "sb' = signed_to_dict (s\<lparr>sb_bundle := bundle_to_dict (b\<lparr>eb_results := []\<rparr>)\<rparr>)"
      using assms(1) by (simp add: mutate_bundle_def mutate_with_def del change_bundle assms(3) set_results)
    moreover have "altered (bundle_to_dict b) (bundle_to_dict (b\<lparr>eb_results := []\<rparr>))"
      by (rule altered_results[OF wf]) (simp_all add: assms(4))
    ultimately show ?thesis using assms(3) by (auto simp: del)
  next
    case forge
    obtain kvs where kvs: "bundle_to_dict b = JObj kvs" "''authority'' \<notin> fst ` set kvs" by (simp add: bundle_to_dict_def)
    then have set: "set_item ''authority'' (JStr ''ORGANIZATION_POLICY'') (bundle_to_dict b) =
        Inr (JObj (kvs @ [(''authority'', JStr ''ORGANIZATION_POLICY'')]))"
      by (simp add: set_item_def dict_set_fresh_append)
    have "sb' = signed_to_dict (s\<lparr>sb_bundle := JObj (kvs @ [(''authority'', JStr ''ORGANIZATION_POLICY'')])\<rparr>)"
      using assms(1) set by (simp add: mutate_bundle_def mutate_with_def forge change_bundle assms(3))
    moreover have "altered (bundle_to_dict b) (JObj (kvs @ [(''authority'', JStr ''ORGANIZATION_POLICY'')]))"
      using wf_bundle_dict[OF wf] norm_obj_length[of "kvs @ [(''authority'', JStr ''ORGANIZATION_POLICY'')]" kvs]
      by (auto simp: altered_def kvs(1) simp del: Json.norm.simps)
    moreover have "JObj (kvs @ [(''authority'', JStr ''ORGANIZATION_POLICY'')]) \<noteq> bundle_to_dict b" by (simp add: kvs(1))
    ultimately show ?thesis unfolding assms(3) by blast
  qed
qed

lemma attack_submission_local:
  assumes "attack_submission w name = Inr sub" "signs_locally w"
  shows "\<exists>sign b s. dw_signer w = Inr sign \<and> sign_evidence_bundle sign b = Inr s \<and>
    (if name \<in> set tampering
     then eb_release_id b = attack_release \<and> (\<exists>b'. sub_bundle sub = signed_to_dict (s\<lparr>sb_bundle := b'\<rparr>) \<and>
       (b' \<noteq> sb_bundle s \<longrightarrow> sha256_json b' \<noteq> sb_bundle_sha256 s \<or> sha_collision (canonical_json b') (canonical_json (sb_bundle s))) \<and>
       (name = ''forge_authority'' \<longrightarrow> b' \<noteq> sb_bundle s))
     else sub_bundle sub = signed_to_dict s \<and> eb_release_id b = (if name = ''replay_previous_go'' then previous_release else attack_release))"
proof -
  obtain current sb how where c: "signed_fixture w ''vulnerable'' attack_release = Inr current"
    "get_item ''signed_evidence_bundle'' current = Inr sb" "mutate_bundle w name sb = Inr (sub_bundle sub, how)"
    using assms(1) by (auto simp: attack_submission_def and_then_Inr)
  from signed_fixture_local[OF c(1) assms(2)] obtain report sha sign b s where
    s: "dw_signer w = Inr sign" "build_evidence_bundle report sha None default_ttl_seconds None None (dw_clock w) (dw_fresh w) = Inr b"
      "sign_evidence_bundle sign b = Inr s" "eb_release_id b = attack_release"
      "current = JObj [(''source_sha256'', JStr sha), (''policy_sha256'', JStr (rr_policy_sha256 report)),
        (''report'', report_to_dict report), (''signed_evidence_bundle'', signed_to_dict s)]" by blast
  have sb: "sb = signed_to_dict s" using c(2) by (simp add: s(5) get_item_def)
  show ?thesis
  proof (cases "name \<in> set tampering")
    case True
    have sbb: "sb_bundle s = bundle_to_dict b" "sb_bundle_sha256 s = sha256_json (sb_bundle s)"
      using s(3) by (auto simp: sign_bundle_Inr)
    from mutate_tampering[OF c(3)[unfolded sb] True sbb(1) build_bundle_Inr(1)[OF s(2)]]
    obtain b' where b': "sub_bundle sub = signed_to_dict (s\<lparr>sb_bundle := b'\<rparr>)" "altered (sb_bundle s) b'"
      "name = ''forge_authority'' \<longrightarrow> b' \<noteq> sb_bundle s" by (elim exE conjE)
    have "b' \<noteq> sb_bundle s \<longrightarrow> sha256_json b' \<noteq> sb_bundle_sha256 s \<or> sha_collision (canonical_json b') (canonical_json (sb_bundle s))"
      using altered_digest[OF b'(2)] unfolding sbb(2) by (intro impI)
    then show ?thesis using True s(1,3,4) b' by (intro exI[of _ sign] exI[of _ b] exI[of _ s]) auto
  next
    case False
    show ?thesis
    proof (cases "name = ''replay_previous_go''")
      case True
      then obtain previous where p: "signed_fixture w ''fixed'' previous_release = Inr previous"
        "get_item ''signed_evidence_bundle'' previous = Inr (sub_bundle sub)"
        using c(3) by (auto simp: mutate_bundle_def mutate_with_def Let_def and_then_Inr)
      from signed_fixture_local[OF p(1) assms(2)] obtain report' sha' sign' b' s' where
        s': "dw_signer w = Inr sign'" "sign_evidence_bundle sign' b' = Inr s'" "eb_release_id b' = previous_release"
          "previous = JObj [(''source_sha256'', JStr sha'), (''policy_sha256'', JStr (rr_policy_sha256 report')),
            (''report'', report_to_dict report'), (''signed_evidence_bundle'', signed_to_dict s')]" by blast
      then have "sub_bundle sub = signed_to_dict s'" using p(2) by (simp add: s'(4) get_item_def)
      then show ?thesis using False True s'(1-3) by (intro exI[of _ sign'] exI[of _ b'] exI[of _ s']) simp
    next
      case not_replay: False
      have "sub_bundle sub = sb"
        using c(3) False not_replay by (auto simp: mutate_bundle_def mutate_with_def tampering_def Let_def split: if_splits)
      then show ?thesis using False not_replay s(1,3,4) sb by (intro exI[of _ sign] exI[of _ b] exI[of _ s]) simp
    qed
  qed
qed

section \<open>Lemmas: failures and proofs\<close>

lemma py_dict_object: "py_dict j = Inr d \<Longrightarrow> is_obj d"
proof -
  have "pair_items i xs acc = Inr d \<Longrightarrow> is_obj d" for i xs acc d
    by (induction xs arbitrary: i acc) (auto simp: and_then_Inr split: option.splits)
  then show "py_dict j = Inr d \<Longrightarrow> is_obj d" by (cases j) auto
qed

lemma set_item_object: "is_obj d \<Longrightarrow> \<exists>kvs. set_item k v d = Inr (JObj kvs) \<and> obj_get (JObj kvs) k = v"
  by (cases d) (simp_all add: set_item_def)

lemma run_attack_total:
  "(\<exists>answer. run_attack runner name = Inr answer \<and> obj_get answer ''webmcp_authority'' = JStr ''NO_RELEASE_AUTHORITY'') \<or>
   (\<exists>e. run_attack runner name = Inl (Service e)) \<or>
   (\<exists>e. runner name = Inl (Raised e) \<and> \<not> catches PyException e \<and> run_attack runner name = Inl (Raised e))"
proof (cases "name \<in> set attack_names")
  case True
  show ?thesis
  proof (cases "runner name")
    case (Inl f)
    then show ?thesis
      using True by (cases f) (auto simp: run_attack_def gate_unavailable_def service_fail_def)
  next
    case (Inr r)
    show ?thesis
    proof (cases "py_dict r")
      case (Inl e)
      have "catches PyException e" using plain_py_dict[of r] Inl by (simp add: plain_error_def)
      then show ?thesis using True Inr Inl by (simp add: run_attack_def gate_unavailable_def service_fail_def)
    next
      case d: (Inr d)
      from set_item_object[OF py_dict_object[OF d]] obtain kvs where
        "set_item ''webmcp_authority'' (JStr ''NO_RELEASE_AUTHORITY'') d = Inr (JObj kvs)"
        "obj_get (JObj kvs) ''webmcp_authority'' = JStr ''NO_RELEASE_AUTHORITY''" by blast
      then show ?thesis using True Inr d by (simp add: run_attack_def)
    qed
  qed
qed (simp add: run_attack_def service_fail_def)

lemma fixture_for_proof_Inr: "fixture_for_proof p = Inr (fixture, s) \<Longrightarrow> p \<in> set supported_proof_ids"
  by (auto simp: fixture_for_proof_def supported_proof_ids_def find_Some_iff split: option.splits)

lemma verify_proof_Inr:
  assumes "verify_proof w p = Inr answer"
  shows "p \<in> set supported_proof_ids \<and> obj_get answer ''context_bound'' = JBool True \<and>
    (\<exists>report sha fixture s. fixture_for_proof p = Inr (fixture, s) \<and> fixture_source_sha (dw_package w) fixture = Inr sha \<and>
      evaluate_fixture (dw_package w) (dw_stamp w) fixture (''webmcp-proof-'' @ p) = Inr (report, sha) \<and>
      obj_get answer ''source_sha256'' = JStr sha \<and>
      obj_get answer ''evidence_sha256'' = JStr (finding_set_sha256 (rr_findings report)) \<and>
      obj_get answer ''verdict'' = JStr (decision_value (spec_decision (rr_findings report))))"
proof -
  obtain fixture sc report source_sha sha where
    f: "fixture_for_proof p = Inr (fixture, sc)"
      "evaluate_fixture (dw_package w) (dw_stamp w) fixture (''webmcp-proof-'' @ p) = Inr (report, source_sha)"
      "fixture_source_sha (dw_package w) fixture = Inr sha"
    and a: "obj_get answer ''context_bound'' = JBool (source_sha = sha \<and> finding_set_sha256 (rr_findings report) = rr_evidence_sha256 report)"
      "obj_get answer ''source_sha256'' = JStr source_sha" "obj_get answer ''evidence_sha256'' = JStr (rr_evidence_sha256 report)"
      "obj_get answer ''verdict'' = JStr (decision_value (rr_decision report))"
    using assms by (auto simp: verify_proof_def service_fail_def lift_Inr and_then_Inr Let_def split: sum.splits if_splits)
  from evaluate_fixture_Inr[OF f(2)] f(3) have "source_sha = sha" "rr_evidence_sha256 report = finding_set_sha256 (rr_findings report)"
    "rr_decision report = spec_decision (rr_findings report)" by auto
  then show ?thesis using f a fixture_for_proof_Inr[OF f(1)] by auto
qed

end
