(* ===== verification/WebMCP_Service_Claims.thy ===== *)
theory WebMCP_Service_Claims
  imports Demo_Samples WebMCP_Service
begin

text \<open>
  The properties of the attacks and of the service facade: what an attack submits, how failures are
  reported, and what a verified proof says.
\<close>

section \<open>A sample attack\<close>

definition attack_world :: demo_world where
  "attack_world = demo_world\<lparr>dw_signer := Inr (\<lambda>m. Inr (take 32 m, ''key''))\<rparr>"

lemma demo_fixture_vulnerable:
  assumes "fixture_definition name = Inr (d, 1)"
  shows "\<exists>rep. evaluate_fixture demo_package stamp name rid = Inr (rep, directory_digest demo_package d)"
proof -
  let ?x = "\<lambda>root command. demo_execute (directory_digest demo_package d) 1 (Suc (Suc 0)) (pk_files demo_package d) command"
  let ?rq = "\<lparr>rq_release_id = rid, rq_root = [''pkg'', d], rq_commit_sha = None\<rparr>"
  obtain f where col: "collect_evidence ?x [] ?rq demo_policy = Inr ([f], 1)" using demo_vulnerable_collect by blast
  obtain v where v: "local_gatekeeper rid [f] [] = Inr v" "gv_decision v = spec_decision [f]"
    "\<not> gv_llm_present v" "gv_agent_influence v = 0"
    using judge_decide_spec[of "[f]"] by (simp add: local_gatekeeper_def case_prod_beta)
  have "ok (evaluate ?x None local_gatekeeper [] stamp ?rq demo_policy)"
    using col v demo_advisories(3) by (simp add: evaluate_def Let_def make_report_def collect_advisory_def ok_iff)
  moreover have "build_policy (canonical_payload demo_policy) = Inr demo_policy"
    using build_policy_canonical demo_wf(2) by blast
  ultimately show ?thesis
    using assms by (auto simp: ok_iff evaluate_fixture_def fixture_source_sha_def demo_release_policy_def) (auto simp: demo_package_def)
qed

lemma attack_world_local: "signs_locally attack_world"
proof -
  have "parse_int ''1'' = Some 1" by code_simp
  then show ?thesis
    by (simp add: signs_locally_def attack_world_def demo_world_sel cloud_settings_from_env_def getenv_def getenv_opt_def)
qed

lemma attack_world_signed:
  "\<exists>sha pol rep sb. signed_fixture attack_world ''vulnerable'' rid = Inr (JObj
     [(''source_sha256'', JStr sha), (''policy_sha256'', JStr pol), (''report'', rep), (''signed_evidence_bundle'', signed_to_dict sb)]) \<and>
     (\<exists>b. sb_bundle sb = bundle_to_dict b)"
proof -
  let ?sha = "directory_digest demo_package ''repository_vulnerable''"
  have "fixture_definition ''vulnerable'' = Inr (''repository_vulnerable'', 1)" by (simp add: fixture_definition_def fixture_table_def)
  from demo_fixture_vulnerable[OF this, of "(''id'', ''now'')" rid] obtain rep
    where e: "evaluate_fixture demo_package (''id'', ''now'') ''vulnerable'' rid = Inr (rep, ?sha)" by blast
  have "finding_set_sha256 (rr_findings rep) = rr_evidence_sha256 rep" using evaluate_fixture_Inr[OF e] by auto
  then have b: "ok (build_evidence_bundle rep ?sha None default_ttl_seconds None None (dw_clock attack_world) (dw_fresh attack_world))"
    by (simp add: build_evidence_bundle_def default_ttl_seconds_def directory_digest_def fixture_digest_def Let_def ok_iff)
  obtain settings where "cloud_settings_from_env (dw_env attack_world) = Inr settings" "cs_attestor_url settings = None"
    using attack_world_local by (auto simp: signs_locally_def)
  moreover have "dw_package attack_world = demo_package" "dw_stamp attack_world = (''id'', ''now'')"
    "dw_signer attack_world = Inr (\<lambda>m. Inr (take 32 m, ''key''))"
    by (simp_all add: attack_world_def demo_world_def)
  ultimately show ?thesis
    using e b by (auto simp: signed_fixture_def sign_report_def sign_evidence_bundle_def Let_def ok_iff)
      (rule exI, rule conjI[OF refl], simp, blast)
qed

section \<open>Attacks\<close>

text \<open>Property C20. What the bounded attacks submit.  When the process signs its own evidence, every attack
  starts from a bundle that was really signed, for the release under attack (or, for the replay, for the
  older release).  The four attacks that tamper submit that signed document with another bundle and the
  old digest and signature, and whenever the bundle did change, its digest is no longer the one that was
  signed, unless SHA-256 collides on the two texts; forging an authority always changes the bundle.  The
  other attacks submit a signed document unchanged.\<close>

theorem tampered_bundles_lose_their_digest:
  assumes "attack_submission w name = Inr sub" "signs_locally w"
  shows "\<exists>sign b s. dw_signer w = Inr sign \<and> sign_evidence_bundle sign b = Inr s \<and>
    (if name \<in> {''downgrade_severity'', ''delete_blocker'', ''tamper_evidence_digest'', ''forge_authority''}
     then eb_release_id b = attack_release \<and> (\<exists>b'. sub_bundle sub = signed_to_dict (s\<lparr>sb_bundle := b'\<rparr>) \<and>
       (b' \<noteq> sb_bundle s \<longrightarrow> sha256_json b' \<noteq> sb_bundle_sha256 s \<or> sha_collision (canonical_json b') (canonical_json (sb_bundle s))) \<and>
       (name = ''forge_authority'' \<longrightarrow> b' \<noteq> sb_bundle s))
     else sub_bundle sub = signed_to_dict s \<and> eb_release_id b = (if name = ''replay_previous_go'' then previous_release else attack_release))"
  using attack_submission_local[OF assms] unfolding tampering_def list.set .

theorem tampered_bundles_lose_their_digest_witness:
  "\<exists>sub s b'. attack_submission attack_world ''forge_authority'' = Inr sub \<and>
    sub_bundle sub = signed_to_dict (s\<lparr>sb_bundle := b'\<rparr>) \<and> b' \<noteq> sb_bundle s"
proof -
  obtain sha pol rep sb b where s: "signed_fixture attack_world ''vulnerable'' attack_release = Inr (JObj
      [(''source_sha256'', JStr sha), (''policy_sha256'', JStr pol), (''report'', rep), (''signed_evidence_bundle'', signed_to_dict sb)])"
    "sb_bundle sb = bundle_to_dict b" using attack_world_signed[of attack_release] by blast
  obtain reg where reg: "default_registry = Inr reg" using default_registry_ok by blast
  have ops: "ok (py_list (or_else (obj_get (compromised_agent_simulation reg rq fs) ''opinions'') (JList [])))" for rq fs
    by (simp add: compromised_agent_simulation_def fleet_advice_def)
  have mutated: "ok (mutate_bundle attack_world ''forge_authority'' (signed_to_dict sb))"
    by (simp add: ok_iff mutate_bundle_def mutate_with_def change_bundle s(2)) (simp add: bundle_to_dict_def set_item_def)
  have parts: "get_item ''bundle'' (signed_to_dict sb) = Inr (bundle_to_dict b)"
    "get_item ''policy_sha256'' (bundle_to_dict b) = Inr (JStr (eb_policy_sha256 b))"
    by (simp_all add: get_item_def signed_to_dict_def s(2) bundle_to_dict_def)
  have items: "get_item ''signed_evidence_bundle'' (JObj [(''source_sha256'', JStr sha), (''policy_sha256'', JStr pol), (''report'', rep),
      (''signed_evidence_bundle'', signed_to_dict sb)]) = Inr (signed_to_dict sb)"
    "get_item ''source_sha256'' (JObj [(''source_sha256'', JStr sha), (''policy_sha256'', JStr pol), (''report'', rep),
      (''signed_evidence_bundle'', signed_to_dict sb)]) = Inr (JStr sha)"
    by (simp_all add: get_item_def)
  have "ok (attack_submission attack_world ''forge_authority'')"
    using mutated ops[of "\<lparr>rq_release_id = attack_release, rq_root = [], rq_commit_sha = None\<rparr>" "[]"]
    by (auto simp: attack_submission_def s(1) reg items parts ok_iff and_then_Inr)
  then obtain sub where sub: "attack_submission attack_world ''forge_authority'' = Inr sub" by (auto simp: ok_iff)
  from tampered_bundles_lose_their_digest[OF sub attack_world_local]
  obtain s b' where "sub_bundle sub = signed_to_dict (s\<lparr>sb_bundle := b'\<rparr>)" "b' \<noteq> sb_bundle s" by auto
  then show ?thesis using sub by (intro exI conjI)
qed

section \<open>The service\<close>

text \<open>An attack call has three outcomes only: an answer, marked as without release authority; a
  service error; or an exception outside \<open>Exception\<close> that the runner itself raised.  In particular a
  failure of the gatekeeper is never an answer.\<close>

lemma attack_calls_fail_closed:
  "(\<exists>answer. run_attack runner name = Inr answer \<and> obj_get answer ''webmcp_authority'' = JStr ''NO_RELEASE_AUTHORITY'') \<or>
   (\<exists>e. run_attack runner name = Inl (Service e)) \<or>
   (\<exists>e. runner name = Inl (Raised e) \<and> \<not> catches PyException e \<and> run_attack runner name = Inl (Raised e))"
  by (rule run_attack_total)

text \<open>A verified proof is a fresh evaluation.  If a proof identity is verified, it is one of the
  supported ones, and the answer gives the source digest of its fixture as it is now, the fingerprint of
  the findings that evaluating the fixture yields and the decision these findings call for; the context
  is then bound.\<close>

lemma proofs_are_recomputed:
  assumes "verify_proof w p = Inr answer"
  shows "p \<in> set supported_proof_ids \<and> obj_get answer ''context_bound'' = JBool True \<and>
    (\<exists>report sha fixture s. fixture_for_proof p = Inr (fixture, s) \<and> fixture_source_sha (dw_package w) fixture = Inr sha \<and>
      evaluate_fixture (dw_package w) (dw_stamp w) fixture (''webmcp-proof-'' @ p) = Inr (report, sha) \<and>
      obj_get answer ''source_sha256'' = JStr sha \<and>
      obj_get answer ''evidence_sha256'' = JStr (finding_set_sha256 (rr_findings report)) \<and>
      obj_get answer ''verdict'' = JStr (decision_value (spec_decision (rr_findings report))))"
  using assms by (rule verify_proof_Inr)

lemma proofs_are_recomputed_instance:
  "\<exists>answer. verify_proof demo_world (proof_value CurrentProof) = Inr answer \<and>
     obj_get answer ''context_bound'' = JBool True"
proof -
  have p: "fixture_for_proof (proof_value CurrentProof) = Inr (''cross_tenant_vulnerable'', None)"
    by (simp add: fixture_for_proof_def proof_ids_def)
  have f: "fixture_definition ''cross_tenant_vulnerable'' = Inr (''repository_vulnerable'', 1)"
    by (simp add: fixture_definition_def fixture_table_def)
  from demo_fixture_vulnerable[OF f] obtain rep where
    "evaluate_fixture demo_package (''id'', ''now'') ''cross_tenant_vulnerable'' (''webmcp-proof-'' @ proof_value CurrentProof) =
       Inr (rep, directory_digest demo_package ''repository_vulnerable'')" by blast
  then have "\<exists>answer. verify_proof demo_world (proof_value CurrentProof) = Inr answer"
    using f by (simp add: verify_proof_def p[simplified] demo_world_sel fixture_source_sha_def Let_def lift_Inr)
  then obtain answer where a: "verify_proof demo_world (proof_value CurrentProof) = Inr answer" by blast
  from proofs_are_recomputed[OF this] a show ?thesis by blast
qed

end
