(* ===== verification/Advisory_Claims.thy ===== *)
theory Advisory_Claims
  imports Samples Workflow Remediation_Agent
begin

text \<open>
  Properties of the model agents: the advisory fleet is shown the redacted findings and nothing else and
  completes with every model that answers, and the remediator's answer is read as the object it wrote.
\<close>

section \<open>The advisory fleet\<close>

text \<open>Property C22. The advisory fleet cannot tell releases apart by what redaction removes: for findings that differ
  only in identifiers, details and policy links of their evidence and in their notes, any models that answer
  alike to the four required agents with messages of at most 12,000 characters give the same advice.\<close>

theorem fleet_sees_redacted_evidence:
  assumes "map hide_bodies fs = map hide_bodies gs"
    and "\<And>a m. ag_name a \<in> set required_agents \<Longrightarrow> py_len m \<le> 12000 \<Longrightarrow> runtime a m = runtime' a m"
  shows "run_real_advisory_fleet model runtime request (map SealedFinding fs) prior =
    run_real_advisory_fleet model runtime' request (map SealedFinding gs) prior"
  by (rule fleet_sees_redacted[OF assms])

definition noted_finding :: finding where
  "noted_finding = demo_finding\<lparr>fd_evidence := map (\<lambda>e. e\<lparr>ev_details := JStr ''secret''\<rparr>) (fd_evidence demo_finding),
     advisory_notes := [''note'']\<rparr>"

definition talkative :: model_runtime where
  "talkative a m = Inr [[Some (ag_name a @ '': ok'')]]"

definition nosy :: model_runtime where
  "nosy a m = (if py_len m \<le> 12000 then Inr [[Some (ag_name a @ '': ok'')]] else raise RuntimeError ''too long'')"

theorem fleet_sees_redacted_evidence_witness:
  "run_real_advisory_fleet ''m'' talkative demo_request [SealedFinding demo_finding] [] =
   run_real_advisory_fleet ''m'' nosy demo_request [SealedFinding noted_finding] []"
  using fleet_sees_redacted_evidence[of "[demo_finding]" "[noted_finding]" talkative nosy "''m''" demo_request "[]"]
  by (simp add: talkative_def nosy_def hide_bodies_def hide_evidence_def noted_finding_def comp_def)

text \<open>The advisory fleet completes whatever the sealed findings are, if every model turn answers with some
  text and the history can be written: its advice has the authority ADVISORY and one opinion per required
  agent, none of which is a vote, with notes of at most 800 characters.\<close>

lemma fleet_answers_without_votes:
  assumes "\<And>a m. \<exists>events. runtime a m = Inr events \<and> event_texts events \<noteq> []" "ok (bounded_history_json prior)"
  shows "\<exists>advice texts. run_real_advisory_fleet model runtime request (map SealedFinding fs) prior = Inr advice \<and>
    obj_get advice ''authority'' = JStr ''ADVISORY'' \<and> length texts = 4 \<and>
    opinions_of advice = Inr (map (\<lambda>(a, t). JObj [(''agent'', JStr a), (''vote'', JStr ''ADVISORY_ONLY''), (''note'', JStr (py_take 800 t))])
      (zip required_agents texts))"
proof -
  have "ok (run_real_advisory_fleet model runtime request (map SealedFinding fs) prior)"
    by (rule fleet_completes) (use assms in auto)
  then obtain advice where a: "run_real_advisory_fleet model runtime request (map SealedFinding fs) prior = Inr advice"
    by (auto simp: ok_iff)
  from fleet_advice_shape[OF a] show ?thesis using a by blast
qed

lemma fleet_answers_without_votes_instance:
  "\<exists>advice. run_real_advisory_fleet ''m'' talkative demo_request [SealedFinding demo_finding] [] = Inr advice \<and>
     obj_get advice ''authority'' = JStr ''ADVISORY''"
proof -
  have "\<exists>events. talkative a m = Inr events \<and> event_texts events \<noteq> []" for a m
    by (simp add: talkative_def event_texts_def)
  moreover have "ok (bounded_history_json [])" by (simp add: bounded_history_json_def Let_def)
  ultimately show ?thesis
    using fleet_answers_without_votes[of talkative "[]" "''m''" demo_request "[demo_finding]"] by auto
qed

section \<open>The remediator's answer\<close>

text \<open>Property C23. Whatever object of files a model writes, bare or as a fenced block whose text is printable ASCII, is
  read back as exactly those files, provided it names only allowed paths and at least one; and whatever text
  is accepted is the JSON of an object whose members are the files, all of them allowed.\<close>

theorem repair_answers_are_read_back:
  "(parse_remediation_output fl text allowed = Inr files \<longrightarrow>
      files \<noteq> [] \<and> fst ` set files \<subseteq> set allowed \<and> loads fl (unfenced text) = Inr (answer_object files)) \<and>
   (m \<noteq> [] \<longrightarrow> distinct (map fst m) \<longrightarrow> fst ` set m \<subseteq> set allowed \<longrightarrow>
      parse_remediation_output fl (render (answer_object m)) allowed = Inr m \<and>
      (list_all plain_byte info \<longrightarrow> list_all plain_byte (render (answer_object m)) \<longrightarrow>
        parse_remediation_output fl (fence @ info @ CHR 0x0A # render (answer_object m) @ CHR 0x0A # fence) allowed = Inr m))"
  using unfenced_bare[of m] unfenced_block[of info m] answer_readable[of m fl]
  by (auto simp: parse_output_Inr answer_object_def)

theorem repair_answers_are_read_back_witness:
  "parse_remediation_output (\<lambda>s. FRepr s) (fence @ ''json'' @ CHR 0x0A # render (answer_object [(''app.py'', ''x = 1'')]) @ CHR 0x0A # fence)
     [''app.py''] = Inr [(''app.py'', ''x = 1'')]"
proof -
  have "list_all plain_byte ''json''" "list_all plain_byte (render (answer_object [(''app.py'', ''x = 1'')]))"
    by code_simp+
  then show ?thesis
    using repair_answers_are_read_back[where m = "[(''app.py'', ''x = 1'')]" and allowed = "[''app.py'']" and info = "''json''"
        and fl = "\<lambda>s. FRepr s"] by simp
qed

end
