(* ===== verification/Tracing.thy ===== *)
theory Tracing
  imports Settings Agents
begin

text \<open>
  observability/tracing.py: the spans around the release pipeline, which must have no say in it.  The
  OpenTelemetry packages are a parameter: each of their calls may change their state and may raise.  The
  module's own state are the two globals of the provider.  The lemmas: no call of the module raises when
  telemetry raises plain exceptions only; a span around a computation has the outcome of the computation,
  also when spans are nested; and what reaches telemetry is an allowed attribute of bounded size.
\<close>

section \<open>Actions\<close>

text \<open>An action on a state: the state changes also when it raises.  \<open>act_try\<close> is \<open>except Exception\<close>.\<close>

type_synonym ('s, 'a) act = "'s \<Rightarrow> 'a res \<times> 's"

definition act_return :: "'a \<Rightarrow> ('s, 'a) act" where
  "act_return x s = (Inr x, s)"

definition act_then :: "('s, 'a) act \<Rightarrow> ('a \<Rightarrow> ('s, 'b) act) \<Rightarrow> ('s, 'b) act" where
  "act_then m f s = (case m s of (Inl e, s') \<Rightarrow> (Inl e, s') | (Inr x, s') \<Rightarrow> f x s')"

definition act_try :: "('s, 'a) act \<Rightarrow> ('s, 'a) act \<Rightarrow> ('s, 'a) act" where
  "act_try m handler s =
     (case m s of (Inl e, s') \<Rightarrow> if catches PyException e then handler s' else (Inl e, s') | (Inr x, s') \<Rightarrow> (Inr x, s'))"

section \<open>Telemetry\<close>

text \<open>
  The calls of OpenTelemetry: the import of its SDK, the current provider, a new provider for a service,
  the exporter, a span of a tracer entered and left, an attribute set on it, headers injected and
  extracted, and the context of the current span (whether it is valid, and the trace it belongs to).
\<close>

record ('t, 'p, 'q, 's, 'c) otel =
  ot_sdk :: "('t, unit) act"
  ot_current :: "('t, 'p) act"
  ot_proxy :: "'p \<Rightarrow> bool"
  ot_new_provider :: "string \<Rightarrow> ('t, 'p) act"
  ot_set_provider :: "'p \<Rightarrow> ('t, unit) act"
  ot_exporter :: "('t, 'q) act"
  ot_extensible :: "'p \<Rightarrow> bool"
  ot_add :: "'p \<Rightarrow> 'q \<Rightarrow> ('t, unit) act"
  ot_enter :: "string \<Rightarrow> string \<Rightarrow> string \<Rightarrow> ('t, 's) act"
  ot_set :: "'s \<Rightarrow> string \<Rightarrow> json \<Rightarrow> ('t, unit) act"
  ot_exit :: "'s \<Rightarrow> exn option \<Rightarrow> ('t, unit) act"
  ot_inject :: "((string \<times> string) list, unit) act"
  ot_extract :: "(string \<times> string) list \<Rightarrow> 'c res"
  ot_context :: "'t \<Rightarrow> (bool \<times> nat) res"

record ('p, 't) tracing =
  tr_initialized :: bool
  tr_provider :: "'p option"
  tr_otel :: 't

definition otel_call :: "('t, 'a) act \<Rightarrow> (('p, 't) tracing, 'a) act" where
  "otel_call f s = (case f (tr_otel s) of (r, t) \<Rightarrow> (r, s\<lparr>tr_otel := t\<rparr>))"

definition set_provider :: "'p option \<Rightarrow> (('p, 't) tracing, unit) act" where
  "set_provider p s = (Inr (), s\<lparr>tr_provider := p\<rparr>)"

definition endpoint_configured :: "env_vars \<Rightarrow> bool" where
  "endpoint_configured vars \<longleftrightarrow>
     getenv_opt vars ''OTEL_EXPORTER_OTLP_ENDPOINT'' \<noteq> None \<or> getenv_opt vars ''OTEL_EXPORTER_OTLP_TRACES_ENDPOINT'' \<noteq> None"

definition attach_exporter :: "('t, 'p, 'q, 's, 'c) otel \<Rightarrow> 'p \<Rightarrow> (('p, 't) tracing, unit) act" where
  "attach_exporter ot p =
     act_try (act_then (otel_call (ot_exporter ot)) (\<lambda>q. otel_call (ot_add ot p q))) (act_return ())"

definition install_provider :: "('t, 'p, 'q, 's, 'c) otel \<Rightarrow> (('p, 't) tracing, 'p) act" where
  "install_provider ot =
     act_then (otel_call (ot_sdk ot)) (\<lambda>_.
     act_then (otel_call (ot_current ot)) (\<lambda>existing.
       if ot_proxy ot existing
       then act_then (otel_call (ot_new_provider ot ''release-sentinel'')) (\<lambda>p.
            act_then (otel_call (ot_set_provider ot p)) (\<lambda>_.
            act_then (set_provider (Some p)) (\<lambda>_. act_return p)))
       else act_then (set_provider (Some existing)) (\<lambda>_. act_return existing)))"

definition configure_provider :: "('t, 'p, 'q, 's, 'c) otel \<Rightarrow> env_vars \<Rightarrow> (('p, 't) tracing, unit) act" where
  "configure_provider ot vars s =
    (if tr_initialized s then (Inr (), s) else
     act_try
       (act_then (install_provider ot) (\<lambda>p.
          if endpoint_configured vars \<and> ot_extensible ot p then attach_exporter ot p else act_return ()))
       (set_provider None)
       (s\<lparr>tr_initialized := True\<rparr>))"

definition add_span_processor :: "('t, 'p, 'q, 's, 'c) otel \<Rightarrow> env_vars \<Rightarrow> 'q \<Rightarrow> (('p, 't) tracing, bool) act" where
  "add_span_processor ot vars processor =
     act_then (configure_provider ot vars) (\<lambda>_ s.
       case tr_provider s of
         None \<Rightarrow> (Inr False, s)
       | Some p \<Rightarrow>
           if \<not> ot_extensible ot p then (Inr False, s)
           else act_try (act_then (otel_call (ot_add ot p processor)) (\<lambda>_. act_return True)) (act_return False) s)"

section \<open>Attributes\<close>

definition allowed_attributes :: "string list" where
  "allowed_attributes =
    [''component'', ''agent_id'', ''agent_role'', ''decision_authority'', ''evidence_authority'', ''verdict'',
     ''agent_influence'', ''llm_present'']"

definition max_string_value :: nat where "max_string_value = 96"

fun bounded_value :: "json \<Rightarrow> json option" where
  "bounded_value (JBool b) = Some (JBool b)"
| "bounded_value (JInt i) = Some (JInt i)"
| "bounded_value (JFloat f) = Some (JFloat f)"
| "bounded_value (JStr s) = Some (JStr (py_take max_string_value s))"
| "bounded_value JNull = None"
| "bounded_value j = Some (JStr (py_take max_string_value (py_str j)))"

datatype 's span = Span 's | NullSpan

fun set_attribute :: "('t, 'p, 'q, 's, 'c) otel \<Rightarrow> 's span \<Rightarrow> string \<Rightarrow> json \<Rightarrow> (('p, 't) tracing, unit) act" where
  "set_attribute ot (Span sp) k v = otel_call (ot_set ot sp k v)"
| "set_attribute ot NullSpan k v = act_return ()"

fun set_safe_attributes :: "('t, 'p, 'q, 's, 'c) otel \<Rightarrow> 's span \<Rightarrow> (string \<times> json) list \<Rightarrow> (('p, 't) tracing, unit) act" where
  "set_safe_attributes ot sp [] = act_return ()"
| "set_safe_attributes ot sp ((k, v) # rest) =
     (if k \<notin> set allowed_attributes then set_safe_attributes ot sp rest else
      case bounded_value v of
        None \<Rightarrow> set_safe_attributes ot sp rest
      | Some bounded \<Rightarrow>
          act_then (act_try (set_attribute ot sp k bounded) (act_return ())) (\<lambda>_. set_safe_attributes ot sp rest))"

section \<open>Spans\<close>

definition tracer_name :: string where "tracer_name = ''release-sentinel.control-plane''"

definition enter_span ::
    "('t, 'p, 'q, 's, 'c) otel \<Rightarrow> env_vars \<Rightarrow> string \<Rightarrow> string \<Rightarrow> (string \<times> json) list \<Rightarrow> (('p, 't) tracing, 's) act" where
  "enter_span ot vars version name attributes =
     act_then (configure_provider ot vars) (\<lambda>_.
     act_then (otel_call (ot_enter ot tracer_name version name)) (\<lambda>sp.
     act_then (set_safe_attributes ot (Span sp) attributes) (\<lambda>_. act_return sp)))"

definition exit_span :: "('t, 'p, 'q, 's, 'c) otel \<Rightarrow> 's \<Rightarrow> exn option \<Rightarrow> (('p, 't) tracing, unit) act" where
  "exit_span ot sp raised = act_try (otel_call (ot_exit ot sp raised)) (act_return ())"

text \<open>
  The body of a span, on the state of tracing and the program's own state: a \<open>with\<close> statement.  An
  exception of the body is raised again after the span is left.
\<close>

type_synonym ('p, 't, 's, 'w, 'a) span_body = "'s span \<Rightarrow> (('p, 't) tracing \<times> 'w, 'a) act"

definition safe_span ::
    "('t, 'p, 'q, 's, 'c) otel \<Rightarrow> env_vars \<Rightarrow> string \<Rightarrow> string \<Rightarrow> (string \<times> json) list \<Rightarrow> ('p, 't, 's, 'w, 'a) span_body \<Rightarrow>
     (('p, 't) tracing \<times> 'w, 'a) act" where
  "safe_span ot vars version name attributes body = (\<lambda>(s, w).
     case enter_span ot vars version name attributes s of
       (Inl e, s1) \<Rightarrow> if catches PyException e then body NullSpan (s1, w) else (Inl e, (s1, w))
     | (Inr sp, s1) \<Rightarrow>
         (case body (Span sp) (s1, w) of (r, (s2, w2)) \<Rightarrow>
          (case exit_span ot sp (case r of Inl e \<Rightarrow> Some e | Inr _ \<Rightarrow> None) s2 of
             (Inl e, s3) \<Rightarrow> (Inl e, (s3, w2))
           | (Inr _, s3) \<Rightarrow> (r, (s3, w2)))))"

section \<open>Trace context\<close>

text \<open>\<open>str.title\<close> on ASCII text.\<close>

definition is_letter :: "char \<Rightarrow> bool" where
  "is_letter c \<longleftrightarrow> ascii_upper c \<noteq> ascii_lower c"

fun title_from :: "bool \<Rightarrow> string \<Rightarrow> string" where
  "title_from cased [] = []"
| "title_from cased (c # s) = (if cased then ascii_lower c else ascii_upper c) # title_from (is_letter c) s"

definition header_get :: "(string \<times> string) list \<Rightarrow> string \<Rightarrow> string list option" where
  "header_get carrier key =
    (let truth = (\<lambda>v. case v of Some x \<Rightarrow> x \<noteq> [] | None \<Rightarrow> False);
         exact = map_of carrier key; low = map_of carrier (lower key); title = map_of carrier (title_from False key);
         value = (if truth exact then exact else if truth low then low else title) in
     map_option (\<lambda>v. [v]) value)"

definition header_set :: "(string \<times> string) list \<Rightarrow> string \<Rightarrow> string \<Rightarrow> (string \<times> string) list" where
  "header_set carrier key value = dict_set key value carrier"

definition inject_trace_context :: "('t, 'p, 'q, 's, 'c) otel \<Rightarrow> ((string \<times> string) list, unit) act" where
  "inject_trace_context ot = act_try (ot_inject ot) (act_return ())"

definition extract_trace_context :: "('t, 'p, 'q, 's, 'c) otel \<Rightarrow> (string \<times> string) list \<Rightarrow> 'c option res" where
  "extract_trace_context ot headers =
    (case ot_extract ot headers of
       Inr c \<Rightarrow> Inr (Some c)
     | Inl e \<Rightarrow> if catches PyException e then Inr None else Inl e)"

text \<open>\<open>f"{n:032x}"\<close>.\<close>

fun nat_hex :: "nat \<Rightarrow> string" where
  "nat_hex n = (if n < 16 then [hexdigit n] else nat_hex (n div 16) @ [hexdigit (n mod 16)])"

declare nat_hex.simps [simp del]

definition hex32 :: "nat \<Rightarrow> string" where
  "hex32 n = (let h = nat_hex n in replicate (32 - length h) CHR ''0'' @ h)"

definition current_trace_id :: "('t, 'p, 'q, 's, 'c) otel \<Rightarrow> 't \<Rightarrow> string option res" where
  "current_trace_id ot t =
    (case ot_context ot t of
       Inl e \<Rightarrow> if catches PyException e then Inr None else Inl e
     | Inr (valid, trace_id) \<Rightarrow> Inr (if valid then Some (hex32 trace_id) else None))"

section \<open>Lemmas: telemetry does not raise\<close>

text \<open>\<open>plain_act\<close>: raises plain exceptions only; \<open>silent\<close>: raises nothing.\<close>

definition plain_act :: "('s, 'a) act \<Rightarrow> bool" where
  "plain_act m \<longleftrightarrow> (\<forall>s. plain_error (fst (m s)))"

definition silent :: "('s, 'a) act \<Rightarrow> bool" where
  "silent m \<longleftrightarrow> (\<forall>s. ok (fst (m s)))"

definition plain_otel :: "('t, 'p, 'q, 's, 'c) otel \<Rightarrow> bool" where
  "plain_otel ot \<longleftrightarrow> plain_act (ot_sdk ot) \<and> plain_act (ot_current ot) \<and> (\<forall>n. plain_act (ot_new_provider ot n)) \<and>
     (\<forall>p. plain_act (ot_set_provider ot p)) \<and> plain_act (ot_exporter ot) \<and> (\<forall>p q. plain_act (ot_add ot p q)) \<and>
     (\<forall>t v n. plain_act (ot_enter ot t v n)) \<and> (\<forall>s k v. plain_act (ot_set ot s k v)) \<and> (\<forall>s e. plain_act (ot_exit ot s e)) \<and>
     plain_act (ot_inject ot) \<and> (\<forall>h. plain_error (ot_extract ot h)) \<and> (\<forall>t. plain_error (ot_context ot t))"

named_theorems act_rules \<open>actions that raise nothing, or plain exceptions only\<close>

lemma silent_plain: "silent m \<Longrightarrow> plain_act m"
  unfolding silent_def plain_act_def plain_error_def by (metis ok_simps(2))

lemma act_return_silent [act_rules]: "silent (act_return x)" "plain_act (act_return x)" "silent (set_provider p)" "plain_act (set_provider p)"
  by (simp_all add: silent_def plain_act_def act_return_def set_provider_def)

lemma act_then_plain [act_rules]: "plain_act m \<Longrightarrow> (\<And>x. plain_act (f x)) \<Longrightarrow> plain_act (act_then m f)"
  unfolding plain_act_def act_then_def
proof
  fix s
  assume m: "\<forall>s. plain_error (fst (m s))" and f: "\<And>x. \<forall>s. plain_error (fst (f x s))"
  show "plain_error (fst (case m s of (Inl e, s') \<Rightarrow> (Inl e, s') | (Inr x, s') \<Rightarrow> f x s'))"
  proof (cases "m s")
    case (Pair r s')
    then show ?thesis using m[rule_format, of s] f by (cases r) (simp_all add: plain_error_def)
  qed
qed

lemma act_then_silent [act_rules]: "silent m \<Longrightarrow> (\<And>x. silent (f x)) \<Longrightarrow> silent (act_then m f)"
  by (auto simp: silent_def act_then_def split: prod.splits sum.splits) (metis fst_conv ok_simps(2))+

lemma act_try_silent [act_rules]: "plain_act m \<Longrightarrow> silent h \<Longrightarrow> silent (act_try m h)"
  by (auto simp: silent_def plain_act_def act_try_def plain_error_def split: prod.splits sum.splits) (metis fst_conv)+

lemma otel_call_plain [act_rules]: "plain_act f \<Longrightarrow> plain_act (otel_call f)"
  by (simp add: plain_act_def otel_call_def split: prod.split) (metis fst_conv)

lemma if_act [act_rules]: "plain_act m \<Longrightarrow> plain_act m' \<Longrightarrow> plain_act (if b then m else m')"
  "silent m \<Longrightarrow> silent m' \<Longrightarrow> silent (if b then m else m')"
  by simp_all

lemma plain_otelD [act_rules]:
  assumes "plain_otel ot"
  shows "plain_act (ot_sdk ot)" "plain_act (ot_current ot)" "plain_act (ot_new_provider ot n)" "plain_act (ot_set_provider ot p)"
    "plain_act (ot_exporter ot)" "plain_act (ot_add ot p q)" "plain_act (ot_enter ot t v n)" "plain_act (ot_set ot sp k w)"
    "plain_act (ot_exit ot sp e)" "plain_act (ot_inject ot)"
  using assms unfolding plain_otel_def by blast+

lemma configure_silent [act_rules]: "plain_otel ot \<Longrightarrow> silent (configure_provider ot vars)"
proof -
  assume ot: "plain_otel ot"
  have "silent (act_try (act_then (install_provider ot) (\<lambda>p.
      if endpoint_configured vars \<and> ot_extensible ot p then attach_exporter ot p else act_return ())) (set_provider None))"
    unfolding install_provider_def attach_exporter_def by (intro act_rules silent_plain ot)
  then show ?thesis by (simp add: silent_def configure_provider_def)
qed

lemma set_attribute_plain: "plain_otel ot \<Longrightarrow> plain_act (set_attribute ot sp k v)"
  by (cases sp) (auto intro: act_rules)

lemma set_safe_silent [act_rules]: "plain_otel ot \<Longrightarrow> silent (set_safe_attributes ot sp attrs)"
proof (induction ot sp attrs rule: set_safe_attributes.induct)
  case (2 ot sp k v rest)
  have a: "silent (act_try (set_attribute ot sp k b) (act_return ()))" for b
    by (intro act_rules set_attribute_plain 2)
  show ?case
  proof (cases "k \<in> set allowed_attributes")
    case True
    show ?thesis
    proof (cases "bounded_value v")
      case None
      then show ?thesis using True 2 by simp
    next
      case (Some b)
      then have "silent (set_safe_attributes ot sp rest)" using 2 True by blast
      then show ?thesis using True Some a by (auto intro: act_then_silent)
    qed
  next
    case False
    then show ?thesis using 2 by simp
  qed
qed (simp add: act_rules)

lemma enter_span_plain: "plain_otel ot \<Longrightarrow> plain_act (enter_span ot vars version name attrs)"
  unfolding enter_span_def by (intro act_rules silent_plain; assumption)

lemma exit_span_silent: "plain_otel ot \<Longrightarrow> silent (exit_span ot sp raised)"
  unfolding exit_span_def by (intro act_rules)

text \<open>The other operations of the module.\<close>

lemma module_silent:
  assumes "plain_otel ot"
  shows "silent (add_span_processor ot vars q)" "silent (inject_trace_context ot)"
    "ok (extract_trace_context ot headers)" "ok (current_trace_id ot t)"
proof -
  have added: "silent (act_try (act_then (otel_call (ot_add ot p q)) (\<lambda>_. act_return True)) (act_return False))" for p
    by (intro act_rules assms)
  have "silent (\<lambda>s. case tr_provider s of None \<Rightarrow> (Inr False, s)
      | Some p \<Rightarrow> if \<not> ot_extensible ot p then (Inr False, s)
                  else act_try (act_then (otel_call (ot_add ot p q)) (\<lambda>_. act_return True)) (act_return False) s)"
    using added unfolding silent_def by (auto split: option.split)
  then show "silent (add_span_processor ot vars q)"
    unfolding add_span_processor_def by (intro act_then_silent configure_silent assms)
  show "silent (inject_trace_context ot)" unfolding inject_trace_context_def by (intro act_rules assms)
  have "plain_error (ot_extract ot headers)" "plain_error (ot_context ot t)" using assms by (simp_all add: plain_otel_def)
  then show "ok (extract_trace_context ot headers)" "ok (current_trace_id ot t)"
    by (auto simp: extract_trace_context_def current_trace_id_def plain_error_def split: sum.split)
qed

section \<open>Lemmas: a span has the outcome of its body\<close>

text \<open>What is seen of a run, without the state of tracing; a body that takes nothing from tracing.\<close>

definition observe :: "'a res \<times> ('st \<times> 'w) \<Rightarrow> 'a res \<times> 'w" where
  "observe o' = (fst o', snd (snd o'))"

definition blind :: "('p, 't, 's, 'w, 'a) span_body \<Rightarrow> bool" where
  "blind body \<longleftrightarrow> (\<forall>h h' s s' w. observe (body h (s, w)) = observe (body h' (s', w)))"

lemma safe_span_body:
  assumes "plain_otel ot"
  shows "\<exists>h s1. observe (safe_span ot vars version name attrs body (s, w)) = observe (body h (s1, w))"
proof (cases "enter_span ot vars version name attrs s")
  case (Pair entered s1)
  show ?thesis
  proof (cases entered)
    case (Inl e)
    have "catches PyException e"
      using enter_span_plain[OF assms, of vars version name attrs] Pair Inl
      by (metis fst_conv plain_act_def plain_error_def)
    then have "safe_span ot vars version name attrs body (s, w) = body NullSpan (s1, w)"
      by (simp add: safe_span_def Pair Inl)
    then show ?thesis by metis
  next
    case (Inr sp)
    obtain r s2 w2 where b: "body (Span sp) (s1, w) = (r, (s2, w2))" by (metis surj_pair)
    obtain u s3 where x: "exit_span ot sp (case r of Inl e \<Rightarrow> Some e | Inr _ \<Rightarrow> None) s2 = (Inr u, s3)"
      using exit_span_silent[OF assms] unfolding silent_def ok_iff by (metis fst_conv surj_pair)
    have "safe_span ot vars version name attrs body (s, w) = (r, (s3, w2))"
      using x by (simp add: safe_span_def Pair Inr b)
    then have "observe (safe_span ot vars version name attrs body (s, w)) = observe (body (Span sp) (s1, w))"
      by (simp add: observe_def b)
    then show ?thesis by blast
  qed
qed

lemma span_transparent:
  assumes "plain_otel ot" "blind body"
  shows "observe (safe_span ot vars version name attrs body (s, w)) = observe (body NullSpan (s, w))"
  using safe_span_body[OF assms(1)] assms(2) unfolding blind_def by metis

text \<open>Spans nest, and a body may set attributes on its span.\<close>

definition tracing_act :: "(('p, 't) tracing, 'a) act \<Rightarrow> (('p, 't) tracing \<times> 'w, 'a) act" where
  "tracing_act m = (\<lambda>(s, w). case m s of (r, s') \<Rightarrow> (r, (s', w)))"

lemma blind_span: "plain_otel ot \<Longrightarrow> blind body \<Longrightarrow> blind (\<lambda>h. safe_span ot vars version name attrs body)"
  unfolding blind_def[of "\<lambda>h. safe_span ot vars version name attrs body"]
  using span_transparent[of ot body] unfolding blind_def by metis

lemma blind_attributes:
  assumes "plain_otel ot" "blind body"
  shows "blind (\<lambda>h. act_then (tracing_act (set_safe_attributes ot h attrs)) (\<lambda>_. body h))"
proof -
  have "\<exists>s'. act_then (tracing_act (set_safe_attributes ot h attrs)) (\<lambda>_. body h) (s, w) = body h (s', w)" for h s w
  proof -
    obtain u s' where "set_safe_attributes ot h attrs s = (Inr u, s')"
      using set_safe_silent[OF assms(1)] unfolding silent_def ok_iff by (metis fst_conv surj_pair)
    then have "act_then (tracing_act (set_safe_attributes ot h attrs)) (\<lambda>_. body h) (s, w) = body h (s', w)"
      by (simp add: act_then_def tracing_act_def)
    then show ?thesis by blast
  qed
  then show ?thesis using assms(2) unfolding blind_def by metis
qed

section \<open>Lemmas: what reaches telemetry\<close>

fun small_value :: "json \<Rightarrow> bool" where
  "small_value (JStr s) = (py_len s \<le> 96)"
| "small_value (JBool b) = True"
| "small_value (JInt i) = True"
| "small_value (JFloat f) = True"
| "small_value j = False"

lemma bounded_small: "bounded_value v = Some b \<Longrightarrow> small_value b"
  using py_take_length[of 96] by (cases v) (auto simp: max_string_value_def simp del: py_str.simps py_take.simps)

text \<open>Telemetry that does something else on any attribute but an allowed, small one.\<close>

definition guarded ::
    "('s \<Rightarrow> string \<Rightarrow> json \<Rightarrow> ('t, unit) act) \<Rightarrow> ('t, 'p, 'q, 's, 'c) otel \<Rightarrow> ('t, 'p, 'q, 's, 'c) otel" where
  "guarded other ot = ot\<lparr>ot_set := \<lambda>sp k v. if k \<in> set allowed_attributes \<and> small_value v then ot_set ot sp k v else other sp k v\<rparr>"

lemma set_safe_guarded: "set_safe_attributes (guarded other ot) sp attrs = set_safe_attributes ot sp attrs"
proof (induction ot sp attrs rule: set_safe_attributes.induct)
  case (2 ot sp k v rest)
  have "set_attribute (guarded other ot) sp k b = set_attribute ot sp k b"
    if "k \<in> set allowed_attributes" "bounded_value v = Some b" for b
    using that bounded_small[OF that(2)] by (cases sp) (simp_all add: guarded_def)
  then show ?case using 2 by (auto split: option.split)
qed simp

lemma safe_span_guarded:
  "safe_span (guarded other ot) vars version name attrs body = safe_span ot vars version name attrs body"
proof -
  have c: "configure_provider (guarded other ot) vars = configure_provider ot vars"
    by (rule ext) (simp add: configure_provider_def install_provider_def attach_exporter_def guarded_def cong: if_cong)
  have e: "enter_span (guarded other ot) vars version name attrs = enter_span ot vars version name attrs"
    unfolding enter_span_def c set_safe_guarded by (simp add: guarded_def)
  have "exit_span (guarded other ot) = exit_span ot"
    by (simp add: exit_span_def[abs_def] guarded_def)
  then show ?thesis unfolding safe_span_def e by (simp only:)
qed

text \<open>A trace identifier is printed in 32 digits.\<close>

lemma nat_hex_length: "n < 16 ^ k \<Longrightarrow> 0 < k \<Longrightarrow> length (nat_hex n) \<le> k"
proof (induction k arbitrary: n)
  case (Suc k)
  show ?case
  proof (cases "n < 16")
    case False
    then have "n div 16 < 16 ^ k" "0 < k" using Suc.prems(1) by (auto simp: less_mult_imp_div_less mult.commute intro: gr0I)
    then show ?thesis using Suc.IH[of "n div 16"] False by (subst nat_hex.simps) simp
  qed (subst nat_hex.simps, simp)
qed simp

lemma nat_hex_digits: "list_all is_hex (nat_hex n)"
proof (induction n rule: nat_hex.induct)
  case (1 n)
  then show ?case by (subst nat_hex.simps) (simp add: hexdigit_hex)
qed

lemma hex32_shape: "n < 2 ^ 128 \<Longrightarrow> length (hex32 n) = 32 \<and> list_all is_hex (hex32 n)"
proof -
  assume "n < 2 ^ 128"
  then have "length (nat_hex n) \<le> 32" using nat_hex_length[of n 32] by (simp add: power_mult[symmetric])
  moreover have "is_hex CHR ''0''" by code_simp
  ultimately show ?thesis using nat_hex_digits[of n] by (auto simp: hex32_def Let_def list_all_append list_all_iff)
qed

end
