(* ===== verification/Traced_Engine.thy ===== *)
theory Traced_Engine
  imports Tracing Engine
begin

text \<open>
  release/engine.py with its spans: \<open>evaluate\<close> opens the root span, and the pipeline sets attributes on
  it when the evidence is sealed and when the verdict is there.  The state is the one of tracing; the
  executor, the advisor and the gate are the parameters of theory Engine, whose \<open>evaluate\<close> is the same
  pipeline without telemetry.  The lemmas: the two give the same report or exception.
\<close>

definition pure_act :: "'a res \<Rightarrow> ('s, 'a) act" where
  "pure_act r s = (r, s)"

definition pipeline_attributes :: "(string \<times> json) list" where
  "pipeline_attributes =
    [(''component'', JStr ''release-sentinel-python''), (''decision_authority'', JStr ''DETERMINISTIC''),
     (''evidence_authority'', JStr ''ORGANIZATION_POLICY''), (''agent_influence'', JInt 0), (''llm_present'', JBool False)]"

definition traced_pipeline ::
    "('t, 'p, 'q, 's, 'c) otel \<Rightarrow> executor \<Rightarrow> advisor option \<Rightarrow> gate \<Rightarrow> fs_entry list \<Rightarrow> string \<times> string \<Rightarrow>
     release_request \<Rightarrow> release_policy \<Rightarrow> ('p, 't, 's, 'w, release_report) span_body" where
  "traced_pipeline ot execute advisor decide entries stamp request policy root_span =
    act_then (pure_act (collect_evidence execute entries request policy)) (\<lambda>(findings, executions).
      let seal = finding_set_sha256 findings in
    act_then (tracing_act (set_safe_attributes ot root_span [(''evidence_sha256'', JStr seal)])) (\<lambda>_.
      let (advisory, sealed) = collect_advisory advisor request findings in
    act_then (pure_act advisory) (\<lambda>advisory.
      if finding_set_sha256 sealed \<noteq> seal
      then pure_act (raise EvidenceIntegrityError ''advisory stage mutated sealed evidence; no verdict was issued'') else
    act_then (pure_act (opinions_of advisory)) (\<lambda>opinions.
    act_then (pure_act (decide (rq_release_id request) sealed opinions)) (\<lambda>v.
      if gv_llm_present v \<or> gv_agent_influence v \<noteq> 0
      then pure_act (raise RuntimeError ''gatekeeper violated deterministic authority contract'') else
    act_then (tracing_act (set_safe_attributes ot root_span
        [(''verdict'', JStr (decision_value (gv_decision v))), (''agent_influence'', JInt (gv_agent_influence v)),
         (''llm_present'', JBool (gv_llm_present v))])) (\<lambda>_.
      pure_act (make_report
        \<lparr>rr_report_id = ''report-'' @ fst stamp,
         rr_release_id = rq_release_id request,
         rr_decision = gv_decision v,
         rr_findings = sealed,
         rr_rationale = gv_rationale v,
         rr_policy_id = policy_id policy,
         rr_policy_revision = revision policy,
         rr_policy_sha256 = rp_sha256 policy,
         rr_execution_count = int executions,
         rr_evidence_sha256 = seal,
         rr_advisory = advisory,
         rr_gatekeeper = verdict_to_dict v,
         rr_created_at = snd stamp\<rparr>)))))))"

definition traced_evaluate ::
    "('t, 'p, 'q, 's, 'c) otel \<Rightarrow> env_vars \<Rightarrow> executor \<Rightarrow> advisor option \<Rightarrow> gate \<Rightarrow> fs_entry list \<Rightarrow> string \<times> string \<Rightarrow>
     release_request \<Rightarrow> release_policy \<Rightarrow> (('p, 't) tracing \<times> 'w, release_report) act" where
  "traced_evaluate ot vars execute advisor decide entries stamp request policy =
     safe_span ot vars ''2.3.0'' ''release_verdict_pipeline'' pipeline_attributes
       (traced_pipeline ot execute advisor decide entries stamp request policy)"

section \<open>Lemmas: telemetry has no say\<close>

lemma pure_then: "act_then (pure_act r) f s = (case r of Inl e \<Rightarrow> (Inl e, s) | Inr x \<Rightarrow> f x s)"
  by (simp add: act_then_def pure_act_def)

lemma silent_then:
  assumes "silent m"
  shows "\<exists>s'. act_then (tracing_act m) (\<lambda>_. pure_act r) (s, w) = (r, (s', w))"
proof -
  obtain u s' where "m s = (Inr u, s')"
    using assms unfolding silent_def ok_iff by (metis fst_conv surj_pair)
  then show ?thesis by (auto simp: act_then_def tracing_act_def pure_act_def)
qed

text \<open>The seal is not an allowed attribute, so setting it sets nothing.\<close>

lemma seal_is_not_exported: "set_safe_attributes ot sp [(''evidence_sha256'', v)] = act_return ()"
  by (simp add: allowed_attributes_def)

lemma tracing_return_then: "act_then (tracing_act (act_return ())) f p = f () p"
  by (cases p) (simp add: act_then_def tracing_act_def act_return_def)

lemma traced_pipeline_result:
  assumes ot: "plain_otel ot"
  shows "\<exists>s'. traced_pipeline ot execute advisor decide entries stamp request policy h (s, w) =
    (evaluate execute advisor decide entries stamp request policy, (s', w))"
proof (cases "collect_evidence execute entries request policy")
  case (Inl e)
  then show ?thesis by (simp add: traced_pipeline_def evaluate_def pure_then)
next
  case (Inr p)
  obtain fs n where p: "p = (fs, n)" by (rule prod.exhaust)
  obtain advisory sealed where a: "collect_advisory advisor request fs = (advisory, sealed)" by (rule prod.exhaust)
  note c = Inr[unfolded p]
  note defs = traced_pipeline_def evaluate_def c Let_def seal_is_not_exported tracing_return_then pure_then pure_act_def raise_def a
  show ?thesis
  proof (cases advisory)
    case (Inr adv)
    show ?thesis
    proof (cases "opinions_of adv")
      case (Inr ops)
      note o = \<open>advisory = Inr adv\<close> Inr
      show ?thesis
      proof (cases "decide (rq_release_id request) sealed ops")
        case (Inr v)
        show ?thesis
          using silent_then[OF set_safe_silent[OF ot, of h
              "[(''verdict'', JStr (decision_value (gv_decision v))), (''agent_influence'', JInt (gv_agent_influence v)),
                (''llm_present'', JBool (gv_llm_present v))]"], of _ s w]
          by (cases "gv_llm_present v \<or> gv_agent_influence v \<noteq> 0")
            (auto simp: defs o Inr simp del: set_safe_attributes.simps)
      qed (simp add: defs o del: set_safe_attributes.simps)
    qed (simp add: defs \<open>advisory = Inr adv\<close> del: set_safe_attributes.simps)
  qed (simp add: defs del: set_safe_attributes.simps)
qed

lemma traced_pipeline_blind:
  assumes "plain_otel ot"
  shows "blind (traced_pipeline ot execute advisor decide entries stamp request policy)"
  unfolding blind_def observe_def using traced_pipeline_result[OF assms] by (metis fst_conv snd_conv)

lemma traced_evaluate_result:
  assumes "plain_otel ot"
  shows "observe (traced_evaluate ot vars execute advisor decide entries stamp request policy (s, w)) =
    (evaluate execute advisor decide entries stamp request policy, w)"
  unfolding traced_evaluate_def span_transparent[OF assms traced_pipeline_blind[OF assms]]
  using traced_pipeline_result[OF assms, of execute advisor decide entries stamp request policy NullSpan s w]
  by (auto simp: observe_def)

end
