(* ===== verification/Tracing_Claims.thy ===== *)
theory Tracing_Claims
  imports Samples Traced_Engine
begin

text \<open>
  Properties of telemetry: it has no say in a release, and what reaches it is bounded.
\<close>

text \<open>Property C24. The release pipeline run inside its spans gives the report or the exception it gives without
  telemetry, and leaves the rest of the program's state as it leaves it, whatever the telemetry library does
  short of raising outside \<open>Exception\<close>: no provider, no exporter, every call failing.\<close>

theorem tracing_does_not_change_verdicts:
  assumes "plain_otel ot"
  shows "observe (traced_evaluate ot vars execute advisor decide entries stamp request policy (s, w)) =
    (evaluate execute advisor decide entries stamp request policy, w)"
  by (rule traced_evaluate_result[OF assms])

text \<open>Telemetry whose every call fails.\<close>

definition broken_call :: "('t, 'a) act" where
  "broken_call t = (raise RuntimeError ''telemetry is down'', t)"

definition broken_otel :: "(nat, nat, nat, nat, nat) otel" where
  "broken_otel = \<lparr>ot_sdk = broken_call, ot_current = broken_call, ot_proxy = (\<lambda>p. True), ot_new_provider = (\<lambda>n. broken_call),
     ot_set_provider = (\<lambda>p. broken_call), ot_exporter = broken_call, ot_extensible = (\<lambda>p. True),
     ot_add = (\<lambda>p q. broken_call), ot_enter = (\<lambda>t v n. broken_call), ot_set = (\<lambda>s k v. broken_call),
     ot_exit = (\<lambda>s e. broken_call), ot_inject = broken_call, ot_extract = (\<lambda>h. raise RuntimeError ''telemetry is down''),
     ot_context = (\<lambda>t. raise RuntimeError ''telemetry is down'')\<rparr>"

theorem tracing_does_not_change_verdicts_witness:
  "observe (traced_evaluate broken_otel Map.empty demo_executor None local_gatekeeper [] (''id'', ''now'') demo_request demo_policy
     (\<lparr>tr_initialized = False, tr_provider = None, tr_otel = 0\<rparr>, ())) =
   (evaluate demo_executor None local_gatekeeper [] (''id'', ''now'') demo_request demo_policy, ())"
proof (rule tracing_does_not_change_verdicts)
  have "catches PyException (RuntimeError, m)" for m by (simp add: catches_def)
  then show "plain_otel broken_otel"
    by (simp add: plain_otel_def plain_act_def plain_error_def broken_otel_def broken_call_def raise_def)
qed

text \<open>Property C25. Only the eight allowed attributes reach a span, and only as a flag, a number or a text of at most 96
  characters: a telemetry library that behaved differently, in any way, on every other attribute would see
  no difference, when attributes are set and over the whole life of a span.\<close>

theorem telemetry_gets_bounded_attributes:
  "set_safe_attributes (guarded other ot) sp attrs = set_safe_attributes ot sp attrs \<and>
   safe_span (guarded other ot) vars version name attrs body = safe_span ot vars version name attrs body"
  by (simp only: set_safe_guarded safe_span_guarded simp_thms)

text \<open>The engine sets the digest of the sealed evidence on its span; it is not an allowed attribute, so it never gets there.\<close>

lemma evidence_digest_is_not_exported:
  "set_safe_attributes ot sp [(''evidence_sha256'', v)] s = (Inr (), s)"
  by (simp only: seal_is_not_exported act_return_def)

end
