(* ===== verification/Ledger.thy ===== *)
theory Ledger
  imports Agents Policy
begin

text \<open>
  \<open>FirestoreReportLedger\<close> of infrastructure/firestore.py: the append-only reports and the bounded query
  for the history of one release.  The client of the database is a parameter: \<open>create_doc\<close> files a
  document or raises, \<open>run_query\<close> answers a range query on one field.  \<open>report_database\<close> states what
  Firestore documents of the two.  The lemmas: which reports a query can return, when these are exactly
  the reports of the release, and that an appended report is found again.
\<close>

section \<open>The ledger\<close>

definition history_key :: "string \<Rightarrow> string \<Rightarrow> string \<Rightarrow> string" where
  "history_key release_id created_at report_id =
     (if release_id = [] then [] else release_id @ '':'' @ created_at @ '':'' @ report_id)"

definition ledger_document :: "string \<Rightarrow> json \<Rightarrow> json \<Rightarrow> json res" where
  "ledger_document report_id report provenance =
     and_then (attr_get report ''release_id'') (\<lambda>rid.
     and_then (attr_get report ''created_at'') (\<lambda>at. Inr (JObj
       [(''report'', report), (''provenance'', provenance),
        (''history_key'', JStr (history_key (py_str (or_else rid (JStr ''''))) (py_str (or_else at (JStr ''''))) report_id))])))"

definition append_payload ::
    "(string \<Rightarrow> json \<Rightarrow> 's \<Rightarrow> 's res) \<Rightarrow> string \<Rightarrow> json \<Rightarrow> json \<Rightarrow> 's \<Rightarrow> (string \<times> 's) res" where
  "append_payload create_doc report_id report provenance s =
     and_then (ledger_document report_id report provenance) (\<lambda>document.
     and_then (create_doc report_id document s) (\<lambda>s'. Inr (report_id, s')))"

definition append_report ::
    "(string \<Rightarrow> json \<Rightarrow> 's \<Rightarrow> 's res) \<Rightarrow> release_report \<Rightarrow> json \<Rightarrow> 's \<Rightarrow> (string \<times> 's) res" where
  "append_report create_doc r provenance s = append_payload create_doc (rr_report_id r) (report_to_dict r) provenance s"

text \<open>A range query: field, bounds, descending order, limit.  The upper bound ends in U+F8FF.\<close>

record range_query =
  qr_field :: string
  qr_low :: string
  qr_high :: string
  qr_limit :: nat

definition history_query :: "string \<Rightarrow> int \<Rightarrow> range_query" where
  "history_query release_id limit =
     (let prefix = release_id @ '':'' in
      \<lparr>qr_field = ''history_key'', qr_low = prefix, qr_high = prefix @ [CHR 0xEF, CHR 0xA3, CHR 0xBF], qr_limit = nat limit\<rparr>)"

definition recent_for_release ::
    "(range_query \<Rightarrow> 's \<Rightarrow> json list res) \<Rightarrow> string \<Rightarrow> int \<Rightarrow> 's \<Rightarrow> json list res" where
  "recent_for_release run_query release_id limit s =
     (if release_id = [] \<or> limit < 1 \<or> limit > 20 then raise ValueError ''release history query is out of bounds''
      else and_then (run_query (history_query release_id limit) s) (map_res (\<lambda>d. safe_report_summary (or_else d (JObj [])))))"

section \<open>The database\<close>

text \<open>
  What Firestore documents: a document is created if its identifier is free and changes no other one; a
  query returns documents that hold a string in the bounds (text is compared by its UTF-8 bytes), in
  descending order, at most as many as the limit, and all of them when these are enough.
\<close>

definition in_range :: "range_query \<Rightarrow> json \<Rightarrow> bool" where
  "in_range q d \<longleftrightarrow> (\<exists>v. obj_get d (qr_field q) = JStr v \<and> qr_low q \<le> v \<and> v \<le> qr_high q)"

definition query_law :: "('s \<Rightarrow> string \<rightharpoonup> json) \<Rightarrow> (range_query \<Rightarrow> 's \<Rightarrow> json list res) \<Rightarrow> bool" where
  "query_law docs run_query \<longleftrightarrow>
     (\<forall>q s ds. run_query q s = Inr ds \<longrightarrow>
        length ds \<le> qr_limit q \<and> sorted_wrt (\<lambda>d e. obj_get e (qr_field q) = obj_get d (qr_field q) \<or>
          (\<exists>v w. obj_get d (qr_field q) = JStr v \<and> obj_get e (qr_field q) = JStr w \<and> w \<le> v)) ds \<and>
        (\<forall>d\<in>set ds. in_range q d \<and> d \<in> ran (docs s)) \<and>
        (length ds < qr_limit q \<longrightarrow> (\<forall>d\<in>ran (docs s). in_range q d \<longrightarrow> d \<in> set ds)))"

definition create_law :: "('s \<Rightarrow> string \<rightharpoonup> json) \<Rightarrow> (string \<Rightarrow> json \<Rightarrow> 's \<Rightarrow> 's res) \<Rightarrow> bool" where
  "create_law docs create_doc \<longleftrightarrow>
     (\<forall>k d s s'. create_doc k d s = Inr s' \<longrightarrow> docs s k = None \<and> docs s' = (docs s)(k \<mapsto> d))"

text \<open>Every document was filed by the ledger, with a non-empty release and a time written in ASCII.\<close>

definition filed :: "string \<Rightarrow> json \<Rightarrow> json \<Rightarrow> bool" where
  "filed rid d report \<longleftrightarrow>
     (\<exists>report_id at provenance. is_obj report \<and> obj_get report ''release_id'' = JStr rid \<and> rid \<noteq> [] \<and>
        obj_get report ''created_at'' = JStr at \<and> (\<forall>c\<in>set at. (of_char c :: nat) < 128) \<and>
        ledger_document report_id report provenance = Inr d)"

definition ledger_filed :: "('s \<Rightarrow> string \<rightharpoonup> json) \<Rightarrow> 's \<Rightarrow> bool" where
  "ledger_filed docs s \<longleftrightarrow> (\<forall>d\<in>ran (docs s). \<exists>rid report. filed rid d report)"

section \<open>Lemmas\<close>

lemma or_else_str [simp]: "py_str (or_else (JStr v) (JStr [])) = v"
  by (simp add: or_else_def)

lemma filed_key:
  "filed rid d report \<Longrightarrow> \<exists>report_id at. obj_get d ''history_key'' = JStr (rid @ '':'' @ at @ '':'' @ report_id) \<and>
     obj_get d ''report'' = report \<and> (\<forall>c\<in>set at. (of_char c :: nat) < 128) \<and> d \<noteq> JObj [] \<and> is_obj d"
  by (auto simp: filed_def ledger_document_def attr_get_def history_key_def) blast

text \<open>The bounds of a query select by prefix.\<close>

lemma above_prefix: "p \<le> v \<Longrightarrow> v \<le> p @ x \<Longrightarrow> \<exists>w. v = p @ (w :: string)"
proof (induction p arbitrary: v)
  case (Cons c p)
  then obtain d v' where v: "v = d # v'" by (cases v) auto
  with Cons.prems have "c = d" "p \<le> v'" "v' \<le> p @ x" by auto
  then show ?case using Cons.IH[of v'] v by auto
qed simp

lemma prefix_in_range:
  assumes "\<forall>c\<in>set at. (of_char c :: nat) < 128"
  shows "rid @ '':'' \<le> rid @ '':'' @ at @ '':'' @ rest" "rid @ '':'' @ at @ '':'' @ rest \<le> (rid @ '':'') @ [CHR 0xEF, CHR 0xA3, CHR 0xBF]"
proof -
  have pre: "p \<le> p @ x" for p x :: string by (induction p) simp_all
  show "rid @ '':'' \<le> rid @ '':'' @ at @ '':'' @ rest" using pre[of "rid @ '':''" "at @ '':'' @ rest"] by simp
  have common: "p @ x \<le> p @ y \<longleftrightarrow> x \<le> y" for p x y :: string by (induction p) simp_all
  obtain c t where c: "at @ '':'' @ rest = c # t" "(of_char c :: nat) < 128"
    using assms by (cases at) auto
  have "of_char c < (of_char CHR 0xEF :: nat)" using c(2) by simp
  then have "c < CHR 0xEF" unfolding less_char_def .
  then have "at @ '':'' @ rest \<le> [CHR 0xEF, CHR 0xA3, CHR 0xBF]" unfolding c(1) by simp
  then show "rid @ '':'' @ at @ '':'' @ rest \<le> (rid @ '':'') @ [CHR 0xEF, CHR 0xA3, CHR 0xBF]"
    unfolding append_assoc common by simp
qed

lemma list_all2_mem:
  "list_all2 P xs ys \<Longrightarrow> (\<forall>y\<in>set ys. \<exists>x\<in>set xs. P x y) \<and> (\<forall>x\<in>set xs. \<exists>y\<in>set ys. P x y)"
  by (induction rule: list_all2_induct) auto

lemma colon_split:
  "a @ CHR '':'' # x = b @ CHR '':'' # y \<Longrightarrow> CHR '':'' \<notin> set a \<Longrightarrow> CHR '':'' \<notin> set b \<Longrightarrow> a = (b :: string)"
proof (induction a arbitrary: b)
  case Nil
  then show ?case by (cases b) auto
next
  case (Cons c a)
  then show ?case by (cases b) auto
qed

lemma recent_Inr:
  assumes "recent_for_release run_query rid limit s = Inr sums"
  shows "rid \<noteq> [] \<and> 1 \<le> limit \<and> limit \<le> 20 \<and>
    (\<exists>ds. run_query (history_query rid limit) s = Inr ds \<and> list_all2 (\<lambda>d r. safe_report_summary (or_else d (JObj [])) = Inr r) ds sums)"
  using assms by (auto simp: recent_for_release_def and_then_Inr map_res_Inr split: if_splits)

lemma filed_summary: "filed rid d report \<Longrightarrow> or_else d (JObj []) = d"
  using filed_key[of rid d report] by (cases d) (auto simp: or_else_def)

text \<open>Every summary belongs to a report of the release, unless a release name has a colon.\<close>

lemma recent_belongs:
  assumes "query_law docs run_query" "ledger_filed docs s" "recent_for_release run_query rid limit s = Inr sums"
  shows "int (length sums) \<le> limit \<and> (\<forall>r\<in>set sums. \<exists>rid' d report. d \<in> ran (docs s) \<and> filed rid' d report \<and>
    safe_report_summary d = Inr r \<and> (CHR '':'' \<notin> set rid \<longrightarrow> CHR '':'' \<notin> set rid' \<longrightarrow> rid' = rid))"
proof -
  obtain ds where ds: "run_query (history_query rid limit) s = Inr ds" "1 \<le> limit"
    "list_all2 (\<lambda>d r. safe_report_summary (or_else d (JObj [])) = Inr r) ds sums"
    using recent_Inr[OF assms(3)] by blast
  from assms(1)[unfolded query_law_def, rule_format, OF ds(1)]
  have q: "length ds \<le> nat limit" "\<forall>d\<in>set ds. in_range (history_query rid limit) d \<and> d \<in> ran (docs s)"
    by (auto simp: history_query_def)
  have "\<exists>rid' d report. d \<in> ran (docs s) \<and> filed rid' d report \<and>
    safe_report_summary d = Inr r \<and> (CHR '':'' \<notin> set rid \<longrightarrow> CHR '':'' \<notin> set rid' \<longrightarrow> rid' = rid)"
    if r: "r \<in> set sums" for r
  proof -
    obtain d where d: "d \<in> set ds" "safe_report_summary (or_else d (JObj [])) = Inr r"
      using list_all2_mem[OF ds(3), THEN conjunct1, rule_format, OF r] by (elim bexE)
    have "d \<in> ran (docs s)" using q(2) d(1) by blast
    then obtain rid' report where f: "filed rid' d report" using assms(2) unfolding ledger_filed_def by blast
    then obtain report_id at where k: "obj_get d ''history_key'' = JStr (rid' @ '':'' @ at @ '':'' @ report_id)"
      using filed_key by blast
    have "in_range (history_query rid limit) d" using q(2) d(1) by blast
    then obtain x where "rid' @ '':'' @ at @ '':'' @ report_id = (rid @ '':'') @ x"
      using above_prefix[of "rid @ '':''" _ "[CHR 0xEF, CHR 0xA3, CHR 0xBF]"] k by (auto simp: in_range_def history_query_def Let_def)
    then have "CHR '':'' \<notin> set rid \<longrightarrow> CHR '':'' \<notin> set rid' \<longrightarrow> rid' = rid" using colon_split[of rid' _ rid x] by simp
    moreover have "safe_report_summary d = Inr r" using d(2) unfolding filed_summary[OF f] .
    ultimately show ?thesis using q(2) d(1) f by blast
  qed
  moreover have "int (length sums) \<le> limit" using q(1) list_all2_lengthD[OF ds(3)] ds(2) by linarith
  ultimately show ?thesis by blast
qed

text \<open>A filed report is found when the answer has room: also by a query for a name that its own extends.\<close>

lemma recent_finds:
  assumes "query_law docs run_query" "recent_for_release run_query rid limit s = Inr sums" "int (length sums) < limit"
    and "d \<in> ran (docs s)" "filed rid' d report" "rid' = rid \<or> (\<exists>x. rid' = rid @ '':'' @ x \<and> (\<forall>c\<in>set x. (of_char c :: nat) < 128))"
  shows "\<exists>r\<in>set sums. safe_report_summary d = Inr r"
proof -
  obtain ds where ds: "run_query (history_query rid limit) s = Inr ds"
    "list_all2 (\<lambda>d r. safe_report_summary (or_else d (JObj [])) = Inr r) ds sums"
    using recent_Inr[OF assms(2)] by blast
  have "length ds < qr_limit (history_query rid limit)"
    using assms(3) list_all2_lengthD[OF ds(2)] by (simp add: history_query_def Let_def)
  with assms(1)[unfolded query_law_def, rule_format, OF ds(1)] assms(4)
  have all: "in_range (history_query rid limit) d \<longrightarrow> d \<in> set ds" by blast
  obtain report_id at where k: "obj_get d ''history_key'' = JStr (rid' @ '':'' @ at @ '':'' @ report_id)" "\<forall>c\<in>set at. (of_char c :: nat) < 128"
    using filed_key[OF assms(5)] by blast
  have "in_range (history_query rid limit) d"
    using assms(6)
  proof
    assume "rid' = rid"
    then show ?thesis using k prefix_in_range[of at rid report_id] by (simp add: in_range_def history_query_def Let_def)
  next
    assume "\<exists>x. rid' = rid @ '':'' @ x \<and> (\<forall>c\<in>set x. (of_char c :: nat) < 128)"
    then obtain x where x: "rid' = rid @ '':'' @ x" "\<forall>c\<in>set x. (of_char c :: nat) < 128" by blast
    show ?thesis using k(1) prefix_in_range[of x rid "at @ '':'' @ report_id"] x by (simp add: in_range_def history_query_def Let_def)
  qed
  then have "d \<in> set ds" using all by blast
  from list_all2_mem[OF ds(2), THEN conjunct2, rule_format, OF this] show ?thesis unfolding filed_summary[OF assms(5)] .
qed

text \<open>An append keeps what was filed.\<close>

lemma append_Inr:
  assumes "create_law docs create_doc" "append_payload create_doc report_id report provenance s = Inr (x, s')"
  shows "\<exists>d. ledger_document report_id report provenance = Inr d \<and> docs s report_id = None \<and> docs s' = (docs s)(report_id \<mapsto> d)"
  using assms by (auto simp: append_payload_def and_then_Inr create_law_def)

end
