(* ===== verification/Cloud_Proof.thy ===== *)
theory Cloud_Proof
  imports Demo_Runtime Workflow Ledger
begin

text \<open>
  infrastructure/cloudproof.py: the proof run of a bundled fixture in the cloud.  The evidence comes from
  the attestor, the advice from the model agents and from simulated compromised ones, the verdict from the
  remote gatekeeper, and the report with its provenance goes to the ledger.  The state is the ledger's
  database; the HTTP exchanges, the model runtime, the key service and the database client are parameters.
  The tracing spans have no result.  The lemmas: the run in stages; the ledger changes only after the
  gatekeeper gave a verdict on the attested bundle, and then by one report with that verdict; and the
  model runtime has no influence on anything but the advisory part of the report.
\<close>

section \<open>The world of a run\<close>

record 's cloud_world =
  cl_env :: env_vars
  cl_environment :: environment
  cl_connect :: "string \<Rightarrow> string \<Rightarrow> unit res"
  cl_create :: "string \<Rightarrow> json \<Rightarrow> 's \<Rightarrow> 's res"
  cl_query :: "range_query \<Rightarrow> 's \<Rightarrow> json list res"
  cl_bad_name :: "json \<Rightarrow> exn"
  cl_kms :: "string \<Rightarrow> bytes \<Rightarrow> bytes res"
  cl_runtime :: model_runtime
  cl_which :: "string option"

definition model_name :: "env_vars \<Rightarrow> string" where
  "model_name vars = getenv vars ''RELEASE_SENTINEL_MODEL'' ''gemini-3.6-flash''"

definition cloud_release_id :: string where "cloud_release_id = ''cloud-proof-release''"

text \<open>\<open>_fixture\<close>, with what the digest files hold.\<close>

definition cloud_fixture :: "demo_package \<Rightarrow> (string \<Rightarrow> string res) \<Rightarrow> string \<Rightarrow> (string \<times> string) res" where
  "cloud_fixture pk hash_file name =
    (case map_of [(''vulnerable'', (''repository_vulnerable'', ''repository_vulnerable.sha256'')),
                  (''fixed'', (''repository_fixed'', ''repository_fixed.sha256''))] name of
       None \<Rightarrow> raise ValueError ''unknown bundled fixture''
     | Some (directory, hash_name) \<Rightarrow>
         and_then (hash_file hash_name) (\<lambda>text.
           let expected = strip text in
           if directory_digest pk directory \<noteq> expected then raise RuntimeError ''bundled fixture integrity mismatch''
           else Inr (directory, expected)))"

definition opt_flag :: "string option \<Rightarrow> json" where
  "opt_flag x = JBool (x \<noteq> None)"

definition runtime_proof :: "env_vars \<Rightarrow> string option \<Rightarrow> json res" where
  "runtime_proof vars which =
     and_then (cloud_settings_from_env vars) (\<lambda>settings.
     and_then default_registry (\<lambda>reg.
       let trace_endpoint = (case getenv_opt vars ''OTEL_EXPORTER_OTLP_ENDPOINT'' of
             Some e \<Rightarrow> Some e | None \<Rightarrow> getenv_opt vars ''OTEL_EXPORTER_OTLP_TRACES_ENDPOINT'');
           sandbox = (case which of Some b \<Rightarrow> if b = [] then None else Some b | None \<Rightarrow> None) in
       Inr (JObj
        [(''project_configured'', JBool (cs_project_id settings \<noteq> [])),
         (''location'', JStr (cs_location settings)),
         (''model'', JStr (model_name vars)),
         (''vertex_ai_mode'', JBool (upper (getenv vars ''GOOGLE_GENAI_USE_ENTERPRISE'' '''') = ''TRUE'')),
         (''policy_database'', JStr (cs_policy_database settings)),
         (''ledger_database'', JStr (cs_ledger_database settings)),
         (''policy_hash_pinned'', opt_flag (cs_policy_sha256 settings)),
         (''kms_signing_required'', JBool (cs_signing_required settings)),
         (''kms_key_configured'', opt_flag (cs_kms_key_version settings)),
         (''sandbox_binary'', opt_str sandbox),
         (''sandbox_available'', opt_flag sandbox),
         (''gatekeeper_configured'', opt_flag (cs_gatekeeper_url settings)),
         (''gatekeeper_transport'', (case cs_gatekeeper_url settings of Some _ \<Rightarrow> JStr ''A2A_JSONRPC'' | None \<Rightarrow> JNull)),
         (''attestor_configured'', opt_flag (cs_attestor_url settings)),
         (''evidence_key_configured'', opt_flag (cs_evidence_kms_key_version settings)),
         (''signed_evidence_required'', JBool True),
         (''gatekeeper_llm_present'', JBool False),
         (''adk_smoke_required'', JBool True),
         (''agent_registry_records'', JInt (int (length (registry_list reg)))),
         (''advisory_agents'', JInt (int (length (advisory_agents reg)))),
         (''deterministic_agents'', JInt (int (length (deterministic_agents reg)))),
         (''memory_backend'', JStr ''FIRESTORE_RELEASE_REPORT_LEDGER''),
         (''distributed_trace_configured'', opt_flag trace_endpoint),
         (''trace_export_contract'', JStr ''OTLP_TO_GOOGLE_BUILT_COLLECTOR_TO_TELEMETRY_API'')])))"

section \<open>Attested evidence\<close>

text \<open>\<open>x or y\<close> on optional settings, none of which is empty.\<close>

definition audience_or :: "string option \<Rightarrow> string \<Rightarrow> string option" where
  "audience_or aud url = Some (case aud of Some a \<Rightarrow> a | None \<Rightarrow> url)"

record attested_evidence =
  ae_settings :: cloud_settings
  ae_attested :: json
  ae_source_sha256 :: string
  ae_report :: json
  ae_bundle :: json

definition proof_settings :: "env_vars \<Rightarrow> (cloud_settings \<times> string \<times> string \<times> string) res" where
  "proof_settings vars =
     and_then (cloud_settings_from_env vars) (\<lambda>settings.
     and_then (require_cloud_proof settings) (\<lambda>_.
       case cs_evidence_kms_key_version settings of
         None \<Rightarrow> raise RuntimeError ''evidence signing key is required for cloud proof''
       | Some key \<Rightarrow> Inr (settings, key, the (cs_attestor_url settings), the (cs_gatekeeper_url settings))))"

definition bundle_field :: "json \<Rightarrow> string \<Rightarrow> json res" where
  "bundle_field signed_bundle k = and_then (get_item ''bundle'' signed_bundle) (get_item k)"

definition fetch_evidence :: "'s cloud_world \<Rightarrow> string \<Rightarrow> (attested_evidence \<times> string) res" where
  "fetch_evidence w fixture_name =
     and_then (proof_settings (cl_env w)) (\<lambda>(settings, key, attestor_url, gatekeeper_url).
     and_then (attestor_init attestor_url (audience_or (cs_attestor_audience settings) attestor_url)) (\<lambda>c.
     and_then (attest_fixture (cl_environment w) c fixture_name cloud_release_id) (\<lambda>attested.
     and_then (get_item ''source_sha256'' attested) (\<lambda>sha.
     and_then (and_then (get_item ''report'' attested) py_dict) (\<lambda>report.
     and_then (and_then (get_item ''signed_evidence_bundle'' attested) py_dict) (\<lambda>sb.
     and_then (case cs_policy_sha256 settings of
         None \<Rightarrow> Inr ()
       | Some pin \<Rightarrow> and_then (bundle_field sb ''policy_sha256'') (\<lambda>p.
           if p \<noteq> JStr pin then raise RuntimeError ''attested evidence policy hash does not match external pin'' else Inr ())) (\<lambda>_.
     and_then (get_item ''key_id'' sb) (\<lambda>k.
       if k \<noteq> JStr key then raise RuntimeError ''attested evidence key id does not match configured trust root''
       else Inr (\<lparr>ae_settings = settings, ae_attested = attested, ae_source_sha256 = py_str sha, ae_report = report,
                  ae_bundle = sb\<rparr>, gatekeeper_url)))))))))"

section \<open>The advisory stage\<close>

definition proof_request :: release_request where
  "proof_request = \<lparr>rq_release_id = cloud_release_id, rq_root = [], rq_commit_sha = None\<rparr>"

definition prior_context :: "'s cloud_world \<Rightarrow> 's \<Rightarrow> (json list \<times> string) res" where
  "prior_context w s =
    (case recent_for_release (cl_query w) cloud_release_id 5 s of
       Inr prior \<Rightarrow> Inr (prior, ''AVAILABLE'')
     | Inl e \<Rightarrow> if catches PyException e then Inr ([], ''UNAVAILABLE'') else Inl e)"

definition real_advisory :: "'s cloud_world \<Rightarrow> json \<Rightarrow> json list \<Rightarrow> (json \<times> string) res" where
  "real_advisory w source_report prior =
    (case and_then (py_list (or_else (obj_get source_report ''findings'') (JList []))) (\<lambda>findings.
        run_real_advisory_fleet (model_name (cl_env w)) (cl_runtime w) proof_request (map FindingDict findings) prior) of
       Inr advice \<Rightarrow> Inr (advice, ''REAL_ADK'')
     | Inl e \<Rightarrow> if catches PyException e then Inr (JObj
         [(''role'', JStr ''advisory_fleet''), (''authority'', JStr ''ADVISORY''), (''llm_present'', JBool False),
          (''safe_prior_release_context'', JList prior), (''outputs'', JObj []), (''opinions'', JList [])], ''UNAVAILABLE'')
       else Inl e)"

definition simulated_advisor :: advisor where
  "simulated_advisor request projection live =
     (and_then default_registry (\<lambda>reg. Inr (compromised_agent_simulation reg request projection)), live)"

definition compromised_advice :: "'s cloud_world \<Rightarrow> 's \<Rightarrow> json res" where
  "compromised_advice w s =
     fst (memory_aware_advisor (\<lambda>rid. recent_for_release (cl_query w) rid 5 s) simulated_advisor proof_request [] [])"

section \<open>Verdict, report and provenance\<close>

record cloud_run =
  cr_evidence :: attested_evidence
  cr_prior :: "json list"
  cr_memory_status :: string
  cr_advisory :: json
  cr_advisory_runtime :: string
  cr_compromised :: json
  cr_opinions :: "json list"
  cr_verdict :: verdict

definition cloud_verdict :: "'s cloud_world \<Rightarrow> string \<Rightarrow> 's \<Rightarrow> cloud_run res" where
  "cloud_verdict w fixture_name s =
     and_then (fetch_evidence w fixture_name) (\<lambda>(ev, gatekeeper_url).
     and_then (cl_connect w (cs_project_id (ae_settings ev)) (cs_ledger_database (ae_settings ev))) (\<lambda>_.
     and_then (prior_context w s) (\<lambda>(prior, memory_status).
     and_then (real_advisory w (ae_report ev) prior) (\<lambda>(advice, advisory_runtime).
     and_then (compromised_advice w s) (\<lambda>compromised.
     and_then (py_list (or_else (obj_get compromised ''opinions'') (JList []))) (\<lambda>ops.
     and_then (a2a_client_init gatekeeper_url (audience_or (cs_gatekeeper_audience (ae_settings ev)) gatekeeper_url) version_legacy) (\<lambda>c.
     and_then (bundle_field (ae_bundle ev) ''policy_sha256'') (\<lambda>policy.
     and_then (decide_attested (cl_environment w) c cloud_release_id (ae_source_sha256 ev) (py_str policy) (ae_bundle ev) ops) (\<lambda>v.
       if gv_llm_present v \<or> gv_agent_influence v \<noteq> 0
       then raise RuntimeError ''gatekeeper violated deterministic authority contract''
       else Inr \<lparr>cr_evidence = ev, cr_prior = prior, cr_memory_status = memory_status, cr_advisory = advice,
                 cr_advisory_runtime = advisory_runtime, cr_compromised = compromised, cr_opinions = ops, cr_verdict = v\<rparr>)))))))))"

definition cloud_report :: "cloud_run \<Rightarrow> json res" where
  "cloud_report r =
     and_then (set_item ''decision'' (JStr (decision_value (gv_decision (cr_verdict r)))) (ae_report (cr_evidence r))) (\<lambda>d.
     and_then (set_item ''rationale'' (JList (gv_rationale (cr_verdict r))) d) (\<lambda>d.
     and_then (set_item ''advisory'' (cr_advisory r) d) (\<lambda>d.
     and_then (set_item ''resilience_advisory'' (cr_compromised r) d) (\<lambda>d.
       set_item ''gatekeeper'' (verdict_to_dict (cr_verdict r)) d))))"

definition cloud_manifest :: "string \<Rightarrow> cloud_run \<Rightarrow> json \<Rightarrow> json res" where
  "cloud_manifest fixture_name r report =
    (let sb = ae_bundle (cr_evidence r); v = cr_verdict r in
     and_then (get_item ''report_id'' report) (\<lambda>rid.
     and_then (bundle_field sb ''policy_id'') (\<lambda>pid.
     and_then (bundle_field sb ''policy_revision'') (\<lambda>prev.
     and_then (bundle_field sb ''policy_sha256'') (\<lambda>psha.
     and_then (bundle_field sb ''execution_count'') (\<lambda>count.
     and_then (get_item ''bundle_sha256'' sb) (\<lambda>bsha.
     and_then (get_item ''key_id'' sb) (\<lambda>key. Inr (JObj
      [(''schema'', JStr ''release-sentinel.cloud-proof.v4''),
       (''release_id'', JStr cloud_release_id),
       (''report_id'', rid),
       (''decision'', JStr (decision_value (gv_decision v))),
       (''source_fixture'', JStr fixture_name),
       (''source_sha256'', JStr (ae_source_sha256 (cr_evidence r))),
       (''policy_id'', pid),
       (''policy_revision'', prev),
       (''policy_sha256'', psha),
       (''execution_count'', count),
       (''evidence_bundle_sha256'', bsha),
       (''evidence_key_id'', key),
       (''gatekeeper_component'', JStr (gv_component v)),
       (''gatekeeper_transport'', JStr (gv_transport v)),
       (''trace_id'', opt_str (gv_trace_id v)),
       (''agent_influence'', JInt (gv_agent_influence v))])))))))))"

definition provenance_to_dict :: "signed_provenance \<Rightarrow> json" where
  "provenance_to_dict p = JObj
    [(''manifest'', manifest p), (''manifest_sha256'', JStr (manifest_sha256 p)),
     (''signature_hex'', opt_str (signature_hex p)), (''key_version'', opt_str (key_version p))]"

definition cloud_provenance :: "'s cloud_world \<Rightarrow> cloud_settings \<Rightarrow> json \<Rightarrow> signed_provenance res" where
  "cloud_provenance w settings m =
     and_then (case cs_kms_key_version settings of
         None \<Rightarrow> Inr None
       | Some key \<Rightarrow> and_then (kms_init key) (\<lambda>key. Inr (Some (kms_sign (cl_kms w) key)))) (\<lambda>signer.
       build_provenance m signer (cs_signing_required settings))"

section \<open>The answer\<close>

text \<open>
  The authorities named by the evidence of the report, sorted; an authority that is not text is an error
  here (Python could order a set of numbers).
\<close>

definition evidence_authorities :: "json \<Rightarrow> json list res" where
  "evidence_authorities ev =
     and_then (attr_get ev ''authority'') (\<lambda>a. Inr (if truthy a then [a] else []))"

definition finding_authorities :: "json \<Rightarrow> json list res" where
  "finding_authorities f =
     and_then (if is_obj f then Inr (obj_get_def f ''evidence'' (JList [])) else raise AttributeError ''object has no attribute get'') (\<lambda>evs.
     and_then (py_list evs) (\<lambda>evs. and_then (map_res evidence_authorities evs) (\<lambda>xss. Inr (concat xss))))"

definition text_of :: "json \<Rightarrow> string res" where
  "text_of j = (case j of JStr s \<Rightarrow> Inr s | _ \<Rightarrow> raise TypeError ''unorderable authorities'')"

definition source_authorities :: "json \<Rightarrow> string list res" where
  "source_authorities report =
     and_then (py_list (obj_get_def report ''findings'' (JList []))) (\<lambda>fs.
     and_then (map_res finding_authorities fs) (\<lambda>xss.
     and_then (map_res text_of (concat xss)) (\<lambda>names. Inr (sort (remdups names)))))"

definition cloud_answer :: "string \<Rightarrow> cloud_run \<Rightarrow> json \<Rightarrow> signed_provenance \<Rightarrow> json res" where
  "cloud_answer fixture_name r report p =
    (let ev = cr_evidence r; sb = ae_bundle ev; v = cr_verdict r in
     and_then (source_authorities (ae_report ev)) (\<lambda>authorities.
     and_then (get_item ''bundle_sha256'' sb) (\<lambda>bsha.
     and_then (get_item ''key_id'' sb) (\<lambda>key.
     and_then (bundle_field sb ''execution_id'') (\<lambda>xid.
     and_then (bundle_field sb ''nonce'') (\<lambda>nonce.
     and_then (bundle_field sb ''expires_at_unix'') (\<lambda>expires.
     and_then (get_item ''attestor'' (ae_attested ev)) (\<lambda>att.
     and_then (get_item ''component'' att) (\<lambda>component.
     and_then (attr_get att ''sandbox_available'') (\<lambda>sandbox. Inr (JObj
      [(''cloud_proof'', JBool True),
       (''fixture'', JStr fixture_name),
       (''source_sha256'', JStr (ae_source_sha256 ev)),
       (''report'', report),
       (''source_evidence_authorities'', JList (map JStr authorities)),
       (''signed_evidence'', JObj
         [(''bundle_sha256'', bsha), (''key_id'', key), (''execution_id'', xid), (''nonce'', nonce),
          (''expires_at_unix'', expires), (''verified_by_gatekeeper'', JBool True)]),
       (''provenance'', provenance_to_dict p),
       (''ledger_persisted'', JBool True),
       (''persistent_memory'', JObj
         [(''backend'', JStr ''FIRESTORE_RELEASE_REPORT_LEDGER''), (''status'', JStr (cr_memory_status r)),
          (''prior_release_count'', JInt (int (length (cr_prior r)))), (''dissent_context_safe_summary_only'', JBool True)]),
       (''distributed_trace'', JObj
         [(''trace_id'', opt_str (gv_trace_id v)), (''propagation'', JStr ''W3C_TRACE_CONTEXT''),
          (''python_root'', JStr ''release_verdict_pipeline''), (''a2a_client_span'', JStr ''gatekeeper.a2a_call''),
          (''go_server_span'', JStr ''gatekeeper.verdict_decide''),
          (''export'', JStr ''OTLP_TO_GOOGLE_BUILT_COLLECTOR_TO_TELEMETRY_API'')]),
       (''advisory_runtime'', JStr (cr_advisory_runtime r)),
       (''verdict_independence'', JObj
         [(''gatekeeper_component'', JStr (gv_component v)), (''transport'', JStr (gv_transport v)),
          (''llm_present'', JBool (gv_llm_present v)), (''agent_influence'', JInt (gv_agent_influence v)),
          (''agents_all_go'', JBool (list_all (\<lambda>i. obj_get i ''vote'' = JStr ''GO'') (cr_opinions r))),
          (''ignored_agent_opinions'', JInt (gv_ignored_agent_opinions v))]),
       (''trust_plane'', JObj
         [(''attestor'', component), (''attestor_sandbox_available'', JBool (truthy sandbox)),
          (''evidence_signer'', JStr ''CLOUD_KMS_DEDICATED_KEY''), (''orchestrator_can_sign_evidence'', JBool False)])])))))))))))"

text \<open>The whole run: what it answers and the ledger it leaves.\<close>

definition file_report :: "'s cloud_world \<Rightarrow> json \<Rightarrow> signed_provenance \<Rightarrow> 's \<Rightarrow> 's res" where
  "file_report w report p s =
     and_then (get_item ''report_id'' report) (\<lambda>rid.
       case rid of
         JStr report_id \<Rightarrow> and_then (append_payload (cl_create w) report_id report (provenance_to_dict p) s) (\<lambda>(x, s'). Inr s')
       | _ \<Rightarrow> Inl (cl_bad_name w rid))"

definition cloud_record :: "'s cloud_world \<Rightarrow> string \<Rightarrow> 's \<Rightarrow> (cloud_run \<times> json \<times> signed_provenance \<times> 's) res" where
  "cloud_record w fixture_name s =
     and_then (cloud_verdict w fixture_name s) (\<lambda>r.
     and_then (cloud_report r) (\<lambda>report.
     and_then (cloud_manifest fixture_name r report) (\<lambda>m.
     and_then (cloud_provenance w (ae_settings (cr_evidence r)) m) (\<lambda>p.
     and_then (file_report w report p s) (\<lambda>s'. Inr (r, report, p, s'))))))"

definition run_cloud_release_proof :: "'s cloud_world \<Rightarrow> string \<Rightarrow> 's \<Rightarrow> json res \<times> 's" where
  "run_cloud_release_proof w fixture_name s =
    (if fixture_name \<notin> {''vulnerable'', ''fixed''} then (raise ValueError ''unknown bundled fixture'', s) else
     case cloud_record w fixture_name s of
       Inl e \<Rightarrow> (Inl e, s)
     | Inr (r, report, p, s') \<Rightarrow> (cloud_answer fixture_name r report p, s'))"

section \<open>Lemmas: the stages\<close>

lemma py_dict_obj: "py_dict j = Inr d \<Longrightarrow> is_obj d"
proof -
  have "pair_items i xs acc = Inr d \<Longrightarrow> is_obj d" for i xs acc d
    by (induction xs arbitrary: i acc) (auto simp: and_then_Inr split: option.splits)
  then show "py_dict j = Inr d \<Longrightarrow> is_obj d" by (cases j) auto
qed

lemma proof_settings_Inr:
  assumes "proof_settings vars = Inr (settings, key, attestor_url, gatekeeper_url)"
  shows "cloud_settings_from_env vars = Inr settings \<and> require_cloud_proof settings = Inr () \<and>
    cs_evidence_kms_key_version settings = Some key \<and> attestor_url = the (cs_attestor_url settings) \<and>
    gatekeeper_url = the (cs_gatekeeper_url settings)"
  using assms by (auto simp: proof_settings_def and_then_Inr split: option.splits)

lemma fetch_evidence_Inr:
  assumes "fetch_evidence w name = Inr (ev, url)"
  shows "\<exists>key c. cloud_settings_from_env (cl_env w) = Inr (ae_settings ev) \<and> require_cloud_proof (ae_settings ev) = Inr () \<and>
    cs_evidence_kms_key_version (ae_settings ev) = Some key \<and> cs_gatekeeper_url (ae_settings ev) = Some url \<and>
    attest_fixture (cl_environment w) c name cloud_release_id = Inr (ae_attested ev) \<and>
    get_item ''key_id'' (ae_bundle ev) = Inr (JStr key) \<and> is_obj (ae_report ev) \<and>
    (\<forall>pin. cs_policy_sha256 (ae_settings ev) = Some pin \<longrightarrow> bundle_field (ae_bundle ev) ''policy_sha256'' = Inr (JStr pin))"
proof -
  obtain settings key attestor_url where s: "proof_settings (cl_env w) = Inr (settings, key, attestor_url, url)" "ae_settings ev = settings"
    using assms by (auto simp: fetch_evidence_def and_then_Inr split: if_splits)
  note p = proof_settings_Inr[OF s(1)]
  then have g: "cs_gatekeeper_url settings = Some url"
    using cloud_proof_settings[of "cl_env w" settings] by auto
  have "\<exists>c attested sha rep sb. attest_fixture (cl_environment w) c name cloud_release_id = Inr attested \<and> is_obj rep \<and>
      get_item ''key_id'' sb = Inr (JStr key) \<and>
      (\<forall>pin. cs_policy_sha256 settings = Some pin \<longrightarrow> bundle_field sb ''policy_sha256'' = Inr (JStr pin)) \<and>
      ev = \<lparr>ae_settings = settings, ae_attested = attested, ae_source_sha256 = sha, ae_report = rep, ae_bundle = sb\<rparr>"
  proof (cases "cs_policy_sha256 settings")
    case None
    then show ?thesis
      using assms s(1) py_dict_obj by (simp add: fetch_evidence_def and_then_Inr split: if_splits) blast
  next
    case (Some pin)
    then show ?thesis
      using assms s(1) py_dict_obj by (simp add: fetch_evidence_def and_then_Inr split: if_splits) blast
  qed
  then show ?thesis using p g s(2) by (elim exE conjE) (simp, blast)
qed

text \<open>The simulated agents all vote GO.\<close>

lemma compromised_opinions:
  assumes "compromised_advice w s = Inr a" "py_list (or_else (obj_get a ''opinions'') (JList [])) = Inr ops"
  shows "\<forall>i\<in>set ops. obj_get i ''vote'' = JStr ''GO''"
proof -
  obtain reg where reg: "default_registry = Inr reg" using default_registry_some by blast
  let ?ops = "Agents.opinions ''GO'' ''SIMULATED_COMPROMISE: forced GO opinion'' reg"
  obtain kvs where k: "compromised_agent_simulation reg proof_request ([] :: json list) = JObj kvs"
    "obj_get (JObj kvs) ''opinions'' = JList ?ops"
    by (simp add: compromised_agent_simulation_def fleet_advice_def)
  then have inner: "simulated_advisor proof_request [] [] = (Inr (JObj kvs), [])"
    by (simp add: simulated_advisor_def reg)
  obtain safe status where m: "memory_context (\<lambda>rid. recent_for_release (cl_query w) rid 5 s) (rq_release_id proof_request) = Inr (safe, status)"
  proof (cases "memory_context (\<lambda>rid. recent_for_release (cl_query w) rid 5 s) (rq_release_id proof_request)")
    case (Inl e)
    then show ?thesis using assms(1) by (simp add: compromised_advice_def memory_aware_advisor_def)
  next
    case (Inr r)
    then show ?thesis using that by (cases r) simp
  qed
  from memory_aware_object[of "\<lambda>rid. recent_for_release (cl_query w) rid 5 s" proof_request safe status simulated_advisor "[]" "[]" kvs "[]", OF m inner]
  obtain advice where adv: "memory_aware_advisor (\<lambda>rid. recent_for_release (cl_query w) rid 5 s) simulated_advisor proof_request [] [] = (Inr advice, [])"
    and keep: "\<forall>k. k \<notin> {''safe_prior_release_context'', ''dissent_reviewer_context'', ''memory_status''} \<longrightarrow>
      obj_get advice k = obj_get (JObj kvs) k" by (elim exE conjE)
  have "advice = a" using assms(1) by (simp add: compromised_advice_def adv)
  moreover have "obj_get advice ''opinions'' = obj_get (JObj kvs) ''opinions''" by (rule keep[rule_format]) simp
  ultimately have "obj_get a ''opinions'' = JList ?ops" using k(2) by metis
  then have "ops = ?ops" using assms(2) by simp
  then show ?thesis by (auto simp: opinions_def)
qed

lemma cloud_verdict_Inr:
  assumes "cloud_verdict w name s = Inr r"
  shows "\<exists>url c policy. fetch_evidence w name = Inr (cr_evidence r, url) \<and>
    a2a_client_init url (audience_or (cs_gatekeeper_audience (ae_settings (cr_evidence r))) url) version_legacy = Inr c \<and>
    bundle_field (ae_bundle (cr_evidence r)) ''policy_sha256'' = Inr policy \<and>
    decide_attested (cl_environment w) c cloud_release_id (ae_source_sha256 (cr_evidence r)) (py_str policy)
      (ae_bundle (cr_evidence r)) (cr_opinions r) = Inr (cr_verdict r) \<and>
    \<not> gv_llm_present (cr_verdict r) \<and> gv_agent_influence (cr_verdict r) = 0 \<and>
    (\<forall>i\<in>set (cr_opinions r). obj_get i ''vote'' = JStr ''GO'')"
proof -
  obtain ev url prior status advice rt compromised ops c policy v where
    f: "fetch_evidence w name = Inr (ev, url)" "compromised_advice w s = Inr compromised"
      "py_list (or_else (obj_get compromised ''opinions'') (JList [])) = Inr ops"
      "a2a_client_init url (audience_or (cs_gatekeeper_audience (ae_settings ev)) url) version_legacy = Inr c"
      "bundle_field (ae_bundle ev) ''policy_sha256'' = Inr policy"
      "decide_attested (cl_environment w) c cloud_release_id (ae_source_sha256 ev) (py_str policy) (ae_bundle ev) ops = Inr v"
      "\<not> gv_llm_present v" "gv_agent_influence v = 0"
    and r: "r = \<lparr>cr_evidence = ev, cr_prior = prior, cr_memory_status = status, cr_advisory = advice,
                 cr_advisory_runtime = rt, cr_compromised = compromised, cr_opinions = ops, cr_verdict = v\<rparr>"
    using assms unfolding cloud_verdict_def and_then_Inr case_prod_beta
    by (elim exE conjE) (simp split: if_splits prod.splits, metis prod.collapse)
  then show ?thesis using compromised_opinions[OF f(2,3)] by auto
qed

lemma cloud_report_Inr:
  assumes "is_obj (ae_report (cr_evidence r))"
  shows "\<exists>report. cloud_report r = Inr report \<and> is_obj report \<and>
    obj_get report ''decision'' = JStr (decision_value (gv_decision (cr_verdict r))) \<and>
    obj_get report ''advisory'' = cr_advisory r \<and> obj_get report ''gatekeeper'' = verdict_to_dict (cr_verdict r) \<and>
    (\<forall>k. k \<notin> {''decision'', ''rationale'', ''advisory'', ''resilience_advisory'', ''gatekeeper''} \<longrightarrow>
       obj_get report k = obj_get (ae_report (cr_evidence r)) k \<and> get_item k report = get_item k (ae_report (cr_evidence r)))"
proof -
  obtain kvs where "ae_report (cr_evidence r) = JObj kvs" using assms by (cases "ae_report (cr_evidence r)") simp_all
  then show ?thesis by (simp add: cloud_report_def set_item_def get_item_def)
qed

lemma file_report_Inr:
  assumes "create_law docs (cl_create w)" "file_report w report p s = Inr s'"
  shows "\<exists>report_id d. obj_get report ''report_id'' = JStr report_id \<and> docs s report_id = None \<and> docs s' = (docs s)(report_id \<mapsto> d) \<and>
    obj_get d ''report'' = report \<and> obj_get d ''provenance'' = provenance_to_dict p"
proof -
  obtain report_id x where "get_item ''report_id'' report = Inr (JStr report_id)"
    "append_payload (cl_create w) report_id report (provenance_to_dict p) s = Inr (x, s')"
  proof -
    obtain rid where "get_item ''report_id'' report = Inr rid" using assms(2) by (auto simp: file_report_def and_then_Inr)
    then show ?thesis using assms(2) that by (cases rid) (auto simp: file_report_def and_then_Inr)
  qed
  moreover from this(2) append_Inr[OF assms(1)] obtain d where
    "ledger_document report_id report (provenance_to_dict p) = Inr d" "docs s report_id = None" "docs s' = (docs s)(report_id \<mapsto> d)"
    by blast
  moreover have "obj_get report ''report_id'' = JStr report_id"
    using \<open>get_item ''report_id'' report = Inr (JStr report_id)\<close> by (auto simp: get_item_def split: json.splits option.splits)
  ultimately show ?thesis by (auto simp: ledger_document_def and_then_Inr)
qed

section \<open>Lemmas: the model runtime\<close>

lemma plain_if [intro]: "plain_error m \<Longrightarrow> plain_error m' \<Longrightarrow> plain_error (if b then m else m')"
  by simp

lemma plain_context [simp]: "plain_error (redacted_evidence_context fs)" "plain_error (bounded_history_json prior)"
    "plain_error (dissent_instruction prior)"
proof -
  have "plain_error (redacted_row f)" for f
    by (cases f) (auto simp: redacted_row_def finding_item_def redacted_evidence_def intro!: plain_and_then plain_map_res)
  then show "plain_error (redacted_evidence_context fs)"
    unfolding redacted_evidence_context_def by (intro plain_and_then plain_map_res) simp_all
  show h: "plain_error (bounded_history_json prior)"
    unfolding bounded_history_json_def by (intro plain_and_then plain_map_res) simp_all
  show "plain_error (dissent_instruction prior)"
    unfolding dissent_instruction_def using h by (intro plain_and_then) simp_all
qed

lemma plain_fleet:
  assumes "\<And>a m. plain_error (runtime a m)"
  shows "plain_error (run_real_advisory_fleet model runtime request fs prior)"
proof -
  have "plain_error (run_agent model runtime name instruction message)" for name instruction message
    unfolding run_agent_def Let_def default_registry_value and_then_simps
    by (intro plain_and_then plain_if assms) (simp_all add: registry_get_def split: option.splits)
  then show ?thesis
    unfolding run_real_advisory_fleet_def by (intro plain_and_then) (simp_all add: Let_def)
qed

lemma real_advisory_total:
  assumes "\<And>a m. plain_error (cl_runtime w a m)"
  shows "\<exists>advice status. real_advisory w report prior = Inr (advice, status)"
proof -
  have "plain_error (and_then (py_list (or_else (obj_get report ''findings'') (JList []))) (\<lambda>findings.
      run_real_advisory_fleet (model_name (cl_env w)) (cl_runtime w) proof_request (map FindingDict findings) prior))"
    by (intro plain_and_then plain_fleet assms) simp
  then show ?thesis by (auto simp: real_advisory_def plain_error_def split: sum.splits)
qed

text \<open>A run without its advisory part.\<close>

definition without_advice :: "cloud_run \<Rightarrow> cloud_run" where
  "without_advice r = r\<lparr>cr_advisory := JNull, cr_advisory_runtime := []\<rparr>"

lemma map_sum_and_then: "map_sum id f (and_then m g) = and_then m (\<lambda>x. map_sum id f (g x))"
  by (cases m) simp_all

lemma verdict_without_advice:
  assumes "\<And>a m. plain_error (rt a m)" "\<And>a m. plain_error (rt' a m)"
  shows "map_sum id without_advice (cloud_verdict (w\<lparr>cl_runtime := rt\<rparr>) name s) =
    map_sum id without_advice (cloud_verdict (w\<lparr>cl_runtime := rt'\<rparr>) name s)"
proof -
  have same: "fetch_evidence (w\<lparr>cl_runtime := x\<rparr>) name = fetch_evidence w name" "prior_context (w\<lparr>cl_runtime := x\<rparr>) s = prior_context w s"
    "compromised_advice (w\<lparr>cl_runtime := x\<rparr>) s = compromised_advice w s" for x
    by (simp_all add: fetch_evidence_def prior_context_def compromised_advice_def)
  have total: "\<exists>advice status. real_advisory (w\<lparr>cl_runtime := x\<rparr>) report prior = Inr (advice, status)"
    if "x = rt \<or> x = rt'" for x report prior
    using that assms real_advisory_total[of "w\<lparr>cl_runtime := x\<rparr>"] by auto
  define tail where "tail ev url prior memory_status advice advisory_runtime =
     map_sum id without_advice (and_then (compromised_advice w s) (\<lambda>compromised.
     and_then (py_list (or_else (obj_get compromised ''opinions'') (JList []))) (\<lambda>ops.
     and_then (a2a_client_init url (audience_or (cs_gatekeeper_audience (ae_settings ev)) url) version_legacy) (\<lambda>c.
     and_then (bundle_field (ae_bundle ev) ''policy_sha256'') (\<lambda>policy.
     and_then (decide_attested (cl_environment w) c cloud_release_id (ae_source_sha256 ev) (py_str policy) (ae_bundle ev) ops) (\<lambda>v.
       if gv_llm_present v \<or> gv_agent_influence v \<noteq> 0
       then raise RuntimeError ''gatekeeper violated deterministic authority contract''
       else Inr \<lparr>cr_evidence = ev, cr_prior = prior, cr_memory_status = memory_status, cr_advisory = advice,
                 cr_advisory_runtime = advisory_runtime, cr_compromised = compromised, cr_opinions = ops, cr_verdict = v\<rparr>))))))"
    for ev url prior memory_status advice advisory_runtime
  have tails: "tail ev url prior st a b = tail ev url prior st JNull []" for ev url prior st a b
    unfolding tail_def map_sum_and_then by (intro and_then_cong refl) (simp add: without_advice_def)
  have "map_sum id without_advice (cloud_verdict (w\<lparr>cl_runtime := x\<rparr>) name s) =
      and_then (fetch_evidence w name) (\<lambda>(ev, url).
      and_then (cl_connect w (cs_project_id (ae_settings ev)) (cs_ledger_database (ae_settings ev))) (\<lambda>_.
      and_then (prior_context w s) (\<lambda>(prior, st). tail ev url prior st JNull [])))" if x: "x = rt \<or> x = rt'" for x
  proof -
    have "map_sum id without_advice (cloud_verdict (w\<lparr>cl_runtime := x\<rparr>) name s) =
      and_then (fetch_evidence w name) (\<lambda>(ev, url).
      and_then (cl_connect w (cs_project_id (ae_settings ev)) (cs_ledger_database (ae_settings ev))) (\<lambda>_.
      and_then (prior_context w s) (\<lambda>(prior, st).
      and_then (real_advisory (w\<lparr>cl_runtime := x\<rparr>) (ae_report ev) prior) (\<lambda>(a, b). tail ev url prior st a b))))"
      unfolding cloud_verdict_def tail_def same map_sum_and_then case_prod_beta by simp
    also have "\<dots> = and_then (fetch_evidence w name) (\<lambda>(ev, url).
      and_then (cl_connect w (cs_project_id (ae_settings ev)) (cs_ledger_database (ae_settings ev))) (\<lambda>_.
      and_then (prior_context w s) (\<lambda>(prior, st). tail ev url prior st JNull [])))"
    proof -
      have "and_then (real_advisory (w\<lparr>cl_runtime := x\<rparr>) report prior) (\<lambda>(a, b). tail ev url prior st a b) = tail ev url prior st JNull []"
        for report prior ev url st
        using total[OF x, of report prior] tails by auto
      then show ?thesis by simp
    qed
    finally show ?thesis .
  qed
  then show ?thesis by simp
qed

end
