(* ===== verification/Cloud_Claims.thy ===== *)
theory Cloud_Claims
  imports Samples Cloud_Proof
begin

text \<open>
  Properties of the cloud proof, of the attestor service and of the report ledger.
\<close>

section \<open>A sample cloud\<close>

text \<open>Settings, an attestor that returns a signed bundle, a gatekeeper that accepts it, and a ledger held in a map.\<close>

definition proof_env :: env_vars where
  "proof_env = map_of
    [(''GOOGLE_CLOUD_PROJECT'', ''p''),
     (''RELEASE_SENTINEL_GATEKEEPER_URL'', ''https://gate-x.run.app''),
     (''RELEASE_SENTINEL_ATTESTOR_URL'', ''https://attest-x.run.app''),
     (''RELEASE_SENTINEL_EVIDENCE_KMS_KEY_VERSION'', ''key'')]"

definition attested_answer :: json where
  "attested_answer = JObj
    [(''attested'', JBool True), (''source_sha256'', JStr ''aa''),
     (''report'', JObj [(''report_id'', JStr ''report-1''), (''release_id'', JStr ''cloud-proof-release''),
        (''created_at'', JStr ''now''), (''decision'', JStr ''GO''), (''findings'', JList [])]),
     (''signed_evidence_bundle'', JObj
        [(''bundle'', JObj [(''policy_id'', JStr ''org''), (''policy_revision'', JInt 3), (''policy_sha256'', JStr ''bb''),
            (''execution_count'', JInt 1), (''execution_id'', JStr ''e''), (''nonce'', JStr ''n''), (''expires_at_unix'', JInt 9)]),
         (''bundle_sha256'', JStr ''cc''), (''signature_base64'', JStr ''c2ln''), (''key_id'', JStr ''key'')]),
     (''attestor'', JObj [(''component'', JStr ''release-sentinel-evidence-attestor''), (''sandbox_available'', JBool True)])]"

definition gate_reply :: json where
  "gate_reply = JObj [(''result'', JObj [(''task'', JObj [(''artifacts'', JList [JObj [(''parts'', JList [JObj
     [(''data'', JObj [(''accepted'', JBool True), (''decision'', JStr ''NO_GO'')])]])]])])])]"

definition map_create :: "string \<Rightarrow> json \<Rightarrow> (string \<rightharpoonup> json) \<Rightarrow> (string \<rightharpoonup> json) res" where
  "map_create k d s = (if s k = None then Inr (s(k \<mapsto> d)) else raise (UserException ''AlreadyExists'') k)"

definition proof_world :: "(string \<rightharpoonup> json) cloud_world" where
  "proof_world = \<lparr>cl_env = proof_env,
     cl_environment = \<lparr>transport = (\<lambda>u h p. Inr (if u = ''https://gate-x.run.app/a2a'' then gate_reply else attested_answer)),
       fetch_id_token = (\<lambda>a. Inr ''t''), trace_headers = [], current_trace = None, request_ids = (''a'', ''b'')\<rparr>,
     cl_connect = (\<lambda>p d. Inr ()), cl_create = map_create, cl_query = (\<lambda>q s. Inr []),
     cl_bad_name = (\<lambda>j. (TypeError, ''document name'')), cl_kms = (\<lambda>k m. raise RuntimeError ''no key''),
     cl_runtime = (\<lambda>a m. raise RuntimeError ''no model''), cl_which = None\<rparr>"

definition proof_evidence :: attested_evidence where
  "proof_evidence = \<lparr>ae_settings = projr (cloud_settings_from_env proof_env), ae_attested = attested_answer,
     ae_source_sha256 = ''aa'', ae_report = obj_get attested_answer ''report'', ae_bundle = obj_get attested_answer ''signed_evidence_bundle''\<rparr>"

lemma proof_fetch: "fetch_evidence proof_world ''vulnerable'' = Inr (proof_evidence, ''https://gate-x.run.app'')"
  by code_simp

lemma proof_client:
  "a2a_client_init ''https://gate-x.run.app'' (audience_or (cs_gatekeeper_audience (ae_settings proof_evidence)) ''https://gate-x.run.app'') version_legacy =
    Inr \<lparr>base_url = ''https://gate-x.run.app'', audience = Some ''https://gate-x.run.app'', protocol_version = version_legacy\<rparr>"
  by code_simp

lemma proof_compromised: "\<exists>a ops. compromised_advice proof_world Map.empty = Inr a \<and> py_list (or_else (obj_get a ''opinions'') (JList [])) = Inr ops"
proof -
  have "ok (and_then (compromised_advice proof_world Map.empty) (\<lambda>a. py_list (or_else (obj_get a ''opinions'') (JList []))))"
    by code_simp
  then show ?thesis by (auto simp: ok_iff and_then_Inr)
qed

lemma proof_decide:
  "\<exists>v. decide_attested (cl_environment proof_world)
      \<lparr>base_url = ''https://gate-x.run.app'', audience = Some ''https://gate-x.run.app'', protocol_version = version_legacy\<rparr>
      cloud_release_id ''aa'' ''bb'' bundle ops = Inr v \<and> gv_decision v = NO_GO \<and> \<not> gv_llm_present v \<and> gv_agent_influence v = 0"
proof -
  let ?c = "\<lparr>base_url = ''https://gate-x.run.app'', audience = Some ''https://gate-x.run.app'', protocol_version = version_legacy\<rparr>"
  let ?raw = "JObj [(''accepted'', JBool True), (''decision'', JStr ''NO_GO'')]"
  let ?body = "set_field gate_reply ''_release_sentinel_trace_id'' JNull"
  have x: "extract_verdict gate_reply = Inr ?raw" "extract_verdict ?body = Inr ?raw" "extract_trace_id ?body = Inr None"
    "attr_get gate_reply ''error'' = Inr JNull" by code_simp+
  have "a2a_post (cl_environment proof_world) ?c payload = Inr ?body" for payload
    using x by (simp add: a2a_post_def proof_world_def authorization_header_def Let_def opt_str_def)
  moreover have "decision_json (JStr ''NO_GO'') = Inr NO_GO" by code_simp
  ultimately show ?thesis
    using x by (simp add: decide_attested_def verdict_of_def or_else_def obj_get_def_def)
qed

lemma proof_verdict:
  "\<exists>r. cloud_verdict proof_world ''vulnerable'' Map.empty = Inr r \<and> cr_evidence r = proof_evidence \<and> gv_decision (cr_verdict r) = NO_GO"
proof -
  have e: "fetch_evidence proof_world ''vulnerable'' = Inr (proof_evidence, ''https://gate-x.run.app'')" by (rule proof_fetch)
  have p: "prior_context proof_world Map.empty = Inr ([], ''AVAILABLE'')" by code_simp
  have "plain_error (cl_runtime proof_world a m)" for a m
    by (simp add: proof_world_def plain_error_def catches_def raise_def)
  then obtain advice status where a: "real_advisory proof_world (ae_report proof_evidence) [] = Inr (advice, status)"
    using real_advisory_total by blast
  obtain c ops where c: "compromised_advice proof_world Map.empty = Inr c" "py_list (or_else (obj_get c ''opinions'') (JList [])) = Inr ops"
    using proof_compromised by blast
  have f: "bundle_field (ae_bundle proof_evidence) ''policy_sha256'' = Inr (JStr ''bb'')" "ae_source_sha256 proof_evidence = ''aa''"
    by code_simp+
  obtain v where v: "decide_attested (cl_environment proof_world)
      \<lparr>base_url = ''https://gate-x.run.app'', audience = Some ''https://gate-x.run.app'', protocol_version = version_legacy\<rparr>
      cloud_release_id ''aa'' ''bb'' (ae_bundle proof_evidence) ops = Inr v"
    "gv_decision v = NO_GO" "\<not> gv_llm_present v" "gv_agent_influence v = 0"
    using proof_decide by blast
  have "cl_connect proof_world = (\<lambda>p d. Inr ())" by (simp add: proof_world_def)
  then show ?thesis
    using v by (simp add: cloud_verdict_def e p a c proof_client f)
qed

lemma proof_record: "\<exists>r report p s'. cloud_record proof_world ''vulnerable'' Map.empty = Inr (r, report, p, s') \<and> s' \<noteq> Map.empty"
proof -
  obtain r where r: "cloud_verdict proof_world ''vulnerable'' Map.empty = Inr r" "cr_evidence r = proof_evidence"
    using proof_verdict by blast
  have "is_obj (ae_report proof_evidence)" by code_simp
  then obtain report where report: "cloud_report r = Inr report" "is_obj report"
      "\<forall>k. k \<notin> {''decision'', ''rationale'', ''advisory'', ''resilience_advisory'', ''gatekeeper''} \<longrightarrow>
         obj_get report k = obj_get (ae_report proof_evidence) k \<and> get_item k report = get_item k (ae_report proof_evidence)"
    using cloud_report_Inr[of r] r(2) by metis
  have "get_item ''report_id'' (ae_report proof_evidence) = Inr (JStr ''report-1'')" by code_simp
  then have rid: "get_item ''report_id'' report = Inr (JStr ''report-1'')" using report(3) by simp
  have sb: "bundle_field (ae_bundle proof_evidence) k = Inr (obj_get (obj_get (ae_bundle proof_evidence) ''bundle'') k)"
    if "k \<in> {''policy_id'', ''policy_revision'', ''policy_sha256'', ''execution_count''}" for k
    using that by (elim insertE emptyE; simp only:) code_simp+
  have sb': "get_item k (ae_bundle proof_evidence) = Inr (obj_get (ae_bundle proof_evidence) k)" if "k \<in> {''bundle_sha256'', ''key_id''}" for k
    using that by (elim insertE emptyE; simp only:) code_simp+
  obtain m where m: "cloud_manifest ''vulnerable'' r report = Inr m"
    by (simp add: cloud_manifest_def r(2) rid sb sb' Let_def)
  have "cs_kms_key_version (ae_settings proof_evidence) = None" "\<not> cs_signing_required (ae_settings proof_evidence)" by code_simp+
  then obtain p where p: "cloud_provenance proof_world (ae_settings proof_evidence) m = Inr p"
    by (simp add: cloud_provenance_def build_provenance_def)
  obtain d where "ledger_document ''report-1'' report (provenance_to_dict p) = Inr d"
    using report(2) by (simp add: ledger_document_def attr_get_def)
  then have "file_report proof_world report p Map.empty = Inr [''report-1'' \<mapsto> d]"
    by (simp add: file_report_def rid append_payload_def proof_world_def map_create_def)
  then have "cloud_record proof_world ''vulnerable'' Map.empty = Inr (r, report, p, [''report-1'' \<mapsto> d])"
    by (simp add: cloud_record_def r report(1) m p)
  then show ?thesis by (intro exI conjI) (assumption, simp)
qed

lemma proof_create: "create_law (\<lambda>s. s) (cl_create proof_world)"
  by (auto simp: create_law_def proof_world_def map_create_def raise_def split: if_splits)

section \<open>The cloud proof\<close>

text \<open>Property C6. A cloud proof changes the ledger in one way only: it files one new report, under an identifier that
  was free, whose decision is the one the gatekeeper's accepted reply names for the evidence sent to it.  That
  evidence names the configured key as its signer and, where a policy digest is pinned, that policy; the
  gatekeeper got it with opinions that all vote GO, and reported neither a model nor influence.  This code compares
  the name of the key only: whether the signature is that key's is for the gatekeeper to decide, to whom the
  evidence goes whole.\<close>

theorem cloud_ledger_holds_gate_verdict:
  assumes "create_law docs (cl_create w)"
    and "run_cloud_release_proof w name s = (res, s')" "s' \<noteq> s"
  shows "\<exists>r report report_id d url c policy headers reply raw key.
    name \<in> {''vulnerable'', ''fixed''} \<and> cloud_verdict w name s = Inr r \<and>
    docs s report_id = None \<and> docs s' = (docs s)(report_id \<mapsto> d) \<and> obj_get d ''report'' = report \<and>
    obj_get report ''decision'' = JStr (decision_value (gv_decision (cr_verdict r))) \<and>
    bundle_field (ae_bundle (cr_evidence r)) ''policy_sha256'' = Inr policy \<and>
    cs_gatekeeper_url (ae_settings (cr_evidence r)) = Some url \<and> base_url c = rstrip_slash url \<and>
    transport (cl_environment w) (base_url c @ ''/a2a'') headers
      (rpc_payload c (request_ids (cl_environment w)) (decision_input cloud_release_id (ae_source_sha256 (cr_evidence r))
        (py_str policy) (ae_bundle (cr_evidence r)) (cr_opinions r))) = Inr reply \<and>
    extract_verdict reply = Inr raw \<and> truthy (obj_get raw ''accepted'') \<and>
    obj_get raw ''decision'' = JStr (decision_value (gv_decision (cr_verdict r))) \<and>
    \<not> gv_llm_present (cr_verdict r) \<and> gv_agent_influence (cr_verdict r) = 0 \<and>
    (\<forall>i\<in>set (cr_opinions r). obj_get i ''vote'' = JStr ''GO'') \<and>
    cs_evidence_kms_key_version (ae_settings (cr_evidence r)) = Some key \<and>
    get_item ''key_id'' (ae_bundle (cr_evidence r)) = Inr (JStr key) \<and>
    (\<forall>pin. cs_policy_sha256 (ae_settings (cr_evidence r)) = Some pin \<longrightarrow> policy = JStr pin)"
proof -
  have name: "name \<in> {''vulnerable'', ''fixed''}"
    using assms(2,3) by (auto simp: run_cloud_release_proof_def split: if_splits)
  obtain r report p where rec: "cloud_record w name s = Inr (r, report, p, s')"
    using assms(2,3) by (auto simp: run_cloud_release_proof_def split: if_splits sum.splits)
  then have v: "cloud_verdict w name s = Inr r" and rep: "cloud_report r = Inr report" and f: "file_report w report p s = Inr s'"
    by (auto simp: cloud_record_def and_then_Inr)
  from cloud_verdict_Inr[OF v] obtain url c policy where e: "fetch_evidence w name = Inr (cr_evidence r, url)"
    and c: "a2a_client_init url (audience_or (cs_gatekeeper_audience (ae_settings (cr_evidence r))) url) version_legacy = Inr c"
    and pol: "bundle_field (ae_bundle (cr_evidence r)) ''policy_sha256'' = Inr policy"
    and d: "decide_attested (cl_environment w) c cloud_release_id (ae_source_sha256 (cr_evidence r)) (py_str policy)
      (ae_bundle (cr_evidence r)) (cr_opinions r) = Inr (cr_verdict r)"
    and clean: "\<not> gv_llm_present (cr_verdict r)" "gv_agent_influence (cr_verdict r) = 0"
      "\<forall>i\<in>set (cr_opinions r). obj_get i ''vote'' = JStr ''GO''"
    by blast
  have base: "base_url c = rstrip_slash url"
    using c by (auto simp: a2a_client_init_def Let_def and_then_Inr split: if_splits)
  from decide_attested_Inr[OF d] obtain headers reply raw where
    t: "transport (cl_environment w) (base_url c @ ''/a2a'') headers
      (rpc_payload c (request_ids (cl_environment w)) (decision_input cloud_release_id (ae_source_sha256 (cr_evidence r))
        (py_str policy) (ae_bundle (cr_evidence r)) (cr_opinions r))) = Inr reply"
      "extract_verdict reply = Inr raw" "truthy (obj_get raw ''accepted'')"
      "obj_get raw ''decision'' = JStr (decision_value (gv_decision (cr_verdict r)))"
    by blast
  from fetch_evidence_Inr[OF e] obtain key where
    k: "cs_evidence_kms_key_version (ae_settings (cr_evidence r)) = Some key" "cs_gatekeeper_url (ae_settings (cr_evidence r)) = Some url"
      "get_item ''key_id'' (ae_bundle (cr_evidence r)) = Inr (JStr key)" "is_obj (ae_report (cr_evidence r))"
      "\<forall>pin. cs_policy_sha256 (ae_settings (cr_evidence r)) = Some pin \<longrightarrow> bundle_field (ae_bundle (cr_evidence r)) ''policy_sha256'' = Inr (JStr pin)"
    by blast
  have dec: "obj_get report ''decision'' = JStr (decision_value (gv_decision (cr_verdict r)))"
    using cloud_report_Inr[OF k(4)] rep by auto
  from file_report_Inr[OF assms(1) f] obtain report_id d where
    "docs s report_id = None" "docs s' = (docs s)(report_id \<mapsto> d)" "obj_get d ''report'' = report" by blast
  moreover have "\<forall>pin. cs_policy_sha256 (ae_settings (cr_evidence r)) = Some pin \<longrightarrow> policy = JStr pin" using k(5) pol by auto
  ultimately show ?thesis using name v dec pol k(1-3) base t clean
    by (intro exI conjI)
qed

theorem cloud_ledger_holds_gate_verdict_witness:
  "\<exists>res s' report_id d. run_cloud_release_proof proof_world ''vulnerable'' Map.empty = (res, s') \<and> s' = [report_id \<mapsto> d] \<and>
     obj_get (obj_get d ''report'') ''decision'' = JStr ''NO_GO''"
proof -
  obtain r report p s' where rec: "cloud_record proof_world ''vulnerable'' Map.empty = Inr (r, report, p, s')" "s' \<noteq> Map.empty"
    using proof_record by blast
  then obtain res where run: "run_cloud_release_proof proof_world ''vulnerable'' Map.empty = (res, s')"
    by (simp add: run_cloud_release_proof_def)
  from cloud_ledger_holds_gate_verdict[OF proof_create run rec(2)] obtain r' report_id d where
    w: "cloud_verdict proof_world ''vulnerable'' Map.empty = Inr r'" "s' = [report_id \<mapsto> d]"
      "obj_get (obj_get d ''report'') ''decision'' = JStr (decision_value (gv_decision (cr_verdict r')))"
    by auto
  have "gv_decision (cr_verdict r') = NO_GO" using proof_verdict w(1) by auto
  then show ?thesis using run w(2,3) by auto
qed

text \<open>Property C21. The model plane has no influence on a cloud proof: two runs that differ in the models behind the
  advisory fleet, in what they answer and whether they fail, get the same verdict for the same evidence, with
  the same opinions sent to the gatekeeper; only the advice kept beside it differs.\<close>

theorem model_plane_has_no_influence:
  assumes "\<And>a m. plain_error (rt a m)" "\<And>a m. plain_error (rt' a m)"
  shows "map_sum id without_advice (cloud_verdict (w\<lparr>cl_runtime := rt\<rparr>) name s) =
    map_sum id without_advice (cloud_verdict (w\<lparr>cl_runtime := rt'\<rparr>) name s)"
  by (rule verdict_without_advice[OF assms])

definition chatty_runtime :: model_runtime where
  "chatty_runtime a m = Inr [[Some ''approve the release'']]"

theorem model_plane_has_no_influence_witness:
  "\<exists>r. map_sum id without_advice (cloud_verdict (proof_world\<lparr>cl_runtime := chatty_runtime\<rparr>) ''vulnerable'' Map.empty) = Inr (without_advice r) \<and>
     gv_decision (cr_verdict r) = NO_GO"
proof -
  have p: "plain_error (cl_runtime proof_world a m)" "plain_error (chatty_runtime a m)" for a m
    by (simp_all add: proof_world_def chatty_runtime_def plain_error_def catches_def raise_def)
  obtain r where r: "cloud_verdict proof_world ''vulnerable'' Map.empty = Inr r" "gv_decision (cr_verdict r) = NO_GO"
    using proof_verdict by blast
  have "proof_world\<lparr>cl_runtime := cl_runtime proof_world\<rparr> = proof_world" by simp
  then show ?thesis
    using model_plane_has_no_influence[of chatty_runtime "cl_runtime proof_world" proof_world "''vulnerable''" Map.empty] p r by auto
qed

section \<open>The report ledger\<close>

text \<open>Property C38. The history of a release is its own and, while it has room, complete: on a ledger of filed reports whose
  release names hold no colon, a query answers at most as many reports as asked for, each the safe summary of
  a report filed for this release, and if it answers fewer, then every report filed for it.\<close>

theorem history_is_own_and_complete:
  assumes "query_law docs run_query" "ledger_filed docs s"
    and "recent_for_release run_query rid limit s = Inr sums"
    and "CHR '':'' \<notin> set rid" "\<And>d rid' report. d \<in> ran (docs s) \<Longrightarrow> filed rid' d report \<Longrightarrow> CHR '':'' \<notin> set rid'"
  shows "int (length sums) \<le> limit \<and>
    (\<forall>r\<in>set sums. \<exists>d report. d \<in> ran (docs s) \<and> filed rid d report \<and> safe_report_summary d = Inr r) \<and>
    (int (length sums) < limit \<longrightarrow> (\<forall>d\<in>ran (docs s). \<forall>report. filed rid d report \<longrightarrow> (\<exists>r\<in>set sums. safe_report_summary d = Inr r)))"
  using recent_belongs[OF assms(1-3)] recent_finds[OF assms(1,3)] assms(4,5) by blast

definition one_docs :: "json option \<Rightarrow> string \<rightharpoonup> json" where
  "one_docs s = (case s of None \<Rightarrow> Map.empty | Some d \<Rightarrow> [''report-1'' \<mapsto> d])"

definition one_query :: "range_query \<Rightarrow> json option \<Rightarrow> json list res" where
  "one_query q s = Inr (case s of None \<Rightarrow> [] | Some d \<Rightarrow> if in_range q d \<and> 0 < qr_limit q then [d] else [])"

definition sample_report :: json where
  "sample_report = JObj [(''release_id'', JStr ''r1''), (''created_at'', JStr ''now''), (''decision'', JStr ''GO'')]"

definition sample_document :: json where
  "sample_document = JObj [(''report'', sample_report), (''provenance'', JNull), (''history_key'', JStr ''r1:now:report-1'')]"

lemma sample_filed: "filed ''r1'' sample_document sample_report" "filed rid sample_document report \<Longrightarrow> rid = ''r1''"
proof -
  have "ledger_document ''report-1'' sample_report JNull = Inr sample_document"
    by (simp add: ledger_document_def attr_get_def sample_report_def sample_document_def or_else_def history_key_def)
  then show "filed ''r1'' sample_document sample_report"
    unfolding filed_def by (intro exI[of _ "''report-1''"] exI[of _ "''now''"] exI[of _ JNull]) (simp add: sample_report_def)
  show "filed rid sample_document report \<Longrightarrow> rid = ''r1''"
    using filed_key[of rid sample_document report] by (auto simp: filed_def sample_document_def sample_report_def)
qed

theorem history_is_own_and_complete_witness:
  "\<exists>r. recent_for_release one_query ''r1'' 5 (Some sample_document) = Inr [r] \<and>
     (\<exists>report. filed ''r1'' sample_document report \<and> safe_report_summary sample_document = Inr r)"
proof -
  have laws: "query_law one_docs one_query" "ledger_filed one_docs (Some sample_document)"
    using sample_filed(1) by (auto simp: query_law_def one_docs_def one_query_def ledger_filed_def split: option.splits if_splits)
  have range: "in_range (history_query ''r1'' 5) sample_document"
    using prefix_in_range[of "''now''" "''r1''" "'':report-1''"]
    by (simp add: in_range_def history_query_def Let_def sample_document_def)
  obtain r where r: "safe_report_summary sample_document = Inr r"
  proof -
    have "ok (safe_report_summary sample_document)" by code_simp
    then show ?thesis using that by (auto simp: ok_iff)
  qed
  have q: "recent_for_release one_query ''r1'' 5 (Some sample_document) = Inr [r]"
  proof -
    have "qr_limit (history_query ''r1'' 5) = 5" "or_else sample_document (JObj []) = sample_document"
      by (simp_all add: history_query_def Let_def or_else_def sample_document_def)
    then show ?thesis using range r by (simp add: recent_for_release_def one_query_def)
  qed
  have "\<exists>d report. d \<in> ran (one_docs (Some sample_document)) \<and> filed ''r1'' d report \<and> safe_report_summary d = Inr r"
  proof -
    have "CHR '':'' \<notin> set ''r1''" by simp
    moreover have "CHR '':'' \<notin> set rid'" if "d \<in> ran (one_docs (Some sample_document))" "filed rid' d report" for d rid' report
    proof -
      have "d = sample_document" using that(1) by (simp add: one_docs_def)
      then have "rid' = ''r1''" using that(2) sample_filed(2) by metis
      then show ?thesis by simp
    qed
    ultimately show ?thesis using history_is_own_and_complete[OF laws q] by auto
  qed
  then show ?thesis using q by (auto simp: one_docs_def)
qed

end
