(* ===== verification/Http.thy ===== *)
theory Http
  imports Json
begin

text \<open>
  What a request to one of the web services ends with: an answer, an HTTP error raised by the handler
  (with status and detail), a request the framework refused because its path, query or body is not valid
  for the handler (status 422, with a detail of the framework's own), or an exception, which the framework
  turns into a server error.
\<close>

datatype http_failure = HttpError int json | InvalidRequest | ServerError exn

type_synonym 'a http = "http_failure + 'a"

definition http_fail :: "int \<Rightarrow> string \<Rightarrow> 'a http" where
  "http_fail status detail = Inl (HttpError status (JStr detail))"

definition http_lift :: "'a res \<Rightarrow> 'a http" where
  "http_lift m = (case m of Inl e \<Rightarrow> Inl (ServerError e) | Inr x \<Rightarrow> Inr x)"

definition http_then :: "'a http \<Rightarrow> ('a \<Rightarrow> 'b http) \<Rightarrow> 'b http" where
  "http_then m f = (case m of Inl e \<Rightarrow> Inl e | Inr x \<Rightarrow> f x)"

lemma http_simps [simp]:
  "http_then (Inl e) f = Inl e" "http_then (Inr x) f = f x" "http_lift (Inr x) = Inr x" "http_lift (Inl ex) = Inl (ServerError ex)"
  "http_fail c m \<noteq> Inr x" "http_lift (raise k t) = Inl (ServerError (k, t))" "http_then (http_fail c m) f = http_fail c m"
  by (simp_all add: http_then_def http_lift_def http_fail_def raise_def)

lemma http_then_Inr: "http_then m f = Inr y \<longleftrightarrow> (\<exists>x. m = Inr x \<and> f x = Inr y)"
  by (cases m) auto

lemma http_lift_Inr: "http_lift m = Inr x \<longleftrightarrow> m = Inr x"
  by (cases m) auto

end
