(* ===== verification/Attestor_Service.thy ===== *)
theory Attestor_Service
  imports WebMCP Http
begin

text \<open>
  interfaces/attestor_api.py: the service that executes the checks of a bundled fixture in the sandbox
  and attests the evidence with a KMS key.  A request ends with an answer, with an HTTP error or with an
  exception, which the web framework turns into a server error.  The database, the sandbox and the key
  service are parameters.  The lemmas: what an attestation says (policy, source, evidence, key); which
  requests are refused and with which status; and that the client of infrastructure/attestor.py obtains
  from this service the answer itself.
\<close>

section \<open>The service\<close>

text \<open>
  What the process has around it: its environment variables, the package with the digest files, the
  connection to the policy database (its documents, or why there is none), the sandbox with its runner,
  the key service, the clock, fresh identifiers and the stamp of a report.
\<close>

record attestor_world =
  aw_env :: env_vars
  aw_package :: demo_package
  aw_hash_file :: "string \<Rightarrow> string res"
  aw_policies :: "string \<Rightarrow> string \<Rightarrow> (string \<rightharpoonup> json) res"
  aw_which :: "string option"
  aw_resolve :: "string list \<Rightarrow> string \<Rightarrow> string list"
  aw_run :: "string list \<Rightarrow> string list \<Rightarrow> int \<Rightarrow> process_run"
  aw_elapsed :: int
  aw_kms :: "string \<Rightarrow> bytes \<Rightarrow> bytes res"
  aw_clock :: int
  aw_fresh :: "string \<times> string"
  aw_stamp :: "string \<times> string"

definition attestor_fixtures :: "(string \<times> string \<times> string) list" where
  "attestor_fixtures =
    [(''vulnerable'', ''repository_vulnerable'', ''repository_vulnerable.sha256''),
     (''fixed'', ''repository_fixed'', ''repository_fixed.sha256'')]"

definition attestor_fixture :: "attestor_world \<Rightarrow> string \<Rightarrow> (string \<times> string) http" where
  "attestor_fixture w name =
    (case map_of attestor_fixtures name of
       None \<Rightarrow> http_fail 404 ''unknown bundled fixture''
     | Some (directory, hash_file) \<Rightarrow> http_lift (
         and_then (aw_hash_file w hash_file) (\<lambda>text.
           let expected = strip text in
           if directory_digest (aw_package w) directory \<noteq> expected
           then raise RuntimeError ''bundled fixture integrity mismatch'' else Inr (directory, expected))))"

definition attestor_healthz :: "attestor_world \<Rightarrow> json http" where
  "attestor_healthz w =
     http_then (http_lift (cloud_settings_from_env (aw_env w))) (\<lambda>settings. Inr (JObj
       [(''status'', JStr ''ok''),
        (''component'', JStr ''evidence-attestor''),
        (''llm_present'', JBool False),
        (''policy_read_only'', JBool True),
        (''evidence_signer_configured'', JBool (cs_evidence_kms_key_version settings \<noteq> None))]))"

definition attestor_executor :: "attestor_world \<Rightarrow> executor" where
  "attestor_executor w root command = cloudrun_execute (aw_which w) (aw_resolve w) (aw_run w) (aw_elapsed w) root command"

definition attestation_answer :: "attestor_world \<Rightarrow> string \<Rightarrow> string \<Rightarrow> release_report \<Rightarrow> release_policy \<Rightarrow> signed_bundle \<Rightarrow> json" where
  "attestation_answer w fixture_name source_sha report policy sb = JObj
    [(''attested'', JBool True),
     (''fixture'', JStr fixture_name),
     (''source_sha256'', JStr source_sha),
     (''report'', report_to_dict report),
     (''signed_evidence_bundle'', signed_to_dict sb),
     (''attestor'', JObj
       [(''component'', JStr ''release-sentinel-evidence-attestor''),
        (''llm_present'', JBool False),
        (''policy_sha256'', JStr (rp_sha256 policy)),
        (''key_id'', JStr (sb_key_id sb)),
        (''sandbox_available'', JBool (aw_which w \<noteq> None))])]"

definition attest_evaluation :: "attestor_world \<Rightarrow> string \<Rightarrow> string \<Rightarrow> release_policy \<Rightarrow> release_report res" where
  "attest_evaluation w release_id directory policy =
     (if \<not> pk_exists (aw_package w) directory then raise ValueError ''repository_path must be an existing directory'' else
      evaluate (attestor_executor w) None local_gatekeeper (pk_entries (aw_package w) directory) (aw_stamp w)
        \<lparr>rq_release_id = release_id, rq_root = pk_base (aw_package w) @ [directory], rq_commit_sha = None\<rparr> policy)"

definition attest_release :: "attestor_world \<Rightarrow> string \<Rightarrow> string \<Rightarrow> json http" where
  "attest_release w fixture_name release_id =
     http_then (http_lift (cloud_settings_from_env (aw_env w))) (\<lambda>settings.
     case (cs_policy_sha256 settings, cs_evidence_kms_key_version settings) of
       (Some pin, Some key) \<Rightarrow>
         if cs_project_id settings = [] then http_fail 503 ''attestor trust-plane settings are incomplete'' else
         http_then (attestor_fixture w fixture_name) (\<lambda>(directory, source_sha).
         http_then (http_lift (aw_policies w (cs_project_id settings) (cs_policy_database settings))) (\<lambda>docs.
         http_then (http_lift (firestore_get (\<lambda>k (s :: unit). docs k) (cs_policy_id settings) (cs_policy_revision settings) ())) (\<lambda>policy.
           if rp_sha256 policy \<noteq> pin then http_fail 503 ''external policy pin mismatch'' else
         http_lift (
           and_then (attest_evaluation w release_id directory policy) (\<lambda>report.
           and_then (build_evidence_bundle report source_sha None default_ttl_seconds None None (aw_clock w) (aw_fresh w)) (\<lambda>b.
           and_then (kms_init key) (\<lambda>key.
           and_then (sign_evidence_bundle (kms_sign_payload (aw_kms w) key) b) (\<lambda>sb.
             Inr (attestation_answer w fixture_name source_sha report policy sb)))))))))
     | _ \<Rightarrow> http_fail 503 ''attestor trust-plane settings are incomplete'')"

section \<open>Lemmas\<close>

lemma attestor_fixture_Inr:
  assumes "attestor_fixture w name = Inr (directory, sha)"
  shows "\<exists>hash_file published. (name, directory, hash_file) \<in> {(''vulnerable'', ''repository_vulnerable'', ''repository_vulnerable.sha256''),
      (''fixed'', ''repository_fixed'', ''repository_fixed.sha256'')} \<and>
    aw_hash_file w hash_file = Inr published \<and> strip published = sha \<and> sha = directory_digest (aw_package w) directory"
  using assms
  by (auto simp: attestor_fixture_def attestor_fixtures_def http_lift_Inr and_then_Inr Let_def split: if_splits option.splits)

text \<open>The requests that obtain an attestation, step by step.\<close>

lemma attest_release_Inr:
  assumes "attest_release w name rid = Inr answer"
  shows "\<exists>settings pin key directory sha docs policy report b sb.
    cloud_settings_from_env (aw_env w) = Inr settings \<and> cs_policy_sha256 settings = Some pin \<and>
    cs_evidence_kms_key_version settings = Some key \<and> attestor_fixture w name = Inr (directory, sha) \<and>
    aw_policies w (cs_project_id settings) (cs_policy_database settings) = Inr docs \<and>
    firestore_get (\<lambda>k (s :: unit). docs k) (cs_policy_id settings) (cs_policy_revision settings) () = Inr policy \<and>
    rp_sha256 policy = pin \<and> attest_evaluation w rid directory policy = Inr report \<and>
    build_evidence_bundle report sha None default_ttl_seconds None None (aw_clock w) (aw_fresh w) = Inr b \<and>
    sign_evidence_bundle (kms_sign_payload (aw_kms w) key) b = Inr sb \<and>
    answer = attestation_answer w name sha report policy sb"
proof -
  obtain settings where s: "cloud_settings_from_env (aw_env w) = Inr settings"
    using assms by (auto simp: attest_release_def http_then_Inr http_lift_Inr)
  then obtain pin key where k: "cs_policy_sha256 settings = Some pin" "cs_evidence_kms_key_version settings = Some key"
    using assms by (cases "cs_policy_sha256 settings"; cases "cs_evidence_kms_key_version settings") (simp_all add: attest_release_def)
  show ?thesis
    using assms s k
    by (simp add: attest_release_def http_then_Inr http_lift_Inr and_then_Inr kms_init_def case_prod_beta split: if_splits)
      (auto simp: raise_def split: if_splits)
qed

lemma firestore_get_pinned:
  "firestore_get read_doc i r s = Inr p \<Longrightarrow> \<exists>raw. read_doc (doc_id i r) s = Some raw \<and> build_policy (obj_get raw ''policy'') = Inr p"
  by (auto simp: firestore_get_def and_then_Inr split: option.splits if_splits)

lemma kms_sign_payload_Inr:
  "kms_sign_payload kms key raw = Inr (sig, v) \<longleftrightarrow> kms key (sha256 raw) = Inr sig \<and> v = key"
  by (auto simp: kms_sign_payload_def kms_sign_def and_then_Inr)

lemma attest_evaluation_Inr:
  assumes "attest_evaluation w rid directory policy = Inr report"
  shows "rr_decision report = spec_decision (rr_findings report) \<and> rr_policy_sha256 report = rp_sha256 policy \<and>
    rr_release_id report = rid \<and>
    (\<forall>c\<in>set (commands policy). \<exists>r. attestor_executor w (pk_base (aw_package w) @ [directory]) c = Inr r \<and>
       (\<not> passed r \<longrightarrow> command_finding policy c r \<in> set (rr_findings report)))"
proof -
  let ?rq = "\<lparr>rq_release_id = rid, rq_root = pk_base (aw_package w) @ [directory], rq_commit_sha = None\<rparr>"
  have e: "evaluate (attestor_executor w) None local_gatekeeper (pk_entries (aw_package w) directory) (aw_stamp w) ?rq policy = Inr report"
    using assms by (simp add: attest_evaluation_def split: if_splits)
  then have rid: "rr_release_id report = rid"
    by (auto simp: evaluate_def Let_def and_then_Inr make_report_def case_prod_beta split: if_splits)
  from evaluate_Inr[OF e] obtain fs n where
    c: "collect_evidence (attestor_executor w) (pk_entries (aw_package w) directory) ?rq policy = Inr (fs, n)"
      "rr_findings report = fs" and
    d: "rr_decision report = spec_decision (rr_findings report)" "rr_policy_sha256 report = rp_sha256 policy"
    by (auto simp: collect_advisory_def dest: local_gate.decide_spec)
  have "\<exists>r. attestor_executor w (rq_root ?rq) k = Inr r \<and> (\<not> passed r \<longrightarrow> command_finding policy k r \<in> set fs)"
    if k: "k \<in> set (commands policy)" for k
  proof -
    obtain rs where rs: "list_all2 (\<lambda>c r. attestor_executor w (rq_root ?rq) c = Inr r) (commands policy) rs"
      using c(1) by (auto simp: collect_evidence_def run_checks_spec)
    obtain i where "i < length (commands policy)" "commands policy ! i = k" using k by (auto simp: in_set_conv_nth)
    then have "attestor_executor w (rq_root ?rq) k = Inr (rs ! i)" using rs by (auto simp: list_all2_conv_all_nth)
    then show ?thesis using collect_failed_check[OF c(1) k] by blast
  qed
  then show ?thesis using d c(2) rid by simp
qed

text \<open>Which requests are refused with an HTTP status of their own.\<close>

lemma attest_release_refused:
  assumes "attest_release w name rid = Inl (HttpError status detail)"
  shows "status = 404 \<and> name \<notin> {''vulnerable'', ''fixed''} \<or> status = 503"
  using assms
  by (auto simp: attest_release_def http_then_def http_lift_def http_fail_def attestor_fixture_def attestor_fixtures_def
      split: option.splits sum.splits if_splits prod.splits)

text \<open>The client, on a transport that reaches this service, obtains the answer itself.\<close>

lemma client_obtains_attestation:
  assumes "attest_release w name rid = Inr answer"
    and "ok (authorization_header (fetch_id_token env) \<lparr>base_url = at_base_url c, audience = at_audience c, protocol_version = ''''\<rparr>)"
    and "\<And>headers. transport env (at_base_url c @ ''/v1/attest/release/'' @ name) headers (JObj [(''release_id'', JStr rid)]) = Inr answer"
  shows "attest_fixture env c name rid = Inr answer"
proof -
  have "is_obj answer" "truthy (obj_get answer ''attested'')"
    using attest_release_Inr[OF assms(1)] by (auto simp: attestation_answer_def)
  then show ?thesis using assms(2,3) by (auto simp: attest_fixture_def ok_iff Let_def attr_get_def)
qed

end
