(* ===== verification/Attestor_Claims.thy ===== *)
theory Attestor_Claims
  imports Demo_Samples Attestor_Service
begin

text \<open>
  Properties of the attestor service: what an attestation rests on.
\<close>

text \<open>Property C5. Whatever the attestor attests is pinned at both ends.  The source is a bundled fixture whose digest is
  the published one, the policy is read from the policy database and has the pinned digest, every command of
  the policy ran in the sandbox and left a finding when it failed, the report's decision is the one those
  findings call for, and the evidence bundle with source, policy and release is signed by the configured key.
  The published digest is the text of the fixture's hash file, without the whitespace around it; the signature in
  the answer is the one the key service made for the SHA-256 of the bundle's canonical JSON.\<close>

theorem attestations_are_pinned:
  assumes "attest_release w name rid = Inr answer"
  shows "\<exists>settings pin key directory policy report b sig docs raw hash_file published.
    cloud_settings_from_env (aw_env w) = Inr settings \<and> cs_policy_sha256 settings = Some pin \<and>
    cs_evidence_kms_key_version settings = Some key \<and>
    (name, directory, hash_file) \<in> {(''vulnerable'', ''repository_vulnerable'', ''repository_vulnerable.sha256''),
      (''fixed'', ''repository_fixed'', ''repository_fixed.sha256'')} \<and>
    aw_hash_file w hash_file = Inr published \<and> strip published = directory_digest (aw_package w) directory \<and>
    aw_policies w (cs_project_id settings) (cs_policy_database settings) = Inr docs \<and>
    docs (doc_id (cs_policy_id settings) (cs_policy_revision settings)) = Some raw \<and>
    build_policy (obj_get raw ''policy'') = Inr policy \<and> rp_sha256 policy = pin \<and>
    (\<forall>c\<in>set (commands policy). \<exists>r. attestor_executor w (pk_base (aw_package w) @ [directory]) c = Inr r \<and>
       (\<not> passed r \<longrightarrow> command_finding policy c r \<in> set (rr_findings report))) \<and>
    rr_decision report = spec_decision (rr_findings report) \<and> obj_get answer ''report'' = report_to_dict report \<and>
    eb_source_sha256 b = directory_digest (aw_package w) directory \<and> eb_policy_sha256 b = pin \<and> eb_release_id b = rid \<and>
    eb_results b = map bundle_result (sort_key finding_id (rr_findings report)) \<and>
    aw_kms w key (sha256 (canonical_json (bundle_to_dict b))) = Inr sig \<and>
    obj_get (obj_get answer ''signed_evidence_bundle'') ''bundle'' = bundle_to_dict b \<and>
    obj_get (obj_get answer ''signed_evidence_bundle'') ''bundle_sha256'' = JStr (sha256_json (bundle_to_dict b)) \<and>
    obj_get (obj_get answer ''signed_evidence_bundle'') ''signature_base64'' = JStr (b64encode sig) \<and>
    obj_get (obj_get answer ''signed_evidence_bundle'') ''key_id'' = JStr key"
proof -
  from attest_release_Inr[OF assms] obtain settings pin key directory sha docs policy report b sb where
    s: "cloud_settings_from_env (aw_env w) = Inr settings" "cs_policy_sha256 settings = Some pin"
      "cs_evidence_kms_key_version settings = Some key" and
    fx: "attestor_fixture w name = Inr (directory, sha)" and
    d: "aw_policies w (cs_project_id settings) (cs_policy_database settings) = Inr docs" and
    g: "firestore_get (\<lambda>k (s :: unit). docs k) (cs_policy_id settings) (cs_policy_revision settings) () = Inr policy" and
    pin: "rp_sha256 policy = pin" and e: "attest_evaluation w rid directory policy = Inr report" and
    b: "build_evidence_bundle report sha None default_ttl_seconds None None (aw_clock w) (aw_fresh w) = Inr b" and
    sb: "sign_evidence_bundle (kms_sign_payload (aw_kms w) key) b = Inr sb" and
    a: "answer = attestation_answer w name sha report policy sb"
    by (elim exE conjE)
  obtain raw where raw: "docs (doc_id (cs_policy_id settings) (cs_policy_revision settings)) = Some raw"
    "build_policy (obj_get raw ''policy'') = Inr policy" using firestore_get_pinned[OF g] by blast
  have eb: "eb_source_sha256 b = sha" "eb_policy_sha256 b = rr_policy_sha256 report" "eb_release_id b = rr_release_id report"
    "eb_results b = map bundle_result (sort_key finding_id (rr_findings report))"
    using b by (auto simp: build_evidence_bundle_def Let_def split: if_splits)
  obtain sig where sig: "aw_kms w key (sha256 (canonical_json (bundle_to_dict b))) = Inr sig"
    "sb_bundle sb = bundle_to_dict b" "sb_key_id sb = key" "sb_bundle_sha256 sb = sha256_json (bundle_to_dict b)"
    "sb_signature_base64 sb = b64encode sig"
    using sb by (auto simp: sign_evidence_bundle_def and_then_Inr kms_sign_payload_Inr sha256_json_def Let_def)
  from attestor_fixture_Inr[OF fx] obtain hash_file published where
    pub: "(name, directory, hash_file) \<in> {(''vulnerable'', ''repository_vulnerable'', ''repository_vulnerable.sha256''),
      (''fixed'', ''repository_fixed'', ''repository_fixed.sha256'')}" "aw_hash_file w hash_file = Inr published" and
    sha: "strip published = sha" "sha = directory_digest (aw_package w) directory"
    by (elim exE conjE)
  have digest: "strip published = directory_digest (aw_package w) directory" using sha by simp
  have doc: "obj_get answer ''report'' = report_to_dict report" "obj_get answer ''signed_evidence_bundle'' = signed_to_dict sb"
    by (simp_all add: a attestation_answer_def)
  have sd: "obj_get (obj_get answer ''signed_evidence_bundle'') ''bundle'' = bundle_to_dict b"
    "obj_get (obj_get answer ''signed_evidence_bundle'') ''bundle_sha256'' = JStr (sha256_json (bundle_to_dict b))"
    "obj_get (obj_get answer ''signed_evidence_bundle'') ''signature_base64'' = JStr (b64encode sig)"
    "obj_get (obj_get answer ''signed_evidence_bundle'') ''key_id'' = JStr key"
    by (simp_all add: doc(2) signed_to_dict_def sig)
  have ev: "rr_decision report = spec_decision (rr_findings report)" "eb_policy_sha256 b = pin" "eb_release_id b = rid"
    "eb_source_sha256 b = directory_digest (aw_package w) directory"
    "\<forall>c\<in>set (commands policy). \<exists>r. attestor_executor w (pk_base (aw_package w) @ [directory]) c = Inr r \<and>
       (\<not> passed r \<longrightarrow> command_finding policy c r \<in> set (rr_findings report))"
    using attest_evaluation_Inr[OF e] eb(1-3) pin sha(2) by simp_all
  show ?thesis
    using s pub digest d raw pin ev eb(4) sig(1) doc(1) sd by (intro exI conjI)
qed

section \<open>A sample attestor\<close>

definition attestor_env :: env_vars where
  "attestor_env = map_of
    [(''GOOGLE_CLOUD_PROJECT'', ''p''), (''RELEASE_SENTINEL_POLICY_ID'', ''org''), (''RELEASE_SENTINEL_POLICY_REVISION'', ''3''),
     (''RELEASE_SENTINEL_POLICY_SHA256'', rp_sha256 demo_policy),
     (''RELEASE_SENTINEL_EVIDENCE_KMS_KEY_VERSION'', ''k/cryptoKeyVersions/1'')]"

definition sample_attestor :: attestor_world where
  "sample_attestor = \<lparr>aw_env = attestor_env, aw_package = demo_package,
     aw_hash_file = (\<lambda>f. Inr (directory_digest demo_package ''repository_vulnerable'')),
     aw_policies = (\<lambda>p d. Inr [doc_id ''org'' 3 \<mapsto> policy_document demo_policy]), aw_which = Some ''/bin/sandbox'',
     aw_resolve = (\<lambda>root cwd. root @ [cwd]), aw_run = (\<lambda>argv cwd t. Completed ''ok'' [] 0), aw_elapsed = 1,
     aw_kms = (\<lambda>key m. Inr (take 4 m)), aw_clock = 7, aw_fresh = (''e'', ''n''), aw_stamp = (''id'', ''now'')\<rparr>"

lemma sample_key: "contains ''/cryptoKeyVersions/'' ''k/cryptoKeyVersions/1''"
  by code_simp

lemma sample_attestor_sel:
  "aw_env sample_attestor = attestor_env" "aw_package sample_attestor = demo_package" "aw_clock sample_attestor = 7"
  "aw_hash_file sample_attestor f = Inr (directory_digest demo_package ''repository_vulnerable'')"
  "aw_policies sample_attestor p d = Inr [doc_id ''org'' 3 \<mapsto> policy_document demo_policy]"
  "aw_kms sample_attestor key m = Inr (take 4 m)" "aw_fresh sample_attestor = (''e'', ''n'')" "aw_stamp sample_attestor = (''id'', ''now'')"
  "pk_base demo_package = [''pkg'']" "pk_exists demo_package d" "pk_entries demo_package d = []"
  by (simp_all add: sample_attestor_def demo_package_def)

lemma sample_settings:
  "\<exists>settings. cloud_settings_from_env attestor_env = Inr settings \<and> cs_policy_sha256 settings = Some (rp_sha256 demo_policy) \<and>
     cs_evidence_kms_key_version settings = Some ''k/cryptoKeyVersions/1'' \<and> cs_project_id settings = ''p'' \<and> cs_policy_id settings = ''org'' \<and>
     cs_policy_revision settings = 3"
proof -
  have "parse_int ''3'' = Some 3" by code_simp
  moreover have "length (rp_sha256 demo_policy) = 64" by (simp add: demo_policy_def sha256_json_def)
  then have "rp_sha256 demo_policy \<noteq> []" by auto
  ultimately show ?thesis
    by (simp add: cloud_settings_from_env_def getenv_def getenv_opt_def attestor_env_def)
qed

lemma sample_evaluation: "\<exists>rep. attest_evaluation sample_attestor rid ''repository_vulnerable'' demo_policy = Inr rep \<and>
    finding_set_sha256 (rr_findings rep) = rr_evidence_sha256 rep"
proof -
  let ?rq = "\<lparr>rq_release_id = rid, rq_root = [''pkg'', ''repository_vulnerable''], rq_commit_sha = None\<rparr>"
  obtain r where r: "attestor_executor sample_attestor [''pkg'', ''repository_vulnerable''] demo_command = Inr r" "passed r"
    by (simp add: attestor_executor_def cloudrun_execute_def sample_attestor_def inside_def passed_def Let_def)
  have "collect_evidence (attestor_executor sample_attestor) [] ?rq demo_policy = Inr ([], 1)"
    using r by (simp add: collect_evidence_def demo_policy_def)
  moreover obtain v where "local_gatekeeper rid [] [] = Inr v" "\<not> gv_llm_present v" "gv_agent_influence v = 0"
    by (simp add: local_gatekeeper_def case_prod_beta)
  ultimately show ?thesis
    using demo_advisories(3) by (auto simp: attest_evaluation_def sample_attestor_sel evaluate_def Let_def make_report_def collect_advisory_def)
qed

lemma sample_attestation: "\<exists>answer. attest_release sample_attestor ''vulnerable'' rid = Inr answer"
proof -
  obtain settings where s: "cloud_settings_from_env attestor_env = Inr settings" "cs_policy_sha256 settings = Some (rp_sha256 demo_policy)"
     "cs_evidence_kms_key_version settings = Some ''k/cryptoKeyVersions/1''" "cs_project_id settings = ''p''" "cs_policy_id settings = ''org''"
     "cs_policy_revision settings = 3" using sample_settings by blast
  have st: "strip (directory_digest demo_package d) = directory_digest demo_package d" for d
    by (simp add: directory_digest_def fixture_digest_def strip_hex)
  have f: "attestor_fixture sample_attestor ''vulnerable'' = Inr (''repository_vulnerable'', directory_digest demo_package ''repository_vulnerable'')"
    by (simp add: attestor_fixture_def attestor_fixtures_def sample_attestor_sel st http_lift_def)
  have g: "firestore_get (\<lambda>k (s :: unit). if k = doc_id ''org'' 3 then Some (policy_document demo_policy) else None) ''org'' 3 () = Inr demo_policy"
    using firestore_get_document[OF demo_wf(2), of "\<lambda>k (s :: unit). if k = doc_id ''org'' 3 then Some (policy_document demo_policy) else None" "()"]
    by (simp add: demo_policy_def)
  obtain rep where e: "attest_evaluation sample_attestor rid ''repository_vulnerable'' demo_policy = Inr rep"
    "finding_set_sha256 (rr_findings rep) = rr_evidence_sha256 rep" using sample_evaluation by blast
  then obtain b where b: "build_evidence_bundle rep (directory_digest demo_package ''repository_vulnerable'') None default_ttl_seconds None None 7 (''e'', ''n'') = Inr b"
    by (simp add: build_evidence_bundle_def default_ttl_seconds_def directory_digest_def fixture_digest_def Let_def)
  obtain sb where "sign_evidence_bundle (kms_sign_payload (aw_kms sample_attestor) ''k/cryptoKeyVersions/1'') b = Inr sb"
    by (simp add: sign_evidence_bundle_def kms_sign_payload_def kms_sign_def sample_attestor_sel Let_def)
  then show ?thesis
    by (simp add: attest_release_def sample_attestor_sel s f g e b kms_init_def sample_key http_then_def http_lift_def)
qed

theorem attestations_are_pinned_witness:
  "\<exists>answer b. attest_release sample_attestor ''vulnerable'' ''r1'' = Inr answer \<and> eb_policy_sha256 b = rp_sha256 demo_policy \<and>
     eb_source_sha256 b = directory_digest demo_package ''repository_vulnerable'' \<and>
     obj_get (obj_get answer ''signed_evidence_bundle'') ''bundle'' = bundle_to_dict b"
proof -
  obtain answer where a: "attest_release sample_attestor ''vulnerable'' ''r1'' = Inr answer" using sample_attestation by blast
  show ?thesis using attestations_are_pinned[OF a] sample_settings a by (auto simp: sample_attestor_sel)
qed

end
