(* ===== verification/Contracts.thy ===== *)
theory Contracts
  imports WebMCP_Service
begin

text \<open>
  webmcp/contracts.py: the tools offered to untrusted clients, the request models with their fields,
  and the expansion of local references in a JSON schema.  The schema that pydantic generates for a
  model is a parameter.  The expansion recurses through the definitions and Python bounds the depth
  of the recursion; the model runs it on that depth.  The lemmas: when the definitions refer to each
  other without a cycle the expansion returns, at a depth of (longest chain of definitions + 1) times
  the height of the schema, and leaves no reference; and what a request that is let through holds.
\<close>

section \<open>Tools\<close>

datatype capability = ReadTool | ChallengeTool | ProposeTool

fun capability_value :: "capability \<Rightarrow> string" where
  "capability_value ReadTool = ''READ''"
| "capability_value ChallengeTool = ''CHALLENGE''"
| "capability_value ProposeTool = ''PROPOSE''"

datatype request_model =
    EmptyRequest | AttackRequest | CoverageRequest | CompareRequest | CounterexampleRequest | MinimizeRequest
  | ProposalRequest | RebuildRequest | ReverifyRequest | VerifyProofRequest

record tool_definition =
  td_name :: string
  td_capability :: capability
  td_request :: request_model
  td_description :: string

definition tool_definitions :: "tool_definition list" where
  "tool_definitions =
    [
     \<lparr>td_name = ''inspect_release'', td_capability = ReadTool, td_request = EmptyRequest,
      td_description = (''START HERE. Inspect the release currently under review, including its verdict, source '' @
        ''and policy hashes, and blocking findings.'')\<rparr>,
     \<lparr>td_name = ''inspect_trust_boundary'', td_capability = ReadTool, td_request = EmptyRequest,
      td_description = (''Inspect which components are advisory and which deterministic component owns final '' @
        ''release authority. WebMCP never receives approval authority.'')\<rparr>,
     \<lparr>td_name = ''run_attack'', td_capability = ChallengeTool, td_request = AttackRequest,
      td_description = (''Run one predefined bounded attack against the release gate. Use it to test whether '' @
        ''advisory votes, forgery, replay, or evidence tampering can create authority; then '' @
        ''continue with find_counterexamples for the repair path.'')\<rparr>,
     \<lparr>td_name = ''run_attack_suite'', td_capability = ChallengeTool, td_request = EmptyRequest,
      td_description = (''Run the complete bounded attack campaign through the existing deterministic Gatekeeper '' @
        ''path. This capability reports containment evidence but cannot issue or override a '' @
        ''verdict; continue with compare_gate_revisions or find_counterexamples for deeper '' @
        ''analysis.'')\<rparr>,
     \<lparr>td_name = ''inspect_coverage'', td_capability = ReadTool, td_request = CoverageRequest,
      td_description = (''Inspect one policy revision on a fixed benchmark corpus, including observed escapes and '' @
        ''overblocks. Use compare_gate_revisions for the three-revision tradeoff in one call.'')\<rparr>,
     \<lparr>td_name = ''compare_gate_revisions'', td_capability = ReadTool, td_request = CompareRequest,
      td_description = (''Compare revisions 1, 2, and 3 on the same benchmark scope, with escapes and overblocks '' @
        ''side by side. Zero observed escapes remains scoped to the named corpus.'')\<rparr>,
     \<lparr>td_name = ''find_counterexamples'', td_capability = ChallengeTool, td_request = CounterexampleRequest,
      td_description = (''Repair step 1. List package-owned cases where the production gate passed an input that '' @
        ''the reference oracle marked unsafe. Pass a returned candidate_id to '' @
        ''minimize_counterexample.'')\<rparr>,
     \<lparr>td_name = ''minimize_counterexample'', td_capability = ChallengeTool, td_request = MinimizeRequest,
      td_description = (''Repair step 2. Minimize a package-owned observed escape identified by '' @
        ''find_counterexamples. After the reproducer is minimized, call propose_remediation.'')\<rparr>,
     \<lparr>td_name = ''propose_remediation'', td_capability = ProposeTool, td_request = ProposalRequest,
      td_description = (''Repair step 3. Choose one package-owned demo release and request its bounded '' @
        ''server-owned remediation proposal. It returns proposal_id and proposal_digest for '' @
        ''rebuild_candidate and does not change any verdict.'')\<rparr>,
     \<lparr>td_name = ''rebuild_candidate'', td_capability = ProposeTool, td_request = RebuildRequest,
      td_description = (''Repair step 4. Rebuild from a server-generated proposal. The new source hash inherits no '' @
        ''verdict and remains NOT_YET_REVERIFIED; pass candidate_id and new_source_sha256 to '' @
        ''reverify_candidate.'')\<rparr>,
     \<lparr>td_name = ''reverify_candidate'', td_capability = ProposeTool, td_request = ReverifyRequest,
      td_description = (''Repair step 5. Request fresh deterministic verification for a rebuilt candidate. The '' @
        ''Gatekeeper computes the verdict from signed evidence; WebMCP requests the decision but '' @
        ''never issues it.'')\<rparr>,
     \<lparr>td_name = ''verify_proof'', td_capability = ReadTool, td_request = VerifyProofRequest,
      td_description = (''Verify a supported proof identity by recomputing evidence integrity and source-context '' @
        ''binding. Use this to show that a verdict is backed by proof rather than agent assertion.'')\<rparr>]"

definition forbidden_tool_names :: "string list" where
  "forbidden_tool_names =
    [''set_verdict'', ''force_go'', ''override_gatekeeper'', ''disable_policy'', ''edit_signed_evidence'',
     ''replace_oracle_result'', ''approve_own_remediation'', ''reuse_old_go_for_new_source'', ''execute'', ''shell'',
     ''run_command'']"

text \<open>The check at the import of the module.\<close>

definition check_inventory :: "tool_definition list \<Rightarrow> unit res" where
  "check_inventory tools =
    (if set (map td_name tools) \<inter> set forbidden_tool_names \<noteq> {}
     then raise RuntimeError ''WebMCP tool inventory contains a forbidden authority capability'' else Inr ())"

section \<open>Inlining a schema\<close>

definition ref_prefix :: string where
  "ref_prefix = ''#/$defs/''"

text \<open>\<open>{**resolved, **siblings}\<close>.\<close>

definition merge_objects :: "json \<Rightarrow> (string \<times> json) list \<Rightarrow> json res" where
  "merge_objects resolved siblings =
    (case resolved of
       JObj kvs \<Rightarrow> Inr (JObj (foldl (\<lambda>d (k, v). dict_set k v d) kvs siblings))
     | _ \<Rightarrow> raise TypeError ''object is not a mapping'')"

text \<open>\<open>defs\<close> is the object of definitions; \<open>n\<close> the depth the interpreter still allows.\<close>

fun inline_local_refs :: "nat \<Rightarrow> (string \<times> json) list \<Rightarrow> json \<Rightarrow> json res" where
  "inline_local_refs 0 defs node = raise RuntimeError ''maximum recursion depth exceeded''"
| "inline_local_refs (Suc n) defs (JList xs) = and_then (map_res (inline_local_refs n defs) xs) (\<lambda>ys. Inr (JList ys))"
| "inline_local_refs (Suc n) defs (JObj kvs) =
    (let items = (\<lambda>dropped. map_res (\<lambda>(k, v). and_then (inline_local_refs n defs v) (\<lambda>v'. Inr (k, v')))
                    (filter (\<lambda>(k, v). k \<noteq> dropped) kvs)) in
     case obj_get (JObj kvs) ''$ref'' of
       JNull \<Rightarrow> and_then (items ''$defs'') (\<lambda>ys. Inr (JObj ys))
     | JStr ref \<Rightarrow>
         if \<not> starts_with ref ref_prefix then raise ValueError (''unsupported JSON Schema reference: '' @ repr_str ref) else
         let definition_name = drop (length ref_prefix) ref in
         (case map_of defs definition_name of
            None \<Rightarrow> raise ValueError (''missing JSON Schema definition: '' @ definition_name)
          | Some body \<Rightarrow>
              and_then (inline_local_refs n defs body) (\<lambda>resolved.
              and_then (items ''$ref'') (\<lambda>siblings. merge_objects resolved siblings)))
     | r \<Rightarrow> raise ValueError (''unsupported JSON Schema reference: '' @ py_repr r))"
| "inline_local_refs (Suc n) defs node = Inr node"

fun schema_defs :: "json \<Rightarrow> (string \<times> json) list" where
  "schema_defs schema = (case obj_get_def schema ''$defs'' (JObj []) of JObj kvs \<Rightarrow> kvs | _ \<Rightarrow> [])"

definition inline_json_schema :: "nat \<Rightarrow> json \<Rightarrow> json res" where
  "inline_json_schema depth schema = inline_local_refs depth (schema_defs schema) schema"

definition input_schema :: "nat \<Rightarrow> (request_model \<Rightarrow> json) \<Rightarrow> tool_definition \<Rightarrow> json res" where
  "input_schema depth model_json_schema tool = inline_json_schema depth (model_json_schema (td_request tool))"

definition tool_catalog :: "nat \<Rightarrow> (request_model \<Rightarrow> json) \<Rightarrow> json list res" where
  "tool_catalog depth model_json_schema =
     map_res (\<lambda>tool. and_then (input_schema depth model_json_schema tool) (\<lambda>schema. Inr (JObj
       [(''name'', JStr (td_name tool)),
        (''capability'', JStr (capability_value (td_capability tool))),
        (''description'', JStr (td_description tool)),
        (''input_schema'', schema)]))) tool_definitions"

section \<open>Requests\<close>

text \<open>
  The fields of a model: one of some values, one of some integers, a string of bounded length, or 64
  lower-case hexadecimal digits; a field without a default must be present.  A request is let through
  when it is an object with these fields and no other one.
\<close>

datatype field_kind = EnumField "string list" | IntEnumField "int list" | BoundedField nat nat | HexField

text \<open>\<open>as_int\<close> is pydantic's reading of a value as an integer: a numeral in a query counts as one.\<close>

fun field_convert :: "(json \<Rightarrow> int option) \<Rightarrow> field_kind \<Rightarrow> json \<Rightarrow> json option" where
  "field_convert as_int (IntEnumField vs) j =
     (case as_int j of Some i \<Rightarrow> if i \<in> set vs then Some (JInt i) else None | None \<Rightarrow> None)"
| "field_convert as_int (EnumField vs) (JStr s) = (if s \<in> set vs then Some (JStr s) else None)"
| "field_convert as_int (BoundedField low high) (JStr s) = (if low \<le> py_len s \<and> py_len s \<le> high then Some (JStr s) else None)"
| "field_convert as_int HexField (JStr s) = (if length s = 64 \<and> list_all is_hex s then Some (JStr s) else None)"
| "field_convert as_int _ _ = None"

type_synonym field_spec = "string \<times> field_kind \<times> json option"

definition challenge_field :: "string \<times> field_kind \<times> json option" where
  "challenge_field = (''challenge'', EnumField (map challenge_value [CrossTenantChallenge, PathTraversalChallenge]), None)"

definition revision_field :: "int \<Rightarrow> string \<times> field_kind \<times> json option" where
  "revision_field d = (''revision'', IntEnumField policy_revisions, Some (JInt d))"

fun request_fields :: "request_model \<Rightarrow> (string \<times> field_kind \<times> json option) list" where
  "request_fields EmptyRequest = []"
| "request_fields AttackRequest = [(''attack_name'', EnumField attack_names, None)]"
| "request_fields CoverageRequest = [challenge_field, revision_field 3]"
| "request_fields CompareRequest = [challenge_field]"
| "request_fields CounterexampleRequest = [challenge_field, revision_field 1]"
| "request_fields MinimizeRequest = [challenge_field, (''candidate_id'', BoundedField 1 128, None)]"
| "request_fields ProposalRequest =
    [(''demo_release_id'', EnumField supported_release_ids, Some (JStr (release_value CrossTenant)))]"
| "request_fields RebuildRequest = [(''proposal_id'', BoundedField 1 128, None), (''proposal_digest'', HexField, None)]"
| "request_fields ReverifyRequest = [(''candidate_id'', BoundedField 1 128, None), (''new_source_sha256'', HexField, None)]"
| "request_fields VerifyProofRequest =
    [(''proof_id'', EnumField supported_proof_ids, Some (JStr (proof_value CurrentProof)))]"

definition field_value ::
    "(json \<Rightarrow> int option) \<Rightarrow> json \<Rightarrow> string \<times> field_kind \<times> json option \<Rightarrow> (string \<times> json) option" where
  "field_value as_int body field =
    (case field of (name, kind, standard) \<Rightarrow>
       map_option (Pair name) (if obj_has body name then field_convert as_int kind (obj_get body name) else standard))"

definition validate_request :: "(json \<Rightarrow> int option) \<Rightarrow> request_model \<Rightarrow> json \<Rightarrow> (string \<times> json) list option" where
  "validate_request as_int model body =
    (let fields = request_fields model; values = map (field_value as_int body) fields in
     if is_obj body \<and> obj_keys body \<subseteq> set (map fst fields) \<and> None \<notin> set values then Some (map the values) else None)"

section \<open>Lemmas: inlining\<close>

text \<open>The references the expansion meets, and the height of a document.\<close>

fun schema_refs :: "json \<Rightarrow> json list" where
  "schema_refs (JList xs) = concat (map schema_refs xs)"
| "schema_refs (JObj kvs) =
    (let r = obj_get (JObj kvs) ''$ref''; dropped = (if r = JNull then ''$defs'' else ''$ref'') in
     (if r = JNull then [] else [r]) @ concat (map (\<lambda>(k, v). if k = dropped then [] else schema_refs v) kvs))"
| "schema_refs _ = []"

fun height :: "json \<Rightarrow> nat" where
  "height (JList xs) = Suc (Max (insert 0 (height ` set xs)))"
| "height (JObj kvs) = Suc (Max (insert 0 ((\<lambda>(k, v). height v) ` set kvs)))"
| "height _ = 1"

lemma height_pos [simp]: "0 < height j" "height j \<noteq> 0"
  by (cases j; simp)+

lemma height_item: "x \<in> set xs \<Longrightarrow> height x < height (JList xs)"
  by (simp add: less_Suc_eq_le)

lemma height_field: "(k, v) \<in> set kvs \<Longrightarrow> height v < height (JObj kvs)"
  by (force simp: less_Suc_eq_le intro: Max_ge)

text \<open>
  References that lead only downwards: each names a definition of smaller rank, and the body of every
  definition has such references only.
\<close>

definition refs_below :: "(string \<Rightarrow> nat) \<Rightarrow> (string \<times> json) list \<Rightarrow> nat \<Rightarrow> json \<Rightarrow> bool" where
  "refs_below rank defs k j \<longleftrightarrow>
     (\<forall>r\<in>set (schema_refs j). \<exists>m. r = JStr (ref_prefix @ m) \<and> m \<in> fst ` set defs \<and> rank m < k)"

definition acyclic_defs :: "(string \<Rightarrow> nat) \<Rightarrow> (string \<times> json) list \<Rightarrow> bool" where
  "acyclic_defs rank defs \<longleftrightarrow> (\<forall>(m, body)\<in>set defs. is_obj body \<and> refs_below rank defs (rank m) body)"

lemma refs_below_item: "refs_below rank defs k (JList xs) \<Longrightarrow> x \<in> set xs \<Longrightarrow> refs_below rank defs k x"
  by (auto simp: refs_below_def)

lemma refs_below_field:
  "refs_below rank defs k (JObj kvs) \<Longrightarrow> (n, v) \<in> set kvs \<Longrightarrow>
   n \<noteq> (if obj_get (JObj kvs) ''$ref'' = JNull then ''$defs'' else ''$ref'') \<Longrightarrow> refs_below rank defs k v"
  unfolding refs_below_def schema_refs.simps Let_def set_append set_concat set_map UN_iff ball_Un
  by (elim conjE) force

lemma refs_below_ref:
  "refs_below rank defs k (JObj kvs) \<Longrightarrow> obj_get (JObj kvs) ''$ref'' = r \<Longrightarrow> r \<noteq> JNull \<Longrightarrow>
   \<exists>m. r = JStr (ref_prefix @ m) \<and> m \<in> fst ` set defs \<and> rank m < k"
  by (auto simp: refs_below_def Let_def simp del: obj_get.simps)

text \<open>An object without references.\<close>

lemma no_refs_object:
  "schema_refs (JObj kvs) = [] \<longleftrightarrow>
   obj_get (JObj kvs) ''$ref'' = JNull \<and> (\<forall>(k, v)\<in>set kvs. k \<noteq> ''$defs'' \<longrightarrow> schema_refs v = [])"
  by (auto simp: Let_def simp del: obj_get.simps)

lemma set_dict_set: "p \<in> set (dict_set k v d) \<Longrightarrow> p = (k, v) \<or> p \<in> set d"
  by (induction d) (auto split: if_splits)

lemma merge_no_refs:
  assumes "schema_refs resolved = []" "is_obj resolved" "\<forall>(k, v)\<in>set siblings. k \<noteq> ''$ref'' \<and> schema_refs v = []"
  shows "\<exists>out. merge_objects resolved siblings = Inr out \<and> is_obj out \<and> schema_refs out = []"
proof -
  obtain kvs where r: "resolved = JObj kvs" using assms(2) by (cases resolved) simp_all
  have "schema_refs (JObj (foldl (\<lambda>d (k, v). dict_set k v d) kvs siblings)) = []"
    if "schema_refs (JObj kvs) = []" "\<forall>(k, v)\<in>set siblings. k \<noteq> ''$ref'' \<and> schema_refs v = []" for kvs siblings
    using that
  proof (induction siblings arbitrary: kvs)
    case (Cons p siblings)
    obtain k v where p: "p = (k, v)" by (cases p)
    have "schema_refs (JObj (dict_set k v kvs)) = []"
      using Cons.prems set_dict_set[of _ k v kvs] unfolding no_refs_object p by fastforce
    then show ?case using Cons p by simp
  qed simp
  then show ?thesis using assms r by (simp add: merge_objects_def)
qed

lemma map_res_all:
  assumes "\<And>x. x \<in> set xs \<Longrightarrow> \<exists>y. f x = Inr y \<and> P y"
  shows "\<exists>ys. map_res f xs = Inr ys \<and> list_all P ys"
  using assms
proof (induction xs)
  case (Cons x xs)
  then obtain y where "f x = Inr y" "P y" by (meson list.set_intros(1))
  moreover obtain ys where "map_res f xs = Inr ys" "list_all P ys"
    using Cons.IH Cons.prems by (meson list.set_intros(2))
  ultimately show ?case by simp
qed simp

text \<open>The fields of an object, expanded one level down.\<close>

lemma inline_fields:
  assumes "\<forall>(k, v)\<in>set kvs. k \<noteq> dropped \<longrightarrow> (\<exists>v'. f v = Inr v' \<and> schema_refs v' = [])" "f JNull = Inr JNull"
  shows "\<exists>ys. map_res (\<lambda>(k, v). and_then (f v) (\<lambda>v'. Inr (k, v'))) (filter (\<lambda>(k, v). k \<noteq> dropped) kvs) = Inr ys \<and>
    (\<forall>(k, v)\<in>set ys. k \<noteq> dropped \<and> schema_refs v = []) \<and>
    (k \<noteq> dropped \<longrightarrow> obj_get (JObj kvs) k = JNull \<longrightarrow> obj_get (JObj ys) k = JNull)"
  using assms(1)
proof (induction kvs)
  case (Cons p kvs)
  obtain l v where p: "p = (l, v)" by (cases p)
  have "\<forall>(k, v)\<in>set kvs. k \<noteq> dropped \<longrightarrow> (\<exists>v'. f v = Inr v' \<and> schema_refs v' = [])" using Cons.prems by simp
  from Cons.IH[OF this] obtain ys where
    ys: "map_res (\<lambda>(k, v). and_then (f v) (\<lambda>v'. Inr (k, v'))) (filter (\<lambda>(k, v). k \<noteq> dropped) kvs) = Inr ys"
      "\<forall>(k, v)\<in>set ys. k \<noteq> dropped \<and> schema_refs v = []"
      "k \<noteq> dropped \<longrightarrow> obj_get (JObj kvs) k = JNull \<longrightarrow> obj_get (JObj ys) k = JNull"
    by (elim exE conjE)
  show ?case
  proof (cases "l = dropped")
    case True
    then show ?thesis using ys p by auto
  next
    case False
    then obtain v' where v': "f v = Inr v'" "schema_refs v' = []" using Cons.prems p by auto
    then have "map_res (\<lambda>(k, v). and_then (f v) (\<lambda>v'. Inr (k, v'))) (filter (\<lambda>(k, v). k \<noteq> dropped) (p # kvs)) = Inr ((l, v') # ys)"
      using ys(1) p False by simp
    moreover have "obj_get (JObj ((l, v') # ys)) k = JNull" if "k \<noteq> dropped" "obj_get (JObj (p # kvs)) k = JNull"
    proof (cases "k = l")
      case True
      then have "v = JNull" using that(2) p by simp
      then show ?thesis using assms(2) v'(1) True by simp
    next
      case False
      then show ?thesis using that ys(3) p by simp
    qed
    moreover have "\<forall>(k, v)\<in>set ((l, v') # ys). k \<noteq> dropped \<and> schema_refs v = []" using ys(2) v'(2) False by simp
    ultimately show ?thesis by blast
  qed
qed simp

text \<open>The expansion returns.\<close>

lemma inline_returns:
  assumes "acyclic_defs rank defs" "\<And>m body. (m, body) \<in> set defs \<Longrightarrow> height body \<le> h"
    and "refs_below rank defs k j" "h * k + height j \<le> n"
  shows "\<exists>out. inline_local_refs n defs j = Inr out \<and> schema_refs out = [] \<and> (is_obj j \<longrightarrow> is_obj out)"
  using assms(3,4)
proof (induction n arbitrary: j k)
  case 0
  then show ?case by simp
next
  case (Suc n)
  note IH = Suc.IH
  have nul: "inline_local_refs n defs JNull = Inr JNull" if "n \<noteq> 0" using that by (cases n) simp_all
  consider (list) xs where "j = JList xs" | (obj) kvs where "j = JObj kvs" | (atom) "\<not> is_obj j" "\<And>xs. j \<noteq> JList xs"
    by (cases j) auto
  then show ?case
  proof cases
    case (list xs)
    have "\<exists>y. inline_local_refs n defs x = Inr y \<and> schema_refs y = []" if x: "x \<in> set xs" for x
    proof -
      have "h * k + height x \<le> n" using height_item[OF x] Suc.prems(2) unfolding list by linarith
      then show ?thesis using IH[of k x] refs_below_item[OF Suc.prems(1)[unfolded list] x] by blast
    qed
    from map_res_all[of xs "inline_local_refs n defs", OF this] obtain ys
      where "map_res (inline_local_refs n defs) xs = Inr ys" "list_all (\<lambda>y. schema_refs y = []) ys" by blast
    then show ?thesis by (auto simp: list list_all_iff)
  next
    case (obj kvs)
    have field: "\<exists>v'. inline_local_refs n defs v = Inr v' \<and> schema_refs v' = []"
      if "(l, v) \<in> set kvs" "l \<noteq> (if obj_get (JObj kvs) ''$ref'' = JNull then ''$defs'' else ''$ref'')" for l v
    proof -
      have "h * k + height v \<le> n" using height_field[OF that(1)] Suc.prems(2) unfolding obj by linarith
      then show ?thesis using IH[of k v] refs_below_field[OF Suc.prems(1)[unfolded obj] that] by blast
    qed
    show ?thesis
    proof (cases "obj_get (JObj kvs) ''$ref'' = JNull")
      case True
      show ?thesis
      proof (cases "kvs = []")
        case True
        then show ?thesis by (simp add: obj)
      next
        case False
        then obtain l v where "(l, v) \<in> set kvs" by (cases kvs) auto
        from height_field[OF this] have "n \<noteq> 0" using Suc.prems(2) height_pos(1)[of v] unfolding obj by linarith
        have "\<forall>(k, v)\<in>set kvs. k \<noteq> ''$defs'' \<longrightarrow> (\<exists>v'. inline_local_refs n defs v = Inr v' \<and> schema_refs v' = [])"
          using field True by auto
        from inline_fields[OF this nul[OF \<open>n \<noteq> 0\<close>], of "''$ref''"] True obtain ys where
          ys: "map_res (\<lambda>(k, v). and_then (inline_local_refs n defs v) (\<lambda>v'. Inr (k, v'))) (filter (\<lambda>(k, v). k \<noteq> ''$defs'') kvs) = Inr ys"
            "\<forall>(k, v)\<in>set ys. k \<noteq> ''$defs'' \<and> schema_refs v = []" "obj_get (JObj ys) ''$ref'' = JNull" by auto
        then have "schema_refs (JObj ys) = []" unfolding no_refs_object by auto
        then show ?thesis using True ys(1) by (simp add: obj Let_def del: obj_get.simps schema_refs.simps)
      qed
    next
      case False
      from refs_below_ref[OF Suc.prems(1)[unfolded obj] refl False] obtain m where
        m: "obj_get (JObj kvs) ''$ref'' = JStr (ref_prefix @ m)" "m \<in> fst ` set defs" "rank m < k" by blast
      then obtain body where body: "map_of defs m = Some body" by (cases "map_of defs m") (auto simp: map_of_eq_None_iff)
      note mem = map_of_SomeD[OF body]
      have b: "is_obj body" "refs_below rank defs (rank m) body" "height body \<le> h"
        using assms(1) mem assms(2)[OF mem] by (auto simp: acyclic_defs_def)
      have "h * rank m + h \<le> h * k" using m(3) by (metis Suc_leI mult_Suc_right add.commute mult_le_mono2)
      then have "h * rank m + height body \<le> n" using b(3) Suc.prems(2) height_pos(1)[of j] by linarith
      from IH[OF b(2) this] b(1) obtain resolved where
        r: "inline_local_refs n defs body = Inr resolved" "schema_refs resolved = []" "is_obj resolved" by blast
      have "n \<noteq> 0" using r(1) by (cases n) auto
      have "\<forall>(k, v)\<in>set kvs. k \<noteq> ''$ref'' \<longrightarrow> (\<exists>v'. inline_local_refs n defs v = Inr v' \<and> schema_refs v' = [])"
        using field False by auto
      from inline_fields[OF this nul[OF \<open>n \<noteq> 0\<close>]] obtain siblings where
        sib: "map_res (\<lambda>(k, v). and_then (inline_local_refs n defs v) (\<lambda>v'. Inr (k, v'))) (filter (\<lambda>(k, v). k \<noteq> ''$ref'') kvs) = Inr siblings"
          "\<forall>(k, v)\<in>set siblings. k \<noteq> ''$ref'' \<and> schema_refs v = []" by blast
      from merge_no_refs[OF r(2,3) sib(2)] obtain out where
        "merge_objects resolved siblings = Inr out" "is_obj out" "schema_refs out = []" by blast
      then show ?thesis
        by (simp add: obj m(1) body r(1) sib(1) Let_def del: obj_get.simps)
    qed
  next
    case atom
    then show ?thesis by (cases j) auto
  qed
qed

section \<open>Lemmas: tools and requests\<close>

lemma inventory_checked: "check_inventory tool_definitions = Inr ()" "distinct (map td_name tool_definitions)"
  by code_simp+

lemma list_all2_names:
  "list_all2 Q ts es \<Longrightarrow> (\<And>t e. Q t e \<Longrightarrow> f e = g t) \<Longrightarrow> map f es = map g ts \<and> (\<forall>e\<in>set es. \<exists>t\<in>set ts. Q t e)"
  by (induction rule: list_all2_induct) auto

lemma catalog_entries:
  assumes "tool_catalog depth sch = Inr entries"
  shows "map (\<lambda>e. obj_get e ''name'') entries = map (\<lambda>t. JStr (td_name t)) tool_definitions \<and>
    (\<forall>e\<in>set entries. \<exists>t\<in>set tool_definitions. obj_get e ''name'' = JStr (td_name t) \<and>
       obj_get e ''capability'' = JStr (capability_value (td_capability t)) \<and>
       inline_json_schema depth (sch (td_request t)) = Inr (obj_get e ''input_schema''))"
proof -
  have "list_all2 (\<lambda>t e. obj_get e ''name'' = JStr (td_name t) \<and>
      obj_get e ''capability'' = JStr (capability_value (td_capability t)) \<and>
      inline_json_schema depth (sch (td_request t)) = Inr (obj_get e ''input_schema'')) tool_definitions entries"
    using assms unfolding tool_catalog_def map_res_Inr
    by (rule list_all2_mono) (auto simp: and_then_Inr input_schema_def)
  from list_all2_names[OF this, of "\<lambda>e. obj_get e ''name''" "\<lambda>t. JStr (td_name t)"] show ?thesis by simp
qed

lemma validate_Some:
  assumes "validate_request as_int model body = Some values"
  shows "map fst values = map fst (request_fields model) \<and> obj_keys body \<subseteq> fst ` set (request_fields model) \<and>
    (\<forall>(name, kind, standard)\<in>set (request_fields model).
       (obj_has body name \<longrightarrow> (\<exists>v. field_convert as_int kind (obj_get body name) = Some v \<and> (name, v) \<in> set values)) \<and>
       (\<not> obj_has body name \<longrightarrow> (\<exists>v. standard = Some v \<and> (name, v) \<in> set values)))"
proof -
  let ?fs = "request_fields model"
  have v: "values = map (the \<circ> field_value as_int body) ?fs" and n: "None \<notin> field_value as_int body ` set ?fs"
    and k: "obj_keys body \<subseteq> fst ` set ?fs"
    using assms by (simp_all add: validate_request_def Let_def split: if_splits)
  have "fst (the (field_value as_int body f)) = fst f" if "f \<in> set ?fs" for f
  proof -
    have "field_value as_int body f \<noteq> None" using n imageI[OF that, of "field_value as_int body"] by metis
    then show ?thesis by (cases f) (auto simp: field_value_def)
  qed
  then have "map fst values = map fst ?fs" unfolding v by simp
  moreover have "(obj_has body name \<longrightarrow> (\<exists>v. field_convert as_int kind (obj_get body name) = Some v \<and> (name, v) \<in> set values)) \<and>
       (\<not> obj_has body name \<longrightarrow> (\<exists>v. standard = Some v \<and> (name, v) \<in> set values))"
    if f: "(name, kind, standard) \<in> set ?fs" for name kind standard
  proof -
    have "field_value as_int body (name, kind, standard) \<noteq> None" using n imageI[OF f, of "field_value as_int body"] by metis
    then obtain nv where nv: "field_value as_int body (name, kind, standard) = Some nv" by blast
    then have "nv \<in> set values" unfolding v
      using image_eqI[of nv "the \<circ> field_value as_int body" "(name, kind, standard)"] f by simp
    then show ?thesis using nv by (auto simp: field_value_def split: if_splits)
  qed
  ultimately show ?thesis using k by auto
qed

end
