(* ===== verification/WebMCP_Api.thy ===== *)
theory WebMCP_Api
  imports Contracts Http
begin

text \<open>
  interfaces/webmcp_api.py: the HTTP routes over the WebMCP service.  A route reads its path, its query or
  its validated body, calls the service, and turns a service error into an HTTP error with the error's own
  status and payload.  The state is the service's adapter for remediation.  The lemmas: which status a
  request can fail with; that a failing request changes nothing; and that only a proposal and a rebuild
  that succeed change the state.
\<close>

section \<open>Requests\<close>

text \<open>
  The routes, with the decoded segments of the path, the query parameter if there is one, or the JSON
  body.  The parts of the world: the demo releases, the coverage arena, pydantic's schemas and reading of
  an integer, and the depth of the interpreter's stack.
\<close>

datatype webmcp_request =
    GetTools | GetRelease | GetTrustBoundary
  | PostAttack string
  | GetCoverage string "string option"
  | GetComparison string
  | GetCounterexamples string "string option"
  | PostMinimize string string
  | PostProposal json
  | PostRebuild json
  | PostReverify json
  | PostVerifyProof json

record webmcp_world =
  ww_demo :: demo_world
  ww_coverage :: coverage_world
  ww_schema :: "request_model \<Rightarrow> json"
  ww_depth :: nat
  ww_as_int :: "json \<Rightarrow> int option"

definition raise_service :: "'a svc \<Rightarrow> 'a http" where
  "raise_service m =
    (case m of
       Inr x \<Rightarrow> Inr x
     | Inl (Service e) \<Rightarrow> Inl (HttpError (se_status e) (JObj (map (\<lambda>(k, v). (k, JStr v)) (error_payload e))))
     | Inl (Raised e) \<Rightarrow> Inl (ServerError e))"

text \<open>The enumerations of path and query.\<close>

definition challenge_param :: "string \<Rightarrow> (string \<Rightarrow> 'a http) \<Rightarrow> 'a http" where
  "challenge_param segment k =
    (case challenge_of segment of None \<Rightarrow> Inl InvalidRequest | Some c \<Rightarrow> k (challenge_value c))"

definition revision_param :: "webmcp_world \<Rightarrow> int \<Rightarrow> string option \<Rightarrow> (int \<Rightarrow> 'a http) \<Rightarrow> 'a http" where
  "revision_param w standard query k =
    (case query of
       None \<Rightarrow> k standard
     | Some text \<Rightarrow>
         (case field_convert (ww_as_int w) (IntEnumField policy_revisions) (JStr text) of
            Some (JInt i) \<Rightarrow> k i
          | _ \<Rightarrow> Inl InvalidRequest))"

definition body_field :: "(string \<times> json) list \<Rightarrow> string \<Rightarrow> string" where
  "body_field values name = (case map_of values name of Some (JStr s) \<Rightarrow> s | _ \<Rightarrow> [])"

section \<open>Routes\<close>

definition tools_route :: "webmcp_world \<Rightarrow> json http" where
  "tools_route w =
     http_then (http_lift (tool_catalog (ww_depth w) (ww_schema w))) (\<lambda>tools. Inr (JObj
       [(''schema'', JStr ''release-sentinel.webmcp-tools.v1''),
        (''authority'', JStr ''NO_RELEASE_AUTHORITY''),
        (''tools'', JList tools)]))"

definition attack_route :: "webmcp_world \<Rightarrow> string \<Rightarrow> json http" where
  "attack_route w name = raise_service (run_attack (\<lambda>n. lift (run_remote_attack (ww_demo w) n)) name)"

definition coverage_route :: "webmcp_world \<Rightarrow> string \<Rightarrow> string option \<Rightarrow> json http" where
  "coverage_route w segment query =
     challenge_param segment (\<lambda>challenge. revision_param w 3 query (\<lambda>rv.
       raise_service (inspect_coverage (ww_coverage w) challenge rv)))"

definition comparison_route :: "webmcp_world \<Rightarrow> string \<Rightarrow> json http" where
  "comparison_route w segment =
     challenge_param segment (\<lambda>challenge. raise_service (compare_gate_revisions (ww_coverage w) challenge))"

definition counterexamples_route :: "webmcp_world \<Rightarrow> string \<Rightarrow> string option \<Rightarrow> json http" where
  "counterexamples_route w segment query =
     challenge_param segment (\<lambda>challenge. revision_param w 1 query (\<lambda>rv.
       raise_service (find_counterexamples (ww_coverage w) challenge rv)))"

definition minimize_route :: "webmcp_world \<Rightarrow> string \<Rightarrow> string \<Rightarrow> json http" where
  "minimize_route w segment candidate_id =
     challenge_param segment (\<lambda>challenge. raise_service (minimize_counterexample (ww_coverage w) challenge candidate_id))"

definition proposal_route :: "webmcp_world \<Rightarrow> json \<Rightarrow> adapter \<Rightarrow> json http \<times> adapter" where
  "proposal_route w body a =
    (case validate_request (ww_as_int w) ProposalRequest body of
       None \<Rightarrow> (Inl InvalidRequest, a)
     | Some vs \<Rightarrow> map_prod raise_service id (propose_remediation (ww_demo w) (body_field vs ''demo_release_id'') a))"

definition rebuild_route :: "webmcp_world \<Rightarrow> json \<Rightarrow> adapter \<Rightarrow> json http \<times> adapter" where
  "rebuild_route w body a =
    (case validate_request (ww_as_int w) RebuildRequest body of
       None \<Rightarrow> (Inl InvalidRequest, a)
     | Some vs \<Rightarrow> map_prod raise_service id
         (rebuild_candidate (ww_demo w) (body_field vs ''proposal_id'') (body_field vs ''proposal_digest'') a))"

definition reverify_route :: "webmcp_world \<Rightarrow> json \<Rightarrow> adapter \<Rightarrow> json http" where
  "reverify_route w body a =
    (case validate_request (ww_as_int w) ReverifyRequest body of
       None \<Rightarrow> Inl InvalidRequest
     | Some vs \<Rightarrow> raise_service
         (reverify_candidate (ww_demo w) (body_field vs ''candidate_id'') (body_field vs ''new_source_sha256'') a))"

definition proof_route :: "webmcp_world \<Rightarrow> json \<Rightarrow> json http" where
  "proof_route w body =
    (case validate_request (ww_as_int w) VerifyProofRequest body of
       None \<Rightarrow> Inl InvalidRequest
     | Some vs \<Rightarrow> raise_service (verify_proof (ww_demo w) (body_field vs ''proof_id'')))"

fun webmcp_handle :: "webmcp_world \<Rightarrow> webmcp_request \<Rightarrow> adapter \<Rightarrow> json http \<times> adapter" where
  "webmcp_handle w GetTools a = (tools_route w, a)"
| "webmcp_handle w GetRelease a = (http_lift (inspect_release (ww_demo w)), a)"
| "webmcp_handle w GetTrustBoundary a = (Inr inspect_trust_boundary, a)"
| "webmcp_handle w (PostAttack name) a = (attack_route w name, a)"
| "webmcp_handle w (GetCoverage c q) a = (coverage_route w c q, a)"
| "webmcp_handle w (GetComparison c) a = (comparison_route w c, a)"
| "webmcp_handle w (GetCounterexamples c q) a = (counterexamples_route w c q, a)"
| "webmcp_handle w (PostMinimize c i) a = (minimize_route w c i, a)"
| "webmcp_handle w (PostProposal body) a = proposal_route w body a"
| "webmcp_handle w (PostRebuild body) a = rebuild_route w body a"
| "webmcp_handle w (PostReverify body) a = (reverify_route w body a, a)"
| "webmcp_handle w (PostVerifyProof body) a = (proof_route w body, a)"

section \<open>Lemmas: the status of a failure\<close>

text \<open>The service fails with one of four statuses and never without a code and a message.\<close>

definition service_status :: "int set" where "service_status = {404, 409, 422, 503}"

definition listed :: "'a svc \<Rightarrow> bool" where
  "listed m \<longleftrightarrow> (\<forall>e. m = Inl (Service e) \<longrightarrow> se_status e \<in> service_status)"

lemma listed_basic [simp]:
  "listed (Inr x)" "listed (Inl (Raised e))" "listed (lift m)" "listed (service_fail c msg st n) \<longleftrightarrow> st \<in> service_status"
  by (cases m; simp add: listed_def service_fail_def)+

lemma listed_then [intro]: "listed m \<Longrightarrow> (\<And>x. listed (f x)) \<Longrightarrow> listed (svc_then m f)"
  by (cases m) (auto simp: listed_def)

lemma listed_if [intro]: "listed m \<Longrightarrow> listed m' \<Longrightarrow> listed (if b then m else m')"
  by simp

lemma listed_invalid_scope [simp]: "listed (invalid_scope msg)"
  by (simp add: invalid_scope_def service_status_def)

lemma listed_coverage [simp]:
  "listed (inspect_coverage c ch rv)" "listed (compare_gate_revisions c ch)" "listed (find_counterexamples c ch rv)"
  "listed (minimize_counterexample c ch i)"
proof -
  have scope: "listed (coverage_scope_of ch rv)" by (simp add: coverage_scope_of_def split: option.split)
  show "listed (inspect_coverage c ch rv)" unfolding inspect_coverage_def using scope by (intro listed_then) auto
  show "listed (find_counterexamples c ch rv)" unfolding find_counterexamples_def using scope by (intro listed_then) auto
  show "listed (compare_gate_revisions c ch)"
    unfolding compare_gate_revisions_def Let_def by (auto intro!: listed_then simp: service_status_def split: option.split)
  show "listed (minimize_counterexample c ch i)"
    unfolding minimize_counterexample_def Let_def by (auto intro!: listed_then simp: service_status_def split: option.split)
qed

lemma listed_attack [simp]: "listed (run_attack (\<lambda>n. lift (run_remote_attack w n)) name)"
proof -
  have "svc_then (lift (run_remote_attack w name)) (\<lambda>r. lift (py_dict r)) \<noteq> Inl (Service e)" for e
    by (cases "run_remote_attack w name") (auto simp: lift_def split: sum.splits)
  then show ?thesis
    by (auto simp: run_attack_def gate_unavailable_def service_status_def split: sum.split failure.split)
qed

lemma listed_remediation [simp]:
  "listed (fst (propose_remediation w r a))" "listed (fst (rebuild_candidate w p d a))" "listed (reverify_candidate w c s a)"
  "listed (verify_proof w i)"
proof -
  show "listed (fst (propose_remediation w r a))"
    by (auto simp: propose_remediation_def Let_def service_status_def split: sum.split)
  show "listed (fst (rebuild_candidate w p d a))"
    by (auto simp: rebuild_candidate_def Let_def service_status_def split: sum.split option.split)
  have judged: "listed (judged_decision w rep x sb)" for rep x sb
    by (auto simp: judged_decision_def service_status_def split: sum.split)
  show "listed (reverify_candidate w c s a)"
    unfolding reverify_candidate_def
    by (auto intro!: listed_then judged simp: service_status_def split: option.split)
  show "listed (verify_proof w i)"
    by (auto simp: verify_proof_def service_status_def split: sum.split)
qed

lemma raise_service_failure:
  "raise_service m = Inl (HttpError status detail) \<Longrightarrow> listed m \<Longrightarrow>
   status \<in> service_status \<and> (\<exists>e. m = Inl (Service e) \<and> obj_get detail ''code'' = JStr (se_code e) \<and> obj_get detail ''message'' = JStr (se_message e))"
  by (auto simp: raise_service_def listed_def error_payload_def split: sum.splits failure.splits)

lemma raise_service_Inr: "raise_service m = Inr x \<longleftrightarrow> m = Inr x"
  by (auto simp: raise_service_def split: sum.split failure.split)

lemma param_failure:
  "challenge_param seg k = Inl f \<Longrightarrow> f = InvalidRequest \<or> (\<exists>c. k c = Inl f)"
  "revision_param w d q k' = Inl f \<Longrightarrow> f = InvalidRequest \<or> (\<exists>i. k' i = Inl f)"
  by (auto simp: challenge_param_def revision_param_def split: option.splits json.splits)

text \<open>Every HTTP error of the routes is a listed one, and carries code and message.\<close>

definition service_failure :: "http_failure \<Rightarrow> bool" where
  "service_failure f \<longleftrightarrow> (\<forall>status detail. f = HttpError status detail \<longrightarrow>
     status \<in> service_status \<and> is_str (obj_get detail ''code'') \<and> is_str (obj_get detail ''message''))"

lemma service_failure_raise: "listed m \<Longrightarrow> raise_service m = Inl f \<Longrightarrow> service_failure f"
  using raise_service_failure[of m] by (auto simp: service_failure_def)

lemma service_failure_basic [simp]: "service_failure InvalidRequest" "service_failure (ServerError e)"
  by (simp_all add: service_failure_def)

lemma service_failure_pair: "map_prod raise_service id p = (Inl f, a') \<Longrightarrow> listed (fst p) \<Longrightarrow> service_failure f"
  by (cases p) (auto intro: service_failure_raise)

lemma webmcp_failure:
  assumes "webmcp_handle w req a = (Inl f, a')"
  shows "service_failure f"
proof -
  have params: "service_failure g" if "challenge_param seg k = Inl g" "\<And>c. k c = Inl g \<Longrightarrow> service_failure g" for seg k g
    using param_failure(1)[OF that(1)] that(2) by auto
  have revs: "service_failure g" if "revision_param w d q k = Inl g" "\<And>c. k c = Inl g \<Longrightarrow> service_failure g" for d q k g
    using param_failure(2)[OF that(1)] that(2) by auto
  show ?thesis
  proof (cases req)
    case GetTools
    then show ?thesis using assms by (auto simp: tools_route_def http_then_def http_lift_def split: sum.splits)
  next
    case GetRelease
    then show ?thesis using assms by (auto simp: http_lift_def split: sum.splits)
  next
    case GetTrustBoundary
    then show ?thesis using assms by simp
  next
    case (PostAttack name)
    then have "raise_service (run_attack (\<lambda>n. lift (run_remote_attack (ww_demo w) n)) name) = Inl f"
      using assms by (simp add: attack_route_def)
    then show ?thesis by (rule service_failure_raise[OF listed_attack])
  next
    case (GetCoverage c q)
    then have "coverage_route w c q = Inl f" using assms by simp
    then show ?thesis unfolding coverage_route_def
      by (elim params revs) (auto elim: service_failure_raise[rotated])
  next
    case (GetComparison c)
    then have "comparison_route w c = Inl f" using assms by simp
    then show ?thesis unfolding comparison_route_def by (elim params) (auto elim: service_failure_raise[rotated])
  next
    case (GetCounterexamples c q)
    then have "counterexamples_route w c q = Inl f" using assms by simp
    then show ?thesis unfolding counterexamples_route_def
      by (elim params revs) (auto elim: service_failure_raise[rotated])
  next
    case (PostMinimize c i)
    then have "minimize_route w c i = Inl f" using assms by simp
    then show ?thesis unfolding minimize_route_def by (elim params) (auto elim: service_failure_raise[rotated])
  next
    case (PostProposal body)
    then show ?thesis using assms
      by (auto simp: proposal_route_def split: option.splits elim!: service_failure_pair)
  next
    case (PostRebuild body)
    then show ?thesis using assms
      by (auto simp: rebuild_route_def split: option.splits elim!: service_failure_pair)
  next
    case (PostReverify body)
    then show ?thesis using assms service_failure_raise[OF listed_remediation(3)]
      by (auto simp: reverify_route_def split: option.splits)
  next
    case (PostVerifyProof body)
    then show ?thesis using assms service_failure_raise[OF listed_remediation(4)]
      by (auto simp: proof_route_def split: option.splits)
  qed
qed

section \<open>Lemmas: the state\<close>

lemma proposal_route_cases:
  assumes "proposal_route w body a = (r, a')" "a' \<noteq> a"
  shows "\<exists>rid answer. perform (ww_demo w) (Propose rid) a = (Inr answer, a') \<and> r = Inr answer \<and>
    obj_get answer ''authority'' = JStr ''PROPOSAL_ONLY'' \<and> obj_get answer ''approved'' = JBool False"
proof -
  obtain vs where "map_prod raise_service id (propose_remediation (ww_demo w) (body_field vs ''demo_release_id'') a) = (r, a')"
    using assms by (auto simp: proposal_route_def split: option.splits)
  then obtain m where m: "propose_remediation (ww_demo w) (body_field vs ''demo_release_id'') a = (m, a')" "r = raise_service m"
    by (cases "propose_remediation (ww_demo w) (body_field vs ''demo_release_id'') a") auto
  then have p: "perform (ww_demo w) (Propose (body_field vs ''demo_release_id'')) a = (m, a')" by simp
  obtain answer where ans: "m = Inr answer"
    using failing_call_changes_nothing[of "ww_demo w" "Propose (body_field vs ''demo_release_id'')" a _ a'] p assms(2) by (cases m) auto
  moreover have "obj_get answer ''authority'' = JStr ''PROPOSAL_ONLY'' \<and> obj_get answer ''approved'' = JBool False"
    using m(1) unfolding ans by (auto simp: propose_remediation_def Let_def proposal_answer_def split: sum.splits)
  ultimately show ?thesis using p m(2) by (intro exI conjI) (auto simp: raise_service_def)
qed

lemma rebuild_route_cases:
  assumes "rebuild_route w body a = (r, a')" "a' \<noteq> a"
  shows "\<exists>pid d answer. perform (ww_demo w) (Rebuild pid d) a = (Inr answer, a') \<and> r = Inr answer \<and>
    obj_get answer ''verdict'' = JStr ''NOT_YET_REVERIFIED'' \<and> obj_get answer ''inherited_verdict'' = JBool False"
proof -
  obtain vs where "map_prod raise_service id
      (rebuild_candidate (ww_demo w) (body_field vs ''proposal_id'') (body_field vs ''proposal_digest'') a) = (r, a')"
    using assms by (auto simp: rebuild_route_def split: option.splits)
  then obtain m where m: "rebuild_candidate (ww_demo w) (body_field vs ''proposal_id'') (body_field vs ''proposal_digest'') a = (m, a')"
      "r = raise_service m"
    by (cases "rebuild_candidate (ww_demo w) (body_field vs ''proposal_id'') (body_field vs ''proposal_digest'') a") auto
  then have p: "perform (ww_demo w) (Rebuild (body_field vs ''proposal_id'') (body_field vs ''proposal_digest'')) a = (m, a')" by simp
  obtain answer where ans: "m = Inr answer"
    using failing_call_changes_nothing[of "ww_demo w" "Rebuild (body_field vs ''proposal_id'') (body_field vs ''proposal_digest'')" a _ a']
      p assms(2) by (cases m) auto
  moreover have "obj_get answer ''verdict'' = JStr ''NOT_YET_REVERIFIED'' \<and> obj_get answer ''inherited_verdict'' = JBool False"
    using m(1) unfolding ans by (auto simp: rebuild_candidate_def Let_def candidate_answer_def split: sum.splits option.splits if_splits)
  ultimately show ?thesis using p m(2) by (intro exI conjI) (auto simp: raise_service_def)
qed

lemma webmcp_state:
  assumes "webmcp_handle w req a = (r, a')" "a' \<noteq> a"
  shows "\<exists>answer. r = Inr answer \<and>
    ((\<exists>body rid. req = PostProposal body \<and> perform (ww_demo w) (Propose rid) a = (Inr answer, a') \<and>
        obj_get answer ''authority'' = JStr ''PROPOSAL_ONLY'' \<and> obj_get answer ''approved'' = JBool False) \<or>
     (\<exists>body pid d. req = PostRebuild body \<and> perform (ww_demo w) (Rebuild pid d) a = (Inr answer, a') \<and>
        obj_get answer ''verdict'' = JStr ''NOT_YET_REVERIFIED'' \<and> obj_get answer ''inherited_verdict'' = JBool False))"
proof (cases req)
  case (PostProposal body)
  then show ?thesis using proposal_route_cases[of w body a r a'] assms by (auto simp del: perform.simps)
next
  case (PostRebuild body)
  then show ?thesis using rebuild_route_cases[of w body a r a'] assms by (auto simp del: perform.simps)
qed (use assms in auto)

text \<open>A sequence of requests reaches only states of the remediation adapter.\<close>

fun serve :: "(webmcp_world \<times> webmcp_request) list \<Rightarrow> adapter" where
  "serve [] = empty_adapter"
| "serve ((w, req) # earlier) = snd (webmcp_handle w req (serve earlier))"

lemma serve_reachable: "reachable (serve reqs)"
proof (induction reqs rule: serve.induct)
  case 1
  then show ?case by (simp add: reachable.initial)
next
  case (2 w req earlier)
  obtain r a' where h: "webmcp_handle w req (serve earlier) = (r, a')" by (metis surj_pair)
  show ?case
  proof (cases "a' = serve earlier")
    case True
    then show ?thesis using 2 h by simp
  next
    case False
    from webmcp_state[OF h this] obtain c answer where "perform (ww_demo w) c (serve earlier) = (Inr answer, a')" by blast
    then show ?thesis using reachable.call[OF 2] h by simp
  qed
qed

end
