(* ===== verification/Adk_Smoke.thy ===== *)
theory Adk_Smoke
  imports Workflow
begin

text \<open>
  infrastructure/adk_smoke.py: one real turn of a model agent without authority, as a test of the
  connection.  The runtime is a parameter and answers with events, each with an optional author and the
  optional texts of its parts.  The lemma: the smoke test succeeds exactly when some text of some event
  is the proof token, up to surrounding blanks, and never claims authority.
\<close>

record smoke_event =
  ev_author :: "string option"
  ev_parts :: "string option list"

type_synonym smoke_runtime = "adk_agent \<Rightarrow> string \<Rightarrow> smoke_event list res"

definition smoke_token :: string where "smoke_token = ''RELEASE_SENTINEL_ADK_SMOKE_OK''"

definition smoke_agent :: "string \<Rightarrow> adk_agent" where
  "smoke_agent model =
    \<lparr>ag_name = ''cloud_smoke_agent'', ag_model = model, ag_mode = ''chat'',
     ag_instruction = ''You are a connectivity smoke-test agent with no release authority. '' @
       ''Reply with exactly '' @ smoke_token @ '' and nothing else.''\<rparr>"

definition smoke_message :: string where
  "smoke_message = ''Perform the Release Sentinel ADK cloud connectivity smoke test.''"

definition smoke_authors :: "smoke_event list \<Rightarrow> string list" where
  "smoke_authors events =
     sort (remdups (concat (map (\<lambda>e. case ev_author e of Some a \<Rightarrow> if a = [] then [] else [a] | None \<Rightarrow> []) events)))"

definition run_adk_gemini_smoke :: "string \<Rightarrow> smoke_runtime \<Rightarrow> json res" where
  "run_adk_gemini_smoke model runtime =
     and_then (runtime (smoke_agent model) smoke_message) (\<lambda>events.
       if smoke_token \<notin> set (event_texts (map ev_parts events))
       then raise RuntimeError ''real ADK/Gemini smoke did not return the required proof token''
       else Inr (JObj
        [(''adk_real_call'', JBool True),
         (''gemini_real_call'', JBool True),
         (''model'', JStr model),
         (''event_count'', JInt (int (length events))),
         (''authors'', JList (map JStr (smoke_authors events))),
         (''response_token_matched'', JBool True),
         (''release_authority'', JStr ''NONE'')]))"

lemma event_texts_mem: "x \<in> set (event_texts ess) \<longleftrightarrow> (\<exists>ts\<in>set ess. \<exists>t. Some t \<in> set ts \<and> t \<noteq> [] \<and> strip t = x)"
proof -
  have "x \<in> set (event_texts ess) \<longleftrightarrow> (\<exists>o'\<in>set (concat ess). o' \<noteq> None \<and> o' \<noteq> Some [] \<and> strip (the o') = x)"
    unfolding event_texts_def by auto
  also have "\<dots> \<longleftrightarrow> (\<exists>ts\<in>set ess. \<exists>t. Some t \<in> set ts \<and> t \<noteq> [] \<and> strip t = x)" by fastforce
  finally show ?thesis .
qed

lemma smoke_succeeds:
  "ok (run_adk_gemini_smoke model runtime) \<longleftrightarrow>
     (\<exists>events. runtime (smoke_agent model) smoke_message = Inr events \<and>
        (\<exists>e\<in>set events. \<exists>t. Some t \<in> set (ev_parts e) \<and> strip t = smoke_token))"
proof -
  have "strip t = smoke_token \<Longrightarrow> t \<noteq> []" for t by (auto simp: smoke_token_def)
  then have kept: "smoke_token \<in> set (event_texts (map ev_parts events)) \<longleftrightarrow>
      (\<exists>e\<in>set events. \<exists>t. Some t \<in> set (ev_parts e) \<and> strip t = smoke_token)" for events
    unfolding event_texts_mem set_map bex_simps by metis
  show ?thesis
  proof (cases "runtime (smoke_agent model) smoke_message")
    case (Inl e)
    then show ?thesis by (simp add: run_adk_gemini_smoke_def)
  next
    case (Inr events)
    then show ?thesis using kept[of events] by (simp add: run_adk_gemini_smoke_def)
  qed
qed

lemma smoke_answer:
  "run_adk_gemini_smoke model runtime = Inr answer \<Longrightarrow> obj_get answer ''release_authority'' = JStr ''NONE''"
  by (auto simp: run_adk_gemini_smoke_def and_then_Inr split: if_splits)

end
