(* ===== verification/Api.thy ===== *)
theory Api
  imports Cloud_Proof WebMCP_Api Dual_Probe Adk_Smoke
begin

text \<open>
  interfaces/api.py and interfaces/control_center.py: the HTTP interface of the service.  The
  demonstrations run the release engine on the bundled vulnerable fixture; the attack demonstration
  submits signed evidence, altered or not, to the remote gatekeeper; the cloud proof is the one of theory
  Cloud_Proof.  The files of the package, the HTTP exchanges and the model runtimes are parameters; the
  static pages are left out.  The lemmas: what the demonstrations say of votes and verdicts, which status
  a request can fail with, and which requests may change any state.
\<close>

section \<open>The world\<close>

text \<open>
  The demo world, the digest files of the package, which files the vulnerable repository has, how floats
  print, the world of a cloud proof and of a smoke test, and the world of the WebMCP routes.
\<close>

record 's api_world =
  ap_demo :: demo_world
  ap_hash_file :: "string \<Rightarrow> string res"
  ap_has_file :: "string \<Rightarrow> bool"
  ap_float :: "real \<Rightarrow> pyfloat"
  ap_cloud :: "'s cloud_world"
  ap_smoke :: smoke_runtime
  ap_webmcp :: webmcp_world

text \<open>\<open>str(exc)\<close>: a KeyError shows the key.\<close>

definition exn_text :: "exn \<Rightarrow> string" where
  "exn_text e = (if fst e = KeyError then repr_str (snd e) else snd e)"

section \<open>Fixtures\<close>

definition api_fixture :: "'s api_world \<Rightarrow> (release_policy \<times> string) res" where
  "api_fixture w =
     and_then (demo_release_policy (dw_package (ap_demo w))) (\<lambda>policy.
     and_then (ap_hash_file w ''repository_vulnerable.sha256'') (\<lambda>text. Inr (policy, strip text)))"

text \<open>
  One run of the engine on a bundled directory.  The executor is made with
  the expected digest only, so it reports the default exit code 1 for every command.
\<close>

definition bundled_evaluation ::
    "demo_world \<Rightarrow> advisor option \<Rightarrow> gate \<Rightarrow> string \<Rightarrow> string \<Rightarrow> string \<Rightarrow> release_policy \<Rightarrow> release_report res" where
  "bundled_evaluation d advise gate expected release_id directory policy =
    (let pk = dw_package d in
     if \<not> pk_exists pk directory then raise ValueError ''repository_path must be an existing directory'' else
     evaluate (\<lambda>root command. demo_execute expected 1 (length (pk_base pk) + 1) (pk_files pk directory) command)
       advise gate (pk_entries pk directory) (dw_stamp d)
       \<lparr>rq_release_id = release_id, rq_root = pk_base pk @ [directory], rq_commit_sha = None\<rparr> policy)"

definition offline_advisor :: advisor where
  "offline_advisor request projection live =
     (and_then default_registry (\<lambda>reg. Inr (deterministic_advisory reg request projection)), live)"

definition demo_report :: "'s api_world \<Rightarrow> bool \<Rightarrow> release_report res" where
  "demo_report w compromised =
     and_then (api_fixture w) (\<lambda>(policy, expected).
       bundled_evaluation (ap_demo w) (Some (if compromised then simulated_advisor else offline_advisor)) local_gatekeeper expected
         ''demo-release'' ''repository_vulnerable'' policy)"

definition signed_demo_fixture :: "'s api_world \<Rightarrow> string \<Rightarrow> string \<Rightarrow> json res" where
  "signed_demo_fixture w fixture_name release_id =
    (let vulnerable = (fixture_name = ''vulnerable'');
         directory = (if vulnerable then ''repository_vulnerable'' else ''repository_fixed'');
         hash_name = (if vulnerable then ''repository_vulnerable.sha256'' else ''repository_fixed.sha256'') in
     and_then (demo_release_policy (dw_package (ap_demo w))) (\<lambda>policy.
     and_then (ap_hash_file w hash_name) (\<lambda>text.
     and_then (bundled_evaluation (ap_demo w) None local_gatekeeper (strip text) release_id directory policy) (\<lambda>report.
     and_then (sign_report (ap_demo w) report (strip text)) (\<lambda>signed. Inr (JObj
       [(''source_sha256'', JStr (strip text)),
        (''policy_sha256'', JStr (rp_sha256 policy)),
        (''report'', report_to_dict report),
        (''signed_evidence_bundle'', signed_to_dict signed)]))))))"

definition attested_fixture :: "'s api_world \<Rightarrow> string \<Rightarrow> string \<Rightarrow> json res" where
  "attested_fixture w fixture_name release_id =
     and_then (cloud_settings_from_env (dw_env (ap_demo w))) (\<lambda>settings.
       case cs_attestor_url settings of
         Some url \<Rightarrow>
           and_then (attestor_init url (audience_or (cs_attestor_audience settings) url)) (\<lambda>c.
             attest_fixture (dw_environment (ap_demo w)) c fixture_name release_id)
       | None \<Rightarrow> signed_demo_fixture w fixture_name release_id)"

definition remote_gatekeeper :: "'s api_world \<Rightarrow> a2a_client res" where
  "remote_gatekeeper w =
     and_then (world_gatekeeper (ap_demo w)) (\<lambda>g.
       case g of RemoteGate c \<Rightarrow> Inr c | LocalGate \<Rightarrow> raise RuntimeError ''remote A2A gatekeeper is required'')"

section \<open>Static descriptions\<close>

definition healthz :: json where
  "healthz = JObj [(''status'', JStr ''ok''), (''version'', JStr ''2.3.0'')]"

definition trust_model :: json where
  "trust_model = JObj
    [(''repository_text_authority'', JStr ''NONE''),
     (''blocking_authorities'', JList [JStr ''PLATFORM'', JStr ''ORGANIZATION_POLICY'']),
     (''model_authority'', JStr ''ADVISORY_ONLY''),
     (''decision_authority'', JStr ''DETERMINISTIC_GATEKEEPER''),
     (''production_gatekeeper'', JStr ''GO_A2A_SERVICE'')]"

definition agents_answer :: "json res" where
  "agents_answer =
     and_then default_registry (\<lambda>reg.
       let agents = registry_snapshot reg;
           count = (\<lambda>authority. JInt (int (length (filter (\<lambda>a. obj_get a ''decision_authority'' = JStr authority) agents)))) in
       Inr (JObj
        [(''schema'', JStr ''release-sentinel.agent-registry.v1''),
         (''agents'', JList agents),
         (''fleet'', JObj [(''advisory'', count ''ADVISORY''), (''deterministic'', count ''DETERMINISTIC'')]),
         (''authority'', JObj [(''ADVISORY'', count ''ADVISORY''), (''DETERMINISTIC'', count ''DETERMINISTIC'')])]))"

section \<open>The control center\<close>

definition resilience_scenarios :: "string list" where
  "resilience_scenarios =
    [''force_agents_go'', ''downgrade_severity'', ''delete_blocker'', ''forge_authority'', ''replay_previous_go'',
     ''tamper_evidence_digest'']"

definition build_control_center_contract :: "json \<Rightarrow> json res" where
  "build_control_center_contract report =
     and_then (and_then (py_list (obj_get_def report ''findings'' (JList []))) (map_res finding_authorities)) (\<lambda>xss.
     and_then (get_item ''decision'' report) (\<lambda>decision. Inr (JObj
      [(''schema'', JStr ''release-sentinel.control-center.v1''),
       (''trace'', JObj
         [(''root'', JStr ''release_verdict_pipeline''),
          (''advisory_spans'', JList
            [JStr ''advisory.security_reviewer'', JStr ''advisory.test_reviewer'', JStr ''advisory.dissent_reviewer'',
             JStr ''advisory.evidence_explainer'']),
          (''a2a_client_span'', JStr ''gatekeeper.a2a_call''),
          (''go_span'', JStr ''gatekeeper.verdict_decide''),
          (''propagation'', JStr ''W3C_TRACE_CONTEXT'')]),
       (''trust_boundary'', JObj [(''agent_influence'', JInt 0)]),
       (''evidence'', JObj
         [(''signature'', JStr ''RUNTIME_PROOF_REQUIRED''),
          (''authorities'', JList (map JStr (sort (remdups (map py_str (concat xss))))))]),
       (''final_decision'', decision),
       (''resilience_scenarios'', JList (map JStr resilience_scenarios))])))"

definition control_center :: "'s api_world \<Rightarrow> json res" where
  "control_center w = and_then (demo_report w False) (\<lambda>r. build_control_center_contract (report_to_dict r))"

section \<open>Verdict independence\<close>

text \<open>\<open>decide_attested\<close> on whatever values the attested fixture holds.\<close>

definition submit_attested :: "environment \<Rightarrow> a2a_client \<Rightarrow> string \<Rightarrow> json \<Rightarrow> json \<Rightarrow> json \<Rightarrow> json list \<Rightarrow> verdict res" where
  "submit_attested env c release_id source policy bundle ops =
     and_then (py_dict bundle) (\<lambda>signed.
     and_then (a2a_post env c (rpc_payload c (request_ids env) (JObj
       [(''release_id'', JStr release_id), (''source_sha256'', source), (''policy_sha256'', policy),
        (''signed_evidence_bundle'', signed), (''agent_opinions'', JList ops)]))) (\<lambda>body.
     and_then (extract_verdict body) (\<lambda>raw.
     and_then (extract_trace_id body) (\<lambda>trace. verdict_of raw ops trace))))"

definition signed_demo_available :: "env_vars \<Rightarrow> bool" where
  "signed_demo_available vars \<longleftrightarrow> getenv_opt vars ''RELEASE_SENTINEL_GATEKEEPER_URL'' \<noteq> None \<and>
     (getenv_opt vars ''RELEASE_SENTINEL_DEMO_SIGNING_KEY'' \<noteq> None \<or> getenv_opt vars ''RELEASE_SENTINEL_ATTESTOR_URL'' \<noteq> None)"

definition signed_demo_verdict :: "'s api_world \<Rightarrow> json list \<Rightarrow> verdict res" where
  "signed_demo_verdict w ops =
    (let release_id = ''demo-verdict-independence-signed'' in
     and_then (attested_fixture w ''vulnerable'' release_id) (\<lambda>attested.
     and_then (get_item ''signed_evidence_bundle'' attested) (\<lambda>signed.
     and_then (get_item ''source_sha256'' attested) (\<lambda>source.
     and_then (and_then (get_item ''bundle'' signed) (get_item ''policy_sha256'')) (\<lambda>policy.
     and_then (remote_gatekeeper w) (\<lambda>c.
       submit_attested (dw_environment (ap_demo w)) c release_id source policy signed ops))))))"

definition go_vote :: "json \<Rightarrow> bool res" where
  "go_vote item = and_then (attr_get item ''vote'') (\<lambda>v. Inr (v = JStr ''GO''))"

definition independence_result :: "release_report \<Rightarrow> release_report \<Rightarrow> json list \<Rightarrow> bool list \<Rightarrow> bool \<Rightarrow> (string \<times> json) list" where
  "independence_result baseline compromised ops votes available =
    [(''proof'', JStr ''VERDICT_INDEPENDENCE''),
     (''baseline_decision'', JStr (decision_value (rr_decision baseline))),
     (''compromised_decision'', JStr (decision_value (rr_decision compromised))),
     (''agent_votes'', JList ops),
     (''agents_all_go'', JBool (ops \<noteq> [] \<and> list_all id votes)),
     (''agent_go_count'', JInt (int (length (filter id votes)))),
     (''agent_count'', JInt (int (length ops))),
     (''final_verdict'', JStr (decision_value (rr_decision compromised))),
     (''gatekeeper'', rr_gatekeeper compromised),
     (''unchanged'', JBool (rr_decision baseline = rr_decision compromised)),
     (''signed_evidence_demo_available'', JBool available)]"

definition verdict_independence :: "'s api_world \<Rightarrow> json res" where
  "verdict_independence w =
     and_then (demo_report w False) (\<lambda>baseline.
     and_then (demo_report w True) (\<lambda>compromised.
     and_then (py_list (obj_get_def (rr_advisory compromised) ''opinions'' (JList []))) (\<lambda>ops.
     and_then (map_res go_vote ops) (\<lambda>votes.
       let available = signed_demo_available (dw_env (ap_demo w));
           result = independence_result baseline compromised ops votes available in
       if \<not> available then Inr (JObj result) else
       case signed_demo_verdict w ops of
         Inr v \<Rightarrow> Inr (JObj
           (dict_set ''signed_evidence_verified'' (JBool True)
             (dict_set ''gatekeeper'' (verdict_to_dict v)
               (dict_set ''final_verdict'' (JStr (decision_value (gv_decision v))) result))))
       | Inl e \<Rightarrow>
           if catches PyException e then Inr (JObj
             (dict_set ''signed_evidence_error'' (JStr (class_name (fst e)))
               (dict_set ''signed_evidence_verified'' (JBool False) result)))
           else Inl e))))"

section \<open>The attack demonstrations\<close>

definition repository_attack :: "'s api_world \<Rightarrow> json res" where
  "repository_attack w =
     and_then (api_fixture w) (\<lambda>_. Inr (JObj
      [(''prompt_injection_fixture_present'', JBool (ap_has_file w ''README.md'')),
       (''forged_claim_present'', JBool (ap_has_file w ''forged-claim.json'')),
       (''repository_claim_authority'', JStr ''NONE''),
       (''gatekeeper_accepts_repository_claims'', JBool False),
       (''model_armor'', JObj [(''role'', JStr ''DEFENSE_IN_DEPTH''), (''live_in_local_demo'', JBool False)])]))"

definition gate_attacks :: "string list" where
  "gate_attacks =
    [''force_agents_go'', ''forged_repo_go'', ''prompt_injection'', ''downgrade_severity'',
     ''delete_blocker'', ''forge_authority'', ''replay_previous_go'', ''tamper_evidence_digest'']"

definition judge_release :: string where "judge_release = ''judge-attack-current''"

definition gate_submission :: "'s api_world \<Rightarrow> string \<Rightarrow> submission res" where
  "gate_submission w attack_name =
     and_then (attested_fixture w ''vulnerable'' judge_release) (\<lambda>current.
     and_then (get_item ''signed_evidence_bundle'' current) (\<lambda>sb.
     and_then (get_item ''source_sha256'' current) (\<lambda>source.
     and_then (and_then (get_item ''bundle'' sb) (get_item ''policy_sha256'')) (\<lambda>policy.
     and_then default_registry (\<lambda>reg.
     and_then (py_list (or_else (obj_get (compromised_agent_simulation reg
         \<lparr>rq_release_id = judge_release, rq_root = [], rq_commit_sha = None\<rparr> ([] :: json list)) ''opinions'') (JList []))) (\<lambda>ops.
     and_then (mutate_with (attested_fixture w ''fixed'' ''previous-go-release'') attack_name sb) (\<lambda>(sb', mutation). Inr
       \<lparr>sub_source_sha256 = source, sub_policy_sha256 = policy, sub_opinions = ops, sub_bundle = sb', sub_mutation = mutation\<rparr>)))))))"

definition attack_gate :: "'s api_world \<Rightarrow> string \<Rightarrow> json http" where
  "attack_gate w attack_name =
    (if attack_name \<notin> set gate_attacks then http_fail 404 ''unknown attack'' else http_lift (
     and_then (gate_submission w attack_name) (\<lambda>s.
     and_then (remote_gatekeeper w) (\<lambda>c.
     and_then (submit_raw (dw_environment (ap_demo w)) c judge_release (sub_source_sha256 s) (sub_policy_sha256 s)
         (sub_bundle s) (sub_opinions s)) (attack_report attack_name s)))))"

section \<open>Parity\<close>

definition demo_scenarios :: "parity_scenario list" where
  "demo_scenarios = map (\<lambda>(i, c). \<lparr>ps_scenario_id = i, ps_category = c, ps_blocking = True, ps_method = ''GET'', ps_path = ''/''\<rparr>)
    [(''api'', PUBLIC_API), (''auth'', AUTHORIZATION), (''db'', DATABASE_BEHAVIOR), (''errors'', ERROR_CONTRACTS),
     (''edge'', EDGE_CASES)]"

definition demo_parity :: "'s api_world \<Rightarrow> json res" where
  "demo_parity w =
    (let legacy = map_of (map (\<lambda>s. (ps_scenario_id s, observation_from_payload 200
           (JObj [(''ok'', JBool True), (''id'', JStr (ps_scenario_id s))]))) demo_scenarios);
         candidate = legacy(''auth'' \<mapsto> observation_from_payload 200
           (JObj [(''ok'', JBool True), (''id'', JStr ''auth''), (''authorization'', JStr ''regressed'')])) in
     and_then (parity_compare demo_scenarios legacy candidate) (\<lambda>cases. Inr (JObj
      [(''score'', JFloat (ap_float w (parity_score cases))),
       (''blockers'', JInt (int (length (parity_blockers cases)))),
       (''cutover_allowed'', JBool (cutover_allowed cases)),
       (''cases'', JList (map (\<lambda>c. JObj
         [(''id'', JStr (pc_scenario_id c)), (''category'', JStr (category_value (pc_category c))),
          (''matched'', JBool (pc_matched c)), (''blocking'', JBool (pc_blocking c))]) cases))])))"

section \<open>The cloud proof\<close>

definition unavailable :: "string \<Rightarrow> exn \<Rightarrow> 'a http" where
  "unavailable flag e =
    (if catches PyException e then Inl (HttpError 503 (JObj
       [(flag, JBool False), (''error'', JStr (class_name (fst e))), (''message'', JStr (exn_text e))]))
     else Inl (ServerError e))"

definition cloud_adk_smoke :: "'s api_world \<Rightarrow> json http" where
  "cloud_adk_smoke w =
    (case run_adk_gemini_smoke (model_name (cl_env (ap_cloud w))) (ap_smoke w) of
       Inr x \<Rightarrow> Inr x | Inl e \<Rightarrow> unavailable ''adk_real_call'' e)"

definition cloud_release_proof :: "'s api_world \<Rightarrow> string \<Rightarrow> 's \<Rightarrow> json http \<times> 's" where
  "cloud_release_proof w fixture_name s =
    (if fixture_name \<notin> {''vulnerable'', ''fixed''} then (http_fail 404 ''unknown bundled fixture'', s) else
     case run_cloud_release_proof (ap_cloud w) fixture_name s of
       (Inr x, s') \<Rightarrow> (Inr x, s')
     | (Inl e, s') \<Rightarrow> (unavailable ''cloud_proof'' e, s'))"

section \<open>The application\<close>

datatype api_request =
    GetHealthz | GetTrustModel | GetAgents | GetControlCenter | GetDemoRelease | GetVerdictIndependence
  | GetRepositoryAttack | PostAttackGate string | GetDemoParity | GetRuntimeProof | PostAdkSmoke
  | PostCloudProof string | WebMCPRoute webmcp_request

text \<open>The state: the ledger's database, and the adapter of the WebMCP service.\<close>

fun api_handle :: "'s api_world \<Rightarrow> api_request \<Rightarrow> 's \<times> adapter \<Rightarrow> json http \<times> ('s \<times> adapter)" where
  "api_handle w GetHealthz st = (Inr healthz, st)"
| "api_handle w GetTrustModel st = (Inr trust_model, st)"
| "api_handle w GetAgents st = (http_lift agents_answer, st)"
| "api_handle w GetControlCenter st = (http_lift (control_center w), st)"
| "api_handle w GetDemoRelease st = (http_lift (and_then (demo_report w False) (\<lambda>r. Inr (report_to_dict r))), st)"
| "api_handle w GetVerdictIndependence st = (http_lift (verdict_independence w), st)"
| "api_handle w GetRepositoryAttack st = (http_lift (repository_attack w), st)"
| "api_handle w (PostAttackGate name) st = (attack_gate w name, st)"
| "api_handle w GetDemoParity st = (http_lift (demo_parity w), st)"
| "api_handle w GetRuntimeProof st = (http_lift (runtime_proof (cl_env (ap_cloud w)) (cl_which (ap_cloud w))), st)"
| "api_handle w PostAdkSmoke st = (cloud_adk_smoke w, st)"
| "api_handle w (PostCloudProof name) (s, a) = (case cloud_release_proof w name s of (r, s') \<Rightarrow> (r, (s', a)))"
| "api_handle w (WebMCPRoute req) (s, a) = (case webmcp_handle (ap_webmcp w) req a of (r, a') \<Rightarrow> (r, (s, a')))"

section \<open>Lemmas: the demonstrations\<close>

lemma honest_evaluation:
  assumes "evaluate x (Some advise) local_gatekeeper entries st rq policy = Inr rep"
    and "\<And>rq p live. advise rq p live = (Inr (advice rq p), live)"
  shows "\<exists>n. collect_evidence x entries rq policy = Inr (rr_findings rep, n) \<and>
    rr_decision rep = spec_decision (rr_findings rep) \<and> rr_advisory rep = advice rq (advisory_projection (rr_findings rep))"
proof -
  from evaluate_Inr[OF assms(1)] obtain fs n a sealed ops v where
    c: "collect_evidence x entries rq policy = Inr (fs, n)" "collect_advisory (Some advise) rq fs = (Inr a, sealed)"
      "local_gatekeeper (rq_release_id rq) sealed ops = Inr v" "rr_decision rep = gv_decision v" "rr_findings rep = sealed"
    by blast
  have s: "a = advice rq (advisory_projection fs)" "sealed = fs"
    using c(2) by (auto simp: collect_advisory_def assms(2))
  have "rr_advisory rep = a"
    using assms(1) c(1,2) by (auto simp: evaluate_def Let_def and_then_Inr make_report_def split: if_splits)
  moreover have "rr_decision rep = spec_decision fs" using local_gate.decide_spec[OF c(3)] c(4) s(2) by simp
  ultimately show ?thesis using c(1,5) s by blast
qed

lemma bundled_evaluation_Inr:
  assumes "bundled_evaluation d (Some advise) local_gatekeeper expected rid directory policy = Inr rep"
    and "\<And>rq p live. advise rq p live = (Inr (advice rq p), live)"
  shows "\<exists>rq fs n. collect_evidence
      (\<lambda>root command. demo_execute expected 1 (length (pk_base (dw_package d)) + 1) (pk_files (dw_package d) directory) command)
      (pk_entries (dw_package d) directory) rq policy = Inr (fs, n) \<and>
    rq = \<lparr>rq_release_id = rid, rq_root = pk_base (dw_package d) @ [directory], rq_commit_sha = None\<rparr> \<and>
    rr_findings rep = fs \<and> rr_decision rep = spec_decision fs \<and> rr_advisory rep = advice rq (advisory_projection fs)"
proof -
  let ?x = "\<lambda>root command. demo_execute expected 1 (length (pk_base (dw_package d)) + 1) (pk_files (dw_package d) directory) command"
  let ?rq = "\<lparr>rq_release_id = rid, rq_root = pk_base (dw_package d) @ [directory], rq_commit_sha = None\<rparr>"
  have "evaluate ?x (Some advise) local_gatekeeper (pk_entries (dw_package d) directory) (dw_stamp d) ?rq policy = Inr rep"
    using assms(1) by (simp add: bundled_evaluation_def Let_def split: if_splits)
  from honest_evaluation[OF this assms(2)] show ?thesis by blast
qed

lemma advisors_answer:
  "offline_advisor rq p live = (Inr (deterministic_advisory (map (\<lambda>r. (ar_agent_id r, r)) trusted_records) rq p), live)"
  "simulated_advisor rq p live = (Inr (compromised_agent_simulation (map (\<lambda>r. (ar_agent_id r, r)) trusted_records) rq p), live)"
  by (simp_all add: offline_advisor_def simulated_advisor_def default_registry_value)

lemma go_votes: "map_res go_vote (opinions ''GO'' note reg) = Inr (map (\<lambda>_. True) (advisory_agents reg))"
proof -
  have "map_res go_vote (map (\<lambda>r. JObj [(''agent'', JStr (ar_agent_id r)), (''vote'', JStr ''GO''), (''note'', JStr note)]) rs) =
      Inr (map (\<lambda>_. True) rs)" for rs
    by (induction rs) (simp_all add: go_vote_def attr_get_def)
  then show ?thesis by (simp add: opinions_def)
qed

lemma four_advisors: "length (advisory_agents (map (\<lambda>r. (ar_agent_id r, r)) trusted_records)) = 4"
  by code_simp

lemma demo_reports:
  assumes "demo_report w False = Inr baseline" "demo_report w True = Inr compromised"
  shows "rr_findings compromised = rr_findings baseline" "rr_decision compromised = rr_decision baseline"
    "rr_decision baseline = spec_decision (rr_findings baseline)"
    "\<exists>rq (p :: json list). rr_advisory compromised = compromised_agent_simulation (map (\<lambda>r. (ar_agent_id r, r)) trusted_records) rq p"
proof -
  obtain policy expected where f: "api_fixture w = Inr (policy, expected)"
    using assms(1) by (auto simp: demo_report_def and_then_Inr)
  have b: "bundled_evaluation (ap_demo w) (Some offline_advisor) local_gatekeeper expected ''demo-release'' ''repository_vulnerable'' policy = Inr baseline"
    and c: "bundled_evaluation (ap_demo w) (Some simulated_advisor) local_gatekeeper expected ''demo-release'' ''repository_vulnerable'' policy = Inr compromised"
    using assms f by (simp_all add: demo_report_def)
  from bundled_evaluation_Inr[OF b advisors_answer(1)] bundled_evaluation_Inr[OF c advisors_answer(2)]
  show "rr_findings compromised = rr_findings baseline" "rr_decision compromised = rr_decision baseline"
    "rr_decision baseline = spec_decision (rr_findings baseline)"
    "\<exists>rq (p :: json list). rr_advisory compromised = compromised_agent_simulation (map (\<lambda>r. (ar_agent_id r, r)) trusted_records) rq p"
    by auto
qed

text \<open>All votes GO, and the decision is the one without them.\<close>

lemma independence_answer:
  assumes "verdict_independence w = Inr answer"
  shows "\<exists>baseline compromised. demo_report w False = Inr baseline \<and> demo_report w True = Inr compromised \<and>
    obj_get answer ''unchanged'' = JBool True \<and> obj_get answer ''agents_all_go'' = JBool True \<and>
    obj_get answer ''agent_go_count'' = JInt 4 \<and> obj_get answer ''agent_count'' = JInt 4 \<and>
    obj_get answer ''baseline_decision'' = JStr (decision_value (spec_decision (rr_findings baseline))) \<and>
    obj_get answer ''compromised_decision'' = JStr (decision_value (spec_decision (rr_findings baseline))) \<and>
    (\<not> signed_demo_available (dw_env (ap_demo w)) \<longrightarrow>
       obj_get answer ''final_verdict'' = JStr (decision_value (spec_decision (rr_findings baseline)))) \<and>
    (obj_get answer ''signed_evidence_verified'' = JBool True \<longrightarrow>
       (\<exists>ops v. signed_demo_verdict w ops = Inr v \<and> obj_get answer ''final_verdict'' = JStr (decision_value (gv_decision v))))"
proof -
  obtain baseline compromised ops votes where
    r: "demo_report w False = Inr baseline" "demo_report w True = Inr compromised"
      "py_list (obj_get_def (rr_advisory compromised) ''opinions'' (JList [])) = Inr ops" "map_res go_vote ops = Inr votes"
    using assms by (auto simp: verdict_independence_def and_then_Inr)
  define result where "result = independence_result baseline compromised ops votes (signed_demo_available (dw_env (ap_demo w)))"
  note d = demo_reports[OF r(1,2)]
  have "ops = opinions ''GO'' ''SIMULATED_COMPROMISE: forced GO opinion'' (map (\<lambda>r. (ar_agent_id r, r)) trusted_records)"
    using d(4) r(3) by (auto simp: compromised_agent_simulation_def fleet_advice_def obj_get_def_def)
  note o = this
  have "votes = map (\<lambda>_. True) (advisory_agents (map (\<lambda>r. (ar_agent_id r, r)) trusted_records))"
    using r(4) unfolding o go_votes by simp
  then have v: "votes = replicate 4 True" "length ops = 4"
    using four_advisors by (simp_all add: map_replicate_const o opinions_def)
  have base: "obj_get (JObj result) ''unchanged'' = JBool True" "obj_get (JObj result) ''agents_all_go'' = JBool True"
    "obj_get (JObj result) ''agent_go_count'' = JInt 4" "obj_get (JObj result) ''agent_count'' = JInt 4"
    "obj_get (JObj result) ''baseline_decision'' = JStr (decision_value (spec_decision (rr_findings baseline)))"
    "obj_get (JObj result) ''compromised_decision'' = JStr (decision_value (spec_decision (rr_findings baseline)))"
    "obj_get (JObj result) ''final_verdict'' = JStr (decision_value (spec_decision (rr_findings baseline)))"
    "obj_get (JObj result) ''signed_evidence_verified'' = JNull"
    using v d(1-3) by (auto simp: result_def independence_result_def list_all_iff)
  show ?thesis
  proof (cases "signed_demo_available (dw_env (ap_demo w))")
    case False
    then have "answer = JObj result" using assms r by (simp add: verdict_independence_def Let_def result_def)
    then show ?thesis using r(1,2) base by simp
  next
    case True
    show ?thesis
    proof (cases "signed_demo_verdict w ops")
      case (Inr v')
      then have "answer = JObj (dict_set ''signed_evidence_verified'' (JBool True)
             (dict_set ''gatekeeper'' (verdict_to_dict v')
               (dict_set ''final_verdict'' (JStr (decision_value (gv_decision v'))) result)))"
        using assms r True by (simp add: verdict_independence_def Let_def result_def)
      then show ?thesis using r(1,2) base True Inr by auto
    next
      case (Inl e)
      then have "answer = JObj (dict_set ''signed_evidence_error'' (JStr (class_name (fst e)))
               (dict_set ''signed_evidence_verified'' (JBool False) result))"
        using assms r True by (simp add: verdict_independence_def Let_def result_def split: if_splits)
      then show ?thesis using r(1,2) base True by auto
    qed
  qed
qed

text \<open>
  The replayed bundle of the attack demonstration.  The fixed fixture is evaluated by an executor that
  reports a failure for every command, so the bundle that is signed in this process and replayed as an
  older GO carries failed results, and its report is no GO.
\<close>

lemma replayed_demo_is_no_go:
  assumes "signed_demo_fixture w ''fixed'' rid = Inr doc" "demo_release_policy (dw_package (ap_demo w)) = Inr policy"
    and "c \<in> set (commands policy)" "blocking_on_failure c" "pc_severity c \<in> {HIGH, CRITICAL}"
  shows "\<exists>report. obj_get doc ''report'' = report_to_dict report \<and> rr_decision report = NO_GO"
proof -
  obtain digest report signed where r: "bundled_evaluation (ap_demo w) None local_gatekeeper digest rid ''repository_fixed'' policy = Inr report"
    "doc = JObj [(''source_sha256'', JStr digest), (''policy_sha256'', JStr (rp_sha256 policy)),
        (''report'', report_to_dict report), (''signed_evidence_bundle'', signed_to_dict signed)]"
    using assms(1,2) by (auto simp: signed_demo_fixture_def Let_def and_then_Inr)
  let ?d = "dw_package (ap_demo w)"
  let ?x = "\<lambda>root command. demo_execute digest 1 (length (pk_base ?d) + 1) (pk_files ?d ''repository_fixed'') command"
  let ?rq = "\<lparr>rq_release_id = rid, rq_root = pk_base ?d @ [''repository_fixed''], rq_commit_sha = None\<rparr>"
  have e: "evaluate ?x None local_gatekeeper (pk_entries ?d ''repository_fixed'') (dw_stamp (ap_demo w)) ?rq policy = Inr report"
    using r(1) by (simp add: bundled_evaluation_def Let_def split: if_splits)
  from evaluate_Inr[OF e] obtain fs n ops v where
    c: "collect_evidence ?x (pk_entries ?d ''repository_fixed'') ?rq policy = Inr (fs, n)"
      "local_gatekeeper (rq_release_id ?rq) fs ops = Inr v" "rr_decision report = gv_decision v"
    by (auto simp: collect_advisory_def)
  obtain rs where rs: "list_all2 (\<lambda>c r. ?x (rq_root ?rq) c = Inr r) (commands policy) rs"
    using c(1) by (auto simp: collect_evidence_def run_checks_spec)
  obtain i where "i < length (commands policy)" "commands policy ! i = c" using assms(3) by (auto simp: in_set_conv_nth)
  then have x: "?x (rq_root ?rq) c = Inr (rs ! i)" using rs by (auto simp: list_all2_conv_all_nth)
  have "\<not> passed (rs ! i)" using demo_execute_pinned[OF x] by simp
  from collect_failed_check[OF c(1) assms(3) x this] have mem: "command_finding policy c (rs ! i) \<in> set fs" .
  have "finding_level (command_finding policy c (rs ! i)) = NO_GO"
    using assms(4,5) by (simp add: finding_level_def command_finding_def blocking_evidence_def authoritative_def command_evidence_def Let_def)
  then have "spec_decision fs = NO_GO" using mem spec_decision_NO_GO by blast
  then have "rr_decision report = NO_GO" using local_gate.decide_spec[OF c(2)] c(3) by simp
  then show ?thesis using r(2) by auto
qed

section \<open>Lemmas: failures and states\<close>

lemma api_failure:
  assumes "api_handle w req st = (Inl (HttpError status detail), st')"
  shows "status \<in> {404, 409, 422, 503}"
proof (cases req)
  case (WebMCPRoute r)
  obtain s a where st: "st = (s, a)" by (cases st)
  obtain x a' where h: "webmcp_handle (ap_webmcp w) r a = (x, a')" by (metis surj_pair)
  then have "x = Inl (HttpError status detail)" using assms by (simp add: WebMCPRoute st)
  with webmcp_failure[of "ap_webmcp w" r a _ a'] h show ?thesis by (auto simp: service_failure_def service_status_def)
next
  case (PostCloudProof name)
  obtain s a where st: "st = (s, a)" by (cases st)
  then show ?thesis using assms PostCloudProof
    by (auto simp: cloud_release_proof_def unavailable_def http_fail_def split: if_splits prod.splits sum.splits)
qed (use assms in \<open>auto simp: http_lift_def http_fail_def attack_gate_def cloud_adk_smoke_def unavailable_def split: sum.splits if_splits\<close>)

lemma api_state:
  assumes "api_handle w req (s, a) = (r, (s', a'))"
  shows "s' \<noteq> s \<Longrightarrow> \<exists>name \<in> {''vulnerable'', ''fixed''}. req = PostCloudProof name \<and> (\<exists>x. run_cloud_release_proof (ap_cloud w) name s = (x, s'))"
    and "a' \<noteq> a \<Longrightarrow> \<exists>route. req = WebMCPRoute route \<and> webmcp_handle (ap_webmcp w) route a = (r, a')"
proof -
  show "\<exists>name \<in> {''vulnerable'', ''fixed''}. req = PostCloudProof name \<and> (\<exists>x. run_cloud_release_proof (ap_cloud w) name s = (x, s'))"
    if "s' \<noteq> s"
    using assms that by (cases req) (auto simp: cloud_release_proof_def split: if_splits prod.splits sum.splits)
  show "\<exists>route. req = WebMCPRoute route \<and> webmcp_handle (ap_webmcp w) route a = (r, a')" if "a' \<noteq> a"
    using assms that by (cases req) (auto split: prod.splits)
qed

end
