(* ===== verification/Cli.thy ===== *)
theory Cli
  imports Api
begin

text \<open>
  interfaces/cli.py: the four commands, each with the document it prints and its exit code; a command that
  raises ends with a traceback and exit code 1.  The command line is parsed by argparse, so a command is
  given with its options.  The package, files, the sandbox and the HTTP exchange are parameters.  Also
  organization_checks/auth_boundary_check.py, the check the demo policy runs on a repository.  The lemmas:
  what exit code 0 means.
\<close>

section \<open>The commands\<close>

text \<open>
  A repository path: whether it exists and is a directory, its resolved form and the entries below it.
\<close>

record repository =
  rp_exists :: bool
  rp_is_dir :: bool
  rp_resolved :: "string list"
  rp_entries :: "fs_entry list"

record cli_world =
  ci_demo :: demo_world
  ci_hash_file :: "string \<Rightarrow> string res"
  ci_coverage :: coverage_world
  ci_repository :: "string \<Rightarrow> repository"
  ci_load_json :: "string \<Rightarrow> json res"
  ci_executor :: executor

datatype cli_command =
    DemoCommand
  | VerdictProofCommand string
  | CoverageDemoCommand string
  | EvaluateCommand string string string

definition cli_fixture :: "cli_world \<Rightarrow> (release_policy \<times> string) res" where
  "cli_fixture w =
     and_then (demo_release_policy (dw_package (ci_demo w))) (\<lambda>policy.
     and_then (ci_hash_file w ''repository_vulnerable.sha256'') (\<lambda>text. Inr (policy, strip text)))"

definition decision_exit :: "decision \<Rightarrow> int" where
  "decision_exit d = (if decision_value d = ''NO_GO'' then 2 else 0)"

definition cli_demo :: "cli_world \<Rightarrow> (json \<times> int) res" where
  "cli_demo w =
     and_then (cli_fixture w) (\<lambda>(policy, expected).
     and_then (gatekeeper_from_env
         (getenv (dw_env (ci_demo w)) ''RELEASE_SENTINEL_GATEKEEPER_URL'' '''')
         (getenv (dw_env (ci_demo w)) ''RELEASE_SENTINEL_GATEKEEPER_AUDIENCE'' '''')
         (getenv (dw_env (ci_demo w)) ''RELEASE_SENTINEL_A2A_VERSION'' version_legacy) False) (\<lambda>gate.
     and_then (bundled_evaluation (ci_demo w) (Some offline_advisor) (gate_decide gate) expected ''demo-release''
         ''repository_vulnerable'' policy) (\<lambda>report.
       Inr (report_to_dict report, decision_exit (rr_decision report)))))"

definition jury_release :: string where "jury_release = ''jury-verdict-independence''"

definition jury_opinions :: "release_report \<Rightarrow> json list res" where
  "jury_opinions report =
     and_then default_registry (\<lambda>reg.
       py_list (or_else (obj_get (compromised_agent_simulation reg
         \<lparr>rq_release_id = jury_release, rq_root = [], rq_commit_sha = None\<rparr> (rr_findings report)) ''opinions'') (JList [])))"

definition proof_document :: "release_report \<Rightarrow> release_policy \<Rightarrow> signed_bundle \<Rightarrow> json list \<Rightarrow> bool list \<Rightarrow> verdict \<Rightarrow> json" where
  "proof_document report policy sb ops votes v = JObj
    [(''proof'', JStr ''VERDICT_INDEPENDENCE''),
     (''agents'', JObj [(''go'', JInt (int (length (filter id votes)))), (''total'', JInt (int (length ops)))]),
     (''final_verdict'', JStr (decision_value (gv_decision v))),
     (''gatekeeper'', verdict_to_dict v),
     (''policy_sha256'', JStr (rp_sha256 policy)),
     (''evidence_bundle_sha256'', JStr (sb_bundle_sha256 sb)),
     (''evidence_key_id'', JStr (sb_key_id sb)),
     (''signed_evidence'', JBool True),
     (''blockers'', JInt (int (length (filter (\<lambda>f. blocking_evidence f \<noteq> []) (rr_findings report)))))]"

definition proof_exit :: "json list \<Rightarrow> bool list \<Rightarrow> verdict \<Rightarrow> int" where
  "proof_exit ops votes v =
    (if length (filter id votes) = length ops \<and> length ops = 4 \<and> decision_value (gv_decision v) = ''NO_GO'' \<and>
        gv_agent_influence v = 0 then 0 else 3)"

definition cli_verdict_proof :: "cli_world \<Rightarrow> string \<Rightarrow> (json \<times> int) res" where
  "cli_verdict_proof w gatekeeper_url =
     and_then (cli_fixture w) (\<lambda>(policy, expected).
     and_then (bundled_evaluation (ci_demo w) None local_gatekeeper expected jury_release ''repository_vulnerable'' policy) (\<lambda>report.
     and_then (sign_report (ci_demo w) report expected) (\<lambda>sb.
     and_then (jury_opinions report) (\<lambda>ops.
     and_then (a2a_client_init gatekeeper_url None version_legacy) (\<lambda>c.
     and_then (decide_attested (dw_environment (ci_demo w)) c jury_release expected (rp_sha256 policy) (signed_to_dict sb) ops) (\<lambda>v.
     and_then (map_res go_vote ops) (\<lambda>votes.
       Inr (proof_document report policy sb ops votes v, proof_exit ops votes v))))))))"

definition cli_evaluate :: "cli_world \<Rightarrow> string \<Rightarrow> string \<Rightarrow> string \<Rightarrow> (json \<times> int) res" where
  "cli_evaluate w repo policy_path release_id =
     and_then (and_then (ci_load_json w policy_path) build_policy) (\<lambda>policy.
     let r = ci_repository w repo in
     and_then (make_request release_id (rp_exists r) (rp_is_dir r) (rp_resolved r) None) (\<lambda>request.
     and_then (evaluate (ci_executor w) (Some offline_advisor) local_gatekeeper (rp_entries r) (dw_stamp (ci_demo w)) request policy) (\<lambda>report.
       Inr (report_to_dict report, decision_exit (rr_decision report)))))"

definition cli_coverage_demo :: "cli_world \<Rightarrow> string \<Rightarrow> (json \<times> int) res" where
  "cli_coverage_demo w challenge =
     and_then (build_reference_demo_payload (cv_float (ci_coverage w)) (tenant_arena (ci_coverage w)) (path_arena (ci_coverage w)) challenge)
       (\<lambda>payload. Inr (payload, 0))"

fun cli_main :: "cli_world \<Rightarrow> cli_command \<Rightarrow> (json \<times> int) res" where
  "cli_main w DemoCommand = cli_demo w"
| "cli_main w (VerdictProofCommand url) = cli_verdict_proof w url"
| "cli_main w (CoverageDemoCommand challenge) = cli_coverage_demo w challenge"
| "cli_main w (EvaluateCommand repo policy release_id) = cli_evaluate w repo policy release_id"

definition exit_code :: "(json \<times> int) res \<Rightarrow> int" where
  "exit_code r = (case r of Inl _ \<Rightarrow> 1 | Inr (_, code) \<Rightarrow> code)"

section \<open>The check of the demo policy\<close>

text \<open>
  \<open>auth_boundary_check\<close> in a working directory: the resolved path of \<open>app.py\<close>, whether it is a file, and
  what loading the module and calling its \<open>can_read\<close> gives: no such function, or its answer's truth.
\<close>

datatype checker = NoChecker | Checker "string \<Rightarrow> string \<Rightarrow> bool res"

definition load_app :: "string list \<Rightarrow> string list \<Rightarrow> bool \<Rightarrow> checker res \<Rightarrow> checker res" where
  "load_app repository app_path app_is_file loaded =
    (if \<not> (inside repository app_path \<and> app_path \<noteq> repository) \<or> \<not> app_is_file
     then raise RuntimeError ''app.py missing from reviewed repository'' else loaded)"

definition auth_boundary_check :: "string list \<Rightarrow> string list \<Rightarrow> bool \<Rightarrow> checker res \<Rightarrow> (json \<times> int) res" where
  "auth_boundary_check repository app_path app_is_file loaded =
     and_then (load_app repository app_path app_is_file loaded) (\<lambda>m.
       case m of
         NoChecker \<Rightarrow> Inr (JObj [(''check'', JStr ''auth-boundary''), (''result'', JStr ''invalid-interface'')], 2)
       | Checker can_read \<Rightarrow>
           and_then (can_read ''tenant-a'' ''tenant-b'') (\<lambda>actual. Inr (JObj
             [(''check'', JStr ''auth-boundary''), (''expected'', JBool False), (''actual'', JBool actual)],
             if actual = False then 0 else 1)))"

section \<open>Lemmas: exit code 0\<close>

lemma decision_exit_0 [simp]: "decision_exit d = 0 \<longleftrightarrow> d \<noteq> NO_GO"
  by (cases d) (simp_all add: decision_exit_def)

text \<open>An evaluation that exits with 0 has run every command, and no blocking check of high severity failed.\<close>

lemma evaluate_exit_0:
  assumes "exit_code (cli_main w (EvaluateCommand repo policy_path rid)) = 0"
  shows "\<exists>policy report. and_then (ci_load_json w policy_path) build_policy = Inr policy \<and>
    cli_main w (EvaluateCommand repo policy_path rid) = Inr (report_to_dict report, 0) \<and>
    rp_exists (ci_repository w repo) \<and> rp_is_dir (ci_repository w repo) \<and>
    rr_decision report = spec_decision (rr_findings report) \<and> rr_decision report \<noteq> NO_GO \<and>
    set (scan_platform_rules (rp_resolved (ci_repository w repo)) (rp_entries (ci_repository w repo))) \<subseteq> set (rr_findings report) \<and>
    (\<forall>c\<in>set (commands policy). \<exists>r. ci_executor w (rp_resolved (ci_repository w repo)) c = Inr r \<and>
       (blocking_on_failure c \<longrightarrow> pc_severity c \<in> {HIGH, CRITICAL} \<longrightarrow> passed r))"
proof -
  let ?repo = "ci_repository w repo"
  obtain policy report where p: "and_then (ci_load_json w policy_path) build_policy = Inr policy"
    and rq: "rp_exists ?repo" "rp_is_dir ?repo"
    and e: "evaluate (ci_executor w) (Some offline_advisor) local_gatekeeper (rp_entries ?repo) (dw_stamp (ci_demo w))
      \<lparr>rq_release_id = rid, rq_root = rp_resolved ?repo, rq_commit_sha = None\<rparr> policy = Inr report"
    and d: "cli_main w (EvaluateCommand repo policy_path rid) = Inr (report_to_dict report, 0)" "rr_decision report \<noteq> NO_GO"
    using assms
    by (auto simp: exit_code_def cli_evaluate_def make_request_def Let_def and_then_Inr split: sum.splits if_splits)
  from honest_evaluation[OF e advisors_answer(1)] obtain n where
    c: "collect_evidence (ci_executor w) (rp_entries ?repo) \<lparr>rq_release_id = rid, rq_root = rp_resolved ?repo, rq_commit_sha = None\<rparr> policy
        = Inr (rr_findings report, n)" "rr_decision report = spec_decision (rr_findings report)" by blast
  have ran: "\<exists>r. ci_executor w (rp_resolved ?repo) k = Inr r \<and> (blocking_on_failure k \<longrightarrow> pc_severity k \<in> {HIGH, CRITICAL} \<longrightarrow> passed r)"
    if k: "k \<in> set (commands policy)" for k
  proof -
    obtain rs where "list_all2 (\<lambda>c r. ci_executor w (rp_resolved ?repo) c = Inr r) (commands policy) rs"
      using c(1) by (auto simp: collect_evidence_def run_checks_spec)
    moreover obtain i where "i < length (commands policy)" "commands policy ! i = k" using k by (auto simp: in_set_conv_nth)
    ultimately have x: "ci_executor w (rp_resolved ?repo) k = Inr (rs ! i)" by (auto simp: list_all2_conv_all_nth)
    have "passed (rs ! i)" if b: "blocking_on_failure k" "pc_severity k \<in> {HIGH, CRITICAL}"
    proof (rule ccontr)
      assume "\<not> passed (rs ! i)"
      from collect_failed_check[OF c(1) k _ this] x have "command_finding policy k (rs ! i) \<in> set (rr_findings report)" by simp
      moreover have "finding_level (command_finding policy k (rs ! i)) = NO_GO"
        using b by (simp add: finding_level_def command_finding_def blocking_evidence_def authoritative_def command_evidence_def Let_def)
      ultimately have "spec_decision (rr_findings report) = NO_GO" unfolding spec_decision_NO_GO by (intro bexI)
      then show False using d(2) c(2) by simp
    qed
    then show ?thesis using x by blast
  qed
  have "set (scan_platform_rules (rp_resolved ?repo) (rp_entries ?repo)) \<subseteq> set (rr_findings report)"
    using collect_scan[OF c(1)] by simp
  then show ?thesis using p rq d c(2) ran by blast
qed

text \<open>A verdict proof that exits with 0 has an accepted NO_GO against four votes GO.\<close>

lemma proof_exit_0:
  assumes "exit_code (cli_main w (VerdictProofCommand url)) = 0"
  shows "\<exists>policy expected report sb ops c v. cli_fixture w = Inr (policy, expected) \<and>
    sign_report (ci_demo w) report expected = Inr sb \<and>
    a2a_client_init url None version_legacy = Inr c \<and> length ops = 4 \<and> (\<forall>i\<in>set ops. obj_get i ''vote'' = JStr ''GO'') \<and>
    decide_attested (dw_environment (ci_demo w)) c jury_release expected (rp_sha256 policy) (signed_to_dict sb) ops = Inr v \<and>
    gv_decision v = NO_GO \<and> gv_agent_influence v = 0"
proof -
  obtain policy expected report sb ops c v votes where r: "cli_fixture w = Inr (policy, expected)"
    "sign_report (ci_demo w) report expected = Inr sb" "a2a_client_init url None version_legacy = Inr c"
    "decide_attested (dw_environment (ci_demo w)) c jury_release expected (rp_sha256 policy) (signed_to_dict sb) ops = Inr v"
    "jury_opinions report = Inr ops" "proof_exit ops votes v = 0"
    using assms by (auto simp: exit_code_def cli_verdict_proof_def and_then_Inr split: sum.splits)
  have p: "length ops = 4" "decision_value (gv_decision v) = ''NO_GO''" "gv_agent_influence v = 0"
    using r(6) by (simp_all add: proof_exit_def split: if_splits)
  have "gv_decision v = NO_GO" using p(2) by (cases "gv_decision v") simp_all
  moreover have "\<forall>i\<in>set ops. obj_get i ''vote'' = JStr ''GO''"
    using r(5) by (auto simp: jury_opinions_def and_then_Inr compromised_agent_simulation_def fleet_advice_def opinions_def or_else_def split: if_splits)
  ultimately show ?thesis using r(1-4) p by blast
qed

text \<open>The auth check passes exactly when the loaded function denies the access to the other tenant.\<close>

lemma auth_check_0:
  "exit_code (auth_boundary_check repository app_path app_is_file loaded) = 0 \<longleftrightarrow>
     inside repository app_path \<and> app_path \<noteq> repository \<and> app_is_file \<and>
     (\<exists>can_read. loaded = Inr (Checker can_read) \<and> can_read ''tenant-a'' ''tenant-b'' = Inr False)"
proof (cases loaded)
  case (Inl e)
  then show ?thesis by (simp add: auth_boundary_check_def load_app_def exit_code_def raise_def)
next
  case (Inr m)
  show ?thesis
  proof (cases m)
    case NoChecker
    then show ?thesis using Inr by (simp add: auth_boundary_check_def load_app_def exit_code_def raise_def)
  next
    case (Checker f)
    then show ?thesis using Inr
      by (cases "f ''tenant-a'' ''tenant-b''") (auto simp: auth_boundary_check_def load_app_def exit_code_def raise_def)
  qed
qed

end
