(* ===== verification/Demo_Signer.thy ===== *)
theory Demo_Signer
  imports Settings
begin

text \<open>
  operations/attestation.py: the demo signer.  A key file named by the environment, or one key for the
  life of the process in a private temporary directory, made by OpenSSL on first use and removed at exit.
  The state is the disk (files and directories with their modes) and the two globals of the module;
  OpenSSL and the naming of temporary directories are parameters.  The lemmas: the key that is kept is
  private, in a private directory, and stays the same as long as its file exists; an explicit key leaves
  the state alone; a failed generation keeps what was there; and the cleanup leaves nothing.
\<close>

section \<open>State\<close>

record signer_state =
  ss_files :: "string \<rightharpoonup> bytes \<times> nat"
  ss_dirs :: "string \<rightharpoonup> nat"
  ss_key :: "string option"
  ss_dir :: "string option"

text \<open>
  OpenSSL: where it is; a fresh temporary directory; the generation of a key at a path (exit code and
  what was written, or an exception such as a timeout); a signature with the key file at a path.
\<close>

record openssl =
  os_which :: "string option"
  os_mkdtemp :: "signer_state \<Rightarrow> string res"
  os_genkey :: "string \<Rightarrow> signer_state \<Rightarrow> (int \<times> (bytes \<times> nat) option) res"
  os_sign :: "string \<Rightarrow> bytes \<Rightarrow> signer_state \<Rightarrow> (int \<times> bytes option) res"

definition key_present :: "signer_state \<Rightarrow> string \<Rightarrow> bool" where
  "key_present s p \<longleftrightarrow> ss_files s p \<noteq> None"

definition remove_tree :: "string \<Rightarrow> signer_state \<Rightarrow> signer_state" where
  "remove_tree d s = s\<lparr>ss_files := (\<lambda>p. if starts_with p (d @ ''/'') then None else ss_files s p),
     ss_dirs := (\<lambda>p. if p = d \<or> starts_with p (d @ ''/'') then None else ss_dirs s p)\<rparr>"

definition ephemeral_key_id :: string where
  "ephemeral_key_id = ''ephemeral-offline-demo-key-not-for-verification''"

definition local_key_id :: string where "local_key_id = ''local-demo-ephemeral-key''"

section \<open>The ephemeral key\<close>

definition cleanup_ephemeral_demo_key :: "signer_state \<Rightarrow> signer_state" where
  "cleanup_ephemeral_demo_key s =
     (case ss_dir s of None \<Rightarrow> s | Some d \<Rightarrow> remove_tree d s)\<lparr>ss_key := None, ss_dir := None\<rparr>"

definition key_file :: "string \<Rightarrow> string" where "key_file d = d @ ''/evidence-private.pem''"

text \<open>The modes 0700 and 0600.\<close>

definition private_dir :: nat where "private_dir = 448"
definition private_file :: nat where "private_file = 384"

definition write_output :: "string \<Rightarrow> (bytes \<times> nat) option \<Rightarrow> signer_state \<Rightarrow> signer_state" where
  "write_output p output s = (case output of None \<Rightarrow> s | Some b \<Rightarrow> s\<lparr>ss_files := (ss_files s)(p \<mapsto> b)\<rparr>)"

definition generate_key :: "openssl \<Rightarrow> signer_state \<Rightarrow> string res \<times> signer_state" where
  "generate_key os s =
    (if os_which os = None \<or> os_which os = Some []
     then (raise RuntimeError ''OpenSSL is required to generate the offline demo signing key'', s) else
     case os_mkdtemp os s of
       Inl e \<Rightarrow> (Inl e, s)
     | Inr d \<Rightarrow>
       let s1 = s\<lparr>ss_dirs := (ss_dirs s)(d \<mapsto> private_dir)\<rparr>; key_path = key_file d in
       (case os_genkey os key_path s1 of
          Inl e \<Rightarrow> (Inl e, s1)
        | Inr (code, output) \<Rightarrow>
          let s2 = write_output key_path output s1 in
          if code \<noteq> 0 then (raise RuntimeError ''OpenSSL failed to generate the offline demo signing key'', remove_tree d s2) else
          (case ss_files s2 key_path of
             None \<Rightarrow> (raise OSError ''No such file or directory'', s2)
           | Some (content, mode) \<Rightarrow>
               (Inr key_path, s2\<lparr>ss_files := (ss_files s2)(key_path \<mapsto> (content, private_file)),
                                 ss_key := Some key_path, ss_dir := Some d\<rparr>))))"

definition ephemeral_demo_key :: "openssl \<Rightarrow> signer_state \<Rightarrow> string res \<times> signer_state" where
  "ephemeral_demo_key os s =
    (case ss_key s of
       Some p \<Rightarrow> if key_present s p then (Inr p, s) else generate_key os s
     | None \<Rightarrow> generate_key os s)"

section \<open>The signer\<close>

record demo_signer =
  sg_private_key_path :: string
  sg_demo_key_id :: string

definition demo_signer_init :: "string \<Rightarrow> string \<Rightarrow> signer_state \<Rightarrow> demo_signer res" where
  "demo_signer_init path key s =
    (if \<not> key_present s path then raise ValueError ''demo signing key does not exist''
     else Inr \<lparr>sg_private_key_path = path, sg_demo_key_id = key\<rparr>)"

definition demo_sign_payload :: "openssl \<Rightarrow> demo_signer \<Rightarrow> signer_state \<Rightarrow> bytes \<Rightarrow> (bytes \<times> string) res" where
  "demo_sign_payload os sg s payload =
     and_then (os_sign os (sg_private_key_path sg) payload s) (\<lambda>(code, output).
       if code \<noteq> 0 then raise RuntimeError ''OpenSSL demo signing failed'' else
       case output of
         None \<Rightarrow> raise OSError ''No such file or directory''
       | Some signature \<Rightarrow> Inr (signature, sg_demo_key_id sg))"

definition demo_signer_from_env :: "openssl \<Rightarrow> env_vars \<Rightarrow> signer_state \<Rightarrow> demo_signer res \<times> signer_state" where
  "demo_signer_from_env os vars s =
    (let path = strip (getenv vars ''RELEASE_SENTINEL_DEMO_SIGNING_KEY'' '''') in
     if path \<noteq> [] then (demo_signer_init path local_key_id s, s) else
     case ephemeral_demo_key os s of
       (Inl e, s') \<Rightarrow> (Inl e, s')
     | (Inr p, s') \<Rightarrow> (demo_signer_init p ephemeral_key_id s', s'))"

text \<open>What happens to the state in the life of a process: signers are made, files come and go, and the
  cleanup runs at exit.\<close>

datatype signer_op = MakeSigner openssl env_vars | DropFile string | CleanUp

fun signer_step :: "signer_op \<Rightarrow> signer_state \<Rightarrow> signer_state" where
  "signer_step (MakeSigner os vars) s = snd (demo_signer_from_env os vars s)"
| "signer_step (DropFile p) s = s\<lparr>ss_files := (ss_files s)(p := None)\<rparr>"
| "signer_step CleanUp s = cleanup_ephemeral_demo_key s"

section \<open>Lemmas\<close>

text \<open>
  The key that is kept lies in the directory that is kept.  The directory is private unless it is gone,
  and so is the key file.
\<close>

definition key_ok :: "signer_state \<Rightarrow> bool" where
  "key_ok s \<longleftrightarrow> (ss_key s = None \<longleftrightarrow> ss_dir s = None) \<and>
     (\<forall>d. ss_dir s = Some d \<longrightarrow> ss_key s = Some (key_file d) \<and> ss_dirs s d \<in> {None, Some private_dir} \<and>
        (\<forall>content mode. ss_files s (key_file d) = Some (content, mode) \<longrightarrow> mode = private_file))"

lemma remove_tree_modes:
  "ss_dirs s e \<in> {None, Some private_dir} \<Longrightarrow> ss_dirs (remove_tree d s) e \<in> {None, Some private_dir}"
  "ss_files (remove_tree d s) p = Some x \<Longrightarrow> ss_files s p = Some x"
  "ss_key (remove_tree d s) = ss_key s" "ss_dir (remove_tree d s) = ss_dir s"
  by (auto simp: remove_tree_def split: if_splits)

text \<open>What a fresh directory is for the temporary files of the process.\<close>

definition fresh_dirs :: "openssl \<Rightarrow> bool" where
  "fresh_dirs os \<longleftrightarrow> (\<forall>s d. os_mkdtemp os s = Inr d \<longrightarrow> ss_dirs s d = None \<and> ss_dir s \<noteq> Some d)"

lemma key_file_inj [simp]: "key_file d = key_file e \<longleftrightarrow> d = e"
  by (simp add: key_file_def)

lemma generate_key_cases:
  assumes "generate_key os s = (r, s')"
  shows "(\<exists>e. r = Inl e \<and> ss_key s' = ss_key s \<and> ss_dir s' = ss_dir s) \<or>
    (\<exists>d content. os_mkdtemp os s = Inr d \<and> r = Inr (key_file d) \<and> ss_key s' = Some (key_file d) \<and> ss_dir s' = Some d \<and>
       ss_dirs s' d = Some private_dir \<and> ss_files s' (key_file d) = Some (content, private_file))"
  using assms
  by (auto simp: generate_key_def Let_def write_output_def remove_tree_modes(3,4) split: if_splits sum.splits prod.splits option.splits) metis

text \<open>A failed generation touches no kept directory and no kept key.\<close>

lemma generate_key_failed:
  assumes "generate_key os s = (Inl e, s')" "fresh_dirs os" "key_ok s"
  shows "key_ok s'"
proof -
  have k: "ss_key s' = ss_key s" "ss_dir s' = ss_dir s" using generate_key_cases[OF assms(1)] by auto
  have "ss_dirs s' d \<in> {None, Some private_dir} \<and> (\<forall>content mode. ss_files s' (key_file d) = Some (content, mode) \<longrightarrow> mode = private_file)"
    if d: "ss_dir s = Some d" for d
  proof -
    have old: "ss_dirs s d \<in> {None, Some private_dir}" "\<forall>content mode. ss_files s (key_file d) = Some (content, mode) \<longrightarrow> mode = private_file"
      using assms(3) d by (auto simp: key_ok_def)
    have fresh: "os_mkdtemp os s = Inr e' \<Longrightarrow> e' \<noteq> d" for e' using assms(2) d by (auto simp: fresh_dirs_def)
    show ?thesis
      using assms(1) old fresh
      by (auto simp: generate_key_def Let_def write_output_def remove_tree_def split: if_splits sum.splits prod.splits option.splits)
  qed
  then show ?thesis using assms(3) k by (simp add: key_ok_def)
qed

lemma ephemeral_key_ok:
  assumes "ephemeral_demo_key os s = (r, s')" "fresh_dirs os" "key_ok s"
  shows "key_ok s'"
proof -
  have gen: "key_ok s'" if g: "generate_key os s = (r, s')"
  proof (cases r)
    case (Inl e)
    then show ?thesis using generate_key_failed[of os s e s'] g assms(2,3) by simp
  next
    case (Inr p)
    then show ?thesis using generate_key_cases[OF g] by (auto simp: key_ok_def)
  qed
  then show ?thesis using assms(1,3) by (auto simp: ephemeral_demo_key_def split: option.splits if_splits)
qed

lemma ephemeral_key_Inr:
  assumes "ephemeral_demo_key os s = (Inr p, s')"
  shows "ss_key s' = Some p \<and> key_present s' p"
  using assms generate_key_cases[of os s "Inr p" s']
  by (auto simp: ephemeral_demo_key_def key_present_def split: option.splits if_splits)

lemma signer_step_ok:
  assumes "key_ok s" "\<And>os vars. op = MakeSigner os vars \<Longrightarrow> fresh_dirs os"
  shows "key_ok (signer_step op s)"
proof (cases op)
  case (MakeSigner os vars)
  obtain r s' where e: "ephemeral_demo_key os s = (r, s')" by (metis surj_pair)
  then have "key_ok s'" using ephemeral_key_ok assms MakeSigner by blast
  then show ?thesis using assms(1) e by (simp add: MakeSigner demo_signer_from_env_def Let_def split: sum.split)
next
  case (DropFile p)
  then show ?thesis using assms(1) by (auto simp: key_ok_def)
next
  case CleanUp
  then show ?thesis by (simp add: key_ok_def cleanup_ephemeral_demo_key_def)
qed

lemma cleanup_leaves_nothing:
  assumes "ss_dir s = Some d"
  shows "ss_key (cleanup_ephemeral_demo_key s) = None \<and> ss_dirs (cleanup_ephemeral_demo_key s) d = None \<and>
    ss_files (cleanup_ephemeral_demo_key s) (d @ ''/'' @ x) = None"
  using assms starts_with_append[of "d @ ''/''" x] by (simp add: cleanup_ephemeral_demo_key_def remove_tree_def)

text \<open>Making a signer again gives the same signer and leaves the state alone.\<close>

lemma signer_again:
  assumes "demo_signer_from_env os vars s = (Inr sg, s')"
  shows "demo_signer_from_env os' vars s' = (Inr sg, s')"
proof (cases "strip (getenv vars ''RELEASE_SENTINEL_DEMO_SIGNING_KEY'' '''') = []")
  case True
  obtain p where p: "ephemeral_demo_key os s = (Inr p, s')" "demo_signer_init p ephemeral_key_id s' = Inr sg"
    using assms True by (auto simp: demo_signer_from_env_def split: prod.splits sum.splits)
  have "ephemeral_demo_key os' s' = (Inr p, s')"
    using ephemeral_key_Inr[OF p(1)] by (simp add: ephemeral_demo_key_def)
  then show ?thesis using True p(2) by (simp add: demo_signer_from_env_def)
next
  case False
  then show ?thesis using assms by (auto simp: demo_signer_from_env_def Let_def)
qed

text \<open>An explicit key wins and changes nothing; the ephemeral key is named as such.\<close>

lemma signer_choice:
  assumes "demo_signer_from_env os vars s = (Inr sg, s')"
  shows "if strip (getenv vars ''RELEASE_SENTINEL_DEMO_SIGNING_KEY'' '''') \<noteq> []
    then s' = s \<and> sg = \<lparr>sg_private_key_path = strip (getenv vars ''RELEASE_SENTINEL_DEMO_SIGNING_KEY'' ''''), sg_demo_key_id = local_key_id\<rparr>
    else ss_key s' = Some (sg_private_key_path sg) \<and> sg_demo_key_id sg = ephemeral_key_id"
  using assms ephemeral_key_Inr[of os s _ s']
  by (auto simp: demo_signer_from_env_def demo_signer_init_def Let_def split: if_splits prod.splits sum.splits)

end
