(* ===== verification/Interface_Claims.thy ===== *)
theory Interface_Claims
  imports Coverage_Service_Claims WebMCP_Service_Claims Cloud_Claims Cli Demo_Signer
begin

text \<open>
  Properties of the interfaces: the tool catalogue, the WebMCP routes, the HTTP application, the command
  line and the demo signer.
\<close>

section \<open>The tool catalogue\<close>

text \<open>What pydantic's schemas of the request models are: objects whose references name definitions, without a
  cycle, and shallow enough for the interpreter's stack.\<close>

definition schema_fits :: "nat \<Rightarrow> json \<Rightarrow> bool" where
  "schema_fits depth schema \<longleftrightarrow> is_obj schema \<and>
     (\<exists>rank h k. acyclic_defs rank (schema_defs schema) \<and> (\<forall>(m, body)\<in>set (schema_defs schema). height body \<le> h) \<and>
        refs_below rank (schema_defs schema) k schema \<and> h * k + height schema \<le> depth)"

text \<open>Property C31. The tool catalogue is always served: for request schemas whose definitions are acyclic and fit the stack,
  building it ends with an entry for each of the declared tools, under distinct names of which none is a
  forbidden authority capability, and with input schemas that hold no reference any more.\<close>

theorem catalog_is_served:
  assumes "\<And>model. schema_fits depth (sch model)"
  shows "\<exists>entries. tool_catalog depth sch = Inr entries \<and>
    map (\<lambda>e. obj_get e ''name'') entries = map (\<lambda>t. JStr (td_name t)) tool_definitions \<and>
    distinct (map (\<lambda>e. obj_get e ''name'') entries) \<and>
    (\<forall>e\<in>set entries. obj_get e ''name'' \<notin> JStr ` set forbidden_tool_names \<and> schema_refs (obj_get e ''input_schema'') = [])"
proof -
  have one: "\<exists>out. inline_json_schema depth (sch model) = Inr out \<and> schema_refs out = []" for model
  proof -
    obtain rank h k where f: "acyclic_defs rank (schema_defs (sch model))" "\<forall>(m, body)\<in>set (schema_defs (sch model)). height body \<le> h"
      "refs_below rank (schema_defs (sch model)) k (sch model)" "h * k + height (sch model) \<le> depth"
      using assms[of model] unfolding schema_fits_def by blast
    show ?thesis unfolding inline_json_schema_def using inline_returns[OF f(1) _ f(3,4)] f(2) by blast
  qed
  have "\<exists>ys. tool_catalog depth sch = Inr ys \<and> list_all (\<lambda>_. True) ys"
    unfolding tool_catalog_def
  proof (rule map_res_all)
    fix t :: tool_definition
    show "\<exists>y. and_then (input_schema depth sch t) (\<lambda>schema. Inr (JObj
       [(''name'', JStr (td_name t)), (''capability'', JStr (capability_value (td_capability t))),
        (''description'', JStr (td_description t)), (''input_schema'', schema)])) = Inr y \<and> True"
      using one[of "td_request t"] by (auto simp: input_schema_def)
  qed
  then obtain entries where e: "tool_catalog depth sch = Inr entries" by blast
  from catalog_entries[OF e] have names: "map (\<lambda>e. obj_get e ''name'') entries = map (\<lambda>t. JStr (td_name t)) tool_definitions"
    and each: "\<And>e. e \<in> set entries \<Longrightarrow> \<exists>t\<in>set tool_definitions. obj_get e ''name'' = JStr (td_name t) \<and>
       inline_json_schema depth (sch (td_request t)) = Inr (obj_get e ''input_schema'')" by blast+
  have dist: "distinct (map (\<lambda>t. JStr (td_name t)) tool_definitions)"
    using inventory_checked(2) by (auto simp only: distinct_map inj_on_def json.inject)
  have free: "set (map td_name tool_definitions) \<inter> set forbidden_tool_names = {}"
    using inventory_checked(1) by (auto simp: check_inventory_def raise_def split: if_splits)
  have "obj_get e ''name'' \<notin> JStr ` set forbidden_tool_names \<and> schema_refs (obj_get e ''input_schema'') = []"
    if m: "e \<in> set entries" for e
  proof -
    obtain t where t: "t \<in> set tool_definitions" "obj_get e ''name'' = JStr (td_name t)"
      "inline_json_schema depth (sch (td_request t)) = Inr (obj_get e ''input_schema'')" using each[OF m] by blast
    have "td_name t \<notin> set forbidden_tool_names" using free t(1) by (metis disjoint_iff image_eqI set_map)
    then have "obj_get e ''name'' \<notin> JStr ` set forbidden_tool_names" unfolding t(2) by (metis imageE json.inject(4))
    moreover have "schema_refs (obj_get e ''input_schema'') = []" using one[of "td_request t"] t(3) by (metis sum.inject(2))
    ultimately show ?thesis by blast
  qed
  then show ?thesis using e names dist by metis
qed

definition challenge_schema :: json where
  "challenge_schema = JObj
    [(''$defs'', JObj [(''ChallengeId'', JObj [(''enum'', JList [JStr ''cross-tenant'', JStr ''path-traversal''])])]),
     (''properties'', JObj [(''challenge'', JObj [(''$ref'', JStr ''#/$defs/ChallengeId'')])]),
     (''type'', JStr ''object'')]"

lemma challenge_schema_defs:
  "schema_defs challenge_schema = [(''ChallengeId'', JObj [(''enum'', JList [JStr ''cross-tenant'', JStr ''path-traversal''])])]"
  by code_simp

theorem catalog_is_served_witness:
  "\<exists>entries. tool_catalog 20 (\<lambda>model. challenge_schema) = Inr entries \<and> length entries = length tool_definitions"
proof -
  have "schema_fits 20 challenge_schema"
    unfolding schema_fits_def
  proof (intro conjI exI)
    show "acyclic_defs (\<lambda>m. 0) (schema_defs challenge_schema)"
      unfolding challenge_schema_defs by (simp add: acyclic_defs_def refs_below_def)
    show "\<forall>(m, body)\<in>set (schema_defs challenge_schema). height body \<le> 3"
      unfolding challenge_schema_defs by simp
    show "refs_below (\<lambda>m. 0) (schema_defs challenge_schema) 1 challenge_schema"
      unfolding challenge_schema_defs by (simp add: refs_below_def challenge_schema_def ref_prefix_def)
    show "3 * 1 + height challenge_schema \<le> 20" by (simp add: challenge_schema_def)
  qed (simp add: challenge_schema_def)
  from catalog_is_served[of 20 "\<lambda>model. challenge_schema", OF this] show ?thesis by (metis length_map)
qed

section \<open>Sample worlds\<close>

definition sample_webmcp :: webmcp_world where
  "sample_webmcp = \<lparr>ww_demo = attack_world, ww_coverage = demo_coverage, ww_schema = (\<lambda>model. challenge_schema), ww_depth = 20,
     ww_as_int = (\<lambda>j. None)\<rparr>"

definition sample_api :: "(string \<rightharpoonup> json) api_world" where
  "sample_api = \<lparr>ap_demo = attack_world, ap_hash_file = (\<lambda>f. Inr (directory_digest demo_package ''repository_vulnerable'')),
     ap_has_file = (\<lambda>f. True), ap_float = (\<lambda>x. FRepr ''0.0''), ap_cloud = proof_world,
     ap_smoke = (\<lambda>a m. raise RuntimeError ''no model''), ap_webmcp = sample_webmcp\<rparr>"

text \<open>The two offline advisors answer and leave the findings alone.\<close>

lemma bundled_advisors_run:
  assumes "collect_evidence x entries rq policy = Inr (fs, n)"
  shows "\<exists>rep. evaluate x (Some offline_advisor) local_gatekeeper entries stamp rq policy = Inr rep \<and> rr_findings rep = fs \<and>
      rr_decision rep = spec_decision fs"
    "\<exists>rep. evaluate x (Some simulated_advisor) local_gatekeeper entries stamp rq policy = Inr rep \<and> rr_findings rep = fs \<and>
      rr_advisory rep = compromised_agent_simulation (map (\<lambda>r. (ar_agent_id r, r)) trusted_records) rq (advisory_projection fs) \<and>
      rr_decision rep = spec_decision fs"
proof -
  have ops: "ok (opinions_of (deterministic_advisory reg rq p))" "ok (opinions_of (compromised_agent_simulation reg rq p))"
    for reg and p :: "json list"
    by (simp_all add: opinions_of_def deterministic_advisory_def compromised_agent_simulation_def fleet_advice_def or_else_def Let_def ok_iff)
  show "\<exists>rep. evaluate x (Some offline_advisor) local_gatekeeper entries stamp rq policy = Inr rep \<and> rr_findings rep = fs \<and>
      rr_decision rep = spec_decision fs"
    using honest_run[OF assms, of offline_advisor] advisors_answer(1) ops(1) by blast
  show "\<exists>rep. evaluate x (Some simulated_advisor) local_gatekeeper entries stamp rq policy = Inr rep \<and> rr_findings rep = fs \<and>
      rr_advisory rep = compromised_agent_simulation (map (\<lambda>r. (ar_agent_id r, r)) trusted_records) rq (advisory_projection fs) \<and>
      rr_decision rep = spec_decision fs"
    using honest_run[OF assms, of simulated_advisor] advisors_answer(2) ops(2) by blast
qed

section \<open>Requests\<close>

text \<open>Property C15. A request to the WebMCP routes is contained.  It fails only with one of the four announced statuses, with
  a code and a message; it changes the proposals and candidates the service keeps only by a successful proposal or rebuild, whose
  answers deny approval and any inherited verdict; and whatever requests came before, those tables are ones
  that calls of the service can reach.\<close>

theorem webmcp_requests_are_contained:
  assumes "webmcp_handle w req (serve earlier) = (r, a')"
  shows "(\<forall>status detail. r = Inl (HttpError status detail) \<longrightarrow>
      status \<in> {404, 409, 422, 503} \<and> is_str (obj_get detail ''code'') \<and> is_str (obj_get detail ''message'')) \<and>
    (a' \<noteq> serve earlier \<longrightarrow> (\<exists>answer. r = Inr answer \<and>
      ((\<exists>body. req = PostProposal body) \<and> obj_get answer ''authority'' = JStr ''PROPOSAL_ONLY'' \<and> obj_get answer ''approved'' = JBool False \<or>
       (\<exists>body. req = PostRebuild body) \<and> obj_get answer ''verdict'' = JStr ''NOT_YET_REVERIFIED'' \<and>
         obj_get answer ''inherited_verdict'' = JBool False))) \<and>
    reachable a'"
proof -
  have "service_failure f" if "r = Inl f" for f using webmcp_failure assms that by blast
  moreover have "reachable a'" using serve_reachable[of "(w, req) # earlier"] assms by simp
  ultimately show ?thesis
    using webmcp_state[OF assms] unfolding service_failure_def service_status_def by blast
qed

theorem webmcp_requests_are_contained_witness:
  "\<exists>detail. webmcp_handle sample_webmcp (PostAttack ''drop_tables'') (serve []) = (Inl (HttpError 422 detail), empty_adapter) \<and>
     is_str (obj_get detail ''code'') \<and> reachable empty_adapter"
proof -
  have "''drop_tables'' \<notin> set attack_names" by code_simp
  then obtain detail where h: "webmcp_handle sample_webmcp (PostAttack ''drop_tables'') (serve []) = (Inl (HttpError 422 detail), empty_adapter)"
    by (auto simp: attack_route_def run_attack_def service_fail_def raise_service_def)
  from webmcp_requests_are_contained[OF h] show ?thesis using h by blast
qed

text \<open>Property C14. A request to the HTTP application fails only with one of four statuses, or as an invalid request, or as
  a server error, and nearly all of them change nothing: the report ledger changes only by the cloud proof
  of a bundled fixture, and the WebMCP tables only by a WebMCP route, as that route changes them.\<close>

theorem api_requests_are_contained:
  assumes "api_handle w req (s, a) = (r, (s', a'))"
  shows "(\<forall>status detail. r = Inl (HttpError status detail) \<longrightarrow> status \<in> {404, 409, 422, 503}) \<and>
    (s' \<noteq> s \<longrightarrow> (\<exists>name x. name \<in> {''vulnerable'', ''fixed''} \<and> req = PostCloudProof name \<and>
       run_cloud_release_proof (ap_cloud w) name s = (x, s'))) \<and>
    (a' \<noteq> a \<longrightarrow> (\<exists>route. req = WebMCPRoute route \<and> webmcp_handle (ap_webmcp w) route a = (r, a')))"
proof (intro conjI impI allI)
  show "status \<in> {404, 409, 422, 503}" if "r = Inl (HttpError status detail)" for status detail
    using api_failure assms that by blast
qed (use api_state[OF assms] in blast)+

theorem api_requests_are_contained_witness:
  "\<exists>r s' d report_id. api_handle sample_api (PostCloudProof ''vulnerable'') (Map.empty, empty_adapter) = (r, (s', empty_adapter)) \<and>
     s' = [report_id \<mapsto> d] \<and> (\<exists>x. run_cloud_release_proof proof_world ''vulnerable'' Map.empty = (x, s'))"
proof -
  obtain r0 report p s' where rec: "cloud_record proof_world ''vulnerable'' Map.empty = Inr (r0, report, p, s')" "s' \<noteq> Map.empty"
    using proof_record by blast
  then obtain d report_id where d: "s' = [report_id \<mapsto> d]"
    using file_report_Inr[OF proof_create, of report p Map.empty s'] by (auto simp: cloud_record_def and_then_Inr)
  have "run_cloud_release_proof proof_world ''vulnerable'' Map.empty = (cloud_answer ''vulnerable'' r0 report p, s')"
    using rec(1) by (simp add: run_cloud_release_proof_def)
  then have "\<exists>r. api_handle sample_api (PostCloudProof ''vulnerable'') (Map.empty, empty_adapter) = (r, (s', empty_adapter))"
    by (cases "cloud_answer ''vulnerable'' r0 report p") (simp_all add: cloud_release_proof_def sample_api_def)
  then obtain r where h: "api_handle sample_api (PostCloudProof ''vulnerable'') (Map.empty, empty_adapter) = (r, (s', empty_adapter))"
    by blast
  from api_requests_are_contained[OF h] rec(2) h d show ?thesis by (auto simp: sample_api_def)
qed

text \<open>Property C37. The verdict independence demonstration shows what it claims.  Whenever it answers, all four agents
  voted GO in the compromised run, both runs have the decision that the machine findings alone call for, and
  without a remote gatekeeper that decision is the final verdict; an answer that says the signed evidence was
  verified has the remote gatekeeper's decision as its final verdict.\<close>

theorem independence_demo_is_sound:
  assumes "verdict_independence w = Inr answer"
  shows "\<exists>baseline. demo_report w False = Inr baseline \<and>
    obj_get answer ''unchanged'' = JBool True \<and> obj_get answer ''agents_all_go'' = JBool True \<and>
    obj_get answer ''agent_go_count'' = JInt 4 \<and> obj_get answer ''agent_count'' = JInt 4 \<and>
    obj_get answer ''baseline_decision'' = JStr (decision_value (spec_decision (rr_findings baseline))) \<and>
    obj_get answer ''compromised_decision'' = JStr (decision_value (spec_decision (rr_findings baseline))) \<and>
    (\<not> signed_demo_available (dw_env (ap_demo w)) \<longrightarrow>
       obj_get answer ''final_verdict'' = JStr (decision_value (spec_decision (rr_findings baseline)))) \<and>
    (obj_get answer ''signed_evidence_verified'' = JBool True \<longrightarrow>
       (\<exists>ops v. signed_demo_verdict w ops = Inr v \<and> obj_get answer ''final_verdict'' = JStr (decision_value (gv_decision v))))"
  using independence_answer[OF assms] by blast

lemma sample_api_sel: "ap_demo sample_api = attack_world" "dw_package attack_world = demo_package" "dw_stamp attack_world = (''id'', ''now'')"
  "dw_env attack_world = Map.empty" "ap_hash_file sample_api f = Inr (directory_digest demo_package ''repository_vulnerable'')"
  "pk_base demo_package = [''pkg'']" "pk_exists demo_package x" "pk_entries demo_package x = []"
  by (simp_all add: sample_api_def attack_world_def demo_world_def demo_package_def)

lemma sample_reports:
  "\<exists>rep. demo_report sample_api compromised = Inr rep \<and> spec_decision (rr_findings rep) = NO_GO \<and>
     (compromised \<longrightarrow> (\<exists>rq (p :: json list). rr_advisory rep = compromised_agent_simulation (map (\<lambda>r. (ar_agent_id r, r)) trusted_records) rq p))"
proof -
  let ?d = "directory_digest demo_package ''repository_vulnerable''"
  let ?x = "\<lambda>root command. demo_execute ?d 1 (Suc (Suc 0)) (pk_files demo_package ''repository_vulnerable'') command"
  let ?rq = "\<lparr>rq_release_id = ''demo-release'', rq_root = [''pkg'', ''repository_vulnerable''], rq_commit_sha = None\<rparr>"
  have fixture: "api_fixture sample_api = Inr (demo_policy, ?d)"
    using build_policy_canonical[OF demo_wf(2)]
    by (simp add: api_fixture_def sample_api_sel demo_release_policy_def directory_digest_def fixture_digest_def strip_hex)
      (simp add: demo_package_def)
  obtain f where col: "collect_evidence ?x [] ?rq demo_policy = Inr ([f], 1)" "finding_level f = NO_GO"
    using demo_vulnerable_collect by blast
  show ?thesis
  proof (cases compromised)
    case True
    show ?thesis
      using bundled_advisors_run(2)[OF col(1), of "(''id'', ''now'')"] col(2) True
      by (auto simp: demo_report_def fixture bundled_evaluation_def sample_api_sel Let_def spec_decision_NO_GO) (intro exI, rule refl)
  next
    case False
    show ?thesis
      using bundled_advisors_run(1)[OF col(1), of "(''id'', ''now'')"] col(2) False
      by (auto simp: demo_report_def fixture bundled_evaluation_def sample_api_sel Let_def spec_decision_NO_GO)
  qed
qed

theorem independence_demo_is_sound_witness:
  "\<exists>answer. verdict_independence sample_api = Inr answer \<and> obj_get answer ''agents_all_go'' = JBool True \<and>
     obj_get answer ''final_verdict'' = JStr ''NO_GO''"
proof -
  obtain b where b: "demo_report sample_api False = Inr b" "spec_decision (rr_findings b) = NO_GO" using sample_reports[of False] by blast
  obtain c rq and p :: "json list" where c: "demo_report sample_api True = Inr c"
    "rr_advisory c = compromised_agent_simulation (map (\<lambda>r. (ar_agent_id r, r)) trusted_records) rq p" using sample_reports[of True] by auto
  have n: "\<not> signed_demo_available (dw_env (ap_demo sample_api))"
    by (simp add: signed_demo_available_def sample_api_sel getenv_opt_def)
  then obtain answer where a: "verdict_independence sample_api = Inr answer"
    using b c go_votes by (auto simp: verdict_independence_def Let_def compromised_agent_simulation_def fleet_advice_def obj_get_def_def)
  from independence_demo_is_sound[OF a] show ?thesis using a b n by auto
qed

section \<open>The command line\<close>

text \<open>Property C8. \<open>release-sentinel evaluate\<close> exits with 0 only for a repository that may go out: it is a directory, every
  check of the policy ran in the executor, no blocking check of high or critical severity failed, nothing the
  platform scan finds is missing from the report, and the decision the findings call for is not NO_GO.\<close>

theorem zero_exit_means_no_blocker:
  assumes "exit_code (cli_main w (EvaluateCommand repo policy_path rid)) = 0"
  shows "\<exists>policy report. and_then (ci_load_json w policy_path) build_policy = Inr policy \<and>
    cli_main w (EvaluateCommand repo policy_path rid) = Inr (report_to_dict report, 0) \<and>
    rp_exists (ci_repository w repo) \<and> rp_is_dir (ci_repository w repo) \<and>
    rr_decision report = spec_decision (rr_findings report) \<and> rr_decision report \<noteq> NO_GO \<and>
    set (scan_platform_rules (rp_resolved (ci_repository w repo)) (rp_entries (ci_repository w repo))) \<subseteq> set (rr_findings report) \<and>
    (\<forall>c\<in>set (commands policy). \<exists>r. ci_executor w (rp_resolved (ci_repository w repo)) c = Inr r \<and>
       (blocking_on_failure c \<longrightarrow> pc_severity c \<in> {HIGH, CRITICAL} \<longrightarrow> passed r))"
  by (rule evaluate_exit_0[OF assms])

definition sample_cli :: cli_world where
  "sample_cli = \<lparr>ci_demo = attack_world, ci_hash_file = (\<lambda>f. raise OSError ''missing''), ci_coverage = demo_coverage,
     ci_repository = (\<lambda>p. \<lparr>rp_exists = True, rp_is_dir = True, rp_resolved = [''srv'', p], rp_entries = []\<rparr>),
     ci_load_json = (\<lambda>p. Inr (canonical_payload demo_policy)), ci_executor = (\<lambda>root c. Inr (demo_failure\<lparr>return_code := 0\<rparr>))\<rparr>"

theorem zero_exit_means_no_blocker_witness:
  "\<exists>report. cli_main sample_cli (EvaluateCommand ''repo'' ''policy.json'' ''r1'') = Inr (report_to_dict report, 0) \<and>
     rr_decision report \<noteq> NO_GO"
proof -
  let ?rq = "\<lparr>rq_release_id = ''r1'', rq_root = [''srv'', ''repo''], rq_commit_sha = None\<rparr>"
  let ?x = "\<lambda>root c. Inr (demo_failure\<lparr>return_code := 0\<rparr>)"
  have p: "build_policy (canonical_payload demo_policy) = Inr demo_policy" using build_policy_canonical demo_wf(2) by blast
  have col: "collect_evidence ?x [] ?rq demo_policy = Inr ([], 1)"
    by (simp add: collect_evidence_def demo_policy_def demo_failure_def passed_def)
  obtain rep where "evaluate ?x (Some offline_advisor) local_gatekeeper [] (''id'', ''now'') ?rq demo_policy = Inr rep" "rr_decision rep = GO"
    using bundled_advisors_run(1)[OF col, of "(''id'', ''now'')"] by (auto simp: spec_decision_GO)
  then have "exit_code (cli_main sample_cli (EvaluateCommand ''repo'' ''policy.json'' ''r1'')) = 0"
    by (simp add: exit_code_def cli_evaluate_def make_request_def sample_cli_def p sample_api_sel Let_def)
  from zero_exit_means_no_blocker[OF this] show ?thesis by blast
qed

section \<open>The demo signer\<close>

lemma signer_steps_ok:
  assumes "key_ok s" "\<And>os vars. MakeSigner os vars \<in> set ops \<Longrightarrow> fresh_dirs os"
  shows "key_ok (fold signer_step ops s)"
  using assms
proof (induction ops arbitrary: s)
  case (Cons op ops)
  have "key_ok (signer_step op s)" by (rule signer_step_ok) (use Cons.prems in auto)
  then have "key_ok (fold signer_step ops (signer_step op s))" by (rule Cons.IH) (use Cons.prems(2) in auto)
  then show ?case by simp
qed simp

text \<open>Property C36. The demo signing key stays private and names itself.  In a process that starts without a key, after
  any signers made, files lost and cleanups, a signer from the environment either uses the configured key
  file under the local key name, or the process's own key, whose name says that it is not for verification,
  in a directory of mode 0700 (or gone) and a file of mode 0600; asking again gives the same signer
  and changes nothing, and the cleanup leaves neither key nor directory.\<close>

theorem demo_key_stays_private:
  assumes "ss_key s = None" "ss_dir s = None"
    and "\<And>os vars. MakeSigner os vars \<in> set ops \<Longrightarrow> fresh_dirs os" "fresh_dirs os"
    and "demo_signer_from_env os vars (fold signer_step ops s) = (Inr sg, s')"
  shows "(if strip (getenv vars ''RELEASE_SENTINEL_DEMO_SIGNING_KEY'' []) \<noteq> []
      then sg = \<lparr>sg_private_key_path = strip (getenv vars ''RELEASE_SENTINEL_DEMO_SIGNING_KEY'' []), sg_demo_key_id = local_key_id\<rparr>
      else sg_demo_key_id sg = ephemeral_key_id \<and>
        (\<exists>d content. ss_dir s' = Some d \<and> sg_private_key_path sg = key_file d \<and> ss_dirs s' d \<in> {None, Some private_dir} \<and>
           ss_files s' (key_file d) = Some (content, private_file) \<and>
           ss_files (cleanup_ephemeral_demo_key s') (key_file d) = None \<and> ss_dirs (cleanup_ephemeral_demo_key s') d = None)) \<and>
    demo_signer_from_env os' vars s' = (Inr sg, s')"
proof -
  have k: "key_ok s'"
  proof -
    have "key_ok (fold signer_step ops s)" by (rule signer_steps_ok) (use assms(1-3) in \<open>auto simp: key_ok_def\<close>)
    then have "key_ok (signer_step (MakeSigner os vars) (fold signer_step ops s))" by (rule signer_step_ok) (use assms(4) in simp)
    then show ?thesis using assms(5) by simp
  qed
  note c = signer_choice[OF assms(5)] and again = signer_again[OF assms(5), of os']
  show ?thesis
  proof (cases "strip (getenv vars ''RELEASE_SENTINEL_DEMO_SIGNING_KEY'' []) = []")
    case True
    then have key: "ss_key s' = Some (sg_private_key_path sg)" "sg_demo_key_id sg = ephemeral_key_id" using c by auto
    then obtain d where d: "ss_dir s' = Some d" using k by (auto simp: key_ok_def)
    then have path: "sg_private_key_path sg = key_file d" using key k by (auto simp: key_ok_def)
    have "key_present s' (sg_private_key_path sg)"
      using assms(5) True by (auto simp: demo_signer_from_env_def demo_signer_init_def Let_def split: prod.splits sum.splits if_splits)
    then obtain content mode where "ss_files s' (key_file d) = Some (content, mode)" unfolding path key_present_def by auto
    moreover from this have "mode = private_file" using k d by (auto simp: key_ok_def)
    moreover have "ss_files (cleanup_ephemeral_demo_key s') (key_file d) = None"
      using cleanup_leaves_nothing[OF d, of "''evidence-private.pem''"] by (simp add: key_file_def)
    moreover have "ss_dirs (cleanup_ephemeral_demo_key s') d = None" using cleanup_leaves_nothing[OF d] by blast
    moreover have "ss_dirs s' d \<in> {None, Some private_dir}" using k d by (auto simp: key_ok_def)
    ultimately show ?thesis using True key d path again by auto
  qed (use c again in simp)
qed

definition no_key :: signer_state where
  "no_key = \<lparr>ss_files = Map.empty, ss_dirs = Map.empty, ss_key = None, ss_dir = None\<rparr>"

definition sample_openssl :: openssl where
  "sample_openssl = \<lparr>os_which = Some ''/usr/bin/openssl'',
     os_mkdtemp = (\<lambda>s. if ss_dirs s ''/tmp/k'' = None \<and> ss_dir s \<noteq> Some ''/tmp/k'' then Inr ''/tmp/k'' else raise OSError ''exists''),
     os_genkey = (\<lambda>p s. Inr (0, Some (''pem'', 420))), os_sign = (\<lambda>p m s. Inr (0, Some m))\<rparr>"

theorem demo_key_stays_private_witness:
  "\<exists>sg s'. demo_signer_from_env sample_openssl Map.empty (fold signer_step [MakeSigner sample_openssl Map.empty, CleanUp] no_key) = (Inr sg, s') \<and>
     sg_demo_key_id sg = ephemeral_key_id \<and> ss_files s' ''/tmp/k/evidence-private.pem'' = Some (''pem'', private_file)"
proof -
  have fresh: "fresh_dirs sample_openssl"
    by (auto simp: fresh_dirs_def sample_openssl_def raise_def split: if_splits)
  have e: "strip (getenv Map.empty ''RELEASE_SENTINEL_DEMO_SIGNING_KEY'' []) = []" by code_simp
  obtain sg s' where s: "demo_signer_from_env sample_openssl Map.empty
      (fold signer_step [MakeSigner sample_openssl Map.empty, CleanUp] no_key) = (Inr sg, s')"
      "ss_files s' ''/tmp/k/evidence-private.pem'' = Some (''pem'', private_file)"
    by (simp add: demo_signer_from_env_def demo_signer_init_def ephemeral_demo_key_def generate_key_def sample_openssl_def no_key_def e
        Let_def key_file_def write_output_def key_present_def cleanup_ephemeral_demo_key_def remove_tree_def)
  show ?thesis
    using demo_key_stays_private[of no_key "[MakeSigner sample_openssl Map.empty, CleanUp]" sample_openssl, OF _ _ _ _ s(1)] fresh e s
    by (auto simp: no_key_def)
qed

end
