(* ===== verification/Scripts.thy ===== *)
theory Scripts
  imports Cli Agentseal Public_Challenge
begin

text \<open>
  scripts/ and deploy/: the command line programs around the arena and the deployment.
  verify-public-attack.py judges a submitted answer file, arena_scoreboard.py adds receipts up,
  challenge_report.py runs the release engine as the pipeline of agentseal's differential check, and
  seed_policy.py files a policy revision.  A program is given with the files it reads; its result is the
  document it prints, if any, and its exit code.  An uncaught exception stays an exception.
  The lemmas, with those of theory Script_Claims: which exit code an answer can get, that seeding is
  idempotent, that the scoreboard counts what it lists, and that no advisor moves the artifact of the
  challenge pipeline.
\<close>

section \<open>verify-public-attack.py\<close>

text \<open>
  A document read by \<open>json.loads\<close>, as the Python value it is; a file with its size and its decoded text.
\<close>

fun loaded_value :: "json \<Rightarrow> pyval" where
  "loaded_value JNull = VNone"
| "loaded_value (JBool b) = VBool b"
| "loaded_value (JInt i) = VInt i"
| "loaded_value (JFloat f) = VFloat f"
| "loaded_value (JStr s) = VStr s"
| "loaded_value (JList js) = VList (map loaded_value js)"
| "loaded_value (JObj kvs) = VDict (map (\<lambda>(k, v). (KStr k, loaded_value v)) kvs)"

record answer_file =
  af_size :: nat
  af_text :: "string res"

definition invalid_submission :: "exn \<Rightarrow> json" where
  "invalid_submission e = JObj [(''verdict'', JStr ''INVALID_SUBMISSION''), (''error'', JStr (exn_text e))]"

definition verify_public_attack ::
    "(string \<Rightarrow> pyfloat) \<Rightarrow> demo_package \<Rightarrow> string \<Rightarrow> string \<times> string \<Rightarrow> string \<times> string \<Rightarrow>
     (string \<Rightarrow> answer_file option) \<Rightarrow> string list \<Rightarrow> (json option \<times> int) res" where
  "verify_public_attack fl pk pin stamp1 stamp2 file args =
    (if length args \<noteq> 1 then Inr (None, 2) else
     case file (hd args) of
       None \<Rightarrow> Inr (None, 2)
     | Some f \<Rightarrow>
         if af_size f > 64 * 1024 then Inr (None, 2) else
         case and_then (af_text f) (\<lambda>text.
              and_then (loads fl text) (\<lambda>payload.
                evaluate_public_payload fl pk pin stamp1 stamp2 (loaded_value payload))) of
           Inl e \<Rightarrow> if catches AttackProtocolError e \<or> catches ValueError e
                    then Inr (Some (invalid_submission e), 2) else Inl e
         | Inr receipt \<Rightarrow>
             and_then (public_receipt_to_dict receipt) (\<lambda>d.
               Inr (Some d, if sentinel_broken receipt then 10 else 0)))"

section \<open>arena_scoreboard.py\<close>

text \<open>\<open>x or {}\<close>, the receipts with their paths, and one step of the loop with its three counts and its list.\<close>

definition or_empty :: "json \<Rightarrow> json" where
  "or_empty x = (if truthy x then x else JObj [])"

type_synonym board = "int \<times> int \<times> int \<times> json list"

definition broken_invariants :: "json \<Rightarrow> json list res" where
  "broken_invariants outcome =
     and_then (map_res (\<lambda>key. and_then (attr_get outcome key) (\<lambda>v. Inr (key, truthy v)))
         [''authoritative_evidence_changed'', ''final_decision_changed'', ''blocking_release_became_go''])
       (\<lambda>flags. Inr (map (JStr \<circ> fst) (filter snd flags)))"

definition board_step :: "string \<times> json res \<Rightarrow> board \<Rightarrow> board res" where
  "board_step item b =
    (let (attempts, compromised, breaks, breakers) = b in
     and_then (snd item) (\<lambda>payload.
     and_then (attr_get payload ''schema'') (\<lambda>schema.
       if schema \<noteq> JStr ''release-sentinel.public-attack-receipt.v1''
       then raise BaseException (''unsupported receipt schema: '' @ fst item) else
     and_then (attr_get payload ''outcome'') (\<lambda>raw.
     and_then (attr_get (or_empty raw) ''agent_compromised'') (\<lambda>agent.
     and_then (attr_get (or_empty raw) ''sentinel_broken'') (\<lambda>broken.
       if truthy broken then
         and_then (broken_invariants (or_empty raw)) (\<lambda>keys. Inr
           (attempts + 1, compromised + (if truthy agent then 1 else 0), breaks + 1,
            breakers @ [JObj
              [(''receipt_sha256'', obj_get payload ''receipt_sha256''),
               (''attack_payload_sha256'', obj_get payload ''attack_payload_sha256''),
               (''broken_invariants'', JList keys)]]))
       else Inr (attempts + 1, compromised + (if truthy agent then 1 else 0), breaks, breakers)))))))"

fun board_loop :: "(string \<times> json res) list \<Rightarrow> board \<Rightarrow> board res" where
  "board_loop [] b = Inr b"
| "board_loop (r # rs) b = and_then (board_step r b) (board_loop rs)"

definition board_document :: "board \<Rightarrow> json" where
  "board_document b =
    (let (attempts, compromised, breaks, breakers) = b in JObj
      [(''schema'', JStr ''release-sentinel.public-leaderboard.v1''),
       (''verified_attempts'', JInt attempts),
       (''agent_compromises'', JInt compromised),
       (''authority_breaks'', JInt breaks),
       (''breakers'', JList breakers)])"

definition arena_scoreboard :: "(string \<times> json res) list \<Rightarrow> json res" where
  "arena_scoreboard receipts = and_then (board_loop receipts (0, 0, 0, [])) (\<lambda>b. Inr (board_document b))"

section \<open>challenge_report.py\<close>

text \<open>
  The agent is given the findings the engine shows; it may also reach the findings the engine holds, and
  returns them as it leaves them.  Each run has its own report identifier and time.  The clock and the
  fresh identifiers of the bundle are given by the script, so those of the machine are not read.
\<close>

type_synonym pipeline_agent = "json list \<Rightarrow> finding list \<Rightarrow> json res \<times> finding list"

definition fixed_now :: int where "fixed_now = 1750000000"

definition challenge_pipeline ::
    "demo_world \<Rightarrow> (string \<Rightarrow> string res) \<Rightarrow> string \<times> string \<Rightarrow> pipeline_agent \<Rightarrow> stage_value res" where
  "challenge_pipeline d hash_file stamp agent =
     and_then (demo_release_policy (dw_package d)) (\<lambda>policy.
     and_then (hash_file ''repository_vulnerable.sha256'') (\<lambda>text.
     and_then (bundled_evaluation (d\<lparr>dw_stamp := stamp\<rparr>) (Some (\<lambda>request. agent)) local_gatekeeper (strip text)
         ''dare-you-challenge'' ''repository_vulnerable'' policy) (\<lambda>report.
     and_then (build_evidence_bundle report (strip text) (Some fixed_now) default_ttl_seconds
         (Some ''challenge-fixed-execution'') (Some ''challenge-fixed-nonce'') (dw_clock d) (dw_fresh d)) (\<lambda>b.
       Inr (SHasDict (json_value (bundle_to_dict b)))))))"

definition challenge_report ::
    "demo_world \<Rightarrow> (string \<Rightarrow> string res) \<Rightarrow> (variant \<Rightarrow> nat \<Rightarrow> string \<times> string) \<Rightarrow> string \<times> string \<Rightarrow>
     pipeline_agent \<Rightarrow> (variant \<Rightarrow> nat \<Rightarrow> pipeline_agent) \<Rightarrow> variant list \<Rightarrow>
     (influence_report \<times> certificate \<times> int) res" where
  "challenge_report d hash_file stamps stamp baseline hostile variants =
     and_then (check_no_influence (challenge_pipeline d hash_file stamp baseline)
         (\<lambda>v i. challenge_pipeline d hash_file (stamps v i) (hostile v i)) variants 5) (\<lambda>report.
       let cert = build_certificate report ''release-sentinel-v2.3.0''
             ''canonical-evidence-bundle-before-signing'' (Some fixed_now) (dw_clock d) in
       Inr (report, cert, if ir_sealed report \<and> verify_certificate cert then 0 else 2))"

section \<open>seed_policy.py\<close>

definition seed_document :: "release_policy \<Rightarrow> string \<Rightarrow> json" where
  "seed_document p disposition = JObj
    [(''policy_id'', JStr (policy_id p)), (''revision'', JInt (revision p)), (''sha256'', JStr (rp_sha256 p)),
     (''disposition'', JStr disposition)]"

definition seed_policy ::
    "(string \<Rightarrow> json \<Rightarrow> 's \<Rightarrow> 's res) \<Rightarrow> (string \<Rightarrow> 's \<Rightarrow> json option) \<Rightarrow> json res \<Rightarrow> 's \<Rightarrow> json res \<times> 's" where
  "seed_policy create_doc read_doc source s =
    (case and_then source build_policy of
       Inl e \<Rightarrow> (Inl e, s)
     | Inr p \<Rightarrow>
        (case firestore_create create_doc p s of
           Inr s' \<Rightarrow> (Inr (seed_document p ''created''), s')
         | Inl e \<Rightarrow>
             if \<not> catches PolicyError e then (Inl e, s) else
             (and_then (firestore_get read_doc (policy_id p) (revision p) s) (\<lambda>existing.
                if rp_sha256 existing \<noteq> rp_sha256 p
                then raise BaseException ''policy revision exists with a different SHA-256''
                else Inr (seed_document p ''already-exists-same-sha'')), s)))"

section \<open>Lemmas: the answer file\<close>

lemma verify_attack_Inr:
  assumes "verify_public_attack fl pk pin stamp1 stamp2 file args = Inr (out, code)"
  shows "code \<in> {0, 2, 10} \<and> (code \<noteq> 2 \<longrightarrow>
    (\<exists>a f text payload r d. args = [a] \<and> file a = Some f \<and> af_size f \<le> 64 * 1024 \<and> af_text f = Inr text \<and>
       loads fl text = Inr payload \<and>
       evaluate_public_payload fl pk pin stamp1 stamp2 (loaded_value payload) = Inr r \<and>
       public_receipt_to_dict r = Inr d \<and> out = Some d \<and> code = (if sentinel_broken r then 10 else 0)))"
proof (cases "length args = 1 \<and> (\<exists>f. file (hd args) = Some f \<and> af_size f \<le> 64 * 1024)")
  case False
  then show ?thesis using assms
    by (cases "file (hd args)") (auto simp: verify_public_attack_def split: if_splits)
next
  case True
  then obtain a f where a: "args = [a]" "file a = Some f" "af_size f \<le> 64 * 1024"
    by (cases args) auto
  show ?thesis
  proof (cases "and_then (af_text f) (\<lambda>text. and_then (loads fl text) (\<lambda>payload.
                evaluate_public_payload fl pk pin stamp1 stamp2 (loaded_value payload)))")
    case (Inl e)
    then show ?thesis using assms a by (auto simp: verify_public_attack_def split: if_splits)
  next
    case (Inr r)
    then have o: "public_receipt_to_dict r = Inr (the out)" "out \<noteq> None" "code = (if sentinel_broken r then 10 else 0)"
      using assms a by (auto simp: verify_public_attack_def and_then_Inr)
    from Inr obtain txt' payload where "af_text f = Inr txt'" "loads fl txt' = Inr payload"
      "evaluate_public_payload fl pk pin stamp1 stamp2 (loaded_value payload) = Inr r"
      by (auto simp: and_then_Inr)
    then show ?thesis using a o by auto
  qed
qed

section \<open>Lemmas: the scoreboard\<close>

definition receipt_breaks :: "json \<Rightarrow> bool" where
  "receipt_breaks payload \<longleftrightarrow> truthy (obj_get (or_empty (obj_get payload ''outcome'')) ''sentinel_broken'')"

lemma board_step_Inr:
  assumes "board_step (path, source) (a, c, b, l) = Inr (a', c', b', l')"
  shows "\<exists>payload. source = Inr payload \<and> a' = a + 1 \<and> c \<le> c' \<and> c' \<le> c + 1 \<and>
    b' = b + (if receipt_breaks payload then 1 else 0) \<and> (\<exists>m. l' = l @ m \<and> int (length m) = b' - b) \<and>
    obj_get payload ''schema'' = JStr ''release-sentinel.public-attack-receipt.v1''"
proof -
  obtain payload where p: "source = Inr payload"
    using assms by (cases source) (simp_all add: board_step_def)
  show ?thesis using assms unfolding p
    by (auto simp: board_step_def and_then_Inr attr_get_def receipt_breaks_def split: if_splits)
qed

lemma board_loop_Inr:
  assumes "board_loop rs (a, c, b, l) = Inr (a', c', b', l')"
  shows "\<exists>payloads. map snd rs = map Inr payloads \<and> a' = a + int (length rs) \<and> c \<le> c' \<and> c' - c \<le> int (length rs) \<and>
    b' = b + int (length (filter receipt_breaks payloads)) \<and> int (length l') - int (length l) = b' - b"
  using assms
proof (induction rs arbitrary: a c b l)
  case Nil
  then show ?case by simp
next
  case (Cons r rs)
  obtain path source where r: "r = (path, source)" by (rule prod.exhaust)
  obtain a1 c1 b1 l1 where s: "board_step (path, source) (a, c, b, l) = Inr (a1, c1, b1, l1)"
    and rest: "board_loop rs (a1, c1, b1, l1) = Inr (a', c', b', l')"
    using Cons.prems unfolding r by (auto simp: and_then_Inr)
  from board_step_Inr[OF s] obtain payload where p: "source = Inr payload" "a1 = a + 1" "c \<le> c1" "c1 \<le> c + 1"
    "b1 = b + (if receipt_breaks payload then 1 else 0)" "int (length l1) = int (length l) + (b1 - b)" by auto
  from Cons.IH[OF rest] obtain payloads where "map snd rs = map Inr payloads" "a' = a1 + int (length rs)" "c1 \<le> c'"
    "c' - c1 \<le> int (length rs)" "b' = b1 + int (length (filter receipt_breaks payloads))"
    "int (length l') - int (length l1) = b' - b1" by blast
  then show ?case using p unfolding r by (intro exI[of _ "payload # payloads"]) auto
qed

section \<open>Lemmas: the challenge pipeline\<close>

text \<open>Equal canonical findings with distinct identifiers give equal results in the bundle.\<close>

lemma bundle_result_norm:
  assumes "wf_finding f" "wf_finding g" "finding_norm f = finding_norm g"
  shows "bundle_result f = bundle_result g"
proof -
  have d: "evidence_digest f = evidence_digest g"
    using canonical_finding[OF assms(1,2)] assms(3) by (simp add: evidence_digest_def sha256_json_def)
  have "blocking_evidence (finding_norm h) = map evidence_norm (blocking_evidence h)" for h
    by (simp add: blocking_evidence_def finding_norm_def filter_map comp_def evidence_norm_def authoritative_def)
  then have "blocking_evidence f = [] \<longleftrightarrow> blocking_evidence g = []" using assms(3) by (metis map_is_Nil_conv)
  moreover have "finding_id f = finding_id g" "fd_severity f = fd_severity g"
    using assms(3) by (simp_all add: finding_norm_eq)
  ultimately show ?thesis using d by (simp add: bundle_result_def)
qed

lemma finding_id_norm [simp]: "finding_id (finding_norm f) = finding_id f"
  by (simp add: finding_norm_def)

lemma sorted_results:
  assumes "list_all wf_finding fs" "list_all wf_finding gs" "distinct (map finding_id fs)"
    "mset (map finding_norm fs) = mset (map finding_norm gs)"
  shows "map bundle_result (sort_key finding_id fs) = map bundle_result (sort_key finding_id gs)"
proof -
  have sort: "map finding_norm (sort_key finding_id hs) = sort_key finding_id (map finding_norm hs)" for hs
  proof (rule sym, rule properties_for_sort_key)
    show "mset (map finding_norm (sort_key finding_id hs)) = mset (map finding_norm hs)" by simp
    show "filter (\<lambda>x. finding_id k = finding_id x) (map finding_norm (sort_key finding_id hs)) =
        filter (\<lambda>x. finding_id k = finding_id x) (map finding_norm hs)" for k
      by (simp add: filter_map comp_def) (metis (mono_tags, lifting) filter_cong sort_key_stable)
    show "sorted (map finding_id (map finding_norm (sort_key finding_id hs)))"
      by (simp add: comp_def)
  qed
  have "inj_on finding_id (set (map finding_norm fs))"
    using assms(3) by (auto simp: distinct_map inj_on_def)
  then have "map finding_norm (sort_key finding_id fs) = map finding_norm (sort_key finding_id gs)"
    unfolding sort
    by (intro sort_key_inj_key_eq) (use assms(4) in simp_all)
  then have "list_all2 (\<lambda>f g. finding_norm f = finding_norm g) (sort_key finding_id fs) (sort_key finding_id gs)"
    by (simp add: list_all2_conv_all_nth list_eq_iff_nth_eq)
  then have "list_all2 (\<lambda>f g. bundle_result f = bundle_result g) (sort_key finding_id fs) (sort_key finding_id gs)"
    by (rule list.rel_mono_strong) (use assms(1,2) bundle_result_norm in \<open>auto simp: list_all_iff\<close>)
  then show ?thesis by (simp add: list_all2_conv_all_nth list_eq_iff_nth_eq)
qed

text \<open>What a run of the pipeline rests on: the collected evidence and the findings the agent leaves.\<close>

lemma evaluate_fields:
  assumes "evaluate execute advisor local_gatekeeper entries stamp request policy = Inr rep"
  shows "rr_release_id rep = rq_release_id request \<and> rr_policy_id rep = policy_id policy \<and>
    rr_policy_revision rep = revision policy"
proof -
  obtain fs n where c: "collect_evidence execute entries request policy = Inr (fs, n)"
    using assms by (auto simp: evaluate_def and_then_Inr)
  obtain answer sealed where a: "collect_advisory advisor request fs = (answer, sealed)"
    by (cases "collect_advisory advisor request fs")
  show ?thesis
    using assms c a
    by (auto simp: evaluate_def Let_def and_then_Inr make_report_def split: if_splits)
qed

definition challenge_evidence :: "demo_world \<Rightarrow> string \<Rightarrow> release_policy \<Rightarrow> (finding list \<times> nat) res" where
  "challenge_evidence d source policy =
    (let pk = dw_package d in
     collect_evidence (\<lambda>root command. demo_execute source 1 (length (pk_base pk) + 1)
         (pk_files pk ''repository_vulnerable'') command) (pk_entries pk ''repository_vulnerable'')
       \<lparr>rq_release_id = ''dare-you-challenge'', rq_root = pk_base pk @ [''repository_vulnerable''], rq_commit_sha = None\<rparr>
       policy)"

lemma challenge_pipeline_Inr:
  assumes "challenge_pipeline d hash_file stamp agent = Inr artifact"
  shows "\<exists>policy source fs n. demo_release_policy (dw_package d) = Inr policy \<and>
    hash_file ''repository_vulnerable.sha256'' = Inr source \<and>
    challenge_evidence d (strip source) policy = Inr (fs, n) \<and>
    finding_set_sha256 (snd (agent (advisory_projection fs) fs)) = finding_set_sha256 fs \<and>
    artifact = SHasDict (json_value (bundle_to_dict
      \<lparr>eb_release_id = ''dare-you-challenge'', eb_source_sha256 = strip source,
       eb_execution_id = ''challenge-fixed-execution'', eb_nonce = ''challenge-fixed-nonce'',
       eb_issued_at = fixed_now, eb_expires_at = fixed_now + default_ttl_seconds, eb_policy_id = policy_id policy,
       eb_policy_revision = revision policy, eb_policy_sha256 = rp_sha256 policy, eb_execution_count = int n,
       eb_results = map bundle_result (sort_key finding_id (snd (agent (advisory_projection fs) fs)))\<rparr>))"
proof -
  obtain policy source rep b where p: "demo_release_policy (dw_package d) = Inr policy"
    "hash_file ''repository_vulnerable.sha256'' = Inr source" and
    r: "bundled_evaluation (d\<lparr>dw_stamp := stamp\<rparr>) (Some (\<lambda>request. agent)) local_gatekeeper (strip source)
      ''dare-you-challenge'' ''repository_vulnerable'' policy = Inr rep" and
    b: "build_evidence_bundle rep (strip source) (Some fixed_now) default_ttl_seconds
      (Some ''challenge-fixed-execution'') (Some ''challenge-fixed-nonce'') (dw_clock d) (dw_fresh d) = Inr b"
      "artifact = SHasDict (json_value (bundle_to_dict b))"
    using assms by (auto simp: challenge_pipeline_def and_then_Inr)
  have e: "evaluate (\<lambda>root command. demo_execute (strip source) 1 (length (pk_base (dw_package d)) + 1)
         (pk_files (dw_package d) ''repository_vulnerable'') command) (Some (\<lambda>request. agent)) local_gatekeeper
       (pk_entries (dw_package d) ''repository_vulnerable'') stamp
       \<lparr>rq_release_id = ''dare-you-challenge'', rq_root = pk_base (dw_package d) @ [''repository_vulnerable''],
        rq_commit_sha = None\<rparr> policy = Inr rep"
    using r by (auto simp: bundled_evaluation_def Let_def split: if_splits)
  from evaluate_Inr[OF e] obtain fs n advisory where c: "challenge_evidence d (strip source) policy = Inr (fs, n)"
    and a: "collect_advisory (Some (\<lambda>request. agent))
       \<lparr>rq_release_id = ''dare-you-challenge'', rq_root = pk_base (dw_package d) @ [''repository_vulnerable''],
        rq_commit_sha = None\<rparr> fs = (Inr advisory, rr_findings rep)"
    and f: "finding_set_sha256 (rr_findings rep) = finding_set_sha256 fs" "rr_execution_count rep = int n"
      "rr_policy_sha256 rep = rp_sha256 policy"
    unfolding challenge_evidence_def Let_def by auto
  have "rr_findings rep = snd (agent (advisory_projection fs) fs)"
    using a by (auto simp: collect_advisory_def Let_def split: prod.splits sum.splits if_splits)
  moreover have "b = \<lparr>eb_release_id = ''dare-you-challenge'', eb_source_sha256 = strip source,
       eb_execution_id = ''challenge-fixed-execution'', eb_nonce = ''challenge-fixed-nonce'',
       eb_issued_at = fixed_now, eb_expires_at = fixed_now + default_ttl_seconds, eb_policy_id = policy_id policy,
       eb_policy_revision = revision policy, eb_policy_sha256 = rp_sha256 policy, eb_execution_count = int n,
       eb_results = map bundle_result (sort_key finding_id (rr_findings rep))\<rparr>"
    using b(1) evaluate_fields[OF e] f(2,3)
    by (auto simp: build_evidence_bundle_def or_fresh_def Let_def split: if_splits)
  ultimately show ?thesis using p c f(1) b(2) by auto
qed

text \<open>Two runs that give an artifact give the same one, unless the findings an agent leaves collide with the sealed.\<close>

lemma challenge_pipeline_same:
  assumes "challenge_pipeline d hash_file stamp agent = Inr artifact"
    "challenge_pipeline d hash_file stamp' agent' = Inr artifact'"
    and clean: "\<And>policy source fs n. demo_release_policy (dw_package d) = Inr policy \<Longrightarrow>
      hash_file ''repository_vulnerable.sha256'' = Inr source \<Longrightarrow>
      challenge_evidence d (strip source) policy = Inr (fs, n) \<Longrightarrow> distinct (map finding_id fs) \<and>
        (\<forall>a\<in>{agent, agent'}. list_all wf_finding (snd (a (advisory_projection fs) fs)) \<and>
           \<not> sha_collision (evidence_set_bytes fs) (evidence_set_bytes (snd (a (advisory_projection fs) fs))))"
  shows "artifact = artifact'"
proof -
  from challenge_pipeline_Inr[OF assms(1)] obtain policy source fs n where
    p: "demo_release_policy (dw_package d) = Inr policy" "hash_file ''repository_vulnerable.sha256'' = Inr source"
      "challenge_evidence d (strip source) policy = Inr (fs, n)" and
    s: "finding_set_sha256 (snd (agent (advisory_projection fs) fs)) = finding_set_sha256 fs" and
    x: "artifact = SHasDict (json_value (bundle_to_dict
      \<lparr>eb_release_id = ''dare-you-challenge'', eb_source_sha256 = strip source,
       eb_execution_id = ''challenge-fixed-execution'', eb_nonce = ''challenge-fixed-nonce'',
       eb_issued_at = fixed_now, eb_expires_at = fixed_now + default_ttl_seconds, eb_policy_id = policy_id policy,
       eb_policy_revision = revision policy, eb_policy_sha256 = rp_sha256 policy, eb_execution_count = int n,
       eb_results = map bundle_result (sort_key finding_id (snd (agent (advisory_projection fs) fs)))\<rparr>))"
    by blast
  have s': "finding_set_sha256 (snd (agent' (advisory_projection fs) fs)) = finding_set_sha256 fs" and
    x': "artifact' = SHasDict (json_value (bundle_to_dict
      \<lparr>eb_release_id = ''dare-you-challenge'', eb_source_sha256 = strip source,
       eb_execution_id = ''challenge-fixed-execution'', eb_nonce = ''challenge-fixed-nonce'',
       eb_issued_at = fixed_now, eb_expires_at = fixed_now + default_ttl_seconds, eb_policy_id = policy_id policy,
       eb_policy_revision = revision policy, eb_policy_sha256 = rp_sha256 policy, eb_execution_count = int n,
       eb_results = map bundle_result (sort_key finding_id (snd (agent' (advisory_projection fs) fs)))\<rparr>))"
    using challenge_pipeline_Inr[OF assms(2)] p by auto
  have wf: "list_all wf_finding fs"
    using p(3) collect_wf unfolding challenge_evidence_def Let_def by blast
  have "map bundle_result (sort_key finding_id fs) = map bundle_result (sort_key finding_id (snd (a (advisory_projection fs) fs)))"
    if a: "a \<in> {agent, agent'}" for a
  proof (rule sorted_results[OF wf])
    show "list_all wf_finding (snd (a (advisory_projection fs) fs))" "distinct (map finding_id fs)" using clean[OF p] a by blast+
    show "mset (map finding_norm fs) = mset (map finding_norm (snd (a (advisory_projection fs) fs)))"
      using finding_set_sha256_binding[OF wf, of "snd (a (advisory_projection fs) fs)"] clean[OF p] a s s' by auto
  qed
  from this[of agent] this[of agent'] show ?thesis unfolding x x' by simp
qed

end
