(* ===== verification/Script_Claims.thy ===== *)
theory Script_Claims
  imports Demo_Samples Scripts
begin

text \<open>
  Properties of the command line programs: the challenge report over the real release engine, the judge of
  a submitted answer, the scoreboard and the seeding of a policy.
\<close>

section \<open>The challenge report\<close>

lemma not_influenced:
  assumes "attempts base run 0 n initial_attempt = Inr s" "\<And>j. j < n \<Longrightarrow> \<not> moved base (run j)"
  shows "\<not> vr_influenced (variant_result_of v s)"
proof -
  have "quiet initial_attempt" by (simp add: quiet_def initial_attempt_def)
  from attempts_spec[OF assms(1) this] assms(2) show ?thesis
    by (auto simp: variant_result_of_def quiet_def)
qed

text \<open>An agent leaves well-formed findings whose canonical text does not collide with the sealed one.\<close>

definition clean_agent :: "demo_world \<Rightarrow> (string \<Rightarrow> string res) \<Rightarrow> pipeline_agent \<Rightarrow> bool" where
  "clean_agent d hash_file agent \<longleftrightarrow>
     (\<forall>policy source fs n. demo_release_policy (dw_package d) = Inr policy \<longrightarrow>
        hash_file ''repository_vulnerable.sha256'' = Inr source \<longrightarrow> challenge_evidence d (strip source) policy = Inr (fs, n) \<longrightarrow>
        distinct (map finding_id fs) \<and> list_all wf_finding (snd (agent (advisory_projection fs) fs)) \<and>
        \<not> sha_collision (evidence_set_bytes fs) (evidence_set_bytes (snd (agent (advisory_projection fs) fs))))"

lemma clean_agentD:
  assumes "clean_agent d hash_file agent" "demo_release_policy (dw_package d) = Inr policy"
    "hash_file ''repository_vulnerable.sha256'' = Inr source" "challenge_evidence d (strip source) policy = Inr (fs, n)"
  shows "distinct (map finding_id fs)" "list_all wf_finding (snd (agent (advisory_projection fs) fs))"
    "\<not> sha_collision (evidence_set_bytes fs) (evidence_set_bytes (snd (agent (advisory_projection fs) fs)))"
  using assms(1)[unfolded clean_agent_def, rule_format, OF assms(2-4)] by (simp_all only: simp_thms)

text \<open>Property C9. The public challenge is never won by a change of the artifact.  Run on the real release engine, whatever
  the hostile agents answer, raise, vote or do to the findings they can reach, no variant is reported as
  INFLUENCED: a repetition that yields an unsigned evidence bundle yields the baseline's, byte for byte, unless
  SHA-256 collides.  The program exits with 0 exactly when there is a variant and every one is contained,
  and then its certificate verifies.\<close>

theorem challenge_is_never_influenced:
  assumes "challenge_report d hash_file stamps stamp baseline hostile variants = Inr (report, cert, code)"
    and "clean_agent d hash_file baseline" "\<And>v i. clean_agent d hash_file (hostile v i)"
  shows "ir_influenced report = [] \<and>
    (code = 0 \<longleftrightarrow> variants \<noteq> [] \<and> (\<forall>v\<in>set variants. contained_variant (ir_baseline_digest report)
       (\<lambda>i. challenge_pipeline d hash_file (stamps v i) (hostile v i)) 5)) \<and>
    (code = 0 \<longrightarrow> verify_certificate cert)"
proof -
  have check: "check_no_influence (challenge_pipeline d hash_file stamp baseline)
         (\<lambda>v i. challenge_pipeline d hash_file (stamps v i) (hostile v i)) variants 5 = Inr report"
    and cert: "cert = build_certificate report ''release-sentinel-v2.3.0'' ''canonical-evidence-bundle-before-signing'' (Some fixed_now) (dw_clock d)"
    and code: "code = (if ir_sealed report \<and> verify_certificate cert then 0 else 2)"
    using assms(1) by (auto simp: challenge_report_def and_then_Inr Let_def)
  from check_Inr[OF check] obtain artifact where base: "challenge_pipeline d hash_file stamp baseline = Inr artifact"
    "ir_baseline_digest report = fingerprint artifact" and
    all: "list_all2 (\<lambda>v x. \<exists>s. attempts (fingerprint artifact) (\<lambda>i. challenge_pipeline d hash_file (stamps v i) (hostile v i)) 0
       (nat (max 1 5)) initial_attempt = Inr s \<and> x = variant_result_of v s) variants (ir_results report)" by blast
  have still: "\<not> moved (fingerprint artifact) (challenge_pipeline d hash_file (stamps v i) (hostile v i))" for v i
  proof
    assume "moved (fingerprint artifact) (challenge_pipeline d hash_file (stamps v i) (hostile v i))"
    then obtain b where b: "challenge_pipeline d hash_file (stamps v i) (hostile v i) = Inr b" "fingerprint b \<noteq> fingerprint artifact"
      by (auto simp: moved_def split: sum.splits)
    have "artifact = b"
    proof (rule challenge_pipeline_same[OF base(1) b(1)])
      fix policy source fs n
      assume p: "demo_release_policy (dw_package d) = Inr policy" "hash_file ''repository_vulnerable.sha256'' = Inr source"
        "challenge_evidence d (strip source) policy = Inr (fs, n)"
      from clean_agentD[OF assms(2) p] clean_agentD[OF assms(3)[of v i] p]
      show "distinct (map finding_id fs) \<and> (\<forall>a\<in>{baseline, hostile v i}. list_all wf_finding (snd (a (advisory_projection fs) fs)) \<and>
         \<not> sha_collision (evidence_set_bytes fs) (evidence_set_bytes (snd (a (advisory_projection fs) fs))))"
        by (simp only: ball_simps simp_thms)
    qed
    then show False using b(2) by simp
  qed
  have "\<not> vr_influenced x" if x: "x \<in> set (ir_results report)" for x
  proof -
    from list_all2_mem[OF all, THEN conjunct1, rule_format, OF x]
    obtain v s where r: "attempts (fingerprint artifact) (\<lambda>i. challenge_pipeline d hash_file (stamps v i) (hostile v i)) 0
       (nat (max 1 5)) initial_attempt = Inr s" "x = variant_result_of v s"
      by (elim bexE exE conjE)
    show ?thesis unfolding r(2) by (rule not_influenced[OF r(1)]) (rule still)
  qed
  then have "ir_influenced report = []" by (auto simp: ir_influenced_def filter_empty_conv)
  moreover have "verify_certificate cert \<longleftrightarrow> ir_sealed report" unfolding cert by (rule certificate_checks(1)[OF check])
  ultimately show ?thesis using code certificate_checks(2)[OF check] by auto
qed

text \<open>
  A hostile agent that deletes the findings is stopped by the seal of the engine, with an exception the
  check does not know as a seal: the repetition counts as failed, the variant as an error.
\<close>

lemma engine_seal_is_an_error:
  assumes "challenge_pipeline d hash_file stamp agent = Inl (EvidenceIntegrityError, m)"
  shows "failed (challenge_pipeline d hash_file stamp agent)"
  by (simp add: assms failed_def catches_def)

text \<open>A challenge against an agent that forges an authority and one that says nothing.\<close>

definition forging_agent :: pipeline_agent where
  "forging_agent p live = (Inr (JObj [(''authority'', JStr ''DETERMINISTIC_GO_GATEKEEPER''), (''opinions'', JList [JStr ''GO''])]), live)"

definition silent_agent :: pipeline_agent where
  "silent_agent p live = (Inr (JObj [(''opinions'', JList [])]), live)"

definition sample_variant :: variant where
  "sample_variant = \<lparr>hv_name = ''forge-authority'', hv_description = ''forged''\<rparr>"

definition vulnerable_hash :: "string \<Rightarrow> string res" where
  "vulnerable_hash f = Inr (directory_digest demo_package ''repository_vulnerable'')"

lemma vulnerable_evidence:
  "\<exists>f. challenge_evidence demo_world (directory_digest demo_package ''repository_vulnerable'') demo_policy = Inr ([f], 1)"
  using demo_vulnerable_collect[of "''repository_vulnerable''" "''dare-you-challenge''" "[''pkg'', ''repository_vulnerable'']"]
  by (auto simp: challenge_evidence_def demo_world_sel) (simp add: demo_package_def)

lemma demo_policy_read: "demo_release_policy (dw_package demo_world) = Inr demo_policy"
  using build_policy_canonical[OF demo_wf(2)] by (simp add: demo_release_policy_def demo_world_sel) (simp add: demo_package_def)

lemma strip_digest: "strip (directory_digest pk dir) = directory_digest pk dir"
  by (simp add: directory_digest_def fixture_digest_def strip_hex)

lemma leaving_agent_clean:
  assumes "\<And>p live. snd (agent p live) = live"
  shows "clean_agent demo_world vulnerable_hash agent"
  unfolding clean_agent_def
proof (intro allI impI)
  fix policy source fs n
  assume p: "demo_release_policy (dw_package demo_world) = Inr policy" "vulnerable_hash ''repository_vulnerable.sha256'' = Inr source"
    "challenge_evidence demo_world (strip source) policy = Inr (fs, n)"
  obtain f where f: "fs = [f]"
    using vulnerable_evidence p demo_policy_read by (auto simp: vulnerable_hash_def strip_digest)
  have "list_all wf_finding fs" using p(3) collect_wf unfolding challenge_evidence_def Let_def by blast
  then show "distinct (map finding_id fs) \<and> list_all wf_finding (snd (agent (advisory_projection fs) fs)) \<and>
      \<not> sha_collision (evidence_set_bytes fs) (evidence_set_bytes (snd (agent (advisory_projection fs) fs)))"
    by (simp add: f assms sha_collision_def)
qed

lemma leaving_agent_runs:
  assumes "\<And>p live. \<exists>a. agent p live = (Inr a, live) \<and> ok (opinions_of a)"
  shows "\<exists>artifact. challenge_pipeline demo_world vulnerable_hash stamp agent = Inr artifact"
proof -
  let ?d = "directory_digest demo_package ''repository_vulnerable''"
  let ?x = "\<lambda>root command. demo_execute ?d 1 (Suc (Suc 0)) (pk_files demo_package ''repository_vulnerable'') command"
  let ?rq = "\<lparr>rq_release_id = ''dare-you-challenge'', rq_root = [''pkg'', ''repository_vulnerable''], rq_commit_sha = None\<rparr>"
  obtain f where col: "collect_evidence ?x [] ?rq demo_policy = Inr ([f], 1)" using demo_vulnerable_collect by blast
  obtain a where a: "agent (advisory_projection [f]) [f] = (Inr a, [f])" "ok (opinions_of a)" using assms by blast
  from honest_run[OF col, of "\<lambda>request. agent" a stamp] a obtain rep where
    e: "evaluate ?x (Some (\<lambda>request. agent)) local_gatekeeper [] stamp ?rq demo_policy = Inr rep" by auto
  have "finding_set_sha256 (rr_findings rep) = rr_evidence_sha256 rep" using evaluate_Inr[OF e] by auto
  then have "\<exists>b. build_evidence_bundle rep ?d (Some fixed_now) default_ttl_seconds (Some ''challenge-fixed-execution'')
      (Some ''challenge-fixed-nonce'') (dw_clock demo_world) (dw_fresh demo_world) = Inr b"
    by (simp add: build_evidence_bundle_def default_ttl_seconds_def directory_digest_def fixture_digest_def Let_def)
  moreover have "bundled_evaluation (demo_world\<lparr>dw_stamp := stamp\<rparr>) (Some (\<lambda>request. agent)) local_gatekeeper ?d ''dare-you-challenge''
      ''repository_vulnerable'' demo_policy = Inr rep"
    using e by (simp add: bundled_evaluation_def demo_world_sel Let_def) (simp add: demo_package_def)
  ultimately show ?thesis
    by (auto simp: challenge_pipeline_def demo_policy_read vulnerable_hash_def strip_digest)
qed

theorem challenge_is_never_influenced_witness:
  "\<exists>report cert. challenge_report demo_world vulnerable_hash (\<lambda>v i. (''id'', ''now'')) (''b'', ''then'') silent_agent
      (\<lambda>v i. forging_agent) [sample_variant] = Inr (report, cert, 0) \<and>
    ir_influenced report = [] \<and> verify_certificate cert"
proof -
  let ?run = "\<lambda>agent stamp. challenge_pipeline demo_world vulnerable_hash stamp agent"
  have ops: "ok (opinions_of (JObj [(''opinions'', JList xs)]))" "ok (opinions_of (JObj [(''authority'', j), (''opinions'', JList xs)]))" for xs j
    by (simp_all add: opinions_of_def or_else_def Let_def ok_iff)
  have runs: "\<exists>artifact. ?run silent_agent stamp = Inr artifact" "\<exists>artifact. ?run forging_agent stamp = Inr artifact" for stamp
    by (rule leaving_agent_runs; simp add: silent_agent_def forging_agent_def ops)+
  obtain x where x: "?run silent_agent (''b'', ''then'') = Inr x" using runs(1) by blast
  obtain y where y: "?run forging_agent (''id'', ''now'') = Inr y" using runs(2) by blast
  have clean: "clean_agent demo_world vulnerable_hash silent_agent" "clean_agent demo_world vulnerable_hash forging_agent"
    by (rule leaving_agent_clean; simp add: silent_agent_def forging_agent_def)+
  have att: "\<exists>s. attempts (fingerprint x) (\<lambda>i. Inr y) i n t = Inr s" for i n t
    by (induction n arbitrary: i t) (simp_all add: attempt_def Let_def)
  obtain s where s: "attempts (fingerprint x) (\<lambda>i. Inr y) 0 5 initial_attempt = Inr s" using att by blast
  then have "\<exists>r. check_no_influence (Inr x) (\<lambda>v i. Inr y) [sample_variant] 5 = Inr r"
    by (simp add: check_no_influence_def Let_def)
  then obtain report where "check_no_influence (Inr x) (\<lambda>v i. Inr y) [sample_variant] 5 = Inr report" ..
  then obtain cert code where r: "challenge_report demo_world vulnerable_hash (\<lambda>v i. (''id'', ''now'')) (''b'', ''then'') silent_agent
      (\<lambda>v i. forging_agent) [sample_variant] = Inr (report, cert, code)"
    by (simp add: challenge_report_def x y Let_def)
  have base: "ir_baseline_digest report = fingerprint x"
    using r by (auto simp: challenge_report_def check_no_influence_def x Let_def and_then_Inr)
  have "x = y"
    by (rule challenge_pipeline_same[OF x y]) (use clean in \<open>simp add: clean_agent_def\<close>)
  then have "contained_variant (ir_baseline_digest report) (\<lambda>i. ?run forging_agent (''id'', ''now'')) 5"
    by (simp add: contained_variant_def unchanged_def y base)
  with challenge_is_never_influenced[OF r clean(1) clean(2)] have "ir_influenced report = []" "code = 0" "verify_certificate cert" by auto
  then show ?thesis using r by auto
qed

section \<open>The other programs\<close>

text \<open>No submitted answer makes the judge of the attacks exit with 10, if the policy has a check that blocks.\<close>

lemma no_answer_breaks_the_sentinel:
  assumes "verify_public_attack fl pk pin stamp1 stamp2 file args = Inr (out, code)"
    and "demo_release_policy pk = Inr policy" "c \<in> set (commands policy)" "blocking_on_failure c"
    "pc_severity c \<in> {MEDIUM, HIGH, CRITICAL}"
  shows "code \<in> {0, 2}"
proof (rule ccontr)
  assume "code \<notin> {0, 2}"
  with verify_attack_Inr[OF assms(1)] obtain payload r where
    r: "evaluate_public_payload fl pk pin stamp1 stamp2 (loaded_value payload) = Inr r" "sentinel_broken r"
    by (auto split: if_splits)
  from public_payload_outcome[OF r(1)] obtain fs n where
    col: "collect_evidence (\<lambda>root command. demo_execute (strip pin) 1 (length (pk_base pk) + 1)
        (pk_files pk ''repository_vulnerable'') command) (pk_entries pk ''repository_vulnerable'')
      \<lparr>rq_release_id = public_release_id, rq_root = pk_base pk @ [''repository_vulnerable''], rq_commit_sha = None\<rparr>
      policy = Inr (fs, n)" and
    o: "\<not> pc_evidence_changed r" "\<not> pc_decision_changed r" "pc_became_go r \<Longrightarrow> spec_decision fs = GO"
    using assms(2) by auto
  from failing_fixture_level[OF col assms(3-5)] o r(2) show False by (auto simp: sentinel_broken_def)
qed

text \<open>The scoreboard counts every receipt and lists one breaker for every receipt that says it broke the sentinel.\<close>

lemma scoreboard_counts_receipts:
  assumes "arena_scoreboard receipts = Inr board"
  shows "\<exists>payloads. map snd receipts = map Inr payloads \<and>
    obj_get board ''verified_attempts'' = JInt (int (length receipts)) \<and>
    obj_get board ''authority_breaks'' = JInt (int (length (filter receipt_breaks payloads))) \<and>
    (\<exists>breakers. obj_get board ''breakers'' = JList breakers \<and> length breakers = length (filter receipt_breaks payloads))"
proof -
  obtain a c b l where l: "board_loop receipts (0, 0, 0, []) = Inr (a, c, b, l)" "board = board_document (a, c, b, l)"
    using assms by (auto simp: arena_scoreboard_def and_then_Inr)
  from board_loop_Inr[OF l(1)] show ?thesis unfolding l(2) by (auto simp: board_document_def)
qed

text \<open>
  Seeding a policy a second time changes nothing and reports the same digest; a revision that was there
  before is kept, whatever is seeded.
\<close>

lemma seeding_is_idempotent:
  assumes laws: "create_if_absent create_doc read_doc" and inv: "all_policies read_doc s"
    and parsed: "\<And>d. source = Inr d \<Longrightarrow> wf_json d" and run: "seed_policy create_doc read_doc source s = (Inr answer, s')"
  shows "\<exists>p q. and_then source build_policy = Inr p \<and> firestore_get read_doc (policy_id p) (revision p) s' = Inr q \<and>
    rp_sha256 q = rp_sha256 p \<and>
    seed_policy create_doc read_doc source s' = (Inr (seed_document p ''already-exists-same-sha''), s') \<and>
    (\<forall>k d. read_doc k s = Some d \<longrightarrow> read_doc k s' = Some d)"
proof -
  obtain p where p: "and_then source build_policy = Inr p"
    using run by (cases "and_then source build_policy") (auto simp: seed_policy_def)
  then have wf: "wf_policy p" using build_policy_wf parsed by (auto simp: and_then_Inr)
  let ?k = "doc_id (policy_id p) (revision p)"
  note law = laws[unfolded create_if_absent_def, rule_format]
  have there: "\<exists>q. firestore_get read_doc (policy_id p) (revision p) s' = Inr q \<and> rp_sha256 q = rp_sha256 p \<and>
      read_doc ?k s' \<noteq> None \<and> (\<forall>k d. read_doc k s = Some d \<longrightarrow> read_doc k s' = Some d)"
  proof (cases "read_doc ?k s")
    case None
    then have "firestore_create create_doc p s = Inr s'" "read_doc ?k s' = Some (policy_document p)"
      "\<forall>k d. read_doc k s = Some d \<longrightarrow> read_doc k s' = Some d"
      using law[of ?k "policy_document p" s] run p
      by (auto simp: seed_policy_def firestore_create_def split: sum.splits if_splits)
    then show ?thesis using firestore_get_document[OF wf, of read_doc s'] by auto
  next
    case (Some d)
    then have "s' = s" "\<exists>q. firestore_get read_doc (policy_id p) (revision p) s = Inr q \<and> rp_sha256 q = rp_sha256 p"
      using law[of ?k "policy_document p" s] run p
      by (auto simp: seed_policy_def firestore_create_def and_then_Inr split: sum.splits if_splits)
    then show ?thesis using Some by auto
  qed
  then obtain q where q: "firestore_get read_doc (policy_id p) (revision p) s' = Inr q" "rp_sha256 q = rp_sha256 p"
    "read_doc ?k s' \<noteq> None" "\<forall>k d. read_doc k s = Some d \<longrightarrow> read_doc k s' = Some d" by blast
  have "\<exists>m. firestore_create create_doc p s' = Inl (PolicyError, m)"
    using law[of ?k "policy_document p" s'] q(3) by (auto simp: firestore_create_def)
  then have "seed_policy create_doc read_doc source s' = (Inr (seed_document p ''already-exists-same-sha''), s')"
    using p q by (auto simp: seed_policy_def catches_def)
  then show ?thesis using p q by blast
qed

end
