(* ===== verification/Hostile_Frame.thy ===== *)
theory Hostile_Frame
  imports Hostile
begin

text \<open>
  What the hostile stages can change: the objects that can be reached from their arguments, and nothing
  else.  The lemmas: every action of the battery stays within a set of objects that is closed under what
  the traversal follows (the locale \<open>framed_action\<close>); freezing adds immutable objects, from which only
  they and the live scalars let through can be reached; so a stage with sealed arguments changes only
  what can be reached from a live scalar, and nothing at all if there is none.
\<close>

section \<open>Closed sets of objects\<close>

definition closed_set :: "heap \<Rightarrow> nat set \<Rightarrow> bool" where
  "closed_set h G \<longleftrightarrow> (\<forall>a\<in>G. a < length h \<and> refs (contents h a) \<subseteq> G \<and> (\<forall>d. h ! a = OProxy d \<longrightarrow> d < length h))"

text \<open>What an object that is no proxy holds itself.\<close>

fun direct :: "pyobj \<Rightarrow> pyref list" where
  "direct (OList xs) = xs"
| "direct (OTuple xs) = xs"
| "direct (OSet xs) = xs"
| "direct (OFrozenset xs) = xs"
| "direct (ODict kvs) = map snd kvs"
| "direct (OProxy d) = []"
| "direct (OInst b attrs) = map snd attrs"
| "direct (OSlots attrs) = []"

fun is_proxy :: "pyobj \<Rightarrow> bool" where
  "is_proxy (OProxy d) = True"
| "is_proxy _ = False"

lemma contents_direct: "a < length h \<Longrightarrow> \<not> is_proxy (h ! a) \<Longrightarrow> contents h a = direct (h ! a)"
  by (cases "h ! a") (simp_all add: contents_def obj_at_def)

lemma contents_proxy: "a < length h \<Longrightarrow> h ! a = OProxy d \<Longrightarrow> contents h a =
    (case obj_at h d of Some (ODict kvs) \<Rightarrow> map snd kvs | _ \<Rightarrow> [])"
  by (simp add: contents_def obj_at_def)

lemma contents_append: "a < length h \<Longrightarrow> (\<forall>d. h ! a = OProxy d \<longrightarrow> d < length h) \<Longrightarrow> contents (h @ xs) a = contents h a"
  by (auto simp: contents_def obj_at_def nth_append split: pyobj.splits)

lemma closed_set_append: "closed_set h G \<Longrightarrow> closed_set (h @ xs) G"
  by (auto simp: closed_set_def contents_append nth_append)

lemma closed_set_Un: "closed_set h F \<Longrightarrow> closed_set h G \<Longrightarrow> closed_set h (F \<union> G)"
  by (auto simp: closed_set_def)

lemma closed_set_new:
  assumes "closed_set h G" "\<not> is_proxy b" "refs (direct b) \<subseteq> insert (length h) G"
  shows "closed_set (h @ [b]) (insert (length h) G)"
proof -
  have "contents (h @ [b]) (length h) = direct b" using assms(2) by (subst contents_direct) simp_all
  then show ?thesis
    using closed_set_append[OF assms(1), of "[b]"] assms(2,3)
    by (cases b) (auto simp: closed_set_def)
qed

lemma closed_set_update:
  assumes c: "closed_set h G" and a: "a \<in> G" and b: "\<not> is_proxy b" "obj_kind b = obj_kind (h ! a)" "refs (direct b) \<subseteq> G"
  shows "closed_set (h[a := b]) G"
proof -
  have l: "a < length h" using c a by (simp add: closed_set_def)
  have "refs (contents (h[a := b]) p) \<subseteq> G" if p: "p \<in> G" for p
  proof (cases "p = a")
    case True
    then show ?thesis using l b by (simp add: contents_direct)
  next
    case other: False
    have pl: "p < length h" "refs (contents h p) \<subseteq> G" using c p by (auto simp: closed_set_def)
    show ?thesis
    proof (cases "is_proxy (h ! p)")
      case True
      then obtain d where d: "h ! p = OProxy d" by (cases "h ! p") simp_all
      have "contents (h[a := b]) p = (case obj_at (h[a := b]) d of Some (ODict kvs) \<Rightarrow> map snd kvs | _ \<Rightarrow> [])"
        using pl(1) d other by (simp add: contents_proxy)
      moreover have "refs (case obj_at (h[a := b]) d of Some (ODict kvs) \<Rightarrow> map snd kvs | _ \<Rightarrow> []) \<subseteq> G"
      proof (cases "d = a")
        case True
        then show ?thesis using l b(3) by (cases b) (simp_all add: obj_at_def)
      next
        case False
        then have "obj_at (h[a := b]) d = obj_at h d" by (simp add: obj_at_def)
        then show ?thesis using pl d by (simp add: contents_proxy)
      qed
      ultimately show ?thesis by simp
    next
      case False
      then show ?thesis using pl other by (simp add: contents_direct)
    qed
  qed
  moreover have "d < length h" if "p \<in> G" "h[a := b] ! p = OProxy d" for p d
    using that c b(1) l by (cases "p = a") (auto simp: closed_set_def)
  ultimately show ?thesis using c by (auto simp: closed_set_def)
qed

section \<open>Actions stay inside\<close>

locale framed_action = container_action +
  fixes extra :: "nat set"
  assumes frame: "yields h a \<Longrightarrow> closed_set h G \<Longrightarrow> a \<in> G \<Longrightarrow> extra \<subseteq> G \<Longrightarrow>
    closed_set (act a h) (G \<union> {length h..<length (act a h)}) \<and> (\<forall>b<length h. b \<notin> G \<longrightarrow> act a h ! b = h ! b)"
begin

lemma walk_frame_aux:
  assumes "walk_targets act' h seen stack ys = Some r"
    and "act' = act" "closed_set h G" "extra \<subseteq> G" "refs stack \<subseteq> G" "set ys \<subseteq> G"
  shows "length h \<le> length (fst r) \<and> closed_set (fst r) (G \<union> {length h..<length (fst r)}) \<and>
    (\<forall>b<length h. b \<notin> G \<longrightarrow> fst r ! b = h ! b) \<and> set (snd r) \<subseteq> G \<union> {length h..<length (fst r)}"
  using assms(2-6)
proof (induction arbitrary: G rule: walk_targets.raw_induct[OF _ assms(1), case_names visit])
  case (visit f act' h seen stack ys r G)
  show ?case
  proof (cases stack)
    case Nil
    then show ?thesis using visit by auto
  next
    case (Cons item rest)
    show ?thesis
    proof (cases item)
      case (Atom c)
      then show ?thesis using visit(1)[of act' h seen rest ys r G] visit(2-) Cons by simp
    next
      case (Ref a)
      then have a: "a \<in> G" "refs rest \<subseteq> G" using visit(6) Cons by auto
      have c: "refs (contents h a) \<subseteq> G" using visit(4) a(1) by (auto simp: closed_set_def)
      consider "a \<in> set seen" | "a \<notin> set seen" "yields h a" | "a \<notin> set seen" "\<not> yields h a" by blast
      then show ?thesis
      proof cases
        case 1
        then show ?thesis using visit(1)[of act' h seen rest ys r G] visit(2-) Cons Ref a by simp
      next
        case 2
        let ?h = "act a h" and ?G = "G \<union> {length h..<length (act a h)}"
        have fr: "closed_set ?h ?G" "\<And>b. b < length h \<Longrightarrow> b \<notin> G \<Longrightarrow> ?h ! b = h ! b"
          using frame[OF 2(2) visit(4) a(1) visit(5)] by auto
        have l: "length h \<le> length ?h" by (rule keeps[OF 2(2)])
        have "refs (contents ?h a) \<subseteq> ?G" using fr(1) a(1) by (auto simp: closed_set_def)
        then have "length ?h \<le> length (fst r) \<and> closed_set (fst r) (?G \<union> {length ?h..<length (fst r)}) \<and>
            (\<forall>b<length ?h. b \<notin> ?G \<longrightarrow> fst r ! b = ?h ! b) \<and> set (snd r) \<subseteq> ?G \<union> {length ?h..<length (fst r)}"
        proof (intro visit(1)[of act' "?h" "a # seen" "rev (contents ?h a) @ rest" "a # ys" r ?G])
          show "f act' ?h (a # seen) (rev (contents ?h a) @ rest) (a # ys) = Some r"
            using visit(2,3) Cons Ref 2 by simp
          show "refs (rev (contents ?h a) @ rest) \<subseteq> ?G" using \<open>refs (contents ?h a) \<subseteq> ?G\<close> a(2) by auto
          show "set (a # ys) \<subseteq> ?G" using visit(7) a(1) by auto
        qed (use visit(3,5) fr(1) in \<open>auto\<close>)
        moreover have "?G \<union> {length ?h..<length (fst r)} = G \<union> {length h..<length (fst r)}" if "length ?h \<le> length (fst r)"
          using l that by auto
        ultimately show ?thesis using l fr(2) by auto
      next
        case 3
        then show ?thesis
          using visit(1)[of act' h "a # seen" "rev (contents h a) @ rest" ys r G] visit(2-) Cons Ref a c by simp
      qed
    qed
  qed
qed

lemma walk_frame:
  assumes "walk_targets act h seen stack ys = Some (h', zs)" "closed_set h G" "extra \<subseteq> G" "refs stack \<subseteq> G" "set ys \<subseteq> G"
  shows "b < length h \<Longrightarrow> b \<notin> G \<Longrightarrow> h' ! b = h ! b" "set zs \<subseteq> G \<union> {length h..<length h'}" "length h \<le> length h'"
    "closed_set h' (G \<union> {length h..<length h'})"
  using walk_frame_aux[OF assms(1) refl assms(2-5)] by auto

end

text \<open>Each action of the battery.\<close>

lemma mutable_not_proxy: "mutable_obj b \<Longrightarrow> \<not> is_proxy b"
  by (cases b) simp_all

lemma refs_mono: "set xs \<subseteq> set ys \<Longrightarrow> refs xs \<subseteq> refs ys"
  by (auto simp: refs_def)

lemma direct_emptied: "refs (direct (emptied b)) \<subseteq> refs (direct b)"
  by (cases b) simp_all

lemma closed_direct: "closed_set h G \<Longrightarrow> a \<in> G \<Longrightarrow> \<not> is_proxy (h ! a) \<Longrightarrow> refs (direct (h ! a)) \<subseteq> G"
  by (metis closed_set_def contents_direct)

lemma dict_set_refs: "refs (map snd (dict_set k v d)) \<subseteq> refs [v] \<union> refs (map snd d)"
  by (induction k v d rule: dict_set.induct) (auto simp: refs_def)

lemma dict_set_atom: "refs (map snd (dict_set k (Atom c) d)) \<subseteq> refs (map snd d)"
  using dict_set_refs[of k "Atom c" d] by simp

lemma benign_entries_refs: "refs (map snd (benign_entries kvs)) \<subseteq> refs (map snd kvs)"
proof -
  have "refs (map snd (foldl (\<lambda>d (k, v). if KStr k \<in> fst ` set d then dict_set (KStr k) (Atom v) d else d) d xs)) \<subseteq>
      refs (map snd d)" for d :: "(pykey \<times> pyref) list" and xs
  proof (induction xs arbitrary: d)
    case (Cons x xs)
    have "refs (map snd (if KStr (fst x) \<in> fst ` set d then dict_set (KStr (fst x)) (Atom (snd x)) d else d)) \<subseteq> refs (map snd d)"
      by (simp add: dict_set_atom)
    then show ?case
      using Cons[of "if KStr (fst x) \<in> fst ` set d then dict_set (KStr (fst x)) (Atom (snd x)) d else d"]
      by (simp add: case_prod_beta subset_trans)
  qed simp
  then show ?thesis unfolding benign_entries_def by blast
qed

lemma object_setattr_refs: "refs (direct (object_setattr k v b)) \<subseteq> refs (direct b)"
  by (induction k v b rule: object_setattr.induct) (simp_all add: dict_set_atom)

lemma object_setattrs_refs: "refs (direct (foldl (\<lambda>b (k, v). object_setattr k v b) b xs)) \<subseteq> refs (direct b)"
proof (induction xs arbitrary: b)
  case (Cons x xs)
  show ?case using subset_trans[OF Cons[of "object_setattr (fst x) (snd x) b"] object_setattr_refs[of "fst x" "snd x" b]]
    by (simp add: case_prod_beta)
qed simp

lemma benign_entry_refs: "refs (direct (benign_entry b)) \<subseteq> refs (direct b)"
  unfolding benign_entry_def
  using object_setattrs_refs[of "case b of ODict kvs \<Rightarrow> ODict (benign_entries kvs) | _ \<Rightarrow> b" benign] benign_entries_refs
  by (cases b) (auto intro: subset_trans)

lemma benign_entry_proxy: "is_proxy b \<Longrightarrow> benign_entry b = b"
  by (cases b) (simp_all add: benign_entry_def benign_def)

lemma kind_proxy: "obj_kind b = obj_kind c \<Longrightarrow> is_proxy b = is_proxy c"
  by (cases b; cases c) simp_all

lemma closed_set_replace:
  assumes "closed_set h G" "a \<in> G" "obj_kind b = obj_kind (h ! a)" "is_proxy (h ! a) \<Longrightarrow> b = h ! a"
    "\<not> is_proxy (h ! a) \<Longrightarrow> refs (direct b) \<subseteq> G"
  shows "closed_set (h[a := b]) G"
proof (cases "is_proxy (h ! a)")
  case True
  then show ?thesis using assms by simp
next
  case False
  then show ?thesis using closed_set_update[OF assms(1,2) _ assms(3)] assms(5) kind_proxy[OF assms(3)] by blast
qed

lemma clear_closed: "closed_set h G \<Longrightarrow> a \<in> G \<Longrightarrow> closed_set (clear_target a h) G"
  unfolding clear_target_def
  using closed_set_replace[of h G a "emptied (h ! a)"] direct_emptied[of "h ! a"] closed_direct[of h G a]
  by (cases "h ! a") auto

lemma downgrade_ref_closed: "closed_set h G \<Longrightarrow> refs [r] \<subseteq> G \<Longrightarrow> closed_set (downgrade_ref r h) G"
  using closed_set_replace[of h G _ "benign_entry (h ! _)"] benign_entry_refs closed_direct benign_entry_proxy
  by (cases r) (fastforce simp: downgrade_ref_def)+

lemma downgrade_refs_closed:
  "closed_set h G \<Longrightarrow> refs rs \<subseteq> G \<Longrightarrow> closed_set (fold downgrade_ref rs h) G \<and>
    (\<forall>b. b \<notin> G \<longrightarrow> fold downgrade_ref rs h ! b = h ! b)"
proof (induction rs arbitrary: h)
  case (Cons r rs)
  have r: "refs [r] \<subseteq> G" "refs rs \<subseteq> G" using Cons.prems(2) by (cases r; simp)+
  have "b \<notin> G \<Longrightarrow> downgrade_ref r h ! b = h ! b" for b
    using r(1) by (cases r; cases "r = Ref b") (auto simp: downgrade_ref_def)
  then show ?case using Cons.IH[OF downgrade_ref_closed[OF Cons.prems(1) r(1)] r(2)] by simp
qed simp

text \<open>An action that allocates nothing.\<close>

lemma framed_still:
  assumes "container_action act" "\<And>a h. length (act a h) = length h"
    "\<And>a h G. yields h a \<Longrightarrow> closed_set h G \<Longrightarrow> a \<in> G \<Longrightarrow> closed_set (act a h) G \<and> (\<forall>b<length h. b \<notin> G \<longrightarrow> act a h ! b = h ! b)"
  shows "framed_action act {}"
  by (rule framed_action.intro[OF assms(1) framed_action_axioms.intro]) (use assms(2,3) in simp)

interpretation clear_frame: framed_action clear_target "{}"
proof (rule framed_still)
  show "container_action clear_target" by (rule clear.container_action_axioms)
  show "length (clear_target a h) = length h" for a h by (simp add: clear_target_def)
  show "closed_set (clear_target a h) G \<and> (\<forall>b<length h. b \<notin> G \<longrightarrow> clear_target a h ! b = h ! b)"
    if "closed_set h G" "a \<in> G" for a h G
    using clear_closed[OF that] that(2) by (auto simp: clear_target_def nth_list_update)
qed

interpretation downgrade_frame: framed_action downgrade_target "{}"
proof (rule framed_still)
  show "container_action downgrade_target" by (rule downgrade.container_action_axioms)
  show "length (downgrade_target a h) = length h" for a h
    using downgrade_refs_keep by (auto simp: downgrade_target_def split: option.splits pyobj.splits)
  show "closed_set (downgrade_target a h) G \<and> (\<forall>b<length h. b \<notin> G \<longrightarrow> downgrade_target a h ! b = h ! b)"
    if y: "yields h a" and c: "closed_set h G" and a: "a \<in> G" for a h G
  proof (cases "h ! a")
    case (OList xs)
    then have "refs xs \<subseteq> G" using closed_direct[OF c a] by simp
    then show ?thesis using downgrade_refs_closed[OF c] OList y by (simp add: downgrade_target_def obj_at_def yields_iff)
  next
    case (ODict kvs)
    then have "refs (map snd (benign_entries kvs)) \<subseteq> G" using closed_direct[OF c a] benign_entries_refs[of kvs] by auto
    then have "closed_set (h[a := ODict (benign_entries kvs)]) G" using closed_set_replace[OF c a] ODict by simp
    then show ?thesis using ODict y a by (auto simp: downgrade_target_def obj_at_def yields_iff nth_list_update)
  qed (use y c in \<open>auto simp: yields_iff downgrade_target_def obj_at_def\<close>)
qed

lemma on_list_frame:
  assumes "\<And>xs. set (f xs) \<subseteq> set xs"
  shows "framed_action (on_list f) {}"
proof (rule framed_still)
  show "container_action (on_list f)" by (rule on_list_action)
  show "length (on_list f a h) = length h" for a h by (auto simp: on_list_def split: option.splits pyobj.splits)
  show "closed_set (on_list f a h) G \<and> (\<forall>b<length h. b \<notin> G \<longrightarrow> on_list f a h ! b = h ! b)"
    if y: "yields h a" and c: "closed_set h G" and a: "a \<in> G" for a h G
  proof (cases "h ! a")
    case (OList xs)
    then have "refs (f xs) \<subseteq> G" using closed_direct[OF c a] refs_mono[OF assms, of xs] by auto
    then have "closed_set (h[a := OList (f xs)]) G" using closed_set_replace[OF c a] OList by simp
    then show ?thesis using OList y a by (auto simp: on_list_def obj_at_def yields_iff nth_list_update)
  qed (use c in \<open>auto simp: on_list_def obj_at_def\<close>)
qed

interpretation drop_frame: framed_action drop_target "{}"
  unfolding drop_target_def by (rule on_list_frame) (auto dest: in_set_butlastD)

interpretation dup_frame: framed_action duplicate_target "{}"
  unfolding duplicate_target_def by (rule on_list_frame) auto

interpretation reorder_frame: framed_action reorder_target "{}"
  unfolding reorder_target_def by (rule on_list_frame) auto

interpretation capture_frame: framed_action "\<lambda>a h. h" "{}"
  by (rule framed_still[OF capture.container_action_axioms]) simp_all

lemma flood_closed:
  assumes y: "yields h a" and c: "closed_set h G" and a: "a \<in> G" and forged: "forged \<in> G"
  shows "closed_set (flood_target forged a h) (G \<union> {length h..<length (flood_target forged a h)}) \<and>
    (\<forall>b<length h. b \<notin> G \<longrightarrow> flood_target forged a h ! b = h ! b)"
proof (cases "h ! a")
  case (OList xs)
  have l: "a < length h" using y by (simp add: yields_iff)
  have "refs (map snd (dict_copy h forged)) \<subseteq> G"
    using closed_direct[OF c forged] by (auto simp: dict_copy_def obj_at_def split: pyobj.splits)
  then have new: "closed_set (h @ [ODict (dict_copy h forged)]) (insert (length h) G)"
    by (intro closed_set_new[OF c]) auto
  have "refs xs \<subseteq> G" using closed_direct[OF c a] OList by simp
  then have "closed_set ((h @ [ODict (dict_copy h forged)])[a := OList (xs @ [Ref (length h)])]) (insert (length h) G)"
    using closed_set_replace[OF new, of a "OList (xs @ [Ref (length h)])"] a l OList by (auto simp: nth_append)
  moreover have f: "flood_target forged a h = (h @ [ODict (dict_copy h forged)])[a := OList (xs @ [Ref (length h)])]"
    using l OList by (simp add: flood_target_def obj_at_def list_update_append)
  moreover have "G \<union> {length h..<length (flood_target forged a h)} = insert (length h) G" unfolding f by auto
  ultimately show ?thesis using a l by (auto simp: nth_append nth_list_update)
next
  case (ODict kvs)
  have l: "a < length h" using y by (simp add: yields_iff)
  have "refs (map snd kvs) \<subseteq> G" using closed_direct[OF c a] ODict by simp
  then have "refs (map snd (dict_set (KStr ''__forged__'') (Ref forged) kvs)) \<subseteq> G"
    using dict_set_refs[of "KStr ''__forged__''" "Ref forged" kvs] forged by auto
  then have "closed_set (h[a := ODict (dict_set (KStr ''__forged__'') (Ref forged) kvs)]) G"
    using closed_set_replace[OF c a] ODict by simp
  then show ?thesis using ODict l a by (auto simp: flood_target_def obj_at_def nth_list_update)
qed (use y c in \<open>auto simp: yields_iff flood_target_def obj_at_def\<close>)

interpretation flood_frame: framed_action "flood_target forged" "{forged}"
  by (rule framed_action.intro[OF flood.container_action_axioms framed_action_axioms.intro]) (use flood_closed in blast)

text \<open>The threads.\<close>

lemma thread_pass_frame:
  "closed_set h G \<Longrightarrow> set ys \<subseteq> G \<Longrightarrow> closed_set (thread_pass ys h) G \<and> (\<forall>b. b \<notin> G \<longrightarrow> thread_pass ys h ! b = h ! b)"
  unfolding thread_pass_def
proof (induction ys arbitrary: h)
  case (Cons y ys)
  have "b \<notin> G \<Longrightarrow> clear_target y h ! b = h ! b" for b
    using Cons.prems(2) by (cases "y = b") (auto simp: clear_target_def)
  then show ?case using Cons.IH[OF clear_closed[OF Cons.prems(1), of y]] Cons.prems(2) by simp
qed simp

lemma thread_passes_frame:
  "closed_set h G \<Longrightarrow> set ys \<subseteq> G \<Longrightarrow>
    closed_set ((thread_pass ys ^^ n) h) G \<and> (\<forall>b. b \<notin> G \<longrightarrow> (thread_pass ys ^^ n) h ! b = h ! b)"
  by (induction n) (auto simp: thread_pass_frame)

section \<open>The battery stays inside\<close>

lemma capture_same: "walk_targets act h seen stack ys = Some r \<Longrightarrow> act = (\<lambda>a h. h) \<longrightarrow> fst r = h"
  by (induction rule: walk_targets.raw_induct[rotated, consumes 1]) (auto split: list.splits pyref.splits if_splits)

lemma each_target_frame:
  assumes "framed_action act extra" "each_target act args kwargs h = Some (h', ys)" "closed_set h G" "extra \<subseteq> G"
    "refs (args @ map snd kwargs) \<subseteq> G"
  shows "\<forall>b<length h. b \<notin> G \<longrightarrow> h' ! b = h ! b" "set ys \<subseteq> G \<union> {length h..<length h'}"
proof -
  have "refs (rev (args @ map snd kwargs)) \<subseteq> G" using assms(5) by (simp del: rev_append)
  from framed_action.walk_frame[OF assms(1) assms(2)[unfolded each_target_def] assms(3,4) this]
  show "\<forall>b<length h. b \<notin> G \<longrightarrow> h' ! b = h ! b" "set ys \<subseteq> G \<union> {length h..<length h'}" by auto
qed

lemma hostile_frame:
  assumes run: "run_hostile v passes args kwargs h = Some (r, h', held)" and c: "closed_set h G"
    and args: "refs (args @ map snd kwargs) \<subseteq> G"
  shows "(\<forall>b<length h. b \<notin> G \<longrightarrow> h' ! b = h ! b) \<and> set held \<subseteq> G"
proof -
  note still = each_target_frame[OF _ _ c empty_subsetI args]
  have thread: "(\<forall>b<length h. b \<notin> G \<longrightarrow> (thread_pass ys ^^ passes) h1 ! b = h ! b) \<and> set ys \<subseteq> G"
    if e: "each_target (\<lambda>a h. h) args kwargs h = Some (h1, ys)" for h1 ys
  proof -
    have "h1 = h" using e capture_same unfolding each_target_def by fastforce
    moreover have "set ys \<subseteq> G" using still(2)[OF capture_frame.framed_action_axioms e] \<open>h1 = h\<close> by auto
    ultimately show ?thesis using thread_passes_frame[OF c] by blast
  qed
  have flood: "\<forall>b<length h. b \<notin> G \<longrightarrow> h1 ! b = h ! b"
    if e: "each_target (flood_target (length h)) args kwargs (h @ [ODict forged_entry]) = Some (h1, ys)" for h1 ys
  proof -
    have "closed_set (h @ [ODict forged_entry]) (insert (length h) G)"
      by (rule closed_set_new[OF c]) (simp_all add: forged_entry_def)
    moreover have "refs (args @ map snd kwargs) \<subseteq> insert (length h) G" using args by blast
    ultimately show ?thesis
      using each_target_frame(1)[OF flood_frame.framed_action_axioms e, of "insert (length h) G"] by (auto simp: nth_append)
  qed
  show ?thesis
    using run still(1)[OF clear_frame.framed_action_axioms] still(1)[OF downgrade_frame.framed_action_axioms]
      still(1)[OF drop_frame.framed_action_axioms] still(1)[OF dup_frame.framed_action_axioms]
      still(1)[OF reorder_frame.framed_action_axioms] thread flood
    by (cases v) (auto simp: answering_def)
qed

section \<open>Freezing\<close>

text \<open>
  The objects freezing adds: immutable ones, from which only they and the live scalars \<open>A\<close> are reached.
\<close>

definition sealed_over :: "heap \<Rightarrow> nat set \<Rightarrow> nat set \<Rightarrow> bool" where
  "sealed_over h F A \<longleftrightarrow> (\<forall>a\<in>F. a < length h \<and> \<not> mutable_obj (h ! a) \<and> (\<forall>d. h ! a = OProxy d \<longrightarrow> d < length h) \<and>
     refs (contents h a) \<subseteq> F \<union> A)"

lemma sealed_over_append: "sealed_over h F A \<Longrightarrow> sealed_over (h @ xs) F A"
  by (auto simp: sealed_over_def contents_append nth_append)

lemma sealed_over_Un: "sealed_over h F A \<Longrightarrow> sealed_over h G B \<Longrightarrow> sealed_over h (F \<union> G) (A \<union> B)"
  by (fastforce simp: sealed_over_def)

lemma sealed_over_insert:
  assumes "sealed_over h F A" "a < length h" "\<not> mutable_obj (h ! a)" "\<And>d. h ! a = OProxy d \<Longrightarrow> d < length h"
    "refs (contents h a) \<subseteq> F \<union> A"
  shows "sealed_over h (insert a F) A"
  using assms unfolding sealed_over_def by blast

text \<open>The addresses of the live scalars in a projection.\<close>

fun live_at :: "plain \<Rightarrow> nat set" where
  "live_at (PLive c a) = {a}"
| "live_at (PList xs) = (\<Union>x\<in>set xs. live_at x)"
| "live_at (PDict kvs) = (\<Union>(k, x)\<in>set kvs. live_at x)"
| "live_at _ = {}"

definition frozen_as :: "heap \<Rightarrow> pyref list \<Rightarrow> heap \<Rightarrow> nat set \<Rightarrow> bool" where
  "frozen_as h rs h' A \<longleftrightarrow>
     (\<exists>F xs. h' = h @ xs \<and> F \<subseteq> {length h..<length h'} \<and> sealed_over h' F A \<and> refs rs \<subseteq> F \<union> A)"

lemma frozen_asI:
  "h' = h @ xs \<Longrightarrow> F \<subseteq> {length h..<length h'} \<Longrightarrow> sealed_over h' F A \<Longrightarrow> refs rs \<subseteq> F \<union> A \<Longrightarrow> frozen_as h rs h' A"
  unfolding frozen_as_def by blast

lemma frozen_same: "refs rs \<subseteq> A \<Longrightarrow> frozen_as h rs h A"
  by (rule frozen_asI[of _ _ "[]" "{}"]) (simp_all add: sealed_over_def)

lemma frozen_append:
  assumes "frozen_as h rs h1 A" "frozen_as h1 rs' h2 B" "refs rs'' \<subseteq> refs rs \<union> refs rs'"
  shows "frozen_as h rs'' h2 (A \<union> B)"
proof -
  obtain F xs where F: "h1 = h @ xs" "F \<subseteq> {length h..<length h1}" "sealed_over h1 F A" "refs rs \<subseteq> F \<union> A"
    using assms(1) unfolding frozen_as_def by blast
  obtain G ys where G: "h2 = h1 @ ys" "G \<subseteq> {length h1..<length h2}" "sealed_over h2 G B" "refs rs' \<subseteq> G \<union> B"
    using assms(2) unfolding frozen_as_def by blast
  have "sealed_over h2 (F \<union> G) (A \<union> B)" using sealed_over_Un[OF _ G(3)] sealed_over_append[OF F(3)] G(1) by blast
  moreover have "F \<union> G \<subseteq> {length h..<length h2}" using F(1,2) G(1,2) by auto
  ultimately show ?thesis by (intro frozen_asI[of _ _ "xs @ ys" "F \<union> G"]) (use F G assms(3) in auto)
qed

lemma frozen_tuple:
  assumes "frozen_as h rs h1 A"
  shows "frozen_as h [Ref (length h1)] (h1 @ [OTuple rs]) A"
proof -
  obtain F xs where F: "h1 = h @ xs" "F \<subseteq> {length h..<length h1}" "sealed_over h1 F A" "refs rs \<subseteq> F \<union> A"
    using assms unfolding frozen_as_def by blast
  have "sealed_over (h1 @ [OTuple rs]) (insert (length h1) F) A"
    by (rule sealed_over_insert[OF sealed_over_append[OF F(3)]]) (use F(4) in \<open>simp_all add: contents_def obj_at_def\<close>)
  then show ?thesis
    by (intro frozen_asI[of _ _ "xs @ [OTuple rs]" "insert (length h1) F"]) (use F(1,2) in auto)
qed

lemma frozen_proxy:
  assumes "frozen_as h (map snd ms) h1 A"
  shows "frozen_as h [Ref (length h1 + 1)] (h1 @ [ODict ms, OProxy (length h1)]) A"
proof -
  obtain F xs where F: "h1 = h @ xs" "F \<subseteq> {length h..<length h1}" "sealed_over h1 F A" "refs (map snd ms) \<subseteq> F \<union> A"
    using assms unfolding frozen_as_def by blast
  have "sealed_over (h1 @ [ODict ms, OProxy (length h1)]) (insert (length h1 + 1) F) A"
    by (rule sealed_over_insert[OF sealed_over_append[OF F(3)]])
      (use F(4) in \<open>simp_all add: contents_def obj_at_def nth_append\<close>)
  then show ?thesis
    by (intro frozen_asI[of _ _ "xs @ [ODict ms, OProxy (length h1)]" "insert (length h1 + 1) F"]) (use F(1,2) in auto)
qed

lemma freeze_region:
  "frozen_as h [fst (freeze_heap j h)] (snd (freeze_heap j h)) (live_at j)"
  "frozen_as h (fst (freeze_values js h)) (snd (freeze_values js h)) (\<Union>j\<in>set js. live_at j)"
  "frozen_as h (map snd (fst (freeze_members kvs h))) (snd (freeze_members kvs h)) (\<Union>(k, j)\<in>set kvs. live_at j)"
proof (induction j h and js h and kvs h rule: freeze_heap_freeze_values_freeze_members.induct)
  case (7 xs h)
  then show ?case using frozen_tuple by (auto simp: Let_def split: prod.splits)
next
  case (8 kvs h)
  then show ?case using frozen_proxy by (auto simp: Let_def split: prod.splits)
next
  case (10 x xs h)
  obtain r h1 where e: "freeze_heap x h = (r, h1)" by fastforce
  obtain rs h2 where e2: "freeze_values xs h1 = (rs, h2)" by fastforce
  have "frozen_as h [r] h1 (live_at x)" "frozen_as h1 rs h2 (\<Union>j\<in>set xs. live_at j)"
    using 10(1) 10(2)[OF e[symmetric] refl] e e2 by simp_all
  then have "frozen_as h (r # rs) h2 (live_at x \<union> (\<Union>j\<in>set xs. live_at j))" by (rule frozen_append) (auto simp: refs_def)
  then show ?case by (simp add: e e2)
next
  case (12 k x kvs h)
  obtain r h1 where e: "freeze_heap x h = (r, h1)" by fastforce
  obtain ms h2 where e2: "freeze_members kvs h1 = (ms, h2)" by fastforce
  have "frozen_as h [r] h1 (live_at x)" "frozen_as h1 (map snd ms) h2 (\<Union>(k, j)\<in>set kvs. live_at j)"
    using 12(1) 12(2)[OF e[symmetric] refl] e e2 by simp_all
  then have "frozen_as h (r # map snd ms) h2 (live_at x \<union> (\<Union>(k, j)\<in>set kvs. live_at j))"
    by (rule frozen_append) (auto simp: refs_def)
  then show ?case by (simp add: e e2)
qed (simp_all add: frozen_same)

definition live_arguments :: "stage_value list \<Rightarrow> (string \<times> stage_value) list \<Rightarrow> nat set" where
  "live_arguments args kwargs = (\<Union>v\<in>set args. live_at (seal v)) \<union> (\<Union>(k, v)\<in>set kwargs. live_at (seal v))"

lemma seal_arguments_region:
  assumes "seal_arguments args kwargs h = (rs, ms, h')"
  shows "frozen_as h (rs @ map snd ms) h' (live_arguments args kwargs)"
proof -
  obtain h1 ks where e: "freeze_values (map seal args) h = (rs, h1)" "freeze_values (map (seal \<circ> snd) kwargs) h1 = (ks, h')"
    "ms = zip (map fst kwargs) ks"
    using assms by (auto simp: seal_arguments_def Let_def split: prod.splits)
  have "frozen_as h rs h1 (\<Union>v\<in>set args. live_at (seal v))" "frozen_as h1 ks h' (\<Union>(k, v)\<in>set kwargs. live_at (seal v))"
    using freeze_region(2)[where js = "map seal args" and h = h] freeze_region(2)[where js = "map (seal \<circ> snd) kwargs" and h = h1] e(1,2)
    by (simp_all add: case_prod_beta)
  then show ?thesis unfolding live_arguments_def by (rule frozen_append) (auto simp: refs_def e(3) dest: set_zip_rightD)
qed

section \<open>Sealed arguments\<close>

lemma walk_sealed:
  assumes "walk_targets act h seen stack ys = Some r" "sealed_over h F {}" "refs stack \<subseteq> F"
  shows "r = (h, rev ys)"
  using assms(2,3)
proof (induction rule: walk_targets.raw_induct[OF _ assms(1), case_names visit])
  case (visit f act h seen stack ys r)
  show ?case
  proof (cases stack)
    case Nil
    then show ?thesis using visit(2) by simp
  next
    case (Cons item rest)
    show ?thesis
    proof (cases item)
      case (Atom c)
      then show ?thesis using visit(1)[of act h seen rest ys r] visit(2-) Cons by simp
    next
      case (Ref a)
      then have "\<not> yields h a" "refs (contents h a) \<subseteq> F" using visit(3,4) Cons by (auto simp: sealed_over_def yields_iff)
      then show ?thesis
        using visit(1)[of act h seen rest ys r] visit(1)[of act h "a # seen" "rev (contents h a) @ rest" ys r] visit(2-) Cons Ref
        by (auto split: if_splits)
    qed
  qed
qed

lemma each_target_sealed:
  assumes "container_action act" "sealed_over h F {}" "refs (args @ map snd kwargs) \<subseteq> F"
  shows "each_target act args kwargs h = Some (h, [])"
proof -
  obtain h' ys where w: "walk_targets act h [] (rev (args @ map snd kwargs)) [] = Some (h', ys)"
    using container_action.walk_ends[OF assms(1)] by blast
  from walk_sealed[OF this assms(2)] assms(3) show ?thesis by (simp add: each_target_def w del: rev_append)
qed

lemma hostile_sealed:
  assumes "sealed_over h F {}" "refs (args @ map snd kwargs) \<subseteq> F"
  shows "run_hostile v passes args kwargs h = Some (hostile_answer v, if v = Flood then h @ [ODict forged_entry] else h, [])"
proof -
  have passes: "(thread_pass [] ^^ n) h = h" for n by (induction n) (simp_all add: thread_pass_def)
  note sealed = each_target_sealed[OF _ assms]
  show ?thesis
    using sealed[OF clear.container_action_axioms] sealed[OF downgrade.container_action_axioms] sealed[OF drop.container_action_axioms]
      sealed[OF dup.container_action_axioms] sealed[OF reorder.container_action_axioms] sealed[OF capture.container_action_axioms]
      each_target_sealed[OF flood.container_action_axioms[of "length h"] sealed_over_append[OF assms(1), of "[ODict forged_entry]"] assms(2)]
    by (cases v) (simp_all add: answering_def passes)
qed

text \<open>What the traversal can reach from some objects.\<close>

inductive reached :: "heap \<Rightarrow> nat set \<Rightarrow> nat \<Rightarrow> bool" for h A where
  start: "a \<in> A \<Longrightarrow> reached h A a"
| follow: "reached h A b \<Longrightarrow> Ref a \<in> set (contents h b) \<Longrightarrow> reached h A a"

lemma reached_empty: "\<not> reached h {} a"
proof
  assume "reached h {} a" then show False by induction simp
qed

lemma reached_closed:
  assumes "closed_set h {..<length h}" "A \<subseteq> {..<length h}"
  shows "closed_set h (Collect (reached h A))"
proof -
  have "a < length h" if "reached h A a" for a
    using that by induction (use assms in \<open>auto simp: closed_set_def refs_def\<close>)
  then show ?thesis using assms(1) by (auto simp: closed_set_def refs_def intro: reached.follow)
qed

lemma sealed_hostile:
  assumes "closed_set h {..<length h}" "live_arguments args kwargs \<subseteq> {..<length h}"
    and s: "seal_arguments args kwargs h = (rs, ms, h1)"
  shows "\<exists>added h' held. h1 = h @ added \<and> run_hostile v passes rs ms h1 = Some (hostile_answer v, h', held) \<and>
    (\<forall>a<length h. \<not> reached h (live_arguments args kwargs) a \<longrightarrow> h' ! a = h ! a) \<and>
    (\<forall>a\<in>set held. a < length h \<longrightarrow> reached h (live_arguments args kwargs) a) \<and>
    (live_arguments args kwargs = {} \<longrightarrow> h' = h1 @ (if v = Flood then [ODict forged_entry] else []) \<and> held = [])"
proof -
  let ?A = "live_arguments args kwargs"
  from seal_arguments_region[OF s] obtain F added where
    F: "h1 = h @ added" "F \<subseteq> {length h..<length h1}" "sealed_over h1 F ?A" "refs (rs @ map snd ms) \<subseteq> F \<union> ?A"
    unfolding frozen_as_def by blast
  let ?G = "Collect (reached h ?A) \<union> F"
  have A: "?A \<subseteq> Collect (reached h ?A)" by (auto intro: reached.start)
  have "closed_set h1 (Collect (reached h ?A))"
    unfolding F(1) by (rule closed_set_append[OF reached_closed[OF assms(1,2)]])
  moreover have "a < length h1 \<and> refs (contents h1 a) \<subseteq> ?G \<and> (\<forall>d. h1 ! a = OProxy d \<longrightarrow> d < length h1)" if "a \<in> F" for a
    using F(3) that A by (fastforce simp: sealed_over_def)
  ultimately have c: "closed_set h1 ?G" by (auto simp: closed_set_def)
  obtain h' held where run: "run_hostile v passes rs ms h1 = Some (hostile_answer v, h', held)"
    using hostile_ends[of v passes rs ms h1] by blast
  have "refs (rs @ map snd ms) \<subseteq> ?G" using F(4) A by blast
  note fr = hostile_frame[OF run c this]
  have "h' ! a = h ! a" if "a < length h" "\<not> reached h ?A a" for a
  proof -
    have "a \<notin> F" "a < length h1" "h1 ! a = h ! a" using that(1) F(1,2) by (auto simp: nth_append)
    then show ?thesis using fr that(2) by auto
  qed
  moreover have "reached h ?A a" if "a \<in> set held" "a < length h" for a
    using fr that F(2) by (auto simp: subset_iff)
  moreover have "h' = h1 @ (if v = Flood then [ODict forged_entry] else []) \<and> held = []" if e: "?A = {}"
    using hostile_sealed[of h1 F rs ms v passes] F(3,4) run unfolding e by (auto split: if_splits)
  ultimately show ?thesis using F(1) run by blast
qed

end
