(* ===== verification/Hostile_Claims.thy ===== *)
theory Hostile_Claims
  imports Hostile_Frame
begin

text \<open>
  Properties of the hostile battery: what it can do to a pipeline that hands out its objects, and how
  little to one that hands out sealed copies.
\<close>

text \<open>Property C10. On a pipeline that seals a stage's arguments the battery reaches live scalars and nothing else.
  Whatever objects the pipeline owns, sealing adds objects and leaves the pipeline's as they are, and every
  hostile stage, however often its threads get round, ends with its fixed answer or exception and leaves every
  object of the pipeline unchanged that cannot be reached from a string, integer or float object of a derived class
  (a member of a string enumeration, say), which the seal lets through; nor does a thread hold any other.
  Where the arguments hold no such object, nothing changes and a thread holds nothing.  The pipeline's
  heap has no dangling reference.\<close>

theorem sealed_arguments_are_untouched:
  assumes "closed_set h {..<length h}" "live_arguments args kwargs \<subseteq> {..<length h}"
  shows "\<exists>rs ms added h' held. seal_arguments args kwargs h = (rs, ms, h @ added) \<and>
    run_hostile v passes rs ms (h @ added) = Some (hostile_answer v, h', held) \<and>
    (\<forall>a<length h. \<not> reached h (live_arguments args kwargs) a \<longrightarrow> h' ! a = h ! a) \<and>
    (\<forall>a\<in>set held. a < length h \<longrightarrow> reached h (live_arguments args kwargs) a) \<and>
    (live_arguments args kwargs = {} \<longrightarrow>
       h' = h @ added @ (if v = Flood then [ODict forged_entry] else []) \<and> held = [])"
proof -
  obtain rs ms h1 where s: "seal_arguments args kwargs h = (rs, ms, h1)" by (metis prod_cases3)
  from sealed_hostile[OF assms s, of v passes] s show ?thesis by auto
qed

text \<open>
  A pipeline with a string enumeration: its member (0), the class (1), the class's table of members (2),
  and a list of findings (3).  The severity of a finding is the member.
\<close>

definition enum_heap :: heap where
  "enum_heap = [OInst True [(''_value_'', Atom (AStr ''HIGH'')), (''__objclass__'', Ref 1)],
     OInst False [(''_member_map_'', Ref 2)], ODict [(KStr ''HIGH'', Ref 0)], OList [Atom (AStr ''AUTH-0042'')]]"

definition severity_argument :: stage_value where
  "severity_argument = SMap [(KStr ''severity'', SLive (TextScalar ''HIGH'') 0)]"

lemma enum_length: "length enum_heap = 4"
  by (simp add: enum_heap_def)

lemma enum_closed: "closed_set enum_heap {..<length enum_heap}"
  by (auto simp: closed_set_def enum_heap_def contents_def obj_at_def less_Suc_eq numeral_3_eq_3 numeral_2_eq_2 refs_def)

lemma enum_reached: "reached enum_heap {0} a \<Longrightarrow> a \<in> {0, 1, 2}"
  by (induction rule: reached.induct) (auto simp: enum_heap_def contents_def obj_at_def)

lemma severity_live: "live_arguments [severity_argument] [] = {0}" "live_arguments [SSeq [SStr ''x'']] [] = {}"
  by (simp_all add: live_arguments_def severity_argument_def seal_def dict_of_def)

theorem sealed_arguments_are_untouched_witness:
  "\<exists>h' held. run_hostile Erase 1 [Ref 5] [] (enum_heap @ [ODict [(KStr ''severity'', Ref 0)], OProxy 4]) =
      Some (Inr hostile_advice, h', held) \<and> h' ! 3 = OList [Atom (AStr ''AUTH-0042'')]"
proof -
  have "live_arguments [severity_argument] [] \<subseteq> {..<length enum_heap}" by (simp add: severity_live enum_heap_def)
  from sealed_arguments_are_untouched[OF enum_closed this, of Erase 1] obtain rs ms added h' held where
    x: "seal_arguments [severity_argument] [] enum_heap = (rs, ms, enum_heap @ added)"
      "run_hostile Erase 1 rs ms (enum_heap @ added) = Some (hostile_answer Erase, h', held)"
      "\<forall>a<length enum_heap. \<not> reached enum_heap {0} a \<longrightarrow> h' ! a = enum_heap ! a"
    unfolding severity_live by blast
  have s: "rs = [Ref 5]" "ms = []" "added = [ODict [(KStr ''severity'', Ref 0)], OProxy 4]"
    using x(1) by (simp_all add: seal_arguments_def severity_argument_def seal_def dict_of_def enum_length)
  have "h' ! 3 = enum_heap ! 3" using x(3)[rule_format, of 3] enum_reached[of 3] by (auto simp: enum_heap_def)
  then show ?thesis using x(2) unfolding s by (simp add: enum_heap_def)
qed

text \<open>
  What the seal lets through: the erasing stage empties the enumeration's table of members, which it
  reaches from the severity it is shown.
\<close>

lemma seal_lets_enumerations_through:
  "\<exists>h'. run_hostile Erase 1 [Ref 5] [] (enum_heap @ [ODict [(KStr ''severity'', Ref 0)], OProxy 4]) =
      Some (Inr hostile_advice, h', []) \<and> h' ! 2 = ODict []"
  by (simp add: enum_heap_def contents_def obj_at_def yields_iff each_target_def answering_def clear_target_def)

text \<open>Property C27. The erasing stage empties exactly what lies open.  On any objects, sharing and cycles included, it ends,
  and it has emptied every list, set and dictionary reached from its arguments through immutable objects and
  instances, and changed nothing else: a container kept inside another mutable container survives, because
  its holder is emptied before it is searched.  No proxy may show a dictionary that is itself laid open.\<close>

theorem erase_empties_what_lies_open:
  assumes "\<And>b d. exposed h (args @ map snd kwargs) b \<Longrightarrow> obj_at h b = Some (OProxy d) \<Longrightarrow> \<not> exposed h (args @ map snd kwargs) d"
  shows "\<exists>h'. run_hostile Erase passes args kwargs h = Some (Inr hostile_advice, h', []) \<and> length h' = length h \<and>
    (\<forall>a<length h. h' ! a = (if exposed h (args @ map snd kwargs) a then emptied (h ! a) else h ! a))"
  using erase_exact[where passes = passes, OF assms] by (simp add: erased_def)

text \<open>A tuple that holds a list that holds a list, given to the erasing stage.\<close>

definition nested_heap :: heap where
  "nested_heap = [OList [Ref 1], OList [Atom (AStr ''AUTH-0042'')], OTuple [Ref 0]]"

lemma nested_exposed: "exposed nested_heap [Ref 2] a \<longleftrightarrow> a \<in> {0, 2}"
proof
  show "a \<in> {0, 2}" if "exposed nested_heap [Ref 2] a"
    using that by (induction rule: exposed.induct) (auto simp: nested_heap_def contents_def obj_at_def yields_iff)
  have two: "exposed nested_heap [Ref 2] 2" by (rule exposed.argument) simp
  then have "exposed nested_heap [Ref 2] 0"
    by (rule exposed.held) (simp_all add: nested_heap_def contents_def obj_at_def yields_iff)
  then show "exposed nested_heap [Ref 2] a" if "a \<in> {0, 2}" using that two by blast
qed

theorem erase_empties_what_lies_open_witness:
  "\<exists>h'. run_hostile Erase 1 [Ref 2] [] nested_heap = Some (Inr hostile_advice, h', []) \<and>
    h' = [OList [], OList [Atom (AStr ''AUTH-0042'')], OTuple [Ref 0]]"
proof -
  have "\<not> exposed nested_heap ([Ref 2] @ map snd []) d"
    if "exposed nested_heap ([Ref 2] @ map snd []) b" "obj_at nested_heap b = Some (OProxy d)" for b d
    using that nested_exposed[of b] by (auto simp: nested_heap_def obj_at_def)
  from erase_empties_what_lies_open[where passes = 1, OF this]
  have "\<exists>h'. run_hostile Erase 1 [Ref 2] [] nested_heap = Some (Inr hostile_advice, h', []) \<and> length h' = length nested_heap \<and>
      (\<forall>a<length nested_heap. h' ! a = (if exposed nested_heap [Ref 2] a then emptied (nested_heap ! a) else nested_heap ! a))"
    by simp
  moreover have "length nested_heap = 3" by (simp add: nested_heap_def)
  ultimately obtain h' where h': "run_hostile Erase 1 [Ref 2] [] nested_heap = Some (Inr hostile_advice, h', [])" "length h' = 3"
    "\<forall>a<3. h' ! a = (if a \<in> {0, 2} then emptied (nested_heap ! a) else nested_heap ! a)"
    by (auto simp only: nested_exposed)
  then obtain x y z where xyz: "h' = [x, y, z]" by (auto simp: length_Suc_conv numeral_3_eq_3)
  have "x = OList []" "y = OList [Atom (AStr ''AUTH-0042'')]" "z = OTuple [Ref 0]"
    using h'(3)[rule_format, of 0] h'(3)[rule_format, of 1] h'(3)[rule_format, of 2] by (simp_all add: xyz nested_heap_def)
  then have "h' = [OList [], OList [Atom (AStr ''AUTH-0042'')], OTuple [Ref 0]]" by (simp add: xyz)
  with h'(1) show ?thesis by blast
qed

text \<open>Every stage ends on every heap, and leaves the objects their constructors.\<close>

lemma hostile_stages_end:
  "\<exists>h' held. run_hostile v passes args kwargs h = Some (hostile_answer v, h', held) \<and> grown_from h h'"
  by (rule hostile_ends)

text \<open>The container that erasing overlooks although it can be reached.\<close>

lemma erase_overlooks_nested_containers:
  "Ref 1 \<in> set (contents nested_heap 0) \<and> yields nested_heap 1 \<and>
    (\<exists>h'. run_hostile Erase 0 [Ref 0] [] nested_heap = Some (Inr hostile_advice, h', []) \<and> h' ! 1 = nested_heap ! 1)"
  by (simp add: nested_heap_def contents_def obj_at_def yields_iff each_target_def answering_def clear_target_def)

end
