(* ===== verification/Repair_Demo.thy ===== *)
theory Repair_Demo
  imports Scripts Remediation
begin

text \<open>
  scripts/demo-autonomous-repair.py: the vulnerable fixture is repaired by an offline stand-in that
  proposes the fixed fixture's file, and both trees go through the release engine.  The evaluator reads
  the tree it is given: files of a \<open>tree\<close> below the root it lies at.  The coordinator names the second
  evaluation after the repair, so the name tells where the tree lies.
  The lemmas: the program exits with 0 exactly when the engine said NO_GO first and GO to the repaired
  tree; its other checks cannot fail.
\<close>

section \<open>Reading a tree\<close>

text \<open>The length of the well-formed UTF-8 sequence a text starts with, 0 if there is none.\<close>

definition utf8_next :: "bytes \<Rightarrow> nat" where
  "utf8_next s = (case map (of_char :: char \<Rightarrow> nat) (take 4 s) of
       [] \<Rightarrow> 0
     | a # rest \<Rightarrow>
         (let cont = (\<lambda>lo hi n. n < length rest \<and> lo \<le> rest ! n \<and> rest ! n \<le> hi);
              tail = (\<lambda>n. cont 0x80 0xBF n) in
          if a < 0x80 then 1
          else if 0xC2 \<le> a \<and> a \<le> 0xDF \<and> tail 0 then 2
          else if a = 0xE0 \<and> cont 0xA0 0xBF 0 \<and> tail 1 then 3
          else if a = 0xED \<and> cont 0x80 0x9F 0 \<and> tail 1 then 3
          else if 0xE1 \<le> a \<and> a \<le> 0xEF \<and> a \<noteq> 0xED \<and> tail 0 \<and> tail 1 then 3
          else if a = 0xF0 \<and> cont 0x90 0xBF 0 \<and> tail 1 \<and> tail 2 then 4
          else if 0xF1 \<le> a \<and> a \<le> 0xF3 \<and> tail 0 \<and> tail 1 \<and> tail 2 then 4
          else if a = 0xF4 \<and> cont 0x80 0x8F 0 \<and> tail 1 \<and> tail 2 then 4
          else 0))"

fun utf8_ok :: "bytes \<Rightarrow> bool" where
  "utf8_ok [] = True"
| "utf8_ok (c # cs) = (let n = utf8_next (c # cs) in n \<noteq> 0 \<and> utf8_ok (drop (n - 1) cs))"

text \<open>Text mode: a carriage return, with or without a line feed, is read as a line feed.\<close>

fun universal_newlines :: "bytes \<Rightarrow> string" where
  "universal_newlines [] = []"
| "universal_newlines (c # cs) =
     (if c = CHR 0x0D then CHR 0x0A # universal_newlines (if starts_with cs [CHR 0x0A] then tl cs else cs)
      else c # universal_newlines cs)"

definition decode_text :: "bytes \<Rightarrow> string option" where
  "decode_text d = (if utf8_ok d then Some (universal_newlines d) else None)"

definition read_tree_text :: "tree \<Rightarrow> string list \<Rightarrow> string res" where
  "read_tree_text t p = (case map_of t p of
       Some (FileNode d) \<Rightarrow>
         (case decode_text d of Some s \<Rightarrow> Inr s | None \<Rightarrow> raise ValueError ''invalid UTF-8'')
     | _ \<Rightarrow> raise OSError ''No such file'')"

text \<open>What the executor's digest and the platform scan see of a tree without links at a root.\<close>

definition tree_files :: "string list \<Rightarrow> tree \<Rightarrow> fixture_file list" where
  "tree_files base t = concat (map (\<lambda>(p, n). case n of
       FileNode d \<Rightarrow> [\<lparr>fx_parts = base @ p, fx_bytes = d\<rparr>] | _ \<Rightarrow> []) t)"

definition tree_entries :: "string list \<Rightarrow> tree \<Rightarrow> fs_entry list" where
  "tree_entries base t = map (\<lambda>(p, n). \<lparr>fe_parts = base @ p, fe_symlink = (n = LinkNode),
       fe_file = (case n of FileNode _ \<Rightarrow> True | _ \<Rightarrow> False),
       fe_size = (case n of FileNode d \<Rightarrow> Some (int (length d)) | _ \<Rightarrow> None),
       fe_text = (case n of FileNode d \<Rightarrow> decode_text d | _ \<Rightarrow> None)\<rparr>) t"

section \<open>The program\<close>

text \<open>
  The package and where its vulnerable fixture and the staging area lie; the two fixtures as trees; the
  identifier and the time of each report.
\<close>

record repair_demo =
  rd_package :: demo_package
  rd_root :: "string list"
  rd_staged :: "string list"
  rd_vulnerable :: tree
  rd_fixed :: tree
  rd_stamp :: "string \<Rightarrow> string \<times> string"

definition repair_release_id :: string where
  "repair_release_id = ''autonomous-repair-demo''"

definition demo_evaluator :: "repair_demo \<Rightarrow> tree_evaluator" where
  "demo_evaluator d release sha t =
    (let place = (if release = repair_release_id then rd_root d else rd_staged d);
         files = tree_files place t; depth = length place; actual = fixture_digest depth files in
     (and_then (read_tree_text t [''app.py'']) (\<lambda>source.
      and_then (demo_release_policy (rd_package d)) (\<lambda>policy.
        evaluate
          (\<lambda>r c. demo_execute actual (if contains ''requester_tenant == resource_tenant'' source then 0 else 1) depth files c)
          None local_gatekeeper (tree_entries place t) (rd_stamp d release)
          \<lparr>rq_release_id = release, rq_root = place, rq_commit_sha = sha\<rparr> policy)), t))"

definition proposal_only_remediator :: "string \<Rightarrow> remediator" where
  "proposal_only_remediator fixed_text context t =
    (if rc_findings context = [] then raise AssertionError ''demo fixture must begin with a blocking finding''
     else Inr [(''app.py'', fixed_text)], t)"

text \<open>The outcome the program prints and its exit code.\<close>

definition repair_succeeded :: "repair_demo \<Rightarrow> remediation_outcome \<Rightarrow> bool res" where
  "repair_succeeded d r =
    (if decision_value (rr_decision (ro_before r)) = ''NO_GO'' \<and>
        (case ro_after r of Some a \<Rightarrow> decision_value (rr_decision a) = ''GO'' | None \<Rightarrow> False) \<and>
        ro_reevaluated_from_scratch r \<and>
        (case ro_proposal r of Some p \<Rightarrow> rp_authority p = ''PROPOSAL_ONLY'' | None \<Rightarrow> False)
     then and_then (tree_sha256 True (rd_vulnerable d)) (\<lambda>now. Inr (now = ro_original_source_sha256 r))
     else Inr False)"

definition autonomous_repair_demo :: "repair_demo \<Rightarrow> (remediation_outcome \<times> int) res" where
  "autonomous_repair_demo d =
     and_then (read_tree_text (rd_fixed d) [''app.py'']) (\<lambda>fixed_text.
     and_then (make_coordinator ''gemini-remediator-demo'' [''app.py'']) (\<lambda>co.
     and_then (coordinator_run co (demo_evaluator d) (proposal_only_remediator fixed_text) repair_release_id None
         (rd_vulnerable d)) (\<lambda>outcome.
     and_then (tree_sha256 True (rd_vulnerable d)) (\<lambda>_.
     and_then (repair_succeeded d outcome) (\<lambda>good.
       Inr (outcome, if good then 0 else 2))))))"

section \<open>What the exit code means\<close>

lemma coordinator_run_shape:
  assumes "coordinator_run co evaluator remediate release sha t = Inr r"
  shows "tree_sha256 True t = Inr (ro_original_source_sha256 r) \<and> (rr_decision (ro_before r) = GO \<longrightarrow> ro_after r = None) \<and>
    (ro_after r \<noteq> None \<longrightarrow> ro_reevaluated_from_scratch r \<and> (\<exists>p. ro_proposal r = Some p \<and> rp_authority p = proposal_authority))"
proof -
  obtain h where h: "tree_sha256 True t = Inr h" using assms by (auto simp: coordinator_run_def and_then_Inr)
  obtain first t1 where e: "evaluator release sha t = (first, t1)" by (cases "evaluator release sha t")
  obtain before where b: "first = Inr before" using assms h e by (auto simp: coordinator_run_def and_then_Inr)
  show ?thesis
  proof (cases "rr_decision before = GO")
    case True
    then show ?thesis using assms h e b by (auto simp: coordinator_run_def)
  next
    case False
    obtain answer t2 where m: "remediate
        \<lparr>rc_release_id = release, rc_base_source_sha256 = h, rc_findings = advisory_projection (rr_findings before)\<rparr> t1 = (answer, t2)"
      by fastforce
    obtain chg p repaired after where
      "make_proposal release h (co_producer_agent_id co) (posix_changes chg) proposal_authority = Inr p"
      "r = \<lparr>ro_release_id = release, ro_original_source_sha256 = h, ro_repaired_source_sha256 = Some repaired,
        ro_before = before, ro_after = Some after, ro_proposal = Some p, ro_reevaluated_from_scratch = True\<rparr>"
      using assms h e b False m by (auto simp: coordinator_run_def and_then_Inr)
    moreover from this(1) have "rp_authority p = proposal_authority"
      by (auto simp: make_proposal_def Let_def split: if_splits)
    ultimately show ?thesis using h False by simp
  qed
qed

lemma repair_demo_exit_code:
  assumes "autonomous_repair_demo d = Inr (outcome, code)"
  shows "code = 0 \<longleftrightarrow> rr_decision (ro_before outcome) = NO_GO \<and>
    (\<exists>after. ro_after outcome = Some after \<and> rr_decision after = GO)"
proof -
  obtain fixed co good where run: "coordinator_run co (demo_evaluator d) (proposal_only_remediator fixed) repair_release_id None
        (rd_vulnerable d) = Inr outcome" and good: "repair_succeeded d outcome = Inr good" "code = (if good then 0 else 2)"
    using assms by (auto simp: autonomous_repair_demo_def and_then_Inr)
  have texts: "decision_value x = ''NO_GO'' \<longleftrightarrow> x = NO_GO" "decision_value x = ''GO'' \<longleftrightarrow> x = GO" for x
    by (cases x; simp)+
  show ?thesis
    using good coordinator_run_shape[OF run]
    by (auto simp: repair_succeeded_def proposal_authority_def texts split: option.splits if_splits)
qed

end
