(* ===== verification/Spec2Isabelle.thy ===== *)
theory Spec2Isabelle
  imports Release_Claims Gate_Claims Coverage_Claims Arena_Claims Repair_Claims Dual_Probe_Claims WebMCP_Claims
    Agentseal_Claims Agents_Claims Challenge_Claims Coverage_Service_Claims WebMCP_Service_Claims
    Advisory_Claims Tracing_Claims Cloud_Claims Attestor_Claims Interface_Claims Script_Claims
    Hostile_Claims Repair_Demo
begin

text \<open>
  Release Sentinel decides whether a release of a repository may go out.  Machine checks collect evidence,
  the evidence is sealed, agents (models, or hostile stand-ins for them) may comment on a redacted
  projection of it, the seal is checked again, and a deterministic gate decides from the evidence alone.
  Around this core the repository attests evidence with signatures, repairs releases by proposals that are
  judged afresh, measures how much its own reference policies miss, lets the public attack it, and offers
  all of this over HTTP, a tool interface for untrusted clients and a command line.  This development
  models that Python code and proves what makes it trustworthy: no agent, client, contestant or telemetry
  backend moves a decision, and evidence that changes yields no decision.

  Paths below are relative to src/release_sentinel/ unless they start with packages/, challenge/, scripts/
  or deploy/.  A theory \<open>X_Claims\<close> holds the properties over the theories it imports; Samples, Demo_Samples
  and Sha256_Vectors hold the concrete inputs at which properties with hypotheses are instantiated.

  Shared ground.
    Prelude: strings as UTF-8 lists, exceptions as values (\<open>exn + 'a\<close>), the string methods, dictionaries.
    Sha256: SHA-256 on 32-bit words, hexadecimal digests, HMAC.  Sha256_Vectors: a bit-serial version the
      simplifier can run, proved equal to it.
    Json, Json_Parse: documents, \<open>json.dumps\<close> in canonical form (injective), \<open>json.loads\<close> and their round trip.
    Immutable: domain/immutable.py.  Http: what a request to a web service ends with.

  The release core.
    Evidence, Judge: domain/evidence.py, release/judge.py and the in-process gate; the abstract specification
      gives every finding a level and takes the strictest, and the judge is proved to implement it.
    Policy: policy/ and the policy store of infrastructure/firestore.py; the locale \<open>policy_store\<close> states what
      a store of immutable revisions promises, and both stores are proved to be one.
    Execution, Scanner: execution/ and release/scanners.py (the two patterns as regular expressions).
    Engine: release/engine.py, domain/release.py; Traced_Engine: the same engine with its spans.
    Attestation, Gatekeeper: operations/ and the remote gate of release/gatekeeper.py.
    Tracing: observability/tracing.py.  Demo_Signer: the process's signing key in operations/attestation.py.

  The agents.
    Agents: agents/registry.py, advisory.py, memory.py.  Workflow: agents/workflow.py, the advisory fleet.
    Remediation_Agent: agents/remediation.py.  Adk_Smoke: infrastructure/adk_smoke.py.
    Agentseal: packages/agentseal, the seals, the sealed stage, the differential check and its certificate.
    Hostile: packages/agentseal, hostile.py, the battery of hostile stages on an explicit object heap; the locale
      \<open>container_action\<close> is what a stage may do to a container so that the traversal ends.  Hostile_Frame: what a stage
      can change that is handed sealed arguments.  Objects of classes derived from str, int or float pass the seal as they
      are (\<open>SLive\<close>, \<open>PLive\<close>); only what they lead to can change (locale \<open>framed_action\<close>).

  Repair and rebuild.
    Remediation, Rebuild: remediation/ and rebuild/ over trees held in the state.
    Dual_Probe: parity/, the comparison of a rebuilt service with its predecessor.

  Coverage of the reference policies.
    Signing, Protocol, Receipt, Assessment, Corpus, Minimizer, Oracle, Path_Oracle, Reference_Policy, Benchmark,
    Arena, Comparison: the modules of coverage/ of these names (Receipt also hunt.py and challenge.py, Arena is
    runner.py).  Binary64 is the arithmetic of Python's floats, Wilson what the interval of Assessment is worth in
      it.  The locale \<open>vector_oracle\<close> holds what the two oracles share, \<open>signature_scheme\<close> what a signer promises.

  Services and interfaces.
    Settings, Ledger, Cloud_Proof: infrastructure/settings.py, the report ledger of firestore.py, cloudproof.py
      with kms.py and evidence_signing.py.
    Attestor_Service: interfaces/attestor_api.py.  Demo_Runtime: webmcp/demo_*.py, infrastructure/attestor.py.
    WebMCP, WebMCP_Service, Coverage_Service, Contracts, WebMCP_Api: webmcp/ and interfaces/webmcp_api.py.
    Api, Cli: interfaces/api.py, control_center.py, cli.py and organization_checks/.
    Public_Challenge, Challenge_Worker: public_challenge/ and challenge/runtime/worker.py.
    Scripts, Repair_Demo: scripts/ and deploy/seed_policy.py.

  How the parts meet.  The engine takes an executor, an advisor and a gate as arguments, as the code does;
  Cloud_Proof, Attestor_Service, Demo_Runtime, Api, Cli, Scripts and Repair_Demo call the same \<open>evaluate\<close> with
  their own, so the theorems of Release_Claims, which hold for every advisor, carry over to them.  An advisor
  returns its answer together with the findings as it leaves them, because Python shares them by reference.
  Services with state (the WebMCP adapter, the ledger, the policy stores, the signer's disk, the telemetry
  globals) are functions from the state to a result and a new state.

  What the groups of lemmas show.  Invariants and confinement: what every operation keeps (stores, registries,
  tables, key files) and what a repair, a sandboxed command or a request can touch.  Non-influence: reports,
  verdicts and artifacts are equal, byte for byte, whatever agents, models or telemetry do.  Binding: digests
  and signatures determine the content they name, up to a collision of SHA-256, which the statements exhibit
  as a disjunct (\<open>sha_collision\<close>) and do not assume away.  Refinement: optimised or layered code against a
  specification (judge, certificate, attested results, the traced engine).  Termination and totality: the
  minimizer (whose predicate may raise), the arena, schema expansion, the traversal of the hostile stages.  Failure behaviour: which
  exceptions and HTTP statuses come out of each operation, and that a failing call changes nothing.

  Bounds and fuel.  The JSON reader runs on one unit of fuel per character plus one;
  \<open>loads_needs_no_more_fuel\<close> shows that no more is ever needed.  Schema expansion runs on the depth of Python's
  recursion and is proved to fit for acyclic definitions.  The minimizer is total by the length of its input
  and its budget of evaluations.  \<open>walk_targets\<close> is a partial function that is proved to return on every
  heap.  Everything else is structural recursion or has a termination proof; machine words occur in SHA-256 only.

  Parameters.  Code outside the repository is an argument of the definitions that use it: HTTP exchanges and
  identity tokens, Firestore, Cloud KMS and OpenSSL, the sandbox binary and \<open>subprocess\<close>, the model runtime,
  OpenTelemetry, \<open>ast\<close> and the execution of candidate sources, the schemas pydantic generates, the clock,
  fresh identifiers, and the files of the package.  What is assumed of them is a named hypothesis of the
  statement that needs it (\<open>create_law\<close>, \<open>query_law\<close>, \<open>create_if_absent\<close>, \<open>plain_otel\<close>, \<open>schema_fits\<close>, ...).
  The Wilson interval rounds every operation to binary64; the exact tests (McNemar, Holm) are over the reals.  The
  text of a printed float is a parameter.

  Not modelled: the gatekeeper service itself, which is written in Go (its replies are arbitrary here); the
  static pages, the argument parser and the web framework; the shell scripts; the workflow graph that is
  only built for display; the depth limit of the interpreter in \<open>json.loads\<close>; container classes other than
  lists, tuples, sets, dictionaries, mapping proxies and instances in the hostile traversal; the
  interleaving of threads below whole passes of a hostile thread.
\<close>

end
